(* ===== verification/Core_Error.thy ===== *)
theory Core_Error
  imports Prelude
begin

text \<open>
  \<open>fslite-core/src/error.rs\<close>: the stable error codes and \<open>FsError\<close>. The JSON values of
  \<open>serde_json\<close> that errors, attributes and actor metadata carry are the datatype \<open>json\<close>
  (numbers by their text).
\<close>

datatype json =
    JNull
  | JBool bool
  | JNumber string
  | JString string
  | JArray "json list"
  | JObject "(string \<times> json) list"

datatype error_code =
    InvalidPathOrName
  | NotFound
  | AlreadyExists
  | WrongNodeType
  | DirectoryNotEmpty
  | LinkLoop
  | BrokenLink
  | WorkspaceBoundaryViolation
  | PermissionDenied
  | RevisionConflict
  | QuotaExceeded
  | InvalidRange
  | InvalidCursor
  | StorageBusy
  | InternalStorageFailure

datatype fs_error = FsError (err_code: error_code) (err_message: string) (err_details: json)

type_synonym 'a fs_result = "fs_error + 'a"

definition for_subject :: "error_code \<Rightarrow> string \<Rightarrow> string \<Rightarrow> fs_error" where
  "for_subject code label subject = FsError code (label @ '': '' @ subject) JNull"

definition invalid_path_or_name :: "string \<Rightarrow> fs_error" where
  "invalid_path_or_name = for_subject InvalidPathOrName ''invalid path or name''"

definition not_found :: "string \<Rightarrow> fs_error" where
  "not_found = for_subject NotFound ''not found''"

definition already_exists :: "string \<Rightarrow> fs_error" where
  "already_exists = for_subject AlreadyExists ''already exists''"

definition wrong_node_type :: "string \<Rightarrow> fs_error" where
  "wrong_node_type = for_subject WrongNodeType ''wrong node type''"

definition directory_not_empty :: "string \<Rightarrow> fs_error" where
  "directory_not_empty = for_subject DirectoryNotEmpty ''directory not empty''"

definition link_loop :: "string \<Rightarrow> fs_error" where
  "link_loop = for_subject LinkLoop ''link loop''"

definition broken_link :: "string \<Rightarrow> fs_error" where
  "broken_link = for_subject BrokenLink ''broken link''"

definition permission_denied :: "string \<Rightarrow> fs_error" where
  "permission_denied = for_subject PermissionDenied ''permission denied''"

definition revision_conflict :: "string \<Rightarrow> fs_error" where
  "revision_conflict = for_subject RevisionConflict ''revision conflict''"

definition quota_exceeded :: "string \<Rightarrow> fs_error" where
  "quota_exceeded = for_subject QuotaExceeded ''quota exceeded''"

definition invalid_range :: "string \<Rightarrow> fs_error" where
  "invalid_range = for_subject InvalidRange ''invalid range''"

definition invalid_cursor :: "string \<Rightarrow> fs_error" where
  "invalid_cursor = for_subject InvalidCursor ''invalid cursor''"

definition internal_storage_failure :: "string \<Rightarrow> fs_error" where
  "internal_storage_failure = for_subject InternalStorageFailure ''internal storage failure''"

lemmas error_defs =
  for_subject_def invalid_path_or_name_def not_found_def already_exists_def
  wrong_node_type_def directory_not_empty_def link_loop_def broken_link_def
  permission_denied_def revision_conflict_def quota_exceeded_def invalid_range_def
  invalid_cursor_def internal_storage_failure_def

lemma error_codes [simp]:
  "err_code (invalid_path_or_name s) = InvalidPathOrName"
  "err_code (not_found s) = NotFound"
  "err_code (already_exists s) = AlreadyExists"
  "err_code (wrong_node_type s) = WrongNodeType"
  "err_code (directory_not_empty s) = DirectoryNotEmpty"
  "err_code (link_loop s) = LinkLoop"
  "err_code (broken_link s) = BrokenLink"
  "err_code (permission_denied s) = PermissionDenied"
  "err_code (revision_conflict s) = RevisionConflict"
  "err_code (quota_exceeded s) = QuotaExceeded"
  "err_code (invalid_range s) = InvalidRange"
  "err_code (invalid_cursor s) = InvalidCursor"
  "err_code (internal_storage_failure s) = InternalStorageFailure"
  by (simp_all add: error_defs)

subsection \<open>Sequencing results\<close>

text \<open>The \<open>?\<close> operator on an \<open>FsResult\<close>, and \<open>Iterator::collect\<close> into one.\<close>

fun res_bind :: "'a fs_result \<Rightarrow> ('a \<Rightarrow> 'b fs_result) \<Rightarrow> 'b fs_result" where
  "res_bind (Inl e) f = Inl e"
| "res_bind (Inr x) f = f x"

fun collect_results :: "'a fs_result list \<Rightarrow> 'a list fs_result" where
  "collect_results [] = Inr []"
| "collect_results (Inl e # rs) = Inl e"
| "collect_results (Inr x # rs) =
     (case collect_results rs of Inl e \<Rightarrow> Inl e | Inr xs \<Rightarrow> Inr (x # xs))"

lemma collect_results_Inr: "collect_results (map Inr xs) = Inr xs"
  by (induction xs) auto

lemma collect_results_map:
  "(\<And>x. x \<in> set xs \<Longrightarrow> f x = Inr (g x)) \<Longrightarrow> collect_results (map f xs) = Inr (map g xs)"
  by (induction xs) auto

end
