(* ===== verification/Core_Path.thy ===== *)
theory Core_Path
  imports Core_Error
begin

text \<open>
  \<open>fslite-core/src/path.rs\<close>: \<open>VirtualPath\<close> (absolute, normalized) and \<open>LinkTarget\<close>
  (absolute or relative, with leading \<open>..\<close> kept). The normalization loops push and pop a
  vector of segments; here they fold a step over the split input. The lemmas show that a
  parsed path is canonical, that parsing is idempotent, that \<open>join\<close> is parsing of the
  concatenation and that \<open>name\<close>/\<open>parent\<close>/\<open>join\<close> decompose a path.
\<close>

datatype virtual_path = VirtualPath (as_str: string)

datatype link_target = LinkTarget (target_str: string)

abbreviation slash :: char where "slash \<equiv> CHR ''/''"
abbreviation nul :: char where "nul \<equiv> CHR 0x00"

subsection \<open>Normalization\<close>

definition norm_step :: "string list \<Rightarrow> string \<Rightarrow> string list" where
  "norm_step acc seg =
     (if seg = '''' \<or> seg = ''.'' then acc
      else if seg = ''..'' then butlast acc
      else acc @ [seg])"

definition render_segments :: "string list \<Rightarrow> string" where
  "render_segments segs = (if segs = [] then ''/'' else concat (map (\<lambda>s. slash # s) segs))"

definition normalize :: "string list \<Rightarrow> string" where
  "normalize segs = render_segments (foldl norm_step [] segs)"

definition norm_rel_step :: "string list \<Rightarrow> string \<Rightarrow> string list" where
  "norm_rel_step acc seg =
     (if seg = '''' \<or> seg = ''.'' then acc
      else if seg = ''..'' \<and> acc \<noteq> [] \<and> last acc \<noteq> ''..'' then butlast acc
      else acc @ [seg])"

definition normalize_relative :: "string list \<Rightarrow> string" where
  "normalize_relative segs =
     (let normalized = foldl norm_rel_step [] segs
      in if normalized = [] then ''.'' else join_on slash normalized)"

subsection \<open>VirtualPath\<close>

definition vp_parse :: "string \<Rightarrow> virtual_path fs_result" where
  "vp_parse input =
     (if \<not> prefix ''/'' input \<or> nul \<in> set input then Inl (invalid_path_or_name input)
      else Inr (VirtualPath (normalize (split_on slash input))))"

definition vp_root :: virtual_path where
  "vp_root = VirtualPath ''/''"

definition vp_name :: "virtual_path \<Rightarrow> string option" where
  "vp_name p =
     (if length (as_str p) = 1 then None else Some (last (split_on slash (as_str p))))"

definition rfind :: "char \<Rightarrow> string \<Rightarrow> nat option" where
  "rfind c s =
     (if c \<in> set s then Some (length s - Suc (length (takeWhile (\<lambda>x. x \<noteq> c) (rev s))))
      else None)"

definition vp_parent :: "virtual_path \<Rightarrow> virtual_path option" where
  "vp_parent p =
     (case rfind slash (as_str p) of
        None \<Rightarrow> None
      | Some separator \<Rightarrow>
          if separator = 0
          then (if length (as_str p) = 1 then None else Some vp_root)
          else Some (VirtualPath (take separator (as_str p))))"

definition vp_segments :: "virtual_path \<Rightarrow> string list" where
  "vp_segments p = filter (\<lambda>s. s \<noteq> '''') (split_on slash (tl (as_str p)))"

definition vp_join :: "virtual_path \<Rightarrow> string \<Rightarrow> virtual_path fs_result" where
  "vp_join p relative =
     (if prefix ''/'' relative \<or> nul \<in> set relative then Inl (invalid_path_or_name relative)
      else Inr (VirtualPath (normalize (vp_segments p @ split_on slash relative))))"

subsection \<open>LinkTarget\<close>

definition lt_parse :: "string \<Rightarrow> link_target fs_result" where
  "lt_parse input =
     (if input = '''' \<or> nul \<in> set input then Inl (invalid_path_or_name input)
      else Inr (LinkTarget
        (if prefix ''/'' input then normalize (split_on slash input)
         else normalize_relative (split_on slash input))))"

definition lt_is_absolute :: "link_target \<Rightarrow> bool" where
  "lt_is_absolute t = prefix ''/'' (target_str t)"

subsection \<open>Canonical paths\<close>

text \<open>
  The invariant of the private field \<open>canonical\<close>: a rendering of segments none of which
  is empty, \<open>.\<close>, \<open>..\<close>, or holds a slash or a NUL.
\<close>

definition valid_seg :: "string \<Rightarrow> bool" where
  "valid_seg s \<longleftrightarrow> s \<noteq> '''' \<and> s \<noteq> ''.'' \<and> s \<noteq> ''..'' \<and> slash \<notin> set s \<and> nul \<notin> set s"

definition path_of :: "string list \<Rightarrow> virtual_path" where
  "path_of segs = VirtualPath (render_segments segs)"

definition canonical :: "virtual_path \<Rightarrow> bool" where
  "canonical p \<longleftrightarrow> list_all valid_seg (vp_segments p) \<and> p = path_of (vp_segments p)"

lemma valid_segD [dest]:
  "valid_seg s \<Longrightarrow> s \<noteq> ''''" "valid_seg s \<Longrightarrow> slash \<notin> set s" "valid_seg s \<Longrightarrow> nul \<notin> set s"
  by (simp_all add: valid_seg_def)

lemma norm_step_valid [path_simps]: "valid_seg s \<Longrightarrow> norm_step acc s = acc @ [s]"
  by (simp add: valid_seg_def norm_step_def)

lemma norm_fold_valid [path_simps]:
  "list_all valid_seg segs \<Longrightarrow> foldl norm_step acc segs = acc @ segs"
  by (induction segs arbitrary: acc) (auto simp: norm_step_valid)

lemma norm_fold_keeps:
  "list_all valid_seg acc \<Longrightarrow> list_all (\<lambda>s. slash \<notin> set s \<and> nul \<notin> set s) segs
    \<Longrightarrow> list_all valid_seg (foldl norm_step acc segs)"
proof (induction segs arbitrary: acc)
  case Nil
  then show ?case by simp
next
  case (Cons s segs)
  from Cons.prems have "list_all valid_seg (norm_step acc s)"
    by (auto simp: norm_step_def valid_seg_def list_all_iff dest: in_set_butlastD)
  with Cons show ?case by simp
qed

lemma split_all_clean:
  "nul \<notin> set input \<Longrightarrow> list_all (\<lambda>s. slash \<notin> set s \<and> nul \<notin> set s) (split_on slash input)"
  using split_on_no_sep split_on_subset by (fastforce simp: list_all_iff)

lemma render_nonempty: "segs \<noteq> [] \<Longrightarrow> render_segments segs = slash # join_on slash segs"
  by (induction slash segs rule: join_on.induct) (auto simp: render_segments_def)

lemma tl_render: "segs \<noteq> [] \<Longrightarrow> tl (render_segments segs) = join_on slash segs"
  by (simp add: render_nonempty)

lemma segments_path_of [path_simps]:
  assumes "list_all valid_seg segs"
  shows "vp_segments (path_of segs) = segs"
proof (cases "segs = []")
  case True
  then show ?thesis by (simp add: path_of_def vp_segments_def render_segments_def)
next
  case False
  with assms have "split_on slash (join_on slash segs) = segs"
    by (intro split_join_on) (auto simp: list_all_iff)
  moreover have "filter (\<lambda>s. s \<noteq> '''') segs = segs"
    using assms by (auto simp: list_all_iff filter_id_conv)
  ultimately show ?thesis
    using False by (simp add: path_of_def vp_segments_def tl_render)
qed

lemma canonical_path_of [path_simps]: "list_all valid_seg segs \<Longrightarrow> canonical (path_of segs)"
  by (simp add: canonical_def segments_path_of)

lemma canonicalE:
  assumes "canonical p"
  obtains segs where "p = path_of segs" "list_all valid_seg segs" "vp_segments p = segs"
  using assms by (auto simp: canonical_def)

lemma canonical_eqI: "canonical p \<Longrightarrow> canonical q \<Longrightarrow> vp_segments p = vp_segments q \<Longrightarrow> p = q"
  by (metis canonical_def)

lemma split_render [path_simps]:
  assumes "list_all valid_seg segs"
  shows "split_on slash (render_segments segs) = (if segs = [] then ['''', ''''] else '''' # segs)"
proof (cases "segs = []")
  case True
  then show ?thesis by (simp add: render_segments_def)
next
  case False
  with assms have "split_on slash (join_on slash segs) = segs"
    by (intro split_join_on) (auto simp: list_all_iff)
  with False show ?thesis by (simp add: render_nonempty)
qed

lemma canonical_root [simp]: "canonical vp_root"
  using canonical_path_of [of "[]"] by (simp add: vp_root_def path_of_def render_segments_def)

lemma vp_root_path_of: "vp_root = path_of []"
  by (simp add: vp_root_def path_of_def render_segments_def)

lemma vp_segments_root [simp]: "vp_segments vp_root = []"
  by (simp add: vp_root_path_of segments_path_of)

subsection \<open>Parsing and joining\<close>

lemma vp_parse_segments:
  assumes "vp_parse input = Inr p"
  shows "canonical p" and "vp_segments p = foldl norm_step [] (split_on slash input)"
proof -
  let ?segs = "foldl norm_step [] (split_on slash input)"
  from assms have "nul \<notin> set input" and p: "p = path_of ?segs"
    by (auto simp: vp_parse_def path_of_def normalize_def split: if_splits)
  then have "list_all valid_seg ?segs"
    by (intro norm_fold_keeps split_all_clean) simp_all
  with p show "canonical p" and "vp_segments p = ?segs"
    by (simp_all add: path_simps)
qed

lemma render_no_nul: "list_all valid_seg segs \<Longrightarrow> nul \<notin> set (render_segments segs)"
  by (auto simp: render_segments_def list_all_iff)

lemma vp_parse_as_str:
  assumes "canonical p"
  shows "vp_parse (as_str p) = Inr p"
proof -
  from assms obtain segs where p: "p = path_of segs" and v: "list_all valid_seg segs"
    by (rule canonicalE)
  from v have "prefix ''/'' (render_segments segs)"
    by (cases "segs = []") (simp_all add: render_nonempty, simp add: render_segments_def)
  moreover have "foldl norm_step [] (split_on slash (render_segments segs)) = segs"
    using v by (auto simp: split_render norm_fold_valid norm_step_def)
  ultimately show ?thesis
    using v by (simp add: p path_of_def vp_parse_def render_no_nul normalize_def)
qed

lemma vp_join_segments:
  assumes "canonical p" and "vp_join p rel = Inr q"
  shows "canonical q"
    and "vp_segments q = foldl norm_step (vp_segments p) (split_on slash rel)"
proof -
  let ?segs = "foldl norm_step (vp_segments p) (split_on slash rel)"
  from assms(1) have v: "list_all valid_seg (vp_segments p)" by (simp add: canonical_def)
  with assms(2) have "nul \<notin> set rel" and q: "q = path_of ?segs"
    by (auto simp: vp_join_def path_of_def normalize_def norm_fold_valid split: if_splits)
  then have "list_all valid_seg ?segs"
    by (intro norm_fold_keeps split_all_clean v)
  with q show "canonical q" and "vp_segments q = ?segs"
    by (simp_all add: path_simps)
qed

lemma vp_join_seg:
  assumes "canonical p" and "valid_seg s"
  shows "vp_join p s = Inr (path_of (vp_segments p @ [s]))"
proof -
  from assms(2) have "\<not> prefix ''/'' s" "nul \<notin> set s" "split_on slash s = [s]"
    by (auto simp: valid_seg_def split_on_plain prefix_def)
  moreover from assms have "foldl norm_step [] (vp_segments p @ [s]) = vp_segments p @ [s]"
    by (subst norm_fold_valid) (auto simp: canonical_def)
  ultimately show ?thesis by (simp add: vp_join_def normalize_def path_of_def)
qed

lemma split_on_append_slash:
  "split_on slash (s @ slash # t) = split_on slash s @ split_on slash t"
  by (induction s) (auto split: list.splits)

text \<open>Joining is parsing the rendered path with the relative part appended.\<close>

lemma vp_join_eq_parse:
  assumes "canonical p" and "\<not> prefix ''/'' rel" and "nul \<notin> set rel"
  shows "vp_join p rel = vp_parse (as_str p @ slash # rel)"
proof -
  from assms(1) obtain segs where p: "p = path_of segs" and v: "list_all valid_seg segs"
    and s: "vp_segments p = segs"
    by (rule canonicalE)
  have "foldl norm_step [] (split_on slash (render_segments segs)) = segs"
    using v by (auto simp: split_render norm_fold_valid norm_step_def)
  moreover have "prefix ''/'' (render_segments segs @ slash # rel)"
    by (cases "segs = []") (simp_all add: render_nonempty, simp add: render_segments_def)
  ultimately show ?thesis
    using assms v s
    by (simp add: vp_join_def vp_parse_def p path_of_def render_no_nul normalize_def
        split_on_append_slash norm_fold_valid)
qed

subsection \<open>Name and parent\<close>

lemma rfind_app: "slash \<notin> set s \<Longrightarrow> rfind slash (r @ slash # s) = Some (length r)"
proof -
  assume "slash \<notin> set s"
  then have "takeWhile (\<lambda>x. x \<noteq> slash) (rev s @ slash # rev r) = rev s"
    by (subst takeWhile_append2) auto
  then show ?thesis by (simp add: rfind_def)
qed

lemma render_snoc:
  "render_segments (ss @ [x]) = (if ss = [] then '''' else render_segments ss) @ slash # x"
  by (simp add: render_segments_def)

lemma render_length: "segs \<noteq> [] \<Longrightarrow> list_all valid_seg segs \<Longrightarrow> 1 < length (render_segments segs)"
  by (cases segs) (auto simp: render_segments_def valid_seg_def)

lemma vp_name_snoc [path_simps]:
  assumes "list_all valid_seg (ss @ [x])"
  shows "vp_name (path_of (ss @ [x])) = Some x"
  using assms render_length [of "ss @ [x]"]
  by (auto simp: vp_name_def path_of_def split_render)

lemma vp_parent_snoc [path_simps]:
  assumes "list_all valid_seg (ss @ [x])"
  shows "vp_parent (path_of (ss @ [x])) = Some (path_of ss)"
proof (cases "ss = []")
  case True
  with assms have "1 < length (render_segments [x])"
    by (intro render_length) auto
  with True assms show ?thesis
    using rfind_app [of x "[]"]
    by (auto simp: vp_parent_def path_of_def render_segments_def vp_root_def)
next
  case False
  with assms have "render_segments (ss @ [x]) = render_segments ss @ slash # x"
    and "1 < length (render_segments ss)" and "slash \<notin> set x"
    using render_length [of ss] by (auto simp: render_snoc)
  then show ?thesis
    by (auto simp: vp_parent_def path_of_def rfind_app)
qed

lemma vp_name_root [simp]: "vp_name vp_root = None"
  by (simp add: vp_name_def vp_root_def)

lemma vp_name_NoneD: "canonical p \<Longrightarrow> vp_name p = None \<Longrightarrow> vp_segments p = []"
  by (metis canonicalE option.distinct(1) rev_exhaust vp_name_snoc)

lemma vp_name_SomeE:
  assumes "canonical p" and "vp_name p = Some x"
  obtains ss where "vp_segments p = ss @ [x]" "list_all valid_seg (ss @ [x])"
    "vp_parent p = Some (path_of ss)" "p = path_of (ss @ [x])"
proof -
  from assms(1) obtain segs where p: "p = path_of segs" "list_all valid_seg segs"
    "vp_segments p = segs"
    by (rule canonicalE)
  show thesis
  proof (cases segs rule: rev_cases)
    case Nil
    with p assms(2) show thesis by (simp flip: vp_root_path_of)
  next
    case (snoc ss y)
    with p assms(2) have "y = x" by (simp add: path_simps)
    with p snoc show thesis using that [of ss] by (simp add: path_simps)
  qed
qed

subsection \<open>Link targets\<close>

text \<open>A normalized relative target: leading \<open>..\<close> segments, then valid ones.\<close>

definition rel_form :: "string list \<Rightarrow> bool" where
  "rel_form segs \<longleftrightarrow>
     list_all valid_seg (dropWhile (\<lambda>s. s = ''..'') segs)"

lemma rel_form_iff:
  "rel_form segs \<longleftrightarrow> (\<exists>k vs. segs = replicate k ''..'' @ vs \<and> list_all valid_seg vs)"
proof
  assume "rel_form segs"
  moreover have "takeWhile (\<lambda>s. s = ''..'') segs
      = replicate (length (takeWhile (\<lambda>s. s = ''..'') segs)) ''..''"
    by (rule replicate_eqI) (auto dest: set_takeWhileD)
  ultimately show "\<exists>k vs. segs = replicate k ''..'' @ vs \<and> list_all valid_seg vs"
    unfolding rel_form_def by (metis takeWhile_dropWhile_id)
next
  assume "\<exists>k vs. segs = replicate k ''..'' @ vs \<and> list_all valid_seg vs"
  then obtain k vs where s: "segs = replicate k ''..'' @ vs" and v: "list_all valid_seg vs"
    by blast
  from v have "dropWhile (\<lambda>s. s = ''..'') (replicate k ''..'' @ vs) = vs"
    by (induction k) (cases vs, auto simp: valid_seg_def)
  then show "rel_form segs" using v by (simp add: s rel_form_def)
qed

lemma norm_rel_step_form:
  assumes "rel_form acc" and "slash \<notin> set s" and "nul \<notin> set s"
  shows "rel_form (norm_rel_step acc s)"
proof -
  from assms(1) obtain k vs where a: "acc = replicate k ''..'' @ vs" and v: "list_all valid_seg vs"
    by (auto simp: rel_form_iff)
  have plain: "rel_form (acc @ [s])" if "valid_seg s"
    using that v a by (auto simp: rel_form_iff intro!: exI [of _ k] exI [of _ "vs @ [s]"])
  show ?thesis
  proof (cases vs rule: rev_cases)
    case Nil
    have "rel_form (replicate k ''..'' @ [''..''])"
      unfolding rel_form_iff
      by (intro exI [of _ "Suc k"] exI [of _ "[]"]) (simp add: replicate_append_same)
    with Nil a assms plain show ?thesis
      by (auto simp: norm_rel_step_def valid_seg_def)
  next
    case (snoc ws w)
    with v have w: "w \<noteq> ''..''" "list_all valid_seg ws" by (auto simp: valid_seg_def)
    with snoc a have "rel_form (butlast acc)" and "last acc \<noteq> ''..''" and "acc \<noteq> []"
      by (auto simp: rel_form_iff butlast_append)
    with assms plain show ?thesis
      by (auto simp: norm_rel_step_def valid_seg_def)
  qed
qed

lemma norm_rel_fold_form:
  "rel_form acc \<Longrightarrow> list_all (\<lambda>s. slash \<notin> set s \<and> nul \<notin> set s) segs
    \<Longrightarrow> rel_form (foldl norm_rel_step acc segs)"
  by (induction segs arbitrary: acc) (auto simp: norm_rel_step_form)

lemma norm_rel_fold_dots:
  "foldl norm_rel_step (replicate j ''..'') (replicate k ''..'') = replicate (j + k) ''..''"
proof (induction k arbitrary: j)
  case 0
  then show ?case by simp
next
  case (Suc k)
  have "norm_rel_step (replicate j ''..'') ''..'' = replicate (Suc j) ''..''"
    by (cases "j = 0") (simp_all add: norm_rel_step_def replicate_append_same)
  with Suc [of "Suc j"] show ?case by simp
qed

lemma norm_rel_fold_valid:
  "list_all valid_seg vs \<Longrightarrow> foldl norm_rel_step acc vs = acc @ vs"
  by (induction vs arbitrary: acc) (auto simp: norm_rel_step_def valid_seg_def)

lemma norm_rel_fold_id: "rel_form segs \<Longrightarrow> foldl norm_rel_step [] segs = segs"
  using norm_rel_fold_dots [of 0]
  by (auto simp: rel_form_iff norm_rel_fold_valid)

lemma rel_form_segs:
  assumes "rel_form segs" and "s \<in> set segs"
  shows "s \<noteq> ''''" and "s \<noteq> ''.''" and "slash \<notin> set s" and "nul \<notin> set s"
proof -
  from assms(1) obtain k vs where "segs = replicate k ''..'' @ vs" "list_all valid_seg vs"
    by (auto simp: rel_form_iff)
  with assms(2) have "s = ''..'' \<or> valid_seg s" by (auto simp: list_all_iff)
  then show "s \<noteq> ''''" and "s \<noteq> ''.''" and "slash \<notin> set s" and "nul \<notin> set s"
    by (elim disjE; simp add: valid_seg_def)+
qed

lemma join_on_set: "x \<in> set (join_on c xs) \<Longrightarrow> x = c \<or> (\<exists>s \<in> set xs. x \<in> set s)"
  by (induction c xs rule: join_on.induct) auto

lemma join_on_Cons: "join_on c (x # xs) = x @ (if xs = [] then [] else c # join_on c xs)"
  by (cases xs) auto

lemma join_on_first:
  assumes "xs \<noteq> []" and "\<And>s. s \<in> set xs \<Longrightarrow> s \<noteq> [] \<and> c \<notin> set s"
  shows "\<exists>y ys. join_on c xs = y # ys \<and> y \<noteq> c"
proof -
  from assms(1) obtain x xs' where xs: "xs = x # xs'" by (cases xs) auto
  with assms(2) [of x] obtain y x' where "x = y # x'" "y \<noteq> c" by (cases x) auto
  with xs show ?thesis by (simp add: join_on_Cons)
qed

text \<open>Every parsed target parses back to itself.\<close>

lemma lt_parse_target_str:
  assumes "lt_parse input = Inr t"
  shows "lt_parse (target_str t) = Inr t"
proof (cases "prefix ''/'' input")
  case True
  with assms have "vp_parse input = Inr (VirtualPath (target_str t))"
    by (auto simp: lt_parse_def vp_parse_def split: if_splits)
  from vp_parse_as_str [OF vp_parse_segments(1) [OF this]] show ?thesis
    by (cases t) (auto simp: vp_parse_def lt_parse_def split: if_splits)
next
  case False
  let ?segs = "foldl norm_rel_step [] (split_on slash input)"
  from assms False have t: "target_str t = (if ?segs = [] then ''.'' else join_on slash ?segs)"
    and "nul \<notin> set input"
    by (auto simp: lt_parse_def normalize_relative_def Let_def split: if_splits)
  then have rf: "rel_form ?segs"
    by (intro norm_rel_fold_form split_all_clean) (simp_all add: rel_form_def)
  show ?thesis
  proof (cases "?segs = []")
    case True
    with t show ?thesis
      by (cases t) (simp add: lt_parse_def normalize_relative_def norm_rel_step_def)
  next
    case ne: False
    with t have ts: "target_str t = join_on slash ?segs" by simp
    obtain y ys where y: "join_on slash ?segs = y # ys" "y \<noteq> slash"
      using join_on_first [OF ne, of slash] rel_form_segs [OF rf] by blast
    have "nul \<notin> set (join_on slash ?segs)"
      using rel_form_segs(4) [OF rf] by (auto dest: join_on_set)
    moreover have "split_on slash (join_on slash ?segs) = ?segs"
      using ne rel_form_segs(3) [OF rf] by (intro split_join_on) blast+
    ultimately show ?thesis
      using y ne norm_rel_fold_id [OF rf] ts
      by (cases t) (simp add: lt_parse_def normalize_relative_def)
  qed
qed

end
