(* ===== verification/Core_Model.thy ===== *)
theory Core_Model
  imports Core_Path
begin

text \<open>
  \<open>fslite-core/src/model.rs\<close>, \<open>options.rs\<close> and the data of \<open>fs.rs\<close>: revisions, nodes, the
  option records with their defaults, capabilities and request contexts, pages, trash and
  change records, and the batch operations. Identifiers (UUIDs) are their canonical text,
  which is what the database stores; \<open>i64\<close> timestamps are integers.
\<close>

type_synonym uuid = string
type_synonym actor = "(string \<times> json) list"

subsection \<open>Revisions\<close>

datatype revision = Revision (rev_get: u64)

definition rev_initial :: revision where
  "rev_initial = Revision 1"

definition rev_new :: "u64 \<Rightarrow> revision option" where
  "rev_new value = (if value = 0 then None else Some (Revision value))"

text \<open>\<^const>\<open>None\<close> is the panic on overflow.\<close>

definition rev_next :: "revision \<Rightarrow> revision option" where
  "rev_next r =
     (if unat (rev_get r) + 1 < 2 ^ 64 then Some (Revision (rev_get r + 1)) else None)"

subsection \<open>Nodes\<close>

datatype node_kind = Directory | File | Symlink

record node =
  nd_workspace_id :: uuid
  nd_id :: uuid
  nd_parent_id :: "uuid option"
  nd_name :: string
  nd_kind :: node_kind
  nd_logical_size :: u64
  nd_created_at_ms :: int
  nd_modified_at_ms :: int
  nd_accessed_at_ms :: int
  nd_revision :: revision
  nd_attributes :: "(string \<times> json) list"

subsection \<open>Options\<close>

record byte_range =
  br_start :: u64
  br_end :: u64

definition br_new :: "u64 \<Rightarrow> u64 \<Rightarrow> byte_range" where
  "br_new s e = \<lparr>br_start = s, br_end = e\<rparr>"

definition br_len :: "byte_range \<Rightarrow> u64" where
  "br_len r = (if br_end r < br_start r then 0 else br_end r - br_start r)"

definition br_is_empty :: "byte_range \<Rightarrow> bool" where
  "br_is_empty r \<longleftrightarrow> br_start r \<ge> br_end r"

definition DEFAULT_PAGE_LIMIT :: nat where
  "DEFAULT_PAGE_LIMIT = 100"

record page_request =
  pr_cursor :: "string option"
  pr_limit :: nat

definition page_request_default :: page_request where
  "page_request_default = \<lparr>pr_cursor = None, pr_limit = DEFAULT_PAGE_LIMIT\<rparr>"

record stat_options =
  so_follow_symlinks :: bool

definition stat_options_default :: stat_options where
  "stat_options_default = \<lparr>so_follow_symlinks = True\<rparr>"

record tree_options =
  to_max_depth :: "nat option"
  to_follow_symlinks :: bool

definition tree_options_default :: tree_options where
  "tree_options_default = \<lparr>to_max_depth = None, to_follow_symlinks = False\<rparr>"

record create_options =
  co_parents :: bool
  co_exist_ok :: bool
  co_expected_revision :: "revision option"

definition create_options_default :: create_options where
  "create_options_default =
     \<lparr>co_parents = False, co_exist_ok = False, co_expected_revision = None\<rparr>"

record read_options =
  ro_range :: "byte_range option"
  ro_follow_symlinks :: bool

definition read_options_default :: read_options where
  "read_options_default = \<lparr>ro_range = None, ro_follow_symlinks = True\<rparr>"

record write_options =
  wo_create :: bool
  wo_expected_revision :: "revision option"

definition write_options_default :: write_options where
  "write_options_default = \<lparr>wo_create = True, wo_expected_revision = None\<rparr>"

record mutation_options =
  mo_expected_revision :: "revision option"

definition mutation_options_default :: mutation_options where
  "mutation_options_default = \<lparr>mo_expected_revision = None\<rparr>"

record touch_options =
  tco_create :: bool
  tco_expected_revision :: "revision option"

definition touch_options_default :: touch_options where
  "touch_options_default = \<lparr>tco_create = True, tco_expected_revision = None\<rparr>"

record copy_options =
  cpo_recursive :: bool
  cpo_overwrite :: bool
  cpo_expected_revision :: "revision option"

definition copy_options_default :: copy_options where
  "copy_options_default =
     \<lparr>cpo_recursive = False, cpo_overwrite = False, cpo_expected_revision = None\<rparr>"

record move_options =
  mvo_overwrite :: bool
  mvo_expected_revision :: "revision option"

definition move_options_default :: move_options where
  "move_options_default = \<lparr>mvo_overwrite = False, mvo_expected_revision = None\<rparr>"

record remove_options =
  rmo_recursive :: bool
  rmo_expected_revision :: "revision option"

definition remove_options_default :: remove_options where
  "remove_options_default = \<lparr>rmo_recursive = False, rmo_expected_revision = None\<rparr>"

record find_query =
  fq_root :: virtual_path
  fq_name_contains :: "string option"
  fq_kind :: "node_kind option"
  fq_min_logical_size :: "u64 option"
  fq_max_logical_size :: "u64 option"
  fq_modified_after_ms :: "int option"
  fq_modified_before_ms :: "int option"
  fq_attributes :: "(string \<times> json) list"

definition find_query_default :: find_query where
  "find_query_default =
     \<lparr>fq_root = vp_root, fq_name_contains = None, fq_kind = None,
      fq_min_logical_size = None, fq_max_logical_size = None,
      fq_modified_after_ms = None, fq_modified_before_ms = None, fq_attributes = []\<rparr>"

record content_query =
  cq_root :: virtual_path
  cq_needle :: "byte list"

definition content_query_default :: content_query where
  "content_query_default = \<lparr>cq_root = vp_root, cq_needle = []\<rparr>"

subsection \<open>Contexts, pages and result records\<close>

datatype capability = CapRead | CapWrite | CapDelete | CapTrashRestore | CapWorkspaceAdmin

record request_context =
  cx_workspace_id :: uuid
  cx_actor_metadata :: actor
  cx_capabilities :: "capability list"

definition cx_trusted :: "uuid \<Rightarrow> request_context" where
  "cx_trusted w =
     \<lparr>cx_workspace_id = w, cx_actor_metadata = [],
      cx_capabilities = [CapRead, CapWrite, CapDelete, CapTrashRestore, CapWorkspaceAdmin]\<rparr>"

definition has_capability :: "request_context \<Rightarrow> capability \<Rightarrow> bool" where
  "has_capability ctx c \<longleftrightarrow> c \<in> set (cx_capabilities ctx)"

record workspace_usage =
  wu_workspace_id :: uuid
  wu_active_logical_bytes :: u64
  wu_trashed_logical_bytes :: u64
  wu_staged_bytes :: u64
  wu_active_nodes :: u64
  wu_trashed_nodes :: u64
  wu_max_logical_bytes :: u64
  wu_max_nodes :: u64
  wu_max_file_bytes :: u64

record tree_entry =
  te_path :: virtual_path
  te_depth :: nat
  te_node :: node

record 'a page =
  pg_items :: "'a list"
  pg_next_cursor :: "string option"

record trash_entry =
  tr_id :: uuid
  tr_node :: node
  tr_original_path :: virtual_path
  tr_trashed_at_ms :: int
  tr_actor_metadata :: actor

record search_match =
  sm_node :: node
  sm_path :: virtual_path
  sm_range :: byte_range
  sm_preview :: "byte list"

datatype change_kind =
    Created
  | Modified
  | Copied
  | Moved
  | Removed
  | Trashed
  | Restored
  | Purged
  | AttributeSet
  | AttributeRemoved

record change =
  cg_sequence :: u64
  cg_kind :: change_kind
  cg_node_id :: "uuid option"
  cg_old_path :: "virtual_path option"
  cg_new_path :: "virtual_path option"
  cg_revision :: "revision option"
  cg_created_at_ms :: int
  cg_actor_metadata :: actor

datatype batch_operation =
    BMkdir virtual_path create_options
  | BTouch virtual_path touch_options
  | BCopy virtual_path virtual_path copy_options
  | BMove virtual_path virtual_path move_options
  | BRemove virtual_path remove_options
  | BSymlink link_target virtual_path create_options
  | BTrash virtual_path mutation_options
  | BRestore uuid "virtual_path option" mutation_options
  | BPurge uuid
  | BSetAttribute virtual_path string "byte list" mutation_options
  | BRemoveAttribute virtual_path string mutation_options

datatype batch_result = BRNode node | BRTrash trash_entry | BRUnit

subsection \<open>Basic facts\<close>

lemma rev_next_mono: "rev_next r = Some r' \<Longrightarrow> unat (rev_get r') = unat (rev_get r) + 1"
  by (auto simp: rev_next_def unat_word_ariths split: if_splits)

lemma rev_next_new: "rev_next r = Some r' \<Longrightarrow> rev_new (rev_get r') = Some r'"
  by (auto dest: rev_next_mono simp: rev_new_def)

lemma br_len_unat: "unat (br_len r) = unat (br_end r) - unat (br_start r)"
  by (auto simp: br_len_def word_less_nat_alt unat_sub_if')

lemma br_is_empty_len: "br_is_empty r \<longleftrightarrow> br_len r = 0"
  by (auto simp: br_is_empty_def br_len_def)

lemma trusted_all [simp]: "has_capability (cx_trusted w) c"
  by (cases c) (simp_all add: has_capability_def cx_trusted_def)

end
