(* ===== verification/Db.thy ===== *)
theory Db
  imports Core_Model
begin

text \<open>
  The SQLite database of \<open>fslite-sqlite\<close>: the tables of \<open>migrations/0001_initial.sql\<close> as
  lists of rows, its declared constraints, and the SQL statements as operations on the
  tables. A statement computes the table it produces and fails (\<^const>\<open>None\<close>, the
  \<open>rusqlite::Error\<close>) when a declared PRIMARY KEY, UNIQUE or FOREIGN KEY constraint is then
  violated, which is when SQLite checks an immediate constraint; a failed statement leaves
  nothing behind because every caller drops its transaction. I/O failures and lock
  time-outs of SQLite are not modelled.

  What the crate takes from outside (the UUID generator and parser, the clock, the JSON
  codec of the actor metadata, base64) is the record \<open>ext\<close>, an argument of the operations.
  The two counters of the store number the identifiers and the clock readings taken so far.
\<close>

record ext =
  now_v7 :: "nat \<Rightarrow> uuid"
  uuid_parse :: "string \<Rightarrow> string + uuid"
  clock_ms :: "nat \<Rightarrow> int"
  actor_to_json :: "actor \<Rightarrow> string option"
  actor_of_json :: "string \<Rightarrow> actor option"
  base64_url :: "byte list \<Rightarrow> string"

subsection \<open>Rows\<close>

record workspace_row =
  w_id :: uuid
  w_created_at_ms :: int
  w_updated_at_ms :: int
  w_change_seq :: int
  w_max_bytes :: int
  w_max_nodes :: int
  w_max_file_bytes :: int

record generation_row =
  g_id :: uuid
  g_workspace_id :: uuid
  g_complete :: int
  g_length :: int
  g_created_at_ms :: int

text \<open>\<open>raw_node\<close> is \<open>RawNode\<close> of \<open>resolve.rs\<close>: the columns \<open>NODE_COLUMNS\<close> selects.\<close>

record raw_node =
  n_id :: uuid
  n_workspace_id :: uuid
  n_parent_id :: "uuid option"
  n_name :: string
  n_kind :: int
  n_size :: int
  n_revision :: int
  n_created_at_ms :: int
  n_modified_at_ms :: int
  n_accessed_at_ms :: int
  n_content_generation_id :: "uuid option"
  n_symlink_target :: "string option"

record node_row = raw_node +
  n_trashed_at_ms :: "int option"

record chunk_row =
  c_generation_id :: uuid
  c_chunk_index :: int
  c_bytes :: "byte list"

record attribute_row =
  a_node_id :: uuid
  a_key :: string
  a_value :: "byte list"

record trash_row =
  t_id :: uuid
  t_workspace_id :: uuid
  t_node_id :: uuid
  t_original_parent_id :: uuid
  t_original_name :: string
  t_deleted_at_ms :: int

record change_row =
  ch_workspace_id :: uuid
  ch_sequence :: int
  ch_kind :: string
  ch_node_id :: "uuid option"
  ch_old_path :: "string option"
  ch_new_path :: "string option"
  ch_revision :: "int option"
  ch_created_at_ms :: int
  ch_actor_json :: string

record db =
  workspaces :: "workspace_row list"
  generations :: "generation_row list"
  nodes :: "node_row list"
  chunks :: "chunk_row list"
  attributes :: "attribute_row list"
  trash_rows :: "trash_row list"
  changes :: "change_row list"
  ids_used :: nat
  clock_reads :: nat

subsection \<open>Declared constraints\<close>

definition active :: "node_row \<Rightarrow> bool" where
  "active r \<longleftrightarrow> n_trashed_at_ms r = None"

definition pk_ok :: "db \<Rightarrow> bool" where
  "pk_ok s \<longleftrightarrow>
     distinct (map w_id (workspaces s)) \<and>
     distinct (map g_id (generations s)) \<and>
     distinct (map n_id (nodes s)) \<and>
     distinct (map (\<lambda>c. (c_generation_id c, c_chunk_index c)) (chunks s)) \<and>
     distinct (map (\<lambda>a. (a_node_id a, a_key a)) (attributes s)) \<and>
     distinct (map t_id (trash_rows s)) \<and>
     distinct (map (\<lambda>c. (ch_workspace_id c, ch_sequence c)) (changes s))"

text \<open>The partial index \<open>nodes_parent_active\<close>; NULL parents never collide in SQL.\<close>

definition unique_ok :: "db \<Rightarrow> bool" where
  "unique_ok s \<longleftrightarrow>
     distinct (map (\<lambda>r. (n_workspace_id r, n_parent_id r, n_name r))
       (filter (\<lambda>r. active r \<and> n_parent_id r \<noteq> None) (nodes s)))"

definition ref_in :: "'a option \<Rightarrow> 'a list \<Rightarrow> bool" where
  "ref_in x xs \<longleftrightarrow> (case x of None \<Rightarrow> True | Some y \<Rightarrow> y \<in> set xs)"

definition fk_ok :: "db \<Rightarrow> bool" where
  "fk_ok s \<longleftrightarrow>
     (let ws = map w_id (workspaces s); gs = map g_id (generations s); ns = map n_id (nodes s)
      in list_all (\<lambda>g. g_workspace_id g \<in> set ws) (generations s) \<and>
         list_all (\<lambda>r. n_workspace_id r \<in> set ws \<and> ref_in (n_parent_id r) ns \<and>
                       ref_in (n_content_generation_id r) gs) (nodes s) \<and>
         list_all (\<lambda>c. c_generation_id c \<in> set gs) (chunks s) \<and>
         list_all (\<lambda>a. a_node_id a \<in> set ns) (attributes s) \<and>
         list_all (\<lambda>t. t_workspace_id t \<in> set ws \<and> t_node_id t \<in> set ns) (trash_rows s) \<and>
         list_all (\<lambda>c. ch_workspace_id c \<in> set ws) (changes s))"

definition schema_ok :: "db \<Rightarrow> bool" where
  "schema_ok s \<longleftrightarrow> pk_ok s \<and> unique_ok s \<and> fk_ok s"

definition checked :: "db \<Rightarrow> db option" where
  "checked s = (if schema_ok s then Some s else None)"

subsection \<open>Identifiers and clock\<close>

definition new_id :: "ext \<Rightarrow> db \<Rightarrow> uuid \<times> db" where
  "new_id E s = (now_v7 E (ids_used s), s\<lparr>ids_used := Suc (ids_used s)\<rparr>)"

definition now_ms :: "ext \<Rightarrow> db \<Rightarrow> int \<times> db" where
  "now_ms E s = (clock_ms E (clock_reads s), s\<lparr>clock_reads := Suc (clock_reads s)\<rparr>)"

subsection \<open>INSERT, UPDATE\<close>

definition insert_workspace :: "workspace_row \<Rightarrow> db \<Rightarrow> db option" where
  "insert_workspace r s = checked (s\<lparr>workspaces := workspaces s @ [r]\<rparr>)"

definition update_workspace :: "uuid \<Rightarrow> (workspace_row \<Rightarrow> workspace_row) \<Rightarrow> db \<Rightarrow> db option" where
  "update_workspace i f s =
     checked (s\<lparr>workspaces := map (\<lambda>r. if w_id r = i then f r else r) (workspaces s)\<rparr>)"

definition insert_node :: "node_row \<Rightarrow> db \<Rightarrow> db option" where
  "insert_node r s = checked (s\<lparr>nodes := nodes s @ [r]\<rparr>)"

definition update_node :: "uuid \<Rightarrow> (node_row \<Rightarrow> node_row) \<Rightarrow> db \<Rightarrow> db option" where
  "update_node i f s = checked (s\<lparr>nodes := map (\<lambda>r. if n_id r = i then f r else r) (nodes s)\<rparr>)"

definition insert_generation :: "generation_row \<Rightarrow> db \<Rightarrow> db option" where
  "insert_generation r s = checked (s\<lparr>generations := generations s @ [r]\<rparr>)"

definition update_generation ::
    "uuid \<Rightarrow> (generation_row \<Rightarrow> generation_row) \<Rightarrow> db \<Rightarrow> db option" where
  "update_generation i f s =
     checked (s\<lparr>generations := map (\<lambda>r. if g_id r = i then f r else r) (generations s)\<rparr>)"

definition insert_chunks :: "chunk_row list \<Rightarrow> db \<Rightarrow> db option" where
  "insert_chunks rs s = checked (s\<lparr>chunks := chunks s @ rs\<rparr>)"

definition insert_attributes :: "attribute_row list \<Rightarrow> db \<Rightarrow> db option" where
  "insert_attributes rs s = checked (s\<lparr>attributes := attributes s @ rs\<rparr>)"

definition insert_trash :: "trash_row \<Rightarrow> db \<Rightarrow> db option" where
  "insert_trash r s = checked (s\<lparr>trash_rows := trash_rows s @ [r]\<rparr>)"

definition insert_change :: "change_row \<Rightarrow> db \<Rightarrow> db option" where
  "insert_change r s = checked (s\<lparr>changes := changes s @ [r]\<rparr>)"

subsection \<open>DELETE with ON DELETE CASCADE\<close>

text \<open>
  Deleting node rows also deletes, repeatedly, the rows whose parent is deleted
  (\<open>parent_id ... ON DELETE CASCADE\<close>), and the attributes and trash records of all of them.
\<close>

definition cascade_step :: "node_row list \<Rightarrow> uuid list \<Rightarrow> uuid list" where
  "cascade_step rows ids =
     map n_id (filter (\<lambda>r. n_id r \<in> set ids \<or>
       (case n_parent_id r of None \<Rightarrow> False | Some p \<Rightarrow> p \<in> set ids)) rows)"

definition cascade :: "node_row list \<Rightarrow> uuid list \<Rightarrow> uuid list" where
  "cascade rows ids = fold (\<lambda>_. cascade_step rows) rows ids"

definition drop_nodes :: "uuid list \<Rightarrow> db \<Rightarrow> db" where
  "drop_nodes ids s =
     s\<lparr>nodes := filter (\<lambda>r. n_id r \<notin> set ids) (nodes s),
       attributes := filter (\<lambda>a. a_node_id a \<notin> set ids) (attributes s),
       trash_rows := filter (\<lambda>t. t_node_id t \<notin> set ids) (trash_rows s)\<rparr>"

definition delete_nodes :: "(node_row \<Rightarrow> bool) \<Rightarrow> db \<Rightarrow> db option" where
  "delete_nodes P s =
     checked (drop_nodes (cascade (nodes s) (map n_id (filter P (nodes s)))) s)"

definition drop_generations :: "(generation_row \<Rightarrow> bool) \<Rightarrow> db \<Rightarrow> db" where
  "drop_generations P s =
     (let gone = map g_id (filter P (generations s))
      in s\<lparr>generations := filter (\<lambda>g. \<not> P g) (generations s),
           chunks := filter (\<lambda>c. c_generation_id c \<notin> set gone) (chunks s)\<rparr>)"

definition delete_generations :: "(generation_row \<Rightarrow> bool) \<Rightarrow> db \<Rightarrow> db option" where
  "delete_generations P s = checked (drop_generations P s)"

definition delete_attributes :: "(attribute_row \<Rightarrow> bool) \<Rightarrow> db \<Rightarrow> db option" where
  "delete_attributes P s = checked (s\<lparr>attributes := filter (\<lambda>a. \<not> P a) (attributes s)\<rparr>)"

definition delete_trash :: "(trash_row \<Rightarrow> bool) \<Rightarrow> db \<Rightarrow> db option" where
  "delete_trash P s = checked (s\<lparr>trash_rows := filter (\<lambda>t. \<not> P t) (trash_rows s)\<rparr>)"

definition delete_changes :: "(change_row \<Rightarrow> bool) \<Rightarrow> db \<Rightarrow> db option" where
  "delete_changes P s = checked (s\<lparr>changes := filter (\<lambda>c. \<not> P c) (changes s)\<rparr>)"

definition delete_workspace_rows :: "uuid \<Rightarrow> db \<Rightarrow> db option" where
  "delete_workspace_rows w s =
     (let s1 = drop_nodes (cascade (nodes s)
                 (map n_id (filter (\<lambda>r. n_workspace_id r = w) (nodes s)))) s;
          s2 = drop_generations (\<lambda>g. g_workspace_id g = w) s1
      in checked (s2\<lparr>workspaces := filter (\<lambda>r. w_id r \<noteq> w) (workspaces s2),
                     trash_rows := filter (\<lambda>t. t_workspace_id t \<noteq> w) (trash_rows s2),
                     changes := filter (\<lambda>c. ch_workspace_id c \<noteq> w) (changes s2)\<rparr>))"

subsection \<open>Facts about statements\<close>

lemmas stmt_defs =
  insert_workspace_def update_workspace_def insert_node_def update_node_def
  insert_generation_def update_generation_def insert_chunks_def insert_attributes_def
  insert_trash_def insert_change_def delete_nodes_def delete_generations_def
  delete_attributes_def delete_trash_def delete_changes_def delete_workspace_rows_def

lemma checked_Some [row_simps]: "checked s = Some t \<longleftrightarrow> t = s \<and> schema_ok s"
  by (auto simp: checked_def)

lemma checkedI: "schema_ok s \<Longrightarrow> checked s = Some s"
  by (simp add: checked_def)

lemma ref_in_simps [simp]: "ref_in None xs" "ref_in (Some y) xs \<longleftrightarrow> y \<in> set xs"
  by (simp_all add: ref_in_def)

lemma ref_in_mono: "ref_in x xs \<Longrightarrow> set xs \<subseteq> set ys \<Longrightarrow> ref_in x ys"
  by (auto simp: ref_in_def split: option.splits)

text \<open>The counters are not stored: no constraint mentions them.\<close>

lemma schema_ok_ids [simp]: "schema_ok (s\<lparr>ids_used := k\<rparr>) = schema_ok s"
  by (simp add: schema_ok_def pk_ok_def unique_ok_def fk_ok_def)

lemma schema_ok_clock [simp]: "schema_ok (s\<lparr>clock_reads := k\<rparr>) = schema_ok s"
  by (simp add: schema_ok_def pk_ok_def unique_ok_def fk_ok_def)

subsection \<open>The subtree relation\<close>

text \<open>\<open>below rows a x\<close>: the row \<open>x\<close> is \<open>a\<close> or is reached from it by child links.\<close>

inductive below :: "node_row list \<Rightarrow> uuid \<Rightarrow> uuid \<Rightarrow> bool" for rows a where
  self: "a \<in> n_id ` set rows \<Longrightarrow> below rows a a"
| child: "below rows a p \<Longrightarrow> r \<in> set rows \<Longrightarrow> n_parent_id r = Some p \<Longrightarrow> below rows a (n_id r)"

lemma below_in: "below rows a x \<Longrightarrow> a \<in> n_id ` set rows \<and> x \<in> n_id ` set rows"
  by (induction rule: below.induct) auto

lemma below_trans: "below rows b c \<Longrightarrow> below rows a b \<Longrightarrow> below rows a c"
  by (induction rule: below.induct) (auto intro: below.child)

lemma set_cascade_step:
  "set (cascade_step rows ids) =
     {n_id r | r. r \<in> set rows \<and> (n_id r \<in> set ids \<or> (\<exists>p \<in> set ids. n_parent_id r = Some p))}"
  by (auto simp: cascade_step_def split: option.splits)

lemma fold_const_funpow: "fold (\<lambda>_. f) xs = f ^^ length xs"
  by (induction xs) (simp_all add: funpow_Suc_right del: funpow.simps)

lemma cascade_sound:
  "x \<in> set ((cascade_step rows ^^ k) ids) \<Longrightarrow> set ids \<subseteq> n_id ` set rows \<Longrightarrow>
    \<exists>a \<in> set ids. below rows a x"
proof (induction k arbitrary: x)
  case 0
  then show ?case by (auto intro!: bexI [of _ x] below.self)
next
  case (Suc k)
  then show ?case by (fastforce simp: set_cascade_step intro: below.child)
qed

lemma cascade_step_mono:
  "set ids \<subseteq> n_id ` set rows \<Longrightarrow> set ids \<subseteq> set (cascade_step rows ids)"
  by (auto simp: set_cascade_step)

lemma cascade_step_cong: "set xs = set ys \<Longrightarrow> set (cascade_step rows xs) = set (cascade_step rows ys)"
  by (simp add: set_cascade_step)

text \<open>Iterating once per row reaches the fixpoint.\<close>

lemma cascade_fixpoint:
  assumes "set ids \<subseteq> n_id ` set rows"
  shows "set (cascade_step rows (cascade rows ids)) = set (cascade rows ids)"
proof -
  define A where "A k = set ((cascade_step rows ^^ k) ids)" for k
  have sub: "A k \<subseteq> n_id ` set rows" for k
    using assms by (cases k) (auto simp: A_def set_cascade_step)
  have mono: "A k \<subseteq> A (Suc k)" for k
    using cascade_step_mono sub by (simp add: A_def)
  have stable: "A (Suc (Suc k)) = A (Suc k)" if "A (Suc k) = A k" for k
    using cascade_step_cong [of "(cascade_step rows ^^ Suc k) ids" "(cascade_step rows ^^ k) ids"]
      that by (simp add: A_def)
  have card_le: "card (A k) \<le> length rows" for k
    using card_mono [OF _ sub, of k] card_image_le [of "set rows" n_id] card_length [of rows]
    by (meson List.finite_set finite_imageI le_trans)
  have grow: "A (Suc k) \<noteq> A k \<Longrightarrow> \<forall>j \<le> k. A (Suc j) \<noteq> A j" for k
  proof (induction k)
    case 0
    then show ?case by simp
  next
    case (Suc k)
    with stable have "A (Suc k) \<noteq> A k" by blast
    with Suc show ?case by (auto simp: le_Suc_eq)
  qed
  have "k \<le> card (A k)" if "\<forall>j < k. A (Suc j) \<noteq> A j" for k
    using that
  proof (induction k)
    case 0
    then show ?case by simp
  next
    case (Suc k)
    then have "A k \<subset> A (Suc k)" using mono by blast
    then have "card (A k) < card (A (Suc k))"
      by (rule psubset_card_mono [rotated]) (simp add: A_def)
    with Suc show ?case by simp
  qed
  from this [of "Suc (length rows)"] card_le [of "Suc (length rows)"]
  have "A (Suc (length rows)) = A (length rows)"
    using grow [of "length rows"] by (metis Suc_n_not_le_n le_trans less_Suc_eq_le)
  then show ?thesis by (simp add: A_def cascade_def fold_const_funpow)
qed

lemma set_cascade:
  assumes "set ids \<subseteq> n_id ` set rows"
  shows "set (cascade rows ids) = {x. \<exists>a \<in> set ids. below rows a x}"
proof (intro equalityI subsetI)
  fix x assume "x \<in> set (cascade rows ids)"
  with assms show "x \<in> {x. \<exists>a \<in> set ids. below rows a x}"
    using cascade_sound [where k = "length rows"]
    by (simp add: cascade_def fold_const_funpow)
next
  fix x assume "x \<in> {x. \<exists>a \<in> set ids. below rows a x}"
  then obtain a where a: "a \<in> set ids" and "below rows a x" by blast
  from this(2) show "x \<in> set (cascade rows ids)"
  proof (induction rule: below.induct)
    case self
    have "set ids \<subseteq> set ((cascade_step rows ^^ k) ids)" for k
    proof (induction k)
      case (Suc k)
      moreover have "set ((cascade_step rows ^^ k) ids) \<subseteq> n_id ` set rows"
        using assms by (cases k) (auto simp: set_cascade_step)
      ultimately show ?case using cascade_step_mono by fastforce
    qed simp
    with \<open>a \<in> set ids\<close> show ?case by (auto simp: cascade_def fold_const_funpow)
  next
    case (child p r)
    then have "n_id r \<in> set (cascade_step rows (cascade rows ids))"
      by (auto simp: set_cascade_step)
    with cascade_fixpoint [OF assms] show ?case by simp
  qed
qed

end
