(* ===== verification/Resolve.thy ===== *)
theory Resolve
  imports Db
begin

text \<open>
  \<open>fslite-sqlite/src/resolve.rs\<close>: conversion of stored rows to nodes, the lookup queries, and
  the two path resolutions: \<open>resolve\<close> (no symbolic link is followed) and
  \<open>resolve_following\<close> (links in intermediate segments are followed, at most
  \<open>MAX_LINK_HOPS\<close> of them). The theory also states \<open>tree_ok\<close>, the invariant of the node
  table that makes the rows of each workspace a tree, and proves what resolution yields on it.
\<close>

definition DIRECTORY_KIND :: int where "DIRECTORY_KIND = 0"
definition FILE_KIND :: int where "FILE_KIND = 1"
definition SYMLINK_KIND :: int where "SYMLINK_KIND = 2"
definition MAX_LINK_HOPS :: nat where "MAX_LINK_HOPS = 40"

lemmas kind_defs = DIRECTORY_KIND_def FILE_KIND_def SYMLINK_KIND_def

subsection \<open>Rows to nodes\<close>

definition parse_id :: "ext \<Rightarrow> string \<Rightarrow> uuid fs_result" where
  "parse_id E i = (case uuid_parse E i of Inl e \<Rightarrow> Inl (internal_storage_failure e) | Inr u \<Rightarrow> Inr u)"

definition into_node :: "ext \<Rightarrow> raw_node \<Rightarrow> node fs_result" where
  "into_node E n =
     res_bind (if n_kind n = 0 then Inr Directory
               else if n_kind n = 1 then Inr File
               else if n_kind n = 2 then Inr Symlink
               else Inl (internal_storage_failure
                           (''unknown stored node kind '' @ show_int (n_kind n)))) (\<lambda>kind.
     res_bind (parse_id E (n_workspace_id n)) (\<lambda>ws.
     res_bind (parse_id E (n_id n)) (\<lambda>i.
     res_bind (case n_parent_id n of None \<Rightarrow> Inr None
               | Some p \<Rightarrow> res_bind (parse_id E p) (\<lambda>q. Inr (Some q))) (\<lambda>parent.
     case rev_new (as_u64 (n_revision n)) of
       None \<Rightarrow> Inl (internal_storage_failure ''stored revision was zero'')
     | Some rv \<Rightarrow> Inr
         \<lparr>nd_workspace_id = ws, nd_id = i, nd_parent_id = parent, nd_name = n_name n,
          nd_kind = kind, nd_logical_size = as_u64 (n_size n),
          nd_created_at_ms = n_created_at_ms n, nd_modified_at_ms = n_modified_at_ms n,
          nd_accessed_at_ms = n_accessed_at_ms n, nd_revision = rv, nd_attributes = []\<rparr>))))"

subsection \<open>Queries\<close>

definition map_row :: "node_row \<Rightarrow> raw_node" where
  "map_row r = raw_node.truncate r"

definition fetch_root :: "db \<Rightarrow> uuid \<Rightarrow> raw_node option" where
  "fetch_root s w =
     map_option map_row
       (find (\<lambda>r. n_workspace_id r = w \<and> n_parent_id r = None \<and> active r) (nodes s))"

definition fetch_child :: "db \<Rightarrow> uuid \<Rightarrow> uuid \<Rightarrow> string \<Rightarrow> raw_node option" where
  "fetch_child s w parent_id name =
     map_option map_row
       (find (\<lambda>r. n_workspace_id r = w \<and> n_parent_id r = Some parent_id \<and> n_name r = name
                  \<and> active r) (nodes s))"

definition fetch_children :: "db \<Rightarrow> uuid \<Rightarrow> uuid \<Rightarrow> raw_node list" where
  "fetch_children s w parent_id =
     map map_row (sort_key (\<lambda>r. (n_name r, n_id r))
       (filter (\<lambda>r. n_workspace_id r = w \<and> n_parent_id r = Some parent_id \<and> active r) (nodes s)))"

definition has_active_children :: "db \<Rightarrow> uuid \<Rightarrow> uuid \<Rightarrow> bool" where
  "has_active_children s w parent_id \<longleftrightarrow>
     list_ex (\<lambda>r. n_workspace_id r = w \<and> n_parent_id r = Some parent_id \<and> active r) (nodes s)"

definition fetch_by_id :: "db \<Rightarrow> uuid \<Rightarrow> uuid \<Rightarrow> raw_node option" where
  "fetch_by_id s w i =
     map_option map_row (find (\<lambda>r. n_workspace_id r = w \<and> n_id r = i \<and> active r) (nodes s))"

definition fetch_by_id_any :: "db \<Rightarrow> uuid \<Rightarrow> uuid \<Rightarrow> raw_node option" where
  "fetch_by_id_any s w i =
     map_option map_row (find (\<lambda>r. n_workspace_id r = w \<and> n_id r = i) (nodes s))"

subsection \<open>Plain resolution\<close>

fun walk :: "db \<Rightarrow> uuid \<Rightarrow> raw_node \<Rightarrow> string list \<Rightarrow> raw_node option" where
  "walk s w current [] = Some current"
| "walk s w current (segment # segs) =
     (if n_kind current \<noteq> DIRECTORY_KIND then None
      else (case fetch_child s w (n_id current) segment of
              None \<Rightarrow> None
            | Some child \<Rightarrow> walk s w child segs))"

definition resolve :: "db \<Rightarrow> uuid \<Rightarrow> virtual_path \<Rightarrow> raw_node option" where
  "resolve s w path =
     (case fetch_root s w of None \<Rightarrow> None | Some root \<Rightarrow> walk s w root (vp_segments path))"

subsection \<open>Resolution through symbolic links\<close>

datatype resolve_outcome = RFound raw_node | RNotFound | RBrokenLink | RLinkLoop

datatype follow_step = FNext raw_node "string list" | FBroken | FLoop

definition split_segments :: "string \<Rightarrow> string list" where
  "split_segments path = filter (\<lambda>s. s \<noteq> '''' \<and> s \<noteq> ''.'') (split_on slash path)"

text \<open>The inner loop of \<open>follow_one\<close>: each leading \<open>..\<close> climbs to the parent, if any.\<close>

fun climb :: "db \<Rightarrow> uuid \<Rightarrow> raw_node \<Rightarrow> string list \<Rightarrow> follow_step" where
  "climb s w base [] = FNext base []"
| "climb s w base (seg # remaining) =
     (if seg = ''..'' then
        (case n_parent_id base of
           None \<Rightarrow> climb s w base remaining
         | Some grandparent_id \<Rightarrow>
             (case fetch_by_id s w grandparent_id of
                Some node \<Rightarrow> climb s w node remaining
              | None \<Rightarrow> FBroken))
      else FNext base (seg # remaining))"

definition follow_one :: "db \<Rightarrow> uuid \<Rightarrow> raw_node \<Rightarrow> nat \<Rightarrow> follow_step \<times> nat" where
  "follow_one s w symlink_node hops =
     (let hops' = hops + 1 in
      (if hops' > MAX_LINK_HOPS then FLoop
       else (case n_symlink_target symlink_node of
         None \<Rightarrow> FBroken
       | Some target_string \<Rightarrow>
         (case lt_parse target_string of
            Inl _ \<Rightarrow> FBroken
          | Inr target \<Rightarrow>
            if lt_is_absolute target then
              (case fetch_root s w of
                 None \<Rightarrow> FBroken
               | Some root \<Rightarrow> FNext root (split_segments (target_str target)))
            else
              (case n_parent_id symlink_node of
                 None \<Rightarrow> FBroken
               | Some parent_id \<Rightarrow>
                 (case fetch_by_id s w parent_id of
                    None \<Rightarrow> FBroken
                  | Some base \<Rightarrow> climb s w base (split_segments (target_str target)))))),
       hops'))"

lemma follow_one_hops: "follow_one s w n hops = (FNext b r, hops') \<Longrightarrow> hops' = Suc hops \<and> hops < MAX_LINK_HOPS"
  by (auto simp: follow_one_def Let_def split: if_splits)

function resolve_loop ::
  "db \<Rightarrow> uuid \<Rightarrow> bool \<Rightarrow> raw_node \<Rightarrow> string list \<Rightarrow> nat \<Rightarrow> nat \<Rightarrow> resolve_outcome" where
  "resolve_loop s w follow_final current pending hops link_target_segments =
     (case pending of
        [] \<Rightarrow>
          if follow_final \<and> n_kind current = SYMLINK_KIND then
            (case follow_one s w current hops of
               (FNext base remaining, hops') \<Rightarrow>
                 resolve_loop s w follow_final base remaining hops' (length remaining)
             | (FBroken, _) \<Rightarrow> RBrokenLink
             | (FLoop, _) \<Rightarrow> RLinkLoop)
          else RFound current
      | segment # rest \<Rightarrow>
          if n_kind current = DIRECTORY_KIND then
            (case fetch_child s w (n_id current) segment of
               Some child \<Rightarrow>
                 resolve_loop s w follow_final child rest hops (link_target_segments - 1)
             | None \<Rightarrow> if link_target_segments > 0 then RBrokenLink else RNotFound)
          else if n_kind current = SYMLINK_KIND then
            (case follow_one s w current hops of
               (FNext base remaining, hops') \<Rightarrow>
                 resolve_loop s w follow_final base (remaining @ pending) hops' (length remaining)
             | (FBroken, _) \<Rightarrow> RBrokenLink
             | (FLoop, _) \<Rightarrow> RLinkLoop)
          else RNotFound)"
  by pat_completeness auto
termination
  by (relation "measures [\<lambda>(s, w, f, c, p, hops, l). MAX_LINK_HOPS - hops,
                          \<lambda>(s, w, f, c, p, hops, l). length p]")
    (auto dest: follow_one_hops [OF sym])

declare resolve_loop.simps [simp del]

definition resolve_following ::
  "db \<Rightarrow> uuid \<Rightarrow> virtual_path \<Rightarrow> bool \<Rightarrow> resolve_outcome" where
  "resolve_following s w path follow_final =
     (case fetch_root s w of
        None \<Rightarrow> RNotFound
      | Some root \<Rightarrow> resolve_loop s w follow_final root (vp_segments path) 0 0)"

lemmas fetch_defs = fetch_root_def fetch_child_def fetch_by_id_def fetch_by_id_any_def

subsection \<open>Rows and their raw form\<close>

lemma map_row_fields [simp, row_simps]:
  "n_id (map_row r) = n_id r" "n_workspace_id (map_row r) = n_workspace_id r"
  "n_parent_id (map_row r) = n_parent_id r" "n_name (map_row r) = n_name r"
  "n_kind (map_row r) = n_kind r" "n_size (map_row r) = n_size r"
  "n_revision (map_row r) = n_revision r" "n_created_at_ms (map_row r) = n_created_at_ms r"
  "n_modified_at_ms (map_row r) = n_modified_at_ms r"
  "n_accessed_at_ms (map_row r) = n_accessed_at_ms r"
  "n_content_generation_id (map_row r) = n_content_generation_id r"
  "n_symlink_target (map_row r) = n_symlink_target r"
  by (simp_all add: map_row_def raw_node.defs)

text \<open>The active rows of a workspace, as the lookups see them.\<close>

definition visible :: "db \<Rightarrow> uuid \<Rightarrow> node_row \<Rightarrow> bool" where
  "visible s w r \<longleftrightarrow> r \<in> set (nodes s) \<and> n_workspace_id r = w \<and> active r"

definition stored :: "db \<Rightarrow> uuid \<Rightarrow> raw_node \<Rightarrow> bool" where
  "stored s w n \<longleftrightarrow> (\<exists>r. visible s w r \<and> n = map_row r)"

lemma fetch_root_SomeD:
  "fetch_root s w = Some n \<Longrightarrow> \<exists>r. visible s w r \<and> n_parent_id r = None \<and> n = map_row r"
  by (auto simp: fetch_root_def visible_def dest!: find_SomeD)

lemma fetch_child_SomeD:
  "fetch_child s w p x = Some n \<Longrightarrow>
    \<exists>r. visible s w r \<and> n_parent_id r = Some p \<and> n_name r = x \<and> n = map_row r"
  by (auto simp: fetch_child_def visible_def dest!: find_SomeD)

lemma fetch_by_id_SomeD:
  "fetch_by_id s w i = Some n \<Longrightarrow> \<exists>r. visible s w r \<and> n_id r = i \<and> n = map_row r"
  by (auto simp: fetch_by_id_def visible_def dest!: find_SomeD)

lemma fetch_stored:
  "fetch_root s w = Some n \<Longrightarrow> stored s w n"
  "fetch_child s w p x = Some n \<Longrightarrow> stored s w n"
  "fetch_by_id s w i = Some n \<Longrightarrow> stored s w n"
  by (auto simp: stored_def dest: fetch_root_SomeD fetch_child_SomeD fetch_by_id_SomeD)

subsection \<open>The tree invariant\<close>

definition row_ok :: "db \<Rightarrow> node_row \<Rightarrow> bool" where
  "row_ok s r \<longleftrightarrow>
     n_kind r \<in> {DIRECTORY_KIND, FILE_KIND, SYMLINK_KIND} \<and>
     (case n_parent_id r of
        None \<Rightarrow> n_name r = '''' \<and> n_kind r = DIRECTORY_KIND \<and> active r
      | Some p \<Rightarrow> valid_seg (n_name r) \<and>
          (\<exists>q \<in> set (nodes s). n_id q = p \<and> n_workspace_id q = n_workspace_id r \<and>
                              n_kind q = DIRECTORY_KIND))"

definition roots_ok :: "db \<Rightarrow> bool" where
  "roots_ok s \<longleftrightarrow>
     (\<forall>w \<in> set (workspaces s).
        \<exists>r \<in> set (nodes s). n_parent_id r = None \<and> n_workspace_id r = w_id w) \<and>
     distinct (map n_workspace_id (filter (\<lambda>r. n_parent_id r = None) (nodes s)))"

definition tree_ok :: "db \<Rightarrow> bool" where
  "tree_ok s \<longleftrightarrow>
     distinct (map n_id (nodes s)) \<and> unique_ok s \<and> (\<forall>r \<in> set (nodes s). row_ok s r) \<and> roots_ok s"

text \<open>
  No row is its own ancestor: some rank grows along every parent link. This is kept apart
  from \<open>tree_ok\<close>: every operation preserves \<open>tree_ok\<close>, but not every move preserves this.
\<close>

definition acyclic_rows :: "node_row list \<Rightarrow> bool" where
  "acyclic_rows rows \<longleftrightarrow>
     (\<exists>rank :: uuid \<Rightarrow> nat.
        \<forall>r \<in> set rows. \<forall>p. n_parent_id r = Some p \<longrightarrow> rank p < rank (n_id r))"

lemma tree_okD:
  assumes "tree_ok s"
  shows "distinct (map n_id (nodes s))" and "unique_ok s" and "roots_ok s"
    and "r \<in> set (nodes s) \<Longrightarrow> row_ok s r"
  using assms by (auto simp: tree_ok_def)

text \<open>Only the node table and the identifiers of the workspaces matter.\<close>

lemma tree_ok_cong:
  assumes "nodes t = nodes s" and "w_id ` set (workspaces t) = w_id ` set (workspaces s)"
  shows "tree_ok t = tree_ok s"
proof -
  have "(\<forall>w \<in> set (workspaces t). P (w_id w)) = (\<forall>w \<in> set (workspaces s). P (w_id w))" for P
    using assms(2) by (metis (no_types, lifting) image_iff)
  from this [of "\<lambda>i. \<exists>r \<in> set (nodes s). n_parent_id r = None \<and> n_workspace_id r = i"]
  show ?thesis
    unfolding tree_ok_def unique_ok_def row_ok_def roots_ok_def assms(1) by simp
qed

lemma row_id_eq:
  "tree_ok s \<Longrightarrow> r \<in> set (nodes s) \<Longrightarrow> q \<in> set (nodes s) \<Longrightarrow> n_id r = n_id q \<Longrightarrow> r = q"
  by (rule distinct_map_eqD [OF tree_okD(1)])

lemma row_parentE:
  assumes "tree_ok s" and "r \<in> set (nodes s)" and "n_parent_id r = Some p"
  obtains q where "q \<in> set (nodes s)" "n_id q = p" "n_workspace_id q = n_workspace_id r"
    "n_kind q = DIRECTORY_KIND" "valid_seg (n_name r)"
  using tree_okD(4) [OF assms(1,2)] assms(3) by (auto simp: row_ok_def)

lemma root_row:
  "tree_ok s \<Longrightarrow> r \<in> set (nodes s) \<Longrightarrow> n_parent_id r = None \<Longrightarrow>
    n_name r = '''' \<and> n_kind r = DIRECTORY_KIND \<and> active r"
  using tree_okD(4) [of s r] by (simp add: row_ok_def)

lemma roots_unique:
  assumes "tree_ok s" and "r \<in> set (nodes s)" and "q \<in> set (nodes s)"
    and "n_parent_id r = None" and "n_parent_id q = None" and "n_workspace_id r = n_workspace_id q"
  shows "r = q"
proof -
  from tree_okD(3) [OF assms(1)]
  have "distinct (map n_workspace_id (filter (\<lambda>r. n_parent_id r = None) (nodes s)))"
    by (simp add: roots_ok_def)
  from distinct_map_eqD [OF this, of r q] assms show ?thesis by simp
qed

lemma siblings_unique:
  assumes "unique_ok s" and "visible s w r" and "visible s w q"
    and "n_parent_id r = Some p" and "n_parent_id q = Some p" and "n_name r = n_name q"
  shows "r = q"
  using assms distinct_map_eqD [of "\<lambda>r. (n_workspace_id r, n_parent_id r, n_name r)"
      "filter (\<lambda>r. active r \<and> n_parent_id r \<noteq> None) (nodes s)" r q]
  by (simp add: unique_ok_def visible_def)

lemma fetch_root_eq:
  assumes "tree_ok s" and "r \<in> set (nodes s)" and "n_workspace_id r = w" and "n_parent_id r = None"
  shows "fetch_root s w = Some (map_row r)"
proof -
  have "find (\<lambda>r. n_workspace_id r = w \<and> n_parent_id r = None \<and> active r) (nodes s) = Some r"
  proof (rule find_unique)
    show "r \<in> set (nodes s)" by fact
    show "n_workspace_id r = w \<and> n_parent_id r = None \<and> active r"
      using assms(3,4) root_row [OF assms(1,2,4)] by simp
  next
    fix y assume "y \<in> set (nodes s)" "n_workspace_id y = w \<and> n_parent_id y = None \<and> active y"
    with assms show "y = r" by (intro roots_unique [OF assms(1)]) simp_all
  qed
  then show ?thesis by (simp add: fetch_root_def)
qed

lemma fetch_root_exists:
  assumes "tree_ok s" and "w \<in> w_id ` set (workspaces s)"
  shows "\<exists>n. fetch_root s w = Some n"
proof -
  from tree_okD(3) [OF assms(1)] assms(2)
  obtain r where "r \<in> set (nodes s)" "n_parent_id r = None" "n_workspace_id r = w"
    by (auto simp: roots_ok_def)
  from fetch_root_eq [OF assms(1) this(1,3,2)] show ?thesis by blast
qed

lemma fetch_child_eq:
  assumes "unique_ok s" and "visible s w r" and "n_parent_id r = Some p"
  shows "fetch_child s w p (n_name r) = Some (map_row r)"
proof -
  have "find (\<lambda>q. n_workspace_id q = w \<and> n_parent_id q = Some p \<and> n_name q = n_name r
                  \<and> active q) (nodes s) = Some r"
  proof (rule find_unique)
    fix y assume "y \<in> set (nodes s)"
      "n_workspace_id y = w \<and> n_parent_id y = Some p \<and> n_name y = n_name r \<and> active y"
    then show "y = r"
      by (intro siblings_unique [OF assms(1) _ assms(2) _ assms(3)]) (simp_all add: visible_def)
  qed (use assms(2,3) in \<open>simp_all add: visible_def\<close>)
  then show ?thesis by (simp add: fetch_child_def)
qed

lemma fetch_by_id_eq:
  assumes "tree_ok s" and "visible s w r"
  shows "fetch_by_id s w (n_id r) = Some (map_row r)"
proof -
  have "find (\<lambda>q. n_workspace_id q = w \<and> n_id q = n_id r \<and> active q) (nodes s) = Some r"
  proof (rule find_unique)
    fix y assume "y \<in> set (nodes s)" "n_workspace_id y = w \<and> n_id y = n_id r \<and> active y"
    with assms(2) show "y = r" by (intro row_id_eq [OF assms(1)]) (simp_all add: visible_def)
  qed (use assms(2) in \<open>simp_all add: visible_def\<close>)
  then show ?thesis by (simp add: fetch_by_id_def)
qed

lemma fetch_by_id_any_eq:
  assumes "tree_ok s" and "r \<in> set (nodes s)" and "n_workspace_id r = w"
  shows "fetch_by_id_any s w (n_id r) = Some (map_row r)"
proof -
  have "find (\<lambda>q. n_workspace_id q = w \<and> n_id q = n_id r) (nodes s) = Some r"
  proof (rule find_unique)
    fix y assume "y \<in> set (nodes s)" "n_workspace_id y = w \<and> n_id y = n_id r"
    with assms(2) show "y = r" by (intro row_id_eq [OF assms(1)]) simp_all
  qed (use assms(2,3) in simp_all)
  then show ?thesis by (simp add: fetch_by_id_any_def)
qed

lemma stored_id_eq:
  assumes "tree_ok s" and "stored s w n" and "stored s w m" and "n_id n = n_id m"
  shows "n = m"
proof -
  from assms(2,3) obtain r q where "visible s w r" "n = map_row r" "visible s w q" "m = map_row q"
    by (auto simp: stored_def)
  with assms(4) show ?thesis using row_id_eq [OF assms(1), of r q] by (simp add: visible_def)
qed

subsection \<open>Lookup by segments\<close>

definition lookup_segs :: "db \<Rightarrow> uuid \<Rightarrow> string list \<Rightarrow> raw_node option" where
  "lookup_segs s w segs =
     (case fetch_root s w of None \<Rightarrow> None | Some root \<Rightarrow> walk s w root segs)"

lemma resolve_lookup: "resolve s w p = lookup_segs s w (vp_segments p)"
  by (simp add: resolve_def lookup_segs_def)

text \<open>One step of \<open>walk\<close>: descend into a directory.\<close>

definition enter :: "db \<Rightarrow> uuid \<Rightarrow> raw_node \<Rightarrow> string \<Rightarrow> raw_node option" where
  "enter s w n x = (if n_kind n = DIRECTORY_KIND then fetch_child s w (n_id n) x else None)"

lemma walk_Cons: "walk s w n (x # xs) = Option.bind (enter s w n x) (\<lambda>c. walk s w c xs)"
  by (simp add: enter_def split: option.split)

lemma walk_append: "walk s w n (xs @ ys) = Option.bind (walk s w n xs) (\<lambda>c. walk s w c ys)"
  by (induction xs arbitrary: n) (auto simp: walk_Cons simp del: walk.simps(2) split: bind_split)

lemma lookup_Nil [simp]: "lookup_segs s w [] = fetch_root s w"
  by (simp add: lookup_segs_def split: option.split)

lemma lookup_snoc:
  "lookup_segs s w (xs @ [x]) = Option.bind (lookup_segs s w xs) (\<lambda>n. enter s w n x)"
  by (auto simp: lookup_segs_def walk_append walk_Cons simp del: walk.simps(2)
      split: option.splits bind_split)

lemma lookup_snocE:
  assumes "lookup_segs s w (xs @ [x]) = Some n"
  obtains p where "lookup_segs s w xs = Some p" "n_kind p = DIRECTORY_KIND"
    "fetch_child s w (n_id p) x = Some n"
  using assms by (auto simp: lookup_snoc enter_def bind_eq_Some_conv split: if_splits)

lemma lookup_prefix:
  "lookup_segs s w (xs @ ys) = Some n \<Longrightarrow> \<exists>m. lookup_segs s w xs = Some m"
  by (auto simp: lookup_segs_def walk_append bind_eq_Some_conv split: option.splits)

lemma lookup_visible:
  assumes "lookup_segs s w segs = Some n"
  shows "\<exists>r. visible s w r \<and> n = map_row r"
proof (cases segs rule: rev_cases)
  case Nil
  with assms fetch_root_SomeD show ?thesis by fastforce
next
  case (snoc xs x)
  with assms fetch_child_SomeD show ?thesis by (metis lookup_snocE)
qed

text \<open>A visible row is reached by one path only.\<close>

lemma lookup_unique:
  assumes ok: "tree_ok s"
  shows "lookup_segs s w xs = Some n \<Longrightarrow> lookup_segs s w ys = Some n \<Longrightarrow> xs = ys"
proof (induction xs arbitrary: ys n rule: rev_induct)
  case Nil
  then have root: "n_parent_id n = None" by (auto dest: fetch_root_SomeD)
  show ?case
  proof (cases ys rule: rev_cases)
    case (snoc zs z)
    with Nil root show ?thesis by (auto elim!: lookup_snocE dest: fetch_child_SomeD)
  qed simp
next
  case (snoc x xs)
  from snoc.prems(1) obtain p where p: "lookup_segs s w xs = Some p" "fetch_child s w (n_id p) x = Some n"
    by (rule lookup_snocE)
  then have n: "n_parent_id n = Some (n_id p)" "n_name n = x" by (auto dest: fetch_child_SomeD)
  show ?case
  proof (cases ys rule: rev_cases)
    case Nil
    with snoc.prems n show ?thesis by (auto dest: fetch_root_SomeD)
  next
    case (snoc zs z)
    with snoc.prems obtain q where q: "lookup_segs s w zs = Some q" "fetch_child s w (n_id q) z = Some n"
      by (metis lookup_snocE)
    then have m: "n_parent_id n = Some (n_id q)" "n_name n = z" by (auto dest: fetch_child_SomeD)
    with n have "n_id p = n_id q" by simp
    with p q have "p = q"
      using stored_id_eq [OF ok] lookup_visible unfolding stored_def by metis
    with snoc.IH [OF p(1)] q n m snoc show ?thesis by simp
  qed
qed

lemma lookup_segs_valid:
  "tree_ok s \<Longrightarrow> lookup_segs s w segs = Some n \<Longrightarrow> list_all valid_seg segs"
proof (induction segs arbitrary: n rule: rev_induct)
  case Nil
  then show ?case by simp
next
  case (snoc x xs)
  then obtain p where p: "lookup_segs s w xs = Some p" "fetch_child s w (n_id p) x = Some n"
    by (metis lookup_snocE)
  then obtain r where "visible s w r" "n_parent_id r = Some (n_id p)" "n_name r = x"
    by (blast dest: fetch_child_SomeD)
  then have "valid_seg x" using row_parentE [OF snoc.prems(1)] unfolding visible_def by metis
  with snoc.IH [OF snoc.prems(1) p(1)] show ?case by simp
qed


subsection \<open>Only the node table is read\<close>

lemma fetch_cong:
  assumes "nodes t = nodes s"
  shows "fetch_root t = fetch_root s" and "fetch_child t = fetch_child s"
    and "fetch_children t = fetch_children s" and "has_active_children t = has_active_children s"
    and "fetch_by_id t = fetch_by_id s" and "fetch_by_id_any t = fetch_by_id_any s"
  using assms
  by (simp_all add: fun_eq_iff fetch_root_def fetch_child_def fetch_children_def
      has_active_children_def fetch_by_id_def fetch_by_id_any_def)

lemma walk_cong:
  assumes n: "nodes t = nodes s"
  shows "walk t w = walk s w"
proof -
  have "walk t w n segs = walk s w n segs" for n segs
    by (induction segs arbitrary: n) (simp_all add: fetch_cong [OF n] split: option.split)
  then show ?thesis by (simp add: fun_eq_iff)
qed

lemma lookup_cong: "nodes t = nodes s \<Longrightarrow> lookup_segs t w segs = lookup_segs s w segs"
  by (simp only: lookup_segs_def fetch_cong(1) [of t s] walk_cong [of t s])

lemma resolve_cong: "nodes t = nodes s \<Longrightarrow> resolve t w p = resolve s w p"
  by (simp only: resolve_lookup lookup_cong [of t s])

lemma follow_one_cong:
  assumes n: "nodes t = nodes s"
  shows "follow_one t = follow_one s"
proof -
  have "climb t w b segs = climb s w b segs" for w b segs
    by (induction segs arbitrary: b) (auto simp: fetch_cong [OF n] split: option.split)
  then have "climb t = climb s" by (simp add: fun_eq_iff)
  then show ?thesis by (simp only: fun_eq_iff follow_one_def fetch_cong [OF n] simp_thms)
qed

lemma resolve_following_cong:
  assumes n: "nodes t = nodes s"
  shows "resolve_following t w p f = resolve_following s w p f"
proof -
  have "nodes t = nodes s \<longrightarrow> resolve_loop t w f c q h l = resolve_loop s w f c q h l" for c q h l
  proof (induction s w f c q h l rule: resolve_loop.induct)
    case (1 s w f c q h l)
    show ?case
    proof
      assume n: "nodes t = nodes s"
      show "resolve_loop t w f c q h l = resolve_loop s w f c q h l"
        using 1 n
        by (subst resolve_loop.simps [of t], subst resolve_loop.simps [of s])
          (auto simp: follow_one_cong [OF n] fetch_cong [OF n]
            split: list.split option.split prod.split follow_step.split)
    qed
  qed
  with n show ?thesis by (simp only: resolve_following_def fetch_cong [OF n] simp_thms)
qed

end
