(* ===== verification/Change.thy ===== *)
theory Change
  imports Resolve
begin

text \<open>
  \<open>fslite-sqlite/src/change.rs\<close>: the change feed. Every mutation appends one row in its own
  transaction, numbered by the workspace's counter; \<open>changes\<close> reads the feed in pages. A
  cursor is the Base64 text of a JSON payload: the two crates that build and read it are the
  argument \<open>codec\<close>.
\<close>

record 'c codec =
  enc :: "'c \<Rightarrow> string"
  dec :: "string \<Rightarrow> 'c option"

subsection \<open>Appending\<close>

definition kind_str :: "change_kind \<Rightarrow> string" where
  "kind_str kind = (case kind of
     Created \<Rightarrow> ''created''
   | Modified \<Rightarrow> ''modified''
   | Copied \<Rightarrow> ''copied''
   | Moved \<Rightarrow> ''moved''
   | Removed \<Rightarrow> ''removed''
   | Trashed \<Rightarrow> ''trashed''
   | Restored \<Rightarrow> ''restored''
   | Purged \<Rightarrow> ''purged''
   | AttributeSet \<Rightarrow> ''attribute_set''
   | AttributeRemoved \<Rightarrow> ''attribute_removed'')"

definition kind_from_str :: "string \<Rightarrow> change_kind fs_result" where
  "kind_from_str v =
     (if v = ''created'' then Inr Created
      else if v = ''modified'' then Inr Modified
      else if v = ''copied'' then Inr Copied
      else if v = ''moved'' then Inr Moved
      else if v = ''removed'' then Inr Removed
      else if v = ''trashed'' then Inr Trashed
      else if v = ''restored'' then Inr Restored
      else if v = ''purged'' then Inr Purged
      else if v = ''attribute_set'' then Inr AttributeSet
      else if v = ''attribute_removed'' then Inr AttributeRemoved
      else Inl (internal_storage_failure (''unknown stored change kind '' @ v)))"

definition append_change ::
  "uuid \<Rightarrow> change_kind \<Rightarrow> uuid option \<Rightarrow> string option \<Rightarrow> string option \<Rightarrow> int option \<Rightarrow>
   string \<Rightarrow> int \<Rightarrow> db \<Rightarrow> db option" where
  "append_change w kind node_id old_path new_path rv actor_json now s = do {
     s1 \<leftarrow> update_workspace w
             (\<lambda>r. r\<lparr>w_change_seq := w_change_seq r + 1, w_updated_at_ms := now\<rparr>) s;
     row \<leftarrow> find (\<lambda>r. w_id r = w) (workspaces s1);
     insert_change
       \<lparr>ch_workspace_id = w, ch_sequence = w_change_seq row, ch_kind = kind_str kind,
        ch_node_id = node_id, ch_old_path = old_path, ch_new_path = new_path,
        ch_revision = rv, ch_created_at_ms = now, ch_actor_json = actor_json\<rparr> s1 }"

subsection \<open>Reading the feed\<close>

definition transpose_map :: "('a \<Rightarrow> 'b fs_result) \<Rightarrow> 'a option \<Rightarrow> 'b option fs_result" where
  "transpose_map f x = (case x of None \<Rightarrow> Inr None | Some v \<Rightarrow> res_bind (f v) (\<lambda>y. Inr (Some y)))"

definition into_change :: "ext \<Rightarrow> change_row \<Rightarrow> change fs_result" where
  "into_change E r =
     res_bind (kind_from_str (ch_kind r)) (\<lambda>kind.
     res_bind (transpose_map (parse_id E) (ch_node_id r)) (\<lambda>node_id.
     res_bind (transpose_map vp_parse (ch_old_path r)) (\<lambda>old_path.
     res_bind (transpose_map vp_parse (ch_new_path r)) (\<lambda>new_path.
     res_bind (transpose_map (\<lambda>v. case rev_new (as_u64 v) of
                 Some rv \<Rightarrow> Inr rv
               | None \<Rightarrow> Inl (internal_storage_failure ''stored revision was zero''))
               (ch_revision r)) (\<lambda>rev.
     Inr \<lparr>cg_sequence = as_u64 (ch_sequence r), cg_kind = kind, cg_node_id = node_id,
          cg_old_path = old_path, cg_new_path = new_path, cg_revision = rev,
          cg_created_at_ms = ch_created_at_ms r,
          cg_actor_metadata = (case actor_of_json E (ch_actor_json r) of
                                 Some a \<Rightarrow> a | None \<Rightarrow> [])\<rparr>)))))"

definition fetch_changes_page :: "db \<Rightarrow> uuid \<Rightarrow> int \<Rightarrow> nat \<Rightarrow> change_row list" where
  "fetch_changes_page s w after_sequence limit =
     take limit (sort_key ch_sequence
       (filter (\<lambda>c. ch_workspace_id c = w \<and> ch_sequence c > after_sequence) (changes s)))"

record change_cursor =
  cc_v :: nat
  cc_workspace_id :: uuid
  cc_last_sequence :: int

definition encode_change_cursor :: "change_cursor codec \<Rightarrow> uuid \<Rightarrow> int \<Rightarrow> string" where
  "encode_change_cursor C w last_sequence =
     enc C \<lparr>cc_v = 1, cc_workspace_id = w, cc_last_sequence = last_sequence\<rparr>"

definition decode_change_cursor :: "change_cursor codec \<Rightarrow> string \<Rightarrow> uuid \<Rightarrow> int fs_result" where
  "decode_change_cursor C cursor w = (case dec C cursor of
     None \<Rightarrow> Inl (invalid_cursor cursor)
   | Some p \<Rightarrow>
       if cc_v p \<noteq> 1 \<or> cc_workspace_id p \<noteq> w then Inl (invalid_cursor cursor)
       else Inr (cc_last_sequence p))"

definition changes_op ::
  "ext \<Rightarrow> change_cursor codec \<Rightarrow> uuid \<Rightarrow> string option \<Rightarrow> page_request \<Rightarrow> db \<Rightarrow>
   change page fs_result" where
  "changes_op E C w after page s =
     res_bind (case after of
                 Some cursor \<Rightarrow> decode_change_cursor C cursor w
               | None \<Rightarrow> Inr 0) (\<lambda>after_sequence.
     let limit = max (pr_limit page) 1;
         fetched = fetch_changes_page s w after_sequence (limit + 1);
         has_more = length fetched > limit;
         rows = (if has_more then take limit fetched else fetched);
         next = (if has_more then Some (encode_change_cursor C w (ch_sequence (last rows)))
                 else None)
     in res_bind (collect_results (map (into_change E) rows)) (\<lambda>items.
        Inr \<lparr>pg_items = items, pg_next_cursor = next\<rparr>))"

subsection \<open>The log invariant\<close>

text \<open>
  The changes of each workspace are numbered 1, 2, ..., \<open>change_seq\<close> in the order of their
  insertion, and carry a known kind.
\<close>

definition log_of :: "db \<Rightarrow> uuid \<Rightarrow> change_row list" where
  "log_of s w = filter (\<lambda>c. ch_workspace_id c = w) (changes s)"

definition change_ok :: "change_row \<Rightarrow> bool" where
  "change_ok c \<longleftrightarrow>
     (\<exists>k. ch_kind c = kind_str k) \<and>
     (\<forall>p. ch_old_path c = Some p \<longrightarrow> (\<exists>v. vp_parse p = Inr v)) \<and>
     (\<forall>p. ch_new_path c = Some p \<longrightarrow> (\<exists>v. vp_parse p = Inr v)) \<and>
     (\<forall>v. ch_revision c = Some v \<longrightarrow> v \<ge> 1)"

definition log_ok :: "db \<Rightarrow> bool" where
  "log_ok s \<longleftrightarrow> (\<forall>c \<in> set (changes s). change_ok c) \<and>
     (\<forall>r \<in> set (workspaces s). w_change_seq r \<ge> 0 \<and>
        map ch_sequence (log_of s (w_id r)) = [1..w_change_seq r])"

lemma kind_roundtrip: "kind_from_str (kind_str k) = Inr k"
  by (cases k) (simp_all add: kind_from_str_def kind_str_def)

lemma log_of_fields [simp]: "log_of (s\<lparr>workspaces := x\<rparr>) w = log_of s w"
  by (simp add: log_of_def)

text \<open>The state \<open>append_change\<close> produces.\<close>

definition bump_seq :: "uuid \<Rightarrow> int \<Rightarrow> workspace_row \<Rightarrow> workspace_row" where
  "bump_seq w now r =
     (if w_id r = w then r\<lparr>w_change_seq := w_change_seq r + 1, w_updated_at_ms := now\<rparr> else r)"

lemma bump_seq_id [simp]: "w_id (bump_seq w now r) = w_id r"
  by (simp add: bump_seq_def)

lemma map_bump_id [simp]: "map w_id (map (bump_seq w now) rs) = map w_id rs"
  by simp

definition change_rec ::
  "uuid \<Rightarrow> int \<Rightarrow> change_kind \<Rightarrow> uuid option \<Rightarrow> string option \<Rightarrow> string option \<Rightarrow> int option \<Rightarrow>
   string \<Rightarrow> int \<Rightarrow> change_row" where
  "change_rec w sq kind ni op np rv aj now =
     \<lparr>ch_workspace_id = w, ch_sequence = sq, ch_kind = kind_str kind, ch_node_id = ni,
      ch_old_path = op, ch_new_path = np, ch_revision = rv, ch_created_at_ms = now,
      ch_actor_json = aj\<rparr>"

lemma change_rec_fields [simp]:
  "ch_workspace_id (change_rec w sq kind ni op np rv aj now) = w"
  "ch_sequence (change_rec w sq kind ni op np rv aj now) = sq"
  "ch_node_id (change_rec w sq kind ni op np rv aj now) = ni"
  by (simp_all add: change_rec_def)

lemma append_change_Some:
  assumes "append_change w kind ni op np rv aj now s = Some t"
  obtains r where "r \<in> set (workspaces s)" "w_id r = w" "schema_ok t"
    "t = s\<lparr>workspaces := map (bump_seq w now) (workspaces s),
           changes := changes s @ [change_rec w (w_change_seq r + 1) kind ni op np rv aj now]\<rparr>"
proof -
  let ?s1 = "s\<lparr>workspaces := map (bump_seq w now) (workspaces s)\<rparr>"
  have up: "update_workspace w
      (\<lambda>r. r\<lparr>w_change_seq := w_change_seq r + 1, w_updated_at_ms := now\<rparr>) s = checked ?s1"
    unfolding update_workspace_def bump_seq_def by (rule refl)
  from assms obtain row where f: "find (\<lambda>r. w_id r = w) (map (bump_seq w now) (workspaces s)) = Some row"
    and t: "insert_change (change_rec w (w_change_seq row) kind ni op np rv aj now) ?s1 = Some t"
    unfolding append_change_def up change_rec_def
    by (auto simp: bind_eq_Some_conv checked_Some)
  from find_SomeD [OF f] have "w_id row = w" "row \<in> bump_seq w now ` set (workspaces s)" by simp_all
  then obtain r where r: "r \<in> set (workspaces s)" "row = bump_seq w now r" "w_id r = w"
    by (metis bump_seq_id imageE)
  with t have "schema_ok t" "t = ?s1\<lparr>changes := changes s @
      [change_rec w (w_change_seq r + 1) kind ni op np rv aj now]\<rparr>"
    by (simp_all add: insert_change_def checked_Some bump_seq_def)
  with r show thesis using that by simp
qed

lemma append_change_eq:
  assumes ok: "schema_ok s" "log_ok s" and r: "r \<in> set (workspaces s)" "w_id r = w"
  shows "append_change w kind ni op np rv aj now s =
    Some (s\<lparr>workspaces := map (bump_seq w now) (workspaces s),
           changes := changes s @ [change_rec w (w_change_seq r + 1) kind ni op np rv aj now]\<rparr>)"
    (is "_ = Some (s\<lparr>workspaces := ?ws, changes := changes s @ [?c]\<rparr>)")
proof -
  let ?s1 = "s\<lparr>workspaces := ?ws\<rparr>"
  have up: "update_workspace w
      (\<lambda>r. r\<lparr>w_change_seq := w_change_seq r + 1, w_updated_at_ms := now\<rparr>) s = checked ?s1"
    unfolding update_workspace_def bump_seq_def by (rule refl)
  have s1: "schema_ok ?s1"
    using ok(1) by (simp add: schema_ok_def pk_ok_def unique_ok_def fk_ok_def o_def)
  have "distinct (map w_id (workspaces s))" using ok(1) by (simp add: schema_ok_def pk_ok_def)
  then have f: "find (\<lambda>q. w_id q = w) ?ws = Some (bump_seq w now r)"
    using r by (intro find_unique) (auto dest: distinct_map_eqD)
  have "map ch_sequence (log_of s w) = [1..w_change_seq r]"
    using ok(2) r by (auto simp: log_ok_def)
  then have "set (map ch_sequence (log_of s w)) = {1..w_change_seq r}"
    by (simp only: set_upto)
  then have "w_change_seq r + 1 \<notin> ch_sequence ` {c \<in> set (changes s). ch_workspace_id c = w}"
    by (simp add: log_of_def)
  then have "(w, w_change_seq r + 1) \<notin> (\<lambda>c. (ch_workspace_id c, ch_sequence c)) ` set (changes s)"
    by fastforce
  with s1 r have "schema_ok (?s1\<lparr>changes := changes s @ [?c]\<rparr>)"
    by (auto simp: schema_ok_def pk_ok_def unique_ok_def fk_ok_def Let_def)
  with f s1 r show ?thesis
    unfolding append_change_def up
    by (simp add: insert_change_def checkedI bump_seq_def change_rec_def)
qed

lemma append_change_log_ok:
  assumes "schema_ok s" "log_ok s" "append_change w kind ni op np rv aj now s = Some t"
    and "\<forall>sq. change_ok (change_rec w sq kind ni op np rv aj now)"
  shows "log_ok t"
proof -
  obtain r where r: "r \<in> set (workspaces s)" "w_id r = w"
    and t: "t = s\<lparr>workspaces := map (bump_seq w now) (workspaces s),
           changes := changes s @ [change_rec w (w_change_seq r + 1) kind ni op np rv aj now]\<rparr>"
    using append_change_Some [OF assms(3)] by metis
  have u: "q = r" if "q \<in> set (workspaces s)" "w_id q = w" for q
    using that r assms(1) distinct_map_eqD [of w_id "workspaces s" q r]
    by (simp add: schema_ok_def pk_ok_def)
  have "w_change_seq q' \<ge> 0 \<and> map ch_sequence (log_of t (w_id q')) = [1..w_change_seq q']"
    if "q \<in> set (workspaces s)" "q' = bump_seq w now q" for q q'
  proof -
    have q: "w_change_seq q \<ge> 0" "map ch_sequence (log_of s (w_id q)) = [1..w_change_seq q]"
      using assms(2) that by (auto simp: log_ok_def)
    show ?thesis
    proof (cases "w_id q = w")
      case True
      with u that have "q = r" by blast
      with q that True show ?thesis
        by (simp add: t log_of_def bump_seq_def upto_rec2)
    next
      case False
      with q that show ?thesis by (simp add: t log_of_def bump_seq_def)
    qed
  qed
  then show ?thesis using assms(2,4) by (auto simp: log_ok_def t)
qed

text \<open>Only the change rows and the counters of the workspaces matter.\<close>

lemma log_ok_cong: "workspaces t = workspaces s \<Longrightarrow> changes t = changes s \<Longrightarrow> log_ok t = log_ok s"
  by (simp add: log_ok_def log_of_def)

end
