(* ===== verification/Namespace.thy ===== *)
theory Namespace
  imports Resolve
begin

text \<open>
  The name space of a workspace, on identifiers alone: which identifier a sequence of names
  leads to. The locale \<open>name_space\<close> is the contract path resolution gives to the mutations:
  every object has one place. From it follow, once for all operations, how the reachable
  paths change when a leaf is added, a subtree is hidden, moved or put back. The contract is
  interpreted on the lookups of \<open>Resolve\<close>.
\<close>

subsection \<open>Trails\<close>

fun trail :: "('i \<Rightarrow> string \<Rightarrow> 'i option) \<Rightarrow> 'i \<Rightarrow> string list \<Rightarrow> 'i option" where
  "trail f i [] = Some i"
| "trail f i (x # xs) = (case f i x of None \<Rightarrow> None | Some j \<Rightarrow> trail f j xs)"

definition place :: "'i option \<Rightarrow> ('i \<Rightarrow> string \<Rightarrow> 'i option) \<Rightarrow> string list \<Rightarrow> 'i option" where
  "place r f segs = (case r of None \<Rightarrow> None | Some i \<Rightarrow> trail f i segs)"

lemma trail_append: "trail f i (xs @ ys) = Option.bind (trail f i xs) (\<lambda>j. trail f j ys)"
  by (induction xs arbitrary: i) (auto split: option.split)

lemma place_append: "place r f (xs @ ys) = Option.bind (place r f xs) (\<lambda>j. trail f j ys)"
  by (simp add: place_def trail_append split: option.split)

lemma place_Nil [simp]: "place r f [] = r"
  by (simp add: place_def split: option.split)

lemma place_snoc: "place r f (xs @ [x]) = Option.bind (place r f xs) (\<lambda>j. f j x)"
  by (auto simp: place_append split: bind_split option.split)

lemma place_snocE:
  assumes "place r f (xs @ [x]) = Some i"
  obtains j where "place r f xs = Some j" "f j x = Some i"
  using assms by (auto simp: place_snoc bind_eq_Some_conv)

subsection \<open>The contract\<close>

locale name_space =
  fixes inv :: "'s \<Rightarrow> bool"
    and root :: "'s \<Rightarrow> 'i option"
    and child :: "'s \<Rightarrow> 'i \<Rightarrow> string \<Rightarrow> 'i option"
  assumes child_inj: "inv s \<Longrightarrow> child s a x = Some c \<Longrightarrow> child s b y = Some c \<Longrightarrow> a = b \<and> x = y"
    and root_top: "inv s \<Longrightarrow> root s = Some r \<Longrightarrow> child s a x \<noteq> Some r"
begin

lemma place_unique:
  assumes "inv s"
  shows "place (root s) (child s) xs = Some i \<Longrightarrow> place (root s) (child s) ys = Some i \<Longrightarrow> xs = ys"
proof (induction xs arbitrary: ys i rule: rev_induct)
  case Nil
  with root_top [OF assms] show ?case
    by (cases ys rule: rev_cases) (auto elim!: place_snocE)
next
  case (snoc x xs)
  then obtain j where j: "place (root s) (child s) xs = Some j" "child s j x = Some i"
    by (blast elim: place_snocE)
  show ?case
  proof (cases ys rule: rev_cases)
    case Nil
    with snoc.prems(2) j(2) root_top [OF assms] show ?thesis by auto
  next
    case (snoc zs z)
    with snoc.prems(2) obtain k where "place (root s) (child s) zs = Some k" "child s k z = Some i"
      by (blast elim: place_snocE)
    with child_inj [OF assms j(2)] snoc.IH [OF j(1)] snoc show ?thesis by blast
  qed
qed

text \<open>What lies under an object is found by extending its path.\<close>

lemma under_prefix:
  assumes "inv s" and "place (root s) (child s) ps = Some d" and "trail (child s) d zs = Some a"
    and "place (root s) (child s) xs = Some a"
  shows "xs = ps @ zs"
proof -
  have "place (root s) (child s) (ps @ zs) = Some a"
    using assms(2,3) by (simp add: place_append)
  with assms show ?thesis by (blast intro: place_unique)
qed

text \<open>Adding a leaf.\<close>

lemma place_grow:
  assumes "inv s" and root: "root t = root s"
    and pp: "place (root s) (child s) pp = Some p" and free: "child s p nm = None"
    and child: "\<And>a x. a \<noteq> c \<Longrightarrow> child t a x = (if a = p \<and> x = nm then Some c else child s a x)"
    and leaf: "\<And>x. child t c x = None"
    and new: "root s \<noteq> Some c" "\<And>a x. child s a x \<noteq> Some c"
  shows "place (root t) (child t) segs
    = (if segs = pp @ [nm] then Some c else place (root s) (child s) segs)"
proof (induction segs rule: rev_induct)
  case Nil
  then show ?case by (simp add: root)
next
  case (snoc x xs)
  show ?case
  proof (cases "xs = pp @ [nm]")
    case True
    have "place (root s) (child s) (pp @ [nm]) = None" using pp free by (simp add: place_snoc)
    then have "place (root s) (child s) xs = None" using True by simp
    moreover have "place (root t) (child t) xs = Some c" using True snoc by simp
    ultimately show ?thesis unfolding place_snoc [of _ _ xs x] using leaf True by simp
  next
    case False
    with snoc have *: "place (root t) (child t) xs = place (root s) (child s) xs" by simp
    show ?thesis
    proof (cases "place (root s) (child s) xs")
      case None
      with * pp show ?thesis by (auto simp: place_snoc)
    next
      case (Some a)
      have "a \<noteq> c" using Some new by (cases xs rule: rev_cases) (auto elim!: place_snocE)
      have "a = p \<longleftrightarrow> xs = pp" using place_unique [OF assms(1)] Some pp by auto
      with * Some child [OF \<open>a \<noteq> c\<close>] show ?thesis by (auto simp: place_snoc)
    qed
  qed
qed

text \<open>Hiding the subtree of one object.\<close>

lemma place_cut:
  assumes "inv s" and root: "root t = root s"
    and dp: "place (root s) (child s) dp = Some d" and "dp \<noteq> []"
    and child: "\<And>xs a x. place (root s) (child s) xs = Some a \<Longrightarrow> \<not> prefix dp xs \<Longrightarrow>
      child t a x = (if child s a x = Some d then None else child s a x)"
  shows "place (root t) (child t) segs
    = (if prefix dp segs then None else place (root s) (child s) segs)"
proof (induction segs rule: rev_induct)
  case Nil
  with \<open>dp \<noteq> []\<close> show ?case by (simp add: root)
next
  case (snoc x xs)
  show ?case
  proof (cases "prefix dp xs")
    case True
    with snoc show ?thesis by (auto simp: place_snoc)
  next
    case False
    with snoc have *: "place (root t) (child t) xs = place (root s) (child s) xs" by simp
    show ?thesis
    proof (cases "place (root s) (child s) xs")
      case None
      with * show ?thesis by (auto simp: place_snoc)
    next
      case (Some a)
      note ch = child [OF Some False]
      have "child s a x = Some d \<longleftrightarrow> dp = xs @ [x]"
        using Some dp place_unique [OF assms(1) dp, of "xs @ [x]"] by (auto simp: place_snoc)
      with * Some ch False show ?thesis by (auto simp: place_snoc)
    qed
  qed
qed

text \<open>Taking a subtree from its place and hanging it at a free name outside of it.\<close>

lemma place_move:
  assumes "inv s" and root: "root t = root s"
    and dp: "place (root s) (child s) dp = Some d" and "dp \<noteq> []"
    and pp: "place (root s) (child s) pp = Some p" and out: "\<not> prefix dp pp"
    and free: "child s p nm = None"
    and child: "\<And>a x. child t a x = (if a = p \<and> x = nm then Some d
      else if child s a x = Some d then None else child s a x)"
  shows "place (root t) (child t) segs
    = (if prefix (pp @ [nm]) segs then trail (child s) d (drop (Suc (length pp)) segs)
       else if prefix dp segs then None else place (root s) (child s) segs)"
proof (induction segs rule: rev_induct)
  case Nil
  with \<open>dp \<noteq> []\<close> show ?case by (simp add: root)
next
  case (snoc x xs)
  have at_d: "child s a y = Some d \<longleftrightarrow> dp = zs @ [y]"
    if "place (root s) (child s) zs = Some a" for a y zs
    using that dp place_unique [OF assms(1) dp, of "zs @ [y]"] by (auto simp: place_snoc)
  show ?case
  proof (cases "prefix (pp @ [nm]) xs")
    case True
    then obtain zs where zs: "xs = (pp @ [nm]) @ zs" by (auto simp: prefix_def)
    have step: "child t a x = child s a x" if "trail (child s) d zs = Some a" for a
    proof -
      from that dp have a: "place (root s) (child s) (dp @ zs) = Some a" by (simp add: place_append)
      have "a \<noteq> p" using place_unique [OF assms(1) a, of pp] pp out by (auto simp: prefix_def)
      moreover have "child s a x \<noteq> Some d" using at_d [OF a, of x] by simp
      ultimately show ?thesis by (simp add: child)
    qed
    have "place (root t) (child t) xs = trail (child s) d zs" using snoc True zs by simp
    then have "place (root t) (child t) (xs @ [x]) = trail (child s) d (zs @ [x])"
      unfolding place_snoc [of _ _ xs x] trail_append using step
      by (auto split: bind_split option.split)
    with zs show ?thesis by simp
  next
    case False
    have ex: "prefix (pp @ [nm]) (xs @ [x]) \<longleftrightarrow> xs = pp \<and> x = nm"
      using False by auto
    show ?thesis
    proof (cases "prefix dp xs")
      case True
      with snoc False have "place (root t) (child t) xs = None" by simp
      with True out ex show ?thesis by (auto simp: place_snoc)
    next
      case np: False
      with snoc False have *: "place (root t) (child t) xs = place (root s) (child s) xs" by simp
      show ?thesis
      proof (cases "place (root s) (child s) xs")
        case None
        with * pp ex show ?thesis by (auto simp: place_snoc)
      next
        case (Some a)
        have "a = p \<longleftrightarrow> xs = pp" using place_unique [OF assms(1)] Some pp by auto
        with * Some child [of a x] ex at_d [OF Some, of x] np show ?thesis by (auto simp: place_snoc)
      qed
    qed
  qed
qed

text \<open>Hanging a subtree that no path reaches.\<close>

lemma place_revive:
  assumes "inv s" and root: "root t = root s"
    and pp: "place (root s) (child s) pp = Some p"
    and child: "\<And>xs a x. place (root s) (child s) xs = Some a \<Longrightarrow>
      child t a x = (if a = p \<and> x = nm then Some d else child s a x)"
    and "\<not> prefix (pp @ [nm]) segs"
  shows "place (root t) (child t) segs = place (root s) (child s) segs"
  using assms(5)
proof (induction segs rule: rev_induct)
  case Nil
  then show ?case by (simp add: root)
next
  case (snoc x xs)
  then have *: "place (root t) (child t) xs = place (root s) (child s) xs" by auto
  show ?case
  proof (cases "place (root s) (child s) xs")
    case None
    with * show ?thesis by (simp add: place_snoc)
  next
    case (Some a)
    have "a = p \<longleftrightarrow> xs = pp" using place_unique [OF assms(1)] Some pp by auto
    with * Some child [OF Some, of x] snoc(2) show ?thesis by (auto simp: place_snoc)
  qed
qed

end

subsection \<open>The rows as a name space\<close>

text \<open>The place of an identifier: one \<open>enter\<close> of the active row it names.\<close>

definition child_id :: "uuid \<Rightarrow> db \<Rightarrow> uuid \<Rightarrow> string \<Rightarrow> uuid option" where
  "child_id w s i x =
     Option.bind (fetch_by_id s w i) (\<lambda>n. map_option n_id (enter s w n x))"

definition root_id :: "uuid \<Rightarrow> db \<Rightarrow> uuid option" where
  "root_id w s = map_option n_id (fetch_root s w)"

definition path_id :: "db \<Rightarrow> uuid \<Rightarrow> string list \<Rightarrow> uuid option" where
  "path_id s w = place (root_id w s) (child_id w s)"

lemma child_id_SomeE:
  assumes "child_id w s a x = Some c"
  obtains q r where "visible s w q" "n_id q = a" "n_kind q = DIRECTORY_KIND"
    "visible s w r" "n_id r = c" "n_parent_id r = Some a" "n_name r = x"
proof -
  from assms obtain n m where n: "fetch_by_id s w a = Some n" and m: "enter s w n x = Some m" "n_id m = c"
    by (auto simp: child_id_def bind_eq_Some_conv)
  from m(1) have "fetch_child s w (n_id n) x = Some m" "n_kind n = DIRECTORY_KIND"
    by (auto simp: enter_def split: if_splits)
  with n m(2) show thesis
    using that by (fastforce dest!: fetch_by_id_SomeD fetch_child_SomeD)
qed

interpretation ws: name_space tree_ok "root_id w" "child_id w" for w
proof unfold_locales
  fix s a x c b y
  assume "tree_ok s" "child_id w s a x = Some c" "child_id w s b y = Some c"
  then show "a = b \<and> x = y"
    by (elim child_id_SomeE) (metis option.inject row_id_eq visible_def)
next
  fix s r a x
  assume "tree_ok s" "root_id w s = Some r"
  then show "child_id w s a x \<noteq> Some r"
    by (auto simp: root_id_def visible_def dest!: fetch_root_SomeD elim!: child_id_SomeE)
      (metis option.distinct(1) row_id_eq)
qed

text \<open>Identifiers and rows follow the same paths.\<close>

lemma fetch_by_id_stored: "tree_ok s \<Longrightarrow> stored s w n \<Longrightarrow> fetch_by_id s w (n_id n) = Some n"
  by (auto simp: stored_def fetch_by_id_eq)

lemma child_id_stored:
  "tree_ok s \<Longrightarrow> stored s w n \<Longrightarrow> child_id w s (n_id n) x = map_option n_id (enter s w n x)"
  by (simp add: child_id_def fetch_by_id_stored)

lemma lookup_stored: "lookup_segs s w segs = Some n \<Longrightarrow> stored s w n"
  by (auto simp: stored_def dest: lookup_visible)

lemma path_id_lookup:
  assumes "tree_ok s"
  shows "path_id s w segs = map_option n_id (lookup_segs s w segs)"
proof (induction segs rule: rev_induct)
  case Nil
  then show ?case by (simp add: path_id_def root_id_def)
next
  case (snoc x xs)
  then show ?case
    using child_id_stored [OF assms] lookup_stored
    by (auto simp: path_id_def place_snoc lookup_snoc split: bind_split)
qed

lemma lookup_path_id:
  assumes "tree_ok s"
  shows "lookup_segs s w segs = Option.bind (path_id s w segs) (fetch_by_id s w)"
  using path_id_lookup [OF assms, of w segs] fetch_by_id_stored [OF assms] lookup_stored
  by (cases "lookup_segs s w segs") auto

subsection \<open>Resolution and places\<close>

text \<open>What is reachable from the root of the workspace.\<close>

definition reachable :: "db \<Rightarrow> uuid \<Rightarrow> raw_node \<Rightarrow> bool" where
  "reachable s w n \<longleftrightarrow> (\<exists>segs. lookup_segs s w segs = Some n)"

lemma reachable_stored: "reachable s w n \<Longrightarrow> stored s w n"
  by (auto simp: reachable_def dest: lookup_stored)

lemma reachable_root: "fetch_root s w = Some n \<Longrightarrow> reachable s w n"
  unfolding reachable_def by (rule exI [of _ "[]"]) simp

lemma reachable_child:
  assumes "reachable s w n" "n_kind n = DIRECTORY_KIND" "fetch_child s w (n_id n) x = Some c"
  shows "reachable s w c"
proof -
  from assms(1) obtain segs where "lookup_segs s w segs = Some n" by (auto simp: reachable_def)
  with assms(2,3) have "lookup_segs s w (segs @ [x]) = Some c" by (simp add: lookup_snoc enter_def)
  then show ?thesis by (auto simp: reachable_def)
qed

lemma reachable_parent:
  assumes ok: "tree_ok s" and n: "reachable s w n" "n_parent_id n = Some p"
    and m: "fetch_by_id s w p = Some m"
  shows "reachable s w m" and "n_kind m = DIRECTORY_KIND"
proof -
  from n obtain segs where segs: "lookup_segs s w segs = Some n" by (auto simp: reachable_def)
  have "reachable s w m \<and> n_kind m = DIRECTORY_KIND"
  proof (cases segs rule: rev_cases)
    case Nil
    with segs n(2) show ?thesis by (auto dest: fetch_root_SomeD)
  next
    case (snoc xs x)
    with segs obtain q where q: "lookup_segs s w xs = Some q" "n_kind q = DIRECTORY_KIND"
      "fetch_child s w (n_id q) x = Some n"
      by (metis lookup_snocE)
    with n(2) have "n_id q = p" by (auto dest: fetch_child_SomeD)
    with fetch_by_id_stored [OF ok lookup_stored [OF q(1)]] m have "m = q" by simp
    with q show ?thesis by (auto simp: reachable_def)
  qed
  then show "reachable s w m" and "n_kind m = DIRECTORY_KIND" by simp_all
qed

lemma climb_reachable:
  "tree_ok s \<Longrightarrow> reachable s w b \<Longrightarrow> climb s w b segs = FNext n rest \<Longrightarrow> reachable s w n"
proof (induction segs arbitrary: b)
  case Nil
  then show ?case by simp
next
  case (Cons x segs)
  then show ?case
    by (auto split: if_splits option.splits dest: reachable_parent(1))
qed

lemma follow_one_reachable:
  assumes "tree_ok s" "reachable s w n" "follow_one s w n h = (FNext b rest, h')"
  shows "reachable s w b"
  using assms
  by (auto simp: follow_one_def Let_def reachable_root split: if_splits option.splits sum.splits
      dest: climb_reachable reachable_parent(1))

lemma resolve_loop_reachable:
  "tree_ok s \<Longrightarrow> reachable s w c \<Longrightarrow> resolve_loop s w f c q h l = RFound n \<Longrightarrow> reachable s w n"
proof (induction s w f c q h l rule: resolve_loop.induct)
  case (1 s w f c q h l)
  note reach = follow_one_reachable [OF 1(4,5)]
  show ?case
  proof (cases q)
    case Nil
    show ?thesis
    proof (cases "f \<and> n_kind c = SYMLINK_KIND")
      case True
      with Nil 1(6) obtain b rest h' where fo: "follow_one s w c h = (FNext b rest, h')"
        and "resolve_loop s w f b rest h' (length rest) = RFound n"
        by (subst (asm) resolve_loop.simps) (auto split: prod.splits follow_step.splits)
      with 1(1) [OF Nil True fo [symmetric] refl] 1(4) reach [OF fo] show ?thesis by blast
    next
      case False
      with Nil 1(5,6) show ?thesis by (subst (asm) resolve_loop.simps) auto
    qed
  next
    case (Cons x xs)
    show ?thesis
    proof (cases "n_kind c = DIRECTORY_KIND")
      case True
      with Cons 1(6) obtain d where d: "fetch_child s w (n_id c) x = Some d"
        and "resolve_loop s w f d xs h (l - 1) = RFound n"
        by (subst (asm) resolve_loop.simps) (auto split: option.splits if_splits)
      with 1(2) [OF Cons True d] 1(4) reachable_child [OF 1(5) True d] show ?thesis by blast
    next
      case False
      with Cons 1(6) have sym: "n_kind c = SYMLINK_KIND"
        by (subst (asm) resolve_loop.simps) (auto split: if_splits)
      with Cons False 1(6) obtain b rest h' where fo: "follow_one s w c h = (FNext b rest, h')"
        and "resolve_loop s w f b (rest @ q) h' (length rest) = RFound n"
        by (subst (asm) resolve_loop.simps) (auto split: prod.splits follow_step.splits if_splits)
      with 1(3) [OF Cons False sym fo [symmetric] refl] 1(4) reach [OF fo] show ?thesis by blast
    qed
  qed
qed

lemma resolve_following_reachable:
  "tree_ok s \<Longrightarrow> resolve_following s w p f = RFound n \<Longrightarrow> reachable s w n"
  by (auto simp: resolve_following_def split: option.splits
      dest!: resolve_loop_reachable [rotated 2] reachable_root)

text \<open>With the final link followed, what is found is not a link.\<close>

lemma resolve_loop_target:
  "resolve_loop s w f c q h l = RFound n \<Longrightarrow> f \<Longrightarrow> n_kind n \<noteq> SYMLINK_KIND"
proof (induction s w f c q h l rule: resolve_loop.induct)
  case (1 s w f c q h l)
  show ?case
  proof (cases q)
    case Nil
    show ?thesis
    proof (cases "f \<and> n_kind c = SYMLINK_KIND")
      case True
      with Nil 1(4) obtain b rest h' where fo: "follow_one s w c h = (FNext b rest, h')"
        and "resolve_loop s w f b rest h' (length rest) = RFound n"
        by (subst (asm) resolve_loop.simps) (auto split: prod.splits follow_step.splits)
      with 1(1) [OF Nil True fo [symmetric] refl] 1(5) show ?thesis by blast
    next
      case False
      with Nil 1(4,5) show ?thesis by (subst (asm) resolve_loop.simps) auto
    qed
  next
    case (Cons x xs)
    show ?thesis
    proof (cases "n_kind c = DIRECTORY_KIND")
      case True
      with Cons 1(4) obtain d where d: "fetch_child s w (n_id c) x = Some d"
        and "resolve_loop s w f d xs h (l - 1) = RFound n"
        by (subst (asm) resolve_loop.simps) (auto split: option.splits if_splits)
      with 1(2) [OF Cons True d] 1(5) show ?thesis by blast
    next
      case False
      with Cons 1(4) have sym: "n_kind c = SYMLINK_KIND"
        by (subst (asm) resolve_loop.simps) (auto split: if_splits)
      with Cons False 1(4) obtain b rest h' where fo: "follow_one s w c h = (FNext b rest, h')"
        and "resolve_loop s w f b (rest @ q) h' (length rest) = RFound n"
        by (subst (asm) resolve_loop.simps) (auto split: prod.splits follow_step.splits if_splits)
      with 1(3) [OF Cons False sym fo [symmetric] refl] 1(5) show ?thesis by blast
    qed
  qed
qed

lemma resolve_following_target:
  "resolve_following s w p True = RFound n \<Longrightarrow> n_kind n \<noteq> SYMLINK_KIND"
  by (auto simp: resolve_following_def split: option.splits dest: resolve_loop_target)

text \<open>Without links on the way, resolution is the plain walk.\<close>

lemma resolve_loop_walk:
  "walk s w c q = Some n \<Longrightarrow> f \<longrightarrow> n_kind n \<noteq> SYMLINK_KIND \<Longrightarrow>
    resolve_loop s w f c q h l = RFound n"
proof (induction q arbitrary: c h l)
  case Nil
  then show ?case by (subst resolve_loop.simps) auto
next
  case (Cons x q)
  then show ?case
    by (subst resolve_loop.simps) (auto split: if_splits option.splits)
qed

lemma resolve_following_plain:
  assumes "lookup_segs s w (vp_segments p) = Some n" "f \<longrightarrow> n_kind n \<noteq> SYMLINK_KIND"
  shows "resolve_following s w p f = RFound n"
  using assms by (auto simp: resolve_following_def lookup_segs_def split: option.splits
      intro: resolve_loop_walk)

text \<open>A name missing in a directory met on the walk is reported as not found.\<close>

lemma resolve_loop_missing:
  assumes "walk s w c xs = Some d" "n_kind d = DIRECTORY_KIND" "fetch_child s w (n_id d) x = None"
  shows "resolve_loop s w f c (xs @ x # ys) h 0 = RNotFound"
  using assms
proof (induction xs arbitrary: c h)
  case Nil
  then show ?case by (subst resolve_loop.simps) simp
next
  case (Cons z xs)
  then show ?case by (subst resolve_loop.simps) (auto split: if_splits option.splits)
qed

lemma resolve_following_missing:
  assumes "lookup_segs s w xs = Some d" "n_kind d = DIRECTORY_KIND"
    "fetch_child s w (n_id d) x = None" "vp_segments p = xs @ x # ys"
  shows "resolve_following s w p f = RNotFound"
  using assms by (auto simp: resolve_following_def lookup_segs_def split: option.splits
      intro: resolve_loop_missing)


end
