(* ===== verification/Store.thy ===== *)
theory Store
  imports Change Namespace
begin

text \<open>
  The invariant of the whole store and what each kind of statement does to it. \<open>wf\<close> collects
  the declared constraints, the tree of each workspace, the change log, the content of the
  files (complete, unshared generations whose chunks are the file's bytes), the trash
  records, and the origin of the identifiers. For each statement the transactions use there
  is one lemma that it succeeds on a well-formed store and leaves a well-formed store.
\<close>

subsection \<open>What is known of the outside\<close>

text \<open>UUIDs are never issued twice, and the parser accepts their canonical rendering.\<close>

definition ext_ok :: "ext \<Rightarrow> bool" where
  "ext_ok E \<longleftrightarrow> inj (now_v7 E) \<and> (\<forall>k. uuid_parse E (now_v7 E k) = Inr (now_v7 E k))"

definition used_ids :: "ext \<Rightarrow> db \<Rightarrow> uuid set" where
  "used_ids E s = now_v7 E ` {..<ids_used s}"

definition ids_ok :: "ext \<Rightarrow> db \<Rightarrow> bool" where
  "ids_ok E s \<longleftrightarrow>
     w_id ` set (workspaces s) \<subseteq> used_ids E s \<and> g_id ` set (generations s) \<subseteq> used_ids E s \<and>
     n_id ` set (nodes s) \<subseteq> used_ids E s \<and> t_id ` set (trash_rows s) \<subseteq> used_ids E s \<and>
     {i. \<exists>c \<in> set (changes s). ch_node_id c = Some i} \<subseteq> used_ids E s"

subsection \<open>Content\<close>

definition CHUNK_SIZE :: nat where "CHUNK_SIZE = 1048576"

lemma CHUNK_SIZE_pos [simp]: "0 < CHUNK_SIZE"
  by (simp add: CHUNK_SIZE_def)

definition chunk_at :: "db \<Rightarrow> uuid \<Rightarrow> int \<Rightarrow> byte list option" where
  "chunk_at s g i =
     map_option c_bytes (find (\<lambda>c. c_generation_id c = g \<and> c_chunk_index c = i) (chunks s))"

text \<open>The chunk of index \<open>i\<close> of a file holding \<open>bs\<close>: no row past the end, none empty.\<close>

definition chunk_of :: "byte list \<Rightarrow> int \<Rightarrow> byte list option" where
  "chunk_of bs i =
     (if 0 \<le> i \<and> nat i * CHUNK_SIZE < length bs
      then Some (take CHUNK_SIZE (drop (nat i * CHUNK_SIZE) bs)) else None)"

definition gen_holds :: "db \<Rightarrow> uuid \<Rightarrow> byte list \<Rightarrow> bool" where
  "gen_holds s g bs \<longleftrightarrow> (\<forall>i. chunk_at s g i = chunk_of bs i)"

definition generation_ok :: "db \<Rightarrow> node_row \<Rightarrow> uuid \<Rightarrow> bool" where
  "generation_ok s r g \<longleftrightarrow>
     (\<exists>q \<in> set (generations s). g_id q = g \<and> g_workspace_id q = n_workspace_id r \<and>
        g_complete q = 1 \<and> g_length q = n_size r) \<and>
     (\<exists>bs. n_size r = int (length bs) \<and> gen_holds s g bs)"

definition row_content_ok :: "db \<Rightarrow> node_row \<Rightarrow> bool" where
  "row_content_ok s r \<longleftrightarrow>
     n_revision r \<ge> 1 \<and>
     (if n_kind r = FILE_KIND
      then \<exists>g. n_content_generation_id r = Some g \<and> generation_ok s r g
      else n_content_generation_id r = None \<and> n_size r = 0) \<and>
     (if n_kind r = SYMLINK_KIND
      then \<exists>t. n_symlink_target r = Some (target_str t) \<and> lt_parse (target_str t) = Inr t
      else n_symlink_target r = None)"

definition gens_unshared :: "node_row list \<Rightarrow> bool" where
  "gens_unshared rows \<longleftrightarrow>
     (\<forall>r \<in> set rows. \<forall>q \<in> set rows. \<forall>g. n_content_generation_id r = Some g \<longrightarrow>
        n_content_generation_id q = Some g \<longrightarrow> n_id r = n_id q)"

definition content_ok :: "db \<Rightarrow> bool" where
  "content_ok s \<longleftrightarrow> (\<forall>r \<in> set (nodes s). row_content_ok s r) \<and> gens_unshared (nodes s)"

subsection \<open>Trash records\<close>

text \<open>
  A trash record names a trashed row that still hangs at the place it was trashed from;
  each trashed row has exactly one.
\<close>

definition trash_ok :: "db \<Rightarrow> bool" where
  "trash_ok s \<longleftrightarrow>
     (\<forall>t \<in> set (trash_rows s). \<exists>r \<in> set (nodes s).
        n_id r = t_node_id t \<and> n_workspace_id r = t_workspace_id t \<and> \<not> active r \<and>
        n_parent_id r = Some (t_original_parent_id t) \<and> n_name r = t_original_name t) \<and>
     distinct (map t_node_id (trash_rows s)) \<and>
     (\<forall>r \<in> set (nodes s). \<not> active r \<longrightarrow> n_id r \<in> t_node_id ` set (trash_rows s))"

definition wf :: "ext \<Rightarrow> db \<Rightarrow> bool" where
  "wf E s \<longleftrightarrow>
     schema_ok s \<and> tree_ok s \<and> log_ok s \<and> content_ok s \<and> trash_ok s \<and> ids_ok E s"

lemma wfD [dest]:
  "wf E s \<Longrightarrow> schema_ok s" "wf E s \<Longrightarrow> tree_ok s" "wf E s \<Longrightarrow> log_ok s"
  "wf E s \<Longrightarrow> content_ok s" "wf E s \<Longrightarrow> trash_ok s" "wf E s \<Longrightarrow> ids_ok E s"
  by (simp_all add: wf_def)

subsection \<open>Declared constraints, statement by statement\<close>

lemma schema_add_generation:
  assumes "schema_ok s" "g_id q \<notin> g_id ` set (generations s)"
    "g_workspace_id q \<in> w_id ` set (workspaces s)"
  shows "schema_ok (s\<lparr>generations := generations s @ [q]\<rparr>)"
  using assms
  by (auto simp: schema_ok_def pk_ok_def unique_ok_def fk_ok_def Let_def list_all_iff
      intro: ref_in_mono)

lemma schema_map_generations:
  assumes "schema_ok s" "\<And>q. g_id (f q) = g_id q" "\<And>q. g_workspace_id (f q) = g_workspace_id q"
  shows "schema_ok (s\<lparr>generations := map f (generations s)\<rparr>)"
proof -
  have [simp]: "map g_id (map f (generations s)) = map g_id (generations s)"
    using assms(2) by simp
  show ?thesis
    using assms
    by (simp add: schema_ok_def pk_ok_def unique_ok_def fk_ok_def Let_def list_all_iff o_def)
qed

lemma schema_add_chunks:
  assumes "schema_ok s"
    "distinct (map (\<lambda>c. (c_generation_id c, c_chunk_index c)) (chunks s @ rs))"
    "\<forall>c \<in> set rs. c_generation_id c \<in> g_id ` set (generations s)"
  shows "schema_ok (s\<lparr>chunks := chunks s @ rs\<rparr>)"
  using assms
  by (simp add: schema_ok_def pk_ok_def unique_ok_def fk_ok_def Let_def list_all_iff ball_Un)

lemma schema_add_attributes:
  assumes "schema_ok s"
    "distinct (map (\<lambda>a. (a_node_id a, a_key a)) (attributes s @ rs))"
    "\<forall>a \<in> set rs. a_node_id a \<in> n_id ` set (nodes s)"
  shows "schema_ok (s\<lparr>attributes := attributes s @ rs\<rparr>)"
  using assms
  by (simp add: schema_ok_def pk_ok_def unique_ok_def fk_ok_def Let_def list_all_iff ball_Un)

lemma schema_add_trash:
  assumes "schema_ok s" "t_id q \<notin> t_id ` set (trash_rows s)"
    "t_workspace_id q \<in> w_id ` set (workspaces s)" "t_node_id q \<in> n_id ` set (nodes s)"
  shows "schema_ok (s\<lparr>trash_rows := trash_rows s @ [q]\<rparr>)"
  using assms
  by (simp add: schema_ok_def pk_ok_def unique_ok_def fk_ok_def Let_def list_all_iff)

lemma schema_filter_trash: "schema_ok s \<Longrightarrow> schema_ok (s\<lparr>trash_rows := filter P (trash_rows s)\<rparr>)"
  by (auto simp: schema_ok_def pk_ok_def unique_ok_def fk_ok_def Let_def list_all_iff
      intro: distinct_map_filter)

lemma schema_filter_attributes:
  "schema_ok s \<Longrightarrow> schema_ok (s\<lparr>attributes := filter P (attributes s)\<rparr>)"
  by (auto simp: schema_ok_def pk_ok_def unique_ok_def fk_ok_def Let_def list_all_iff
      intro: distinct_map_filter)

text \<open>A new row clashes with no active sibling.\<close>

definition name_free :: "db \<Rightarrow> uuid \<Rightarrow> uuid \<Rightarrow> string \<Rightarrow> bool" where
  "name_free s w p x \<longleftrightarrow>
     (\<forall>q \<in> set (nodes s). \<not> (n_workspace_id q = w \<and> n_parent_id q = Some p \<and> n_name q = x \<and> active q))"

lemma name_free_fetch: "name_free s w p x \<longleftrightarrow> fetch_child s w p x = None"
  by (auto simp: name_free_def fetch_child_def find_cong_simp)

lemma schema_add_node:
  assumes ok: "schema_ok s" and new: "n_id r \<notin> n_id ` set (nodes s)"
    and ws: "n_workspace_id r \<in> w_id ` set (workspaces s)"
    and par: "ref_in (n_parent_id r) (map n_id (nodes s))"
    and gen: "ref_in (n_content_generation_id r) (map g_id (generations s))"
    and free: "\<And>p. n_parent_id r = Some p \<Longrightarrow> name_free s (n_workspace_id r) p (n_name r)"
  shows "schema_ok (s\<lparr>nodes := nodes s @ [r]\<rparr>)"
proof -
  have "unique_ok (s\<lparr>nodes := nodes s @ [r]\<rparr>)"
    using ok free by (auto simp: schema_ok_def unique_ok_def name_free_def)
  moreover have "fk_ok (s\<lparr>nodes := nodes s @ [r]\<rparr>)"
    using ok ws par gen
    by (auto simp: schema_ok_def fk_ok_def Let_def list_all_iff intro: ref_in_mono)
  ultimately show ?thesis
    using ok new by (simp add: schema_ok_def pk_ok_def)
qed

text \<open>An UPDATE that keeps the place of every row.\<close>

definition keeps_place :: "(node_row \<Rightarrow> node_row) \<Rightarrow> bool" where
  "keeps_place f \<longleftrightarrow>
     (\<forall>r. n_id (f r) = n_id r \<and> n_workspace_id (f r) = n_workspace_id r \<and>
          n_parent_id (f r) = n_parent_id r \<and> n_name (f r) = n_name r \<and>
          n_kind (f r) = n_kind r \<and> n_trashed_at_ms (f r) = n_trashed_at_ms r)"

lemma keeps_placeD [simp]:
  assumes "keeps_place f"
  shows "n_id (f r) = n_id r" "n_workspace_id (f r) = n_workspace_id r"
    "n_parent_id (f r) = n_parent_id r" "n_name (f r) = n_name r" "n_kind (f r) = n_kind r"
    "n_trashed_at_ms (f r) = n_trashed_at_ms r" "active (f r) = active r"
  using assms by (simp_all add: keeps_place_def active_def)

lemma filter_map_keep: "(\<And>r. P (f r) = P r) \<Longrightarrow> filter P (map f xs) = map f (filter P xs)"
  by (simp add: filter_map o_def)

lemma schema_map_nodes:
  assumes ok: "schema_ok s" and f: "keeps_place f"
    and gen: "\<And>r. r \<in> set (nodes s) \<Longrightarrow> ref_in (n_content_generation_id (f r)) (map g_id (generations s))"
  shows "schema_ok (s\<lparr>nodes := map f (nodes s)\<rparr>)"
proof -
  have ids: "map n_id (map f (nodes s)) = map n_id (nodes s)" using f by simp
  have "unique_ok (s\<lparr>nodes := map f (nodes s)\<rparr>)"
    using ok f by (simp add: schema_ok_def unique_ok_def filter_map o_def)
  moreover have "pk_ok (s\<lparr>nodes := map f (nodes s)\<rparr>)"
    using ok f by (simp add: schema_ok_def pk_ok_def o_def)
  moreover have "fk_ok (s\<lparr>nodes := map f (nodes s)\<rparr>)"
    using ok f gen by (simp add: schema_ok_def fk_ok_def Let_def list_all_iff o_def)
  ultimately show ?thesis by (simp add: schema_ok_def)
qed


text \<open>An UPDATE of one row by identifier, as \<open>update_node\<close> performs it.\<close>

definition upd :: "uuid \<Rightarrow> (node_row \<Rightarrow> node_row) \<Rightarrow> node_row list \<Rightarrow> node_row list" where
  "upd i f rows = map (\<lambda>r. if n_id r = i then f r else r) rows"

lemma update_node_upd: "update_node i f s = checked (s\<lparr>nodes := upd i f (nodes s)\<rparr>)"
  by (simp add: update_node_def upd_def)

lemma upd_keeps:
  assumes "keeps_place f"
  shows "keeps_place (\<lambda>r. if n_id r = i then f r else r)"
  unfolding keeps_place_def using keeps_placeD [OF assms] by presburger

lemma upd_absent: "i \<notin> n_id ` set rows \<Longrightarrow> upd i f rows = rows"
  by (auto simp: upd_def intro!: map_idI)

text \<open>Moving one row to a free name; a trashed row needs no free name.\<close>

definition place_row :: "uuid \<Rightarrow> string \<Rightarrow> int option \<Rightarrow> (node_row \<Rightarrow> node_row) \<Rightarrow> bool" where
  "place_row p x td f \<longleftrightarrow>
     (\<forall>r. n_id (f r) = n_id r \<and> n_workspace_id (f r) = n_workspace_id r \<and>
          n_parent_id (f r) = Some p \<and> n_name (f r) = x \<and>
          n_kind (f r) = n_kind r \<and> n_trashed_at_ms (f r) = td \<and>
          n_content_generation_id (f r) = n_content_generation_id r)"

lemma place_rowD [simp]:
  assumes "place_row p x td f"
  shows "n_id (f r) = n_id r" "n_workspace_id (f r) = n_workspace_id r"
    "n_parent_id (f r) = Some p" "n_name (f r) = x" "n_kind (f r) = n_kind r"
    "n_trashed_at_ms (f r) = td" "active (f r) \<longleftrightarrow> td = None"
    "n_content_generation_id (f r) = n_content_generation_id r"
  using assms by (simp_all add: place_row_def active_def)

lemma distinct_map_inj: "distinct xs \<Longrightarrow> inj_on f (set xs) \<Longrightarrow> distinct (map f xs)"
  by (simp add: distinct_map)

lemma unique_ok_iff:
  assumes "distinct (map n_id (nodes s))"
  shows "unique_ok s \<longleftrightarrow>
    (\<forall>r \<in> set (nodes s). \<forall>q \<in> set (nodes s). active r \<longrightarrow> active q \<longrightarrow> n_parent_id r \<noteq> None \<longrightarrow>
       n_workspace_id r = n_workspace_id q \<longrightarrow> n_parent_id r = n_parent_id q \<longrightarrow>
       n_name r = n_name q \<longrightarrow> n_id r = n_id q)"
proof -
  let ?k = "\<lambda>r. (n_workspace_id r, n_parent_id r, n_name r)"
  have "distinct (nodes s)" using assms by (simp add: distinct_map)
  then have u: "unique_ok s \<longleftrightarrow> inj_on ?k {r \<in> set (nodes s). active r \<and> n_parent_id r \<noteq> None}"
    by (simp add: unique_ok_def distinct_map)
  have i: "n_id r = n_id q \<longleftrightarrow> r = q" if "r \<in> set (nodes s)" "q \<in> set (nodes s)" for r q
    using distinct_map_eqD [OF assms that] by blast
  show ?thesis
    unfolding u
  proof (intro iffI ballI impI inj_onI)
    fix a b
    assume "inj_on ?k {r \<in> set (nodes s). active r \<and> n_parent_id r \<noteq> None}"
      "a \<in> set (nodes s)" "b \<in> set (nodes s)" "active a" "active b" "n_parent_id a \<noteq> None"
      "n_workspace_id a = n_workspace_id b" "n_parent_id a = n_parent_id b" "n_name a = n_name b"
    then have "a = b" by (elim inj_onD) auto
    then show "n_id a = n_id b" by simp
  next
    fix a b
    assume h: "\<forall>r \<in> set (nodes s). \<forall>q \<in> set (nodes s). active r \<longrightarrow> active q \<longrightarrow> n_parent_id r \<noteq> None \<longrightarrow>
       n_workspace_id r = n_workspace_id q \<longrightarrow> n_parent_id r = n_parent_id q \<longrightarrow>
       n_name r = n_name q \<longrightarrow> n_id r = n_id q"
      and ab: "a \<in> {r \<in> set (nodes s). active r \<and> n_parent_id r \<noteq> None}"
      "b \<in> {r \<in> set (nodes s). active r \<and> n_parent_id r \<noteq> None}" "?k a = ?k b"
    then have "n_id a = n_id b" by blast
    with i ab show "a = b" by blast
  qed
qed

lemma schema_move_node:
  assumes ok: "schema_ok s" and f: "place_row p x td f" and r: "r \<in> set (nodes s)" "n_id r = i"
    and p: "p \<in> n_id ` set (nodes s)"
    and free: "td = None \<Longrightarrow> name_free s (n_workspace_id r) p x"
  shows "schema_ok (s\<lparr>nodes := upd i f (nodes s)\<rparr>)"
proof -
  have ids: "map n_id (upd i f (nodes s)) = map n_id (nodes s)"
    using f by (auto simp: upd_def)
  have d: "distinct (map n_id (nodes s))" using ok by (simp add: schema_ok_def pk_ok_def)
  have one: "q = r" if "q \<in> set (nodes s)" "n_id q = i" for q
    using distinct_map_eqD [OF d] that r by blast
  have "unique_ok (s\<lparr>nodes := upd i f (nodes s)\<rparr>)"
  proof (subst unique_ok_iff)
    show "distinct (map n_id (nodes (s\<lparr>nodes := upd i f (nodes s)\<rparr>)))" using d ids by simp
    have u: "n_id a = n_id b" if "a \<in> set (nodes s)" "b \<in> set (nodes s)" "active a" "active b"
      "n_parent_id a = Some y" "n_workspace_id a = n_workspace_id b" "n_parent_id b = Some y"
      "n_name a = n_name b" for a b y
      using siblings_unique [of s "n_workspace_id a" a b y] ok that
      by (simp add: schema_ok_def visible_def)
    let ?g = "\<lambda>r. if n_id r = i then f r else r"
    have g: "n_id (?g a) = n_id (?g b)"
      if ab: "a \<in> set (nodes s)" "b \<in> set (nodes s)" "active (?g a)" "active (?g b)"
        "n_parent_id (?g a) \<noteq> None" "n_workspace_id (?g a) = n_workspace_id (?g b)"
        "n_parent_id (?g a) = n_parent_id (?g b)" "n_name (?g a) = n_name (?g b)" for a b
    proof -
      have clash: False if "n_id a = i" "n_id b \<noteq> i" "a \<in> set (nodes s)" "b \<in> set (nodes s)"
        "active (f a)" "active b" "n_workspace_id a = n_workspace_id b" "n_parent_id b = Some p"
        "n_name b = x" for a b
      proof -
        have "td = None" using that f by simp
        moreover have "a = r" using one that by blast
        ultimately show False using free that unfolding name_free_def by simp
      qed
      show ?thesis
      proof (cases "n_id a = i"; cases "n_id b = i")
        assume "n_id a \<noteq> i" "n_id b \<noteq> i"
        then have ne: "(n_id a = i) = False" "(n_id b = i) = False" by simp_all
        have "n_parent_id a \<noteq> None" using ab(5) unfolding ne if_False .
        then obtain y where "n_parent_id a = Some y" by (cases "n_parent_id a") simp_all
        with u [OF ab(1,2), of y] ab(3-8) show ?thesis unfolding ne if_False by metis
      next
        assume "n_id a = i" "n_id b \<noteq> i"
        with ab f clash [of a b] show ?thesis by simp
      next
        assume "n_id a \<noteq> i" "n_id b = i"
        with ab f clash [of b a] show ?thesis by simp
      qed (use ab f in simp_all)
    qed
    show "\<forall>a \<in> set (nodes (s\<lparr>nodes := upd i f (nodes s)\<rparr>)).
       \<forall>b \<in> set (nodes (s\<lparr>nodes := upd i f (nodes s)\<rparr>)). active a \<longrightarrow> active b \<longrightarrow> n_parent_id a \<noteq> None \<longrightarrow>
       n_workspace_id a = n_workspace_id b \<longrightarrow> n_parent_id a = n_parent_id b \<longrightarrow>
       n_name a = n_name b \<longrightarrow> n_id a = n_id b"
    proof (intro ballI impI)
      fix a b
      assume "a \<in> set (nodes (s\<lparr>nodes := upd i f (nodes s)\<rparr>))"
        "b \<in> set (nodes (s\<lparr>nodes := upd i f (nodes s)\<rparr>))"
      then have in_g: "a \<in> ?g ` set (nodes s)" "b \<in> ?g ` set (nodes s)"
        by (simp_all add: upd_def)
      assume ab: "active a" "active b"
        "n_parent_id a \<noteq> None" "n_workspace_id a = n_workspace_id b"
        "n_parent_id a = n_parent_id b" "n_name a = n_name b"
      from in_g obtain a0 b0 where "a0 \<in> set (nodes s)" "a = ?g a0" "b0 \<in> set (nodes s)" "b = ?g b0"
        by blast
      with ab g [of a0 b0] show "n_id a = n_id b" by blast
    qed
  qed
  moreover have "pk_ok (s\<lparr>nodes := upd i f (nodes s)\<rparr>)"
    using ok ids by (simp add: schema_ok_def pk_ok_def)
  moreover have "fk_ok (s\<lparr>nodes := upd i f (nodes s)\<rparr>)"
    using ok f ids p
    by (simp add: schema_ok_def fk_ok_def Let_def list_all_iff) (auto simp: upd_def)
  ultimately show ?thesis by (simp add: schema_ok_def)
qed

text \<open>Deleting a set of rows closed under children, and generations no row refers to.\<close>

definition closed_ids :: "node_row list \<Rightarrow> uuid list \<Rightarrow> bool" where
  "closed_ids rows ids \<longleftrightarrow>
     (\<forall>r \<in> set rows. \<forall>p. n_parent_id r = Some p \<longrightarrow> p \<in> set ids \<longrightarrow> n_id r \<in> set ids)"

lemma cascade_closed:
  "set ids \<subseteq> n_id ` set rows \<Longrightarrow> closed_ids rows (cascade rows ids)"
  by (auto simp: closed_ids_def set_cascade intro: below.child)

lemma fk_ok_iff:
  "fk_ok s \<longleftrightarrow>
     (\<forall>g \<in> set (generations s). g_workspace_id g \<in> w_id ` set (workspaces s)) \<and>
     (\<forall>r \<in> set (nodes s). n_workspace_id r \<in> w_id ` set (workspaces s) \<and>
        (\<forall>p. n_parent_id r = Some p \<longrightarrow> p \<in> n_id ` set (nodes s)) \<and>
        (\<forall>g. n_content_generation_id r = Some g \<longrightarrow> g \<in> g_id ` set (generations s))) \<and>
     (\<forall>c \<in> set (chunks s). c_generation_id c \<in> g_id ` set (generations s)) \<and>
     (\<forall>a \<in> set (attributes s). a_node_id a \<in> n_id ` set (nodes s)) \<and>
     (\<forall>t \<in> set (trash_rows s). t_workspace_id t \<in> w_id ` set (workspaces s) \<and>
        t_node_id t \<in> n_id ` set (nodes s)) \<and>
     (\<forall>c \<in> set (changes s). ch_workspace_id c \<in> w_id ` set (workspaces s))"
proof -
  have r: "ref_in x (map f xs) \<longleftrightarrow> (\<forall>y. x = Some y \<longrightarrow> y \<in> f ` set xs)" for x f xs
    by (cases x) simp_all
  show ?thesis unfolding fk_ok_def Let_def list_all_iff r set_map by blast
qed

lemma drop_nodes_fields [simp]:
  "nodes (drop_nodes ids s) = filter (\<lambda>r. n_id r \<notin> set ids) (nodes s)"
  "attributes (drop_nodes ids s) = filter (\<lambda>a. a_node_id a \<notin> set ids) (attributes s)"
  "trash_rows (drop_nodes ids s) = filter (\<lambda>t. t_node_id t \<notin> set ids) (trash_rows s)"
  "workspaces (drop_nodes ids s) = workspaces s" "generations (drop_nodes ids s) = generations s"
  "chunks (drop_nodes ids s) = chunks s" "changes (drop_nodes ids s) = changes s"
  "ids_used (drop_nodes ids s) = ids_used s" "clock_reads (drop_nodes ids s) = clock_reads s"
  by (simp_all add: drop_nodes_def)

lemma drop_generations_fields [simp]:
  "generations (drop_generations P s) = filter (\<lambda>g. \<not> P g) (generations s)"
  "chunks (drop_generations P s)
     = filter (\<lambda>c. c_generation_id c \<notin> g_id ` {g \<in> set (generations s). P g}) (chunks s)"
  "nodes (drop_generations P s) = nodes s" "attributes (drop_generations P s) = attributes s"
  "trash_rows (drop_generations P s) = trash_rows s"
  "workspaces (drop_generations P s) = workspaces s" "changes (drop_generations P s) = changes s"
  "ids_used (drop_generations P s) = ids_used s"
  "clock_reads (drop_generations P s) = clock_reads s"
  by (simp_all add: drop_generations_def Let_def)

lemma schema_drop_nodes:
  assumes ok: "schema_ok s" and closed: "closed_ids (nodes s) ids"
  shows "schema_ok (drop_nodes ids s)"
proof -
  have comm: "filter P (filter Q xs) = filter Q (filter P xs)" for P Q and xs :: "node_row list"
    by (induction xs) auto
  have "unique_ok (drop_nodes ids s)"
    using ok unfolding schema_ok_def unique_ok_def drop_nodes_fields
    by (subst comm) (rule distinct_map_filter, simp)
  moreover have "pk_ok (drop_nodes ids s)"
    using ok by (auto simp: schema_ok_def pk_ok_def drop_nodes_def intro: distinct_map_filter)
  moreover have "fk_ok (drop_nodes ids s)"
    using ok closed unfolding schema_ok_def fk_ok_iff closed_ids_def drop_nodes_fields
    by fastforce
  ultimately show ?thesis by (simp add: schema_ok_def)
qed

lemma schema_drop_generations:
  assumes ok: "schema_ok s"
    and unref: "\<And>r q. r \<in> set (nodes s) \<Longrightarrow> q \<in> set (generations s) \<Longrightarrow> P q \<Longrightarrow>
      n_content_generation_id r \<noteq> Some (g_id q)"
  shows "schema_ok (drop_generations P s)"
proof -
  have "pk_ok (drop_generations P s)"
    using ok
    by (auto simp: schema_ok_def pk_ok_def drop_generations_def Let_def intro: distinct_map_filter)
  moreover have "unique_ok (drop_generations P s)"
    using ok by (simp add: schema_ok_def unique_ok_def drop_generations_def Let_def)
  moreover have "fk_ok (drop_generations P s)"
    using ok unref unfolding schema_ok_def fk_ok_iff drop_generations_fields
    by fastforce
  ultimately show ?thesis by (simp add: schema_ok_def)
qed


subsection \<open>The tree, statement by statement\<close>

lemma schema_parts:
  assumes "schema_ok s"
  shows "distinct (map n_id (nodes s))" "unique_ok s" "distinct (map w_id (workspaces s))"
    "distinct (map g_id (generations s))" "distinct (map t_id (trash_rows s))" "fk_ok s"
  using assms by (simp_all add: schema_ok_def pk_ok_def)

lemma tree_okI:
  assumes "schema_ok s" "\<And>r. r \<in> set (nodes s) \<Longrightarrow> row_ok s r" "roots_ok s"
  shows "tree_ok s"
  using assms schema_parts [OF assms(1)] by (simp add: tree_ok_def)

lemma row_ok_mono:
  assumes "row_ok s r"
    and "\<And>q. q \<in> set (nodes s) \<Longrightarrow> n_parent_id r = Some (n_id q) \<Longrightarrow> n_kind q = DIRECTORY_KIND \<Longrightarrow>
      \<exists>q' \<in> set (nodes t). n_id q' = n_id q \<and> n_workspace_id q' = n_workspace_id q \<and>
        n_kind q' = DIRECTORY_KIND"
  shows "row_ok t r"
proof (cases "n_parent_id r")
  case None
  with assms(1) show ?thesis by (simp add: row_ok_def)
next
  case (Some p)
  with assms(1) obtain q where "q \<in> set (nodes s)" "n_id q = p"
    "n_workspace_id q = n_workspace_id r" "n_kind q = DIRECTORY_KIND"
    by (auto simp: row_ok_def)
  with assms Some show ?thesis by (fastforce simp: row_ok_def)
qed

lemma roots_ok_cong:
  assumes "workspaces t = workspaces s"
    and "filter (\<lambda>r. n_parent_id r = None) (nodes t) = filter (\<lambda>r. n_parent_id r = None) (nodes s)"
  shows "roots_ok t = roots_ok s"
proof -
  have "(\<exists>r \<in> set rows. n_parent_id r = None \<and> n_workspace_id r = w) \<longleftrightarrow>
      (\<exists>r \<in> set (filter (\<lambda>r. n_parent_id r = None) rows). n_workspace_id r = w)"
    for w and rows :: "node_row list"
    by auto
  with assms show ?thesis unfolding roots_ok_def by presburger
qed

lemma tree_add_node:
  assumes ok: "tree_ok s" and t: "t = s\<lparr>nodes := nodes s @ [r]\<rparr>" "schema_ok t"
    and q: "q \<in> set (nodes s)" "n_parent_id r = Some (n_id q)" "n_kind q = DIRECTORY_KIND"
      "n_workspace_id q = n_workspace_id r"
    and r: "valid_seg (n_name r)" "n_kind r \<in> {DIRECTORY_KIND, FILE_KIND, SYMLINK_KIND}"
  shows "tree_ok t"
proof (rule tree_okI [OF t(2)])
  fix r' assume "r' \<in> set (nodes t)"
  then consider "r' \<in> set (nodes s)" | "r' = r" by (auto simp: t)
  then show "row_ok t r'"
  proof cases
    case 1
    from tree_okD(4) [OF ok 1] show ?thesis by (rule row_ok_mono) (auto simp: t)
  next
    case 2
    with q r show ?thesis by (auto simp: row_ok_def t)
  qed
next
  from ok have "roots_ok s" by (rule tree_okD)
  then show "roots_ok t" using q(2) by (auto simp: roots_ok_def t)
qed

lemma tree_map_nodes:
  assumes ok: "tree_ok s" and t: "t = s\<lparr>nodes := map f (nodes s)\<rparr>" "schema_ok t"
    and f: "keeps_place f"
  shows "tree_ok t"
proof (rule tree_okI [OF t(2)])
  fix r' assume "r' \<in> set (nodes t)"
  then obtain r where r: "r \<in> set (nodes s)" "r' = f r" by (auto simp: t)
  from tree_okD(4) [OF ok r(1)] have "row_ok t r"
  proof (rule row_ok_mono)
    fix q assume "q \<in> set (nodes s)" "n_kind q = DIRECTORY_KIND"
    then show "\<exists>q' \<in> set (nodes t). n_id q' = n_id q \<and> n_workspace_id q' = n_workspace_id q \<and>
        n_kind q' = DIRECTORY_KIND"
      using f by (auto simp: t intro!: bexI [of _ q])
  qed
  then show "row_ok t r'" using f r(2) by (simp add: row_ok_def split: option.splits)
next
  from ok have "roots_ok s" by (rule tree_okD)
  then show "roots_ok t" using f
    by (auto simp: roots_ok_def t filter_map o_def cong: filter_cong)
qed

lemma tree_move_node:
  assumes ok: "tree_ok s" and t: "t = s\<lparr>nodes := upd i f (nodes s)\<rparr>" "schema_ok t"
    and f: "place_row p x td f"
    and r: "r \<in> set (nodes s)" "n_id r = i" "n_parent_id r \<noteq> None"
    and q: "q \<in> set (nodes s)" "n_id q = p" "n_kind q = DIRECTORY_KIND"
      "n_workspace_id q = n_workspace_id r"
    and x: "valid_seg x"
  shows "tree_ok t"
proof (rule tree_okI [OF t(2)])
  let ?g = "\<lambda>r. if n_id r = i then f r else r"
  have g: "n_id (?g a) = n_id a" "n_workspace_id (?g a) = n_workspace_id a" "n_kind (?g a) = n_kind a" for a
    using f by simp_all
  have nodes_t: "nodes t = map ?g (nodes s)" by (simp add: t upd_def)
  have one: "a = r" if "a \<in> set (nodes s)" "n_id a = i" for a
    using row_id_eq [OF ok that(1) r(1)] that(2) r(2) by simp
  fix r' assume "r' \<in> set (nodes t)"
  then obtain r0 where r0: "r0 \<in> set (nodes s)" "r' = ?g r0" by (auto simp: nodes_t)
  have keep: "row_ok t r0"
    using tree_okD(4) [OF ok r0(1)]
  proof (rule row_ok_mono)
    fix q assume q: "q \<in> set (nodes s)" "n_kind q = DIRECTORY_KIND"
    then have "?g q \<in> set (nodes t)" by (simp add: nodes_t)
    then show "\<exists>q' \<in> set (nodes t). n_id q' = n_id q \<and> n_workspace_id q' = n_workspace_id q \<and>
        n_kind q' = DIRECTORY_KIND"
      by (rule bexI [rotated]) (simp only: g q(2) simp_thms)
  qed
  show "row_ok t r'"
  proof (cases "n_id r0 = i")
    case True
    have "?g q \<in> set (nodes t)" using q(1) by (simp add: nodes_t)
    then have "\<exists>q' \<in> set (nodes t). n_id q' = p \<and> n_workspace_id q' = n_workspace_id r \<and>
        n_kind q' = DIRECTORY_KIND"
      by (rule bexI [rotated]) (simp only: g, simp add: q)
    with True one [OF r0(1)] keep f x r0(2) show ?thesis by (auto simp: row_ok_def)
  next
    case False
    with keep r0(2) show ?thesis by simp
  qed
next
  have "filter (\<lambda>r. n_parent_id r = None) (upd i f (nodes s)) = filter (\<lambda>r. n_parent_id r = None) (nodes s)"
  proof -
    have root: "(n_parent_id a = None \<longrightarrow> n_id a \<noteq> i)" if "a \<in> set (nodes s)" for a
      using row_id_eq [OF ok that r(1)] r(2,3) by auto
    have "filter (\<lambda>r. n_parent_id r = None) (upd i f rows) = filter (\<lambda>r. n_parent_id r = None) rows"
      if "set rows \<subseteq> set (nodes s)" for rows
      using that root f by (induction rows) (auto simp: upd_def)
    then show ?thesis by simp
  qed
  then have same: "filter (\<lambda>r. n_parent_id r = None) (nodes t) = filter (\<lambda>r. n_parent_id r = None) (nodes s)"
    by (simp add: t)
  then have "roots_ok t = roots_ok s" by (intro roots_ok_cong) (simp_all add: t(1))
  with tree_okD(3) [OF ok] show "roots_ok t" by simp
qed

lemma tree_drop_nodes:
  assumes ok: "tree_ok s" and t: "schema_ok (drop_nodes ids s)"
    and closed: "closed_ids (nodes s) ids"
    and roots: "\<And>r. r \<in> set (nodes s) \<Longrightarrow> n_parent_id r = None \<Longrightarrow> n_id r \<notin> set ids"
  shows "tree_ok (drop_nodes ids s)"
proof (rule tree_okI [OF t])
  fix r assume r: "r \<in> set (nodes (drop_nodes ids s))"
  then have "row_ok s r" using tree_okD(4) [OF ok] by simp
  then show "row_ok (drop_nodes ids s) r"
  proof (rule row_ok_mono)
    fix q assume "q \<in> set (nodes s)" "n_parent_id r = Some (n_id q)" "n_kind q = DIRECTORY_KIND"
    then show "\<exists>q' \<in> set (nodes (drop_nodes ids s)). n_id q' = n_id q \<and>
        n_workspace_id q' = n_workspace_id q \<and> n_kind q' = DIRECTORY_KIND"
      using r closed by (auto simp: closed_ids_def intro!: bexI [of _ q])
  qed
next
  have "filter (\<lambda>r. n_parent_id r = None) (nodes (drop_nodes ids s))
      = filter (\<lambda>r. n_parent_id r = None) (nodes s)"
    using roots by (auto intro!: filter_cong)
  then have "roots_ok (drop_nodes ids s) = roots_ok s" by (intro roots_ok_cong) simp_all
  with tree_okD(3) [OF ok] show "roots_ok (drop_nodes ids s)" by simp
qed


subsection \<open>The content, statement by statement\<close>

lemma chunk_at_append:
  "(\<And>c. c \<in> set rs \<Longrightarrow> c_generation_id c \<noteq> g) \<Longrightarrow>
    chunk_at (s\<lparr>chunks := chunks s @ rs\<rparr>) g i = chunk_at s g i"
proof -
  assume "\<And>c. c \<in> set rs \<Longrightarrow> c_generation_id c \<noteq> g"
  then have "find (\<lambda>c. c_generation_id c = g \<and> c_chunk_index c = i) rs = None"
    by (auto simp: find_cong_simp)
  moreover have "find P (xs @ ys) = (case find P xs of None \<Rightarrow> find P ys | Some x \<Rightarrow> Some x)"
    for P xs and ys :: "chunk_row list"
    by (induction xs) auto
  ultimately show ?thesis by (simp add: chunk_at_def split: option.split)
qed

lemma chunk_at_filter:
  "(\<And>c. c_generation_id c = g \<Longrightarrow> P c) \<Longrightarrow> chunks t = filter P (chunks s) \<Longrightarrow>
    chunk_at t g i = chunk_at s g i"
proof -
  assume P: "\<And>c. c_generation_id c = g \<Longrightarrow> P c" and t: "chunks t = filter P (chunks s)"
  have "find (\<lambda>c. c_generation_id c = g \<and> c_chunk_index c = i) (filter P xs)
      = find (\<lambda>c. c_generation_id c = g \<and> c_chunk_index c = i) xs" for xs
    using P by (induction xs) auto
  then show ?thesis by (simp add: chunk_at_def t)
qed

lemma generation_ok_mono:
  assumes "generation_ok s r g"
    and "\<And>q. q \<in> set (generations s) \<Longrightarrow> g_id q = g \<Longrightarrow> q \<in> set (generations t)"
    and "\<And>i. chunk_at t g i = chunk_at s g i"
  shows "generation_ok t r g"
  using assms by (auto simp: generation_ok_def gen_holds_def)

text \<open>Statements that leave the generations of the files alone, and delete rows at most.\<close>

lemma content_frame:
  assumes ok: "content_ok s" and sub: "set (nodes t) \<subseteq> set (nodes s)"
    and gen: "\<And>r q g. r \<in> set (nodes t) \<Longrightarrow> n_content_generation_id r = Some g \<Longrightarrow>
      q \<in> set (generations s) \<Longrightarrow> g_id q = g \<Longrightarrow> q \<in> set (generations t)"
    and chunk: "\<And>r g i. r \<in> set (nodes t) \<Longrightarrow> n_content_generation_id r = Some g \<Longrightarrow>
      chunk_at t g i = chunk_at s g i"
  shows "content_ok t"
proof -
  have "row_content_ok t r" if "r \<in> set (nodes t)" for r
  proof -
    have "row_content_ok s r" using ok sub that by (auto simp: content_ok_def)
    moreover have "generation_ok t r g" if "generation_ok s r g" "n_content_generation_id r = Some g" for g
      using that(1)
      by (rule generation_ok_mono) (use gen chunk that \<open>r \<in> set (nodes t)\<close> in auto)
    ultimately show ?thesis by (auto simp: row_content_ok_def split: if_splits)
  qed
  moreover have "gens_unshared (nodes t)"
    using ok sub unfolding content_ok_def gens_unshared_def by blast
  ultimately show ?thesis by (simp add: content_ok_def)
qed

lemma content_add_node:
  assumes ok: "content_ok s" and r: "row_content_ok s r"
    and unref: "\<And>g q. n_content_generation_id r = Some g \<Longrightarrow> q \<in> set (nodes s) \<Longrightarrow>
      n_content_generation_id q \<noteq> Some g"
  shows "content_ok (s\<lparr>nodes := nodes s @ [r]\<rparr>)"
proof -
  have "row_content_ok (s\<lparr>nodes := nodes s @ [r]\<rparr>) = row_content_ok s"
    by (auto simp: fun_eq_iff row_content_ok_def generation_ok_def gen_holds_def chunk_at_def)
  moreover have "gens_unshared (nodes s @ [r])"
    unfolding gens_unshared_def
  proof (intro ballI allI impI)
    fix a b g
    assume ab: "a \<in> set (nodes s @ [r])" "b \<in> set (nodes s @ [r])"
      "n_content_generation_id a = Some g" "n_content_generation_id b = Some g"
    have "n_id a = n_id b" if "a \<in> set (nodes s)" "b \<in> set (nodes s)"
      using ok ab(3,4) that unfolding content_ok_def gens_unshared_def by blast
    with ab unref show "n_id a = n_id b" by fastforce
  qed
  ultimately show ?thesis using ok r by (simp add: content_ok_def)
qed

text \<open>An UPDATE that keeps the content columns and a positive revision.\<close>

definition keeps_content :: "(node_row \<Rightarrow> node_row) \<Rightarrow> bool" where
  "keeps_content f \<longleftrightarrow>
     (\<forall>r. n_id (f r) = n_id r \<and> n_workspace_id (f r) = n_workspace_id r \<and>
          n_kind (f r) = n_kind r \<and> n_size (f r) = n_size r \<and>
          n_content_generation_id (f r) = n_content_generation_id r \<and>
          n_symlink_target (f r) = n_symlink_target r)"

lemma keeps_contentD [simp]:
  assumes "keeps_content f"
  shows "n_id (f r) = n_id r" "n_workspace_id (f r) = n_workspace_id r"
    "n_kind (f r) = n_kind r" "n_size (f r) = n_size r"
    "n_content_generation_id (f r) = n_content_generation_id r"
    "n_symlink_target (f r) = n_symlink_target r"
  using assms by (simp_all add: keeps_content_def)

lemma content_upd_keep:
  assumes ok: "content_ok s" and f: "keeps_content f"
    and rev: "\<And>r. r \<in> set (nodes s) \<Longrightarrow> n_id r = i \<Longrightarrow> n_revision (f r) \<ge> 1"
  shows "content_ok (s\<lparr>nodes := upd i f (nodes s)\<rparr>)" (is "content_ok ?t")
proof -
  have same: "row_content_ok ?t r = row_content_ok s r" for r
    by (simp add: row_content_ok_def generation_ok_def gen_holds_def chunk_at_def)
  have "generation_ok s (f r) g = generation_ok s r g" for r g
    using f by (simp add: generation_ok_def)
  then have "row_content_ok s (f r)" if "row_content_ok s r" "r \<in> set (nodes s)" "n_id r = i" for r
    using that f rev by (simp add: row_content_ok_def)
  then have "\<forall>r \<in> set (nodes ?t). row_content_ok ?t r"
    using ok unfolding same by (auto simp: content_ok_def upd_def)
  moreover have "gens_unshared (nodes ?t)"
  proof -
    let ?g = "\<lambda>r. if n_id r = i then f r else r"
    have g: "n_id (?g r) = n_id r" "n_content_generation_id (?g r) = n_content_generation_id r" for r
      using f by simp_all
    have "gens_unshared (map ?g (nodes s))"
      using ok unfolding content_ok_def gens_unshared_def set_map by (auto simp only: g ball_simps)
    then show ?thesis by (simp add: upd_def)
  qed
  ultimately show ?thesis by (simp add: content_ok_def)
qed

lemma content_ok_cong:
  "nodes t = nodes s \<Longrightarrow> generations t = generations s \<Longrightarrow> chunks t = chunks s \<Longrightarrow>
    content_ok t = content_ok s"
  by (simp add: content_ok_def row_content_ok_def generation_ok_def gen_holds_def chunk_at_def)

subsection \<open>Trash records, statement by statement\<close>

lemma trash_ok_cong:
  "nodes t = nodes s \<Longrightarrow> trash_rows t = trash_rows s \<Longrightarrow> trash_ok t = trash_ok s"
  by (simp add: trash_ok_def)

lemma trash_add_node:
  "trash_ok s \<Longrightarrow> active r \<Longrightarrow> trash_ok (s\<lparr>nodes := nodes s @ [r]\<rparr>)"
  by (fastforce simp: trash_ok_def)

lemma trash_map_nodes:
  assumes "trash_ok s" "keeps_place f"
  shows "trash_ok (s\<lparr>nodes := map f (nodes s)\<rparr>)"
proof -
  note f = keeps_placeD [OF assms(2)]
  have nodes: "nodes (s\<lparr>nodes := map f (nodes s)\<rparr>) = map f (nodes s)" by simp
  have trash: "trash_rows (s\<lparr>nodes := map f (nodes s)\<rparr>) = trash_rows s" by simp
  from assms(1) show ?thesis
    unfolding trash_ok_def nodes trash set_map ball_simps bex_simps f by assumption
qed

lemma trash_drop_nodes:
  assumes "trash_ok s"
  shows "trash_ok (drop_nodes ids s)"
proof -
  have "distinct (map t_node_id (filter (\<lambda>t. t_node_id t \<notin> set ids) (trash_rows s)))"
    using assms by (intro distinct_map_filter) (simp add: trash_ok_def)
  with assms show ?thesis by (fastforce simp: trash_ok_def)
qed

subsection \<open>Identifiers\<close>

lemma used_ids_mono: "ids_used s \<le> ids_used t \<Longrightarrow> used_ids E s \<subseteq> used_ids E t"
  by (auto simp: used_ids_def)

lemma ids_ok_mono:
  assumes "ids_ok E s" "ids_used s \<le> ids_used t"
    "w_id ` set (workspaces t) \<subseteq> w_id ` set (workspaces s) \<union> used_ids E t"
    "g_id ` set (generations t) \<subseteq> g_id ` set (generations s) \<union> used_ids E t"
    "n_id ` set (nodes t) \<subseteq> n_id ` set (nodes s) \<union> used_ids E t"
    "t_id ` set (trash_rows t) \<subseteq> t_id ` set (trash_rows s) \<union> used_ids E t"
    "{i. \<exists>c \<in> set (changes t). ch_node_id c = Some i} \<subseteq>
      {i. \<exists>c \<in> set (changes s). ch_node_id c = Some i} \<union> used_ids E t"
  shows "ids_ok E t"
proof -
  have sub: "A \<subseteq> used_ids E t" if "A \<subseteq> B \<union> used_ids E t" "B \<subseteq> used_ids E s" for A B
    using that used_ids_mono [OF assms(2), of E] by blast
  show ?thesis
    unfolding ids_ok_def
    by (intro conjI sub [OF assms(3)] sub [OF assms(4)] sub [OF assms(5)] sub [OF assms(6)]
        sub [OF assms(7)]) (use assms(1) in \<open>simp_all add: ids_ok_def\<close>)
qed

text \<open>The identifier handed out next is in no table.\<close>

definition fresh_id :: "ext \<Rightarrow> db \<Rightarrow> uuid" where
  "fresh_id E s = now_v7 E (ids_used s)"

lemma new_id_eq: "new_id E s = (fresh_id E s, s\<lparr>ids_used := Suc (ids_used s)\<rparr>)"
  by (simp add: new_id_def fresh_id_def)

lemma fresh_not_used:
  "ext_ok E \<Longrightarrow> fresh_id E s \<notin> used_ids E s"
  by (auto simp: ext_ok_def fresh_id_def used_ids_def dest!: injD)

lemma fresh_unused:
  assumes "ext_ok E" "ids_ok E s"
  shows "fresh_id E s \<notin> w_id ` set (workspaces s)" "fresh_id E s \<notin> g_id ` set (generations s)"
    "fresh_id E s \<notin> n_id ` set (nodes s)" "fresh_id E s \<notin> t_id ` set (trash_rows s)"
    "\<forall>c \<in> set (changes s). ch_node_id c \<noteq> Some (fresh_id E s)"
  using fresh_not_used [OF assms(1), of s] assms(2) unfolding ids_ok_def by auto

lemma used_parse: "ext_ok E \<Longrightarrow> i \<in> used_ids E s \<Longrightarrow> parse_id E i = Inr i"
  by (auto simp: ext_ok_def used_ids_def parse_id_def)


subsection \<open>The log entry of a mutation\<close>

lemma append_change_wf:
  assumes ok: "wf E s" and w: "w \<in> w_id ` set (workspaces s)"
    and ni: "\<And>i. ni = Some i \<Longrightarrow> i \<in> used_ids E s"
    and c: "\<And>sq. change_ok (change_rec w sq kind ni op np rv aj now)"
  obtains t sq where "append_change w kind ni op np rv aj now s = Some t" "wf E t"
    "t = s\<lparr>workspaces := map (bump_seq w now) (workspaces s),
           changes := changes s @ [change_rec w sq kind ni op np rv aj now]\<rparr>"
    "nodes t = nodes s" "w_id ` set (workspaces t) = w_id ` set (workspaces s)"
proof -
  from w obtain r where r: "r \<in> set (workspaces s)" "w_id r = w" by auto
  let ?t = "s\<lparr>workspaces := map (bump_seq w now) (workspaces s),
      changes := changes s @ [change_rec w (w_change_seq r + 1) kind ni op np rv aj now]\<rparr>"
  have eq: "append_change w kind ni op np rv aj now s = Some ?t"
    using append_change_eq [OF _ _ r] ok by blast
  have ids: "w_id ` set (workspaces ?t) = w_id ` set (workspaces s)"
    by (simp add: image_image)
  have "schema_ok ?t" using append_change_Some [OF eq] by metis
  moreover have "log_ok ?t" using append_change_log_ok [OF _ _ eq] c ok by blast
  moreover have "tree_ok ?t" using wfD(2) [OF ok] ids by (subst tree_ok_cong [where s = s]) simp_all
  moreover have "content_ok ?t" using wfD(4) [OF ok] by (subst content_ok_cong [where s = s]) simp_all
  moreover have "trash_ok ?t" using wfD(5) [OF ok] by (subst trash_ok_cong [where s = s]) simp_all
  moreover have "ids_ok E ?t"
    by (rule ids_ok_mono [OF wfD(6) [OF ok]]) (use ni ids in \<open>auto simp: used_ids_def\<close>)
  ultimately have "wf E ?t" by (simp add: wf_def)
  from that [OF eq this refl _ ids] show thesis by simp
qed

lemma change_ok_rec:
  assumes "\<And>p. op = Some p \<Longrightarrow> \<exists>v. canonical v \<and> p = as_str v"
    and "\<And>p. np = Some p \<Longrightarrow> \<exists>v. canonical v \<and> p = as_str v" and "\<And>v. rv = Some v \<Longrightarrow> v \<ge> 1"
  shows "change_ok (change_rec w sq kind ni op np rv aj now)"
  using assms vp_parse_as_str unfolding change_ok_def change_rec_def by fastforce

text \<open>Counters are no part of the invariant.\<close>

lemma ids_ok_Suc: "ids_ok E s \<Longrightarrow> ids_ok E (s\<lparr>ids_used := Suc (ids_used s)\<rparr>)"
  by (rule ids_ok_mono) auto

lemma tree_ok_counters [simp]:
  "tree_ok (s\<lparr>ids_used := k\<rparr>) = tree_ok s" "tree_ok (s\<lparr>clock_reads := k\<rparr>) = tree_ok s"
  by (rule tree_ok_cong; simp)+

lemma log_ok_counters [simp]:
  "log_ok (s\<lparr>ids_used := k\<rparr>) = log_ok s" "log_ok (s\<lparr>clock_reads := k\<rparr>) = log_ok s"
  by (rule log_ok_cong; simp)+

lemma content_ok_counters [simp]:
  "content_ok (s\<lparr>ids_used := k\<rparr>) = content_ok s" "content_ok (s\<lparr>clock_reads := k\<rparr>) = content_ok s"
  by (rule content_ok_cong; simp)+

lemma trash_ok_counters [simp]:
  "trash_ok (s\<lparr>ids_used := k\<rparr>) = trash_ok s" "trash_ok (s\<lparr>clock_reads := k\<rparr>) = trash_ok s"
  by (rule trash_ok_cong; simp)+

lemma ids_ok_clock [simp]: "ids_ok E (s\<lparr>clock_reads := k\<rparr>) = ids_ok E s"
  by (simp add: ids_ok_def used_ids_def)

lemma wf_new_id: "wf E s \<Longrightarrow> wf E (s\<lparr>ids_used := Suc (ids_used s)\<rparr>)"
  by (simp add: wf_def ids_ok_Suc)

lemma wf_now [simp]: "wf E (s\<lparr>clock_reads := k\<rparr>) = wf E s"
  by (simp add: wf_def)

subsection \<open>Calls on the connection\<close>

text \<open>
  \<open>conn.call\<close> with a transaction: commit and return, or, when a statement failed, roll back
  and report \<open>map_call_error\<close>.
\<close>

definition conn_call :: "(db \<Rightarrow> ('a \<times> db) option) \<Rightarrow> db \<Rightarrow> 'a fs_result \<times> db" where
  "conn_call f s = (case f s of
     None \<Rightarrow> (Inl (internal_storage_failure ''sqlite error''), s)
   | Some (x, t) \<Rightarrow> (Inr x, t))"

text \<open>A call followed by the conversion of its outcome.\<close>

definition finish_call :: "('a \<Rightarrow> 'b fs_result) \<Rightarrow> 'a fs_result \<times> db \<Rightarrow> 'b fs_result \<times> db" where
  "finish_call g r = (res_bind (fst r) g, snd r)"

lemma finish_call_Some:
  "f s = Some (x, t) \<Longrightarrow> finish_call g (conn_call f s) = (g x, t)"
  by (simp add: finish_call_def conn_call_def)


end
