(* ===== verification/Workspace.thy ===== *)
theory Workspace
  imports Store
begin

text \<open>
  \<open>fslite-sqlite/src/workspace.rs\<close>: creating, deleting and resetting a workspace, and its
  usage. Each workspace has one root row. The limits are stored as signed integers, so a
  limit of 2^63 or more is stored negative and read back through the same cast.
\<close>

record workspace_options =
  wso_max_bytes :: u64
  wso_max_nodes :: u64
  wso_max_file_bytes :: u64

definition workspace_options_default :: workspace_options where
  "workspace_options_default =
     \<lparr>wso_max_bytes = 10 * 1024 * 1024 * 1024, wso_max_nodes = 1000000,
      wso_max_file_bytes = 1024 * 1024 * 1024\<rparr>"

record workspace =
  wk_id :: uuid
  wk_created_at_ms :: int
  wk_updated_at_ms :: int
  wk_max_bytes :: u64
  wk_max_nodes :: u64
  wk_max_file_bytes :: u64

definition root_row :: "uuid \<Rightarrow> uuid \<Rightarrow> int \<Rightarrow> node_row" where
  "root_row i w now =
     \<lparr>n_id = i, n_workspace_id = w, n_parent_id = None, n_name = '''', n_kind = 0, n_size = 0,
      n_revision = 1, n_created_at_ms = now, n_modified_at_ms = now, n_accessed_at_ms = now,
      n_content_generation_id = None, n_symlink_target = None, n_trashed_at_ms = None\<rparr>"

definition create_workspace_tx ::
    "ext \<Rightarrow> workspace_options \<Rightarrow> db \<Rightarrow> (workspace \<times> db) option" where
  "create_workspace_tx E options s =
     (let (workspace_id, s) = new_id E s;
          (root, s) = new_id E s;
          (now, s) = now_ms E s
      in do {
        s \<leftarrow> insert_workspace
               \<lparr>w_id = workspace_id, w_created_at_ms = now, w_updated_at_ms = now,
                w_change_seq = 0, w_max_bytes = as_i64 (wso_max_bytes options),
                w_max_nodes = as_i64 (wso_max_nodes options),
                w_max_file_bytes = as_i64 (wso_max_file_bytes options)\<rparr> s;
        s \<leftarrow> insert_node (root_row root workspace_id now) s;
        Some (\<lparr>wk_id = workspace_id, wk_created_at_ms = now, wk_updated_at_ms = now,
               wk_max_bytes = wso_max_bytes options, wk_max_nodes = wso_max_nodes options,
               wk_max_file_bytes = wso_max_file_bytes options\<rparr>, s) })"

definition create_workspace ::
    "ext \<Rightarrow> workspace_options \<Rightarrow> db \<Rightarrow> workspace fs_result \<times> db" where
  "create_workspace E options s = conn_call (create_workspace_tx E options) s"

definition delete_workspace :: "uuid \<Rightarrow> db \<Rightarrow> unit fs_result \<times> db" where
  "delete_workspace w s =
     conn_call (\<lambda>s. map_option (\<lambda>t. ((), t)) (delete_workspace_rows w s)) s"

definition reset_workspace_tx :: "ext \<Rightarrow> uuid \<Rightarrow> db \<Rightarrow> (bool \<times> db) option" where
  "reset_workspace_tx E w s =
     (if \<not> list_ex (\<lambda>r. w_id r = w) (workspaces s) then Some (False, s)
      else do {
        s \<leftarrow> delete_nodes (\<lambda>r. n_workspace_id r = w) s;
        s \<leftarrow> delete_generations (\<lambda>g. g_workspace_id g = w) s;
        s \<leftarrow> delete_changes (\<lambda>c. ch_workspace_id c = w) s;
        let (root, s) = new_id E s;
            (now, s) = now_ms E s
        in do {
          s \<leftarrow> insert_node (root_row root w now) s;
          s \<leftarrow> update_workspace w (\<lambda>r. r\<lparr>w_change_seq := 0, w_updated_at_ms := now\<rparr>) s;
          Some (True, s) } })"

definition reset_workspace :: "ext \<Rightarrow> uuid \<Rightarrow> db \<Rightarrow> unit fs_result \<times> db" where
  "reset_workspace E w s =
     finish_call (\<lambda>reset. if reset then Inr () else Inl (not_found w))
       (conn_call (reset_workspace_tx E w) s)"

subsection \<open>Usage\<close>

record raw_usage =
  ru_active_logical_bytes :: int
  ru_trashed_logical_bytes :: int
  ru_staged_bytes :: int
  ru_active_nodes :: int
  ru_trashed_nodes :: int
  ru_max_bytes :: int
  ru_max_nodes :: int
  ru_max_file_bytes :: int

definition into_usage :: "uuid \<Rightarrow> raw_usage \<Rightarrow> workspace_usage" where
  "into_usage w u =
     \<lparr>wu_workspace_id = w, wu_active_logical_bytes = as_u64 (ru_active_logical_bytes u),
      wu_trashed_logical_bytes = as_u64 (ru_trashed_logical_bytes u),
      wu_staged_bytes = as_u64 (ru_staged_bytes u),
      wu_active_nodes = as_u64 (ru_active_nodes u),
      wu_trashed_nodes = as_u64 (ru_trashed_nodes u),
      wu_max_logical_bytes = as_u64 (ru_max_bytes u), wu_max_nodes = as_u64 (ru_max_nodes u),
      wu_max_file_bytes = as_u64 (ru_max_file_bytes u)\<rparr>"

definition fetch_usage :: "db \<Rightarrow> uuid \<Rightarrow> raw_usage option" where
  "fetch_usage s w =
     (case find (\<lambda>r. w_id r = w) (workspaces s) of
        None \<Rightarrow> None
      | Some row \<Rightarrow>
          let live = filter (\<lambda>r. n_workspace_id r = w \<and> active r) (nodes s);
              trashed = filter (\<lambda>r. n_workspace_id r = w \<and> \<not> active r) (nodes s);
              staged = filter (\<lambda>g. g_workspace_id g = w \<and> g_complete g = 0) (generations s)
          in Some \<lparr>ru_active_logical_bytes = sum_list (map n_size live),
                   ru_trashed_logical_bytes = sum_list (map n_size trashed),
                   ru_staged_bytes = sum_list (map g_length staged),
                   ru_active_nodes = int (length live), ru_trashed_nodes = int (length trashed),
                   ru_max_bytes = w_max_bytes row, ru_max_nodes = w_max_nodes row,
                   ru_max_file_bytes = w_max_file_bytes row\<rparr>)"

definition workspace_usage_op :: "uuid \<Rightarrow> db \<Rightarrow> workspace_usage fs_result" where
  "workspace_usage_op w s =
     (case fetch_usage s w of
        None \<Rightarrow> Inl (not_found w)
      | Some u \<Rightarrow> Inr (into_usage w u))"

subsection \<open>Creating\<close>

definition empty_db :: db where
  "empty_db = \<lparr>workspaces = [], generations = [], nodes = [], chunks = [], attributes = [],
     trash_rows = [], changes = [], ids_used = 0, clock_reads = 0\<rparr>"

lemma wf_empty: "wf E empty_db"
  by (simp add: wf_def empty_db_def schema_ok_def pk_ok_def unique_ok_def fk_ok_def Let_def
      tree_ok_def roots_ok_def log_ok_def content_ok_def gens_unshared_def trash_ok_def ids_ok_def)

text \<open>A root row for a workspace without rows completes a store.\<close>

lemma root_row_fields [simp]:
  "n_id (root_row i w now) = i" "n_workspace_id (root_row i w now) = w"
  "n_parent_id (root_row i w now) = None" "n_name (root_row i w now) = ''''"
  "n_kind (root_row i w now) = 0" "n_content_generation_id (root_row i w now) = None"
  "active (root_row i w now)"
  by (simp_all add: root_row_def active_def)

lemma add_root:
  assumes sch: "schema_ok s" and rows: "\<And>r. r \<in> set (nodes s) \<Longrightarrow> row_ok s r"
    and roots: "\<And>v. v \<in> w_id ` set (workspaces s) \<Longrightarrow> v \<noteq> w \<Longrightarrow>
      \<exists>r \<in> set (nodes s). n_parent_id r = None \<and> n_workspace_id r = v"
    and dist: "distinct (map n_workspace_id (filter (\<lambda>r. n_parent_id r = None) (nodes s)))"
    and empty: "\<And>r. r \<in> set (nodes s) \<Longrightarrow> n_workspace_id r \<noteq> w"
    and w: "w \<in> w_id ` set (workspaces s)" and i: "i \<notin> n_id ` set (nodes s)"
    and cont: "content_ok s" and tr: "trash_ok s"
    and t: "t = s\<lparr>nodes := nodes s @ [root_row i w now]\<rparr>"
  shows "schema_ok t" "tree_ok t" "content_ok t" "trash_ok t"
proof -
  show sch': "schema_ok t" unfolding t
    by (rule schema_add_node) (use sch i w in \<open>simp_all\<close>)
  show "tree_ok t"
  proof (rule tree_okI [OF sch'])
    fix r assume "r \<in> set (nodes t)"
    then consider "r \<in> set (nodes s)" | "r = root_row i w now" by (auto simp: t)
    then show "row_ok t r"
    proof cases
      case 1
      from rows [OF this] show ?thesis by (rule row_ok_mono) (auto simp: t)
    next
      case 2
      then show ?thesis by (simp add: row_ok_def kind_defs)
    qed
  next
    show "roots_ok t"
      using roots dist empty by (auto simp: roots_ok_def t)
  qed
  show "content_ok t" unfolding t
    by (rule content_add_node [OF cont]) (simp_all add: row_content_ok_def kind_defs root_row_def)
  show "trash_ok t" unfolding t by (rule trash_add_node [OF tr]) simp
qed

lemma schema_add_workspace:
  assumes "schema_ok s" "w_id r \<notin> w_id ` set (workspaces s)"
  shows "schema_ok (s\<lparr>workspaces := workspaces s @ [r]\<rparr>)"
  using assms unfolding schema_ok_def pk_ok_def unique_ok_def fk_ok_iff by simp

lemma log_add_workspace:
  assumes ok: "schema_ok s" "log_ok s" and r: "w_id r \<notin> w_id ` set (workspaces s)" "w_change_seq r = 0"
  shows "log_ok (s\<lparr>workspaces := workspaces s @ [r]\<rparr>)"
proof -
  have "log_of s (w_id r) = []"
    using ok(1) r(1) unfolding schema_ok_def fk_ok_iff log_of_def filter_empty_conv by metis
  with ok(2) r(2) show ?thesis by (auto simp: log_ok_def)
qed

lemma create_workspace_wf:
  assumes E: "ext_ok E" and ok: "wf E s"
  obtains k t now where "create_workspace E opts s = (Inr k, t)" "wf E t"
    "wk_id k = fresh_id E s" "wk_id k \<notin> w_id ` set (workspaces s)"
    "nodes t = nodes s @ [root_row (now_v7 E (Suc (ids_used s))) (wk_id k) now]"
    "w_id ` set (workspaces t) = insert (wk_id k) (w_id ` set (workspaces s))"
    "changes t = changes s"
proof -
  define w where "w = fresh_id E s"
  define s1 where "s1 = s\<lparr>ids_used := Suc (ids_used s)\<rparr>"
  define i where "i = fresh_id E s1"
  define now where "now = clock_ms E (clock_reads s)"
  define row where "row = \<lparr>w_id = w, w_created_at_ms = now, w_updated_at_ms = now,
    w_change_seq = 0, w_max_bytes = as_i64 (wso_max_bytes opts),
    w_max_nodes = as_i64 (wso_max_nodes opts), w_max_file_bytes = as_i64 (wso_max_file_bytes opts)\<rparr>"
  define s2 where "s2 = s1\<lparr>ids_used := Suc (ids_used s1), clock_reads := Suc (clock_reads s)\<rparr>"
  define s3 where "s3 = s2\<lparr>workspaces := workspaces s @ [row]\<rparr>"
  define t where "t = s3\<lparr>nodes := nodes s @ [root_row i w now]\<rparr>"
  have w1: "wf E s1" unfolding s1_def using ok by (rule wf_new_id)
  have w2: "wf E s2" unfolding s2_def
    using wf_new_id [OF w1] by simp
  have wnew: "w \<notin> w_id ` set (workspaces s)"
    using fresh_unused(1) [OF E wfD(6) [OF ok]] by (simp add: w_def)
  have inew: "i \<notin> n_id ` set (nodes s)"
    using fresh_unused(3) [OF E wfD(6) [OF w1]] by (simp add: i_def s1_def)
  have ws2 [simp]: "workspaces s2 = workspaces s" "nodes s2 = nodes s" by (simp_all add: s2_def s1_def)
  have s3: "schema_ok s3"
    unfolding s3_def using schema_add_workspace [of s2 row] w2 wnew by (simp add: row_def wf_def)
  have l3: "log_ok s3"
    unfolding s3_def using log_add_workspace [of s2 row] w2 wnew by (simp add: row_def wf_def)
  have nows: "n_workspace_id r \<noteq> w" if "r \<in> set (nodes s)" for r
    using ok wnew that unfolding wf_def schema_ok_def fk_ok_iff by blast
  have n3 [simp]: "nodes s3 = nodes s" "w_id ` set (workspaces s3) = insert w (w_id ` set (workspaces s))"
    by (simp_all add: s3_def row_def)
  have "tree_ok s2" using w2 by (rule wfD)
  have t_ok: "schema_ok t" "tree_ok t" "content_ok t" "trash_ok t"
  proof -
    have rows: "row_ok s3 r" if "r \<in> set (nodes s3)" for r
      by (rule row_ok_mono [OF tree_okD(4) [OF \<open>tree_ok s2\<close>]]) (use that in auto)
    have roots: "\<exists>r \<in> set (nodes s3). n_parent_id r = None \<and> n_workspace_id r = v"
      if "v \<in> w_id ` set (workspaces s3)" "v \<noteq> w" for v
      using tree_okD(3) [OF \<open>tree_ok s2\<close>] that by (auto simp: roots_ok_def)
    have dist: "distinct (map n_workspace_id (filter (\<lambda>r. n_parent_id r = None) (nodes s3)))"
      using tree_okD(3) [OF \<open>tree_ok s2\<close>] by (simp add: roots_ok_def)
    have cs: "content_ok s3" "trash_ok s3"
      using w2 content_ok_cong [of s3 s2] trash_ok_cong [of s3 s2] by (simp_all add: s3_def wf_def)
    note * = add_root [where s = s3 and w = w and i = i and t = t and now = now,
        OF s3 rows roots dist _ _ _ cs]
    show "schema_ok t" "tree_ok t" "content_ok t" "trash_ok t"
      by (rule *; use nows inew in \<open>simp add: t_def\<close>)+
  qed
  have "log_ok t" using l3 log_ok_cong [of t s3] by (simp add: t_def)
  moreover have "ids_ok E t"
    by (rule ids_ok_mono [OF wfD(6) [OF ok]])
      (auto simp: t_def s3_def s2_def s1_def row_def used_ids_def w_def i_def fresh_id_def)
  ultimately have "wf E t" using t_ok by (simp add: wf_def)
  moreover have "create_workspace E opts s = (Inr \<lparr>wk_id = w, wk_created_at_ms = now,
      wk_updated_at_ms = now, wk_max_bytes = wso_max_bytes opts, wk_max_nodes = wso_max_nodes opts,
      wk_max_file_bytes = wso_max_file_bytes opts\<rparr>, t)"
    using s3 t_ok(1)
    by (simp add: create_workspace_def conn_call_def create_workspace_tx_def new_id_eq now_ms_def
        insert_workspace_def insert_node_def checked_def t_def s3_def s2_def s1_def row_def
        w_def i_def now_def Let_def)
  moreover have "nodes t = nodes s @ [root_row (now_v7 E (Suc (ids_used s))) w now]"
    by (simp add: t_def i_def s1_def fresh_id_def)
  moreover have "w_id ` set (workspaces t) = insert w (w_id ` set (workspaces s))"
    by (simp add: t_def s3_def row_def)
  moreover have "changes t = changes s" by (simp add: t_def s3_def s2_def s1_def)
  ultimately show thesis
    using that [of _ t now] wnew unfolding w_def by simp
qed


subsection \<open>Deleting\<close>

text \<open>The cascade from the rows of a workspace stays in the workspace.\<close>

lemma below_workspace:
  assumes ok: "tree_ok s"
  shows "below (nodes s) a x \<Longrightarrow> r \<in> set (nodes s) \<Longrightarrow> n_id r = a \<Longrightarrow> q \<in> set (nodes s) \<Longrightarrow>
    n_id q = x \<Longrightarrow> n_workspace_id q = n_workspace_id r"
proof (induction arbitrary: q rule: below.induct)
  case self
  then show ?case using row_id_eq [OF ok] by metis
next
  case (child p c)
  then have "q = c" using row_id_eq [OF ok] by blast
  with child obtain m where "m \<in> set (nodes s)" "n_id m = p" "n_workspace_id m = n_workspace_id q"
    using row_parentE [OF ok child(2,3)] by metis
  with child show ?case by metis
qed

lemma cascade_workspace:
  assumes ok: "tree_ok s"
  shows "set (cascade (nodes s) (map n_id (filter (\<lambda>r. n_workspace_id r = w) (nodes s))))
    = n_id ` {r \<in> set (nodes s). n_workspace_id r = w}" (is "?L = ?R")
proof -
  have sub: "set (map n_id (filter (\<lambda>r. n_workspace_id r = w) (nodes s))) \<subseteq> n_id ` set (nodes s)"
    by auto
  have "?L = {x. \<exists>a \<in> ?R. below (nodes s) a x}"
    unfolding set_cascade [OF sub] by simp
  also have "\<dots> = ?R"
  proof (intro equalityI subsetI)
    fix x assume "x \<in> {x. \<exists>a \<in> ?R. below (nodes s) a x}"
    then obtain r where r: "r \<in> set (nodes s)" "n_workspace_id r = w" and b: "below (nodes s) (n_id r) x"
      by auto
    from below_in [OF b] obtain q where q: "q \<in> set (nodes s)" "n_id q = x" by auto
    from below_workspace [OF ok b r(1) refl q] r(2) q show "x \<in> ?R" by auto
  next
    fix x assume "x \<in> ?R"
    then show "x \<in> {x. \<exists>a \<in> ?R. below (nodes s) a x}" by (auto intro!: below.self)
  qed
  finally show ?thesis .
qed

text \<open>The rows of one workspace, dropped.\<close>

definition without_rows :: "uuid \<Rightarrow> db \<Rightarrow> db" where
  "without_rows w s =
     drop_generations (\<lambda>g. g_workspace_id g = w)
       (drop_nodes (map n_id (filter (\<lambda>r. n_workspace_id r = w) (nodes s))) s)"

lemma drop_nodes_cong: "set xs = set ys \<Longrightarrow> drop_nodes xs s = drop_nodes ys s"
  by (simp add: drop_nodes_def)

lemma without_rows_nodes [simp]:
  assumes "tree_ok s"
  shows "nodes (without_rows w s) = filter (\<lambda>r. n_workspace_id r \<noteq> w) (nodes s)"
proof -
  have "n_id r \<notin> n_id ` {q \<in> set (nodes s). n_workspace_id q = w} \<longleftrightarrow> n_workspace_id r \<noteq> w"
    if "r \<in> set (nodes s)" for r
    using row_id_eq [OF assms] that by blast
  then show ?thesis by (auto simp: without_rows_def intro!: filter_cong)
qed

lemma file_workspace:
  assumes "wf E s" "r \<in> set (nodes s)" "n_content_generation_id r = Some g" "q \<in> set (generations s)"
    "g_id q = g"
  shows "g_workspace_id q = n_workspace_id r"
proof -
  have "row_content_ok s r" using assms(1,2) by (auto simp: wf_def content_ok_def)
  then have "generation_ok s r g"
    using assms(3) by (auto simp: row_content_ok_def split: if_splits)
  then obtain p where "p \<in> set (generations s)" "g_id p = g" "g_workspace_id p = n_workspace_id r"
    by (auto simp: generation_ok_def)
  moreover have "distinct (map g_id (generations s))" using assms(1) schema_parts(4) by blast
  ultimately show ?thesis using assms(4,5) distinct_map_eqD by metis
qed

lemma without_rows_parts:
  assumes ok: "wf E s"
  shows "schema_ok (drop_nodes (map n_id (filter (\<lambda>r. n_workspace_id r = w) (nodes s))) s)"
    and "schema_ok (without_rows w s)"
    and "content_ok (without_rows w s)" and "trash_ok (without_rows w s)"
    and "\<And>r. r \<in> set (nodes (without_rows w s)) \<Longrightarrow> row_ok (without_rows w s) r"
    and "distinct (map n_workspace_id
           (filter (\<lambda>r. n_parent_id r = None) (nodes (without_rows w s))))"
proof -
  let ?ids = "map n_id (filter (\<lambda>r. n_workspace_id r = w) (nodes s))"
  have tree: "tree_ok s" using ok by blast
  have nodes: "nodes (drop_nodes ?ids s) = filter (\<lambda>r. n_workspace_id r \<noteq> w) (nodes s)"
    using without_rows_nodes [OF tree, of w] by (simp add: without_rows_def)
  have "closed_ids (nodes s) ?ids"
    unfolding closed_ids_def
  proof (intro ballI allI impI)
    fix r p assume r: "r \<in> set (nodes s)" "n_parent_id r = Some p" "p \<in> set ?ids"
    then obtain m where m: "m \<in> set (nodes s)" "n_id m = p" "n_workspace_id m = n_workspace_id r"
      using row_parentE [OF tree] by metis
    from r(3) obtain m' where m': "m' \<in> set (nodes s)" "n_workspace_id m' = w" "n_id m' = p" by auto
    with m have "m' = m" using row_id_eq [OF tree] by blast
    with m m' r(1) show "n_id r \<in> set ?ids" by auto
  qed
  with ok show sch: "schema_ok (drop_nodes ?ids s)" by (blast intro: schema_drop_nodes)
  then show sch': "schema_ok (without_rows w s)"
    unfolding without_rows_def
  proof (rule schema_drop_generations)
    fix r q assume rq: "r \<in> set (nodes (drop_nodes ?ids s))" "q \<in> set (generations (drop_nodes ?ids s))"
      "g_workspace_id q = w"
    show "n_content_generation_id r \<noteq> Some (g_id q)"
    proof
      assume "n_content_generation_id r = Some (g_id q)"
      moreover from rq(1) have "r \<in> set (nodes s)" "n_workspace_id r \<noteq> w" unfolding nodes by simp_all
      ultimately show False using file_workspace [OF ok, of r "g_id q" q] rq(2,3) by simp
    qed
  qed
  show "content_ok (without_rows w s)"
  proof (rule content_frame [OF wfD(4) [OF ok]])
    show "set (nodes (without_rows w s)) \<subseteq> set (nodes s)" using tree by auto
  next
    fix r q g assume rq: "r \<in> set (nodes (without_rows w s))" "n_content_generation_id r = Some g"
      "q \<in> set (generations s)" "g_id q = g"
    with file_workspace [OF ok, of r g q] tree show "q \<in> set (generations (without_rows w s))"
      by (auto simp: without_rows_def)
  next
    fix r g i assume r: "r \<in> set (nodes (without_rows w s))" "n_content_generation_id r = Some g"
    with file_workspace [OF ok, of r g] tree
    have "g \<notin> g_id ` {q \<in> set (generations s). g_workspace_id q = w}" by auto
    then show "chunk_at (without_rows w s) g i = chunk_at s g i"
      by (intro chunk_at_filter) (auto simp: without_rows_def)
  qed
  have "trash_ok (drop_nodes ?ids s)" using ok by (blast intro: trash_drop_nodes)
  then show "trash_ok (without_rows w s)"
    by (subst trash_ok_cong [where s = "drop_nodes ?ids s"]) (simp_all add: without_rows_def)
  show "row_ok (without_rows w s) r" if r: "r \<in> set (nodes (without_rows w s))" for r
  proof (rule row_ok_mono [OF tree_okD(4) [OF tree]])
    show "r \<in> set (nodes s)" using r tree by simp
    fix q assume q: "q \<in> set (nodes s)" "n_parent_id r = Some (n_id q)" "n_kind q = DIRECTORY_KIND"
    obtain m where "m \<in> set (nodes s)" "n_id m = n_id q" "n_workspace_id m = n_workspace_id r"
      using row_parentE [OF tree \<open>r \<in> set (nodes s)\<close> q(2)] by metis
    with q(1) have "n_workspace_id q = n_workspace_id r" using row_id_eq [OF tree] by metis
    with q r tree show "\<exists>q' \<in> set (nodes (without_rows w s)). n_id q' = n_id q \<and>
        n_workspace_id q' = n_workspace_id q \<and> n_kind q' = DIRECTORY_KIND" by auto
  qed
  have "distinct (map n_workspace_id (filter (\<lambda>r. n_parent_id r = None) (nodes s)))"
    using tree_okD(3) [OF tree] by (simp add: roots_ok_def)
  then have "distinct (map n_workspace_id (filter (\<lambda>r. n_workspace_id r \<noteq> w)
      (filter (\<lambda>r. n_parent_id r = None) (nodes s))))" by (rule distinct_map_filter)
  then show "distinct (map n_workspace_id
      (filter (\<lambda>r. n_parent_id r = None) (nodes (without_rows w s))))"
    using tree by (simp add: conj_commute)
qed


lemma delete_workspace_rows_eq:
  assumes ok: "wf E s"
  shows "delete_workspace_rows w s = checked ((without_rows w s)\<lparr>
     workspaces := filter (\<lambda>r. w_id r \<noteq> w) (workspaces s),
     trash_rows := filter (\<lambda>t. t_workspace_id t \<noteq> w) (trash_rows (without_rows w s)),
     changes := filter (\<lambda>c. ch_workspace_id c \<noteq> w) (changes s)\<rparr>)"
proof -
  have "drop_nodes (cascade (nodes s) (map n_id (filter (\<lambda>r. n_workspace_id r = w) (nodes s)))) s
      = drop_nodes (map n_id (filter (\<lambda>r. n_workspace_id r = w) (nodes s))) s"
    by (rule drop_nodes_cong) (use cascade_workspace [of s w] ok in auto)
  then show ?thesis
    by (simp add: delete_workspace_rows_def without_rows_def Let_def)
qed

lemma trash_rows_workspace:
  assumes ok: "wf E s" and t: "t \<in> set (trash_rows (without_rows w s))"
  shows "t_workspace_id t \<noteq> w"
proof -
  have "trash_ok (without_rows w s)" "tree_ok s" using without_rows_parts(4) [OF ok] ok by auto
  with t obtain r where "r \<in> set (nodes (without_rows w s))" "n_workspace_id r = t_workspace_id t"
    unfolding trash_ok_def by blast
  with \<open>tree_ok s\<close> show ?thesis by auto
qed

theorem delete_workspace_wf:
  assumes ok: "wf E s"
  obtains t where "delete_workspace w s = (Inr (), t)" "wf E t"
    "nodes t = filter (\<lambda>r. n_workspace_id r \<noteq> w) (nodes s)"
    "workspaces t = filter (\<lambda>r. w_id r \<noteq> w) (workspaces s)"
    "changes t = filter (\<lambda>c. ch_workspace_id c \<noteq> w) (changes s)"
    "generations t = filter (\<lambda>g. g_workspace_id g \<noteq> w) (generations s)"
    "\<And>x. x \<in> set (trash_rows t) \<Longrightarrow> t_workspace_id x \<noteq> w"
proof -
  note parts = without_rows_parts [OF ok, where w = w]
  have tree: "tree_ok s" using ok by blast
  have tr: "filter (\<lambda>t. t_workspace_id t \<noteq> w) (trash_rows (without_rows w s)) = trash_rows (without_rows w s)"
    using trash_rows_workspace [OF ok] by (simp add: filter_id_conv)
  define t where "t = (without_rows w s)\<lparr>workspaces := filter (\<lambda>r. w_id r \<noteq> w) (workspaces s),
     changes := filter (\<lambda>c. ch_workspace_id c \<noteq> w) (changes s)\<rparr>"
  have f [simp]: "nodes t = filter (\<lambda>r. n_workspace_id r \<noteq> w) (nodes s)"
    "generations t = filter (\<lambda>g. g_workspace_id g \<noteq> w) (generations s)"
    "chunks t = chunks (without_rows w s)" "attributes t = attributes (without_rows w s)"
    "trash_rows t = trash_rows (without_rows w s)" "ids_used t = ids_used s"
    "workspaces t = filter (\<lambda>r. w_id r \<noteq> w) (workspaces s)"
    "changes t = filter (\<lambda>c. ch_workspace_id c \<noteq> w) (changes s)"
    using tree by (simp_all add: t_def) (simp_all add: without_rows_def)
  have wr: "nodes (without_rows w s) = nodes t" "generations (without_rows w s) = generations t"
    using tree by simp_all (simp add: without_rows_def)
  have pk: "pk_ok s" and fk: "fk_ok (without_rows w s)" "pk_ok (without_rows w s)" "unique_ok (without_rows w s)"
    and fks: "fk_ok s"
    using ok parts(2) by (auto simp: wf_def schema_ok_def)
  have sch: "schema_ok t"
  proof -
    have "unique_ok t" using fk(3) by (simp only: unique_ok_def wr)
    moreover have "pk_ok t"
      using pk fk(2) by (auto simp: pk_ok_def wr simp del: without_rows_nodes intro: distinct_map_filter)
    moreover have "fk_ok t"
    proof -
      have ws: "v \<in> w_id ` set (workspaces t) \<longleftrightarrow> v \<in> w_id ` set (workspaces s) \<and> v \<noteq> w" for v
        by auto
      show ?thesis
        using fk(1) fks trash_rows_workspace [OF ok]
        unfolding fk_ok_iff ws wr f(3-5) by (auto simp: without_rows_def)
    qed
    ultimately show ?thesis by (simp add: schema_ok_def)
  qed
  have "tree_ok t"
  proof (rule tree_okI [OF sch])
    fix r assume "r \<in> set (nodes t)"
    then have "row_ok (without_rows w s) r" using parts(5) wr by simp
    then show "row_ok t r" by (rule row_ok_mono) (use wr in auto)
  next
    show "roots_ok t"
      using tree_okD(3) [OF tree] parts(6) unfolding wr by (force simp: roots_ok_def)
  qed
  moreover have "content_ok t"
    using parts(3) content_ok_cong [of t "without_rows w s"] wr by simp
  moreover have "trash_ok t"
    using parts(4) trash_ok_cong [of t "without_rows w s"] wr by simp
  moreover have "log_ok t"
  proof -
    have "log_of t v = log_of s v" if "v \<noteq> w" for v
      using that by (auto simp: log_of_def intro!: filter_cong)
    with wfD(3) [OF ok] show ?thesis by (auto simp: log_ok_def)
  qed
  moreover have "ids_ok E t"
    by (rule ids_ok_mono [OF wfD(6) [OF ok]]) (auto simp: without_rows_def)
  ultimately have "wf E t" using sch by (simp add: wf_def)
  moreover have "delete_workspace_rows w s = checked t"
    unfolding delete_workspace_rows_eq [OF ok] tr by (simp add: t_def)
  then have "delete_workspace w s = (Inr (), t)"
    using sch by (simp add: delete_workspace_def conn_call_def checked_def)
  ultimately show thesis using that [of t] trash_rows_workspace [OF ok] by simp
qed


subsection \<open>Resetting\<close>

lemma schema_map_workspaces:
  assumes "schema_ok s" "\<And>r. w_id (f r) = w_id r"
  shows "schema_ok (s\<lparr>workspaces := map f (workspaces s)\<rparr>)"
  using assms unfolding schema_ok_def pk_ok_def unique_ok_def fk_ok_iff
  by (simp add: image_image o_def)

lemma schema_filter_changes: "schema_ok s \<Longrightarrow> schema_ok (s\<lparr>changes := filter P (changes s)\<rparr>)"
  unfolding schema_ok_def pk_ok_def unique_ok_def fk_ok_iff by (auto intro: distinct_map_filter)

theorem reset_workspace_wf:
  assumes E: "ext_ok E" and ok: "wf E s" and w: "w \<in> w_id ` set (workspaces s)"
  obtains t now where "reset_workspace E w s = (Inr (), t)" "wf E t"
    "nodes t = filter (\<lambda>r. n_workspace_id r \<noteq> w) (nodes s) @ [root_row (fresh_id E s) w now]"
    "generations t = filter (\<lambda>g. g_workspace_id g \<noteq> w) (generations s)"
    "changes t = filter (\<lambda>c. ch_workspace_id c \<noteq> w) (changes s)"
    "w_id ` set (workspaces t) = w_id ` set (workspaces s)"
proof -
  note parts = without_rows_parts [OF ok, where w = w]
  have tree: "tree_ok s" using ok by blast
  define i where "i = fresh_id E s"
  define now where "now = clock_ms E (clock_reads s)"
  define zero where "zero = (\<lambda>r :: workspace_row. if w_id r = w then r\<lparr>w_change_seq := 0, w_updated_at_ms := now\<rparr> else r)"
  have zid [simp]: "w_id (zero r) = w_id r" for r by (simp add: zero_def)
  define s1 where "s1 = (without_rows w s)\<lparr>changes := filter (\<lambda>c. ch_workspace_id c \<noteq> w) (changes s)\<rparr>"
  define s2 where "s2 = s1\<lparr>ids_used := Suc (ids_used s), clock_reads := Suc (clock_reads s)\<rparr>"
  define s3 where "s3 = s2\<lparr>nodes := nodes s2 @ [root_row i w now]\<rparr>"
  define t where "t = s3\<lparr>workspaces := map zero (workspaces s)\<rparr>"
  have n2 [simp]: "nodes s2 = nodes (without_rows w s)" "workspaces s2 = workspaces s"
    by (simp_all add: s2_def s1_def) (simp_all add: without_rows_def)
  have sch1: "schema_ok s1"
    unfolding s1_def using schema_filter_changes [OF parts(2)] by (simp add: without_rows_def)
  then have sch2: "schema_ok s2" by (simp add: s2_def)
  have eq2: "content_ok s2" "trash_ok s2"
    using parts(3,4) content_ok_cong [of s2 "without_rows w s"] trash_ok_cong [of s2 "without_rows w s"]
    by (simp_all add: s2_def s1_def)
  have rows2: "row_ok s2 r" if "r \<in> set (nodes s2)" for r
    by (rule row_ok_mono [OF parts(5)]) (use that in auto)
  have roots2: "\<exists>r \<in> set (nodes s2). n_parent_id r = None \<and> n_workspace_id r = v"
    if "v \<in> w_id ` set (workspaces s2)" "v \<noteq> w" for v
    using tree_okD(3) [OF tree] that tree by (force simp: roots_ok_def)
  have inew: "i \<notin> n_id ` set (nodes s2)"
    using fresh_unused(3) [OF E wfD(6) [OF ok]] tree by (auto simp: i_def)
  have now2: "n_workspace_id r \<noteq> w" if "r \<in> set (nodes s2)" for r
    using that tree by simp
  have dist2: "distinct (map n_workspace_id (filter (\<lambda>r. n_parent_id r = None) (nodes s2)))"
    using parts(6) by (simp only: n2)
  note root = add_root [where s = s2 and w = w and i = i and t = s3 and now = now,
      OF sch2 rows2 roots2 dist2 now2 _ inew eq2 s3_def]
  have r3: "schema_ok s3" "tree_ok s3" "content_ok s3" "trash_ok s3"
    by (rule root; use w in simp)+
  have w3: "workspaces s3 = workspaces s" by (simp add: s3_def)
  have sch: "schema_ok t" unfolding t_def using schema_map_workspaces [OF r3(1), of zero] w3 by simp
  have ids: "w_id ` set (workspaces t) = w_id ` set (workspaces s)" by (simp add: t_def image_image)
  have "tree_ok t" using r3(2) ids w3 by (subst tree_ok_cong [where s = s3]) (simp_all add: t_def)
  moreover have "content_ok t" using r3(3) content_ok_cong [of t s3] by (simp add: t_def)
  moreover have "trash_ok t" using r3(4) trash_ok_cong [of t s3] by (simp add: t_def)
  moreover have ch: "changes t = filter (\<lambda>c. ch_workspace_id c \<noteq> w) (changes s)"
    by (simp add: t_def s3_def s2_def s1_def)
  have "log_ok t"
  proof -
    have "log_of t v = (if v = w then [] else log_of s v)" for v
      by (auto simp: log_of_def ch filter_empty_conv intro!: filter_cong)
    moreover have "workspaces t = map zero (workspaces s)" by (simp add: t_def)
    ultimately show ?thesis using wfD(3) [OF ok] by (auto simp: log_ok_def ch zero_def)
  qed
  moreover have "ids_ok E t"
    by (rule ids_ok_mono [OF wfD(6) [OF ok]])
      (auto simp: t_def s3_def s2_def s1_def without_rows_def used_ids_def i_def fresh_id_def)
  ultimately have "wf E t" using sch by (simp add: wf_def)
  moreover have "reset_workspace_tx E w s = Some (True, t)"
  proof -
    let ?ids = "map n_id (filter (\<lambda>r. n_workspace_id r = w) (nodes s))"
    have ex: "list_ex (\<lambda>r. w_id r = w) (workspaces s)" using w by (auto simp: list_ex_iff)
    have "drop_nodes (cascade (nodes s) ?ids) s = drop_nodes ?ids s"
      by (rule drop_nodes_cong) (use cascade_workspace [OF tree, of w] in auto)
    then have d1: "delete_nodes (\<lambda>r. n_workspace_id r = w) s = Some (drop_nodes ?ids s)"
      using parts(1) by (simp add: delete_nodes_def checked_def)
    have d2: "delete_generations (\<lambda>g. g_workspace_id g = w) (drop_nodes ?ids s) = Some (without_rows w s)"
      using parts(2) by (simp add: delete_generations_def checked_def without_rows_def)
    have d3: "delete_changes (\<lambda>c. ch_workspace_id c = w) (without_rows w s) = Some s1"
      using sch1 by (simp add: delete_changes_def checked_def s1_def) (simp add: without_rows_def)
    have cnt: "ids_used s1 = ids_used s" "clock_reads s1 = clock_reads s"
      by (simp_all add: s1_def) (simp_all add: without_rows_def)
    have d4: "insert_node (root_row i w now) s2 = Some s3"
      using r3(1) by (simp add: insert_node_def checked_def s3_def)
    have d5: "update_workspace w (\<lambda>r. r\<lparr>w_change_seq := 0, w_updated_at_ms := now\<rparr>) s3 = Some t"
      using sch w3 by (simp add: update_workspace_def checked_def t_def zero_def)
    show ?thesis
      using d4 d5 cnt
      by (simp add: reset_workspace_tx_def ex d1 d2 d3 new_id_def now_ms_def Let_def s2_def
          i_def now_def fresh_id_def)
  qed
  then have "reset_workspace E w s = (Inr (), t)"
    by (simp add: reset_workspace_def finish_call_Some)
  moreover have "nodes t = filter (\<lambda>r. n_workspace_id r \<noteq> w) (nodes s) @ [root_row (fresh_id E s) w now]"
    using tree by (simp add: t_def s3_def i_def)
  moreover have "generations t = filter (\<lambda>g. g_workspace_id g \<noteq> w) (generations s)"
    by (simp add: t_def s3_def s2_def s1_def) (simp add: without_rows_def)
  ultimately show thesis using that [of t now] ch ids by simp
qed


end
