(* ===== verification/Paging.thy ===== *)
theory Paging
  imports Store
begin

text \<open>
  Keyset pagination. The listing operations of the crate share one shape: the rows are
  ordered by a key, one row more than the limit is fetched after the key of the cursor, and
  the page carries the key of its last row as the next cursor when more rows remain. The
  locale \<open>page_server\<close> is the contract of such an operation towards a client that follows
  the cursors; the client then sees every item once, in order, whatever the page size. Each
  listing operation interprets it.
\<close>

subsection \<open>Rows as the client sees them\<close>

text \<open>The conversion \<open>into_node\<close> of a row of a well-formed store, as a function.\<close>

definition node_of :: "raw_node \<Rightarrow> node" where
  "node_of n =
     \<lparr>nd_workspace_id = n_workspace_id n, nd_id = n_id n, nd_parent_id = n_parent_id n,
      nd_name = n_name n,
      nd_kind = (if n_kind n = 0 then Directory else if n_kind n = 1 then File else Symlink),
      nd_logical_size = as_u64 (n_size n), nd_created_at_ms = n_created_at_ms n,
      nd_modified_at_ms = n_modified_at_ms n, nd_accessed_at_ms = n_accessed_at_ms n,
      nd_revision = Revision (as_u64 (n_revision n)), nd_attributes = []\<rparr>"

text \<open>Revisions that fit their column (2^63 mutations of one node are out of reach).\<close>

definition revisions_fit :: "db \<Rightarrow> bool" where
  "revisions_fit s \<longleftrightarrow> (\<forall>r \<in> set (nodes s). n_revision r < 2 ^ 63)"

lemma into_node_ok:
  assumes E: "ext_ok E" and ok: "wf E s" and fit: "revisions_fit s" and r: "r \<in> set (nodes s)"
  shows "into_node E (map_row r) = Inr (node_of (map_row r))"
proof -
  have ids: "parse_id E (n_id r) = Inr (n_id r)"
    using wfD(6) [OF ok] r by (auto simp: ids_ok_def intro: used_parse [OF E])
  have fk: "n_workspace_id r \<in> w_id ` set (workspaces s)"
    "\<forall>p. n_parent_id r = Some p \<longrightarrow> p \<in> n_id ` set (nodes s)"
    using schema_parts(6) [OF wfD(1) [OF ok]] r unfolding fk_ok_iff by blast+
  then have ws: "parse_id E (n_workspace_id r) = Inr (n_workspace_id r)"
    using wfD(6) [OF ok] by (auto simp: ids_ok_def intro: used_parse [OF E])
  have par: "parse_id E p = Inr p" if "n_parent_id r = Some p" for p
    using that fk(2) wfD(6) [OF ok] by (auto simp: ids_ok_def intro!: used_parse [OF E])
  have kind: "n_kind r \<in> {0, 1, 2}"
    using tree_okD(4) [OF wfD(2) [OF ok] r] by (simp add: row_ok_def kind_defs)
  have "1 \<le> n_revision r" "n_revision r < 2 ^ 63"
    using wfD(4) [OF ok] fit r by (auto simp: content_ok_def row_content_ok_def revisions_fit_def)
  then have "as_u64 (n_revision r) \<noteq> 0"
    using unat_as_u64 [of "n_revision r"] by auto
  with ids ws par kind show ?thesis
    by (auto simp: into_node_def node_of_def rev_new_def split: option.split)
qed

subsection \<open>Pages\<close>

text \<open>One page of the rows that remain.\<close>

definition cut_page :: "('r \<Rightarrow> 'a) \<Rightarrow> ('r \<Rightarrow> string) \<Rightarrow> nat \<Rightarrow> 'r list \<Rightarrow> 'a page" where
  "cut_page view cursor n rows =
     (if length rows > n
      then \<lparr>pg_items = map view (take n rows), pg_next_cursor = Some (cursor (last (take n rows)))\<rparr>
      else \<lparr>pg_items = map view rows, pg_next_cursor = None\<rparr>)"

text \<open>A client that asks for pages until there is no next cursor (fuel: requests allowed).\<close>

fun follow_cursors ::
    "nat \<Rightarrow> (string option \<Rightarrow> 'a page fs_result) \<Rightarrow> string option \<Rightarrow> 'a list fs_result option" where
  "follow_cursors 0 serve c = None"
| "follow_cursors (Suc k) serve c = (case serve c of
     Inl e \<Rightarrow> Some (Inl e)
   | Inr p \<Rightarrow> (case pg_next_cursor p of
       None \<Rightarrow> Some (Inr (pg_items p))
     | Some c' \<Rightarrow> (case follow_cursors k serve (Some c') of
         None \<Rightarrow> None
       | Some (Inl e) \<Rightarrow> Some (Inl e)
       | Some (Inr xs) \<Rightarrow> Some (Inr (pg_items p @ xs)))))"

locale page_server =
  fixes inv :: "'x \<Rightarrow> bool"
    and items :: "'x \<Rightarrow> 'r list"
    and key :: "'r \<Rightarrow> 'k::linorder"
    and cursor :: "'x \<Rightarrow> 'r \<Rightarrow> string"
    and view :: "'x \<Rightarrow> 'r \<Rightarrow> 'a"
    and serve :: "'x \<Rightarrow> nat \<Rightarrow> string option \<Rightarrow> 'a page fs_result"
  assumes ordered: "inv x \<Longrightarrow> sorted_wrt (\<lambda>r q. key r < key q) (items x)"
    and serve_first: "inv x \<Longrightarrow> 0 < n \<Longrightarrow>
      serve x n None = Inr (cut_page (view x) (cursor x) n (items x))"
    and serve_next: "inv x \<Longrightarrow> 0 < n \<Longrightarrow> r \<in> set (items x) \<Longrightarrow>
      serve x n (Some (cursor x r))
        = Inr (cut_page (view x) (cursor x) n (filter (\<lambda>q. key r < key q) (items x)))"
begin

lemma beyond_last:
  assumes "inv x" and items: "items x = xs @ ys" and "xs \<noteq> []"
  shows "filter (\<lambda>q. key (last xs) < key q) (items x) = ys"
proof -
  obtain zs z where xs: "xs = zs @ [z]" using \<open>xs \<noteq> []\<close> by (cases xs rule: rev_cases) auto
  with ordered [OF \<open>inv x\<close>] items
  have "\<forall>q \<in> set ys. key z < key q" "\<forall>q \<in> set zs. key q < key z"
    by (auto simp: sorted_wrt_append)
  then show ?thesis by (auto simp: items xs filter_empty_conv filter_id_conv less_le_not_le)
qed

lemma follow_from:
  assumes "inv x" "0 < n"
  shows "items x = xs @ ys \<Longrightarrow> length ys < k \<Longrightarrow>
    serve x n c = Inr (cut_page (view x) (cursor x) n ys) \<Longrightarrow>
    follow_cursors k (serve x n) c = Some (Inr (map (view x) ys))"
proof (induction k arbitrary: xs ys c)
  case 0
  then show ?case by simp
next
  case (Suc k)
  show ?case
  proof (cases "length ys > n")
    case False
    with Suc.prems(3) show ?thesis by (simp add: cut_page_def)
  next
    case True
    let ?us = "take n ys" and ?vs = "drop n ys"
    have us: "?us \<noteq> []" using True \<open>0 < n\<close> by auto
    have split: "items x = (xs @ ?us) @ ?vs" using Suc.prems(1) by simp
    have "last ?us \<in> set (items x)" using last_in_set [OF us] set_take_subset [of n ys] Suc.prems(1) by auto
    from serve_next [OF assms this]
    have "serve x n (Some (cursor x (last ?us))) = Inr (cut_page (view x) (cursor x) n ?vs)"
      using beyond_last [OF \<open>inv x\<close> split] us by (simp only: last_appendR) simp
    with Suc.IH [OF split] Suc.prems(2) \<open>0 < n\<close> True
    have "follow_cursors k (serve x n) (Some (cursor x (last ?us))) = Some (Inr (map (view x) ?vs))"
      by simp
    moreover have "map (view x) ?us @ map (view x) ?vs = map (view x) ys"
      by (metis append_take_drop_id map_append)
    ultimately show ?thesis using True Suc.prems(3) by (simp add: cut_page_def)
  qed
qed

text \<open>Every item once, in order, in at most one request per item and one more.\<close>

lemma follow_all:
  assumes "inv x" "0 < n"
  shows "follow_cursors (Suc (length (items x))) (serve x n) None = Some (Inr (map (view x) (items x)))"
  by (rule follow_from [OF assms, of "[]"]) (simp_all add: serve_first [OF assms])

end

subsection \<open>Facts for the interpretations\<close>

definition codec_ok :: "'c codec \<Rightarrow> bool" where
  "codec_ok C \<longleftrightarrow> (\<forall>p. dec C (enc C p) = Some p)"

lemma codec_dec [simp]: "codec_ok C \<Longrightarrow> dec C (enc C p) = Some p"
  by (simp add: codec_ok_def)

lemma sorted_wrt_sort_key:
  assumes "distinct (map f xs)"
  shows "sorted_wrt (\<lambda>r q. f r < f q) (sort_key f xs)"
proof -
  have "sorted (map f (sort_key f xs))" by simp
  moreover have "distinct (map f (sort_key f xs))"
    using assms by (simp add: distinct_map)
  ultimately have "sorted_wrt (<) (map f (sort_key f xs))"
    by (simp add: strict_sorted_iff)
  then show ?thesis by (simp add: sorted_wrt_map)
qed

lemma less_pair:
  fixes a c :: "'a::linorder" and b d :: "'b::linorder"
  shows "(a, b) < (c, d) \<longleftrightarrow> a < c \<or> c = a \<and> b < d"
  by (auto simp: less_prod_def)

lemma Nil_less_list: "(xs :: string) \<noteq> [] \<Longrightarrow> [] < xs"
  by (cases xs) simp_all

text \<open>Fetching with one row of look-ahead, as the code does, is \<open>cut_page\<close>.\<close>

lemma look_ahead:
  assumes "0 < n"
  shows "(let fetched = take (n + 1) rows; has_more = length fetched > n;
              page = (if has_more then take n fetched else fetched);
              next = (if has_more then Some (cursor (last page)) else None)
          in \<lparr>pg_items = map view page, pg_next_cursor = next\<rparr>) = cut_page view cursor n rows"
  using assms by (auto simp: Let_def cut_page_def min_def)

end
