(* ===== verification/Effects.thy ===== *)
theory Effects
  imports Store
begin

text \<open>
  What the row-level changes of the mutations do to the invariant and to the name space of
  a workspace: a new child adds one path, an UPDATE that keeps its place changes no path,
  hiding or deleting a subtree removes exactly the paths through its top, and re-hanging a
  row moves or restores them. Each lemma applies the contract \<open>name_space\<close> once.
\<close>

lemma option_eqI: "(\<And>c. x = Some c \<longleftrightarrow> y = Some c) \<Longrightarrow> x = y"
  by (metis option.exhaust)

lemma fetch_by_id_iff:
  "tree_ok s \<Longrightarrow> fetch_by_id s w i = Some n \<longleftrightarrow> (\<exists>r. visible s w r \<and> n_id r = i \<and> n = map_row r)"
  using fetch_by_id_SomeD fetch_by_id_eq by blast

lemma fetch_child_iff:
  "tree_ok s \<Longrightarrow> fetch_child s w p x = Some n \<longleftrightarrow>
    (\<exists>r. visible s w r \<and> n_parent_id r = Some p \<and> n_name r = x \<and> n = map_row r)"
  using fetch_child_SomeD fetch_child_eq [OF tree_okD(2)] by blast

lemma fetch_root_iff:
  assumes "tree_ok s"
  shows "fetch_root s w = Some n \<longleftrightarrow> (\<exists>r. visible s w r \<and> n_parent_id r = None \<and> n = map_row r)"
  using fetch_root_SomeD fetch_root_eq [OF assms] unfolding visible_def by blast

lemma root_id_iff:
  assumes "tree_ok s"
  shows "root_id w s = Some i \<longleftrightarrow> (\<exists>r. visible s w r \<and> n_parent_id r = None \<and> n_id r = i)"
proof
  assume "root_id w s = Some i"
  then obtain n where "fetch_root s w = Some n" "n_id n = i" by (auto simp: root_id_def)
  then show "\<exists>r. visible s w r \<and> n_parent_id r = None \<and> n_id r = i"
    using fetch_root_iff [OF assms] by fastforce
next
  assume "\<exists>r. visible s w r \<and> n_parent_id r = None \<and> n_id r = i"
  then obtain r where "visible s w r" "n_parent_id r = None" "n_id r = i" by blast
  moreover from this have "fetch_root s w = Some (map_row r)" using fetch_root_iff [OF assms] by blast
  ultimately show "root_id w s = Some i" by (simp add: root_id_def)
qed

lemma child_id_iff:
  assumes "tree_ok s"
  shows "child_id w s a x = Some c \<longleftrightarrow>
    (\<exists>q r. visible s w q \<and> n_id q = a \<and> n_kind q = DIRECTORY_KIND \<and>
           visible s w r \<and> n_id r = c \<and> n_parent_id r = Some a \<and> n_name r = x)"
proof
  assume "child_id w s a x = Some c"
  then show "\<exists>q r. visible s w q \<and> n_id q = a \<and> n_kind q = DIRECTORY_KIND \<and>
           visible s w r \<and> n_id r = c \<and> n_parent_id r = Some a \<and> n_name r = x"
    by (elim child_id_SomeE) blast
next
  assume "\<exists>q r. visible s w q \<and> n_id q = a \<and> n_kind q = DIRECTORY_KIND \<and>
           visible s w r \<and> n_id r = c \<and> n_parent_id r = Some a \<and> n_name r = x"
  then obtain q r where q: "visible s w q" "n_id q = a" "n_kind q = DIRECTORY_KIND"
    and r: "visible s w r" "n_id r = c" "n_parent_id r = Some a" "n_name r = x" by blast
  from fetch_by_id_eq [OF assms q(1)] fetch_child_eq [OF tree_okD(2) [OF assms] r(1,3)] q r
  show "child_id w s a x = Some c"
    by (simp add: child_id_def enter_def)
qed

lemma path_id_visible:
  "tree_ok s \<Longrightarrow> path_id s w segs = Some i \<Longrightarrow> \<exists>r. visible s w r \<and> n_id r = i"
  by (auto simp: path_id_lookup dest!: lookup_visible)

lemma visible_stored_eq: "tree_ok s \<Longrightarrow> visible s w r \<Longrightarrow> visible s w q \<Longrightarrow> n_id r = n_id q \<Longrightarrow> r = q"
  by (auto simp: visible_def intro: row_id_eq)

lemma visible_workspace:
  assumes "wf E s" "visible s w q"
  shows "w \<in> w_id ` set (workspaces s)"
proof -
  have "\<forall>r \<in> set (nodes s). n_workspace_id r \<in> w_id ` set (workspaces s)"
    using assms(1) schema_parts(6) unfolding fk_ok_iff by blast
  with assms(2) show ?thesis by (auto simp: visible_def)
qed

subsection \<open>A new child\<close>

lemma add_child_wf:
  assumes ok: "wf E s" and new: "n_id r \<notin> n_id ` set (nodes s)" "n_id r \<in> used_ids E s"
    and q: "visible s w q" "n_parent_id r = Some (n_id q)" "n_kind q = DIRECTORY_KIND"
    and r: "n_workspace_id r = w" "active r" "valid_seg (n_name r)"
      "n_kind r \<in> {DIRECTORY_KIND, FILE_KIND, SYMLINK_KIND}"
    and free: "fetch_child s w (n_id q) (n_name r) = None"
    and cont: "row_content_ok s r"
    and unref: "\<And>g p. n_content_generation_id r = Some g \<Longrightarrow> p \<in> set (nodes s) \<Longrightarrow>
      n_content_generation_id p \<noteq> Some g"
  shows "insert_node r s = Some (s\<lparr>nodes := nodes s @ [r]\<rparr>)" "wf E (s\<lparr>nodes := nodes s @ [r]\<rparr>)"
proof -
  let ?t = "s\<lparr>nodes := nodes s @ [r]\<rparr>"
  have fk: "fk_ok s" using ok schema_parts(6) by blast
  have qs: "q \<in> set (nodes s)" "n_workspace_id q = w" using q(1) by (simp_all add: visible_def)
  have sch: "schema_ok ?t"
  proof (rule schema_add_node)
    show "schema_ok s" using ok by blast
    show "n_id r \<notin> n_id ` set (nodes s)" by fact
    show "n_workspace_id r \<in> w_id ` set (workspaces s)"
    proof -
      have "\<forall>r \<in> set (nodes s). n_workspace_id r \<in> w_id ` set (workspaces s)"
        using fk unfolding fk_ok_iff by blast
      with qs r(1) show ?thesis by auto
    qed
    show "ref_in (n_parent_id r) (map n_id (nodes s))" using q(2) qs by simp
    show "ref_in (n_content_generation_id r) (map g_id (generations s))"
      using cont by (auto simp: row_content_ok_def generation_ok_def ref_in_def
          split: if_splits option.splits)
    show "name_free s (n_workspace_id r) p (n_name r)" if "n_parent_id r = Some p" for p
      using that q(2) free r(1) by (simp add: name_free_fetch)
  qed
  then show "insert_node r s = Some ?t" by (simp add: insert_node_def checked_def)
  have "tree_ok ?t"
    by (rule tree_add_node [OF _ refl sch qs(1)]) (use ok q qs r in auto)
  moreover have "content_ok ?t"
    by (rule content_add_node) (use ok cont unref in auto)
  moreover have "trash_ok ?t"
    by (rule trash_add_node) (use ok r in auto)
  moreover have "log_ok ?t" using ok log_ok_cong [of ?t s] by auto
  moreover have "ids_ok E ?t"
    by (rule ids_ok_mono [OF wfD(6) [OF ok]]) (use new(2) in \<open>auto simp: used_ids_def\<close>)
  ultimately show "wf E ?t" using sch by (simp add: wf_def)
qed

text \<open>A row just added has no children yet.\<close>

lemma new_row_no_child:
  assumes ok: "tree_ok s" and t: "nodes t = nodes s @ [r]" and new: "n_id r \<notin> n_id ` set (nodes s)"
    and r: "n_parent_id r = Some p" "p \<in> n_id ` set (nodes s)"
  shows "q \<in> set (nodes t) \<Longrightarrow> n_parent_id q \<noteq> Some (n_id r)"
proof
  assume q: "q \<in> set (nodes t)" "n_parent_id q = Some (n_id r)"
  show False
  proof (cases "q = r")
    case True
    with q(2) r new show False by auto
  next
    case False
    with q(1) t have "q \<in> set (nodes s)" by simp
    from row_parentE [OF ok this q(2)] obtain m where "m \<in> set (nodes s)" "n_id m = n_id r" by metis
    with new show False by (metis imageI)
  qed
qed

lemma add_child_lookup:
  assumes ok: "tree_ok s" and ok': "tree_ok t" and t: "nodes t = nodes s @ [r]"
    and new: "n_id r \<notin> n_id ` set (nodes s)"
    and r: "n_workspace_id r = w" "active r" "n_parent_id r = Some p"
    and pp: "lookup_segs s w pp = Some d" "n_id d = p" "n_kind d = DIRECTORY_KIND"
    and free: "fetch_child s w p (n_name r) = None"
  shows "lookup_segs t w segs
    = (if segs = pp @ [n_name r] then Some (map_row r) else lookup_segs s w segs)"
proof -
  have vis: "visible t w r' \<longleftrightarrow> visible s w r' \<or> r' = r" for r'
    using r t by (auto simp: visible_def)
  have vnew: "visible s w q \<Longrightarrow> n_id q \<noteq> n_id r" for q
    using new unfolding visible_def by (metis imageI)
  have "p \<in> n_id ` set (nodes s)" using lookup_visible [OF pp(1)] pp(2) by (auto simp: visible_def)
  from new_row_no_child [OF ok t new r(3) this]
  have noch: "\<And>q. visible t w q \<Longrightarrow> n_parent_id q \<noteq> Some (n_id r)"
    by (simp add: visible_def)
  have root: "root_id w t = root_id w s"
    by (rule option_eqI) (use vis r in \<open>auto simp: root_id_iff [OF ok] root_id_iff [OF ok']\<close>)
  obtain q where q: "visible s w q" "n_id q = p" "n_kind q = DIRECTORY_KIND"
    using lookup_visible [OF pp(1)] pp by auto
  have ch: "child_id w t a x = (if a = p \<and> x = n_name r then Some (n_id r) else child_id w s a x)"
    if "a \<noteq> n_id r" for a x
  proof (rule option_eqI)
    fix c
    have "child_id w s p (n_name r) = None"
      using free child_id_stored [OF ok lookup_stored [OF pp(1)], of "n_name r"] pp
      by (simp add: enter_def)
    then have no: "\<not> (visible s w q \<and> n_parent_id q = Some p \<and> n_name q = n_name r)" for q
      using fetch_child_eq [OF tree_okD(2) [OF ok], of w q p] free by auto
    show "child_id w t a x = Some c \<longleftrightarrow>
      (if a = p \<and> x = n_name r then Some (n_id r) else child_id w s a x) = Some c"
      using vis q r(3) that no vnew
      by (auto simp: child_id_iff [OF ok] child_id_iff [OF ok'])
  qed
  have "path_id t w segs = (if segs = pp @ [n_name r] then Some (n_id r) else path_id s w segs)"
    unfolding path_id_def
  proof (rule ws.place_grow [OF ok root])
    show "place (root_id w s) (child_id w s) pp = Some p"
      using path_id_lookup [OF ok, of w pp] pp by (simp add: path_id_def)
    show "child_id w s p (n_name r) = None"
      using free child_id_stored [OF ok lookup_stored [OF pp(1)], of "n_name r"] pp
      by (simp add: enter_def)
    show "child_id w t a x = (if a = p \<and> x = n_name r then Some (n_id r) else child_id w s a x)"
      if "a \<noteq> n_id r" for a x using ch that .
    show "child_id w t (n_id r) x = None" for x
      using noch by (cases "child_id w t (n_id r) x") (auto elim: child_id_SomeE)
    show "root_id w s \<noteq> Some (n_id r)" using vnew by (auto simp: root_id_iff [OF ok])
    show "child_id w s a x \<noteq> Some (n_id r)" for a x using vnew by (auto simp: child_id_iff [OF ok])
  qed
  moreover have "fetch_by_id t w i = (if i = n_id r then Some (map_row r) else fetch_by_id s w i)" for i
    by (rule option_eqI) (use vis vnew in \<open>auto simp: fetch_by_id_iff [OF ok] fetch_by_id_iff [OF ok']\<close>)
  moreover have "path_id s w segs \<noteq> Some (n_id r)" for segs
    using vnew path_id_visible [OF ok] by blast
  ultimately show ?thesis
    by (auto simp: lookup_path_id [OF ok] lookup_path_id [OF ok'] split: bind_split)
qed

end
