(* ===== verification/Directory.thy ===== *)
theory Directory
  imports Paging Effects
begin

text \<open>
  \<open>fslite-sqlite/src/directory.rs\<close>: \<open>stat\<close>, \<open>exists\<close>, \<open>mkdir\<close>, and the paginated
  \<open>read_dir\<close> and \<open>tree\<close>. The recursive query of \<open>tree\<close> is evaluated level by level, as the
  UNION ALL of its levels; with no depth limit one level per row (and one more) is allowed,
  which is enough on an acyclic table, and on a cyclic one the query does not end (\<open>None\<close>).
\<close>

subsection \<open>stat and exists\<close>

definition stat_op :: "ext \<Rightarrow> uuid \<Rightarrow> virtual_path \<Rightarrow> bool \<Rightarrow> db \<Rightarrow> node fs_result" where
  "stat_op E w path follow_symlinks s =
     (case resolve_following s w path follow_symlinks of
        RFound row \<Rightarrow> into_node E row
      | RNotFound \<Rightarrow> Inl (not_found (as_str path))
      | RBrokenLink \<Rightarrow> Inl (broken_link (as_str path))
      | RLinkLoop \<Rightarrow> Inl (link_loop (as_str path)))"

definition exists_op :: "ext \<Rightarrow> uuid \<Rightarrow> virtual_path \<Rightarrow> bool \<Rightarrow> db \<Rightarrow> bool fs_result" where
  "exists_op E w path follow_symlinks s =
     (case stat_op E w path follow_symlinks s of
        Inr _ \<Rightarrow> Inr True
      | Inl err \<Rightarrow> if err_code err = NotFound then Inr False else Inl err)"

subsection \<open>mkdir\<close>

datatype mkdir_outcome =
    MkdirCreated raw_node
  | MkdirExisting raw_node
  | MkdirAlreadyExists
  | MkdirWrongNodeType
  | MkdirParentNotFound
  | MkdirRevisionConflict

definition mkdir_result :: "ext \<Rightarrow> virtual_path \<Rightarrow> mkdir_outcome \<Rightarrow> node fs_result" where
  "mkdir_result E path outcome = (case outcome of
     MkdirCreated row \<Rightarrow> into_node E row
   | MkdirExisting row \<Rightarrow> into_node E row
   | MkdirAlreadyExists \<Rightarrow> Inl (already_exists (as_str path))
   | MkdirWrongNodeType \<Rightarrow> Inl (wrong_node_type (as_str path))
   | MkdirParentNotFound \<Rightarrow> Inl (not_found (as_str path))
   | MkdirRevisionConflict \<Rightarrow> Inl (revision_conflict (as_str path)))"

text \<open>\<open>expect\<close> on a result: the panic is \<open>None\<close>.\<close>

definition expect_ok :: "'a fs_result \<Rightarrow> 'a option" where
  "expect_ok r = (case r of Inl _ \<Rightarrow> None | Inr x \<Rightarrow> Some x)"

definition dir_row :: "uuid \<Rightarrow> uuid \<Rightarrow> uuid \<Rightarrow> string \<Rightarrow> int \<Rightarrow> node_row" where
  "dir_row i w parent_id name now =
     \<lparr>n_id = i, n_workspace_id = w, n_parent_id = Some parent_id, n_name = name,
      n_kind = DIRECTORY_KIND, n_size = 0, n_revision = 1, n_created_at_ms = now,
      n_modified_at_ms = now, n_accessed_at_ms = now, n_content_generation_id = None,
      n_symlink_target = None, n_trashed_at_ms = None\<rparr>"

definition create_directory ::
    "ext \<Rightarrow> uuid \<Rightarrow> uuid \<Rightarrow> string \<Rightarrow> virtual_path \<Rightarrow> string \<Rightarrow> db \<Rightarrow> (raw_node \<times> db) option" where
  "create_directory E w parent_id name full_path actor_json s =
     (let (node_id, s) = new_id E s;
          (now, s) = now_ms E s
      in do {
        s \<leftarrow> insert_node (dir_row node_id w parent_id name now) s;
        s \<leftarrow> append_change w Created (Some node_id) None (Some (as_str full_path)) (Some 1)
               actor_json now s;
        Some (map_row (dir_row node_id w parent_id name now), s) })"

text \<open>
  The loop over the ancestors: an early return (left), or the directory reached and its path.
\<close>

fun mkdir_ancestors ::
    "ext \<Rightarrow> uuid \<Rightarrow> create_options \<Rightarrow> string \<Rightarrow> raw_node \<Rightarrow> virtual_path \<Rightarrow> string list \<Rightarrow> db \<Rightarrow>
     ((mkdir_outcome + raw_node \<times> virtual_path) \<times> db) option" where
  "mkdir_ancestors E w options actor_json current current_path [] s =
     Some (Inr (current, current_path), s)"
| "mkdir_ancestors E w options actor_json current current_path (segment # rest) s =
     (if n_kind current \<noteq> DIRECTORY_KIND then Some (Inl MkdirWrongNodeType, s)
      else (case fetch_child s w (n_id current) segment of
        Some child \<Rightarrow> do {
          path \<leftarrow> expect_ok (vp_join current_path segment);
          mkdir_ancestors E w options actor_json child path rest s }
      | None \<Rightarrow>
          if \<not> co_parents options then Some (Inl MkdirParentNotFound, s)
          else do {
            path \<leftarrow> expect_ok (vp_join current_path segment);
            (child, s) \<leftarrow> create_directory E w (n_id current) segment path actor_json s;
            mkdir_ancestors E w options actor_json child path rest s }))"

definition mkdir_leaf ::
    "ext \<Rightarrow> uuid \<Rightarrow> create_options \<Rightarrow> string \<Rightarrow> raw_node \<Rightarrow> virtual_path \<Rightarrow> string \<Rightarrow> db \<Rightarrow>
     (mkdir_outcome \<times> db) option" where
  "mkdir_leaf E w options actor_json current current_path leaf_name s =
     (if n_kind current \<noteq> DIRECTORY_KIND then Some (MkdirWrongNodeType, s)
      else (case fetch_child s w (n_id current) leaf_name of
        Some existing \<Rightarrow>
          Some (if n_kind existing \<noteq> DIRECTORY_KIND then MkdirWrongNodeType
                else if \<not> co_exist_ok options then MkdirAlreadyExists
                else (case co_expected_revision options of
                  Some expected \<Rightarrow>
                    if n_revision existing \<noteq> as_i64 (rev_get expected)
                    then MkdirRevisionConflict else MkdirExisting existing
                | None \<Rightarrow> MkdirExisting existing), s)
      | None \<Rightarrow> do {
          leaf_path \<leftarrow> expect_ok (vp_join current_path leaf_name);
          (created, s) \<leftarrow> create_directory E w (n_id current) leaf_name leaf_path actor_json s;
          Some (MkdirCreated created, s) }))"

definition mkdir_tx ::
    "ext \<Rightarrow> uuid \<Rightarrow> string list \<Rightarrow> create_options \<Rightarrow> string \<Rightarrow> db \<Rightarrow> (mkdir_outcome \<times> db) option" where
  "mkdir_tx E w segments options actor_json s =
     (case fetch_root s w of
        None \<Rightarrow> Some (MkdirParentNotFound, s)
      | Some root \<Rightarrow>
          if segments = [] then None
          else do {
            (reached, s) \<leftarrow> mkdir_ancestors E w options actor_json root vp_root (butlast segments) s;
            (case reached of
               Inl outcome \<Rightarrow> Some (outcome, s)
             | Inr (current, current_path) \<Rightarrow>
                 mkdir_leaf E w options actor_json current current_path (last segments) s) })"

definition mkdir ::
    "ext \<Rightarrow> uuid \<Rightarrow> virtual_path \<Rightarrow> create_options \<Rightarrow> string \<Rightarrow> db \<Rightarrow> node fs_result \<times> db" where
  "mkdir E w path options actor_json s =
     (case vp_name path of
        None \<Rightarrow> (Inl (already_exists (as_str path)), s)
      | Some _ \<Rightarrow>
          finish_call (mkdir_result E path)
            (conn_call (mkdir_tx E w (vp_segments path) options actor_json) s))"

subsection \<open>read_dir\<close>

record dir_cursor =
  dc_v :: nat
  dc_workspace_id :: uuid
  dc_parent_id :: uuid
  dc_last_name :: string
  dc_last_id :: uuid

definition encode_dir_cursor :: "dir_cursor codec \<Rightarrow> uuid \<Rightarrow> uuid \<Rightarrow> string \<Rightarrow> uuid \<Rightarrow> string" where
  "encode_dir_cursor C w parent_id last_name last_id =
     enc C \<lparr>dc_v = 1, dc_workspace_id = w, dc_parent_id = parent_id,
            dc_last_name = last_name, dc_last_id = last_id\<rparr>"

definition decode_dir_cursor :: "dir_cursor codec \<Rightarrow> string \<Rightarrow> uuid \<Rightarrow> dir_cursor fs_result" where
  "decode_dir_cursor C raw w = (case dec C raw of
     None \<Rightarrow> Inl (invalid_cursor raw)
   | Some payload \<Rightarrow>
       if dc_v payload \<noteq> 1 \<or> dc_workspace_id payload \<noteq> w then Inl (invalid_cursor raw)
       else Inr payload)"

definition fetch_children_page ::
    "db \<Rightarrow> uuid \<Rightarrow> uuid \<Rightarrow> string \<Rightarrow> uuid \<Rightarrow> nat \<Rightarrow> raw_node list" where
  "fetch_children_page s w parent_id after_name after_id limit =
     map map_row (take limit (sort_key (\<lambda>r. (n_name r, n_id r))
       (filter (\<lambda>r. n_workspace_id r = w \<and> n_parent_id r = Some parent_id \<and> active r \<and>
                    (n_name r > after_name \<or> n_name r = after_name \<and> n_id r > after_id))
          (nodes s))))"

definition read_dir ::
    "ext \<Rightarrow> dir_cursor codec \<Rightarrow> uuid \<Rightarrow> virtual_path \<Rightarrow> page_request \<Rightarrow> db \<Rightarrow> node page fs_result" where
  "read_dir E C w path page s =
     res_bind (case pr_cursor page of
                 Some raw \<Rightarrow> res_bind (decode_dir_cursor C raw w) (\<lambda>c. Inr (Some c))
               | None \<Rightarrow> Inr None) (\<lambda>after.
     let (after_name, after_id) =
           (case after of Some c \<Rightarrow> (dc_last_name c, dc_last_id c) | None \<Rightarrow> ('''', ''''));
         limit = max (pr_limit page) 1
     in (case resolve s w path of
           None \<Rightarrow> Inl (not_found (as_str path))
         | Some parent \<Rightarrow>
             if n_kind parent \<noteq> DIRECTORY_KIND then Inl (wrong_node_type (as_str path))
             else if (case after of Some c \<Rightarrow> dc_parent_id c \<noteq> n_id parent | None \<Rightarrow> False)
             then Inl (invalid_cursor (as_str path))
             else
               let fetched = fetch_children_page s w (n_id parent) after_name after_id (limit + 1);
                   has_more = length fetched > limit;
                   rows = (if has_more then take limit fetched else fetched);
                   next = (if has_more
                           then Some (encode_dir_cursor C w (n_id parent)
                                        (n_name (last rows)) (n_id (last rows)))
                           else None)
               in res_bind (collect_results (map (into_node E) rows)) (\<lambda>ns.
                  Inr \<lparr>pg_items = ns, pg_next_cursor = next\<rparr>)))"

subsection \<open>tree\<close>

record tree_cursor =
  tc_v :: nat
  tc_workspace_id :: uuid
  tc_root_id :: uuid
  tc_last_depth :: int
  tc_last_name :: string
  tc_last_id :: uuid

definition encode_tree_cursor ::
    "tree_cursor codec \<Rightarrow> uuid \<Rightarrow> uuid \<Rightarrow> int \<Rightarrow> string \<Rightarrow> uuid \<Rightarrow> string" where
  "encode_tree_cursor C w top_id last_depth last_name last_id =
     enc C \<lparr>tc_v = 1, tc_workspace_id = w, tc_root_id = top_id, tc_last_depth = last_depth,
            tc_last_name = last_name, tc_last_id = last_id\<rparr>"

definition decode_tree_cursor :: "tree_cursor codec \<Rightarrow> string \<Rightarrow> uuid \<Rightarrow> tree_cursor fs_result" where
  "decode_tree_cursor C raw w = (case dec C raw of
     None \<Rightarrow> Inl (invalid_cursor raw)
   | Some payload \<Rightarrow>
       if tc_v payload \<noteq> 1 \<or> tc_workspace_id payload \<noteq> w then Inl (invalid_cursor raw)
       else Inr payload)"

record tree_row =
  tw_relative_path :: string
  tw_depth :: int
  tw_node :: raw_node

definition into_entry :: "ext \<Rightarrow> virtual_path \<Rightarrow> tree_row \<Rightarrow> tree_entry fs_result" where
  "into_entry E base_path r =
     res_bind (vp_join base_path (tw_relative_path r)) (\<lambda>path.
     res_bind (into_node E (tw_node r)) (\<lambda>n.
     Inr \<lparr>te_path = path, te_depth = nat (tw_depth r), te_node = n\<rparr>))"

text \<open>The initial select and one step of the recursive select.\<close>

definition level_one :: "db \<Rightarrow> uuid \<Rightarrow> uuid \<Rightarrow> tree_row list" where
  "level_one s w top_id =
     map (\<lambda>r. \<lparr>tw_relative_path = n_name r, tw_depth = 1, tw_node = map_row r\<rparr>)
       (filter (\<lambda>r. n_workspace_id r = w \<and> n_parent_id r = Some top_id \<and> active r) (nodes s))"

definition level_next :: "db \<Rightarrow> nat option \<Rightarrow> tree_row list \<Rightarrow> tree_row list" where
  "level_next s max_depth ds =
     concat (map (\<lambda>d.
       if (case max_depth of None \<Rightarrow> True | Some m \<Rightarrow> tw_depth d < int m)
       then map (\<lambda>r. \<lparr>tw_relative_path = tw_relative_path d @ slash # n_name r,
                      tw_depth = tw_depth d + 1, tw_node = map_row r\<rparr>)
              (filter (\<lambda>r. n_parent_id r = Some (n_id (tw_node d)) \<and> active r) (nodes s))
       else []) ds)"

fun levels :: "db \<Rightarrow> nat option \<Rightarrow> nat \<Rightarrow> tree_row list \<Rightarrow> tree_row list option" where
  "levels s max_depth fuel [] = Some []"
| "levels s max_depth 0 (d # ds) = None"
| "levels s max_depth (Suc fuel) (d # ds) =
     map_option (\<lambda>rest. (d # ds) @ rest)
       (levels s max_depth fuel (level_next s max_depth (d # ds)))"

definition descendants :: "db \<Rightarrow> uuid \<Rightarrow> uuid \<Rightarrow> nat option \<Rightarrow> tree_row list option" where
  "descendants s w top_id max_depth =
     levels s max_depth
       (case max_depth of None \<Rightarrow> Suc (length (nodes s)) | Some m \<Rightarrow> m + 2)
       (level_one s w top_id)"

definition tree_key :: "tree_row \<Rightarrow> int \<times> string \<times> uuid" where
  "tree_key r = (tw_depth r, n_name (tw_node r), n_id (tw_node r))"

definition fetch_tree_page ::
    "db \<Rightarrow> uuid \<Rightarrow> uuid \<Rightarrow> nat option \<Rightarrow> int \<times> string \<times> uuid \<Rightarrow> nat \<Rightarrow> tree_row list option" where
  "fetch_tree_page s w top_id max_depth after limit =
     (case descendants s w top_id max_depth of
        None \<Rightarrow> None
      | Some rows \<Rightarrow>
          (case after of (after_depth, after_name, after_id) \<Rightarrow>
            Some (take limit (sort_key tree_key
              (filter (\<lambda>r. tw_depth r > after_depth
                   \<or> tw_depth r = after_depth \<and> n_name (tw_node r) > after_name
                   \<or> tw_depth r = after_depth \<and> n_name (tw_node r) = after_name
                       \<and> n_id (tw_node r) > after_id) rows)))))"

text \<open>\<open>None\<close>: the recursive query does not end.\<close>

definition tree_op ::
    "ext \<Rightarrow> tree_cursor codec \<Rightarrow> uuid \<Rightarrow> virtual_path \<Rightarrow> tree_options \<Rightarrow> page_request \<Rightarrow> db \<Rightarrow>
     tree_entry page fs_result option" where
  "tree_op E C w path options page s =
     (case (case pr_cursor page of
              Some raw \<Rightarrow> res_bind (decode_tree_cursor C raw w) (\<lambda>c. Inr (Some c))
            | None \<Rightarrow> Inr None) of
        Inl e \<Rightarrow> Some (Inl e)
      | Inr after \<Rightarrow>
          let pos = (case after of Some c \<Rightarrow> (tc_last_depth c, tc_last_name c, tc_last_id c)
                                 | None \<Rightarrow> (0, '''', ''''));
              limit = max (pr_limit page) 1
          in (case resolve s w path of
                None \<Rightarrow> Some (Inl (not_found (as_str path)))
              | Some root \<Rightarrow>
                  if n_kind root \<noteq> DIRECTORY_KIND then Some (Inl (wrong_node_type (as_str path)))
                  else if (case after of Some c \<Rightarrow> tc_root_id c \<noteq> n_id root | None \<Rightarrow> False)
                  then Some (Inl (invalid_cursor (as_str path)))
                  else (case fetch_tree_page s w (n_id root) (to_max_depth options) pos (limit + 1) of
                    None \<Rightarrow> None
                  | Some fetched \<Rightarrow>
                      let has_more = length fetched > limit;
                          rows = (if has_more then take limit fetched else fetched);
                          next = (if has_more
                            then Some (encode_tree_cursor C w (n_id root) (tw_depth (last rows))
                                   (n_name (tw_node (last rows))) (n_id (tw_node (last rows))))
                            else None)
                      in Some (res_bind (collect_results (map (into_entry E path) rows)) (\<lambda>es.
                           Inr \<lparr>pg_items = es, pg_next_cursor = next\<rparr>)))))"

subsection \<open>mkdir: one directory\<close>

lemma dir_row_fields [simp]:
  "n_id (dir_row i w p x now) = i" "n_workspace_id (dir_row i w p x now) = w"
  "n_parent_id (dir_row i w p x now) = Some p" "n_name (dir_row i w p x now) = x"
  "n_kind (dir_row i w p x now) = DIRECTORY_KIND" "active (dir_row i w p x now)"
  "n_content_generation_id (dir_row i w p x now) = None"
  by (simp_all add: dir_row_def active_def)

text \<open>The tables a directory operation leaves alone.\<close>

definition contents_kept :: "db \<Rightarrow> db \<Rightarrow> bool" where
  "contents_kept t s \<longleftrightarrow>
     generations t = generations s \<and> chunks t = chunks s \<and> attributes t = attributes s \<and>
     trash_rows t = trash_rows s \<and> w_id ` set (workspaces t) = w_id ` set (workspaces s)"

lemma contents_kept_refl [simp]: "contents_kept s s"
  by (simp add: contents_kept_def)

lemma contents_kept_trans: "contents_kept u t \<Longrightarrow> contents_kept t s \<Longrightarrow> contents_kept u s"
  by (simp add: contents_kept_def)

lemma create_directory_ok:
  assumes E: "ext_ok E" and ok: "wf E s" and q: "visible s w q" "n_kind q = DIRECTORY_KIND"
    and x: "valid_seg x" and free: "fetch_child s w (n_id q) x = None" and p: "canonical path"
  obtains now sq t where
    "create_directory E w (n_id q) x path aj s
       = Some (map_row (dir_row (fresh_id E s) w (n_id q) x now), t)"
    "wf E t" "nodes t = nodes s @ [dir_row (fresh_id E s) w (n_id q) x now]" "contents_kept t s"
    "changes t = changes s @ [change_rec w sq Created (Some (fresh_id E s)) None
       (Some (as_str path)) (Some 1) aj now]"
proof -
  define now where "now = clock_ms E (clock_reads s)"
  define r where "r = dir_row (fresh_id E s) w (n_id q) x now"
  define s1 where "s1 = s\<lparr>ids_used := Suc (ids_used s), clock_reads := Suc (clock_reads s)\<rparr>"
  have w1: "wf E s1" unfolding s1_def using wf_new_id [OF ok] by simp
  have s1 [simp]: "nodes s1 = nodes s" "workspaces s1 = workspaces s" "changes s1 = changes s"
    by (simp_all add: s1_def)
  have used: "fresh_id E s \<in> used_ids E s1"
    by (simp add: s1_def used_ids_def fresh_id_def)
  have q1: "visible s1 w q" using q(1) by (simp add: visible_def)
  have cont: "row_content_ok s1 r" by (simp add: row_content_ok_def r_def dir_row_def kind_defs)
  have ins: "insert_node r s1 = Some (s1\<lparr>nodes := nodes s1 @ [r]\<rparr>)"
    "wf E (s1\<lparr>nodes := nodes s1 @ [r]\<rparr>)"
    by (rule add_child_wf [OF w1 _ _ q1 _ q(2)];
        use fresh_unused(3) [OF E wfD(6) [OF ok]] used x free cont in
          \<open>simp add: r_def fetch_cong(2) [OF s1(1)]\<close>)+
  let ?s2 = "s1\<lparr>nodes := nodes s1 @ [r]\<rparr>"
  have w: "w \<in> w_id ` set (workspaces ?s2)" using visible_workspace [OF ok q(1)] by simp
  have used2: "i \<in> used_ids E ?s2" if "Some (fresh_id E s) = Some i" for i
    using used that by (simp add: used_ids_def)
  have cok: "change_ok (change_rec w sq Created (Some (fresh_id E s)) None (Some (as_str path)) (Some 1) aj now)" for sq
    using p by (intro change_ok_rec) auto
  obtain t sq where t: "append_change w Created (Some (fresh_id E s)) None (Some (as_str path)) (Some 1) aj now ?s2 = Some t"
    "wf E t" "t = ?s2\<lparr>workspaces := map (bump_seq w now) (workspaces ?s2),
           changes := changes ?s2 @ [change_rec w sq Created (Some (fresh_id E s)) None (Some (as_str path)) (Some 1) aj now]\<rparr>"
    "w_id ` set (workspaces t) = w_id ` set (workspaces ?s2)"
    by (rule append_change_wf [OF ins(2) w used2 cok]) auto
  have "create_directory E w (n_id q) x path aj s = Some (map_row r, t)"
    using ins(1) t(1)
    by (simp add: create_directory_def new_id_eq now_ms_def Let_def r_def now_def s1_def)
  moreover have "contents_kept t s" using t(4) by (simp add: contents_kept_def t(3)) (simp add: s1_def)
  ultimately show thesis
    using that [of now t sq] t(2) by (simp add: t(3) r_def)
qed

lemma fetch_child_new:
  assumes ok: "tree_ok s" and t: "nodes t = nodes s @ [r]" and new: "n_id r \<notin> n_id ` set (nodes s)"
    and r: "n_parent_id r = Some p" "p \<in> n_id ` set (nodes s)"
  shows "fetch_child t w (n_id r) x = None"
proof (cases "fetch_child t w (n_id r) x")
  case (Some n)
  from fetch_child_SomeD [OF this] obtain q where "q \<in> set (nodes t)" "n_parent_id q = Some (n_id r)"
    unfolding visible_def by blast
  with new_row_no_child [OF assms] show ?thesis by blast
qed


subsection \<open>mkdir: the path\<close>

text \<open>
  \<open>grown s t w target\<close>: in \<open>t\<close> the missing part of the path \<open>target\<close> has become directories
  and nothing else has changed.
\<close>

definition grown :: "db \<Rightarrow> db \<Rightarrow> uuid \<Rightarrow> string list \<Rightarrow> bool" where
  "grown s t w target \<longleftrightarrow>
     (\<forall>xs. if prefix xs target \<and> lookup_segs s w xs = None
           then \<exists>d. lookup_segs t w xs = Some d \<and> n_kind d = DIRECTORY_KIND
           else lookup_segs t w xs = lookup_segs s w xs)"

lemma grown_refl: "lookup_segs s w target = Some d \<Longrightarrow> grown s s w target"
  by (auto simp: grown_def prefix_def dest: lookup_prefix)

lemma grown_trans: "grown s t w xs \<Longrightarrow> grown t u w (xs @ ys) \<Longrightarrow> grown s u w (xs @ ys)"
  unfolding grown_def by (smt (verit) option.distinct(1) prefix_prefix)

lemma grown_one:
  assumes "\<And>segs. lookup_segs t w segs = (if segs = pp @ [x] then Some n else lookup_segs s w segs)"
    and "lookup_segs s w pp = Some d" "lookup_segs s w (pp @ [x]) = None" "n_kind n = DIRECTORY_KIND"
  shows "grown s t w (pp @ [x])"
  unfolding grown_def
proof
  fix xs
  have "lookup_segs s w xs \<noteq> None" if "prefix xs pp"
    using that lookup_prefix assms(2) by (fastforce simp: prefix_def)
  then show "if prefix xs (pp @ [x]) \<and> lookup_segs s w xs = None
      then \<exists>d. lookup_segs t w xs = Some d \<and> n_kind d = DIRECTORY_KIND
      else lookup_segs t w xs = lookup_segs s w xs"
    using assms(3,4) by (simp add: assms(1))
qed

definition childless :: "db \<Rightarrow> uuid \<Rightarrow> raw_node \<Rightarrow> bool" where
  "childless s w n \<longleftrightarrow> n_kind n = DIRECTORY_KIND \<and> (\<forall>x. fetch_child s w (n_id n) x = None)"

lemma create_directory_grown:
  assumes E: "ext_ok E" and ok: "wf E s" and pp: "lookup_segs s w pp = Some d"
    "n_kind d = DIRECTORY_KIND" and x: "valid_seg x" and free: "fetch_child s w (n_id d) x = None"
    and p: "canonical path"
  obtains n t where "create_directory E w (n_id d) x path aj s = Some (n, t)" "wf E t"
    "contents_kept t s" "grown s t w (pp @ [x])" "lookup_segs t w (pp @ [x]) = Some n" "childless t w n"
    "n_kind n = DIRECTORY_KIND" "\<And>segs. lookup_segs t w segs
       = (if segs = pp @ [x] then Some n else lookup_segs s w segs)"
proof -
  obtain q where q: "visible s w q" "d = map_row q" using lookup_visible [OF pp(1)] by blast
  then have qd: "n_id q = n_id d" "n_kind q = DIRECTORY_KIND" using pp(2) by simp_all
  obtain now sq t where
    c: "create_directory E w (n_id q) x path aj s
       = Some (map_row (dir_row (fresh_id E s) w (n_id q) x now), t)"
    and t: "wf E t" "nodes t = nodes s @ [dir_row (fresh_id E s) w (n_id q) x now]" "contents_kept t s"
    by (rule create_directory_ok [OF E ok q(1) qd(2) x _ p, of aj]) (use free qd in auto)
  define r where "r = dir_row (fresh_id E s) w (n_id q) x now"
  have new: "n_id r \<notin> n_id ` set (nodes s)"
    using fresh_unused(3) [OF E wfD(6) [OF ok]] by (simp add: r_def)
  have tr: "nodes t = nodes s @ [r]" using t(2) by (simp add: r_def)
  have look: "lookup_segs t w segs = (if segs = pp @ [x] then Some (map_row r) else lookup_segs s w segs)" for segs
    by (rule add_child_lookup [OF wfD(2) [OF ok] wfD(2) [OF t(1)] tr new, of w "n_id q" pp d segs,
          unfolded dir_row_fields r_def, folded r_def])
      (use pp qd free in \<open>simp_all add: r_def\<close>)
  have "lookup_segs s w (pp @ [x]) = None" using pp free by (simp add: lookup_snoc enter_def)
  then have "grown s t w (pp @ [x])"
    by (intro grown_one [OF look pp(1)]) (simp_all add: r_def)
  moreover have par: "n_parent_id r = Some (n_id q)" "n_id q \<in> n_id ` set (nodes s)"
    using q(1) by (simp_all add: r_def visible_def)
  have "fetch_child t w (n_id r) y = None" for y
    by (rule fetch_child_new [OF wfD(2) [OF ok] tr new par])
  then have "childless t w (map_row r)" by (simp add: childless_def r_def)
  ultimately show thesis
    using that [OF c [folded r_def, unfolded qd] t(1,3)] look by (simp add: r_def)
qed

lemma mkdir_ancestors_ok:
  assumes E: "ext_ok E"
  shows "wf E s \<Longrightarrow> lookup_segs s w pp = Some cur \<Longrightarrow> list_all valid_seg (pp @ segs) \<Longrightarrow>
    \<exists>res t. mkdir_ancestors E w opts aj cur (path_of pp) segs s = Some (res, t) \<and> wf E t \<and>
      contents_kept t s \<and> (\<not> co_parents opts \<longrightarrow> t = s) \<and>
      (case res of
         Inl o1 \<Rightarrow> t = s \<and> lookup_segs s w (pp @ segs) = None \<and>
           (o1 = MkdirWrongNodeType \<or> o1 = MkdirParentNotFound \<and> \<not> co_parents opts) \<and>
           \<not> (co_parents opts \<and> childless s w cur)
       | Inr (c, path) \<Rightarrow> path = path_of (pp @ segs) \<and> lookup_segs t w (pp @ segs) = Some c \<and>
           grown s t w (pp @ segs) \<and> (co_parents opts \<and> childless s w cur \<longrightarrow> childless t w c) \<and>
           (t = s \<or> childless t w c))"
proof (induction segs arbitrary: s pp cur)
  case Nil
  then show ?case by (auto intro: grown_refl)
next
  case (Cons x segs)
  have vx: "valid_seg x" "list_all valid_seg pp" "list_all valid_seg ((pp @ [x]) @ segs)"
    using Cons.prems(3) by simp_all
  have join: "expect_ok (vp_join (path_of pp) x) = Some (path_of (pp @ [x]))"
    using vp_join_seg [of "path_of pp" x] vx by (simp add: expect_ok_def path_simps)
  have gone: "lookup_segs s w (pp @ x # segs) = None" if "enter s w cur x = None"
    using that lookup_prefix [of s w "pp @ [x]" segs] Cons.prems(2)
    by (cases "lookup_segs s w (pp @ x # segs)") (auto simp: lookup_snoc)
  show ?case
  proof (cases "n_kind cur = DIRECTORY_KIND")
    case False
    with Cons.prems gone show ?thesis by (auto simp: childless_def enter_def)
  next
    case dir: True
    show ?thesis
    proof (cases "fetch_child s w (n_id cur) x")
      case (Some c)
      then have "lookup_segs s w (pp @ [x]) = Some c"
        using Cons.prems(2) dir by (simp add: lookup_snoc enter_def)
      from Cons.IH [OF Cons.prems(1) this vx(3)] obtain res t where
        r: "mkdir_ancestors E w opts aj c (path_of (pp @ [x])) segs s = Some (res, t)" "wf E t"
          "contents_kept t s" "\<not> co_parents opts \<longrightarrow> t = s"
        and res: "case res of
         Inl o1 \<Rightarrow> t = s \<and> lookup_segs s w ((pp @ [x]) @ segs) = None \<and>
           (o1 = MkdirWrongNodeType \<or> o1 = MkdirParentNotFound \<and> \<not> co_parents opts) \<and>
           \<not> (co_parents opts \<and> childless s w c)
       | Inr (c', path) \<Rightarrow> path = path_of ((pp @ [x]) @ segs) \<and> lookup_segs t w ((pp @ [x]) @ segs) = Some c' \<and>
           grown s t w ((pp @ [x]) @ segs) \<and> (co_parents opts \<and> childless s w c \<longrightarrow> childless t w c') \<and>
           (t = s \<or> childless t w c')"
        by blast
      have "\<not> childless s w cur" using Some by (auto simp: childless_def)
      with r res show ?thesis
        by (auto simp: dir Some join split: sum.splits)
    next
      case None
      show ?thesis
      proof (cases "co_parents opts")
        case False
        with None dir Cons.prems(1) gone show ?thesis by (simp add: enter_def)
      next
        case par: True
        obtain n s1 where c: "create_directory E w (n_id cur) x (path_of (pp @ [x])) aj s = Some (n, s1)"
          and s1: "wf E s1" "contents_kept s1 s" "grown s s1 w (pp @ [x])"
            "lookup_segs s1 w (pp @ [x]) = Some n" "childless s1 w n"
          using create_directory_grown [OF E Cons.prems(1,2) dir vx(1) None, of "path_of (pp @ [x])" aj]
            vx by (metis canonical_path_of list_all_append)
        from Cons.IH [OF s1(1,4) vx(3)] obtain res t where
          r: "mkdir_ancestors E w opts aj n (path_of (pp @ [x])) segs s1 = Some (res, t)" "wf E t"
            "contents_kept t s1"
          and res: "case res of
           Inl o1 \<Rightarrow> t = s1 \<and> lookup_segs s1 w ((pp @ [x]) @ segs) = None \<and>
             (o1 = MkdirWrongNodeType \<or> o1 = MkdirParentNotFound \<and> \<not> co_parents opts) \<and>
             \<not> (co_parents opts \<and> childless s1 w n)
         | Inr (c', path) \<Rightarrow> path = path_of ((pp @ [x]) @ segs) \<and> lookup_segs t w ((pp @ [x]) @ segs) = Some c' \<and>
             grown s1 t w ((pp @ [x]) @ segs) \<and> (co_parents opts \<and> childless s1 w n \<longrightarrow> childless t w c') \<and>
             (t = s1 \<or> childless t w c')"
          by blast
        with par s1(5) obtain c' where "res = Inr (c', path_of ((pp @ [x]) @ segs))"
          and t: "lookup_segs t w ((pp @ [x]) @ segs) = Some c'" "grown s1 t w ((pp @ [x]) @ segs)"
            "childless t w c'"
          by (cases res) auto
        moreover have "grown s t w ((pp @ [x]) @ segs)" by (rule grown_trans [OF s1(3) t(2)])
        ultimately show ?thesis
          using r contents_kept_trans [OF r(3) s1(2)] par t by (simp add: dir None join c)
      qed
    qed
  qed
qed


definition mkdir_post ::
    "db \<Rightarrow> db \<Rightarrow> uuid \<Rightarrow> create_options \<Rightarrow> string list \<Rightarrow> mkdir_outcome \<Rightarrow> bool" where
  "mkdir_post s t w opts segs res \<longleftrightarrow>
     (case res of
        MkdirCreated n \<Rightarrow> lookup_segs s w segs = None \<and> lookup_segs t w segs = Some n \<and>
          n_kind n = DIRECTORY_KIND \<and> grown s t w segs \<and>
          (\<not> co_parents opts \<longrightarrow> lookup_segs s w (butlast segs) \<noteq> None)
      | MkdirExisting n \<Rightarrow> t = s \<and> co_exist_ok opts \<and> lookup_segs s w segs = Some n \<and>
          n_kind n = DIRECTORY_KIND
      | MkdirAlreadyExists \<Rightarrow> t = s \<and> \<not> co_exist_ok opts \<and>
          (\<exists>n. lookup_segs s w segs = Some n \<and> n_kind n = DIRECTORY_KIND)
      | MkdirParentNotFound \<Rightarrow> t = s \<and> \<not> co_parents opts \<and> lookup_segs s w (butlast segs) = None
      | MkdirRevisionConflict \<Rightarrow> t = s \<and>
          (\<exists>n rv. lookup_segs s w segs = Some n \<and> co_expected_revision opts = Some rv \<and>
             n_revision n \<noteq> as_i64 (rev_get rv))
      | MkdirWrongNodeType \<Rightarrow> t = s)"

lemma mkdir_leaf_ok:
  assumes E: "ext_ok E" and ok: "wf E s" and pp: "lookup_segs s w pp = Some cur"
    and v: "list_all valid_seg (pp @ [x])"
  shows "\<exists>res t. mkdir_leaf E w opts aj cur (path_of pp) x s = Some (res, t) \<and> wf E t \<and>
    contents_kept t s \<and> mkdir_post s t w opts (pp @ [x]) res \<and>
    (childless s w cur \<longrightarrow> (\<exists>n. res = MkdirCreated n)) \<and> res \<noteq> MkdirParentNotFound"
proof (cases "n_kind cur = DIRECTORY_KIND")
  case False
  with ok show ?thesis by (simp add: mkdir_leaf_def mkdir_post_def childless_def)
next
  case dir: True
  have v': "valid_seg x" "list_all valid_seg pp" using v by simp_all
  show ?thesis
  proof (cases "fetch_child s w (n_id cur) x")
    case (Some c)
    then have "lookup_segs s w (pp @ [x]) = Some c" using pp dir by (simp add: lookup_snoc enter_def)
    moreover have "\<not> childless s w cur" using Some by (auto simp: childless_def)
    ultimately show ?thesis using ok dir Some
      by (auto simp: mkdir_leaf_def mkdir_post_def split: option.split)
  next
    case None
    have join: "expect_ok (vp_join (path_of pp) x) = Some (path_of (pp @ [x]))"
      using vp_join_seg [of "path_of pp" x] v' by (simp add: expect_ok_def path_simps)
    have can: "canonical (path_of (pp @ [x]))" using v by (rule canonical_path_of)
    obtain n t where c: "create_directory E w (n_id cur) x (path_of (pp @ [x])) aj s = Some (n, t)"
      "wf E t" "contents_kept t s" "grown s t w (pp @ [x])" "lookup_segs t w (pp @ [x]) = Some n"
      "n_kind n = DIRECTORY_KIND"
      by (rule create_directory_grown [OF E ok pp dir v'(1) None can, of aj])
    have "lookup_segs s w (pp @ [x]) = None" using pp None by (simp add: lookup_snoc enter_def)
    with c pp show ?thesis by (simp add: mkdir_leaf_def mkdir_post_def dir None join)
  qed
qed

theorem mkdir_tx_ok:
  assumes E: "ext_ok E" and ok: "wf E s" and w: "w \<in> w_id ` set (workspaces s)"
    and segs: "segs \<noteq> []" "list_all valid_seg segs"
  shows "\<exists>res t. mkdir_tx E w segs opts aj s = Some (res, t) \<and> wf E t \<and> contents_kept t s \<and>
    mkdir_post s t w opts segs res"
proof -
  obtain xs x where xs: "segs = xs @ [x]" using segs(1) by (cases segs rule: rev_cases) auto
  obtain root where root: "fetch_root s w = Some root"
    using fetch_root_exists [OF wfD(2) [OF ok] w] by blast
  have "lookup_segs s w [] = Some root" "list_all valid_seg ([] @ xs)" using root segs xs by simp_all
  from mkdir_ancestors_ok [OF E ok this, of opts aj, unfolded append_Nil] obtain res s1 where
    a: "mkdir_ancestors E w opts aj root vp_root xs s = Some (res, s1)" "wf E s1" "contents_kept s1 s"
      "\<not> co_parents opts \<longrightarrow> s1 = s"
    and res: "case res of
         Inl o1 \<Rightarrow> s1 = s \<and> lookup_segs s w xs = None \<and>
           (o1 = MkdirWrongNodeType \<or> o1 = MkdirParentNotFound \<and> \<not> co_parents opts) \<and>
           \<not> (co_parents opts \<and> childless s w root)
       | Inr (c, path) \<Rightarrow> path = path_of xs \<and> lookup_segs s1 w xs = Some c \<and>
           grown s s1 w xs \<and> (co_parents opts \<and> childless s w root \<longrightarrow> childless s1 w c) \<and>
           (s1 = s \<or> childless s1 w c)"
    unfolding vp_root_path_of by blast
  show ?thesis
  proof (cases res)
    case (Inl o1)
    with a res root show ?thesis
      by (auto simp: mkdir_tx_def xs mkdir_post_def)
  next
    case (Inr cp)
    then obtain c where c: "res = Inr (c, path_of xs)" "lookup_segs s1 w xs = Some c"
      "grown s s1 w xs" "s1 = s \<or> childless s1 w c"
      using res by (cases cp) auto
    from mkdir_leaf_ok [OF E a(2) c(2), of x opts aj] segs xs obtain o2 t where
      l: "mkdir_leaf E w opts aj c (path_of xs) x s1 = Some (o2, t)" "wf E t" "contents_kept t s1"
        "mkdir_post s1 t w opts segs o2" "childless s1 w c \<longrightarrow> (\<exists>n. o2 = MkdirCreated n)"
        "o2 \<noteq> MkdirParentNotFound"
      by auto
    have "mkdir_post s t w opts segs o2"
    proof (cases "s1 = s")
      case True
      with l(4) show ?thesis by simp
    next
      case False
      then obtain n where n: "o2 = MkdirCreated n" "co_parents opts" using c(4) l(5) a(4) by blast
      with l(4) have *: "lookup_segs s1 w segs = None" "lookup_segs t w segs = Some n"
        "n_kind n = DIRECTORY_KIND" "grown s1 t w (xs @ [x])"
        by (simp_all add: mkdir_post_def xs)
      have "lookup_segs s w segs = None"
        using c(3) *(1) unfolding grown_def xs by (metis option.distinct(1))
      with * n grown_trans [OF c(3) *(4)] show ?thesis by (simp add: mkdir_post_def xs)
    qed
    moreover have "mkdir_tx E w segs opts aj s = Some (o2, t)"
      using root a(1) c(1) l(1) by (simp add: mkdir_tx_def xs)
    ultimately show ?thesis using l contents_kept_trans [OF l(3) a(3)] by blast
  qed
qed


subsection \<open>read_dir serves the children in name order\<close>

type_synonym dir_query = "ext \<times> dir_cursor codec \<times> uuid \<times> virtual_path \<times> db"

definition dir_of :: "dir_query \<Rightarrow> raw_node option" where
  "dir_of x = (case x of (E, C, w, path, s) \<Rightarrow> resolve s w path)"

definition dir_ready :: "dir_query \<Rightarrow> bool" where
  "dir_ready x = (case x of (E, C, w, path, s) \<Rightarrow>
     ext_ok E \<and> wf E s \<and> revisions_fit s \<and> codec_ok C \<and>
     (\<exists>d. resolve s w path = Some d \<and> n_kind d = DIRECTORY_KIND))"

text \<open>The active children of the directory, by name.\<close>

definition dir_rows :: "dir_query \<Rightarrow> node_row list" where
  "dir_rows x = (case x of (E, C, w, path, s) \<Rightarrow> (case resolve s w path of
     None \<Rightarrow> []
   | Some d \<Rightarrow> sort_key (\<lambda>r. (n_name r, n_id r))
       (filter (\<lambda>r. n_workspace_id r = w \<and> n_parent_id r = Some (n_id d) \<and> active r) (nodes s))))"

definition dir_cursor_of :: "dir_query \<Rightarrow> node_row \<Rightarrow> string" where
  "dir_cursor_of x r = (case x of (E, C, w, path, s) \<Rightarrow> (case resolve s w path of
     None \<Rightarrow> ''''
   | Some d \<Rightarrow> encode_dir_cursor C w (n_id d) (n_name r) (n_id r)))"

definition dir_serve :: "dir_query \<Rightarrow> nat \<Rightarrow> string option \<Rightarrow> node page fs_result" where
  "dir_serve x n c = (case x of (E, C, w, path, s) \<Rightarrow>
     read_dir E C w path \<lparr>pr_cursor = c, pr_limit = n\<rparr> s)"

lemma dir_rows_eq:
  "resolve s w path = Some d \<Longrightarrow> dir_rows (E, C, w, path, s)
     = sort_key (\<lambda>r. (n_name r, n_id r))
         (filter (\<lambda>r. n_workspace_id r = w \<and> n_parent_id r = Some (n_id d) \<and> active r) (nodes s))"
  by (simp add: dir_rows_def)

lemma set_dir_rows:
  "resolve s w path = Some d \<Longrightarrow> set (dir_rows (E, C, w, path, s))
     = {r. visible s w r \<and> n_parent_id r = Some (n_id d)}"
  by (auto simp: dir_rows_eq visible_def)

lemma read_dir_page:
  assumes r: "dir_ready (E, C, w, path, s)" and d: "resolve s w path = Some d" and n: "0 < n"
    and c: "(case c of Some raw \<Rightarrow> res_bind (decode_dir_cursor C raw w) (\<lambda>c. Inr (Some c))
             | None \<Rightarrow> Inr None) = Inr after"
    and after: "case after of Some c \<Rightarrow> dc_parent_id c = n_id d | None \<Rightarrow> True"
    and rows: "rows = filter (\<lambda>q. (case after of None \<Rightarrow> ('''', '''')
      | Some c \<Rightarrow> (dc_last_name c, dc_last_id c)) < (n_name q, n_id q)) (dir_rows (E, C, w, path, s))"
  shows "read_dir E C w path \<lparr>pr_cursor = c, pr_limit = n\<rparr> s
    = Inr (cut_page (\<lambda>r. node_of (map_row r)) (dir_cursor_of (E, C, w, path, s)) n rows)"
proof -
  have dir: "n_kind d = DIRECTORY_KIND" and E: "ext_ok E" "wf E s" "revisions_fit s"
    using r d by (auto simp: dir_ready_def)
  obtain an ai where pos: "(case after of Some c \<Rightarrow> (dc_last_name c, dc_last_id c) | None \<Rightarrow> ('''', '''')) = (an, ai)"
    by (cases after) auto
  have fetched: "fetch_children_page s w (n_id d) an ai m = map map_row (take m rows)" for m
  proof -
    have "rows = filter (\<lambda>q. (an, ai) < (n_name q, n_id q)) (dir_rows (E, C, w, path, s))"
      using pos rows by (cases after) auto
    also have "\<dots> = sort_key (\<lambda>r. (n_name r, n_id r)) (filter (\<lambda>r. n_workspace_id r = w \<and>
        n_parent_id r = Some (n_id d) \<and> active r \<and> (n_name r > an \<or> n_name r = an \<and> n_id r > ai)) (nodes s))"
      unfolding dir_rows_eq [OF d] filter_sort filter_filter less_pair conj_assoc by simp
    finally show ?thesis by (simp add: fetch_children_page_def)
  qed
  have sub: "set rows \<subseteq> set (nodes s)" using rows set_dir_rows [OF d] by (auto simp: visible_def)
  have conv: "collect_results (map (into_node E) (map map_row qs)) = Inr (map (\<lambda>r. node_of (map_row r)) qs)"
    if "set qs \<subseteq> set (nodes s)" for qs
    using that into_node_ok [OF E] by (auto simp: o_def intro!: collect_results_map)
  have ok_after: "\<not> (case after of Some c \<Rightarrow> dc_parent_id c \<noteq> n_id d | None \<Rightarrow> False)"
    using after by (cases after) auto
  have lim: "max n 1 = n" using n by simp
  have cur: "dir_cursor_of (E, C, w, path, s) q = encode_dir_cursor C w (n_id d) (n_name q) (n_id q)" for q
    by (simp add: dir_cursor_of_def d)
  have last: "last (map map_row qs) = map_row (last qs)" if "qs \<noteq> []" for qs
    using that by (simp add: last_map)
  have sub': "set (take n rows) \<subseteq> set (nodes s)" using sub set_take_subset by fast
  show ?thesis
  proof (cases "length rows > n")
    case True
    then have ne: "take n rows \<noteq> []" using n by auto
    show ?thesis
      unfolding read_dir_def using conv [OF sub'] True n last [OF ne]
      by (simp add: c d dir pos lim fetched cut_page_def min_def ok_after Let_def cur take_map)
  next
    case False
    then show ?thesis
      unfolding read_dir_def using conv [OF sub]
      by (simp add: c d dir pos lim fetched cut_page_def ok_after Let_def)
  qed
qed


lemma dir_rows_distinct:
  assumes "tree_ok s" "resolve s w path = Some d"
  shows "distinct (map (\<lambda>r. (n_name r, n_id r))
    (filter (\<lambda>r. n_workspace_id r = w \<and> n_parent_id r = Some (n_id d) \<and> active r) (nodes s)))"
proof -
  have "distinct (map n_id (filter (\<lambda>r. n_workspace_id r = w \<and> n_parent_id r = Some (n_id d) \<and> active r) (nodes s)))"
    by (rule distinct_map_filter [OF tree_okD(1) [OF assms(1)]])
  then show ?thesis by (auto simp: distinct_map inj_on_def)
qed

interpretation dir: page_server dir_ready dir_rows "\<lambda>r. (n_name r, n_id r)" dir_cursor_of
  "\<lambda>_ r. node_of (map_row r)" dir_serve
proof unfold_locales
  fix x :: dir_query
  assume "dir_ready x"
  then obtain E C w path s d where x: "x = (E, C, w, path, s)" and d: "resolve s w path = Some d"
    and ok: "wf E s"
    by (cases x) (auto simp: dir_ready_def)
  show "sorted_wrt (\<lambda>r q. (n_name r, n_id r) < (n_name q, n_id q)) (dir_rows x)"
    unfolding x dir_rows_eq [OF d] by (rule sorted_wrt_sort_key [OF dir_rows_distinct [OF wfD(2) [OF ok] d]])
next
  fix x :: dir_query and n :: nat
  assume r: "dir_ready x" and n: "0 < n"
  then obtain E C w path s d where x: "x = (E, C, w, path, s)" and d: "resolve s w path = Some d"
    and ok: "wf E s"
    by (cases x) (auto simp: dir_ready_def)
  have "('''', '''') < (n_name q, n_id q)" if "q \<in> set (dir_rows x)" for q
  proof -
    from that have "q \<in> set (nodes s)" "n_parent_id q = Some (n_id d)"
      using set_dir_rows [OF d] by (auto simp: x visible_def)
    from row_parentE [OF wfD(2) [OF ok] this] have "n_name q \<noteq> ''''" by auto
    then show ?thesis by (simp add: less_pair Nil_less_list)
  qed
  then have "filter (\<lambda>q. ('''', '''') < (n_name q, n_id q)) (dir_rows x) = dir_rows x"
    by (simp add: filter_id_conv)
  with read_dir_page [OF r [unfolded x] d n, of None None] show
    "dir_serve x n None = Inr (cut_page (\<lambda>r. node_of (map_row r)) (dir_cursor_of x) n (dir_rows x))"
    by (simp add: dir_serve_def x)
next
  fix x :: dir_query and n :: nat and r
  assume rd: "dir_ready x" and n: "0 < n" and r: "r \<in> set (dir_rows x)"
  then obtain E C w path s d where x: "x = (E, C, w, path, s)" and d: "resolve s w path = Some d"
    and C: "codec_ok C"
    by (cases x) (auto simp: dir_ready_def)
  show "dir_serve x n (Some (dir_cursor_of x r)) = Inr (cut_page (\<lambda>r. node_of (map_row r))
      (dir_cursor_of x) n (filter (\<lambda>q. (n_name r, n_id r) < (n_name q, n_id q)) (dir_rows x)))"
    using read_dir_page [OF rd [unfolded x] d n, of "Some (dir_cursor_of x r)"
        "Some \<lparr>dc_v = 1, dc_workspace_id = w, dc_parent_id = n_id d,
               dc_last_name = n_name r, dc_last_id = n_id r\<rparr>"] C
    by (simp add: dir_serve_def x dir_cursor_of_def d encode_dir_cursor_def decode_dir_cursor_def)
qed


subsection \<open>The recursive query lists the reachable descendants\<close>

lemma enter_iff:
  assumes ok: "tree_ok s" and n: "stored s w n"
  shows "enter s w n x = Some c \<longleftrightarrow> (\<exists>r. r \<in> set (nodes s) \<and> active r \<and>
    n_parent_id r = Some (n_id n) \<and> n_name r = x \<and> c = map_row r)"
proof
  assume "enter s w n x = Some c"
  then have "fetch_child s w (n_id n) x = Some c" by (simp add: enter_def split: if_splits)
  from fetch_child_SomeD [OF this]
  show "\<exists>r. r \<in> set (nodes s) \<and> active r \<and> n_parent_id r = Some (n_id n) \<and> n_name r = x \<and> c = map_row r"
    unfolding visible_def by blast
next
  assume "\<exists>r. r \<in> set (nodes s) \<and> active r \<and> n_parent_id r = Some (n_id n) \<and> n_name r = x \<and> c = map_row r"
  then obtain r where r: "r \<in> set (nodes s)" "active r" "n_parent_id r = Some (n_id n)" "n_name r = x"
    "c = map_row r" by blast
  from n obtain m where m: "visible s w m" "n = map_row m" by (auto simp: stored_def)
  from row_parentE [OF ok r(1,3)] obtain q where q: "q \<in> set (nodes s)" "n_id q = n_id n"
    "n_workspace_id q = n_workspace_id r" "n_kind q = DIRECTORY_KIND" by metis
  then have "q = m" using m row_id_eq [OF ok] by (simp add: visible_def)
  with q m r have "n_kind n = DIRECTORY_KIND" "visible s w r" by (auto simp: visible_def)
  with fetch_child_eq [OF tree_okD(2) [OF ok], of w r "n_id n"] r
  show "enter s w n x = Some c" by (simp add: enter_def)
qed

lemma walk_stored: "stored s w d \<Longrightarrow> walk s w d segs = Some n \<Longrightarrow> stored s w n"
proof (induction segs arbitrary: d)
  case Nil
  then show ?case by simp
next
  case (Cons x segs)
  then show ?case by (auto split: if_splits option.splits dest: fetch_stored(2))
qed

definition tree_row_of :: "string list \<Rightarrow> raw_node \<Rightarrow> tree_row" where
  "tree_row_of segs n =
     \<lparr>tw_relative_path = join_on slash segs, tw_depth = int (length segs), tw_node = n\<rparr>"

definition at_depth :: "db \<Rightarrow> uuid \<Rightarrow> raw_node \<Rightarrow> nat \<Rightarrow> tree_row set" where
  "at_depth s w d k = {tree_row_of segs n | segs n. length segs = k \<and> walk s w d segs = Some n}"

lemma join_on_snoc: "xs \<noteq> [] \<Longrightarrow> join_on c (xs @ [x]) = join_on c xs @ c # x"
  by (induction c xs rule: join_on.induct) auto

lemma walk_snoc: "walk s w d (xs @ [x]) = Option.bind (walk s w d xs) (\<lambda>n. enter s w n x)"
  by (auto simp: walk_append walk_Cons simp del: walk.simps(2) split: bind_split)

lemma level_one_set:
  assumes ok: "tree_ok s" and d: "stored s w d"
  shows "set (level_one s w (n_id d)) = at_depth s w d 1"
proof -
  have "walk s w d [x] = enter s w d x" for x
    by (simp add: walk_Cons del: walk.simps(2) split: bind_split)
  then have "at_depth s w d 1 = {tree_row_of [x] n | x n. enter s w d x = Some n}"
    by (force simp: at_depth_def length_Suc_conv)
  also have "\<dots> = set (level_one s w (n_id d))"
  proof -
    have ws: "n_workspace_id r = w" if "r \<in> set (nodes s)" "active r" "n_parent_id r = Some (n_id d)" for r
      using enter_iff [OF ok d, of "n_name r" "map_row r"] that
      by (auto simp: enter_def visible_def split: if_splits dest!: fetch_child_SomeD)
        (metis map_row_fields(2) that)
    then show ?thesis
      unfolding enter_iff [OF ok d] level_one_def
      by (auto simp: tree_row_of_def image_iff)
  qed
  finally show ?thesis by simp
qed

lemma level_next_set:
  assumes ok: "tree_ok s" and d: "stored s w d" and ds: "set ds = at_depth s w d k" and k: "0 < k"
    and m: "case m of None \<Rightarrow> True | Some m \<Rightarrow> k < m"
  shows "set (level_next s m ds) = at_depth s w d (Suc k)"
proof -
  have depth: "tw_depth r = int k" if "r \<in> set ds" for r
    using that ds by (auto simp: at_depth_def tree_row_of_def)
  have step: "set (level_next s m ds) = (\<Union>p \<in> set ds.
      {\<lparr>tw_relative_path = tw_relative_path p @ slash # n_name r, tw_depth = tw_depth p + 1,
        tw_node = map_row r\<rparr> | r. r \<in> set (nodes s) \<and> n_parent_id r = Some (n_id (tw_node p)) \<and> active r})"
    using m depth by (auto simp: level_next_def split: option.splits)
  also have "\<dots> = (\<Union>p \<in> set ds. {\<lparr>tw_relative_path = tw_relative_path p @ slash # x,
      tw_depth = tw_depth p + 1, tw_node = c\<rparr> | x c. enter s w (tw_node p) x = Some c})"
  proof (rule SUP_cong [OF refl])
    fix p assume "p \<in> set ds"
    then have "stored s w (tw_node p)"
      using ds walk_stored [OF d] by (auto simp: at_depth_def tree_row_of_def)
    note ent = enter_iff [OF ok this]
    show
      "{\<lparr>tw_relative_path = tw_relative_path p @ slash # n_name r, tw_depth = tw_depth p + 1,
        tw_node = map_row r\<rparr> | r. r \<in> set (nodes s) \<and> n_parent_id r = Some (n_id (tw_node p)) \<and> active r}
       = {\<lparr>tw_relative_path = tw_relative_path p @ slash # x, tw_depth = tw_depth p + 1, tw_node = c\<rparr>
          | x c. enter s w (tw_node p) x = Some c}" unfolding ent by blast
  qed
  also have "\<dots> = at_depth s w d (Suc k)"
  proof (intro equalityI subsetI)
    fix r assume "r \<in> (\<Union>p \<in> set ds. {\<lparr>tw_relative_path = tw_relative_path p @ slash # x,
      tw_depth = tw_depth p + 1, tw_node = c\<rparr> | x c. enter s w (tw_node p) x = Some c})"
    then obtain segs n x c where "length segs = k" "walk s w d segs = Some n" "enter s w n x = Some c"
      "r = \<lparr>tw_relative_path = join_on slash segs @ slash # x, tw_depth = int k + 1, tw_node = c\<rparr>"
      unfolding ds at_depth_def tree_row_of_def by auto
    moreover from this k have "segs \<noteq> []" by auto
    ultimately have "r = tree_row_of (segs @ [x]) c" "walk s w d (segs @ [x]) = Some c"
      "length (segs @ [x]) = Suc k"
      by (simp_all add: tree_row_of_def join_on_snoc walk_snoc)
    then show "r \<in> at_depth s w d (Suc k)" unfolding at_depth_def by blast
  next
    fix r assume "r \<in> at_depth s w d (Suc k)"
    then obtain segs c where segs: "length segs = Suc k" "walk s w d segs = Some c" "r = tree_row_of segs c"
      by (auto simp: at_depth_def)
    then obtain xs x where xs: "segs = xs @ [x]" "length xs = k"
      by (cases segs rule: rev_cases) auto
    with segs(2) obtain n where n: "walk s w d xs = Some n" "enter s w n x = Some c"
      by (auto simp: walk_snoc bind_eq_Some_conv)
    have "xs \<noteq> []" using xs k by auto
    with xs segs(3) have "r = \<lparr>tw_relative_path = tw_relative_path (tree_row_of xs n) @ slash # x,
      tw_depth = tw_depth (tree_row_of xs n) + 1, tw_node = c\<rparr>"
      by (simp add: tree_row_of_def join_on_snoc)
    moreover have "tree_row_of xs n \<in> set ds" using n xs ds by (auto simp: at_depth_def)
    moreover have "tw_node (tree_row_of xs n) = n" by (simp add: tree_row_of_def)
    ultimately show "r \<in> (\<Union>p \<in> set ds. {\<lparr>tw_relative_path = tw_relative_path p @ slash # x,
      tw_depth = tw_depth p + 1, tw_node = c\<rparr> | x c. enter s w (tw_node p) x = Some c})"
      using n(2) by fastforce
  qed
  finally show ?thesis .
qed


text \<open>No row occurs twice in a level.\<close>

lemma level_one_distinct:
  assumes "tree_ok s"
  shows "distinct (map (\<lambda>r. n_id (tw_node r)) (level_one s w i))"
  using distinct_map_filter [OF tree_okD(1) [OF assms]] by (simp add: level_one_def o_def)

lemma level_next_distinct:
  assumes ok: "tree_ok s"
  shows "distinct (map (\<lambda>r. n_id (tw_node r)) ds) \<Longrightarrow>
    distinct (map (\<lambda>r. n_id (tw_node r)) (level_next s m ds))"
proof (induction ds)
  case Nil
  then show ?case by (simp add: level_next_def)
next
  case (Cons d ds)
  define kids where "kids = (\<lambda>d :: tree_row. if (case m of None \<Rightarrow> True | Some m \<Rightarrow> tw_depth d < int m)
    then filter (\<lambda>r. n_parent_id r = Some (n_id (tw_node d)) \<and> active r) (nodes s) else [])"
  have ids: "map (\<lambda>r. n_id (tw_node r)) (level_next s m ds) = concat (map (\<lambda>d. map n_id (kids d)) ds)" for ds
    by (induction ds) (simp_all add: level_next_def kids_def o_def split: option.split)
  have "n_id (tw_node d) \<noteq> n_id (tw_node e)" if "e \<in> set ds" for e using Cons.prems that by auto
  note differ = this
  have kid: "a \<in> set (nodes s) \<and> n_parent_id a = Some (n_id (tw_node e))" if "a \<in> set (kids e)" for a e
    using that by (simp add: kids_def split: if_splits)
  have "set (map n_id (kids d)) \<inter> set (concat (map (\<lambda>d. map n_id (kids d)) ds)) = {}"
  proof (rule ccontr)
    assume "\<not> ?thesis"
    then obtain i where "i \<in> set (map n_id (kids d))" "i \<in> set (concat (map (\<lambda>d. map n_id (kids d)) ds))"
      by blast
    then obtain a e b where "a \<in> set (kids d)" "n_id a = i" "e \<in> set ds" "b \<in> set (kids e)" "n_id b = i"
      by auto
    with kid [of a d] kid [of b e] row_id_eq [OF ok, of a b] differ [of e] show False by simp
  qed
  moreover have "distinct (map n_id (kids d))"
    using distinct_map_filter [OF tree_okD(1) [OF ok]] by (simp add: kids_def)
  moreover have "distinct (concat (map (\<lambda>d. map n_id (kids d)) ds))"
    using Cons unfolding ids by simp
  ultimately show ?case unfolding ids list.map concat.simps distinct_append by blast
qed

text \<open>The depth of a reachable descendant is less than the number of rows.\<close>

lemma at_depth_bound:
  assumes ok: "tree_ok s" and d: "lookup_segs s w pp = Some d" and k: "length (nodes s) \<le> k"
  shows "at_depth s w d k = {}"
proof (rule ccontr)
  assume "at_depth s w d k \<noteq> {}"
  then obtain segs n where segs: "length segs = k" "walk s w d segs = Some n"
    by (auto simp: at_depth_def)
  define full where "full = pp @ segs"
  have full: "lookup_segs s w full = Some n"
    using d segs(2) unfolding full_def lookup_segs_def
    by (auto simp: walk_append split: option.splits)
  have "\<exists>m. lookup_segs s w (take j full) = Some m" for j
    using full lookup_prefix [of s w "take j full" "drop j full" n] by simp
  then obtain f where f: "\<And>j. lookup_segs s w (take j full) = Some (f j)" by metis
  have inj: "inj_on (\<lambda>j. n_id (f j)) {0..length full}"
  proof (rule inj_onI)
    fix i j assume ij: "i \<in> {0..length full}" "j \<in> {0..length full}" "n_id (f i) = n_id (f j)"
    then have "f i = f j" using stored_id_eq [OF ok] lookup_stored f by blast
    then have "take i full = take j full" using f lookup_unique [OF ok] by metis
    then have "length (take i full) = length (take j full)" by simp
    with ij show "i = j" by simp
  qed
  have "(\<lambda>j. n_id (f j)) ` {0..length full} \<subseteq> n_id ` set (nodes s)"
  proof (rule image_subsetI)
    fix j
    obtain r where "visible s w r" "f j = map_row r" using lookup_visible [OF f] by blast
    then show "n_id (f j) \<in> n_id ` set (nodes s)" by (simp add: visible_def)
  qed
  from card_inj_on_le [OF inj this] have "Suc (length full) \<le> card (n_id ` set (nodes s))" by simp
  also have "\<dots> \<le> length (nodes s)" by (metis card_length length_map list.set_map)
  finally show False using k segs(1) by (simp add: full_def)
qed

lemma at_depth_mono: "at_depth s w d k = {} \<Longrightarrow> k \<le> j \<Longrightarrow> at_depth s w d j = {}"
proof (rule ccontr)
  assume e: "at_depth s w d k = {}" "k \<le> j" and "at_depth s w d j \<noteq> {}"
  then obtain segs n where segs: "length segs = j" "walk s w d segs = Some n" by (auto simp: at_depth_def)
  have "take k segs @ drop k segs = segs" by simp
  with segs(2) obtain m where "walk s w d (take k segs) = Some m"
    by (metis bind_eq_Some_conv walk_append)
  moreover have "length (take k segs) = k" using segs(1) e(2) by simp
  ultimately have "tree_row_of (take k segs) m \<in> at_depth s w d k" unfolding at_depth_def by blast
  with e(1) show False by simp
qed

text \<open>The depths the query reports under a limit: always the first level.\<close>

definition within :: "nat option \<Rightarrow> nat \<Rightarrow> bool" where
  "within m j \<longleftrightarrow> (case m of None \<Rightarrow> True | Some m \<Rightarrow> j \<le> max m 1)"

lemma levels_ok:
  assumes ok: "tree_ok s" and d: "stored s w d"
  shows "set ds = at_depth s w d k \<Longrightarrow> distinct (map (\<lambda>r. n_id (tw_node r)) ds) \<Longrightarrow> 0 < k \<Longrightarrow>
    within m k \<Longrightarrow> at_depth s w d (k + fuel) = {} \<or> \<not> within m (k + fuel) \<Longrightarrow>
    \<exists>rows. levels s m fuel ds = Some rows \<and> distinct (map tree_key rows) \<and>
      set rows = (\<Union>j \<in> {j. k \<le> j \<and> within m j}. at_depth s w d j)"
proof (induction fuel arbitrary: ds k)
  case 0
  then have "at_depth s w d k = {}" by auto
  then have "ds = []" "(\<Union>j \<in> {j. k \<le> j \<and> within m j}. at_depth s w d j) = {}"
    using 0 at_depth_mono by auto
  then show ?case by simp
next
  case (Suc fuel)
  show ?case
  proof (cases ds)
    case Nil
    then have "at_depth s w d k = {}" using Suc.prems by auto
    then have "(\<Union>j \<in> {j. k \<le> j \<and> within m j}. at_depth s w d j) = {}" using at_depth_mono by auto
    with Nil show ?thesis by simp
  next
    case (Cons e es)
    have split: "{j. k \<le> j \<and> within m j} = insert k {j. Suc k \<le> j \<and> within m j}"
      using Suc.prems(4) by auto
    have depth: "tw_depth r = int k" if "r \<in> set ds" for r
      using that Suc.prems(1) by (auto simp: at_depth_def tree_row_of_def)
    have "\<exists>rows. levels s m fuel (level_next s m ds) = Some rows \<and> distinct (map tree_key rows) \<and>
        set rows = (\<Union>j \<in> {j. Suc k \<le> j \<and> within m j}. at_depth s w d j)"
    proof (cases "within m (Suc k)")
      case True
      then have "case m of None \<Rightarrow> True | Some m \<Rightarrow> k < m"
        using Suc.prems(3) by (auto simp: within_def split: option.splits)
      from level_next_set [OF ok d Suc.prems(1,3) this] level_next_distinct [OF ok Suc.prems(2)]
      show ?thesis by (intro Suc.IH) (use True Suc.prems(5) in simp_all)
    next
      case False
      then have "level_next s m ds = []"
        using depth by (auto simp: level_next_def within_def split: option.splits)
      moreover have none: "{j. Suc k \<le> j \<and> within m j} = {}"
        using False by (auto simp: within_def split: option.splits)
      moreover have "levels s m fuel [] = Some []" by (cases fuel) simp_all
      ultimately show ?thesis unfolding none by simp
    qed
    then obtain rows where rows: "levels s m fuel (level_next s m ds) = Some rows"
      "distinct (map tree_key rows)" "set rows = (\<Union>j \<in> {j. Suc k \<le> j \<and> within m j}. at_depth s w d j)"
      by blast
    have deeper: "tw_depth r > int k" if "r \<in> set rows" for r
      using that rows(3) by (auto simp: at_depth_def tree_row_of_def)
    have "distinct (map tree_key ds)"
      using Suc.prems(2) by (auto simp: distinct_map tree_key_def inj_on_def)
    moreover have "set (map tree_key ds) \<inter> set (map tree_key rows) = {}"
      using depth deeper by (fastforce simp: tree_key_def)
    ultimately have "distinct (map tree_key (ds @ rows))" using rows(2) by simp
    moreover have "levels s m (Suc fuel) ds = Some (ds @ rows)" using Cons rows(1) by simp
    ultimately show ?thesis using rows(3) Suc.prems(1) split by auto
  qed
qed

lemma descendants_ok:
  assumes ok: "tree_ok s" and d: "lookup_segs s w pp = Some d"
  shows "\<exists>rows. descendants s w (n_id d) m = Some rows \<and> distinct (map tree_key rows) \<and>
    set rows = {tree_row_of segs n | segs n. segs \<noteq> [] \<and> within m (length segs) \<and> walk s w d segs = Some n}"
proof -
  have st: "stored s w d" using d by (rule lookup_stored)
  define fuel where "fuel = (case m of None \<Rightarrow> Suc (length (nodes s)) | Some m \<Rightarrow> m + 2)"
  have "at_depth s w d (1 + fuel) = {} \<or> \<not> within m (1 + fuel)"
    using at_depth_bound [OF ok d, of "1 + fuel"]
    by (auto simp: fuel_def within_def split: option.split)
  from levels_ok [OF ok st level_one_set [OF ok st] level_one_distinct [OF ok] _ _ this]
  have "\<exists>rows. levels s m fuel (level_one s w (n_id d)) = Some rows \<and> distinct (map tree_key rows) \<and>
    set rows = (\<Union>j \<in> {j. 1 \<le> j \<and> within m j}. at_depth s w d j)"
    by (auto simp: within_def split: option.split)
  moreover have "(\<Union>j \<in> {j. 1 \<le> j \<and> within m j}. at_depth s w d j)
    = {tree_row_of segs n | segs n. segs \<noteq> [] \<and> within m (length segs) \<and> walk s w d segs = Some n}"
    by (auto simp: at_depth_def Suc_le_eq)
  ultimately show ?thesis by (simp add: descendants_def fuel_def)
qed


subsection \<open>tree serves the descendants by depth, then name\<close>

lemma vp_join_segs:
  assumes p: "canonical p" and segs: "segs \<noteq> []" "list_all valid_seg segs"
  shows "vp_join p (join_on slash segs) = Inr (path_of (vp_segments p @ segs))"
proof -
  have s: "split_on slash (join_on slash segs) = segs"
    using segs by (intro split_join_on) (auto simp: list_all_iff)
  have "nul \<notin> set (join_on slash segs)"
    using segs(2) by (auto simp: list_all_iff dest!: join_on_set)
  moreover have "\<not> prefix ''/'' (join_on slash segs)"
    using join_on_first [OF segs(1), of slash] segs(2) by (fastforce simp: list_all_iff)
  moreover have "foldl norm_step [] (vp_segments p @ segs) = vp_segments p @ segs"
    using p segs(2) by (subst norm_fold_valid) (auto simp: canonical_def)
  ultimately show ?thesis by (simp add: vp_join_def s normalize_def path_of_def del: foldl_append)
qed

type_synonym tree_query = "ext \<times> tree_cursor codec \<times> uuid \<times> virtual_path \<times> tree_options \<times> db"

definition tree_ready :: "tree_query \<Rightarrow> bool" where
  "tree_ready x = (case x of (E, C, w, path, options, s) \<Rightarrow>
     ext_ok E \<and> wf E s \<and> revisions_fit s \<and> codec_ok C \<and> canonical path \<and>
     (\<exists>d. resolve s w path = Some d \<and> n_kind d = DIRECTORY_KIND))"

definition tree_rows :: "tree_query \<Rightarrow> tree_row list" where
  "tree_rows x = (case x of (E, C, w, path, options, s) \<Rightarrow> (case resolve s w path of
     None \<Rightarrow> []
   | Some d \<Rightarrow> (case descendants s w (n_id d) (to_max_depth options) of
       None \<Rightarrow> []
     | Some rows \<Rightarrow> sort_key tree_key rows)))"

definition tree_cursor_of :: "tree_query \<Rightarrow> tree_row \<Rightarrow> string" where
  "tree_cursor_of x r = (case x of (E, C, w, path, options, s) \<Rightarrow> (case resolve s w path of
     None \<Rightarrow> ''''
   | Some d \<Rightarrow> encode_tree_cursor C w (n_id d) (tw_depth r) (n_name (tw_node r)) (n_id (tw_node r))))"

definition entry_of :: "tree_query \<Rightarrow> tree_row \<Rightarrow> tree_entry" where
  "entry_of x r = (case x of (E, C, w, path, options, s) \<Rightarrow>
     \<lparr>te_path = (case vp_join path (tw_relative_path r) of Inl _ \<Rightarrow> vp_root | Inr p \<Rightarrow> p),
      te_depth = nat (tw_depth r), te_node = node_of (tw_node r)\<rparr>)"

definition tree_serve :: "tree_query \<Rightarrow> nat \<Rightarrow> string option \<Rightarrow> tree_entry page fs_result" where
  "tree_serve x n c = (case x of (E, C, w, path, options, s) \<Rightarrow>
     (case tree_op E C w path options \<lparr>pr_cursor = c, pr_limit = n\<rparr> s of
        None \<Rightarrow> Inl (internal_storage_failure ''no result'')
      | Some r \<Rightarrow> r))"

lemma tree_readyE:
  assumes "tree_ready x"
  obtains E C w path options s d rows where "x = (E, C, w, path, options, s)"
    "ext_ok E" "wf E s" "revisions_fit s" "codec_ok C" "canonical path"
    "resolve s w path = Some d" "n_kind d = DIRECTORY_KIND"
    "descendants s w (n_id d) (to_max_depth options) = Some rows" "distinct (map tree_key rows)"
    "set rows = {tree_row_of segs n | segs n. segs \<noteq> [] \<and>
       within (to_max_depth options) (length segs) \<and> walk s w d segs = Some n}"
    "tree_rows x = sort_key tree_key rows"
proof -
  from assms obtain E C w path options s d where x: "x = (E, C, w, path, options, s)"
    "ext_ok E" "wf E s" "revisions_fit s" "codec_ok C" "canonical path"
    "resolve s w path = Some d" "n_kind d = DIRECTORY_KIND"
    by (cases x) (auto simp: tree_ready_def)
  from descendants_ok [OF wfD(2) [OF x(3)] x(7) [unfolded resolve_lookup], of "to_max_depth options"]
  obtain rows where "descendants s w (n_id d) (to_max_depth options) = Some rows"
    "distinct (map tree_key rows)"
    "set rows = {tree_row_of segs n | segs n. segs \<noteq> [] \<and>
       within (to_max_depth options) (length segs) \<and> walk s w d segs = Some n}" by blast
  with x show thesis by (intro that) (auto simp: tree_rows_def)
qed

lemma walk_lookup:
  "lookup_segs s w pp = Some d \<Longrightarrow> walk s w d segs = Some n \<Longrightarrow> lookup_segs s w (pp @ segs) = Some n"
  by (auto simp: lookup_segs_def walk_append split: option.splits)

lemma into_entry_ok:
  assumes x: "tree_ready x" and r: "r \<in> set (tree_rows x)"
    and x_def: "x = (E, C, w, path, options, s)"
  shows "into_entry E path r = Inr (entry_of x r)"
proof -
  from x obtain d rows where "ext_ok E" "wf E s" "revisions_fit s" "canonical path"
    and d: "resolve s w path = Some d"
    and rows: "set rows = {tree_row_of segs n | segs n. segs \<noteq> [] \<and>
       within (to_max_depth options) (length segs) \<and> walk s w d segs = Some n}"
      "tree_rows x = sort_key tree_key rows"
    by (rule tree_readyE) (auto simp: x_def)
  then obtain segs n where n: "r = tree_row_of segs n" "segs \<noteq> []" "walk s w d segs = Some n"
    using r by auto
  then have look: "lookup_segs s w (vp_segments path @ segs) = Some n"
    using walk_lookup d by (simp add: resolve_lookup)
  then have "list_all valid_seg segs"
    using lookup_segs_valid [OF wfD(2) [OF \<open>wf E s\<close>]] by fastforce
  with vp_join_segs [OF \<open>canonical path\<close> n(2)] n(1)
  have "vp_join path (tw_relative_path r) = Inr (path_of (vp_segments path @ segs))"
    by (simp add: tree_row_of_def)
  moreover obtain m where "m \<in> set (nodes s)" "n = map_row m"
    using lookup_visible [OF look] by (auto simp: visible_def)
  with into_node_ok [OF \<open>ext_ok E\<close> \<open>wf E s\<close> \<open>revisions_fit s\<close>] n(1)
  have "into_node E (tw_node r) = Inr (node_of (tw_node r))" by (simp add: tree_row_of_def)
  ultimately show ?thesis by (simp add: into_entry_def entry_of_def x_def)
qed

lemma tree_page:
  assumes x: "tree_ready x" and x_def: "x = (E, C, w, path, options, s)"
    and d: "resolve s w path = Some d" and n: "0 < n"
    and c: "(case c of Some raw \<Rightarrow> res_bind (decode_tree_cursor C raw w) (\<lambda>c. Inr (Some c))
             | None \<Rightarrow> Inr None) = Inr after"
    and after: "case after of Some c \<Rightarrow> tc_root_id c = n_id d | None \<Rightarrow> True"
    and pos: "pos = (case after of None \<Rightarrow> (0, '''', '''')
      | Some c \<Rightarrow> (tc_last_depth c, tc_last_name c, tc_last_id c))"
    and rows: "rows = filter (\<lambda>q. pos < tree_key q) (tree_rows x)"
  shows "tree_serve x n c = Inr (cut_page (entry_of x) (tree_cursor_of x) n rows)"
    "tree_op E C w path options \<lparr>pr_cursor = c, pr_limit = n\<rparr> s \<noteq> None"
proof -
  from x obtain all where E: "ext_ok E" "wf E s" "revisions_fit s" "canonical path"
    and dir: "n_kind d = DIRECTORY_KIND"
    and all: "descendants s w (n_id d) (to_max_depth options) = Some all"
      "tree_rows x = sort_key tree_key all"
    by (rule tree_readyE) (use d in \<open>auto simp: x_def\<close>)
  obtain ad an ai where p: "pos = (ad, an, ai)" by (cases pos) auto
  have key: "pos < tree_key q \<longleftrightarrow> tw_depth q > ad \<or> tw_depth q = ad \<and> n_name (tw_node q) > an
      \<or> tw_depth q = ad \<and> n_name (tw_node q) = an \<and> n_id (tw_node q) > ai" for q
    by (auto simp: p tree_key_def less_pair)
  have fetched: "fetch_tree_page s w (n_id d) (to_max_depth options) pos m = Some (take m rows)" for m
    by (simp add: fetch_tree_page_def all p rows filter_sort key [unfolded p])
  have sub: "set rows \<subseteq> set (tree_rows x)" by (auto simp: rows)
  have conv: "collect_results (map (into_entry E path) qs) = Inr (map (entry_of x) qs)"
    if "set qs \<subseteq> set (tree_rows x)" for qs
    using that into_entry_ok [OF x _ x_def] by (auto intro!: collect_results_map)
  have ok_after: "\<not> (case after of Some c \<Rightarrow> tc_root_id c \<noteq> n_id d | None \<Rightarrow> False)"
    using after by (cases after) auto
  have pos': "(case after of Some c \<Rightarrow> (tc_last_depth c, tc_last_name c, tc_last_id c)
      | None \<Rightarrow> (0, '''', '''')) = pos"
    by (cases after) (simp_all add: pos)
  have sub': "set (take n rows) \<subseteq> set (tree_rows x)" using sub set_take_subset by fast
  have cur: "tree_cursor_of x q = encode_tree_cursor C w (n_id d) (tw_depth q)
      (n_name (tw_node q)) (n_id (tw_node q))" for q
    by (simp add: tree_cursor_of_def d x_def)
  have "tree_op E C w path options \<lparr>pr_cursor = c, pr_limit = n\<rparr> s
      = Some (Inr (cut_page (entry_of x) (tree_cursor_of x) n rows))"
  proof (cases "length rows > n")
    case True
    then show ?thesis
      unfolding tree_op_def using conv [OF sub'] n
      by (simp add: c d dir pos' fetched cut_page_def min_def ok_after Let_def cur)
  next
    case False
    then show ?thesis
      unfolding tree_op_def using conv [OF sub] n
      by (simp add: c d dir pos' fetched cut_page_def ok_after Let_def)
  qed
  then show "tree_serve x n c = Inr (cut_page (entry_of x) (tree_cursor_of x) n rows)"
    "tree_op E C w path options \<lparr>pr_cursor = c, pr_limit = n\<rparr> s \<noteq> None"
    by (simp_all add: tree_serve_def x_def)
qed

interpretation tree: page_server tree_ready tree_rows tree_key tree_cursor_of entry_of tree_serve
proof unfold_locales
  fix x :: tree_query
  assume "tree_ready x"
  then show "sorted_wrt (\<lambda>r q. tree_key r < tree_key q) (tree_rows x)"
    by (rule tree_readyE) (simp add: sorted_wrt_sort_key)
next
  fix x :: tree_query and n :: nat
  assume r: "tree_ready x" and n: "0 < n"
  from r obtain E C w path options s d rows where x: "x = (E, C, w, path, options, s)"
    and d: "resolve s w path = Some d" and rows: "tree_rows x = sort_key tree_key rows"
      "set rows = {tree_row_of segs n | segs n. segs \<noteq> [] \<and>
       within (to_max_depth options) (length segs) \<and> walk s w d segs = Some n}"
    by (rule tree_readyE) blast
  have "(0, '''', '''') < tree_key q" if "q \<in> set (tree_rows x)" for q
    using that rows by (auto simp: tree_key_def tree_row_of_def less_pair)
  then have "filter (\<lambda>q. (0, '''', '''') < tree_key q) (tree_rows x) = tree_rows x"
    by (simp add: filter_id_conv)
  with tree_page(1) [OF r x d n, of None None] show
    "tree_serve x n None = Inr (cut_page (entry_of x) (tree_cursor_of x) n (tree_rows x))"
    by simp
next
  fix x :: tree_query and n :: nat and r
  assume rd: "tree_ready x" and n: "0 < n" and r: "r \<in> set (tree_rows x)"
  from rd obtain E C w path options s d where x: "x = (E, C, w, path, options, s)"
    and d: "resolve s w path = Some d" and C: "codec_ok C"
    by (rule tree_readyE) blast
  show "tree_serve x n (Some (tree_cursor_of x r)) = Inr (cut_page (entry_of x) (tree_cursor_of x) n
      (filter (\<lambda>q. tree_key r < tree_key q) (tree_rows x)))"
    using tree_page(1) [OF rd x d n, of "Some (tree_cursor_of x r)"
        "Some \<lparr>tc_v = 1, tc_workspace_id = w, tc_root_id = n_id d, tc_last_depth = tw_depth r,
               tc_last_name = n_name (tw_node r), tc_last_id = n_id (tw_node r)\<rparr>"] C
    by (simp add: x tree_cursor_of_def d encode_tree_cursor_def decode_tree_cursor_def tree_key_def)
qed


end
