(* ===== verification/Chunks.thy ===== *)
theory Chunks
  imports Effects
begin

text \<open>
  The lower half of \<open>fslite-sqlite/src/content.rs\<close>: generations and chunks, the chunk writer
  that stages a byte stream into a new generation, and the chunk range reader. Each
  statement of the writer runs in a call of its own, so what it staged stays in the store
  until the writer aborts. A byte stream is the finite list of what it yields. Lengths are
  natural numbers: \<open>u64\<close> lengths do not wrap below 2^64 bytes of one file.
\<close>

definition chunk_index_of :: "nat \<Rightarrow> int" where
  "chunk_index_of offset = int (offset div CHUNK_SIZE)"

definition chunk_local_offset :: "nat \<Rightarrow> nat" where
  "chunk_local_offset offset = offset mod CHUNK_SIZE"

subsection \<open>Statements on generations and chunks\<close>

definition create_generation :: "ext \<Rightarrow> uuid \<Rightarrow> db \<Rightarrow> (uuid \<times> db) option" where
  "create_generation E w s =
     (let (i, s) = new_id E s;
          (now, s) = now_ms E s
      in do {
        s \<leftarrow> insert_generation \<lparr>g_id = i, g_workspace_id = w, g_complete = 0, g_length = 0,
               g_created_at_ms = now\<rparr> s;
        Some (i, s) })"

definition upsert_chunk :: "uuid \<Rightarrow> int \<Rightarrow> byte list \<Rightarrow> db \<Rightarrow> db option" where
  "upsert_chunk g i bytes s =
     (if list_ex (\<lambda>c. c_generation_id c = g \<and> c_chunk_index c = i) (chunks s)
      then checked (s\<lparr>chunks := map (\<lambda>c. if c_generation_id c = g \<and> c_chunk_index c = i
                                         then c\<lparr>c_bytes := bytes\<rparr> else c) (chunks s)\<rparr>)
      else insert_chunks [\<lparr>c_generation_id = g, c_chunk_index = i, c_bytes = bytes\<rparr>] s)"

definition copy_chunk_range :: "uuid \<Rightarrow> uuid \<Rightarrow> int \<Rightarrow> int \<Rightarrow> db \<Rightarrow> db option" where
  "copy_chunk_range from_g to_g from_index to_index s =
     insert_chunks
       (map (\<lambda>c. c\<lparr>c_generation_id := to_g\<rparr>)
         (filter (\<lambda>c. c_generation_id c = from_g \<and> c_chunk_index c \<ge> from_index
                      \<and> c_chunk_index c < to_index) (chunks s))) s"

definition fetch_chunk_bytes :: "db \<Rightarrow> uuid \<Rightarrow> int \<Rightarrow> byte list" where
  "fetch_chunk_bytes s g i = (case chunk_at s g i of None \<Rightarrow> [] | Some bs \<Rightarrow> bs)"

definition finalize_generation :: "uuid \<Rightarrow> nat \<Rightarrow> db \<Rightarrow> db option" where
  "finalize_generation g len s =
     update_generation g (\<lambda>q. q\<lparr>g_complete := 1, g_length := int len\<rparr>) s"

definition delete_generation :: "uuid \<Rightarrow> db \<Rightarrow> db option" where
  "delete_generation g s = delete_generations (\<lambda>q. g_id q = g) s"

definition fetch_max_file_bytes :: "db \<Rightarrow> uuid \<Rightarrow> int option" where
  "fetch_max_file_bytes s w = map_option w_max_file_bytes (find (\<lambda>r. w_id r = w) (workspaces s))"

text \<open>A statement without a value on the connection.\<close>

definition run_stmt :: "(db \<Rightarrow> db option) \<Rightarrow> db \<Rightarrow> unit fs_result \<times> db" where
  "run_stmt f s = conn_call (\<lambda>s. map_option (\<lambda>t. ((), t)) (f s)) s"

lemma run_stmt_Some: "f s = Some t \<Longrightarrow> run_stmt f s = (Inr (), t)"
  by (simp add: run_stmt_def conn_call_def)

subsection \<open>The chunk writer\<close>

record chunk_writer =
  cw_generation_id :: uuid
  cw_max_file_bytes :: nat
  cw_next_chunk_index :: int
  cw_committed_len :: nat
  cw_buffer :: "byte list"

definition new_writer :: "uuid \<Rightarrow> nat \<Rightarrow> chunk_writer" where
  "new_writer g max_file_bytes =
     \<lparr>cw_generation_id = g, cw_max_file_bytes = max_file_bytes, cw_next_chunk_index = 0,
      cw_committed_len = 0, cw_buffer = []\<rparr>"

definition total_len :: "chunk_writer \<Rightarrow> nat" where
  "total_len cw = cw_committed_len cw + length (cw_buffer cw)"

definition skip_committed_chunks :: "int \<Rightarrow> chunk_writer \<Rightarrow> chunk_writer" where
  "skip_committed_chunks n cw =
     cw\<lparr>cw_next_chunk_index := cw_next_chunk_index cw + n,
        cw_committed_len := cw_committed_len cw + nat n * CHUNK_SIZE\<rparr>"

definition flush_full_buffer :: "chunk_writer \<Rightarrow> db \<Rightarrow> unit fs_result \<times> chunk_writer \<times> db" where
  "flush_full_buffer cw s =
     (let chunk = cw_buffer cw;
          cw = cw\<lparr>cw_buffer := []\<rparr>
      in (case run_stmt (upsert_chunk (cw_generation_id cw) (cw_next_chunk_index cw) chunk) s of
            (Inl e, s) \<Rightarrow> (Inl e, cw, s)
          | (Inr _, s) \<Rightarrow>
              (Inr (), cw\<lparr>cw_committed_len := cw_committed_len cw + CHUNK_SIZE,
                          cw_next_chunk_index := cw_next_chunk_index cw + 1\<rparr>, s)))"

lemma flush_buffer: "flush_full_buffer cw s = (r, cw', s') \<Longrightarrow> cw_buffer cw' = []"
  by (auto simp: flush_full_buffer_def Let_def split: prod.splits sum.splits)

text \<open>
  \<open>CHUNK_SIZE - self.buffer.len()\<close> underflows, which is a panic, on a buffer longer than a
  chunk; the writer never holds one.
\<close>

function write_bytes ::
    "chunk_writer \<Rightarrow> byte list \<Rightarrow> db \<Rightarrow> unit fs_result \<times> chunk_writer \<times> db" where
  "write_bytes cw bytes s =
     (if bytes = [] then (Inr (), cw, s)
      else if length (cw_buffer cw) > CHUNK_SIZE
      then (Inl (internal_storage_failure ''panic''), cw, s)
      else
        let space = CHUNK_SIZE - length (cw_buffer cw);
            n = min space (length bytes);
            cw' = cw\<lparr>cw_buffer := cw_buffer cw @ take n bytes\<rparr>;
            rest = drop n bytes
        in if total_len cw' > cw_max_file_bytes cw'
           then (Inl (quota_exceeded (''file would exceed the workspace'' @ [CHR 0x27] @ ''s ''
                        @ show_nat (cw_max_file_bytes cw') @ ''-byte file quota'')), cw', s)
           else if length (cw_buffer cw') = CHUNK_SIZE
           then (case flush_full_buffer cw' s of
                   (Inl e, cw'', s') \<Rightarrow> (Inl e, cw'', s')
                 | (Inr _, cw'', s') \<Rightarrow> write_bytes cw'' rest s')
           else write_bytes cw' rest s)"
  by pat_completeness auto
termination
proof (relation "measures [\<lambda>(cw, bytes, s). length bytes, \<lambda>(cw, bytes, s). length (cw_buffer cw)]")
  fix cw :: chunk_writer and bytes :: "byte list" and s n x y z u v space cw' rest a b
  assume "bytes \<noteq> []" "\<not> CHUNK_SIZE < length (cw_buffer cw)" "space = CHUNK_SIZE - length (cw_buffer cw)"
    "n = min space (length bytes)" "cw' = cw\<lparr>cw_buffer := cw_buffer cw @ take n bytes\<rparr>"
    "rest = drop n bytes" "length (cw_buffer cw') \<noteq> CHUNK_SIZE"
  then show "((cw', rest, s), cw, bytes, s) \<in> measures
    [\<lambda>(cw, bytes, s). length bytes, \<lambda>(cw, bytes, s). length (cw_buffer cw)]"
    by (cases "n = 0") (auto simp: min_def split: if_splits)
qed (auto simp: min_def dest!: flush_buffer [OF sym] split: if_splits)

declare write_bytes.simps [simp del]

text \<open>Sequencing a step of the writer that may fail.\<close>

definition cw_bind ::
  "unit fs_result \<times> chunk_writer \<times> db \<Rightarrow>
   (chunk_writer \<Rightarrow> db \<Rightarrow> unit fs_result \<times> chunk_writer \<times> db) \<Rightarrow>
   unit fs_result \<times> chunk_writer \<times> db" where
  "cw_bind r f = (case r of
     (Inl e, cw, s) \<Rightarrow> (Inl e, cw, s)
   | (Inr _, cw, s) \<Rightarrow> f cw s)"

lemma cw_bind_simps [simp]:
  "cw_bind (Inl e, cw, s) f = (Inl e, cw, s)" "cw_bind (Inr u, cw, s) f = f cw s"
  by (simp_all add: cw_bind_def)

definition finish_writer :: "chunk_writer \<Rightarrow> db \<Rightarrow> (uuid \<times> nat) fs_result \<times> db" where
  "finish_writer cw s =
     (if cw_buffer cw \<noteq> [] then
        (case run_stmt (upsert_chunk (cw_generation_id cw) (cw_next_chunk_index cw) (cw_buffer cw)) s of
           (Inl e, s) \<Rightarrow> (Inl e, s)
         | (Inr _, s) \<Rightarrow>
             (Inr (cw_generation_id cw, cw_committed_len cw + length (cw_buffer cw)), s))
      else (Inr (cw_generation_id cw, cw_committed_len cw), s))"

definition abort_writer :: "chunk_writer \<Rightarrow> db \<Rightarrow> db" where
  "abort_writer cw s = snd (run_stmt (delete_generation (cw_generation_id cw)) s)"

definition copy_prefix_from ::
    "uuid \<Rightarrow> nat \<Rightarrow> chunk_writer \<Rightarrow> db \<Rightarrow> unit fs_result \<times> chunk_writer \<times> db" where
  "copy_prefix_from old_generation upto_pos cw s =
     (if upto_pos = 0 then (Inr (), cw, s)
      else
        let whole_chunks = chunk_index_of upto_pos
        in cw_bind
          (if whole_chunks > 0 then
             (case run_stmt (copy_chunk_range old_generation (cw_generation_id cw) 0 whole_chunks) s of
                (Inl e, s) \<Rightarrow> (Inl e, cw, s)
              | (Inr _, s) \<Rightarrow> (Inr (), skip_committed_chunks whole_chunks cw, s))
           else (Inr (), cw, s)) (\<lambda>cw s.
          let remainder = chunk_local_offset upto_pos
          in if remainder > 0 then
               let bytes = fetch_chunk_bytes s old_generation whole_chunks;
                   keep = min remainder (length bytes)
               in write_bytes cw (take keep bytes) s
             else (Inr (), cw, s)))"

text \<open>The loop over \<open>start_chunk..=end_chunk\<close>.\<close>

fun copy_suffix_chunks ::
    "uuid \<Rightarrow> nat \<Rightarrow> nat \<Rightarrow> int list \<Rightarrow> chunk_writer \<Rightarrow> db \<Rightarrow> unit fs_result \<times> chunk_writer \<times> db" where
  "copy_suffix_chunks old_generation from_pos to_pos [] cw s = (Inr (), cw, s)"
| "copy_suffix_chunks old_generation from_pos to_pos (index # indices) cw s =
     (let chunk = fetch_chunk_bytes s old_generation index;
          chunk = (if index = chunk_index_of (to_pos - 1)
                   then take (min (chunk_local_offset (to_pos - 1) + 1) (length chunk)) chunk
                   else chunk);
          chunk = (if index = chunk_index_of from_pos
                   then drop (min (chunk_local_offset from_pos) (length chunk)) chunk else chunk)
      in cw_bind (write_bytes cw chunk s)
           (copy_suffix_chunks old_generation from_pos to_pos indices))"

definition copy_suffix_from ::
    "uuid \<Rightarrow> nat \<Rightarrow> nat \<Rightarrow> chunk_writer \<Rightarrow> db \<Rightarrow> unit fs_result \<times> chunk_writer \<times> db" where
  "copy_suffix_from old_generation from_pos to_pos cw s =
     (if from_pos \<ge> to_pos then (Inr (), cw, s)
      else copy_suffix_chunks old_generation from_pos to_pos
             [chunk_index_of from_pos..chunk_index_of (to_pos - 1)] cw s)"

function zero_fill :: "nat \<Rightarrow> chunk_writer \<Rightarrow> db \<Rightarrow> unit fs_result \<times> chunk_writer \<times> db" where
  "zero_fill remaining cw s =
     (if remaining > 0 then
        let piece = min remaining CHUNK_SIZE
        in cw_bind (write_bytes cw (replicate piece 0) s) (zero_fill (remaining - piece))
      else (Inr (), cw, s))"
  by pat_completeness auto
termination
  by (relation "measure (\<lambda>(remaining, cw, s). remaining)") auto

declare zero_fill.simps [simp del]

text \<open>Draining a byte stream into the writer.\<close>

fun drain_source ::
    "byte list fs_result list \<Rightarrow> chunk_writer \<Rightarrow> db \<Rightarrow> unit fs_result \<times> chunk_writer \<times> db" where
  "drain_source [] cw s = (Inr (), cw, s)"
| "drain_source (Inl err # rest) cw s = (Inl err, cw, s)"
| "drain_source (Inr bytes # rest) cw s = cw_bind (write_bytes cw bytes s) (drain_source rest)"

definition stage_source ::
    "uuid \<Rightarrow> nat \<Rightarrow> byte list fs_result list \<Rightarrow> db \<Rightarrow> (uuid \<times> nat) fs_result \<times> db" where
  "stage_source generation_id max_file_bytes source s =
     (case drain_source source (new_writer generation_id max_file_bytes) s of
        (Inl err, cw, s) \<Rightarrow> (Inl err, abort_writer cw s)
      | (Inr _, cw, s) \<Rightarrow> finish_writer cw s)"

subsection \<open>Reading a range of chunks\<close>

text \<open>The items the stream of \<open>chunk_range_stream\<close> yields when it is read from the store \<open>s\<close>.\<close>

fun range_chunks :: "db \<Rightarrow> uuid \<Rightarrow> nat \<Rightarrow> nat \<Rightarrow> int list \<Rightarrow> byte list list" where
  "range_chunks s g start_pos end_pos [] = []"
| "range_chunks s g start_pos end_pos (index # indices) =
     (let bytes = fetch_chunk_bytes s g index;
          bytes = (if index = chunk_index_of (end_pos - 1)
                   then take (min (chunk_local_offset (end_pos - 1) + 1) (length bytes)) bytes
                   else bytes);
          bytes = (if index = chunk_index_of start_pos
                   then drop (min (chunk_local_offset start_pos) (length bytes)) bytes else bytes)
      in bytes # range_chunks s g start_pos end_pos indices)"

definition chunk_range_stream :: "db \<Rightarrow> uuid \<Rightarrow> nat \<Rightarrow> nat \<Rightarrow> byte list list" where
  "chunk_range_stream s g start_pos end_pos =
     range_chunks s g start_pos end_pos [chunk_index_of start_pos..chunk_index_of (end_pos - 1)]"

subsection \<open>The bytes of a generation\<close>

lemma fetch_chunk_holds: "gen_holds s g bs \<Longrightarrow> fetch_chunk_bytes s g i = (case chunk_of bs i of None \<Rightarrow> [] | Some c \<Rightarrow> c)"
  by (simp add: fetch_chunk_bytes_def gen_holds_def)

text \<open>Concatenating the chunks of a range of indices gives the bytes they cover.\<close>

lemma chunk_bytes:
  "(case chunk_of bs (int k) of None \<Rightarrow> [] | Some c \<Rightarrow> c) = take CHUNK_SIZE (drop (k * CHUNK_SIZE) bs)"
  by (simp add: chunk_of_def)

lemma upto_int_Cons: "i \<le> j \<Longrightarrow> [int i..int j] = int i # [int (Suc i)..int j]"
  by (simp add: upto_rec1 add.commute)


text \<open>The part of the chunk \<open>i\<close> that falls in the range from \<open>a\<close> to \<open>b\<close>.\<close>

definition clip :: "nat \<Rightarrow> nat \<Rightarrow> int \<Rightarrow> byte list \<Rightarrow> byte list" where
  "clip a b index bytes =
     (let bytes = (if index = chunk_index_of (b - 1)
                   then take (min (chunk_local_offset (b - 1) + 1) (length bytes)) bytes else bytes)
      in if index = chunk_index_of a
         then drop (min (chunk_local_offset a) (length bytes)) bytes else bytes)"

lemma range_chunks_clip:
  "range_chunks s g a b is = map (\<lambda>i. clip a b i (fetch_chunk_bytes s g i)) is"
  by (induction "is") (simp_all add: clip_def Let_def)

lemma clip_chunk:
  assumes ab: "a < b" and i: "a div CHUNK_SIZE \<le> i" "i \<le> (b - 1) div CHUNK_SIZE"
  shows "clip a b (int i) (take CHUNK_SIZE (drop (i * CHUNK_SIZE) bs))
    = take (min b (Suc i * CHUNK_SIZE) - max a (i * CHUNK_SIZE)) (drop (max a (i * CHUNK_SIZE)) bs)"
proof -
  define C where "C = CHUNK_SIZE"
  have C: "0 < C" by (simp add: C_def)
  let ?x = "take C (drop (i * C) bs)"
  let ?y = "take (min b (Suc i * C) - i * C) (drop (i * C) bs)"
  have y: "(if int i = chunk_index_of (b - 1)
      then take (min (chunk_local_offset (b - 1) + 1) (length ?x)) ?x else ?x) = ?y"
  proof (cases "i = (b - 1) div C")
    case True
    have m: "(b - 1) mod C < C" using C by simp
    have "b - 1 = i * C + (b - 1) mod C" using True by simp
    then have "b = i * C + ((b - 1) mod C + 1)" using ab by linarith
    then have "min b (Suc i * C) - i * C = (b - 1) mod C + 1" using m by simp
    moreover have "take (min ((b - 1) mod C + 1) (length ?x)) ?x = take ((b - 1) mod C + 1) ?x"
      by (simp add: min_def)
    moreover have "take ((b - 1) mod C + 1) ?x = take ((b - 1) mod C + 1) (drop (i * C) bs)"
      using m by (simp add: min_def)
    moreover have "int i = chunk_index_of (b - 1)"
      unfolding chunk_index_of_def C_def [symmetric] of_nat_eq_iff by (rule True)
    moreover have "chunk_local_offset (b - 1) = (b - 1) mod C" by (simp only: chunk_local_offset_def C_def)
    ultimately show ?thesis by (simp only: simp_thms if_True)
  next
    case False
    with i(2) have "Suc i \<le> (b - 1) div C" by (simp add: C_def)
    then have "Suc i * C \<le> b - 1" using C by (simp only: less_eq_div_iff_mult_less_eq)
    then have "Suc i * C \<le> b" by linarith
    then have "min b (Suc i * C) - i * C = C" by (simp only: min.absorb2) simp
    with False show ?thesis by (simp add: chunk_index_of_def C_def)
  qed
  have z: "(if int i = chunk_index_of a then drop (min (chunk_local_offset a) (length ?y)) ?y else ?y)
      = take (min b (Suc i * C) - max a (i * C)) (drop (max a (i * C)) bs)"
  proof (cases "i = a div C")
    case True
    have a: "a = a mod C + i * C" using True by simp
    then have mx: "max a (i * C) = a" by linarith
    have "drop (min (a mod C) (length ?y)) ?y = drop (a mod C) ?y" by (simp add: min_def)
    also have "\<dots> = take (min b (Suc i * C) - i * C - a mod C) (drop (a mod C + i * C) bs)"
      by (simp add: drop_take)
    also have "\<dots> = take (min b (Suc i * C) - a) (drop a bs)"
      using a by (metis add.commute diff_diff_left)
    finally have "drop (min (a mod C) (length ?y)) ?y = take (min b (Suc i * C) - a) (drop a bs)" .
    moreover have "int i = chunk_index_of a"
      unfolding chunk_index_of_def C_def [symmetric] of_nat_eq_iff by (rule True)
    moreover have "chunk_local_offset a = a mod C" by (simp only: chunk_local_offset_def C_def)
    ultimately show ?thesis by (simp only: simp_thms if_True mx)
  next
    case False
    with i(1) have "a div C < i" by (simp add: C_def)
    then have "a < i * C" using C by (simp add: less_mult_imp_div_less div_less_iff_less_mult)
    then have "max a (i * C) = i * C" by simp
    with False show ?thesis by (simp add: chunk_index_of_def C_def)
  qed
  show ?thesis
    unfolding clip_def Let_def C_def [symmetric] y z ..
qed

lemma clip_concat:
  assumes ab: "a < b"
  shows "a div CHUNK_SIZE \<le> i \<Longrightarrow> i \<le> Suc ((b - 1) div CHUNK_SIZE) \<Longrightarrow>
    concat (map (\<lambda>k. clip a b k (case chunk_of bs k of None \<Rightarrow> [] | Some c \<Rightarrow> c))
      [int i..int ((b - 1) div CHUNK_SIZE)])
    = take (b - max a (i * CHUNK_SIZE)) (drop (max a (i * CHUNK_SIZE)) bs)"
proof (induction "Suc ((b - 1) div CHUNK_SIZE) - i" arbitrary: i)
  case 0
  define e where "e = (b - 1) div CHUNK_SIZE"
  from 0 have i: "i = Suc e" by (simp add: e_def)
  have "b - 1 < Suc e * CHUNK_SIZE"
    unfolding e_def by (metis CHUNK_SIZE_pos div_less_iff_less_mult lessI)
  then have "b \<le> max a (i * CHUNK_SIZE)" unfolding i by linarith
  then show ?case by (simp add: i e_def)
next
  case (Suc n)
  define e where "e = (b - 1) div CHUNK_SIZE"
  have ie: "i \<le> e" using Suc.hyps(2) by (simp add: e_def)
  have ai: "a < Suc i * CHUNK_SIZE"
    using Suc.prems(1) by (metis CHUNK_SIZE_pos div_less_iff_less_mult le_imp_less_Suc)
  then have mx: "max a (Suc i * CHUNK_SIZE) = Suc i * CHUNK_SIZE" by simp
  have IH: "concat (map (\<lambda>k. clip a b k (case chunk_of bs k of None \<Rightarrow> [] | Some c \<Rightarrow> c)) [int (Suc i)..int e])
    = take (b - Suc i * CHUNK_SIZE) (drop (Suc i * CHUNK_SIZE) bs)"
    using Suc.hyps(1) [of "Suc i"] Suc.hyps(2) Suc.prems ie mx by (simp add: e_def)
  define lo where "lo = max a (i * CHUNK_SIZE)"
  define hi where "hi = min b (Suc i * CHUNK_SIZE)"
  have "i * CHUNK_SIZE \<le> e * CHUNK_SIZE" using ie by simp
  also have "\<dots> \<le> b - 1" by (simp add: e_def)
  finally have lohi: "lo \<le> hi" using ab ai by (simp add: lo_def hi_def)
  have "clip a b (int i) (case chunk_of bs (int i) of None \<Rightarrow> [] | Some c \<Rightarrow> c) = take (hi - lo) (drop lo bs)"
    unfolding chunk_bytes lo_def hi_def using clip_chunk [OF ab Suc.prems(1)] ie by (simp add: e_def)
  moreover have "take (hi - lo) (drop lo bs) @ take (b - Suc i * CHUNK_SIZE) (drop (Suc i * CHUNK_SIZE) bs)
      = take (b - lo) (drop lo bs)"
  proof (cases "b \<le> Suc i * CHUNK_SIZE")
    case True
    then show ?thesis by (simp add: hi_def)
  next
    case False
    then have hi: "hi = Suc i * CHUNK_SIZE" by (simp add: hi_def)
    have "take (b - lo) (drop lo bs) = take ((hi - lo) + (b - hi)) (drop lo bs)"
      using lohi False hi by simp
    also have "\<dots> = take (hi - lo) (drop lo bs) @ take (b - hi) (drop (hi - lo) (drop lo bs))"
      by (rule take_add)
    finally show ?thesis using lohi by (simp add: hi)
  qed
  ultimately show ?case
    using IH ie unfolding e_def [symmetric] lo_def [symmetric] by (simp add: upto_int_Cons)
qed

text \<open>Reading a range of a stored file returns the bytes of the range.\<close>

theorem chunk_range_bytes:
  assumes "gen_holds s g bs" "a < b"
  shows "concat (chunk_range_stream s g a b) = take (b - a) (drop a bs)"
proof -
  have "a div CHUNK_SIZE \<le> (b - 1) div CHUNK_SIZE" using assms(2) by (intro div_le_mono) simp
  then have "concat (map (\<lambda>k. clip a b k (case chunk_of bs k of None \<Rightarrow> [] | Some c \<Rightarrow> c))
      [int (a div CHUNK_SIZE)..int ((b - 1) div CHUNK_SIZE)])
    = take (b - max a (a div CHUNK_SIZE * CHUNK_SIZE)) (drop (max a (a div CHUNK_SIZE * CHUNK_SIZE)) bs)"
    by (intro clip_concat [OF assms(2)]) simp_all
  moreover have "max a (a div CHUNK_SIZE * CHUNK_SIZE) = a" by (simp add: max.absorb1)
  ultimately show ?thesis
    unfolding chunk_range_stream_def range_chunks_clip fetch_chunk_holds [OF assms(1)]
    by (simp add: chunk_index_of_def)
qed


end
