(* ===== verification/Staging.thy ===== *)
theory Staging
  imports Chunks
begin

text \<open>
  What the chunk writer does to the store while it stages a generation no file refers to yet:
  only the chunks of that generation change, they are always a prefix of the bytes written, the
  file quota is checked at every step, and deleting the generation takes everything back.
\<close>

subsection \<open>A generation in staging\<close>

definition spare :: "db \<Rightarrow> uuid \<Rightarrow> uuid \<Rightarrow> bool" where
  "spare s w g \<longleftrightarrow>
     (\<exists>q \<in> set (generations s). g_id q = g \<and> g_workspace_id q = w) \<and>
     (\<forall>r \<in> set (nodes s). n_content_generation_id r \<noteq> Some g)"

text \<open>\<open>staged g s t\<close>: the stores differ in the chunks of \<open>g\<close> at most.\<close>

definition staged :: "uuid \<Rightarrow> db \<Rightarrow> db \<Rightarrow> bool" where
  "staged g s t \<longleftrightarrow> t = s\<lparr>chunks := chunks t\<rparr> \<and>
     filter (\<lambda>c. c_generation_id c \<noteq> g) (chunks t) = filter (\<lambda>c. c_generation_id c \<noteq> g) (chunks s)"

lemma staged_refl [simp]: "staged g s s"
  by (simp add: staged_def)

lemma staged_trans: "staged g s t \<Longrightarrow> staged g t u \<Longrightarrow> staged g s u"
  unfolding staged_def by (metis db.update_convs(4) db.select_convs(4) db.surjective)

lemma staged_fields:
  assumes "staged g s t"
  shows "nodes t = nodes s" "generations t = generations s" "workspaces t = workspaces s"
    "attributes t = attributes s" "trash_rows t = trash_rows s" "changes t = changes s"
    "ids_used t = ids_used s" "clock_reads t = clock_reads s"
proof -
  have t: "t = s\<lparr>chunks := chunks t\<rparr>" using assms by (simp add: staged_def)
  from arg_cong [OF t, of nodes] show "nodes t = nodes s" by simp
  from arg_cong [OF t, of generations] show "generations t = generations s" by simp
  from arg_cong [OF t, of workspaces] show "workspaces t = workspaces s" by simp
  from arg_cong [OF t, of attributes] show "attributes t = attributes s" by simp
  from arg_cong [OF t, of trash_rows] show "trash_rows t = trash_rows s" by simp
  from arg_cong [OF t, of changes] show "changes t = changes s" by simp
  from arg_cong [OF t, of ids_used] show "ids_used t = ids_used s" by simp
  from arg_cong [OF t, of clock_reads] show "clock_reads t = clock_reads s" by simp
qed

lemma chunk_at_other:
  "filter (\<lambda>c. c_generation_id c \<noteq> g) (chunks t) = filter (\<lambda>c. c_generation_id c \<noteq> g) (chunks s) \<Longrightarrow>
    h \<noteq> g \<Longrightarrow> chunk_at t h i = chunk_at s h i"
proof -
  assume f: "filter (\<lambda>c. c_generation_id c \<noteq> g) (chunks t) = filter (\<lambda>c. c_generation_id c \<noteq> g) (chunks s)"
    and h: "h \<noteq> g"
  have e: "find (\<lambda>c. c_generation_id c = h \<and> c_chunk_index c = i) xs
      = find (\<lambda>c. c_generation_id c = h \<and> c_chunk_index c = i) (filter (\<lambda>c. c_generation_id c \<noteq> g) xs)" for xs
    using h by (induction xs) auto
  show ?thesis
    unfolding chunk_at_def e [of "chunks t"] e [of "chunks s"] f ..
qed

lemma staged_other: "staged g s t \<Longrightarrow> h \<noteq> g \<Longrightarrow> chunk_at t h i = chunk_at s h i"
  unfolding staged_def by (blast intro: chunk_at_other)

lemma staged_holds: "staged g s t \<Longrightarrow> h \<noteq> g \<Longrightarrow> gen_holds s h bs \<Longrightarrow> gen_holds t h bs"
  by (simp add: gen_holds_def staged_other)

lemma staged_fetch: "staged g s t \<Longrightarrow> h \<noteq> g \<Longrightarrow> fetch_chunk_bytes t h i = fetch_chunk_bytes s h i"
  by (simp add: fetch_chunk_bytes_def staged_other)

lemma staged_spare: "staged g s t \<Longrightarrow> spare s w h \<Longrightarrow> spare t w h"
  by (simp add: spare_def staged_fields)

text \<open>The chunks of a generation in staging are free to change.\<close>

lemma wf_staged:
  assumes ok: "wf E s" and g: "spare s w g" and t: "staged g s t"
    and pk: "distinct (map (\<lambda>c. (c_generation_id c, c_chunk_index c)) (chunks t))"
  shows "wf E t"
proof -
  note f = staged_fields [OF t]
  have in_g: "c_generation_id c \<in> g_id ` set (generations s)" if "c \<in> set (chunks t)" for c
  proof (cases "c_generation_id c = g")
    case True
    with g show ?thesis unfolding spare_def by (metis imageI)
  next
    case False
    with that have "c \<in> set (filter (\<lambda>c. c_generation_id c \<noteq> g) (chunks t))" by simp
    then have "c \<in> set (chunks s)" using t unfolding staged_def by auto
    then show ?thesis using schema_parts(6) [OF wfD(1) [OF ok]] unfolding fk_ok_iff by blast
  qed
  have "schema_ok t"
    using wfD(1) [OF ok] pk in_g unfolding schema_ok_def pk_ok_def unique_ok_def fk_ok_iff f by blast
  moreover have "tree_ok t" using wfD(2) [OF ok] by (subst tree_ok_cong [of t s]) (simp_all add: f)
  moreover have "log_ok t" using wfD(3) [OF ok] log_ok_cong [of t s] by (simp add: f)
  moreover have "content_ok t"
    by (rule content_frame [OF wfD(4) [OF ok]])
      (use g in \<open>auto simp: f spare_def intro!: staged_other [OF t]\<close>)
  moreover have "trash_ok t" using wfD(5) [OF ok] trash_ok_cong [of t s] by (simp add: f)
  moreover have "ids_ok E t" using wfD(6) [OF ok] by (simp add: ids_ok_def used_ids_def f)
  ultimately show ?thesis by (simp add: wf_def)
qed

lemma chunk_pk: "wf E s \<Longrightarrow> distinct (map (\<lambda>c. (c_generation_id c, c_chunk_index c)) (chunks s))"
  by (auto simp: schema_ok_def pk_ok_def dest!: wfD(1))

subsection \<open>Writing one chunk\<close>

lemma find_map_upd:
  "find P (map (\<lambda>c. if P c then f c else c) xs) = map_option f (find P xs)"
  if "\<And>c. P (f c) = P c"
  using that by (induction xs) auto

lemma upsert_chunk_ok:
  assumes ok: "wf E s" and g: "spare s w g"
  obtains t where "upsert_chunk g i bytes s = Some t" "wf E t" "staged g s t"
    "\<And>j. chunk_at t g j = (if j = i then Some bytes else chunk_at s g j)"
proof (cases "list_ex (\<lambda>c. c_generation_id c = g \<and> c_chunk_index c = i) (chunks s)")
  case True
  let ?f = "\<lambda>c. if c_generation_id c = g \<and> c_chunk_index c = i then c\<lparr>c_bytes := bytes\<rparr> else c"
  let ?t = "s\<lparr>chunks := map ?f (chunks s)\<rparr>"
  have key: "c_generation_id (?f c) = c_generation_id c" "c_chunk_index (?f c) = c_chunk_index c" for c
    by simp_all
  have keys: "map (\<lambda>c. (c_generation_id c, c_chunk_index c)) (map ?f (chunks s))
      = map (\<lambda>c. (c_generation_id c, c_chunk_index c)) (chunks s)"
    unfolding map_map o_def key ..
  have "filter (\<lambda>c. c_generation_id c \<noteq> g) (map ?f xs) = filter (\<lambda>c. c_generation_id c \<noteq> g) xs" for xs
    by (induction xs) auto
  then have st: "staged g s ?t" by (simp add: staged_def)
  have ch: "chunks ?t = map ?f (chunks s)" by simp
  have wf: "wf E ?t"
    by (rule wf_staged [OF ok g st]) (unfold ch keys, rule chunk_pk [OF ok])
  have at: "chunk_at ?t g j = (if j = i then Some bytes else chunk_at s g j)" for j
  proof -
    have "find (\<lambda>c. c_generation_id c = g \<and> c_chunk_index c = j) (map ?f xs)
        = (if j = i then map_option (\<lambda>c. c\<lparr>c_bytes := bytes\<rparr>)
             (find (\<lambda>c. c_generation_id c = g \<and> c_chunk_index c = j) xs)
           else find (\<lambda>c. c_generation_id c = g \<and> c_chunk_index c = j) xs)" for xs :: "chunk_row list"
      by (induction xs) auto
    moreover obtain y where "find (\<lambda>c. c_generation_id c = g \<and> c_chunk_index c = i) (chunks s) = Some y"
      using True by (cases "find (\<lambda>c. c_generation_id c = g \<and> c_chunk_index c = i) (chunks s)")
        (auto simp: find_None_iff list_ex_iff)
    ultimately show ?thesis unfolding chunk_at_def ch by simp
  qed
  show thesis
    by (rule that [of ?t]) (use True wf st at in \<open>simp_all add: upsert_chunk_def checkedI wfD(1)\<close>)
next
  case False
  let ?c = "\<lparr>c_generation_id = g, c_chunk_index = i, c_bytes = bytes\<rparr>"
  let ?t = "s\<lparr>chunks := chunks s @ [?c]\<rparr>"
  have st: "staged g s ?t" by (simp add: staged_def)
  have none: "find (\<lambda>c. c_generation_id c = g \<and> c_chunk_index c = i) (chunks s) = None"
    using False by (auto simp: find_None_iff list_ex_iff)
  have wf: "wf E ?t"
    by (rule wf_staged [OF ok g st]) (use chunk_pk [OF ok] False in \<open>auto simp: list_ex_iff\<close>)
  have at: "chunk_at ?t g j = (if j = i then Some bytes else chunk_at s g j)" for j
  proof -
    have "find P (xs @ [?c]) = (case find P xs of None \<Rightarrow> if P ?c then Some ?c else None | Some x \<Rightarrow> Some x)"
      for P and xs :: "chunk_row list"
      by (induction xs) auto
    then show ?thesis using none by (auto simp: chunk_at_def split: option.split)
  qed
  show thesis
    by (rule that [of ?t])
      (use False wf st at in \<open>simp_all add: upsert_chunk_def insert_chunks_def checkedI wfD(1)\<close>)
qed

subsection \<open>The writer invariant\<close>

text \<open>
  The writer of the generation \<open>g\<close> has taken in the bytes \<open>bs\<close>: the whole chunks among them
  are stored, the rest, less than a chunk, is in the buffer.
\<close>

definition writing :: "uuid \<Rightarrow> nat \<Rightarrow> chunk_writer \<Rightarrow> byte list \<Rightarrow> db \<Rightarrow> bool" where
  "writing g cap cw bs s \<longleftrightarrow>
     cw_generation_id cw = g \<and> cw_max_file_bytes cw = cap \<and>
     cw_next_chunk_index cw = int (length bs div CHUNK_SIZE) \<and>
     cw_committed_len cw = length bs div CHUNK_SIZE * CHUNK_SIZE \<and>
     cw_buffer cw = drop (length bs div CHUNK_SIZE * CHUNK_SIZE) bs \<and>
     gen_holds s g (take (length bs div CHUNK_SIZE * CHUNK_SIZE) bs)"

definition quota_error :: "nat \<Rightarrow> fs_error" where
  "quota_error cap = quota_exceeded (''file would exceed the workspace'' @ [CHR 0x27] @ ''s ''
     @ show_nat cap @ ''-byte file quota'')"

lemma writing_total: "writing g cap cw bs s \<Longrightarrow> total_len cw = length bs"
  by (simp add: writing_def total_len_def)

lemma writing_buffer: "writing g cap cw bs s \<Longrightarrow> length (cw_buffer cw) = length bs mod CHUNK_SIZE"
  by (simp add: writing_def minus_div_mult_eq_mod)

lemma chunk_of_past: "length bs \<le> k * CHUNK_SIZE \<Longrightarrow> chunk_of bs (int k) = None"
  by (simp add: chunk_of_def)

text \<open>One full chunk more.\<close>

lemma chunk_of_snoc:
  assumes "length bs = k * CHUNK_SIZE" "0 < length c" "length c \<le> CHUNK_SIZE"
  shows "chunk_of (bs @ c) j = (if j = int k then Some c else chunk_of bs j)"
proof -
  consider "j < 0" | i where "j = int i" "i < k" | "j = int k" | i where "j = int i" "k < i"
    by (metis int_cases linorder_cases negative_zless_0 of_nat_0_le_iff nonneg_int_cases not_le)
  then show ?thesis
  proof cases
    case (2 i)
    then have "Suc i * CHUNK_SIZE \<le> length bs" unfolding assms(1) by (intro mult_le_mono1) simp
    then have "i * CHUNK_SIZE < length bs" "CHUNK_SIZE \<le> length bs - i * CHUNK_SIZE"
      using CHUNK_SIZE_pos by (simp_all del: CHUNK_SIZE_pos)
    with 2 show ?thesis by (simp add: chunk_of_def)
  next
    case (4 i)
    then have "Suc k * CHUNK_SIZE \<le> i * CHUNK_SIZE" by (intro mult_le_mono1) simp
    with 4 assms show ?thesis by (simp add: chunk_of_def)
  qed (use assms in \<open>simp_all add: chunk_of_def\<close>)
qed

lemma gen_holds_snoc:
  assumes "gen_holds s g bs" "length bs = k * CHUNK_SIZE" "0 < length c" "length c \<le> CHUNK_SIZE"
    and "\<And>j. chunk_at t g j = (if j = int k then Some c else chunk_at s g j)"
  shows "gen_holds t g (bs @ c)"
  unfolding gen_holds_def assms(5) chunk_of_snoc [OF assms(2-4)]
  using assms(1) by (simp add: gen_holds_def)

lemma new_writer_writing:
  assumes "\<forall>c \<in> set (chunks s). c_generation_id c \<noteq> g"
  shows "writing g cap (new_writer g cap) [] s"
proof -
  have "chunk_at s g i = None" for i
    using assms by (auto simp: chunk_at_def find_None_iff)
  then show ?thesis by (simp add: writing_def new_writer_def gen_holds_def chunk_of_def)
qed


lemma writing_partial:
  assumes w: "writing g cap cw bs s" and c: "length bs mod CHUNK_SIZE + length c < CHUNK_SIZE"
  shows "writing g cap (cw\<lparr>cw_buffer := cw_buffer cw @ c\<rparr>) (bs @ c) s"
proof -
  have "length bs + length c = length bs div CHUNK_SIZE * CHUNK_SIZE + (length bs mod CHUNK_SIZE + length c)"
    by simp
  then have "(length bs + length c) div CHUNK_SIZE
      = (length bs div CHUNK_SIZE * CHUNK_SIZE + (length bs mod CHUNK_SIZE + length c)) div CHUNK_SIZE"
    by (rule arg_cong)
  also have "\<dots> = length bs div CHUNK_SIZE"
    using c by (simp only: div_mult_self3 CHUNK_SIZE_pos [THEN less_imp_neq, symmetric] div_less not_False_eq_True)
  finally show ?thesis using w by (simp add: writing_def)
qed

lemma flush_full:
  assumes ok: "wf E s" and g: "spare s w g" and wr: "writing g cap cw bs s"
    and c: "length bs mod CHUNK_SIZE + length c = CHUNK_SIZE"
  obtains cw' s' where "flush_full_buffer (cw\<lparr>cw_buffer := cw_buffer cw @ c\<rparr>) s = (Inr (), cw', s')"
    "wf E s'" "staged g s s'" "writing g cap cw' (bs @ c) s'"
proof -
  define k where "k = length bs div CHUNK_SIZE"
  define cw1 where "cw1 = cw\<lparr>cw_buffer := cw_buffer cw @ c\<rparr>"
  define cw' where "cw' = cw1\<lparr>cw_buffer := [], cw_committed_len := cw_committed_len cw1 + CHUNK_SIZE,
    cw_next_chunk_index := cw_next_chunk_index cw1 + 1\<rparr>"
  let ?full = "drop (k * CHUNK_SIZE) bs @ c"
  have len: "length bs + length c = Suc k * CHUNK_SIZE"
  proof -
    have "length bs = k * CHUNK_SIZE + length bs mod CHUNK_SIZE" by (simp add: k_def)
    with c show ?thesis by simp
  qed
  have kb: "k * CHUNK_SIZE \<le> length bs" by (simp add: k_def)
  have full: "length ?full = CHUNK_SIZE" using len kb by simp
  have cw1: "cw_generation_id cw1 = g" "cw_next_chunk_index cw1 = int k" "cw_buffer cw1 = ?full"
    "cw_max_file_bytes cw1 = cap" "cw_committed_len cw1 = k * CHUNK_SIZE"
    and holds: "gen_holds s g (take (k * CHUNK_SIZE) bs)"
    using wr by (simp_all add: writing_def cw1_def k_def)
  obtain t where t: "upsert_chunk g (int k) ?full s = Some t" "wf E t" "staged g s t"
    "\<And>j. chunk_at t g j = (if j = int k then Some ?full else chunk_at s g j)"
    using upsert_chunk_ok [OF ok g, of "int k" ?full] by blast
  have "gen_holds t g (take (k * CHUNK_SIZE) bs @ ?full)"
    by (rule gen_holds_snoc [OF holds, of k]) (use t(4) full kb in auto)
  then have "gen_holds t g (bs @ c)" by (metis append_assoc append_take_drop_id)
  moreover have "(length bs + length c) div CHUNK_SIZE = Suc k" unfolding len by simp
  ultimately have "writing g cap cw' (bs @ c) t"
    using cw1 len by (simp add: writing_def cw'_def)
  moreover have "flush_full_buffer cw1 s = (Inr (), cw', t)"
    using t(1) cw1 by (simp add: flush_full_buffer_def Let_def run_stmt_Some cw'_def)
  ultimately show thesis using that [of cw' t] t(2,3) by (simp add: cw1_def)
qed

text \<open>
  Writing: all the bytes are taken in when they fit in the quota (or there are none), and the
  quota is reported otherwise.
\<close>

definition wrote :: "ext \<Rightarrow> uuid \<Rightarrow> nat \<Rightarrow> db \<Rightarrow> byte list \<Rightarrow> byte list \<Rightarrow>
    unit fs_result \<times> chunk_writer \<times> db \<Rightarrow> bool" where
  "wrote E g cap s bs bytes res \<longleftrightarrow> (case res of (r, cw', s') \<Rightarrow>
     wf E s' \<and> staged g s s' \<and> cw_generation_id cw' = g \<and>
     (if bytes = [] \<or> length bs + length bytes \<le> cap
      then r = Inr () \<and> writing g cap cw' (bs @ bytes) s'
      else r = Inl (quota_error cap)))"

lemma wrote_more:
  assumes "wrote E g cap s' (bs @ c) rest res" "staged g s s'" "c \<noteq> []" "length bs + length c \<le> cap"
  shows "wrote E g cap s bs (c @ rest) res"
  using assms staged_trans [OF assms(2)]
  by (cases "rest = []") (auto simp: wrote_def add.assoc split: if_splits)

lemma write_bytes_wrote:
  "wf E s \<Longrightarrow> spare s w g \<Longrightarrow> writing g cap cw bs s \<Longrightarrow> wrote E g cap s bs bytes (write_bytes cw bytes s)"
proof (induction cw bytes s arbitrary: bs rule: write_bytes.induct)
  case (1 cw bytes s)
  note buf = writing_buffer [OF 1(5)]
  have gen: "cw_generation_id cw = g" "cw_max_file_bytes cw = cap" using 1(5) by (simp_all add: writing_def)
  show ?case
  proof (cases "bytes = []")
    case True
    with 1 gen show ?thesis by (subst write_bytes.simps) (simp add: wrote_def)
  next
    case ne: False
    have room: "\<not> CHUNK_SIZE < length (cw_buffer cw)" by (simp add: buf not_less less_imp_le)
    define space where "space = CHUNK_SIZE - length (cw_buffer cw)"
    define n where "n = min space (length bytes)"
    define cw' where "cw' = cw\<lparr>cw_buffer := cw_buffer cw @ take n bytes\<rparr>"
    define rest where "rest = drop n bytes"
    have sp: "0 < space" by (simp add: space_def buf)
    have n: "0 < n" "n \<le> length bytes" "n \<le> space" using ne sp by (simp_all add: n_def)
    have c: "take n bytes \<noteq> []" "length (take n bytes) = n" using n by auto
    have bytes: "bytes = take n bytes @ rest" by (simp add: rest_def)
    have total: "total_len cw' = length bs + n"
      using writing_total [OF 1(5)] c by (simp add: cw'_def total_len_def)
    have cap: "cw_max_file_bytes (cw\<lparr>cw_buffer := x\<rparr>) = cap" for x using gen by simp
    have unfold: "write_bytes cw bytes s =
      (if total_len cw' > cap then (Inl (quota_error cap), cw', s)
       else if length (cw_buffer cw') = CHUNK_SIZE
       then (case flush_full_buffer cw' s of
               (Inl e, cw'', s') \<Rightarrow> (Inl e, cw'', s')
             | (Inr _, cw'', s') \<Rightarrow> write_bytes cw'' rest s')
       else write_bytes cw' rest s)"
      unfolding cw'_def rest_def n_def space_def quota_error_def
      by (subst write_bytes.simps) (simp only: Let_def ne room if_False cap)
    have len: "length (cw_buffer cw') = length bs mod CHUNK_SIZE + n" using buf c by (simp add: cw'_def)
    show ?thesis
    proof (cases "length bs + n > cap")
      case True
      with 1 n ne gen show ?thesis unfolding unfold total by (simp add: wrote_def cw'_def)
    next
      case False
      show ?thesis
      proof (cases "length (cw_buffer cw') = CHUNK_SIZE")
        case True
        have full: "length bs mod CHUNK_SIZE + length (take n bytes) = CHUNK_SIZE"
          using True len c by simp
        obtain cw'' s' where f: "flush_full_buffer cw' s = (Inr (), cw'', s')" "wf E s'"
          "staged g s s'" "writing g cap cw'' (bs @ take n bytes) s'"
          unfolding cw'_def by (rule flush_full [OF 1(3-5) full])
        have "wrote E g cap s' (bs @ take n bytes) rest (write_bytes cw'' rest s')"
          by (rule 1(1) [OF ne room space_def n_def cw'_def rest_def _ True])
            (use False total gen f 1(4) staged_spare in \<open>auto simp: cw'_def\<close>)
        then have "wrote E g cap s bs (take n bytes @ rest) (write_bytes cw'' rest s')"
          by (rule wrote_more) (use f c False in auto)
        with bytes show ?thesis unfolding unfold total using False True f(1) by simp
      next
        case part: False
        have "length bs mod CHUNK_SIZE < CHUNK_SIZE" by simp
        then have "length (cw_buffer cw') \<le> CHUNK_SIZE"
          using n(3) unfolding len space_def buf by linarith
        with part len c have "length bs mod CHUNK_SIZE + length (take n bytes) < CHUNK_SIZE" by simp
        from writing_partial [OF 1(5) this] have wr: "writing g cap cw' (bs @ take n bytes) s"
          by (simp add: cw'_def)
        have "wrote E g cap s (bs @ take n bytes) rest (write_bytes cw' rest s)"
          by (rule 1(2) [OF ne room space_def n_def cw'_def rest_def _ part])
            (use False total gen wr 1(3,4) in \<open>auto simp: cw'_def\<close>)
        then have "wrote E g cap s bs (take n bytes @ rest) (write_bytes cw' rest s)"
          by (rule wrote_more) (use c False in auto)
        with bytes show ?thesis unfolding unfold total using False part by simp
      qed
    qed
  qed
qed


text \<open>Sequencing: bytes written by one step and then the rest by the next.\<close>

lemma wrote_bind:
  assumes c: "wrote E g cap s bs c res" and g: "spare s w g"
    and f: "\<And>cw' s'. wf E s' \<Longrightarrow> spare s' w g \<Longrightarrow> staged g s s' \<Longrightarrow> writing g cap cw' (bs @ c) s' \<Longrightarrow>
      wrote E g cap s' (bs @ c) rest (f cw' s')"
  shows "wrote E g cap s bs (c @ rest) (cw_bind res f)"
proof -
  obtain r cw' s' where res: "res = (r, cw', s')" by (cases res) auto
  show ?thesis
  proof (cases "c = [] \<or> length bs + length c \<le> cap")
    case True
    with c have wr: "wf E s'" "staged g s s'" "r = Inr ()" "writing g cap cw' (bs @ c) s'"
      by (auto simp: wrote_def res)
    with f [of s' cw'] g staged_spare have "wrote E g cap s' (bs @ c) rest (f cw' s')" by blast
    with wr True show ?thesis
      using wrote_more [of E g cap s' bs c rest "f cw' s'" s] staged_trans [OF wr(2)]
      by (cases "c = []") (auto simp: res wrote_def split: prod.splits)
  next
    case False
    with c show ?thesis by (auto simp: wrote_def res)
  qed
qed

lemma zero_fill_wrote:
  "wf E s \<Longrightarrow> spare s w g \<Longrightarrow> writing g cap cw bs s \<Longrightarrow>
    wrote E g cap s bs (replicate n 0) (zero_fill n cw s)"
proof (induction n arbitrary: cw bs s rule: less_induct)
  case (less n)
  show ?case
  proof (cases "n = 0")
    case True
    with less.prems show ?thesis by (subst zero_fill.simps) (simp add: wrote_def writing_def)
  next
    case False
    define piece where "piece = min n CHUNK_SIZE"
    have p: "0 < piece" "piece \<le> n" using False by (simp_all add: piece_def)
    have eq: "zero_fill n cw s
        = cw_bind (write_bytes cw (replicate piece 0) s) (zero_fill (n - piece))"
      using False by (subst zero_fill.simps) (simp add: Let_def piece_def)
    have "wrote E g cap s bs (replicate piece 0 @ replicate (n - piece) 0) (zero_fill n cw s)"
      unfolding eq
      by (rule wrote_bind [OF write_bytes_wrote [OF less.prems] less.prems(2)])
        (rule less.IH; use p in simp)
    with p show ?thesis by (simp flip: replicate_add)
  qed
qed

lemma drain_pieces_wrote:
  "wf E s \<Longrightarrow> spare s w g \<Longrightarrow> writing g cap cw bs s \<Longrightarrow>
    wrote E g cap s bs (concat cs) (drain_source (map Inr cs) cw s)"
proof (induction cs arbitrary: cw bs s)
  case Nil
  then show ?case by (simp add: wrote_def writing_def)
next
  case (Cons c cs)
  show ?case
    unfolding list.map drain_source.simps concat.simps
    by (rule wrote_bind [OF write_bytes_wrote [OF Cons.prems] Cons.prems(2)]) (rule Cons.IH)
qed

text \<open>Copying from another generation reads chunks the staging does not touch.\<close>

lemma copy_suffix_chunks_drain:
  assumes "h \<noteq> g"
  shows "wf E s \<Longrightarrow> spare s w g \<Longrightarrow> writing g cap cw bs s \<Longrightarrow> gen_holds s h old \<Longrightarrow>
    wrote E g cap s bs
      (concat (map (\<lambda>k. clip a b k (case chunk_of old k of None \<Rightarrow> [] | Some c \<Rightarrow> c)) ks))
      (copy_suffix_chunks h a b ks cw s)"
proof (induction ks arbitrary: cw bs s)
  case Nil
  then show ?case by (simp add: wrote_def writing_def)
next
  case (Cons k ks)
  have eq: "copy_suffix_chunks h a b (k # ks) cw s = cw_bind
      (write_bytes cw (clip a b k (case chunk_of old k of None \<Rightarrow> [] | Some c \<Rightarrow> c)) s)
      (copy_suffix_chunks h a b ks)"
    using fetch_chunk_holds [OF Cons.prems(4), of k] by (simp add: clip_def Let_def)
  show ?case
    unfolding eq list.map concat.simps
    by (rule wrote_bind [OF write_bytes_wrote [OF Cons.prems(1-3)] Cons.prems(2)])
      (rule Cons.IH; use Cons.prems(4) staged_holds assms in blast)
qed

lemma copy_suffix_wrote:
  assumes "h \<noteq> g" "wf E s" "spare s w g" "writing g cap cw bs s" "gen_holds s h old"
  shows "wrote E g cap s bs (take (b - a) (drop a old)) (copy_suffix_from h a b cw s)"
proof (cases "a < b")
  case False
  with assms show ?thesis by (simp add: copy_suffix_from_def wrote_def writing_def)
next
  case True
  have "a div CHUNK_SIZE \<le> (b - 1) div CHUNK_SIZE" using True by (intro div_le_mono) simp
  from clip_concat [OF True order_refl, of old] this
  have "concat (map (\<lambda>k. clip a b k (case chunk_of old k of None \<Rightarrow> [] | Some c \<Rightarrow> c))
      [chunk_index_of a..chunk_index_of (b - 1)]) = take (b - a) (drop a old)"
    by (simp add: chunk_index_of_def max.absorb1)
  with copy_suffix_chunks_drain [OF assms, of a b "[chunk_index_of a..chunk_index_of (b - 1)]"] True
  show ?thesis by (simp add: copy_suffix_from_def)
qed


lemma find_filter: "find P (filter Q xs) = find (\<lambda>x. Q x \<and> P x) xs"
  by (induction xs) auto

lemma find_map: "find P (map f xs) = map_option f (find (P \<circ> f) xs)"
  by (induction xs) auto

text \<open>Some of the chunks of one generation copied to another one.\<close>

lemma insert_copies_ok:
  assumes ok: "wf E s" and g: "spare s w g" and none: "\<forall>c \<in> set (chunks s). c_generation_id c \<noteq> g"
  obtains t where "insert_chunks (map (\<lambda>c. c\<lparr>c_generation_id := g\<rparr>)
      (filter (\<lambda>c. c_generation_id c = h \<and> Q (c_chunk_index c)) (chunks s))) s = Some t"
    "wf E t" "staged g s t" "\<forall>i. chunk_at t g i = (if Q i then chunk_at s h i else None)"
proof -
  let ?P = "\<lambda>c. c_generation_id c = h \<and> Q (c_chunk_index c)"
  let ?f = "\<lambda>c. c\<lparr>c_generation_id := g\<rparr>"
  let ?rs = "map ?f (filter ?P (chunks s))"
  let ?t = "s\<lparr>chunks := chunks s @ ?rs\<rparr>"
  let ?key = "\<lambda>c :: chunk_row. (c_generation_id c, c_chunk_index c)"
  have st: "staged g s ?t" by (simp add: staged_def filter_empty_conv)
  have pk: "distinct (map ?key (chunks ?t))"
  proof -
    have d: "distinct (map ?key (filter ?P (chunks s)))"
      using chunk_pk [OF ok] by (rule distinct_map_filter)
    have "inj_on (\<lambda>c. (g, c_chunk_index c)) (set (filter ?P (chunks s)))"
    proof (rule inj_onI)
      fix c d
      assume "c \<in> set (filter ?P (chunks s))" "d \<in> set (filter ?P (chunks s))"
        "(g, c_chunk_index c) = (g, c_chunk_index d)"
      then show "c = d" using distinct_map_eqD [OF d, of c d] by simp
    qed
    moreover have "distinct (filter ?P (chunks s))" using d by (simp add: distinct_map)
    ultimately have "distinct (map ?key ?rs)" by (simp add: distinct_map comp_def)
    moreover have "set (map ?key (chunks s)) \<inter> set (map ?key ?rs) = {}" using none by auto
    ultimately show ?thesis using chunk_pk [OF ok] by simp
  qed
  have wf: "wf E ?t" by (rule wf_staged [OF ok g st pk])
  have at: "chunk_at ?t g i = (if Q i then chunk_at s h i else None)" for i
  proof -
    have "find (\<lambda>c. c_generation_id c = g \<and> c_chunk_index c = i) (chunks s) = None"
      using none by (auto simp: find_None_iff)
    then have "find (\<lambda>c. c_generation_id c = g \<and> c_chunk_index c = i) (chunks s @ ?rs)
        = find (\<lambda>c. c_generation_id c = g \<and> c_chunk_index c = i) ?rs"
    proof -
      have "find P (xs @ ys) = find P ys" if "find P xs = None" for P and xs ys :: "chunk_row list"
        using that by (induction xs) (auto split: if_splits)
      then show "find (\<lambda>c. c_generation_id c = g \<and> c_chunk_index c = i) (chunks s) = None \<Longrightarrow> ?thesis"
        by blast
    qed
    also have "\<dots> = map_option ?f (find (\<lambda>c. ?P c \<and> c_chunk_index c = i) (chunks s))"
      by (simp add: find_map find_filter comp_def)
    also have "(\<lambda>c. ?P c \<and> c_chunk_index c = i)
        = (\<lambda>c. Q i \<and> c_generation_id c = h \<and> c_chunk_index c = i)"
      by auto
    finally have "find (\<lambda>c. c_generation_id c = g \<and> c_chunk_index c = i) (chunks s @ ?rs) = map_option ?f
      (find (\<lambda>c. Q i \<and> c_generation_id c = h \<and> c_chunk_index c = i) (chunks s))" .
    then show ?thesis
      by (cases "Q i") (auto simp: chunk_at_def option.map_comp comp_def find_None_iff)
  qed
  have "insert_chunks ?rs s = Some ?t"
    using wfD(1) [OF wf] by (simp add: insert_chunks_def checked_def)
  with wf st at show thesis using that by blast
qed

lemma copy_chunk_range_ok:
  assumes ok: "wf E s" and g: "spare s w g" and none: "\<forall>c \<in> set (chunks s). c_generation_id c \<noteq> g"
    and old: "gen_holds s h old" and k: "k * CHUNK_SIZE \<le> length old"
  obtains t where "copy_chunk_range h g 0 (int k) s = Some t" "wf E t" "staged g s t"
    "gen_holds t g (take (k * CHUNK_SIZE) old)"
proof -
  obtain t where t: "insert_chunks (map (\<lambda>c. c\<lparr>c_generation_id := g\<rparr>)
      (filter (\<lambda>c. c_generation_id c = h \<and> 0 \<le> c_chunk_index c \<and> c_chunk_index c < int k) (chunks s))) s = Some t"
    "wf E t" "staged g s t" "\<forall>i. chunk_at t g i = (if 0 \<le> i \<and> i < int k then chunk_at s h i else None)"
    by (rule insert_copies_ok [OF ok g none, where Q = "\<lambda>i. 0 \<le> i \<and> i < int k"])
  note at = spec [OF t(4)]
  have "gen_holds t g (take (k * CHUNK_SIZE) old)"
    unfolding gen_holds_def
  proof
    fix i
    show "chunk_at t g i = chunk_of (take (k * CHUNK_SIZE) old) i"
    proof (cases "0 \<le> i \<and> i < int k")
      case True
      then obtain j where j: "i = int j" "j < k" by (metis nonneg_int_cases of_nat_less_iff)
      then have "Suc j * CHUNK_SIZE \<le> k * CHUNK_SIZE" by (intro mult_le_mono1) simp
      then have le: "j * CHUNK_SIZE + CHUNK_SIZE \<le> k * CHUNK_SIZE" by simp
      have lt: "j * CHUNK_SIZE < k * CHUNK_SIZE" "j * CHUNK_SIZE < length old"
        using le k CHUNK_SIZE_pos by linarith+
      have "drop (j * CHUNK_SIZE) (take (k * CHUNK_SIZE) old)
          = take (k * CHUNK_SIZE - j * CHUNK_SIZE) (drop (j * CHUNK_SIZE) old)" by (rule drop_take)
      then have "take CHUNK_SIZE (drop (j * CHUNK_SIZE) (take (k * CHUNK_SIZE) old))
          = take CHUNK_SIZE (drop (j * CHUNK_SIZE) old)"
        using le by (simp add: min_def)
      with True lt k j(1) old at show ?thesis
        by (simp add: gen_holds_def chunk_of_def min_def)
    next
      case False
      have "int k * int CHUNK_SIZE \<le> i * int CHUNK_SIZE" if "int k \<le> i"
        using that by (intro mult_right_mono) simp_all
      then have "k * CHUNK_SIZE \<le> nat i * CHUNK_SIZE" if "int k \<le> i"
        using that by (intro mult_le_mono1) simp
      with False at k show ?thesis by (auto simp: chunk_of_def)
    qed
  qed
  with t(1-3) that [of t] show thesis by (simp add: copy_chunk_range_def)
qed


lemma copy_prefix_ok:
  assumes ok: "wf E s" and g: "spare s w g" and h: "h \<noteq> g"
    and none: "\<forall>c \<in> set (chunks s). c_generation_id c \<noteq> g"
    and old: "gen_holds s h old" and n: "n \<le> length old"
  obtains r cw' s' where "copy_prefix_from h n (new_writer g cap) s = (r, cw', s')" "wf E s'"
    "staged g s s'" "cw_generation_id cw' = g"
    "if n mod CHUNK_SIZE = 0 \<or> n \<le> cap then r = Inr () \<and> writing g cap cw' (take n old) s'
     else r = Inl (quota_error cap)"
proof -
  define k where "k = n div CHUNK_SIZE"
  have k: "k * CHUNK_SIZE \<le> n" "n = k * CHUNK_SIZE + n mod CHUNK_SIZE" by (simp_all add: k_def)
  define cw1 where "cw1 = skip_committed_chunks (int k) (new_writer g cap)"
  obtain t where t: "copy_chunk_range h g 0 (int k) s = Some t" "wf E t" "staged g s t"
    "gen_holds t g (take (k * CHUNK_SIZE) old)"
    by (rule copy_chunk_range_ok [OF ok g none old, of k]) (use k n in auto)
  define s1 where "s1 = (if k > 0 then t else s)"
  have s1: "wf E s1" "staged g s s1" "spare s1 w g" "gen_holds s1 h old"
    using t ok g old staged_spare staged_holds h by (auto simp: s1_def)
  have wr: "writing g cap cw1 (take (k * CHUNK_SIZE) old) s1"
  proof (cases "k = 0")
    case True
    with new_writer_writing [OF none, of cap] show ?thesis
      by (simp add: s1_def cw1_def skip_committed_chunks_def new_writer_def)
  next
    case False
    have le: "k * CHUNK_SIZE \<le> length old" using k n by linarith
    then have len: "length (take (k * CHUNK_SIZE) old) = k * CHUNK_SIZE" by simp
    have "drop (k * CHUNK_SIZE) (take (k * CHUNK_SIZE) old) = []" by simp
    moreover have "k * CHUNK_SIZE div CHUNK_SIZE = k" by simp
    ultimately show ?thesis
      using False t(4) unfolding writing_def len
      by (simp only: cw1_def skip_committed_chunks_def new_writer_def s1_def if_True take_take
          min.idem nat_int) simp
  qed
  have first: "(if chunk_index_of n > 0 then
       (case run_stmt (copy_chunk_range h (cw_generation_id (new_writer g cap)) 0 (chunk_index_of n)) s of
          (Inl e, s) \<Rightarrow> (Inl e, new_writer g cap, s)
        | (Inr _, s) \<Rightarrow> (Inr (), skip_committed_chunks (chunk_index_of n) (new_writer g cap), s))
     else (Inr (), new_writer g cap, s)) = (Inr (), cw1, s1)"
    using t(1) by (auto simp: chunk_index_of_def k_def [symmetric] run_stmt_Some s1_def cw1_def
        new_writer_def skip_committed_chunks_def)
  show thesis
  proof (cases "n mod CHUNK_SIZE = 0")
    case True
    then have nk: "n = k * CHUNK_SIZE" using k by simp
    have "copy_prefix_from h n (new_writer g cap) s = (Inr (), cw1, s1)"
    proof (cases "n = 0")
      case True
      then have "k = 0" by (simp add: k_def)
      with True show ?thesis
        by (simp add: copy_prefix_from_def cw1_def s1_def skip_committed_chunks_def new_writer_def)
    next
      case False
      with \<open>n mod CHUNK_SIZE = 0\<close> show ?thesis
        unfolding copy_prefix_from_def Let_def first by (simp add: chunk_local_offset_def)
    qed
    then show thesis
      by (rule that) (use s1 wr True nk in \<open>auto simp: writing_def\<close>)
  next
    case False
    then have n0: "n \<noteq> 0" by (metis mod_0)
    define c where "c = take (n mod CHUNK_SIZE) (drop (k * CHUNK_SIZE) old)"
    have lc: "length c = n mod CHUNK_SIZE" using k n by (simp add: c_def)
    have piece: "take (min (n mod CHUNK_SIZE) (length (fetch_chunk_bytes s1 h (int k)))) (fetch_chunk_bytes s1 h (int k)) = c"
    proof -
      have "fetch_chunk_bytes s1 h (int k) = take CHUNK_SIZE (drop (k * CHUNK_SIZE) old)"
        using fetch_chunk_holds [OF s1(4), of "int k"] chunk_bytes by simp
      moreover have "n mod CHUNK_SIZE < CHUNK_SIZE" by simp
      ultimately show ?thesis by (simp add: c_def min_def)
    qed
    have eq: "copy_prefix_from h n (new_writer g cap) s = write_bytes cw1 c s1"
      using n0 False unfolding copy_prefix_from_def Let_def first
      by (simp add: chunk_local_offset_def chunk_index_of_def k_def [symmetric] piece)
    have whole: "take (k * CHUNK_SIZE) old @ c = take n old"
      unfolding c_def by (subst (2) k(2)) (rule take_add [symmetric])
    obtain r cw2 s2 where w: "write_bytes cw1 c s1 = (r, cw2, s2)" by (metis prod_cases3)
    have "wrote E g cap s1 (take (k * CHUNK_SIZE) old) c (r, cw2, s2)"
      using write_bytes_wrote [OF s1(1,3) wr, of c] w by simp
    moreover have c0: "c \<noteq> []" using lc False by auto
    moreover have len: "length (take (k * CHUNK_SIZE) old) + length c = n" using k n lc by simp
    ultimately have "wf E s2" "staged g s1 s2" "cw_generation_id cw2 = g"
      "if n \<le> cap then r = Inr () \<and> writing g cap cw2 (take n old) s2 else r = Inl (quota_error cap)"
      unfolding wrote_def prod.case len whole by simp_all
    then show thesis
      using that [OF trans [OF eq w]] staged_trans [OF s1(2)] False by (simp split: if_splits)
  qed
qed

subsection \<open>Draining a source\<close>

definition fits :: "nat \<Rightarrow> byte list \<Rightarrow> byte list \<Rightarrow> bool" where
  "fits cap bs bytes \<longleftrightarrow> bytes = [] \<or> length bs + length bytes \<le> cap"

definition drained :: "ext \<Rightarrow> uuid \<Rightarrow> nat \<Rightarrow> db \<Rightarrow> byte list \<Rightarrow> byte list fs_result list \<Rightarrow>
    unit fs_result \<times> chunk_writer \<times> db \<Rightarrow> bool" where
  "drained E g cap s bs src res \<longleftrightarrow> (case res of (r, cw', s') \<Rightarrow>
     wf E s' \<and> staged g s s' \<and> cw_generation_id cw' = g \<and>
     (case r of
        Inr _ \<Rightarrow> \<exists>cs. collect_results src = Inr cs \<and> fits cap bs (concat cs) \<and>
          writing g cap cw' (bs @ concat cs) s'
      | Inl e \<Rightarrow> (\<forall>cs. collect_results src = Inr cs \<longrightarrow> \<not> fits cap bs (concat cs)) \<and>
          (e = quota_error cap \<or> Inl e \<in> set src)))"

lemma drain_source_drained:
  "wf E s \<Longrightarrow> spare s w g \<Longrightarrow> writing g cap cw bs s \<Longrightarrow> drained E g cap s bs src (drain_source src cw s)"
proof (induction src arbitrary: cw bs s)
  case Nil
  then show ?case by (simp add: drained_def writing_def fits_def)
next
  case (Cons x src)
  have gen: "cw_generation_id cw = g" using Cons.prems(3) by (simp add: writing_def)
  show ?case
  proof (cases x)
    case (Inl e)
    with Cons.prems gen show ?thesis by (simp add: drained_def)
  next
    case (Inr c)
    obtain r cw1 s1 where w1: "write_bytes cw c s = (r, cw1, s1)" by (metis prod_cases3)
    have wr: "wrote E g cap s bs c (r, cw1, s1)"
      using write_bytes_wrote [OF Cons.prems, of c] w1 by simp
    show ?thesis
    proof (cases "fits cap bs c")
      case False
      then have "\<not> fits cap bs (c @ d)" for d by (auto simp: fits_def)
      with wr False show ?thesis
        by (auto simp: Inr w1 wrote_def fits_def drained_def split: sum.splits)
    next
      case True
      with wr have s1: "wf E s1" "staged g s s1" "r = Inr ()" "writing g cap cw1 (bs @ c) s1"
        by (auto simp: wrote_def fits_def)
      from Cons.IH [OF s1(1) staged_spare [OF s1(2) Cons.prems(2)] s1(4)]
      have IH: "drained E g cap s1 (bs @ c) src (drain_source src cw1 s1)" .
      have f: "fits cap bs (c @ d) \<longleftrightarrow> fits cap (bs @ c) d" for d
        using True by (cases "d = []") (auto simp: fits_def)
      from IH s1 staged_trans [OF s1(2)] show ?thesis
        by (auto simp: Inr w1 drained_def f split: sum.splits)
    qed
  qed
qed


subsection \<open>Finishing, and taking everything back\<close>

lemma finish_writer_ok:
  assumes ok: "wf E s" and g: "spare s w g" and wr: "writing g cap cw bs s"
  obtains t where "finish_writer cw s = (Inr (g, length bs), t)" "wf E t" "staged g s t"
    "gen_holds t g bs"
proof -
  define k where "k = length bs div CHUNK_SIZE"
  let ?c = "drop (k * CHUNK_SIZE) bs"
  have cw: "cw_generation_id cw = g" "cw_next_chunk_index cw = int k" "cw_buffer cw = ?c"
    "cw_committed_len cw = k * CHUNK_SIZE" and holds: "gen_holds s g (take (k * CHUNK_SIZE) bs)"
    using wr by (simp_all add: writing_def k_def)
  have len: "k * CHUNK_SIZE + length ?c = length bs" by (simp add: k_def)
  show thesis
  proof (cases "?c = []")
    case True
    have "take (k * CHUNK_SIZE) bs = bs" by (metis True append_Nil2 append_take_drop_id)
    moreover have "k * CHUNK_SIZE = length bs" using len True by simp
    ultimately show thesis
      using that [of s] True holds ok cw by (simp add: finish_writer_def)
  next
    case False
    obtain t where t: "upsert_chunk g (int k) ?c s = Some t" "wf E t" "staged g s t"
      "\<And>j. chunk_at t g j = (if j = int k then Some ?c else chunk_at s g j)"
      using upsert_chunk_ok [OF ok g, of "int k" ?c] by blast
    have "length ?c = length bs mod CHUNK_SIZE" by (simp add: k_def minus_div_mult_eq_mod)
    moreover have "length bs mod CHUNK_SIZE < CHUNK_SIZE" by simp
    ultimately have lc: "length ?c \<le> CHUNK_SIZE" by linarith
    have "length (take (k * CHUNK_SIZE) bs) = k * CHUNK_SIZE" using len by simp
    from gen_holds_snoc [OF holds this _ lc t(4)] False have "gen_holds t g bs" by simp
    moreover have "finish_writer cw s = (Inr (g, length bs), t)"
      using False t(1) len by (simp add: finish_writer_def cw run_stmt_Some)
    ultimately show thesis using that t(2,3) by blast
  qed
qed

text \<open>\<open>same_rows s t\<close>: only the counters of identifiers and clock readings differ.\<close>

definition same_rows :: "db \<Rightarrow> db \<Rightarrow> bool" where
  "same_rows s t \<longleftrightarrow> t = s\<lparr>ids_used := ids_used t, clock_reads := clock_reads t\<rparr>"

lemma same_rows_refl [simp]: "same_rows s s"
  by (simp add: same_rows_def)

lemma same_rows_fields:
  assumes "same_rows s t"
  shows "nodes t = nodes s" "generations t = generations s" "workspaces t = workspaces s"
    "chunks t = chunks s" "attributes t = attributes s" "trash_rows t = trash_rows s"
    "changes t = changes s"
proof -
  have t: "t = s\<lparr>ids_used := ids_used t, clock_reads := clock_reads t\<rparr>"
    using assms by (simp add: same_rows_def)
  from arg_cong [OF t, of nodes] show "nodes t = nodes s" by simp
  from arg_cong [OF t, of generations] show "generations t = generations s" by simp
  from arg_cong [OF t, of workspaces] show "workspaces t = workspaces s" by simp
  from arg_cong [OF t, of chunks] show "chunks t = chunks s" by simp
  from arg_cong [OF t, of attributes] show "attributes t = attributes s" by simp
  from arg_cong [OF t, of trash_rows] show "trash_rows t = trash_rows s" by simp
  from arg_cong [OF t, of changes] show "changes t = changes s" by simp
qed

lemma same_rowsI:
  "nodes t = nodes s \<Longrightarrow> generations t = generations s \<Longrightarrow> workspaces t = workspaces s \<Longrightarrow>
    chunks t = chunks s \<Longrightarrow> attributes t = attributes s \<Longrightarrow> trash_rows t = trash_rows s \<Longrightarrow>
    changes t = changes s \<Longrightarrow> same_rows s t"
  by (cases s, cases t) (simp add: same_rows_def)

lemma create_generation_ok:
  assumes E: "ext_ok E" and ok: "wf E s" and w: "w \<in> w_id ` set (workspaces s)"
  obtains g t now where "create_generation E w s = Some (g, t)" "wf E t" "spare t w g"
    "\<forall>c \<in> set (chunks t). c_generation_id c \<noteq> g" "g \<notin> g_id ` set (generations s)"
    "t = s\<lparr>generations := generations s @ [\<lparr>g_id = g, g_workspace_id = w, g_complete = 0,
       g_length = 0, g_created_at_ms = now\<rparr>], ids_used := Suc (ids_used s),
       clock_reads := Suc (clock_reads s)\<rparr>"
proof -
  define g where "g = fresh_id E s"
  define q where "q = \<lparr>g_id = g, g_workspace_id = w, g_complete = 0, g_length = 0,
    g_created_at_ms = clock_ms E (clock_reads s)\<rparr>"
  define s1 where "s1 = s\<lparr>ids_used := Suc (ids_used s), clock_reads := Suc (clock_reads s)\<rparr>"
  define t where "t = s1\<lparr>generations := generations s @ [q]\<rparr>"
  have new: "g \<notin> g_id ` set (generations s)" using fresh_unused(2) [OF E wfD(6) [OF ok]] by (simp add: g_def)
  have s1: "wf E s1" using wf_new_id [OF ok] by (simp add: s1_def)
  have fk: "fk_ok s" using schema_parts(6) ok by blast
  have nochunk: "\<forall>c \<in> set (chunks s). c_generation_id c \<noteq> g" using fk new unfolding fk_ok_iff by blast
  have noref: "\<forall>r \<in> set (nodes s). n_content_generation_id r \<noteq> Some g" using fk new unfolding fk_ok_iff by blast
  have gens: "generations s1 = generations s" by (simp add: s1_def)
  have sch: "schema_ok t"
    unfolding t_def gens [symmetric]
    by (rule schema_add_generation) (use s1 new w in \<open>auto simp: q_def s1_def\<close>)
  have "wf E t"
  proof -
    have "tree_ok t" using s1 by (subst tree_ok_cong [of t s1]) (auto simp: t_def)
    moreover have "log_ok t" using s1 log_ok_cong [of t s1] by (auto simp: t_def)
    moreover have "content_ok t"
      by (rule content_frame [OF wfD(4) [OF s1]]) (auto simp: t_def s1_def chunk_at_def)
    moreover have "trash_ok t" using s1 trash_ok_cong [of t s1] by (auto simp: t_def)
    moreover have "ids_ok E t"
      by (rule ids_ok_mono [OF wfD(6) [OF ok]])
        (auto simp: t_def s1_def q_def used_ids_def g_def fresh_id_def)
    ultimately show ?thesis using sch by (simp add: wf_def)
  qed
  moreover have "create_generation E w s = Some (g, t)"
    using sch by (simp add: create_generation_def new_id_def now_ms_def g_def fresh_id_def q_def
        t_def s1_def insert_generation_def checked_def)
  moreover have "spare t w g" using noref by (simp add: spare_def t_def s1_def q_def)
  moreover have "\<forall>c \<in> set (chunks t). c_generation_id c \<noteq> g" using nochunk by (simp add: t_def s1_def)
  ultimately show thesis
    using that [of g t "clock_ms E (clock_reads s)"] new by (simp add: t_def s1_def q_def)
qed

lemma delete_generation_ok:
  assumes ok: "wf E s" and g: "\<forall>r \<in> set (nodes s). n_content_generation_id r \<noteq> Some g"
  shows "delete_generation g s = Some (drop_generations (\<lambda>q. g_id q = g) s)"
    "wf E (drop_generations (\<lambda>q. g_id q = g) s)"
proof -
  let ?t = "drop_generations (\<lambda>q. g_id q = g) s"
  have sch: "schema_ok ?t" by (rule schema_drop_generations) (use ok g in auto)
  then show "delete_generation g s = Some ?t"
    by (simp add: delete_generation_def delete_generations_def checked_def)
  have "tree_ok ?t" using ok by (subst tree_ok_cong [of ?t s]) auto
  moreover have "log_ok ?t" using ok log_ok_cong [of ?t s] by auto
  moreover have "content_ok ?t"
  proof (rule content_frame [OF wfD(4) [OF ok]])
    fix r h i assume "r \<in> set (nodes ?t)" "n_content_generation_id r = Some h"
    then have "h \<noteq> g" using g by auto
    then show "chunk_at ?t h i = chunk_at s h i"
      by (intro chunk_at_filter [where P = "\<lambda>c. c_generation_id c \<notin> g_id ` {q \<in> set (generations s). g_id q = g}"]) auto
  qed (use g in auto)
  moreover have "trash_ok ?t" using ok trash_ok_cong [of ?t s] by auto
  moreover have "ids_ok E ?t" by (rule ids_ok_mono [OF wfD(6) [OF ok]]) auto
  ultimately show "wf E ?t" using sch by (simp add: wf_def)
qed

text \<open>Creating a generation, staging chunks into it and deleting it leaves no trace.\<close>

lemma unstage:
  assumes E: "ext_ok E" and ok: "wf E s" and w: "w \<in> w_id ` set (workspaces s)"
    and c: "create_generation E w s = Some (g, s1)" and t: "staged g s1 t" "wf E t"
  obtains u where "delete_generation g t = Some u" "wf E u" "same_rows s u"
proof -
  obtain now where s1: "spare s1 w g" "\<forall>c \<in> set (chunks s1). c_generation_id c \<noteq> g"
    "g \<notin> g_id ` set (generations s)"
    "s1 = s\<lparr>generations := generations s @ [\<lparr>g_id = g, g_workspace_id = w, g_complete = 0,
       g_length = 0, g_created_at_ms = now\<rparr>], ids_used := Suc (ids_used s),
       clock_reads := Suc (clock_reads s)\<rparr>"
    by (rule create_generation_ok [OF E ok w]) (use c in auto)
  note f = staged_fields [OF t(1)]
  have unref: "\<forall>r \<in> set (nodes t). n_content_generation_id r \<noteq> Some g"
    using s1(1) f by (simp add: spare_def)
  note d = delete_generation_ok [OF t(2) unref]
  have "\<exists>q. q \<in> set (generations t) \<and> g_id q = g" using s1(1) f by (auto simp: spare_def)
  then have "g_id ` {q \<in> set (generations t). g_id q = g} = {g}" by auto
  then have one: "c_generation_id c \<notin> g_id ` {q \<in> set (generations t). g_id q = g} \<longleftrightarrow> c_generation_id c \<noteq> g"
    for c :: chunk_row by auto
  have "filter (\<lambda>c. c_generation_id c \<noteq> g) (chunks s1) = chunks s1"
    using s1(2) by (simp add: filter_id_conv)
  then have "chunks (drop_generations (\<lambda>q. g_id q = g) t) = chunks s1"
    using t(1) one by (simp add: staged_def)
  moreover have "filter (\<lambda>q. g_id q \<noteq> g) (generations t) = generations s"
    using s1(3) by (auto simp: f s1(4) filter_id_conv)
  ultimately have "same_rows s (drop_generations (\<lambda>q. g_id q = g) t)"
    by (intro same_rowsI) (simp_all add: f, simp_all add: s1(4))
  with d that show thesis by blast
qed


end
