(* ===== verification/Updates.thy ===== *)
theory Updates
  imports Effects
begin

text \<open>
  What an UPDATE of one node row does to the paths: a row that keeps its place keeps its
  path, trashing or deleting a row takes away exactly the paths through it, and re-hanging a
  row moves them. Stated once for the rows; the operations of the crate instantiate them.
\<close>

subsection \<open>In place\<close>

lemma visible_upd:
  assumes f: "keeps_place f" and t: "nodes t = upd i f (nodes s)"
  shows "visible t w q \<longleftrightarrow> (\<exists>r. visible s w r \<and> q = (if n_id r = i then f r else r))"
proof -
  define g where "g = (\<lambda>r. if n_id r = i then f r else r)"
  have keep: "n_workspace_id (g r) = n_workspace_id r" "active (g r) = active r" for r
    using keeps_placeD [OF f] by (simp_all add: g_def)
  have "visible t w q \<longleftrightarrow> (\<exists>r. visible s w r \<and> q = g r)"
    unfolding visible_def t upd_def g_def [symmetric] set_map image_iff by (auto simp: keep)
  then show ?thesis by (simp add: g_def)
qed

lemma upd_name_space:
  assumes ok: "tree_ok s" "tree_ok t" and f: "keeps_place f" and t: "nodes t = upd i f (nodes s)"
  shows "root_id w t = root_id w s" and "child_id w t = child_id w s"
proof -
  have keep: "n_id (if n_id r = i then f r else r) = n_id r"
    "n_parent_id (if n_id r = i then f r else r) = n_parent_id r"
    "n_name (if n_id r = i then f r else r) = n_name r"
    "n_kind (if n_id r = i then f r else r) = n_kind r" for r
    using keeps_placeD [OF f] by simp_all
  note vis = visible_upd [OF f t]
  have ex: "(\<exists>q. visible t w q \<and> P q) \<longleftrightarrow> (\<exists>r. visible s w r \<and> P (if n_id r = i then f r else r))" for P
    unfolding vis by blast
  show "root_id w t = root_id w s"
  proof (rule option_eqI)
    fix c
    show "root_id w t = Some c \<longleftrightarrow> root_id w s = Some c"
      unfolding root_id_iff [OF ok(1)] root_id_iff [OF ok(2)]
      using ex [of "\<lambda>r. n_parent_id r = None \<and> n_id r = c"] unfolding keep by blast
  qed
  have "child_id w t a x = child_id w s a x" for a x
  proof (rule option_eqI)
    fix c
    have "(\<exists>q. visible t w q \<and> n_id q = a \<and> n_kind q = DIRECTORY_KIND) \<longleftrightarrow>
        (\<exists>q. visible s w q \<and> n_id q = a \<and> n_kind q = DIRECTORY_KIND)"
      using ex [of "\<lambda>r. n_id r = a \<and> n_kind r = DIRECTORY_KIND"] unfolding keep by blast
    moreover have "(\<exists>r. visible t w r \<and> n_id r = c \<and> n_parent_id r = Some a \<and> n_name r = x) \<longleftrightarrow>
        (\<exists>r. visible s w r \<and> n_id r = c \<and> n_parent_id r = Some a \<and> n_name r = x)"
      using ex [of "\<lambda>r. n_id r = c \<and> n_parent_id r = Some a \<and> n_name r = x"] unfolding keep by blast
    ultimately show "child_id w t a x = Some c \<longleftrightarrow> child_id w s a x = Some c"
      unfolding child_id_iff [OF ok(1)] child_id_iff [OF ok(2)] by blast
  qed
  then show "child_id w t = child_id w s" by (simp add: fun_eq_iff)
qed

lemma upd_lookup:
  assumes ok: "tree_ok s" "tree_ok t" and f: "keeps_place f" and t: "nodes t = upd i f (nodes s)"
    and r: "r \<in> set (nodes s)" "n_id r = i"
  shows "lookup_segs t w segs
    = (if lookup_segs s w segs = Some (map_row r) then Some (map_row (f r)) else lookup_segs s w segs)"
proof -
  have "path_id t w = path_id s w"
    unfolding path_id_def upd_name_space [OF ok f t] ..
  moreover have "fetch_by_id t w j = (if fetch_by_id s w j = Some (map_row r) then Some (map_row (f r))
      else fetch_by_id s w j)" for j
  proof (cases "j = i")
    case True
    show ?thesis
    proof (cases "visible s w r")
      case True
      then have "visible t w (f r)" using r unfolding visible_upd [OF f t] by auto
      from fetch_by_id_eq [OF ok(2) this] fetch_by_id_eq [OF ok(1) True] f r \<open>j = i\<close>
      show ?thesis by simp
    next
      case False
      have "fetch_by_id s w i = None"
      proof (rule ccontr)
        assume "fetch_by_id s w i \<noteq> None"
        then obtain q where "visible s w q" "n_id q = i" using fetch_by_id_iff [OF ok(1)] by auto
        with r row_id_eq [OF ok(1), of q r] False show False by (simp add: visible_def)
      qed
      moreover have "fetch_by_id t w i = None"
      proof (rule ccontr)
        assume "fetch_by_id t w i \<noteq> None"
        then obtain q where "visible t w q" "n_id q = i" using fetch_by_id_iff [OF ok(2)] by auto
        then obtain q' where q': "visible s w q'" "q = (if n_id q' = i then f q' else q')"
          unfolding visible_upd [OF f t] by blast
        with \<open>n_id q = i\<close> f have "n_id q' = i" by (simp split: if_splits)
        with q' r row_id_eq [OF ok(1), of q' r] False show False by (simp add: visible_def)
      qed
      ultimately show ?thesis using True by simp
    qed
  next
    case False
    have "fetch_by_id s w j \<noteq> Some (map_row r)"
    proof
      assume "fetch_by_id s w j = Some (map_row r)"
      then obtain q where "n_id q = j" "map_row r = map_row q" using fetch_by_id_iff [OF ok(1)] by blast
      then show False using False r map_row_fields(1) by metis
    qed
    moreover have "fetch_by_id t w j = fetch_by_id s w j"
    proof (rule option_eqI)
      fix c
      have "(\<exists>q. visible t w q \<and> n_id q = j \<and> c = map_row q) \<longleftrightarrow>
          (\<exists>q. visible s w q \<and> n_id q = j \<and> c = map_row q)"
        unfolding visible_upd [OF f t] using False keeps_placeD(1) [OF f] by metis
      then show "fetch_by_id t w j = Some c \<longleftrightarrow> fetch_by_id s w j = Some c"
        by (simp add: fetch_by_id_iff [OF ok(1)] fetch_by_id_iff [OF ok(2)])
    qed
    ultimately show ?thesis by simp
  qed
  ultimately show ?thesis
    unfolding lookup_path_id [OF ok(1)] lookup_path_id [OF ok(2)] by (auto split: bind_split)
qed

text \<open>An UPDATE of the timestamps and the revision keeps the invariant.\<close>

lemma upd_keep_wf:
  assumes ok: "wf E s" and p: "keeps_place f" and c: "keeps_content f"
    and rev: "\<And>r. r \<in> set (nodes s) \<Longrightarrow> n_id r = i \<Longrightarrow> n_revision (f r) \<ge> 1"
  shows "update_node i f s = Some (s\<lparr>nodes := upd i f (nodes s)\<rparr>)"
    "wf E (s\<lparr>nodes := upd i f (nodes s)\<rparr>)"
proof -
  let ?t = "s\<lparr>nodes := upd i f (nodes s)\<rparr>"
  have t: "?t = s\<lparr>nodes := map (\<lambda>r. if n_id r = i then f r else r) (nodes s)\<rparr>" by (simp add: upd_def)
  have fk: "\<forall>r \<in> set (nodes s). \<forall>g. n_content_generation_id r = Some g \<longrightarrow> g \<in> g_id ` set (generations s)"
    using schema_parts(6) [OF wfD(1) [OF ok]] unfolding fk_ok_iff by blast
  have same: "n_content_generation_id (if n_id r = i then f r else r) = n_content_generation_id r" for r
    using c by simp
  have sch: "schema_ok ?t"
    unfolding t
  proof (rule schema_map_nodes [OF wfD(1) [OF ok] upd_keeps [OF p]])
    fix r assume "r \<in> set (nodes s)"
    with fk show "ref_in (n_content_generation_id (if n_id r = i then f r else r)) (map g_id (generations s))"
      unfolding same by (auto simp: ref_in_def split: option.split)
  qed
  then show "update_node i f s = Some ?t" by (simp add: update_node_upd checked_def)
  have "tree_ok ?t" by (rule tree_map_nodes [OF wfD(2) [OF ok] t sch upd_keeps [OF p]])
  moreover have "content_ok ?t" by (rule content_upd_keep [OF wfD(4) [OF ok] c rev])
  moreover have "trash_ok ?t" unfolding t by (rule trash_map_nodes [OF wfD(5) [OF ok] upd_keeps [OF p]])
  moreover have "log_ok ?t" using ok log_ok_cong [of ?t s] by auto
  moreover have "ids_ok E ?t"
  proof (rule ids_ok_mono [OF wfD(6) [OF ok]])
    have "n_id ` set (nodes ?t) = n_id ` set (nodes s)"
    proof -
      have "n_id (if n_id r = i then f r else r) = n_id r" for r using keeps_placeD(1) [OF p] by simp
      moreover have "nodes ?t = map (\<lambda>r. if n_id r = i then f r else r) (nodes s)" by (simp add: upd_def)
      ultimately show ?thesis by (simp only: set_map image_image)
    qed
    then show "n_id ` set (nodes ?t) \<subseteq> n_id ` set (nodes s) \<union> used_ids E ?t" by blast
  qed auto
  ultimately show "wf E ?t" using sch by (simp add: wf_def)
qed

end
