(* ===== verification/Content.thy ===== *)
theory Content
  imports Staging Updates
begin

text \<open>
  The upper half of \<open>fslite-sqlite/src/content.rs\<close>: the transaction that switches a node to a
  staged generation, and the operations \<open>write\<close>, \<open>write_at\<close>, \<open>append\<close>, \<open>truncate\<close>, \<open>touch\<close>
  and \<open>read\<close>. Each awaits several calls on the connection; the store they see between two of
  their own calls is the one they left, so they are modelled without other writers between.
\<close>

subsection \<open>Finalizing\<close>

record finalize_params =
  fp_allow_create :: bool
  fp_expected_revision :: "revision option"

datatype finalize_outcome =
    FinApplied raw_node
  | FinNotFound
  | FinWrongNodeType
  | FinRevisionConflict

definition file_row :: "uuid \<Rightarrow> uuid \<Rightarrow> uuid \<Rightarrow> string \<Rightarrow> nat \<Rightarrow> int \<Rightarrow> uuid \<Rightarrow> node_row" where
  "file_row i w parent_id name len now g =
     \<lparr>n_id = i, n_workspace_id = w, n_parent_id = Some parent_id, n_name = name, n_kind = FILE_KIND,
      n_size = int len, n_revision = 1, n_created_at_ms = now, n_modified_at_ms = now,
      n_accessed_at_ms = now, n_content_generation_id = Some g, n_symlink_target = None,
      n_trashed_at_ms = None\<rparr>"

definition finalize_create ::
    "ext \<Rightarrow> uuid \<Rightarrow> virtual_path \<Rightarrow> raw_node \<Rightarrow> uuid \<Rightarrow> nat \<Rightarrow> string \<Rightarrow> db \<Rightarrow>
     (finalize_outcome \<times> db) option" where
  "finalize_create E w path parent_node g len actor_json s =
     (let (node_id, s) = new_id E s;
          (now, s) = now_ms E s
      in do {
        name \<leftarrow> vp_name path;
        s \<leftarrow> insert_node (file_row node_id w (n_id parent_node) name len now g) s;
        s \<leftarrow> finalize_generation g len s;
        s \<leftarrow> append_change w Created (Some node_id) None (Some (as_str path)) (Some 1) actor_json now s;
        Some (FinApplied (map_row (file_row node_id w (n_id parent_node) name len now g)), s) })"

text \<open>The UPDATE of the content columns.\<close>

definition point_to :: "uuid \<Rightarrow> nat \<Rightarrow> int \<Rightarrow> int \<Rightarrow> node_row \<Rightarrow> node_row" where
  "point_to g len new_revision now r =
     r\<lparr>n_content_generation_id := Some g, n_size := int len, n_revision := new_revision,
       n_modified_at_ms := now, n_accessed_at_ms := now\<rparr>"

definition finalize_update ::
    "ext \<Rightarrow> uuid \<Rightarrow> virtual_path \<Rightarrow> raw_node \<Rightarrow> uuid \<Rightarrow> nat \<Rightarrow> string \<Rightarrow> db \<Rightarrow>
     (finalize_outcome \<times> db) option" where
  "finalize_update E w path existing g len actor_json s =
     (let (now, s) = now_ms E s;
          new_revision = n_revision existing + 1
      in do {
        s \<leftarrow> update_node (n_id existing) (point_to g len new_revision now) s;
        s \<leftarrow> finalize_generation g len s;
        s \<leftarrow> append_change w Modified (Some (n_id existing)) None (Some (as_str path))
               (Some new_revision) actor_json now s;
        s \<leftarrow> (case n_content_generation_id existing of
                Some old \<Rightarrow> if old \<noteq> g then delete_generation old s else Some s
              | None \<Rightarrow> Some s);
        Some (FinApplied (existing\<lparr>n_workspace_id := w, n_kind := FILE_KIND, n_size := int len,
                n_revision := new_revision, n_modified_at_ms := now, n_accessed_at_ms := now,
                n_content_generation_id := Some g, n_symlink_target := None\<rparr>), s) })"

definition finalize_tx ::
    "ext \<Rightarrow> uuid \<Rightarrow> virtual_path \<Rightarrow> uuid \<Rightarrow> nat \<Rightarrow> finalize_params \<Rightarrow> string \<Rightarrow> db \<Rightarrow>
     (finalize_outcome \<times> db) option" where
  "finalize_tx E w path g len params actor_json s =
     (case resolve s w path of
        None \<Rightarrow>
          (case vp_parent path of
             None \<Rightarrow> Some (FinNotFound, s)
           | Some parent \<Rightarrow>
               (case resolve s w parent of
                  None \<Rightarrow> Some (FinNotFound, s)
                | Some parent_node \<Rightarrow>
                    if n_kind parent_node \<noteq> DIRECTORY_KIND then Some (FinWrongNodeType, s)
                    else if \<not> fp_allow_create params then Some (FinNotFound, s)
                    else finalize_create E w path parent_node g len actor_json s))
      | Some existing \<Rightarrow>
          if n_kind existing \<noteq> FILE_KIND then Some (FinWrongNodeType, s)
          else if (case fp_expected_revision params of
                     Some expected \<Rightarrow> n_revision existing \<noteq> as_i64 (rev_get expected)
                   | None \<Rightarrow> False)
          then Some (FinRevisionConflict, s)
          else finalize_update E w path existing g len actor_json s)"

definition delete_generation_async :: "uuid \<Rightarrow> db \<Rightarrow> db" where
  "delete_generation_async g s = snd (run_stmt (delete_generation g) s)"

definition finalize ::
    "ext \<Rightarrow> uuid \<Rightarrow> virtual_path \<Rightarrow> uuid \<Rightarrow> nat \<Rightarrow> finalize_params \<Rightarrow> string \<Rightarrow> db \<Rightarrow>
     node fs_result \<times> db" where
  "finalize E w path g len params actor_json s =
     (case conn_call (finalize_tx E w path g len params actor_json) s of
        (Inl err, s) \<Rightarrow> (Inl err, delete_generation_async g s)
      | (Inr outcome, s) \<Rightarrow>
          (case outcome of
             FinApplied row \<Rightarrow> (into_node E row, s)
           | FinNotFound \<Rightarrow> (Inl (not_found (as_str path)), delete_generation_async g s)
           | FinWrongNodeType \<Rightarrow> (Inl (wrong_node_type (as_str path)), delete_generation_async g s)
           | FinRevisionConflict \<Rightarrow>
               (Inl (revision_conflict (as_str path)), delete_generation_async g s)))"

subsection \<open>The operations\<close>

definition start_new_generation :: "ext \<Rightarrow> uuid \<Rightarrow> db \<Rightarrow> uuid fs_result \<times> db" where
  "start_new_generation E w s = conn_call (create_generation E w) s"

text \<open>The quota of the workspace, as the code casts it.\<close>

definition max_file_bytes :: "db \<Rightarrow> uuid \<Rightarrow> nat fs_result" where
  "max_file_bytes s w = (case fetch_max_file_bytes s w of
     None \<Rightarrow> Inl (not_found w)
   | Some m \<Rightarrow> Inr (unat (as_u64 m)))"

definition write_op ::
    "ext \<Rightarrow> uuid \<Rightarrow> virtual_path \<Rightarrow> byte list fs_result list \<Rightarrow> write_options \<Rightarrow> string \<Rightarrow> db \<Rightarrow>
     node fs_result \<times> db" where
  "write_op E w path source options actor_json s =
     (case max_file_bytes s w of
        Inl err \<Rightarrow> (Inl err, s)
      | Inr cap \<Rightarrow>
          (case start_new_generation E w s of
             (Inl err, s) \<Rightarrow> (Inl err, s)
           | (Inr g, s) \<Rightarrow>
               (case stage_source g cap source s of
                  (Inl err, s) \<Rightarrow> (Inl err, s)
                | (Inr (g, len), s) \<Rightarrow>
                    finalize E w path g len
                      \<lparr>fp_allow_create = wo_create options,
                       fp_expected_revision = wo_expected_revision options\<rparr> actor_json s)))"

definition resolve_existing_file :: "uuid \<Rightarrow> virtual_path \<Rightarrow> db \<Rightarrow> raw_node option fs_result" where
  "resolve_existing_file w path s = (case resolve s w path of
     Some node \<Rightarrow> if n_kind node = FILE_KIND then Inr (Some node)
                  else Inl (wrong_node_type (as_str path))
   | None \<Rightarrow> Inr None)"

text \<open>
  What goes into the new generation: the kept prefix, zeros up to the offset, the source, and
  the kept suffix. The \<open>expect\<close> on a missing old generation is a panic, reported as an
  internal error; a file always has a generation.
\<close>

definition fill_generation ::
    "nat \<Rightarrow> uuid option \<Rightarrow> nat \<Rightarrow> byte list fs_result list \<Rightarrow> bool \<Rightarrow> chunk_writer \<Rightarrow> db \<Rightarrow>
     unit fs_result \<times> chunk_writer \<times> db" where
  "fill_generation old_length old_generation_id offset source preserve_old_suffix cw s =
     cw_bind
       (case old_generation_id of
          Some old \<Rightarrow> copy_prefix_from old (min offset old_length) cw s
        | None \<Rightarrow> (Inr (), cw, s)) (\<lambda>cw s.
     cw_bind
       (if offset > old_length then zero_fill (offset - old_length) cw s else (Inr (), cw, s)) (\<lambda>cw s.
     cw_bind (drain_source source cw s) (\<lambda>cw s.
       let new_data_end = total_len cw
       in if preserve_old_suffix \<and> new_data_end < old_length
          then (case old_generation_id of
                  Some old \<Rightarrow> copy_suffix_from old new_data_end old_length cw s
                | None \<Rightarrow> (Inl (internal_storage_failure ''panic''), cw, s))
          else (Inr (), cw, s))))"

definition write_at_impl ::
    "ext \<Rightarrow> uuid \<Rightarrow> virtual_path \<Rightarrow> nat \<Rightarrow> byte list fs_result list option \<Rightarrow> bool \<Rightarrow>
     revision option \<Rightarrow> string \<Rightarrow> bool \<Rightarrow> db \<Rightarrow> node fs_result \<times> db" where
  "write_at_impl E w path offset source create expected_revision actor_json preserve_old_suffix s =
     (case resolve_existing_file w path s of
        Inl err \<Rightarrow> (Inl err, s)
      | Inr existing \<Rightarrow>
          if existing = None \<and> \<not> create then (Inl (not_found (as_str path)), s)
          else
            let old_length = (case existing of Some n \<Rightarrow> unat (as_u64 (n_size n)) | None \<Rightarrow> 0);
                old_generation_id = Option.bind existing n_content_generation_id
            in (case max_file_bytes s w of
                  Inl err \<Rightarrow> (Inl err, s)
                | Inr cap \<Rightarrow>
                    (case start_new_generation E w s of
                       (Inl err, s) \<Rightarrow> (Inl err, s)
                     | (Inr g, s) \<Rightarrow>
                         (case fill_generation old_length old_generation_id offset
                                 (case source of Some src \<Rightarrow> src | None \<Rightarrow> [])
                                 preserve_old_suffix (new_writer g cap) s of
                            (Inl err, cw, s) \<Rightarrow> (Inl err, abort_writer cw s)
                          | (Inr _, cw, s) \<Rightarrow>
                              (case finish_writer cw s of
                                 (Inl err, s) \<Rightarrow> (Inl err, s)
                               | (Inr (g, len), s) \<Rightarrow>
                                   finalize E w path g len
                                     \<lparr>fp_allow_create = create,
                                      fp_expected_revision = expected_revision\<rparr> actor_json s)))))"

definition write_at ::
    "ext \<Rightarrow> uuid \<Rightarrow> virtual_path \<Rightarrow> nat \<Rightarrow> byte list fs_result list \<Rightarrow> write_options \<Rightarrow> string \<Rightarrow>
     db \<Rightarrow> node fs_result \<times> db" where
  "write_at E w path offset source options actor_json s =
     write_at_impl E w path offset (Some source) (wo_create options)
       (wo_expected_revision options) actor_json True s"

definition append_op ::
    "ext \<Rightarrow> uuid \<Rightarrow> virtual_path \<Rightarrow> byte list fs_result list \<Rightarrow> write_options \<Rightarrow> string \<Rightarrow> db \<Rightarrow>
     node fs_result \<times> db" where
  "append_op E w path source options actor_json s =
     (case resolve_existing_file w path s of
        Inl err \<Rightarrow> (Inl err, s)
      | Inr existing \<Rightarrow>
          let offset = (case existing of Some n \<Rightarrow> unat (as_u64 (n_size n)) | None \<Rightarrow> 0)
          in write_at_impl E w path offset (Some source) (wo_create options)
               (wo_expected_revision options) actor_json True s)"

definition truncate_op ::
    "ext \<Rightarrow> uuid \<Rightarrow> virtual_path \<Rightarrow> nat \<Rightarrow> mutation_options \<Rightarrow> string \<Rightarrow> db \<Rightarrow>
     node fs_result \<times> db" where
  "truncate_op E w path len options actor_json s =
     write_at_impl E w path len None False (mo_expected_revision options) actor_json False s"

subsection \<open>touch\<close>

datatype touch_outcome =
    TouchTouched raw_node
  | TouchCreated raw_node
  | TouchNotFound
  | TouchWrongNodeType
  | TouchRevisionConflict

definition touch_result :: "ext \<Rightarrow> virtual_path \<Rightarrow> touch_outcome \<Rightarrow> node fs_result" where
  "touch_result E path outcome = (case outcome of
     TouchTouched row \<Rightarrow> into_node E row
   | TouchCreated row \<Rightarrow> into_node E row
   | TouchNotFound \<Rightarrow> Inl (not_found (as_str path))
   | TouchWrongNodeType \<Rightarrow> Inl (wrong_node_type (as_str path))
   | TouchRevisionConflict \<Rightarrow> Inl (revision_conflict (as_str path)))"

definition bump_row :: "int \<Rightarrow> int \<Rightarrow> node_row \<Rightarrow> node_row" where
  "bump_row new_revision now r =
     r\<lparr>n_revision := new_revision, n_modified_at_ms := now, n_accessed_at_ms := now\<rparr>"

definition touch_tx ::
    "ext \<Rightarrow> uuid \<Rightarrow> virtual_path \<Rightarrow> touch_options \<Rightarrow> string \<Rightarrow> db \<Rightarrow> (touch_outcome \<times> db) option" where
  "touch_tx E w path options actor_json s =
     (case resolve s w path of
        Some node \<Rightarrow>
          if n_kind node \<noteq> FILE_KIND then Some (TouchWrongNodeType, s)
          else if (case tco_expected_revision options of
                     Some expected \<Rightarrow> n_revision node \<noteq> as_i64 (rev_get expected)
                   | None \<Rightarrow> False)
          then Some (TouchRevisionConflict, s)
          else
            let (now, s) = now_ms E s
            in do {
              s \<leftarrow> update_node (n_id node) (bump_row (n_revision node + 1) now) s;
              updated \<leftarrow> fetch_by_id s w (n_id node);
              Some (TouchTouched updated, s) }
      | None \<Rightarrow>
          if \<not> tco_create options then Some (TouchNotFound, s)
          else do {
            (g, s) \<leftarrow> create_generation E w s;
            s \<leftarrow> finalize_generation g 0 s;
            (outcome, s) \<leftarrow> finalize_tx E w path g 0
              \<lparr>fp_allow_create = True, fp_expected_revision = None\<rparr> actor_json s;
            Some (case outcome of
                    FinApplied row \<Rightarrow> TouchCreated row
                  | FinNotFound \<Rightarrow> TouchNotFound
                  | FinWrongNodeType \<Rightarrow> TouchWrongNodeType
                  | FinRevisionConflict \<Rightarrow> TouchRevisionConflict, s) })"

definition touch ::
    "ext \<Rightarrow> uuid \<Rightarrow> virtual_path \<Rightarrow> touch_options \<Rightarrow> string \<Rightarrow> db \<Rightarrow> node fs_result \<times> db" where
  "touch E w path options actor_json s =
     finish_call (touch_result E path) (conn_call (touch_tx E w path options actor_json) s)"

subsection \<open>read\<close>

text \<open>\<open>FileRead\<close>, with the pieces its stream yields when it is read from the store as it is.\<close>

record file_read =
  fr_logical_length :: u64
  fr_revision :: revision
  fr_range :: byte_range
  fr_stream :: "byte list list"

definition read_op :: "uuid \<Rightarrow> virtual_path \<Rightarrow> read_options \<Rightarrow> db \<Rightarrow> file_read fs_result" where
  "read_op w path options s =
     (case resolve s w path of
        None \<Rightarrow> Inl (not_found (as_str path))
      | Some node \<Rightarrow>
          if n_kind node \<noteq> FILE_KIND then Inl (wrong_node_type (as_str path))
          else
            let logical_size = as_u64 (n_size node)
            in (case rev_new (as_u64 (n_revision node)) of
                  None \<Rightarrow> Inl (internal_storage_failure ''stored revision was zero'')
                | Some revision \<Rightarrow>
                    let requested = (case ro_range options of Some r \<Rightarrow> r | None \<Rightarrow> br_new 0 logical_size)
                    in if br_start requested > logical_size then Inl (invalid_range (as_str path))
                       else
                         let start = br_start requested;
                             stop = min (br_end requested) logical_size
                         in res_bind
                              (if start \<ge> stop then Inr []
                               else (case n_content_generation_id node of
                                       None \<Rightarrow> Inl (internal_storage_failure ''panic'')
                                     | Some g \<Rightarrow> Inr (chunk_range_stream s g (unat start) (unat stop))))
                              (\<lambda>stream. Inr \<lparr>fr_logical_length = logical_size, fr_revision = revision,
                                             fr_range = br_new start stop, fr_stream = stream\<rparr>)))"

end
