(* ===== verification/Mutate.thy ===== *)
theory Mutate
  imports Directory Content
begin

text \<open>
  \<open>fslite-sqlite/src/mutate.rs\<close>, all but the batches: copy, move, permanent removal, symbolic
  links and attributes. Each transaction is a function from the store to its outcome and the
  new store; \<open>None\<close> is a failed statement or a panic, which rolls the transaction back, or,
  for the recursive query of \<open>purge_subtree\<close> and the loop of \<open>copy_subtree\<close>, not returning.
\<close>

subsection \<open>Destinations\<close>

datatype destination =
    DestReady uuid "raw_node option"
  | DestIsRoot
  | DestParentNotFound
  | DestParentNotDirectory

definition resolve_destination :: "db \<Rightarrow> uuid \<Rightarrow> virtual_path \<Rightarrow> destination option" where
  "resolve_destination s w to =
     (case vp_name to of
        None \<Rightarrow> Some DestIsRoot
      | Some name \<Rightarrow> do {
          parent_path \<leftarrow> vp_parent to;
          Some (case resolve_following s w parent_path True of
                  RFound parent \<Rightarrow>
                    if n_kind parent = DIRECTORY_KIND
                    then DestReady (n_id parent) (fetch_child s w (n_id parent) name)
                    else DestParentNotDirectory
                | _ \<Rightarrow> DestParentNotFound) })"

definition is_same_or_descendant :: "virtual_path \<Rightarrow> virtual_path \<Rightarrow> bool" where
  "is_same_or_descendant ancestor candidate \<longleftrightarrow>
     (if as_str candidate = as_str ancestor then True
      else let pre = (if as_str ancestor = ''/'' then ''/'' else as_str ancestor @ ''/'')
           in prefix pre (as_str candidate))"

text \<open>A revision precondition that the node fails.\<close>

definition stale :: "revision option \<Rightarrow> raw_node \<Rightarrow> bool" where
  "stale expected_revision n = (case expected_revision of
     Some expected \<Rightarrow> n_revision n \<noteq> as_i64 (rev_get expected) | None \<Rightarrow> False)"

subsection \<open>Removing a subtree\<close>

text \<open>
  The recursive select of \<open>purge_subtree\<close>, level by level: a query over an acyclic table is
  done after as many levels as there are rows.
\<close>

fun subtree_levels :: "node_row list \<Rightarrow> nat \<Rightarrow> node_row list \<Rightarrow> node_row list option" where
  "subtree_levels rows fuel [] = Some []"
| "subtree_levels rows 0 (d # ds) = None"
| "subtree_levels rows (Suc fuel) (d # ds) =
     map_option (\<lambda>rest. (d # ds) @ rest)
       (subtree_levels rows fuel
         (concat (map (\<lambda>p. filter (\<lambda>r. n_parent_id r = Some (n_id p)) rows) (d # ds))))"

definition subtree_generations :: "db \<Rightarrow> uuid \<Rightarrow> uuid list option" where
  "subtree_generations s i =
     map_option (\<lambda>rows. concat (map (\<lambda>r. case n_content_generation_id r of None \<Rightarrow> [] | Some g \<Rightarrow> [g]) rows))
       (subtree_levels (nodes s) (Suc (length (nodes s))) (filter (\<lambda>r. n_id r = i) (nodes s)))"

fun delete_each_generation :: "uuid list \<Rightarrow> db \<Rightarrow> db option" where
  "delete_each_generation [] s = Some s"
| "delete_each_generation (g # gs) s =
     Option.bind (delete_generations (\<lambda>q. g_id q = g) s) (delete_each_generation gs)"

definition purge_subtree :: "uuid \<Rightarrow> db \<Rightarrow> db option" where
  "purge_subtree i s = do {
     generation_ids \<leftarrow> subtree_generations s i;
     s \<leftarrow> delete_nodes (\<lambda>r. n_id r = i) s;
     delete_each_generation generation_ids s }"

subsection \<open>copy\<close>

datatype copy_outcome =
    CopyCreated raw_node
  | CopySourceNotFound
  | CopySourceLinkLoop
  | CopySourceNotRecursive
  | CopyRevisionConflict
  | CopyDestIsRoot
  | CopyDestParentNotFound
  | CopyDestParentNotDirectory
  | CopyDestAlreadyExists

definition copy_result :: "ext \<Rightarrow> copy_outcome \<Rightarrow> virtual_path \<Rightarrow> virtual_path \<Rightarrow> node fs_result" where
  "copy_result E outcome from_path to_path = (case outcome of
     CopyCreated row \<Rightarrow> into_node E row
   | CopySourceNotFound \<Rightarrow> Inl (not_found (as_str from_path))
   | CopySourceLinkLoop \<Rightarrow> Inl (link_loop (as_str from_path))
   | CopySourceNotRecursive \<Rightarrow> Inl (wrong_node_type (as_str from_path))
   | CopyRevisionConflict \<Rightarrow> Inl (revision_conflict (as_str from_path))
   | CopyDestIsRoot \<Rightarrow> Inl (already_exists (as_str to_path))
   | CopyDestAlreadyExists \<Rightarrow> Inl (already_exists (as_str to_path))
   | CopyDestParentNotFound \<Rightarrow> Inl (not_found (as_str to_path))
   | CopyDestParentNotDirectory \<Rightarrow> Inl (wrong_node_type (as_str to_path)))"

definition fetch_full :: "db \<Rightarrow> uuid \<Rightarrow> uuid \<Rightarrow> raw_node option" where
  "fetch_full s w i = fetch_by_id s w i"

text \<open>The independent generation of a copied file.\<close>

definition copy_generation ::
    "ext \<Rightarrow> uuid \<Rightarrow> raw_node \<Rightarrow> db \<Rightarrow> (uuid option \<times> db) option" where
  "copy_generation E w old s =
     (if n_kind old = DIRECTORY_KIND \<or> n_kind old = SYMLINK_KIND then Some (None, s)
      else if n_kind old = FILE_KIND then
        (case n_content_generation_id old of
           None \<Rightarrow> Some (None, s)
         | Some old_generation_id \<Rightarrow> do {
             (g, s) \<leftarrow> create_generation E w s;
             s \<leftarrow> insert_chunks (map (\<lambda>c. c\<lparr>c_generation_id := g\<rparr>)
                    (filter (\<lambda>c. c_generation_id c = old_generation_id) (chunks s))) s;
             s \<leftarrow> finalize_generation g (unat (as_u64 (n_size old))) s;
             Some (Some g, s) })
      else None)"

definition copied_row ::
    "uuid \<Rightarrow> uuid \<Rightarrow> uuid \<Rightarrow> string \<Rightarrow> raw_node \<Rightarrow> int \<Rightarrow> uuid option \<Rightarrow> node_row" where
  "copied_row i w parent_id name old now g =
     \<lparr>n_id = i, n_workspace_id = w, n_parent_id = Some parent_id, n_name = name,
      n_kind = n_kind old, n_size = n_size old, n_revision = 1, n_created_at_ms = now,
      n_modified_at_ms = now, n_accessed_at_ms = now, n_content_generation_id = g,
      n_symlink_target = n_symlink_target old, n_trashed_at_ms = None\<rparr>"

text \<open>One round of the loop: the copy of one node, and its children to copy next.\<close>

definition copy_node ::
    "ext \<Rightarrow> uuid \<Rightarrow> int \<Rightarrow> raw_node \<Rightarrow> uuid \<Rightarrow> string \<Rightarrow> db \<Rightarrow>
     (raw_node \<times> (raw_node \<times> uuid \<times> string) list \<times> db) option" where
  "copy_node E w now old new_parent_id new_name s =
     (let (i, s) = new_id E s
      in do {
        (g, s) \<leftarrow> copy_generation E w old s;
        s \<leftarrow> insert_node (copied_row i w new_parent_id new_name old now g) s;
        s \<leftarrow> insert_attributes (map (\<lambda>a. a\<lparr>a_node_id := i\<rparr>)
               (filter (\<lambda>a. a_node_id a = n_id old) (attributes s))) s;
        Some (map_row (copied_row i w new_parent_id new_name old now g),
              (if n_kind old = DIRECTORY_KIND
               then map (\<lambda>c. (c, i, n_name c)) (fetch_children s w (n_id old)) else []), s) })"

text \<open>The loop over the stack, whose top is the head of the list.\<close>

partial_function (option) copy_loop ::
    "ext \<Rightarrow> uuid \<Rightarrow> int \<Rightarrow> (raw_node \<times> uuid \<times> string) list \<Rightarrow> raw_node option \<Rightarrow> db \<Rightarrow>
     (raw_node \<times> db) option" where
  "copy_loop E w now stack root_copy s =
     (case stack of
        [] \<Rightarrow> Option.bind root_copy (\<lambda>n. Some (n, s))
      | item # rest \<Rightarrow>
          Option.bind (copy_node E w now (fst item) (fst (snd item)) (snd (snd item)) s) (\<lambda>r.
            copy_loop E w now (List.rev (fst (snd r)) @ rest)
              (case root_copy of None \<Rightarrow> Some (fst r) | Some n \<Rightarrow> Some n) (snd (snd r))))"

definition copy_subtree ::
    "ext \<Rightarrow> uuid \<Rightarrow> raw_node \<Rightarrow> uuid \<Rightarrow> string \<Rightarrow> int \<Rightarrow> db \<Rightarrow> (raw_node \<times> db) option" where
  "copy_subtree E w source dest_parent_id dest_name now s = do {
     first \<leftarrow> fetch_full s w (n_id source);
     copy_loop E w now [(first, dest_parent_id, dest_name)] None s }"

definition copy_tx ::
    "ext \<Rightarrow> uuid \<Rightarrow> virtual_path \<Rightarrow> virtual_path \<Rightarrow> copy_options \<Rightarrow> string \<Rightarrow> db \<Rightarrow>
     (copy_outcome \<times> db) option" where
  "copy_tx E w from_path to_path options actor_json s =
     (case resolve_following s w from_path False of
        RNotFound \<Rightarrow> Some (CopySourceNotFound, s)
      | RBrokenLink \<Rightarrow> Some (CopySourceNotFound, s)
      | RLinkLoop \<Rightarrow> Some (CopySourceLinkLoop, s)
      | RFound source \<Rightarrow>
          if stale (cpo_expected_revision options) source then Some (CopyRevisionConflict, s)
          else if n_kind source = DIRECTORY_KIND \<and> \<not> cpo_recursive options
          then Some (CopySourceNotRecursive, s)
          else do {
            dest \<leftarrow> resolve_destination s w to_path;
            (case dest of
               DestIsRoot \<Rightarrow> Some (CopyDestIsRoot, s)
             | DestParentNotFound \<Rightarrow> Some (CopyDestParentNotFound, s)
             | DestParentNotDirectory \<Rightarrow> Some (CopyDestParentNotDirectory, s)
             | DestReady dest_parent_id existing \<Rightarrow>
                 if existing \<noteq> None \<and> \<not> cpo_overwrite options then Some (CopyDestAlreadyExists, s)
                 else do {
                   dest_name \<leftarrow> vp_name to_path;
                   s \<leftarrow> (case existing of Some n \<Rightarrow> purge_subtree (n_id n) s | None \<Rightarrow> Some s);
                   let (now, s) = now_ms E s
                   in do {
                     (new_node, s) \<leftarrow> copy_subtree E w source dest_parent_id dest_name now s;
                     s \<leftarrow> append_change w Copied (Some (n_id new_node)) (Some (as_str from_path))
                            (Some (as_str to_path)) (Some 1) actor_json now s;
                     Some (CopyCreated new_node, s) } }) })"

definition copy_op ::
    "ext \<Rightarrow> uuid \<Rightarrow> virtual_path \<Rightarrow> virtual_path \<Rightarrow> copy_options \<Rightarrow> string \<Rightarrow> db \<Rightarrow>
     node fs_result \<times> db" where
  "copy_op E w from_path to_path options actor_json s =
     finish_call (\<lambda>outcome. copy_result E outcome from_path to_path)
       (conn_call (copy_tx E w from_path to_path options actor_json) s)"

subsection \<open>move\<close>

datatype move_outcome =
    MoveMoved raw_node
  | MoveSourceIsRoot
  | MoveSourceNotFound
  | MoveSourceLinkLoop
  | MoveDestInsideSource
  | MoveRevisionConflict
  | MoveDestIsRoot
  | MoveDestParentNotFound
  | MoveDestParentNotDirectory
  | MoveDestAlreadyExists

definition move_result :: "ext \<Rightarrow> move_outcome \<Rightarrow> virtual_path \<Rightarrow> virtual_path \<Rightarrow> node fs_result" where
  "move_result E outcome from_path to_path = (case outcome of
     MoveMoved row \<Rightarrow> into_node E row
   | MoveSourceIsRoot \<Rightarrow> Inl (permission_denied (as_str from_path))
   | MoveDestInsideSource \<Rightarrow> Inl (permission_denied (as_str from_path))
   | MoveSourceNotFound \<Rightarrow> Inl (not_found (as_str from_path))
   | MoveSourceLinkLoop \<Rightarrow> Inl (link_loop (as_str from_path))
   | MoveRevisionConflict \<Rightarrow> Inl (revision_conflict (as_str from_path))
   | MoveDestIsRoot \<Rightarrow> Inl (already_exists (as_str to_path))
   | MoveDestAlreadyExists \<Rightarrow> Inl (already_exists (as_str to_path))
   | MoveDestParentNotFound \<Rightarrow> Inl (not_found (as_str to_path))
   | MoveDestParentNotDirectory \<Rightarrow> Inl (wrong_node_type (as_str to_path)))"

definition rehang :: "uuid \<Rightarrow> string \<Rightarrow> int \<Rightarrow> int \<Rightarrow> node_row \<Rightarrow> node_row" where
  "rehang parent_id name new_revision now r =
     r\<lparr>n_parent_id := Some parent_id, n_name := name, n_revision := new_revision,
       n_modified_at_ms := now\<rparr>"

definition move_tx ::
    "ext \<Rightarrow> uuid \<Rightarrow> virtual_path \<Rightarrow> virtual_path \<Rightarrow> move_options \<Rightarrow> string \<Rightarrow> db \<Rightarrow>
     (move_outcome \<times> db) option" where
  "move_tx E w from_path to_path options actor_json s =
     (if vp_name from_path = None then Some (MoveSourceIsRoot, s)
      else case resolve_following s w from_path False of
        RNotFound \<Rightarrow> Some (MoveSourceNotFound, s)
      | RBrokenLink \<Rightarrow> Some (MoveSourceNotFound, s)
      | RLinkLoop \<Rightarrow> Some (MoveSourceLinkLoop, s)
      | RFound source \<Rightarrow>
          if stale (mvo_expected_revision options) source then Some (MoveRevisionConflict, s)
          else if is_same_or_descendant from_path to_path then Some (MoveDestInsideSource, s)
          else do {
            dest \<leftarrow> resolve_destination s w to_path;
            (case dest of
               DestIsRoot \<Rightarrow> Some (MoveDestIsRoot, s)
             | DestParentNotFound \<Rightarrow> Some (MoveDestParentNotFound, s)
             | DestParentNotDirectory \<Rightarrow> Some (MoveDestParentNotDirectory, s)
             | DestReady dest_parent_id existing \<Rightarrow>
                 if existing \<noteq> None \<and> \<not> mvo_overwrite options then Some (MoveDestAlreadyExists, s)
                 else do {
                   dest_name \<leftarrow> vp_name to_path;
                   s \<leftarrow> (case existing of Some n \<Rightarrow> purge_subtree (n_id n) s | None \<Rightarrow> Some s);
                   let (now, s) = now_ms E s;
                       new_revision = n_revision source + 1
                   in do {
                     s \<leftarrow> update_node (n_id source) (rehang dest_parent_id dest_name new_revision now) s;
                     s \<leftarrow> append_change w Moved (Some (n_id source)) (Some (as_str from_path))
                            (Some (as_str to_path)) (Some new_revision) actor_json now s;
                     Some (MoveMoved (source\<lparr>n_workspace_id := w, n_parent_id := Some dest_parent_id,
                             n_name := dest_name, n_revision := new_revision,
                             n_modified_at_ms := now\<rparr>), s) } }) })"

definition move_path ::
    "ext \<Rightarrow> uuid \<Rightarrow> virtual_path \<Rightarrow> virtual_path \<Rightarrow> move_options \<Rightarrow> string \<Rightarrow> db \<Rightarrow>
     node fs_result \<times> db" where
  "move_path E w from_path to_path options actor_json s =
     finish_call (\<lambda>outcome. move_result E outcome from_path to_path)
       (conn_call (move_tx E w from_path to_path options actor_json) s)"

subsection \<open>remove\<close>

datatype remove_outcome =
    RemoveRemoved
  | RemoveIsRoot
  | RemoveNotFound
  | RemoveLinkLoop
  | RemoveDirectoryNotEmpty
  | RemoveRevisionConflict

definition remove_result :: "remove_outcome \<Rightarrow> virtual_path \<Rightarrow> unit fs_result" where
  "remove_result outcome path = (case outcome of
     RemoveRemoved \<Rightarrow> Inr ()
   | RemoveIsRoot \<Rightarrow> Inl (permission_denied (as_str path))
   | RemoveNotFound \<Rightarrow> Inl (not_found (as_str path))
   | RemoveLinkLoop \<Rightarrow> Inl (link_loop (as_str path))
   | RemoveDirectoryNotEmpty \<Rightarrow> Inl (directory_not_empty (as_str path))
   | RemoveRevisionConflict \<Rightarrow> Inl (revision_conflict (as_str path)))"

definition remove_tx ::
    "ext \<Rightarrow> uuid \<Rightarrow> virtual_path \<Rightarrow> remove_options \<Rightarrow> string \<Rightarrow> db \<Rightarrow> (remove_outcome \<times> db) option" where
  "remove_tx E w path options actor_json s =
     (if vp_name path = None then Some (RemoveIsRoot, s)
      else case resolve_following s w path False of
        RNotFound \<Rightarrow> Some (RemoveNotFound, s)
      | RBrokenLink \<Rightarrow> Some (RemoveNotFound, s)
      | RLinkLoop \<Rightarrow> Some (RemoveLinkLoop, s)
      | RFound node \<Rightarrow>
          if stale (rmo_expected_revision options) node then Some (RemoveRevisionConflict, s)
          else if n_kind node = DIRECTORY_KIND \<and> \<not> rmo_recursive options
            \<and> has_active_children s w (n_id node)
          then Some (RemoveDirectoryNotEmpty, s)
          else do {
            s \<leftarrow> purge_subtree (n_id node) s;
            let (now, s) = now_ms E s
            in do {
              s \<leftarrow> append_change w Removed (Some (n_id node)) (Some (as_str path)) None None
                     actor_json now s;
              Some (RemoveRemoved, s) } })"

definition remove_op ::
    "ext \<Rightarrow> uuid \<Rightarrow> virtual_path \<Rightarrow> remove_options \<Rightarrow> string \<Rightarrow> db \<Rightarrow> unit fs_result \<times> db" where
  "remove_op E w path options actor_json s =
     finish_call (\<lambda>outcome. remove_result outcome path)
       (conn_call (remove_tx E w path options actor_json) s)"

subsection \<open>symlink and read_link\<close>

datatype symlink_outcome =
    SymlinkCreated raw_node
  | SymlinkExisting raw_node
  | SymlinkAlreadyExists
  | SymlinkWrongNodeType
  | SymlinkParentNotFound
  | SymlinkRevisionConflict

definition symlink_result :: "ext \<Rightarrow> symlink_outcome \<Rightarrow> virtual_path \<Rightarrow> node fs_result" where
  "symlink_result E outcome link = (case outcome of
     SymlinkCreated row \<Rightarrow> into_node E row
   | SymlinkExisting row \<Rightarrow> into_node E row
   | SymlinkAlreadyExists \<Rightarrow> Inl (already_exists (as_str link))
   | SymlinkWrongNodeType \<Rightarrow> Inl (wrong_node_type (as_str link))
   | SymlinkParentNotFound \<Rightarrow> Inl (not_found (as_str link))
   | SymlinkRevisionConflict \<Rightarrow> Inl (revision_conflict (as_str link)))"

definition link_row :: "uuid \<Rightarrow> uuid \<Rightarrow> uuid \<Rightarrow> string \<Rightarrow> int \<Rightarrow> string \<Rightarrow> node_row" where
  "link_row i w parent_id name now target =
     \<lparr>n_id = i, n_workspace_id = w, n_parent_id = Some parent_id, n_name = name,
      n_kind = SYMLINK_KIND, n_size = 0, n_revision = 1, n_created_at_ms = now,
      n_modified_at_ms = now, n_accessed_at_ms = now, n_content_generation_id = None,
      n_symlink_target = Some target, n_trashed_at_ms = None\<rparr>"

definition symlink_tx ::
    "ext \<Rightarrow> uuid \<Rightarrow> virtual_path \<Rightarrow> string \<Rightarrow> create_options \<Rightarrow> string \<Rightarrow> db \<Rightarrow>
     (symlink_outcome \<times> db) option" where
  "symlink_tx E w link target options actor_json s = do {
     name \<leftarrow> vp_name link;
     parent_path \<leftarrow> vp_parent link;
     (case resolve_following s w parent_path True of
        RFound parent \<Rightarrow>
          if n_kind parent \<noteq> DIRECTORY_KIND then Some (SymlinkWrongNodeType, s)
          else (case fetch_child s w (n_id parent) name of
            Some existing \<Rightarrow>
              Some (if n_kind existing \<noteq> SYMLINK_KIND then SymlinkWrongNodeType
                    else if \<not> co_exist_ok options then SymlinkAlreadyExists
                    else if stale (co_expected_revision options) existing then SymlinkRevisionConflict
                    else SymlinkExisting existing, s)
          | None \<Rightarrow>
              let (node_id, s) = new_id E s;
                  (now, s) = now_ms E s
              in do {
                s \<leftarrow> insert_node (link_row node_id w (n_id parent) name now target) s;
                s \<leftarrow> append_change w Created (Some node_id) None (Some (as_str link)) (Some 1)
                       actor_json now s;
                Some (SymlinkCreated (map_row (link_row node_id w (n_id parent) name now target)), s) })
      | _ \<Rightarrow> Some (SymlinkParentNotFound, s)) }"

definition symlink ::
    "ext \<Rightarrow> uuid \<Rightarrow> link_target \<Rightarrow> virtual_path \<Rightarrow> create_options \<Rightarrow> string \<Rightarrow> db \<Rightarrow>
     node fs_result \<times> db" where
  "symlink E w target link options actor_json s =
     (case vp_name link of
        None \<Rightarrow> (Inl (already_exists (as_str link)), s)
      | Some _ \<Rightarrow>
          finish_call (\<lambda>outcome. symlink_result E outcome link)
            (conn_call (symlink_tx E w link (target_str target) options actor_json) s))"

definition read_link :: "uuid \<Rightarrow> virtual_path \<Rightarrow> db \<Rightarrow> link_target fs_result" where
  "read_link w path s =
     (case resolve_following s w path False of
        RFound node \<Rightarrow>
          if n_kind node = SYMLINK_KIND
          then (case n_symlink_target node of
                  Some target \<Rightarrow> lt_parse target
                | None \<Rightarrow> Inl (internal_storage_failure ''symlink node missing a stored target''))
          else Inl (wrong_node_type (as_str path))
      | RNotFound \<Rightarrow> Inl (not_found (as_str path))
      | RBrokenLink \<Rightarrow> Inl (not_found (as_str path))
      | RLinkLoop \<Rightarrow> Inl (link_loop (as_str path)))"

subsection \<open>Attributes\<close>

definition MAX_ATTRIBUTE_KEY_BYTES :: nat where "MAX_ATTRIBUTE_KEY_BYTES = 256"
definition MAX_ATTRIBUTE_VALUE_BYTES :: nat where "MAX_ATTRIBUTE_VALUE_BYTES = 4096"
definition MAX_ATTRIBUTES_PER_NODE :: nat where "MAX_ATTRIBUTES_PER_NODE = 64"

datatype attribute_outcome =
    AttrUpdated raw_node "(string \<times> json) list"
  | AttrNotFound
  | AttrLinkLoop
  | AttrInvalidKey
  | AttrQuotaExceeded
  | AttrRevisionConflict

definition attribute_result :: "ext \<Rightarrow> attribute_outcome \<Rightarrow> virtual_path \<Rightarrow> node fs_result" where
  "attribute_result E outcome path = (case outcome of
     AttrUpdated row attrs \<Rightarrow> res_bind (into_node E row) (\<lambda>n. Inr (n\<lparr>nd_attributes := attrs\<rparr>))
   | AttrNotFound \<Rightarrow> Inl (not_found (as_str path))
   | AttrLinkLoop \<Rightarrow> Inl (link_loop (as_str path))
   | AttrInvalidKey \<Rightarrow> Inl (invalid_path_or_name (as_str path))
   | AttrQuotaExceeded \<Rightarrow> Inl (quota_exceeded (as_str path))
   | AttrRevisionConflict \<Rightarrow> Inl (revision_conflict (as_str path)))"

definition build_attributes_map :: "ext \<Rightarrow> db \<Rightarrow> uuid \<Rightarrow> (string \<times> json) list" where
  "build_attributes_map E s i =
     map (\<lambda>a. (a_key a, JString (base64_url E (a_value a))))
       (sort_key a_key (filter (\<lambda>a. a_node_id a = i) (attributes s)))"

text \<open>INSERT ... ON CONFLICT DO UPDATE SET value = excluded.value.\<close>

definition upsert_attribute :: "uuid \<Rightarrow> string \<Rightarrow> byte list \<Rightarrow> db \<Rightarrow> db option" where
  "upsert_attribute i key val s =
     (if list_ex (\<lambda>a. a_node_id a = i \<and> a_key a = key) (attributes s)
      then checked (s\<lparr>attributes := map (\<lambda>a. if a_node_id a = i \<and> a_key a = key
                                             then a\<lparr>a_value := val\<rparr> else a) (attributes s)\<rparr>)
      else insert_attributes [\<lparr>a_node_id = i, a_key = key, a_value = val\<rparr>] s)"

definition restamp :: "int \<Rightarrow> int \<Rightarrow> node_row \<Rightarrow> node_row" where
  "restamp new_revision now r = r\<lparr>n_revision := new_revision, n_modified_at_ms := now\<rparr>"

definition set_attribute_tx ::
    "ext \<Rightarrow> uuid \<Rightarrow> virtual_path \<Rightarrow> string \<Rightarrow> byte list \<Rightarrow> mutation_options \<Rightarrow> string \<Rightarrow> db \<Rightarrow>
     (attribute_outcome \<times> db) option" where
  "set_attribute_tx E w path key val options actor_json s =
     (case resolve_following s w path False of
        RNotFound \<Rightarrow> Some (AttrNotFound, s)
      | RBrokenLink \<Rightarrow> Some (AttrNotFound, s)
      | RLinkLoop \<Rightarrow> Some (AttrLinkLoop, s)
      | RFound node \<Rightarrow>
          if key = '''' \<or> length key > MAX_ATTRIBUTE_KEY_BYTES then Some (AttrInvalidKey, s)
          else if length val > MAX_ATTRIBUTE_VALUE_BYTES then Some (AttrQuotaExceeded, s)
          else if stale (mo_expected_revision options) node then Some (AttrRevisionConflict, s)
          else if \<not> list_ex (\<lambda>a. a_node_id a = n_id node \<and> a_key a = key) (attributes s)
            \<and> length (filter (\<lambda>a. a_node_id a = n_id node) (attributes s)) \<ge> MAX_ATTRIBUTES_PER_NODE
          then Some (AttrQuotaExceeded, s)
          else do {
            s \<leftarrow> upsert_attribute (n_id node) key val s;
            let (now, s) = now_ms E s;
                new_revision = n_revision node + 1
            in do {
              s \<leftarrow> update_node (n_id node) (restamp new_revision now) s;
              s \<leftarrow> append_change w AttributeSet (Some (n_id node)) None (Some (as_str path))
                     (Some new_revision) actor_json now s;
              updated \<leftarrow> fetch_by_id s w (n_id node);
              Some (AttrUpdated updated (build_attributes_map E s (n_id node)), s) } })"

definition set_attribute ::
    "ext \<Rightarrow> uuid \<Rightarrow> virtual_path \<Rightarrow> string \<Rightarrow> byte list \<Rightarrow> mutation_options \<Rightarrow> string \<Rightarrow> db \<Rightarrow>
     node fs_result \<times> db" where
  "set_attribute E w path key val options actor_json s =
     finish_call (\<lambda>outcome. attribute_result E outcome path)
       (conn_call (set_attribute_tx E w path key val options actor_json) s)"

definition remove_attribute_tx ::
    "ext \<Rightarrow> uuid \<Rightarrow> virtual_path \<Rightarrow> string \<Rightarrow> mutation_options \<Rightarrow> string \<Rightarrow> db \<Rightarrow>
     (attribute_outcome \<times> db) option" where
  "remove_attribute_tx E w path key options actor_json s =
     (case resolve_following s w path False of
        RNotFound \<Rightarrow> Some (AttrNotFound, s)
      | RBrokenLink \<Rightarrow> Some (AttrNotFound, s)
      | RLinkLoop \<Rightarrow> Some (AttrLinkLoop, s)
      | RFound node \<Rightarrow>
          if stale (mo_expected_revision options) node then Some (AttrRevisionConflict, s)
          else
            let deleted = length (filter (\<lambda>a. a_node_id a = n_id node \<and> a_key a = key) (attributes s))
            in do {
              s \<leftarrow> delete_attributes (\<lambda>a. a_node_id a = n_id node \<and> a_key a = key) s;
              (final_node, s) \<leftarrow>
                (if deleted > 0 then
                   let (now, s) = now_ms E s;
                       new_revision = n_revision node + 1
                   in do {
                     s \<leftarrow> update_node (n_id node) (restamp new_revision now) s;
                     s \<leftarrow> append_change w AttributeRemoved (Some (n_id node)) None (Some (as_str path))
                            (Some new_revision) actor_json now s;
                     updated \<leftarrow> fetch_by_id s w (n_id node);
                     Some (updated, s) }
                 else Some (node, s));
              Some (AttrUpdated final_node (build_attributes_map E s (n_id final_node)), s) })"

definition remove_attribute ::
    "ext \<Rightarrow> uuid \<Rightarrow> virtual_path \<Rightarrow> string \<Rightarrow> mutation_options \<Rightarrow> string \<Rightarrow> db \<Rightarrow>
     node fs_result \<times> db" where
  "remove_attribute E w path key options actor_json s =
     finish_call (\<lambda>outcome. attribute_result E outcome path)
       (conn_call (remove_attribute_tx E w path key options actor_json) s)"

end
