(* ===== verification/Purge.thy ===== *)
theory Purge
  imports Mutate
begin

text \<open>
  \<open>purge_subtree\<close>, which remove, purge and the overwriting copy and move share: on a well-formed
  store it deletes exactly the rows below a node and their generations, and leaves a
  well-formed store; the paths through the node are gone and all others stay. Its recursive
  query ends for every node a path reaches, also when other rows hang in a cycle.
\<close>

subsection \<open>Climbing the parent links\<close>

definition parent_of :: "node_row list \<Rightarrow> uuid \<Rightarrow> uuid option" where
  "parent_of rows x = Option.bind (find (\<lambda>r. n_id r = x) rows) n_parent_id"

fun up :: "node_row list \<Rightarrow> nat \<Rightarrow> uuid \<Rightarrow> uuid option" where
  "up rows 0 x = Some x"
| "up rows (Suc k) x = Option.bind (parent_of rows x) (up rows k)"

lemma up_add: "up rows (a + b) x = Option.bind (up rows a x) (up rows b)"
  by (induction a arbitrary: x) (simp_all split: Option.bind_split)

lemma up_Suc: "up rows (Suc k) x = Option.bind (up rows k x) (parent_of rows)"
proof -
  have "up rows 1 = parent_of rows" by (rule ext) (simp split: Option.bind_split)
  with up_add [of rows k 1 x] show ?thesis by simp
qed

lemma up_None: "up rows a x = None \<Longrightarrow> a \<le> b \<Longrightarrow> up rows b x = None"
  using up_add [of rows a "b - a" x] by simp

lemma parent_of_eq:
  assumes "distinct (map n_id rows)" "r \<in> set rows"
  shows "parent_of rows (n_id r) = n_parent_id r"
proof -
  have "find (\<lambda>q. n_id q = n_id r) rows = Some r"
    by (rule find_unique) (use assms distinct_map_eqD in \<open>auto\<close>)
  then show ?thesis by (simp add: parent_of_def)
qed

lemma parent_of_in: "parent_of rows x = Some p \<Longrightarrow> x \<in> n_id ` set rows"
  by (auto simp: parent_of_def split: bind_splits dest!: find_SomeD)

lemma up_in:
  assumes "up rows n x = Some i" "k < n"
  obtains y where "up rows k x = Some y" "y \<in> n_id ` set rows"
proof -
  from assms have "up rows (Suc k) x \<noteq> None" using up_None [of rows "Suc k" x n] by fastforce
  with that show ?thesis unfolding up_Suc by (auto split: bind_splits dest: parent_of_in)
qed

text \<open>A chain longer than the table runs in a cycle, and so does all it leads to.\<close>

lemma long_chain_cycle:
  assumes "up rows n x = Some i" "length rows < n"
  obtains c where "0 < c" "up rows c i = Some i"
proof -
  let ?f = "\<lambda>k. up rows k x"
  have "?f ` {..<n} \<subseteq> Some ` n_id ` set rows"
    using assms(1) by (auto elim: up_in)
  then have "card (?f ` {..<n}) \<le> card (Some ` n_id ` set rows)" by (intro card_mono) auto
  also have "\<dots> \<le> length rows"
    by (metis card_image_le card_length finite_imageI le_trans List.finite_set)
  finally have "\<not> inj_on ?f {..<n}" using assms(2) by (auto dest: card_image)
  then obtain a b where "a \<noteq> b" "a < n" "b < n" "?f a = ?f b" by (auto simp: inj_on_def)
  then obtain a b where ab: "a < b" "b < n" "?f a = ?f b" by (metis nat_neq_iff)
  from ab assms obtain y where y: "?f a = Some y" by (metis less_trans up_in)
  with ab(3) have "?f b = Some y" by simp
  with y ab(1) have cyc: "up rows (b - a) y = Some y" using up_add [of rows a "b - a" x] by simp
  have "up rows n x = Option.bind (up rows a x) (up rows (n - a))"
    using up_add [of rows a "n - a" x] ab by simp
  then have i: "up rows (n - a) y = Some i" unfolding y using assms(1) by simp
  have "up rows (b - a) i = up rows (n - a + (b - a)) y" by (simp add: up_add i)
  also have "\<dots> = up rows (b - a + (n - a)) y" by (simp add: add.commute)
  also have "\<dots> = Some i" by (simp add: up_add cyc i)
  finally show thesis using that [of "b - a"] ab by simp
qed

lemma up_cycle: "up rows c i = Some i \<Longrightarrow> up rows (n * c) i = Some i"
  by (induction n) (simp_all add: up_add)

text \<open>What a path reaches is in no cycle, and nothing is on an acyclic table.\<close>

lemma lookup_up:
  assumes ok: "tree_ok s"
  shows "lookup_segs s w segs = Some n \<Longrightarrow> up (nodes s) (Suc (length segs)) (n_id n) = None"
proof (induction segs arbitrary: n rule: rev_induct)
  case Nil
  then obtain r where "r \<in> set (nodes s)" "n_parent_id r = None" "n = map_row r"
    by (auto simp: visible_def dest!: fetch_root_SomeD)
  then show ?case using parent_of_eq [OF tree_okD(1) [OF ok]] by simp
next
  case (snoc x xs)
  then obtain p where p: "lookup_segs s w xs = Some p" "fetch_child s w (n_id p) x = Some n"
    by (metis lookup_snocE)
  then obtain r where "r \<in> set (nodes s)" "n_parent_id r = Some (n_id p)" "n = map_row r"
    by (auto simp: visible_def dest!: fetch_child_SomeD)
  with snoc.IH [OF p(1)] show ?case using parent_of_eq [OF tree_okD(1) [OF ok]] by simp
qed

definition no_cycle :: "node_row list \<Rightarrow> uuid \<Rightarrow> bool" where
  "no_cycle rows i \<longleftrightarrow> (\<forall>c > 0. up rows c i \<noteq> Some i)"

lemma reachable_no_cycle:
  assumes "tree_ok s" "reachable s w n"
  shows "no_cycle (nodes s) (n_id n)"
  unfolding no_cycle_def
proof (intro allI impI notI)
  fix c :: nat assume c: "0 < c" "up (nodes s) c (n_id n) = Some (n_id n)"
  from assms obtain segs where segs: "lookup_segs s w segs = Some n" by (auto simp: reachable_def)
  have "up (nodes s) (Suc (length segs) * c) (n_id n) = None"
    by (rule up_None [OF lookup_up [OF assms(1) segs]])
      (use c mult_le_mono2 [of 1 c "Suc (length segs)"] in simp)
  with up_cycle [OF c(2), of "Suc (length segs)"] show False by simp
qed

lemma acyclic_no_cycle:
  assumes "acyclic_rows rows"
  shows "no_cycle rows i"
proof -
  from assms obtain rank :: "uuid \<Rightarrow> nat"
    where rank: "\<And>r p. r \<in> set rows \<Longrightarrow> n_parent_id r = Some p \<Longrightarrow> rank p < rank (n_id r)"
    by (auto simp: acyclic_rows_def)
  have step: "rank p < rank x" if "parent_of rows x = Some p" for x p
    using that rank by (auto simp: parent_of_def split: bind_splits dest!: find_SomeD)
  have "rank y + k \<le> rank x" if "up rows k x = Some y" for k x y
    using that by (induction k arbitrary: x) (force split: bind_splits dest: step)+
  then show ?thesis by (fastforce simp: no_cycle_def)
qed

subsection \<open>The recursive query\<close>

lemma below_first:
  "below rows a x \<longleftrightarrow> a \<in> n_id ` set rows \<and>
     (a = x \<or> (\<exists>c \<in> set rows. n_parent_id c = Some a \<and> below rows (n_id c) x))" (is "_ = ?R")
proof
  show "?R" if "below rows a x"
    using that
  proof induction
    case self
    then show ?case by simp
  next
    case (child p r)
    then show ?case by (metis below.self below.child image_eqI)
  qed
  show "below rows a x" if ?R
    using that
    by (auto intro: below.self below_trans dest: below.child [OF below.self])
      (metis below.child below.self below_trans image_eqI)
qed

lemma subtree_levels_set:
  "subtree_levels rows fuel ds = Some rs \<Longrightarrow> set ds \<subseteq> set rows \<Longrightarrow> distinct (map n_id rows) \<Longrightarrow>
    set rs = {r \<in> set rows. \<exists>d \<in> set ds. below rows (n_id d) (n_id r)}"
proof (induction rows fuel ds arbitrary: rs rule: subtree_levels.induct)
  case (1 rows fuel)
  then show ?case by simp
next
  case (2 rows d ds)
  then show ?case by simp
next
  case (3 rows fuel d ds)
  let ?next = "concat (map (\<lambda>p. filter (\<lambda>r. n_parent_id r = Some (n_id p)) rows) (d # ds))"
  from 3(2) obtain rest where rest: "subtree_levels rows fuel ?next = Some rest"
    "rs = (d # ds) @ rest"
    by (auto split: option.splits)
  have "set rest = {r \<in> set rows. \<exists>c \<in> set ?next. below rows (n_id c) (n_id r)}"
    by (rule 3(1) [OF rest(1) _ 3(4)]) auto
  also have "\<dots> = {r \<in> set rows. \<exists>e \<in> set (d # ds). \<exists>c \<in> set rows.
      n_parent_id c = Some (n_id e) \<and> below rows (n_id c) (n_id r)}" by auto
  finally have r: "set rest = \<dots>" .
  have eq: "n_id e = n_id r \<longleftrightarrow> e = r" if "e \<in> set (d # ds)" "r \<in> set rows" for e r
    using that 3(3) distinct_map_eqD [OF 3(4)] by auto
  have "below rows (n_id e) (n_id r) \<longleftrightarrow>
      e = r \<or> (\<exists>c \<in> set rows. n_parent_id c = Some (n_id e) \<and> below rows (n_id c) (n_id r))"
    if "e \<in> set (d # ds)" "r \<in> set rows" for e r
    using that 3(3) eq [OF that] below_first [of rows "n_id e" "n_id r"] by auto
  then show ?case unfolding rest(2) set_append r using 3(3) by auto
qed

lemma subtree_levels_None:
  "subtree_levels rows fuel ds = None \<Longrightarrow> set ds \<subseteq> set rows \<Longrightarrow> distinct (map n_id rows) \<Longrightarrow>
    \<exists>x. \<exists>d \<in> set ds. up rows fuel x = Some (n_id d)"
proof (induction rows fuel ds rule: subtree_levels.induct)
  case (1 rows fuel)
  then show ?case by simp
next
  case (2 rows d ds)
  then show ?case by auto
next
  case (3 rows fuel d ds)
  from 3 obtain x c e where c: "c \<in> set rows" "up rows fuel x = Some (n_id c)"
    and e: "e \<in> set (d # ds)" "n_parent_id c = Some (n_id e)"
    by fastforce
  have "up rows (Suc fuel) x = n_parent_id c"
    unfolding up_Suc using c parent_of_eq [OF 3(4) c(1)] by simp
  with e show ?case by metis
qed

lemma subtree_generations_ok:
  assumes ok: "tree_ok s" and i: "r \<in> set (nodes s)" "n_id r = i" and nc: "no_cycle (nodes s) i"
  obtains gs where "subtree_generations s i = Some gs"
    "set gs = {g. \<exists>q \<in> set (nodes s). below (nodes s) i (n_id q) \<and> n_content_generation_id q = Some g}"
proof -
  let ?ds = "filter (\<lambda>r. n_id r = i) (nodes s)"
  note dist = tree_okD(1) [OF ok]
  have sub: "set ?ds \<subseteq> set (nodes s)" by auto
  show thesis
  proof (cases "subtree_levels (nodes s) (Suc (length (nodes s))) ?ds")
    case None
    from subtree_levels_None [OF this sub dist]
    obtain x where "up (nodes s) (Suc (length (nodes s))) x = Some i" by auto
    then obtain c where "0 < c" "up (nodes s) c i = Some i"
      by (rule long_chain_cycle) simp
    with nc show thesis by (simp add: no_cycle_def)
  next
    case (Some rs)
    from subtree_levels_set [OF this sub dist]
    have "set rs = {q \<in> set (nodes s). below (nodes s) i (n_id q)}" using i by auto
    with that Some show thesis
      by (force simp: subtree_generations_def split: option.splits)
  qed
qed

subsection \<open>The deleting statements\<close>

lemma drop_generations_twice:
  "drop_generations P (drop_generations Q s) = drop_generations (\<lambda>g. P g \<or> Q g) s"
  by (rule db.equality) (auto simp: intro: filter_cong)

lemma delete_each_generation_eq:
  assumes "schema_ok s"
    and "\<And>r g. r \<in> set (nodes s) \<Longrightarrow> g \<in> set gs \<Longrightarrow> n_content_generation_id r \<noteq> Some g"
  shows "delete_each_generation gs s = Some (drop_generations (\<lambda>q. g_id q \<in> set gs) s) \<and>
    schema_ok (drop_generations (\<lambda>q. g_id q \<in> set gs) s)"
  using assms
proof (induction gs arbitrary: s)
  case Nil
  have e: "drop_generations (\<lambda>q. False) s = s" by (rule db.equality) simp_all
  show ?case using Nil by (simp add: e)
next
  case (Cons g gs)
  let ?t = "drop_generations (\<lambda>q. g_id q = g) s"
  have t: "schema_ok ?t" by (rule schema_drop_generations [OF Cons(2)]) (use Cons(3) in auto)
  have "drop_generations (\<lambda>q. g_id q \<in> set gs) ?t = drop_generations (\<lambda>q. g_id q \<in> set (g # gs)) s"
    unfolding drop_generations_twice by (rule arg_cong [where f = "\<lambda>P. drop_generations P s"]) auto
  with Cons.IH [OF t] Cons(3) show ?case by (simp add: delete_generations_def checkedI [OF t])
qed

lemma filter_id_singleton:
  assumes "distinct (map n_id rows)" "r \<in> set rows" "n_id r = i"
  shows "filter (\<lambda>q. n_id q = i) rows = [r]"
proof -
  obtain xs ys where rows: "rows = xs @ r # ys" using split_list [OF assms(2)] by blast
  with assms(1,3) have "\<forall>q \<in> set xs \<union> set ys. n_id q \<noteq> i" by (auto simp: image_iff)
  then have "filter (\<lambda>q. n_id q = i) xs = []" "filter (\<lambda>q. n_id q = i) ys = []"
    by (simp_all add: filter_empty_conv)
  with rows assms(3) show ?thesis by simp
qed

text \<open>The store without the rows below \<open>i\<close>.\<close>

definition purged :: "uuid \<Rightarrow> db \<Rightarrow> db" where
  "purged i s =
     drop_generations (\<lambda>q. \<exists>r \<in> set (nodes s). below (nodes s) i (n_id r) \<and>
         n_content_generation_id r = Some (g_id q))
       (drop_nodes (cascade (nodes s) [i]) s)"

lemma purged_fields [simp]:
  "workspaces (purged i s) = workspaces s" "changes (purged i s) = changes s"
  "ids_used (purged i s) = ids_used s" "clock_reads (purged i s) = clock_reads s"
  by (simp_all add: purged_def)

lemma purged_rows:
  assumes "i \<in> n_id ` set (nodes s)"
  shows "nodes (purged i s) = filter (\<lambda>r. \<not> below (nodes s) i (n_id r)) (nodes s)"
    and "attributes (purged i s) = filter (\<lambda>a. \<not> below (nodes s) i (a_node_id a)) (attributes s)"
    and "trash_rows (purged i s) = filter (\<lambda>t. \<not> below (nodes s) i (t_node_id t)) (trash_rows s)"
  using set_cascade [of "[i]" "nodes s"] assms by (simp_all add: purged_def)

lemma below_root:
  assumes "below rows i x" "r \<in> set rows" "n_id r = x" "n_parent_id r = None" "distinct (map n_id rows)"
  shows "x = i"
  using assms(1)
proof cases
  case (child p q)
  from distinct_map_eqD [OF assms(5) child(3) assms(2)] child(1) assms(3) have "q = r" by simp
  with child(4) assms(4) show ?thesis by simp
qed simp

text \<open>A generation of a deleted row belongs to no row that stays.\<close>

lemma purged_generation:
  assumes "gens_unshared rows" "r \<in> set rows" "q \<in> set rows" "below rows i (n_id r)"
    "n_content_generation_id r = Some g" "n_content_generation_id q = Some g"
  shows "below rows i (n_id q)"
  using assms unfolding gens_unshared_def by metis

lemma wf_purged:
  assumes ok: "wf E s" and r: "r \<in> set (nodes s)" "n_id r = i" "n_parent_id r \<noteq> None"
  shows "wf E (purged i s)" and "schema_ok (drop_nodes (cascade (nodes s) [i]) s)"
proof -
  let ?ids = "cascade (nodes s) [i]"
  let ?P = "\<lambda>q. \<exists>r \<in> set (nodes s). below (nodes s) i (n_id r) \<and> n_content_generation_id r = Some (g_id q)"
  note tree = wfD(2) [OF ok]
  note dist = tree_okD(1) [OF tree]
  have i: "i \<in> n_id ` set (nodes s)" using r by auto
  have ids: "x \<in> set ?ids \<longleftrightarrow> below (nodes s) i x" for x
    using set_cascade [of "[i]" "nodes s"] i by simp
  have closed: "closed_ids (nodes s) ?ids" by (rule cascade_closed) (use i in simp)
  show sch: "schema_ok (drop_nodes ?ids s)" using ok closed by (blast intro: schema_drop_nodes)
  have uns: "gens_unshared (nodes s)" using wfD(4) [OF ok] by (simp add: content_ok_def)
  have no: "n_content_generation_id q \<noteq> Some g"
    if "q \<in> set (nodes s)" "\<not> below (nodes s) i (n_id q)" "r \<in> set (nodes s)"
      "below (nodes s) i (n_id r)" "n_content_generation_id r = Some g" for q r g
    using purged_generation [OF uns that(3,1,4,5)] that(2) by auto
  have sch': "schema_ok (purged i s)"
    unfolding purged_def by (rule schema_drop_generations [OF sch]) (use no in \<open>auto simp: ids\<close>)
  have roots: "n_id q \<notin> set ?ids" if "q \<in> set (nodes s)" "n_parent_id q = None" for q
  proof
    assume "n_id q \<in> set ?ids"
    then have "n_id q = n_id r" using below_root [OF _ that(1) refl that(2) dist] r(2) ids by simp
    from distinct_map_eqD [OF dist that(1) r(1) this] that(2) r(3) show False by simp
  qed
  have "tree_ok (drop_nodes ?ids s)" by (rule tree_drop_nodes [OF tree sch closed roots])
  then have tree': "tree_ok (purged i s)"
    by (subst tree_ok_cong [where s = "drop_nodes ?ids s"]) (simp_all add: purged_def)
  have content': "content_ok (purged i s)"
  proof (rule content_frame [OF wfD(4) [OF ok]])
    show "set (nodes (purged i s)) \<subseteq> set (nodes s)" by (auto simp: purged_rows [OF i])
  next
    fix q p g assume "q \<in> set (nodes (purged i s))" "n_content_generation_id q = Some g"
      "p \<in> set (generations s)" "g_id p = g"
    with no show "p \<in> set (generations (purged i s))"
      by (auto simp: purged_rows [OF i]) (auto simp: purged_def)
  next
    fix q g k assume q: "q \<in> set (nodes (purged i s))" "n_content_generation_id q = Some g"
    then have "g \<notin> g_id ` {q \<in> set (generations s). ?P q}"
      using no by (auto simp: purged_rows [OF i])
    then show "chunk_at (purged i s) g k = chunk_at s g k"
      by (intro chunk_at_filter [where P = "\<lambda>c. c_generation_id c \<notin> g_id ` {q \<in> set (generations s). ?P q}"])
        (auto simp: purged_def)
  qed
  have "trash_ok (drop_nodes ?ids s)" using ok by (blast intro: trash_drop_nodes)
  then have trash': "trash_ok (purged i s)"
    by (subst trash_ok_cong [where s = "drop_nodes ?ids s"]) (simp_all add: purged_def)
  have log': "log_ok (purged i s)" using wfD(3) [OF ok] log_ok_cong [of "purged i s" s] by simp
  have ids': "ids_ok E (purged i s)"
    by (rule ids_ok_mono [OF wfD(6) [OF ok]]) (auto simp: purged_def)
  show "wf E (purged i s)" using sch' tree' content' trash' log' ids' by (simp add: wf_def)
qed

lemma purge_subtree_Some:
  assumes ok: "wf E s" and r: "r \<in> set (nodes s)" "n_id r = i" "n_parent_id r \<noteq> None"
    and gs: "subtree_generations s i = Some gs"
      "set gs = {g. \<exists>q \<in> set (nodes s). below (nodes s) i (n_id q) \<and> n_content_generation_id q = Some g}"
  shows "purge_subtree i s = Some (purged i s)"
proof -
  note sch = wf_purged(2) [OF ok r]
  have f: "map n_id (filter (\<lambda>r. n_id r = i) (nodes s)) = [i]"
    using filter_id_singleton [OF tree_okD(1) [OF wfD(2) [OF ok]] r(1,2)] r(2) by simp
  have "below (nodes s) i (n_id q)" if "r' \<in> set (nodes s)" "below (nodes s) i (n_id r')"
    "q \<in> set (nodes s)" "n_content_generation_id r' = Some g" "n_content_generation_id q = Some g" for r' q g
    using purged_generation that wfD(4) [OF ok] unfolding content_ok_def by blast
  then have "delete_each_generation gs (drop_nodes (cascade (nodes s) [i]) s)
    = Some (drop_generations (\<lambda>q. g_id q \<in> set gs) (drop_nodes (cascade (nodes s) [i]) s))"
    using delete_each_generation_eq [OF sch, of gs] set_cascade [of "[i]" "nodes s"] r
    by (auto simp: gs(2))
  then show ?thesis
    using sch by (simp add: purge_subtree_def gs(1) delete_nodes_def f checked_def purged_def gs(2))
qed

lemma purge_subtree_ok:
  assumes ok: "wf E s" and r: "r \<in> set (nodes s)" "n_id r = i" "n_parent_id r \<noteq> None"
    and nc: "no_cycle (nodes s) i"
  shows "purge_subtree i s = Some (purged i s)"
proof -
  obtain gs where "subtree_generations s i = Some gs"
    "set gs = {g. \<exists>q \<in> set (nodes s). below (nodes s) i (n_id q) \<and> n_content_generation_id q = Some g}"
    by (rule subtree_generations_ok [OF wfD(2) [OF ok] r(1,2) nc])
  then show ?thesis by (rule purge_subtree_Some [OF ok r])
qed

text \<open>Whenever the statement returns, it leaves this store.\<close>

lemma purge_subtree_wf:
  assumes ok: "wf E s" and r: "r \<in> set (nodes s)" "n_id r = i" "n_parent_id r \<noteq> None"
    and t: "purge_subtree i s = Some t"
  shows "wf E t" and "t = purged i s"
proof -
  from t obtain rs gs where rs: "subtree_levels (nodes s) (Suc (length (nodes s)))
      (filter (\<lambda>r. n_id r = i) (nodes s)) = Some rs" and gs: "subtree_generations s i = Some gs"
    by (auto simp: purge_subtree_def subtree_generations_def split: bind_splits)
  have "set rs = {q \<in> set (nodes s). below (nodes s) i (n_id q)}"
    using subtree_levels_set [OF rs _ tree_okD(1) [OF wfD(2) [OF ok]]] r by auto
  then have "set gs = {g. \<exists>q \<in> set (nodes s). below (nodes s) i (n_id q) \<and>
      n_content_generation_id q = Some g}"
    using gs rs by (force simp: subtree_generations_def split: option.splits)
  from purge_subtree_Some [OF ok r gs this] t show "t = purged i s" by simp
  with wf_purged(1) [OF ok r] show "wf E t" by simp
qed

end
