(* ===== verification/Files.thy ===== *)
theory Files
  imports Content
begin

text \<open>
  Files as byte strings: \<open>file_at s w segs bs\<close> says that the path holds a file with the bytes
  \<open>bs\<close>. The finalizing transaction switches one path to the staged bytes and leaves every
  other path, in every workspace, as it was; what the operations do to the bytes follows.
\<close>

subsection \<open>The bytes of a file\<close>

definition file_at :: "db \<Rightarrow> uuid \<Rightarrow> string list \<Rightarrow> byte list \<Rightarrow> bool" where
  "file_at s w segs bs \<longleftrightarrow>
     (\<exists>n g. lookup_segs s w segs = Some n \<and> n_kind n = FILE_KIND \<and>
        n_content_generation_id n = Some g \<and> n_size n = int (length bs) \<and> gen_holds s g bs)"

lemma gen_holds_unique:
  assumes "gen_holds s g bs" "gen_holds s g cs" "length bs = length cs"
  shows "bs = cs"
proof (cases "bs = []")
  case False
  then have "0 < length bs" by simp
  from chunk_range_bytes [OF assms(1) this] chunk_range_bytes [OF assms(2) this]
  show ?thesis by (simp add: assms(3))
qed (use assms(3) in simp)

lemma file_at_unique: "file_at s w segs bs \<Longrightarrow> file_at s w segs cs \<Longrightarrow> bs = cs"
  unfolding file_at_def using gen_holds_unique by (metis nat_int option.inject)

lemma file_content:
  assumes ok: "wf E s" and n: "lookup_segs s w segs = Some n" "n_kind n = FILE_KIND"
  obtains g bs where "n_content_generation_id n = Some g" "n_size n = int (length bs)"
    "gen_holds s g bs" "file_at s w segs bs"
proof -
  obtain r where r: "visible s w r" "n = map_row r" using lookup_visible [OF n(1)] by blast
  then have "row_content_ok s r" using wfD(4) [OF ok] by (auto simp: content_ok_def visible_def)
  with r n(2) obtain g bs where "n_content_generation_id n = Some g" "n_size n = int (length bs)"
    "gen_holds s g bs"
    by (auto simp: row_content_ok_def generation_ok_def)
  with n that show thesis unfolding file_at_def by blast
qed

lemma file_at_cong:
  "nodes t = nodes s \<Longrightarrow> (\<And>g i. (\<exists>r \<in> set (nodes s). n_content_generation_id r = Some g) \<Longrightarrow>
    chunk_at t g i = chunk_at s g i) \<Longrightarrow> file_at s w segs bs \<Longrightarrow> file_at t w segs bs"
proof -
  assume n: "nodes t = nodes s"
    and c: "\<And>g i. (\<exists>r \<in> set (nodes s). n_content_generation_id r = Some g) \<Longrightarrow> chunk_at t g i = chunk_at s g i"
    and f: "file_at s w segs bs"
  from f obtain m g where m: "lookup_segs s w segs = Some m" "n_kind m = FILE_KIND"
    "n_content_generation_id m = Some g" "n_size m = int (length bs)" "gen_holds s g bs"
    by (auto simp: file_at_def)
  have "\<exists>r \<in> set (nodes s). n_content_generation_id r = Some g"
    using lookup_visible [OF m(1)] m(3) by (auto simp: visible_def)
  with c m(5) have "gen_holds t g bs" by (simp add: gen_holds_def)
  with m lookup_cong [OF n] show "file_at t w segs bs" unfolding file_at_def by auto
qed

text \<open>
  \<open>only_path s t w segs\<close>: in every workspace every other path finds the same node, and the
  files at those paths hold the same bytes.
\<close>

definition only_path :: "db \<Rightarrow> db \<Rightarrow> uuid \<Rightarrow> string list \<Rightarrow> bool" where
  "only_path s t w segs \<longleftrightarrow>
     (\<forall>w' xs. (w', xs) \<noteq> (w, segs) \<longrightarrow> lookup_segs t w' xs = lookup_segs s w' xs \<and>
        (\<forall>bs. file_at s w' xs bs \<longrightarrow> file_at t w' xs bs))"

lemma only_pathI:
  assumes "\<And>w' xs. (w', xs) \<noteq> (w, segs) \<Longrightarrow> lookup_segs t w' xs = lookup_segs s w' xs"
    and "\<And>w' xs n g i. (w', xs) \<noteq> (w, segs) \<Longrightarrow> lookup_segs s w' xs = Some n \<Longrightarrow>
      n_content_generation_id n = Some g \<Longrightarrow> chunk_at t g i = chunk_at s g i"
  shows "only_path s t w segs"
  unfolding only_path_def
proof (intro allI impI conjI)
  fix w' xs assume ne: "(w', xs) \<noteq> (w, segs)"
  then show "lookup_segs t w' xs = lookup_segs s w' xs" by (rule assms(1))
  fix bs assume "file_at s w' xs bs"
  then obtain n g where n: "lookup_segs s w' xs = Some n" "n_kind n = FILE_KIND"
    "n_content_generation_id n = Some g" "n_size n = int (length bs)" "gen_holds s g bs"
    by (auto simp: file_at_def)
  from assms(2) [OF ne n(1,3)] n(5) have "gen_holds t g bs" by (simp add: gen_holds_def)
  with n assms(1) [OF ne] show "file_at t w' xs bs" unfolding file_at_def by auto
qed

lemma only_path_trans:
  "only_path s t w segs \<Longrightarrow> only_path t u w segs \<Longrightarrow> only_path s u w segs"
  unfolding only_path_def by metis

lemma only_path_same:
  assumes "nodes t = nodes s" "nodes t' = nodes s'"
    and "\<And>g i. chunk_at t g i = chunk_at s g i" "\<And>g i. chunk_at t' g i = chunk_at s' g i"
  shows "only_path t t' w segs = only_path s s' w segs"
proof -
  have l: "lookup_segs t = lookup_segs s" "lookup_segs t' = lookup_segs s'"
    by (intro ext lookup_cong assms(1,2))+
  have g: "gen_holds t = gen_holds s" "gen_holds t' = gen_holds s'"
    using assms(3,4) by (simp_all add: gen_holds_def fun_eq_iff)
  show ?thesis by (simp add: only_path_def file_at_def l g)
qed

text \<open>A row added in one workspace is not seen in the others.\<close>

lemma find_append: "find P (xs @ ys) = (case find P xs of None \<Rightarrow> find P ys | Some x \<Rightarrow> Some x)"
  by (induction xs) auto

lemma add_row_other:
  assumes t: "nodes t = nodes s @ [r]" and w: "n_workspace_id r \<noteq> w'"
  shows "lookup_segs t w' xs = lookup_segs s w' xs"
proof -
  have f: "fetch_root t w' = fetch_root s w'" "fetch_child t w' p x = fetch_child s w' p x" for p x
    using w by (auto simp: fetch_root_def fetch_child_def t find_append split: option.split)
  have "walk t w' n segs = walk s w' n segs" for n segs
    by (induction segs arbitrary: n) (simp_all add: f(2) split: option.split)
  then show ?thesis by (simp add: lookup_segs_def f(1) split: option.split)
qed

subsection \<open>Completing a staged generation\<close>

definition completed :: "uuid \<Rightarrow> nat \<Rightarrow> db \<Rightarrow> db" where
  "completed g len s = s\<lparr>generations :=
     map (\<lambda>q. if g_id q = g then q\<lparr>g_complete := 1, g_length := int len\<rparr> else q) (generations s)\<rparr>"

lemma completed_fields [simp]:
  "nodes (completed g len s) = nodes s" "workspaces (completed g len s) = workspaces s"
  "chunks (completed g len s) = chunks s" "attributes (completed g len s) = attributes s"
  "trash_rows (completed g len s) = trash_rows s" "changes (completed g len s) = changes s"
  "ids_used (completed g len s) = ids_used s" "clock_reads (completed g len s) = clock_reads s"
  "chunk_at (completed g len s) = chunk_at s" "gen_holds (completed g len s) = gen_holds s"
  by (simp_all add: completed_def chunk_at_def gen_holds_def fun_eq_iff)

lemma completed_schema: "schema_ok s \<Longrightarrow> schema_ok (completed g len s)"
  unfolding completed_def by (rule schema_map_generations) auto

lemma finalize_generation_eq:
  "schema_ok s \<Longrightarrow> finalize_generation g len s = Some (completed g len s)"
  using completed_schema [of s g len]
  by (simp add: finalize_generation_def update_generation_def completed_def checked_def)

lemma completed_commute:
  "completed g len (s\<lparr>nodes := x\<rparr>) = (completed g len s)\<lparr>nodes := x\<rparr>"
  by (simp add: completed_def)

lemma completed_wf:
  assumes ok: "wf E s" and g: "spare s w g"
  shows "wf E (completed g len s)" "spare (completed g len s) w g"
proof -
  let ?t = "completed g len s"
  have "content_ok ?t"
  proof (rule content_frame [OF wfD(4) [OF ok]])
    fix r q h
    assume "r \<in> set (nodes ?t)" "n_content_generation_id r = Some h" "q \<in> set (generations s)" "g_id q = h"
    then have "g_id q \<noteq> g" using g by (auto simp: spare_def)
    with \<open>q \<in> set (generations s)\<close> show "q \<in> set (generations ?t)" by (force simp: completed_def)
  qed simp_all
  moreover have "schema_ok ?t" using ok by (auto intro: completed_schema)
  moreover have "tree_ok ?t" using ok by (subst tree_ok_cong [of ?t s]) auto
  moreover have "log_ok ?t" using ok log_ok_cong [of ?t s] by auto
  moreover have "trash_ok ?t" using ok trash_ok_cong [of ?t s] by auto
  moreover have "ids_ok E ?t"
    by (rule ids_ok_mono [OF wfD(6) [OF ok]]) (use ok in \<open>auto simp: completed_def ids_ok_def\<close>)
  ultimately show "wf E ?t" by (simp add: wf_def)
  obtain q where q: "q \<in> set (generations s)" "g_id q = g" "g_workspace_id q = w"
    using g by (auto simp: spare_def)
  then have "q\<lparr>g_complete := 1, g_length := int len\<rparr> \<in> set (generations ?t)"
    by (force simp: completed_def)
  with q g show "spare ?t w g"
    unfolding spare_def by (auto intro!: bexI [of _ "q\<lparr>g_complete := 1, g_length := int len\<rparr>"])
qed

lemma completed_generation_ok:
  assumes "spare s w g" "gen_holds s g bs" "n_workspace_id r = w" "n_size r = int (length bs)"
    and "distinct (map g_id (generations s))"
  shows "generation_ok (completed g (length bs) s) r g"
proof -
  obtain q where q: "q \<in> set (generations s)" "g_id q = g" "g_workspace_id q = w"
    using assms(1) by (auto simp: spare_def)
  let ?q = "q\<lparr>g_complete := 1, g_length := int (length bs)\<rparr>"
  have "?q \<in> set (generations (completed g (length bs) s))"
    using q by (force simp: completed_def)
  with q assms show ?thesis unfolding generation_ok_def by (intro conjI bexI [of _ ?q]) auto
qed

subsection \<open>The finalizing transaction\<close>

lemma file_row_fields [simp]:
  "n_id (file_row i w p x len now g) = i" "n_workspace_id (file_row i w p x len now g) = w"
  "n_parent_id (file_row i w p x len now g) = Some p" "n_name (file_row i w p x len now g) = x"
  "n_kind (file_row i w p x len now g) = FILE_KIND" "active (file_row i w p x len now g)"
  "n_size (file_row i w p x len now g) = int len" "n_revision (file_row i w p x len now g) = 1"
  "n_content_generation_id (file_row i w p x len now g) = Some g"
  "n_symlink_target (file_row i w p x len now g) = None"
  by (simp_all add: file_row_def active_def)

lemma finalize_create_ok:
  assumes E: "ext_ok E" and ok: "wf E s" and g: "spare s w g" and holds: "gen_holds s g bs"
    and path: "canonical path" "vp_segments path = pp @ [x]"
    and pp: "lookup_segs s w pp = Some d" "n_kind d = DIRECTORY_KIND"
    and free: "lookup_segs s w (pp @ [x]) = None"
  obtains n t where "finalize_create E w path d g (length bs) aj s = Some (FinApplied n, t)"
    "wf E t" "lookup_segs t w (pp @ [x]) = Some n" "file_at t w (pp @ [x]) bs" "n_revision n = 1"
    "only_path s t w (pp @ [x])" "workspaces t = map (bump_seq w (n_modified_at_ms n)) (workspaces s)"
    "\<exists>sq. changes t = changes s @ [change_rec w sq Created (Some (n_id n)) None (Some (as_str path))
       (Some 1) aj (n_modified_at_ms n)]"
proof -
  let ?len = "length bs"
  have vx: "valid_seg x" "vp_name path = Some x"
  proof -
    have "list_all valid_seg (pp @ [x])" "path = path_of (pp @ [x])"
      using path by (metis canonicalE)+
    then show "valid_seg x" "vp_name path = Some x" using vp_name_snoc by simp_all
  qed
  obtain q where q: "visible s w q" "d = map_row q" using lookup_visible [OF pp(1)] by blast
  then have qd: "n_id q = n_id d" "n_kind q = DIRECTORY_KIND" using pp(2) by simp_all
  have nochild: "fetch_child s w (n_id d) x = None" using free pp by (simp add: lookup_snoc enter_def)
  define now where "now = clock_ms E (clock_reads s)"
  define r where "r = file_row (fresh_id E s) w (n_id d) x ?len now g"
  define s1 where "s1 = s\<lparr>ids_used := Suc (ids_used s), clock_reads := Suc (clock_reads s)\<rparr>"
  define s2 where "s2 = completed g ?len s1"
  have w1: "wf E s1" using wf_new_id [OF ok] by (simp add: s1_def)
  have s1 [simp]: "nodes s1 = nodes s" "generations s1 = generations s" "chunks s1 = chunks s"
    "workspaces s1 = workspaces s" "changes s1 = changes s"
    by (simp_all add: s1_def)
  have g1: "spare s1 w g" "gen_holds s1 g bs"
    using g holds by (simp_all add: spare_def gen_holds_def chunk_at_def)
  note w2 = completed_wf [OF w1 g1(1), of ?len]
  have s2 [simp]: "nodes s2 = nodes s" "workspaces s2 = workspaces s" "changes s2 = changes s"
    by (simp_all add: s2_def)
  have r: "n_content_generation_id r = Some g" by (simp add: r_def)
  have cont: "row_content_ok s2 r"
  proof -
    have "generation_ok s2 r g"
      unfolding s2_def by (rule completed_generation_ok [OF g1])
        (use schema_parts(4) [OF wfD(1) [OF w1]] in \<open>simp_all add: r_def\<close>)
    then show ?thesis by (simp add: row_content_ok_def r_def kind_defs)
  qed
  have used: "fresh_id E s \<in> used_ids E s2" by (simp add: s2_def s1_def used_ids_def fresh_id_def)
  have q2: "visible s2 w q" using q(1) by (simp add: visible_def)
  have new: "n_id r \<notin> n_id ` set (nodes s)" using fresh_unused(3) [OF E wfD(6) [OF ok]] by (simp add: r_def)
  have unref: "n_content_generation_id p \<noteq> Some h"
    if "n_content_generation_id r = Some h" "p \<in> set (nodes s2)" for h p
    using that g by (auto simp: r spare_def)
  have ins: "insert_node r s2 = Some (s2\<lparr>nodes := nodes s2 @ [r]\<rparr>)" "wf E (s2\<lparr>nodes := nodes s2 @ [r]\<rparr>)"
    by (rule add_child_wf [OF w2(1) [folded s2_def] _ _ q2 _ qd(2) _ _ _ _ _ cont unref];
        use new used vx nochild qd in \<open>simp add: r_def fetch_cong(2) [OF s2(1)]\<close>)+
  define s3 where "s3 = s2\<lparr>nodes := nodes s2 @ [r]\<rparr>"
  have s3: "s3 = completed g ?len (s1\<lparr>nodes := nodes s1 @ [r]\<rparr>)"
    by (simp add: s3_def s2_def completed_commute)
  have mid: "schema_ok (s1\<lparr>nodes := nodes s1 @ [r]\<rparr>)"
  proof (rule schema_add_node [OF wfD(1) [OF w1]])
    have "fk_ok s" using ok schema_parts(6) by blast
    then show "n_workspace_id r \<in> w_id ` set (workspaces s1)"
      using q(1) unfolding fk_ok_iff by (auto simp: r_def visible_def)
    show "ref_in (n_parent_id r) (map n_id (nodes s1))" using q qd by (auto simp: r_def visible_def)
    show "ref_in (n_content_generation_id r) (map g_id (generations s1))"
      using g by (auto simp: r spare_def)
    show "name_free s1 (n_workspace_id r) p (n_name r)" if "n_parent_id r = Some p" for p
      using that nochild by (simp add: name_free_fetch r_def fetch_cong(2) [OF s1(1)])
  qed (use new in simp)
  have w: "w \<in> w_id ` set (workspaces s3)" using visible_workspace [OF ok q(1)] by (simp add: s3_def)
  have cok: "change_ok (change_rec w sq Created (Some (fresh_id E s)) None (Some (as_str path)) (Some 1) aj now)" for sq
    using path by (intro change_ok_rec) auto
  have used3: "i \<in> used_ids E s3" if "Some (fresh_id E s) = Some i" for i
    using used that by (simp add: s3_def used_ids_def)
  obtain t sq where t: "append_change w Created (Some (fresh_id E s)) None (Some (as_str path)) (Some 1) aj now s3 = Some t"
    "wf E t" "t = s3\<lparr>workspaces := map (bump_seq w now) (workspaces s3),
           changes := changes s3 @ [change_rec w sq Created (Some (fresh_id E s)) None (Some (as_str path)) (Some 1) aj now]\<rparr>"
    by (rule append_change_wf [OF ins(2) [folded s3_def] w used3 cok]) auto
  have nodes: "nodes t = nodes s @ [r]" by (simp add: t(3) s3_def)
  have chunk: "chunk_at t h i = chunk_at s h i" for h i
    by (simp add: t(3) s3_def s2_def chunk_at_def)
  have look: "lookup_segs t w segs = (if segs = pp @ [x] then Some (map_row r) else lookup_segs s w segs)" for segs
    by (rule add_child_lookup [OF wfD(2) [OF ok] wfD(2) [OF t(2)] nodes new, of w "n_id d" pp d segs,
          unfolded file_row_fields r_def, folded r_def])
      (use pp nochild in \<open>simp_all add: r_def\<close>)
  have "only_path s t w (pp @ [x])"
  proof (rule only_pathI)
    fix w' xs assume ne: "(w', xs) \<noteq> (w, pp @ [x])"
    show "lookup_segs t w' xs = lookup_segs s w' xs"
    proof (cases "w' = w")
      case True
      with look ne show ?thesis by simp
    next
      case False
      then show ?thesis by (intro add_row_other [OF nodes]) (simp add: r_def)
    qed
  qed (rule chunk)
  moreover have "file_at t w (pp @ [x]) bs"
    using look holds by (simp add: file_at_def r_def gen_holds_def chunk)
  moreover have "finalize_create E w path d g ?len aj s = Some (FinApplied (map_row r), t)"
  proof -
    have "insert_node r s1 = Some (s1\<lparr>nodes := nodes s1 @ [r]\<rparr>)"
      using mid by (simp add: insert_node_def checked_def)
    moreover note finalize_generation_eq [OF mid, of g ?len, folded s3] t(1) vx(2)
    ultimately show ?thesis
      by (simp add: finalize_create_def new_id_eq now_ms_def Let_def r_def now_def s1_def)
  qed
  ultimately show thesis
    using that [of "map_row r" t] t(2) look
    by (simp add: t(3) r_def s3_def file_row_def map_row_def raw_node.truncate_def) metis
qed


lemma point_to_fields [simp]:
  "n_content_generation_id (point_to g len v now r) = Some g" "n_size (point_to g len v now r) = int len"
  "n_revision (point_to g len v now r) = v" "n_symlink_target (point_to g len v now r) = n_symlink_target r"
  "n_modified_at_ms (point_to g len v now r) = now" "n_created_at_ms (point_to g len v now r) = n_created_at_ms r"
  "n_id (point_to g len v now r) = n_id r" "n_workspace_id (point_to g len v now r) = n_workspace_id r"
  "n_parent_id (point_to g len v now r) = n_parent_id r" "n_name (point_to g len v now r) = n_name r"
  "n_kind (point_to g len v now r) = n_kind r" "n_trashed_at_ms (point_to g len v now r) = n_trashed_at_ms r"
  by (simp_all add: point_to_def)

lemma point_to_keeps: "keeps_place (point_to g len v now)"
  unfolding keeps_place_def point_to_fields by simp

lemma repoint_schema:
  assumes ok: "schema_ok s" and g: "spare s w g"
  shows "schema_ok (s\<lparr>nodes := upd i (point_to g len v now) (nodes s)\<rparr>)"
proof -
  have fk: "\<forall>r \<in> set (nodes s). \<forall>g. n_content_generation_id r = Some g \<longrightarrow> g \<in> g_id ` set (generations s)"
    using schema_parts(6) [OF ok] unfolding fk_ok_iff by blast
  show ?thesis
    unfolding upd_def
  proof (rule schema_map_nodes [OF ok upd_keeps [OF point_to_keeps]])
    fix r assume "r \<in> set (nodes s)"
    then have "ref_in (n_content_generation_id r) (map g_id (generations s))"
      using fk by (metis list.set_map option.exhaust ref_in_simps)
    moreover have "g \<in> g_id ` set (generations s)" using g unfolding spare_def by blast
    ultimately show "ref_in (n_content_generation_id (if n_id r = i then point_to g len v now r else r))
        (map g_id (generations s))" by simp
  qed
qed

lemma repoint_wf:
  assumes ok: "wf E s" and g: "spare s w g" and r: "r \<in> set (nodes s)" "n_id r = i" "n_kind r = FILE_KIND"
    and gen: "generation_ok s (point_to g len v now r) g" and v: "v \<ge> 1"
  shows "wf E (s\<lparr>nodes := upd i (point_to g len v now) (nodes s)\<rparr>)"
proof -
  let ?f = "point_to g len v now"
  let ?t = "s\<lparr>nodes := upd i ?f (nodes s)\<rparr>"
  have t: "?t = s\<lparr>nodes := map (\<lambda>r. if n_id r = i then ?f r else r) (nodes s)\<rparr>" by (simp add: upd_def)
  note keep = upd_keeps [OF point_to_keeps, of i g len v now]
  have sch: "schema_ok ?t" by (rule repoint_schema [OF wfD(1) [OF ok] g])
  have "tree_ok ?t" by (rule tree_map_nodes [OF wfD(2) [OF ok] t sch keep])
  moreover have "trash_ok ?t" unfolding t by (rule trash_map_nodes [OF wfD(5) [OF ok] keep])
  moreover have "log_ok ?t" using ok log_ok_cong [of ?t s] by auto
  moreover have "ids_ok E ?t"
  proof -
    have "map n_id (upd i ?f rows) = map n_id rows" for rows
      using keeps_placeD(1) [OF point_to_keeps, of g len v now] by (induction rows) (simp_all add: upd_def)
    then have "n_id ` set (nodes ?t) = n_id ` set (nodes s)" by (metis db.select_convs(3) db.update_convs(3) list.set_map db.surjective)
    then show ?thesis by (intro ids_ok_mono [OF wfD(6) [OF ok]]) auto
  qed
  moreover have "content_ok ?t"
  proof -
    have same: "row_content_ok ?t q = row_content_ok s q" for q
      by (simp add: row_content_ok_def generation_ok_def gen_holds_def chunk_at_def)
    have old: "row_content_ok s q" if "q \<in> set (nodes s)" for q
      using that wfD(4) [OF ok] by (simp add: content_ok_def)
    have one: "q = r" if "q \<in> set (nodes s)" "n_id q = i" for q
      using row_id_eq [OF wfD(2) [OF ok] that(1) r(1)] that(2) r(2) by simp
    have "row_content_ok s (?f r)"
      using old [OF r(1)] r(3) gen v keeps_placeD(5) [OF point_to_keeps, of g len v now r]
      by (simp add: row_content_ok_def kind_defs)
    then have rows: "\<forall>q \<in> set (nodes ?t). row_content_ok ?t q"
      unfolding same using old one by (auto simp: upd_def)
    have un: "n_id a = n_id b" if "a \<in> set (nodes s)" "b \<in> set (nodes s)"
      "n_content_generation_id a = Some h" "n_content_generation_id b = Some h" for a b h
      using that wfD(4) [OF ok] unfolding content_ok_def gens_unshared_def by blast
    have ng: "n_content_generation_id a \<noteq> Some g" if "a \<in> set (nodes s)" for a
      using that g by (simp add: spare_def)
    have fid: "n_id (?f a) = n_id a" for a using keeps_placeD(1) [OF point_to_keeps] .
    have "gens_unshared (nodes ?t)"
      unfolding gens_unshared_def
    proof (intro ballI allI impI)
      fix a b h
      assume "a \<in> set (nodes ?t)" "b \<in> set (nodes ?t)" and
        h: "n_content_generation_id a = Some h" "n_content_generation_id b = Some h"
      then obtain a' b' where a: "a' \<in> set (nodes s)" "a = (if n_id a' = i then ?f a' else a')"
        and b: "b' \<in> set (nodes s)" "b = (if n_id b' = i then ?f b' else b')"
        unfolding t by auto
      show "n_id a = n_id b"
        using un [OF a(1) b(1), of h] ng a b h fid by (cases "n_id a' = i"; cases "n_id b' = i") auto
    qed
    with rows show ?thesis by (simp add: content_ok_def)
  qed
  ultimately show ?thesis using sch by (simp add: wf_def)
qed


lemma finalize_update_ok:
  assumes E: "ext_ok E" and ok: "wf E s" and g: "spare s w g" and holds: "gen_holds s g bs"
    and path: "canonical path" "vp_segments path = segs"
    and old: "lookup_segs s w segs = Some m" "n_kind m = FILE_KIND"
  obtains n t where "finalize_update E w path m g (length bs) aj s = Some (FinApplied n, t)"
    "wf E t" "lookup_segs t w segs = Some n" "file_at t w segs bs"
    "n_revision n = n_revision m + 1" "n_id n = n_id m" "n_created_at_ms n = n_created_at_ms m"
    "only_path s t w segs" "workspaces t = map (bump_seq w (n_modified_at_ms n)) (workspaces s)"
    "\<exists>sq. changes t = changes s @ [change_rec w sq Modified (Some (n_id m)) None (Some (as_str path))
       (Some (n_revision m + 1)) aj (n_modified_at_ms n)]"
proof -
  let ?len = "length bs"
  define i where "i = n_id m"
  define v where "v = n_revision m + 1"
  define now where "now = clock_ms E (clock_reads s)"
  define f where "f = point_to g ?len v now"
  define s1 where "s1 = s\<lparr>clock_reads := Suc (clock_reads s)\<rparr>"
  define s2 where "s2 = completed g ?len s1"
  define s3 where "s3 = s2\<lparr>nodes := upd i f (nodes s2)\<rparr>"
  obtain r where r: "visible s w r" "m = map_row r" using lookup_visible [OF old(1)] by blast
  then have rs: "r \<in> set (nodes s)" "n_id r = i" "n_kind r = FILE_KIND" "n_workspace_id r = w"
    using old(2) by (simp_all add: visible_def i_def)
  have rc: "row_content_ok s r" using wfD(4) [OF ok] rs(1) by (simp add: content_ok_def)
  then obtain h where h: "n_content_generation_id r = Some h" "n_symlink_target r = None" "n_revision r \<ge> 1"
    using rs(3) by (auto simp: row_content_ok_def kind_defs)
  have hg: "h \<noteq> g" using g h(1) rs(1) by (auto simp: spare_def)
  have w1: "wf E s1" using ok by (simp add: s1_def)
  have s1 [simp]: "nodes s1 = nodes s" "generations s1 = generations s" "chunks s1 = chunks s"
    "workspaces s1 = workspaces s" "changes s1 = changes s"
    by (simp_all add: s1_def)
  have g1: "spare s1 w g" "gen_holds s1 g bs" using g holds by (simp_all add: spare_def gen_holds_def chunk_at_def)
  note w2 = completed_wf [OF w1 g1(1), of ?len, folded s2_def]
  have s2 [simp]: "nodes s2 = nodes s" "workspaces s2 = workspaces s" "changes s2 = changes s" "chunks s2 = chunks s"
    by (simp_all add: s2_def)
  have gen: "generation_ok s2 (f r) g"
    unfolding s2_def f_def
    by (rule completed_generation_ok [OF g1]) (use rs schema_parts(4) [OF wfD(1) [OF w1]] in simp_all)
  have v1: "v \<ge> 1" using h(3) r(2) by (simp add: v_def)
  have w3: "wf E s3"
    unfolding s3_def f_def
    by (rule repoint_wf [OF w2 _ rs(2,3) gen [unfolded f_def] v1]) (use rs in simp)
  have mid: "schema_ok (s1\<lparr>nodes := upd i f (nodes s1)\<rparr>)"
    unfolding f_def by (rule repoint_schema [OF wfD(1) [OF w1] g1(1)])
  have s3: "s3 = completed g ?len (s1\<lparr>nodes := upd i f (nodes s1)\<rparr>)"
    by (simp add: s3_def s2_def completed_commute)
  have w: "w \<in> w_id ` set (workspaces s3)" using visible_workspace [OF ok r(1)] by (simp add: s3_def)
  have cok: "change_ok (change_rec w sq Modified (Some i) None (Some (as_str path)) (Some v) aj now)" for sq
    using path v1 by (intro change_ok_rec) auto
  have "i \<in> used_ids E s" using wfD(6) [OF ok] rs(1,2) by (auto simp: ids_ok_def)
  then have used3: "k \<in> used_ids E s3" if "Some i = Some k" for k
    using that by (simp add: s3_def s2_def s1_def used_ids_def)
  obtain t4 sq where t4: "append_change w Modified (Some i) None (Some (as_str path)) (Some v) aj now s3 = Some t4"
    "wf E t4" "t4 = s3\<lparr>workspaces := map (bump_seq w now) (workspaces s3),
           changes := changes s3 @ [change_rec w sq Modified (Some i) None (Some (as_str path)) (Some v) aj now]\<rparr>"
    by (rule append_change_wf [OF w3 w used3 cok]) auto
  have n4: "nodes t4 = upd i f (nodes s)" by (simp add: t4(3) s3_def)
  have noref: "\<forall>q \<in> set (nodes t4). n_content_generation_id q \<noteq> Some h"
  proof
    fix q assume "q \<in> set (nodes t4)"
    then obtain q' where q': "q' \<in> set (nodes s)" "q = (if n_id q' = i then f q' else q')"
      by (auto simp: n4 upd_def)
    show "n_content_generation_id q \<noteq> Some h"
    proof (cases "n_id q' = i")
      case True
      then show ?thesis using q'(2) hg by (simp add: f_def)
    next
      case False
      have "n_content_generation_id q' \<noteq> Some h"
        using wfD(4) [OF ok] q'(1) rs(1,2) h(1) False unfolding content_ok_def gens_unshared_def by blast
      with False q'(2) show ?thesis by simp
    qed
  qed
  define t where "t = drop_generations (\<lambda>q. g_id q = h) t4"
  have t: "delete_generation h t4 = Some t" "wf E t"
    using delete_generation_ok [OF t4(2) noref] by (simp_all add: t_def)
  have nodes: "nodes t = upd i f (nodes s)" by (simp add: t_def n4)
  have chunk: "chunk_at t k j = chunk_at s k j" if "k \<noteq> h" for k j
  proof -
    have "chunk_at t k j = chunk_at t4 k j"
      using that by (intro chunk_at_filter [where P = "\<lambda>c. c_generation_id c \<notin> g_id ` {q \<in> set (generations t4). g_id q = h}"])
        (auto simp: t_def)
    then show ?thesis by (simp add: t4(3) s3_def chunk_at_def)
  qed
  have keep: "keeps_place f" unfolding f_def by (rule point_to_keeps)
  have look: "lookup_segs t w' xs = (if lookup_segs s w' xs = Some m then Some (map_row (f r)) else lookup_segs s w' xs)"
    for w' xs
    unfolding r(2) by (rule upd_lookup [OF wfD(2) [OF ok] wfD(2) [OF t(2)] keep nodes rs(1,2)])
  have "only_path s t w segs"
  proof (rule only_pathI)
    fix w' xs assume ne: "(w', xs) \<noteq> (w, segs)"
    have no: "lookup_segs s w' xs \<noteq> Some m"
    proof
      assume x: "lookup_segs s w' xs = Some m"
      then obtain r' where "visible s w' r'" "m = map_row r'" using lookup_visible by blast
      then have "w' = w" using r rs(4) by (metis map_row_fields(2) visible_def)
      with lookup_unique [OF wfD(2) [OF ok]] x old(1) ne show False by blast
    qed
    then show "lookup_segs t w' xs = lookup_segs s w' xs" by (simp add: look)
    fix n k j assume n: "lookup_segs s w' xs = Some n" "n_content_generation_id n = Some k"
    then obtain q where q: "visible s w' q" "n = map_row q" using lookup_visible by blast
    have "k \<noteq> h"
    proof
      assume "k = h"
      then have "n_content_generation_id q = Some h" "q \<in> set (nodes s)"
        using n(2) q by (simp_all add: visible_def)
      then have "n_id q = n_id r"
        using wfD(4) [OF ok] rs(1) h(1) unfolding content_ok_def gens_unshared_def by blast
      then have "q = r" using row_id_eq [OF wfD(2) [OF ok] _ rs(1)] q by (simp add: visible_def)
      with q r n no show False by simp
    qed
    then show "chunk_at t k j = chunk_at s k j" by (rule chunk)
  qed
  moreover have "file_at t w segs bs"
  proof -
    have "gen_holds t g bs" using holds chunk hg by (simp add: gen_holds_def)
    then show ?thesis using look [of w segs] old rs unfolding file_at_def
      by (intro exI [of _ "map_row (f r)"] exI [of _ g]) (simp add: f_def)
  qed
  moreover have "finalize_update E w path m g ?len aj s = Some (FinApplied (map_row (f r)), t)"
  proof -
    have "update_node i f s1 = Some (s1\<lparr>nodes := upd i f (nodes s1)\<rparr>)"
      using mid by (simp add: update_node_upd checked_def)
    moreover note finalize_generation_eq [OF mid, of g ?len, folded s3] t4(1) t(1)
    moreover have "m\<lparr>n_workspace_id := w, n_kind := FILE_KIND, n_size := int ?len, n_revision := v,
        n_modified_at_ms := now, n_accessed_at_ms := now, n_content_generation_id := Some g,
        n_symlink_target := None\<rparr> = map_row (f r)"
      using rs h(2) by (simp add: r(2) f_def point_to_def map_row_def raw_node.truncate_def)
    moreover have "n_content_generation_id m = Some h" using h(1) r(2) by simp
    ultimately show ?thesis
      using hg
      unfolding finalize_update_def now_ms_def Let_def prod.case now_def [symmetric]
        s1_def [symmetric] i_def [symmetric] v_def [symmetric] f_def [symmetric]
      by simp
  qed
  moreover have "changes t = changes s @ [change_rec w sq Modified (Some i) None (Some (as_str path)) (Some v) aj now]"
    by (simp add: t_def t4(3) s3_def)
  ultimately show thesis
    using that [of "map_row (f r)" t] t(2) look [of w segs] old(1) r(2)
    by (simp add: f_def i_def v_def t_def t4(3) s3_def) metis
qed


subsection \<open>Accepting a target\<close>

text \<open>The conditions under which the transaction switches the path to the new bytes.\<close>

definition accepts :: "db \<Rightarrow> uuid \<Rightarrow> string list \<Rightarrow> bool \<Rightarrow> revision option \<Rightarrow> bool" where
  "accepts s w segs create expected \<longleftrightarrow>
     (case lookup_segs s w segs of
        Some m \<Rightarrow> n_kind m = FILE_KIND \<and>
          (case expected of None \<Rightarrow> True | Some rv \<Rightarrow> n_revision m = as_i64 (rev_get rv))
      | None \<Rightarrow> segs \<noteq> [] \<and> create \<and>
          (case lookup_segs s w (butlast segs) of None \<Rightarrow> False | Some d \<Rightarrow> n_kind d = DIRECTORY_KIND))"

text \<open>What a store looks like after the path was given the bytes \<open>bs\<close>.\<close>

definition written :: "db \<Rightarrow> db \<Rightarrow> uuid \<Rightarrow> virtual_path \<Rightarrow> string \<Rightarrow> byte list \<Rightarrow> raw_node \<Rightarrow> bool" where
  "written s t w path aj bs n \<longleftrightarrow>
     lookup_segs t w (vp_segments path) = Some n \<and> file_at t w (vp_segments path) bs \<and>
     only_path s t w (vp_segments path) \<and>
     (case lookup_segs s w (vp_segments path) of
        None \<Rightarrow> n_revision n = 1
      | Some m \<Rightarrow> n_revision n = n_revision m + 1 \<and> n_id n = n_id m \<and>
          n_created_at_ms n = n_created_at_ms m) \<and>
     (\<exists>sq. changes t = changes s @
        [change_rec w sq (if lookup_segs s w (vp_segments path) = None then Created else Modified)
           (Some (n_id n)) None (Some (as_str path)) (Some (n_revision n)) aj (n_modified_at_ms n)])"

lemma accepts_cong: "nodes t = nodes s \<Longrightarrow> accepts t w segs c e = accepts s w segs c e"
proof -
  assume "nodes t = nodes s"
  then have "lookup_segs t w xs = lookup_segs s w xs" for xs by (rule lookup_cong)
  then show ?thesis by (simp only: accepts_def)
qed

lemma finalize_tx_ok:
  assumes E: "ext_ok E" and ok: "wf E s" and g: "spare s w g" and holds: "gen_holds s g bs"
    and path: "canonical path"
  shows "\<exists>res t. finalize_tx E w path g (length bs) params aj s = Some (res, t) \<and> wf E t \<and>
    (if accepts s w (vp_segments path) (fp_allow_create params) (fp_expected_revision params)
     then \<exists>n. res = FinApplied n \<and> written s t w path aj bs n
     else t = s \<and> (\<forall>n. res \<noteq> FinApplied n))"
proof (cases "lookup_segs s w (vp_segments path)")
  case (Some m)
  show ?thesis
  proof (cases "accepts s w (vp_segments path) (fp_allow_create params) (fp_expected_revision params)")
    case True
    then have m: "n_kind m = FILE_KIND" "\<not> (case fp_expected_revision params of
        Some expected \<Rightarrow> n_revision m \<noteq> as_i64 (rev_get expected) | None \<Rightarrow> False)"
      by (auto simp: accepts_def Some split: option.splits)
    obtain n t where "finalize_update E w path m g (length bs) aj s = Some (FinApplied n, t)"
      "wf E t" "written s t w path aj bs n"
      by (rule finalize_update_ok [OF E ok g holds path refl Some m(1), of aj])
        (auto simp: written_def Some)
    with True m show ?thesis by (simp add: finalize_tx_def resolve_lookup Some)
  next
    case False
    with ok show ?thesis
      by (auto simp: finalize_tx_def resolve_lookup Some accepts_def split: option.splits)
  qed
next
  case None
  show ?thesis
  proof (cases "vp_segments path" rule: rev_cases)
    case Nil
    then have "path = vp_root" using path by (intro canonical_eqI) simp_all
    moreover have "vp_parent vp_root = None" by code_simp
    ultimately have "vp_parent path = None" by simp
    with None Nil ok show ?thesis by (simp add: finalize_tx_def resolve_lookup accepts_def)
  next
    case (snoc pp x)
    have "list_all valid_seg (pp @ [x])" "path = path_of (pp @ [x])"
      using path snoc by (metis canonicalE)+
    then have par: "vp_parent path = Some (path_of pp)" "vp_segments (path_of pp) = pp"
      using vp_parent_snoc segments_path_of by simp_all
    have free: "lookup_segs s w (pp @ [x]) = None" using None snoc by simp
    show ?thesis
    proof (cases "accepts s w (vp_segments path) (fp_allow_create params) (fp_expected_revision params)")
      case True
      then obtain d where d: "lookup_segs s w pp = Some d" "n_kind d = DIRECTORY_KIND" "fp_allow_create params"
        by (auto simp: accepts_def free snoc split: option.splits)
      obtain n t where "finalize_create E w path d g (length bs) aj s = Some (FinApplied n, t)"
        "wf E t" "written s t w path aj bs n"
        by (rule finalize_create_ok [OF E ok g holds path snoc d(1,2) free, of aj])
          (auto simp: written_def snoc free)
      with True d par show ?thesis by (simp add: finalize_tx_def resolve_lookup None)
    next
      case False
      with ok par snoc show ?thesis
        by (auto simp: finalize_tx_def resolve_lookup None accepts_def split: option.splits)
    qed
  qed
qed

subsection \<open>From the staged generation to the file\<close>

lemma staging_only_path:
  assumes E: "ext_ok E" and ok: "wf E s" and w: "w \<in> w_id ` set (workspaces s)"
    and c: "create_generation E w s = Some (g, s1)" and t: "staged g s1 t"
  shows "only_path s t w segs" "nodes t = nodes s" "changes t = changes s"
proof -
  obtain now where s1: "g \<notin> g_id ` set (generations s)"
    "s1 = s\<lparr>generations := generations s @ [\<lparr>g_id = g, g_workspace_id = w, g_complete = 0,
       g_length = 0, g_created_at_ms = now\<rparr>], ids_used := Suc (ids_used s),
       clock_reads := Suc (clock_reads s)\<rparr>"
    by (rule create_generation_ok [OF E ok w]) (use c in auto)
  show n: "nodes t = nodes s" and "changes t = changes s" by (simp_all add: staged_fields [OF t] s1(2))
  have fk: "fk_ok s" using ok schema_parts(6) by blast
  show "only_path s t w segs"
  proof (rule only_pathI)
    show "lookup_segs t w' xs = lookup_segs s w' xs" for w' xs by (rule lookup_cong [OF n])
    fix w' xs n h i
    assume "lookup_segs s w' xs = Some n" "n_content_generation_id n = Some h"
    then obtain r where "r \<in> set (nodes s)" "n_content_generation_id r = Some h"
      using lookup_visible by (fastforce simp: visible_def)
    then have "h \<in> g_id ` set (generations s)" using fk unfolding fk_ok_iff by blast
    then have "h \<noteq> g" using s1(1) by blast
    then show "chunk_at t h i = chunk_at s h i"
      using staged_other [OF t, of h i] by (simp add: s1(2) chunk_at_def)
  qed
qed

lemma written_from:
  assumes "only_path s s' w (vp_segments path)" "nodes s' = nodes s" "changes s' = changes s"
    "written s' t w path aj bs n"
  shows "written s t w path aj bs n"
  using assms(3,4) only_path_trans [OF assms(1)] lookup_cong [OF assms(2)]
  unfolding written_def by metis

lemma finalize_staged:
  assumes E: "ext_ok E" and ok: "wf E s" and w: "w \<in> w_id ` set (workspaces s)"
    and path: "canonical path" and c: "create_generation E w s = Some (g, s1)"
    and t: "staged g s1 s2" "wf E s2" "gen_holds s2 g bs"
  obtains r u where "finalize E w path g (length bs) params aj s2 = (r, u)" "wf E u"
    "if accepts s w (vp_segments path) (fp_allow_create params) (fp_expected_revision params)
     then \<exists>n. r = into_node E n \<and> written s u w path aj bs n else same_rows s u \<and> (\<exists>e. r = Inl e)"
proof -
  have sp: "spare s2 w g"
    by (rule create_generation_ok [OF E ok w]) (use c staged_spare [OF t(1)] in auto)
  note keep = staging_only_path [OF E ok w c t(1)]
  obtain res u where u: "finalize_tx E w path g (length bs) params aj s2 = Some (res, u)" "wf E u"
    "if accepts s2 w (vp_segments path) (fp_allow_create params) (fp_expected_revision params)
     then \<exists>n. res = FinApplied n \<and> written s2 u w path aj bs n
     else u = s2 \<and> (\<forall>n. res \<noteq> FinApplied n)"
    using finalize_tx_ok [OF E t(2) sp t(3) path, of params aj] by blast
  note acc = accepts_cong [OF keep(2)]
  show thesis
  proof (cases "accepts s w (vp_segments path) (fp_allow_create params) (fp_expected_revision params)")
    case True
    with u(3) obtain n where n: "res = FinApplied n" "written s2 u w path aj bs n" by (auto simp: acc)
    with u(1) have "finalize E w path g (length bs) params aj s2 = (into_node E n, u)"
      by (simp add: finalize_def conn_call_def)
    with True u(2) written_from [OF keep n(2)] that show thesis by metis
  next
    case False
    with u(3) have r: "u = s2" "\<forall>n. res \<noteq> FinApplied n" by (auto simp: acc)
    obtain v where v: "delete_generation g s2 = Some v" "wf E v" "same_rows s v"
      by (rule unstage [OF E ok w c t(1,2)])
    then have "delete_generation_async g s2 = v" by (simp add: delete_generation_async_def run_stmt_Some)
    with u(1) r obtain e where "finalize E w path g (length bs) params aj s2 = (Inl e, v)"
      by (cases res) (auto simp: finalize_def conn_call_def)
    with False v(2,3) that show thesis by metis
  qed
qed


subsection \<open>write\<close>

definition quota :: "db \<Rightarrow> uuid \<Rightarrow> nat" where
  "quota s w = (case max_file_bytes s w of Inr cap \<Rightarrow> cap | Inl _ \<Rightarrow> 0)"

lemma max_file_bytes_quota:
  assumes "w \<in> w_id ` set (workspaces s)"
  shows "max_file_bytes s w = Inr (quota s w)"
proof -
  have "find (\<lambda>r. w_id r = w) (workspaces s) \<noteq> None" using assms by (auto simp: find_None_iff)
  then show ?thesis by (auto simp: quota_def max_file_bytes_def fetch_max_file_bytes_def)
qed

text \<open>\<open>commits\<close>: the result of a write that went through, or failed without a trace.\<close>

definition commits ::
    "ext \<Rightarrow> db \<Rightarrow> uuid \<Rightarrow> virtual_path \<Rightarrow> string \<Rightarrow> byte list option \<Rightarrow> node fs_result \<times> db \<Rightarrow> bool" where
  "commits E s w path aj content res \<longleftrightarrow> wf E (snd res) \<and>
     (case content of
        Some bs \<Rightarrow> \<exists>n. fst res = into_node E n \<and> written s (snd res) w path aj bs n
      | None \<Rightarrow> same_rows s (snd res) \<and> (\<exists>e. fst res = Inl e))"

theorem write_op_ok:
  assumes E: "ext_ok E" and ok: "wf E s" and w: "w \<in> w_id ` set (workspaces s)" and path: "canonical path"
  shows "commits E s w path aj
    (case collect_results source of
       Inl e \<Rightarrow> None
     | Inr cs \<Rightarrow>
         if fits (quota s w) [] (concat cs) \<and>
           accepts s w (vp_segments path) (wo_create options) (wo_expected_revision options)
         then Some (concat cs) else None)
    (write_op E w path source options aj s)"
proof -
  define cap where "cap = quota s w"
  define params where "params = \<lparr>fp_allow_create = wo_create options,
    fp_expected_revision = wo_expected_revision options\<rparr>"
  obtain g s1 where c: "create_generation E w s = Some (g, s1)" "wf E s1" "spare s1 w g"
    "\<forall>c \<in> set (chunks s1). c_generation_id c \<noteq> g"
    by (rule create_generation_ok [OF E ok w])
  have start: "start_new_generation E w s = (Inr g, s1)"
    using c(1) by (simp add: start_new_generation_def conn_call_def)
  obtain r cw s2 where d: "drain_source source (new_writer g cap) s1 = (r, cw, s2)" by (metis prod_cases3)
  have dr: "drained E g cap s1 [] source (r, cw, s2)"
    using drain_source_drained [OF c(2,3) new_writer_writing [OF c(4), of cap], of source] d by simp
  have eq: "write_op E w path source options aj s = (case stage_source g cap source s1 of
      (Inl err, s) \<Rightarrow> (Inl err, s)
    | (Inr (g, len), s) \<Rightarrow> finalize E w path g len params aj s)"
    unfolding params_def by (simp add: write_op_def max_file_bytes_quota [OF w] cap_def [symmetric] start)
  show ?thesis
  proof (cases r)
    case (Inl e)
    with dr have s2: "wf E s2" "staged g s1 s2" "cw_generation_id cw = g"
      and no: "\<And>cs. collect_results source = Inr cs \<Longrightarrow> \<not> fits cap [] (concat cs)"
      by (auto simp: drained_def)
    obtain u where u: "delete_generation g s2 = Some u" "wf E u" "same_rows s u"
      by (rule unstage [OF E ok w c(1) s2(2,1)])
    then have "write_op E w path source options aj s = (Inl e, u)"
      by (simp add: eq stage_source_def d Inl abort_writer_def s2(3) run_stmt_Some)
    with u no show ?thesis by (auto simp: commits_def cap_def split: sum.split)
  next
    case (Inr x)
    with dr obtain cs where s2: "wf E s2" "staged g s1 s2" "collect_results source = Inr cs"
      "fits cap [] (concat cs)" "writing g cap cw (concat cs) s2"
      by (auto simp: drained_def)
    obtain s3 where f: "finish_writer cw s2 = (Inr (g, length (concat cs)), s3)" "wf E s3"
      "staged g s2 s3" "gen_holds s3 g (concat cs)"
      by (rule finish_writer_ok [OF s2(1) staged_spare [OF s2(2) c(3)] s2(5)])
    obtain r' u where u: "finalize E w path g (length (concat cs)) params aj s3 = (r', u)" "wf E u"
      "if accepts s w (vp_segments path) (fp_allow_create params) (fp_expected_revision params)
       then \<exists>n. r' = into_node E n \<and> written s u w path aj (concat cs) n
       else same_rows s u \<and> (\<exists>e. r' = Inl e)"
      by (rule finalize_staged [OF E ok w path c(1) staged_trans [OF s2(2) f(3)] f(2,4)])
    have "write_op E w path source options aj s = (r', u)"
      using u(1) f(1) by (simp add: eq stage_source_def d Inr)
    with u s2(3,4) show ?thesis
      by (auto simp: commits_def params_def cap_def split: if_splits)
  qed
qed

subsection \<open>write at an offset, append, truncate\<close>

definition splice :: "byte list \<Rightarrow> nat \<Rightarrow> byte list \<Rightarrow> bool \<Rightarrow> byte list" where
  "splice old offset new keep_suffix =
     (let head = take offset old @ replicate (offset - length old) 0 @ new
      in if keep_suffix then head @ drop (length head) old else head)"

lemma fill_generation_ok:
  assumes ok: "wf E s" and g: "spare s w g" and none: "\<forall>c \<in> set (chunks s). c_generation_id c \<noteq> g"
    and old: "case h of None \<Rightarrow> old = [] | Some h \<Rightarrow> h \<noteq> g \<and> gen_holds s h old"
  obtains r cw t where
    "fill_generation (length old) h offset source keep (new_writer g cap) s = (r, cw, t)"
    "wf E t" "staged g s t" "cw_generation_id cw = g"
    "case r of
       Inr _ \<Rightarrow> \<exists>cs. collect_results source = Inr cs \<and> writing g cap cw (splice old offset (concat cs) keep) t \<and>
         (length (splice old offset (concat cs) keep) \<le> max cap (length old))
     | Inl e \<Rightarrow> \<forall>cs. collect_results source = Inr cs \<longrightarrow> cap < length (splice old offset (concat cs) keep)"
proof -
  define n where "n = min offset (length old)"
  define len where "len cs = length (splice old offset (concat cs) keep)" for cs :: "byte list list"
  have tk: "take n old = take offset old" by (simp add: n_def min_def)
  have long: "length (take offset old) \<le> len cs"
    "length (take offset old) + (offset - length old) \<le> len cs"
    "length (take offset old) + (offset - length old) + length (concat cs) \<le> len cs" for cs
    by (auto simp: len_def splice_def Let_def)
  let ?zeros = "replicate (offset - length old) (0 :: byte)"
  let ?fill = "fill_generation (length old) h offset source keep (new_writer g cap) s"
  define step1 where "step1 = (case h of Some old_g \<Rightarrow> copy_prefix_from old_g n (new_writer g cap) s
      | None \<Rightarrow> (Inr (), new_writer g cap, s))"
  obtain r1 cw1 s1 where r1: "step1 = (r1, cw1, s1)" by (metis prod_cases3)
  have s1: "wf E s1" "staged g s s1" "cw_generation_id cw1 = g"
    "if n mod CHUNK_SIZE = 0 \<or> n \<le> cap then r1 = Inr () \<and> writing g cap cw1 (take n old) s1
     else r1 = Inl (quota_error cap)"
  proof -
    have "wf E s1 \<and> staged g s s1 \<and> cw_generation_id cw1 = g \<and>
      (if n mod CHUNK_SIZE = 0 \<or> n \<le> cap then r1 = Inr () \<and> writing g cap cw1 (take n old) s1
       else r1 = Inl (quota_error cap))"
    proof (cases h)
      case None
      with old r1 ok new_writer_writing [OF none, of cap] show ?thesis
        by (auto simp: step1_def n_def new_writer_def)
    next
      case (Some k)
      with old have k: "k \<noteq> g" "gen_holds s k old" by simp_all
      obtain r c t where p: "copy_prefix_from k n (new_writer g cap) s = (r, c, t)" "wf E t"
        "staged g s t" "cw_generation_id c = g"
        "if n mod CHUNK_SIZE = 0 \<or> n \<le> cap then r = Inr () \<and> writing g cap c (take n old) t
         else r = Inl (quota_error cap)"
        by (rule copy_prefix_ok [OF ok g k(1) none k(2), of n]) (simp_all add: n_def)
      with r1 Some have "r = r1" "c = cw1" "t = s1" by (simp_all add: step1_def)
      with p show ?thesis by blast
    qed
    then show "wf E s1" "staged g s s1" "cw_generation_id cw1 = g"
      "if n mod CHUNK_SIZE = 0 \<or> n \<le> cap then r1 = Inr () \<and> writing g cap cw1 (take n old) s1
       else r1 = Inl (quota_error cap)"
      by blast+
  qed
  have fill: "?fill = cw_bind step1 (\<lambda>cw s.
     cw_bind (if offset > length old then zero_fill (offset - length old) cw s else (Inr (), cw, s)) (\<lambda>cw s.
     cw_bind (drain_source source cw s) (\<lambda>cw s.
       if keep \<and> total_len cw < length old
       then (case h of Some old_g \<Rightarrow> copy_suffix_from old_g (total_len cw) (length old) cw s
             | None \<Rightarrow> (Inl (internal_storage_failure ''panic''), cw, s))
       else (Inr (), cw, s))))"
    unfolding step1_def n_def fill_generation_def Let_def ..
  show thesis
  proof (cases "n mod CHUNK_SIZE = 0 \<or> n \<le> cap")
    case False
    have "n \<le> len cs" for cs using long(1) [of cs] by (simp add: n_def)
    with False s1 have "\<forall>cs. cap < len cs" by (metis le_trans not_le)
    with False s1 show thesis
      by (intro that [of "Inl (quota_error cap)" cw1 s1]) (simp_all add: fill r1 len_def)
  next
    case p: True
    with s1(4) have p1: "r1 = Inr ()" "writing g cap cw1 (take offset old) s1" by (simp_all add: tk)
    have g1: "spare s1 w g" by (rule staged_spare [OF s1(2) g])
    define step2 where "step2 = (if offset > length old then zero_fill (offset - length old) cw1 s1 else (Inr (), cw1, s1))"
    obtain r2 cw2 s2 where r2: "step2 = (r2, cw2, s2)" by (metis prod_cases3)
    have "wrote E g cap s1 (take offset old) ?zeros step2"
    proof (cases "offset > length old")
      case True
      then show ?thesis unfolding step2_def using zero_fill_wrote [OF s1(1) g1 p1(2)] by simp
    next
      case False
      with p1 s1 show ?thesis by (simp add: step2_def wrote_def)
    qed
    then have s2: "wf E s2" "staged g s1 s2" "cw_generation_id cw2 = g"
      and p2: "if fits cap (take offset old) ?zeros
        then r2 = Inr () \<and> writing g cap cw2 (take offset old @ ?zeros) s2
        else r2 = Inl (quota_error cap)"
      unfolding wrote_def r2 prod.case fits_def by blast+
    note st2 = staged_trans [OF s1(2) s2(2)]
    show thesis
    proof (cases "fits cap (take offset old) ?zeros")
      case False
      then have "cap < len cs" for cs
        using long(2) [of cs] by (auto simp: fits_def)
      with False p2 s2 st2 show thesis
        by (intro that [of "Inl (quota_error cap)" cw2 s2])
          (simp_all add: fill r1 p1 step2_def [symmetric] r2 len_def)
    next
      case z: True
      with p2 have p2': "r2 = Inr ()" "writing g cap cw2 (take offset old @ ?zeros) s2" by simp_all
      have g2: "spare s2 w g" by (rule staged_spare [OF s2(2) g1])
      let ?bs = "take offset old @ ?zeros"
      obtain r3 cw3 s3 where r3: "drain_source source cw2 s2 = (r3, cw3, s3)" by (metis prod_cases3)
      have dr: "drained E g cap s2 ?bs source (r3, cw3, s3)"
        using drain_source_drained [OF s2(1) g2 p2'(2), of source] r3 by simp
      then have s3: "wf E s3" "staged g s2 s3" "cw_generation_id cw3 = g" by (simp_all add: drained_def)
      note st3 = staged_trans [OF st2 s3(2)]
      show thesis
      proof (cases r3)
        case (Inl e)
        with dr have no: "\<And>cs. collect_results source = Inr cs \<Longrightarrow> \<not> fits cap ?bs (concat cs)"
          by (auto simp: drained_def)
        have "cap < len cs" if "collect_results source = Inr cs" for cs
          using no [OF that] long(3) [of cs] by (auto simp: fits_def)
        with s3 st3 show thesis
          by (intro that [of "Inl e" cw3 s3])
            (simp_all add: fill r1 p1 step2_def [symmetric] r2 p2' r3 Inl len_def)
      next
        case (Inr u)
        with dr obtain cs where cs: "collect_results source = Inr cs" "fits cap ?bs (concat cs)"
          "writing g cap cw3 (?bs @ concat cs) s3" by (auto simp: drained_def)
        define head where "head = ?bs @ concat cs"
        have wr: "writing g cap cw3 head s3" using cs(3) by (simp only: head_def)
        have tot: "total_len cw3 = length head" using writing_total [OF wr] .
        have sp: "splice old offset (concat cs) keep = (if keep then head @ drop (length head) old else head)"
          by (simp add: splice_def head_def Let_def)
        have "length (?bs @ c) \<le> max cap (length old)" if "fits cap ?bs c" for c
          using z that by (auto simp: fits_def max_def)
        from this [OF cs(2)] have small: "length head \<le> max cap (length old)" by (simp only: head_def)
        show thesis
        proof (cases "keep \<and> length head < length old")
          case False
          then have "splice old offset (concat cs) keep = head" by (auto simp: sp)
          moreover have "?fill = (Inr (), cw3, s3)"
            using False unfolding fill r1 p1 cw_bind_simps step2_def [symmetric] r2 p2' r3 Inr tot
            by (simp only: if_False)
          ultimately show thesis
            using wr small cs(1) s3 st3 by (intro that [of "Inr ()" cw3 s3]) simp_all
        next
          case True
          then obtain k where k: "h = Some k" "k \<noteq> g" "gen_holds s k old"
            using old by (cases h) auto
          have "gen_holds s3 k old" by (rule staged_holds [OF st3 k(2,3)])
          from copy_suffix_wrote [OF k(2) s3(1) staged_spare [OF s3(2) g2] wr this, where a = "length head" and b = "length old"]
          have suf: "wrote E g cap s3 head (drop (length head) old)
              (copy_suffix_from k (length head) (length old) cw3 s3)"
            by simp
          obtain r4 cw4 s4 where r4: "copy_suffix_from k (length head) (length old) cw3 s3 = (r4, cw4, s4)"
            by (metis prod_cases3)
          have ne: "drop (length head) old \<noteq> []" using True by simp
          have lenall: "length (head @ drop (length head) old) = length old" using True by simp
          have s4: "wf E s4" "staged g s3 s4" "cw_generation_id cw4 = g"
            and p4: "if length old \<le> cap
              then r4 = Inr () \<and> writing g cap cw4 (head @ drop (length head) old) s4
              else r4 = Inl (quota_error cap)"
            using suf ne True unfolding wrote_def r4 prod.case by auto
          have spT: "splice old offset (concat cs) keep = head @ drop (length head) old"
            unfolding sp using True by simp
          have "?fill = (r4, cw4, s4)"
            using True r4 unfolding fill r1 p1 cw_bind_simps step2_def [symmetric] r2 p2' r3 Inr tot unfolding k(1)
            by (simp only: if_True option.case simp_thms)
          then show thesis
            by (rule that) (use s4 staged_trans [OF st3 s4(2)] p4 cs(1) lenall spT in \<open>auto split: if_splits\<close>)
        qed
      qed
    qed
  qed
qed


text \<open>Sizes within a signed column: files stay below 2^63 bytes.\<close>

definition sizes_fit :: "db \<Rightarrow> bool" where
  "sizes_fit s \<longleftrightarrow> (\<forall>r \<in> set (nodes s). n_size r < 2 ^ 63)"

lemma old_length:
  assumes "wf E s" "sizes_fit s" "lookup_segs s w segs = Some m" "n_kind m = FILE_KIND"
    "n_size m = int (length bs)"
  shows "unat (as_u64 (n_size m)) = length bs"
proof -
  obtain r where "r \<in> set (nodes s)" "m = map_row r"
    using lookup_visible [OF assms(3)] by (auto simp: visible_def)
  then have "n_size m < 2 ^ 63" using assms(2) by (auto simp: sizes_fit_def)
  with assms(5) show ?thesis by (simp add: unat_as_u64)
qed

definition old_bytes :: "db \<Rightarrow> uuid \<Rightarrow> string list \<Rightarrow> byte list \<Rightarrow> bool" where
  "old_bytes s w segs old \<longleftrightarrow>
     (if lookup_segs s w segs = None then old = [] else file_at s w segs old)"

text \<open>
  The common engine: an accepted write within the quota leaves the spliced bytes, what it
  leaves is at most the quota or the old length, and a failed one leaves no trace.
\<close>

definition spliced ::
    "ext \<Rightarrow> db \<Rightarrow> uuid \<Rightarrow> virtual_path \<Rightarrow> string \<Rightarrow> byte list \<Rightarrow> nat \<Rightarrow> byte list fs_result list \<Rightarrow> bool \<Rightarrow>
     bool \<Rightarrow> node fs_result \<times> db \<Rightarrow> bool" where
  "spliced E s w path aj old offset source keep ok res \<longleftrightarrow>
     wf E (snd res) \<and>
     (if same_rows s (snd res) \<and> (\<exists>e. fst res = Inl e)
      then ok \<longrightarrow> (\<forall>cs. collect_results source = Inr cs \<longrightarrow>
             quota s w < length (splice old offset (concat cs) keep))
      else ok \<and> (\<exists>cs n. collect_results source = Inr cs \<and>
             fst res = into_node E n \<and> written s (snd res) w path aj (splice old offset (concat cs) keep) n \<and>
             length (splice old offset (concat cs) keep) \<le> max (quota s w) (length old)))"

lemma written_changes: "written s t w path aj bs n \<Longrightarrow> \<not> same_rows s t"
  by (auto simp: written_def dest: same_rows_fields(7))

lemma write_at_impl_ok:
  assumes E: "ext_ok E" and ok: "wf E s" and fit: "sizes_fit s"
    and w: "w \<in> w_id ` set (workspaces s)" and path: "canonical path"
    and old: "\<And>m. lookup_segs s w (vp_segments path) = Some m \<Longrightarrow> n_kind m = FILE_KIND \<Longrightarrow>
      file_at s w (vp_segments path) old"
    and new: "lookup_segs s w (vp_segments path) = None \<Longrightarrow> old = []"
  shows "spliced E s w path aj old offset (case source of Some src \<Rightarrow> src | None \<Rightarrow> []) keep
    (accepts s w (vp_segments path) create expected)
    (write_at_impl E w path offset source create expected aj keep s)"
proof -
  define segs where "segs = vp_segments path"
  define src where "src = (case source of Some src \<Rightarrow> src | None \<Rightarrow> [])"
  define cap where "cap = quota s w"
  define params where "params = \<lparr>fp_allow_create = create, fp_expected_revision = expected\<rparr>"
  let ?op = "write_at_impl E w path offset source create expected aj keep s"
  have fail: "spliced E s w path aj old offset src keep (accepts s w segs create expected) (Inl e, s)"
    if "\<not> accepts s w segs create expected" for e
    using that ok by (simp add: spliced_def)
  consider (wrong) m where "lookup_segs s w segs = Some m" "n_kind m \<noteq> FILE_KIND"
    | (none) "lookup_segs s w segs = None" "\<not> create"
    | (go) h where "resolve_existing_file w path s = Inr (lookup_segs s w segs)"
      "\<not> (lookup_segs s w segs = None \<and> \<not> create)"
      "h = Option.bind (lookup_segs s w segs) n_content_generation_id"
      "(case lookup_segs s w segs of Some n \<Rightarrow> unat (as_u64 (n_size n)) | None \<Rightarrow> 0) = length old"
      "case h of None \<Rightarrow> old = [] | Some h \<Rightarrow> gen_holds s h old \<and> (\<exists>r \<in> set (nodes s). n_content_generation_id r = Some h)"
  proof (cases "lookup_segs s w segs")
    case None
    with that(2,3) new show thesis
      by (cases create) (auto simp: resolve_existing_file_def resolve_lookup segs_def)
  next
    case (Some m)
    show thesis
    proof (cases "n_kind m = FILE_KIND")
      case True
      with old Some obtain g where g: "n_content_generation_id m = Some g" "n_size m = int (length old)"
        "gen_holds s g old" by (auto simp: file_at_def segs_def)
      moreover obtain r where "r \<in> set (nodes s)" "m = map_row r"
        using lookup_visible [OF Some] by (auto simp: visible_def)
      ultimately show thesis
        using that(3) [of "Some g"] Some True old_length [OF ok fit Some True g(2)]
        by (auto simp: resolve_existing_file_def resolve_lookup segs_def)
    qed (use that(1) Some in blast)
  qed
  then show ?thesis
  proof cases
    case (wrong m)
    then have "?op = (Inl (wrong_node_type (as_str path)), s)"
      by (simp add: write_at_impl_def resolve_existing_file_def resolve_lookup segs_def)
    with wrong fail show ?thesis by (simp add: accepts_def segs_def src_def)
  next
    case none
    then have "?op = (Inl (not_found (as_str path)), s)"
      by (simp add: write_at_impl_def resolve_existing_file_def resolve_lookup segs_def)
    with none fail show ?thesis by (simp add: accepts_def segs_def src_def)
  next
    case (go h)
    obtain g s1 where c: "create_generation E w s = Some (g, s1)" "wf E s1" "spare s1 w g"
      "\<forall>c \<in> set (chunks s1). c_generation_id c \<noteq> g" "nodes s1 = nodes s" "chunks s1 = chunks s"
      by (rule create_generation_ok [OF E ok w]) auto
    have start: "start_new_generation E w s = (Inr g, s1)"
      using c(1) by (simp add: start_new_generation_def conn_call_def)
    have hold1: "case h of None \<Rightarrow> old = [] | Some h \<Rightarrow> h \<noteq> g \<and> gen_holds s1 h old"
      using go(5) c(3,5,6) by (auto simp: spare_def gen_holds_def chunk_at_def split: option.splits)
    obtain r cw s2 where f: "fill_generation (length old) h offset src keep (new_writer g cap) s1 = (r, cw, s2)"
      "wf E s2" "staged g s1 s2" "cw_generation_id cw = g"
      "case r of
         Inr _ \<Rightarrow> \<exists>cs. collect_results src = Inr cs \<and> writing g cap cw (splice old offset (concat cs) keep) s2 \<and>
           (length (splice old offset (concat cs) keep) \<le> max cap (length old))
       | Inl e \<Rightarrow> \<forall>cs. collect_results src = Inr cs \<longrightarrow> cap < length (splice old offset (concat cs) keep)"
      by (rule fill_generation_ok [OF c(2-4) hold1, of offset src keep cap])
    have eq: "?op = (case (r, cw, s2) of
        (Inl err, cw, s) \<Rightarrow> (Inl err, abort_writer cw s)
      | (Inr _, cw, s) \<Rightarrow> (case finish_writer cw s of
            (Inl err, s) \<Rightarrow> (Inl err, s)
          | (Inr (g, len), s) \<Rightarrow> finalize E w path g len params aj s))"
      unfolding write_at_impl_def go(1) sum.case Let_def go(4) go(3) [symmetric]
        max_file_bytes_quota [OF w] cap_def [symmetric] start prod.case src_def [symmetric] f(1) params_def
      using go(2) by (simp only: if_False)
    show ?thesis
    proof (cases r)
      case (Inl e)
      obtain u where u: "delete_generation g s2 = Some u" "wf E u" "same_rows s u"
        by (rule unstage [OF E ok w c(1) f(3,2)])
      then have "?op = (Inl e, u)" by (simp add: eq Inl abort_writer_def f(4) run_stmt_Some)
      with u f(5) Inl show ?thesis by (simp add: spliced_def cap_def src_def)
    next
      case (Inr x)
      with f(5) obtain cs where cs: "collect_results src = Inr cs"
        "writing g cap cw (splice old offset (concat cs) keep) s2"
        "length (splice old offset (concat cs) keep) \<le> max cap (length old)" by auto
      define bs where "bs = splice old offset (concat cs) keep"
      obtain s3 where s3: "finish_writer cw s2 = (Inr (g, length bs), s3)" "wf E s3"
        "staged g s2 s3" "gen_holds s3 g bs"
        unfolding bs_def by (rule finish_writer_ok [OF f(2) staged_spare [OF f(3) c(3)] cs(2)])
      obtain r' u where u: "finalize E w path g (length bs) params aj s3 = (r', u)" "wf E u"
        "if accepts s w (vp_segments path) (fp_allow_create params) (fp_expected_revision params)
         then \<exists>n. r' = into_node E n \<and> written s u w path aj bs n
         else same_rows s u \<and> (\<exists>e. r' = Inl e)"
        by (rule finalize_staged [OF E ok w path c(1) staged_trans [OF f(3) s3(3)] s3(2,4)])
      have op: "?op = (r', u)" using u(1) s3(1) by (simp add: eq Inr)
      show ?thesis
        using u(2,3) cs(1,3) written_changes [of s u w path aj bs]
        unfolding op spliced_def bs_def [symmetric] src_def cap_def
        by (auto simp: params_def bs_def split: if_splits)
    qed
  qed
qed


end
