(* ===== verification/Subtrees.thy ===== *)
theory Subtrees
  imports Purge Files Workspace
begin

text \<open>
  What happens to the paths when a whole subtree goes away, moves or comes back. Stated for
  the node rows; the operations of \<open>mutate.rs\<close> and \<open>trash.rs\<close> instantiate it.
\<close>

subsection \<open>Paths and rows below\<close>

lemma lookup_visible_cong:
  assumes ok: "tree_ok s" "tree_ok t" and vis: "\<And>q. visible t w q \<longleftrightarrow> visible s w q"
  shows "lookup_segs t w = lookup_segs s w"
proof -
  have r: "root_id w t = root_id w s"
    by (rule option_eqI) (simp add: root_id_iff [OF ok(1)] root_id_iff [OF ok(2)] vis)
  have c: "child_id w t = child_id w s"
    by (intro ext option_eqI) (simp add: child_id_iff [OF ok(1)] child_id_iff [OF ok(2)] vis)
  have f: "fetch_by_id t w = fetch_by_id s w"
    by (intro ext option_eqI) (simp add: fetch_by_id_iff [OF ok(1)] fetch_by_id_iff [OF ok(2)] vis)
  show ?thesis
    by (rule ext) (simp add: lookup_path_id [OF ok(1)] lookup_path_id [OF ok(2)] path_id_def r c f)
qed

text \<open>A reached row with its parent.\<close>

lemma lookup_parentE:
  assumes "tree_ok s" "lookup_segs s w (xs @ [x]) = Some n"
  obtains p where "lookup_segs s w xs = Some p" "n_parent_id n = Some (n_id p)" "n_name n = x"
    "n_kind p = DIRECTORY_KIND"
  using assms(2) by (elim lookup_snocE) (auto dest!: fetch_child_SomeD)

lemma lookup_Nil_parent: "lookup_segs s w [] = Some n \<Longrightarrow> n_parent_id n = None"
  by (auto dest!: fetch_root_SomeD)

lemma lookup_row:
  assumes "lookup_segs s w xs = Some n"
  obtains r where "r \<in> set (nodes s)" "n = map_row r" "n_workspace_id r = w" "active r"
  using lookup_visible [OF assms] by (auto simp: visible_def)

lemma below_parent:
  assumes "distinct (map n_id rows)" "r \<in> set rows" "n_id r \<noteq> i"
  shows "below rows i (n_id r) \<longleftrightarrow> (\<exists>p. n_parent_id r = Some p \<and> below rows i p)"
proof
  assume "below rows i (n_id r)"
  then show "\<exists>p. n_parent_id r = Some p \<and> below rows i p"
  proof cases
    case (child p q)
    from distinct_map_eqD [OF assms(1) child(3) assms(2)] child(1) have "q = r" by simp
    with child show ?thesis by auto
  qed (use assms(3) in simp)
qed (use assms(2) in \<open>auto intro: below.child\<close>)

lemma path_below:
  assumes ok: "tree_ok s" and d: "lookup_segs s w dp = Some d"
  shows "lookup_segs s w xs = Some a \<Longrightarrow> below (nodes s) (n_id d) (n_id a) \<longleftrightarrow> prefix dp xs"
proof (induction xs arbitrary: a rule: rev_induct)
  case Nil
  note dist = tree_okD(1) [OF ok]
  obtain r where r: "r \<in> set (nodes s)" "a = map_row r" "n_parent_id r = None"
    using Nil by (metis lookup_row lookup_Nil_parent map_row_fields(3))
  obtain q where q: "q \<in> set (nodes s)" "d = map_row q" by (rule lookup_row [OF d])
  have "below (nodes s) (n_id d) (n_id a) \<longleftrightarrow> n_id a = n_id d"
    using below_root [OF _ r(1) _ r(3) dist, of "n_id d" "n_id r"] r q by (auto simp: below.self)
  also have "\<dots> \<longleftrightarrow> dp = []"
    using stored_id_eq [OF ok lookup_stored [OF Nil] lookup_stored [OF d]]
      lookup_unique [OF ok d, of "[]"] Nil d by auto
  finally show ?case by simp
next
  case (snoc x xs)
  note dist = tree_okD(1) [OF ok]
  obtain p where p: "lookup_segs s w xs = Some p" "n_parent_id a = Some (n_id p)"
    by (rule lookup_parentE [OF ok snoc.prems])
  obtain r where r: "r \<in> set (nodes s)" "a = map_row r" by (rule lookup_row [OF snoc.prems])
  have eq: "n_id a = n_id d \<longleftrightarrow> dp = xs @ [x]"
    using stored_id_eq [OF ok lookup_stored [OF snoc.prems] lookup_stored [OF d]]
      lookup_unique [OF ok d, of "xs @ [x]"] snoc.prems d by auto
  show ?case
  proof (cases "n_id a = n_id d")
    case True
    with r have "n_id d \<in> n_id ` set (nodes s)" by (metis imageI map_row_fields(1))
    with True eq show ?thesis by (simp add: below.self)
  next
    case False
    with below_parent [OF dist r(1)] r(2) p snoc.IH [OF p(1)] eq show ?thesis by auto
  qed
qed

text \<open>The rows below a row are in its workspace.\<close>

lemma below_row:
  assumes "below rows i x"
  obtains q where "q \<in> set rows" "n_id q = x"
  using below_in [OF assms] by auto

subsection \<open>A subtree taken away\<close>

text \<open>Every path through \<open>dp\<close> is gone; every other path and file is as it was.\<close>

definition cut :: "db \<Rightarrow> db \<Rightarrow> uuid \<Rightarrow> string list \<Rightarrow> bool" where
  "cut s t w dp \<longleftrightarrow>
     (\<forall>w' xs. if w' = w \<and> prefix dp xs then lookup_segs t w' xs = None
        else lookup_segs t w' xs = lookup_segs s w' xs \<and>
          (\<forall>bs. file_at s w' xs bs \<longrightarrow> file_at t w' xs bs))"

text \<open>
  The rows below \<open>d\<close> hidden, by deletion, because the row of \<open>d\<close> is trashed, or because it
  hangs below itself.
\<close>

lemma hide_lookup:
  assumes ok: "tree_ok s" "tree_ok t" and d: "lookup_segs s w dp = Some d" "dp \<noteq> []"
    and sub: "\<And>q. visible t w q \<Longrightarrow> n_id q \<noteq> n_id d \<Longrightarrow> visible s w q"
    and off: "\<And>q. visible t w q \<Longrightarrow> n_id q = n_id d \<Longrightarrow> \<exists>p. n_parent_id q = Some p \<and> below (nodes s) (n_id d) p"
    and keep: "\<And>q. visible s w q \<Longrightarrow> \<not> below (nodes s) (n_id d) (n_id q) \<Longrightarrow> visible t w q"
  shows "lookup_segs t w xs = (if prefix dp xs then None else lookup_segs s w xs)"
proof -
  note dist = tree_okD(1) [OF ok(1)]
  have placed: "\<not> below (nodes s) (n_id d) a" if "path_id s w ys = Some a" "\<not> prefix dp ys" for ys a
    using that path_id_lookup [OF ok(1), of w ys] path_below [OF ok(1) d(1)] by auto
  have dd: "below (nodes s) (n_id d) (n_id d)"
    using path_below [OF ok(1) d(1) d(1)] by simp
  have root: "root_id w t = root_id w s"
  proof (rule option_eqI)
    fix i
    show "root_id w t = Some i \<longleftrightarrow> root_id w s = Some i"
    proof
      assume "root_id w t = Some i"
      with sub off show "root_id w s = Some i"
        unfolding root_id_iff [OF ok(1)] root_id_iff [OF ok(2)] by (metis option.distinct(1))
    next
      assume i: "root_id w s = Some i"
      then have "\<not> below (nodes s) (n_id d) i" using placed [of "[]" i] d(2) by (simp add: path_id_def)
      with i keep show "root_id w t = Some i"
        by (auto simp: root_id_iff [OF ok(1)] root_id_iff [OF ok(2)])
    qed
  qed
  have child: "child_id w t a x
      = (if child_id w s a x = Some (n_id d) then None else child_id w s a x)"
    if a: "path_id s w ys = Some a" "\<not> prefix dp ys" for ys a x
  proof (rule option_eqI)
    fix c
    have "child_id w t a x = Some c \<longleftrightarrow> child_id w s a x = Some c \<and> c \<noteq> n_id d"
    proof
      assume "child_id w t a x = Some c"
      then obtain q r where q: "visible t w q" "n_id q = a" "n_kind q = DIRECTORY_KIND"
        and r: "visible t w r" "n_id r = c" "n_parent_id r = Some a" "n_name r = x"
        by (auto simp: child_id_iff [OF ok(2)])
      have "n_id q \<noteq> n_id d" using placed [OF a] dd q(2) by auto
      moreover have "n_id r \<noteq> n_id d" using off [OF r(1)] r(3) placed [OF a] by auto
      ultimately show "child_id w s a x = Some c \<and> c \<noteq> n_id d"
        using sub q r unfolding child_id_iff [OF ok(1)] by blast
    next
      assume c: "child_id w s a x = Some c \<and> c \<noteq> n_id d"
      then obtain q r where q: "visible s w q" "n_id q = a" "n_kind q = DIRECTORY_KIND"
        and r: "visible s w r" "n_id r = c" "n_parent_id r = Some a" "n_name r = x"
        by (auto simp: child_id_iff [OF ok(1)])
      from r have "r \<in> set (nodes s)" by (simp add: visible_def)
      from below_parent [OF dist this, of "n_id d"] r c placed [OF a]
      have "\<not> below (nodes s) (n_id d) (n_id r)" by simp
      with keep q r placed [OF a] show "child_id w t a x = Some c"
        unfolding child_id_iff [OF ok(2)] by blast
    qed
    then show "child_id w t a x = Some c \<longleftrightarrow>
      (if child_id w s a x = Some (n_id d) then None else child_id w s a x) = Some c" by auto
  qed
  have path: "path_id t w xs = (if prefix dp xs then None else path_id s w xs)"
    unfolding path_id_def
  proof (rule ws.place_cut [OF ok(1) root _ d(2)])
    show "place (root_id w s) (child_id w s) dp = Some (n_id d)"
      using path_id_lookup [OF ok(1), of w dp] d(1) by (simp add: path_id_def)
    show "child_id w t a x = (if child_id w s a x = Some (n_id d) then None else child_id w s a x)"
      if "place (root_id w s) (child_id w s) ys = Some a" "\<not> prefix dp ys" for ys a x
      by (rule child [OF _ that(2)]) (use that(1) in \<open>simp add: path_id_def\<close>)
  qed
  have "fetch_by_id t w a = fetch_by_id s w a" if a: "path_id s w xs = Some a" "\<not> prefix dp xs" for a
  proof -
    have ne: "a \<noteq> n_id d" using placed [OF a] dd by auto
    show ?thesis
      by (rule option_eqI)
        (use sub keep placed [OF a] ne in \<open>auto simp: fetch_by_id_iff [OF ok(1)] fetch_by_id_iff [OF ok(2)]\<close>)
  qed
  then show ?thesis
    by (auto simp: lookup_path_id [OF ok(1)] lookup_path_id [OF ok(2)] path split: bind_split)
qed

lemma cutI:
  assumes "\<And>xs. lookup_segs t w xs = (if prefix dp xs then None else lookup_segs s w xs)"
    and "\<And>w' xs. w' \<noteq> w \<Longrightarrow> lookup_segs t w' xs = lookup_segs s w' xs"
    and "\<And>w' xs n g k. lookup_segs t w' xs = Some n \<Longrightarrow> n_content_generation_id n = Some g \<Longrightarrow>
      chunk_at t g k = chunk_at s g k"
  shows "cut s t w dp"
  unfolding cut_def
proof (intro allI)
  fix w' xs
  have content: "file_at t w' xs bs" if "file_at s w' xs bs" "lookup_segs t w' xs = lookup_segs s w' xs" for bs
    using that assms(3) [of w' xs] by (auto simp: file_at_def gen_holds_def)
  show "if w' = w \<and> prefix dp xs then lookup_segs t w' xs = None
    else lookup_segs t w' xs = lookup_segs s w' xs \<and>
      (\<forall>bs. file_at s w' xs bs \<longrightarrow> file_at t w' xs bs)"
    using assms(1) [of xs] assms(2) [of w' xs] content by (cases "w' = w") auto
qed

lemma below_same_workspace:
  assumes "tree_ok s" "lookup_segs s w dp = Some d" "visible s w' q" "below (nodes s) (n_id d) (n_id q)"
  shows "w' = w"
proof -
  obtain r where "r \<in> set (nodes s)" "d = map_row r" "n_workspace_id r = w"
    by (rule lookup_row [OF assms(2)])
  with below_workspace [OF assms(1,4), of r q] assms(3) show ?thesis by (simp add: visible_def)
qed

lemma purged_visible:
  assumes "i \<in> n_id ` set (nodes s)"
  shows "visible (purged i s) w q \<longleftrightarrow> visible s w q \<and> \<not> below (nodes s) i (n_id q)"
  by (auto simp: visible_def purged_rows [OF assms])

lemma purged_chunks:
  assumes ok: "wf E s" and i: "i \<in> n_id ` set (nodes s)"
    and q: "q \<in> set (nodes (purged i s))" "n_content_generation_id q = Some g"
  shows "chunk_at (purged i s) g k = chunk_at s g k"
proof -
  let ?P = "\<lambda>q. \<exists>r \<in> set (nodes s). below (nodes s) i (n_id r) \<and> n_content_generation_id r = Some (g_id q)"
  have "gens_unshared (nodes s)" using wfD(4) [OF ok] by (simp add: content_ok_def)
  from purged_generation [OF this, of _ q i g] q
  have "g \<notin> g_id ` {q \<in> set (generations s). ?P q}" by (auto simp: purged_rows [OF i])
  then show ?thesis
    by (intro chunk_at_filter [where P = "\<lambda>c. c_generation_id c \<notin> g_id ` {q \<in> set (generations s). ?P q}"])
      (auto simp: purged_def)
qed

lemma purged_cut:
  assumes ok: "wf E s" and d: "lookup_segs s w dp = Some d" "dp \<noteq> []"
  shows "cut s (purged (n_id d) s) w dp" and "wf E (purged (n_id d) s)"
    and "purge_subtree (n_id d) s = Some (purged (n_id d) s)"
proof -
  note tree = wfD(2) [OF ok]
  obtain r where r: "r \<in> set (nodes s)" "d = map_row r" by (rule lookup_row [OF d(1)])
  then have i: "n_id d \<in> n_id ` set (nodes s)" by auto
  have np: "n_parent_id r \<noteq> None"
    using d r by (cases dp rule: rev_cases) (auto elim: lookup_parentE [OF tree])
  from r have r': "n_id r = n_id d" by simp
  show wf': "wf E (purged (n_id d) s)" by (rule wf_purged(1) [OF ok r(1) r' np])
  have "reachable s w d" using d by (auto simp: reachable_def)
  then show "purge_subtree (n_id d) s = Some (purged (n_id d) s)"
    by (intro purge_subtree_ok [OF ok r(1) r' np] reachable_no_cycle [OF tree])
  show "cut s (purged (n_id d) s) w dp"
  proof (rule cutI)
    show "lookup_segs (purged (n_id d) s) w xs = (if prefix dp xs then None else lookup_segs s w xs)" for xs
    proof (rule hide_lookup [OF tree wfD(2) [OF wf'] d])
      show "visible (purged (n_id d) s) w q \<Longrightarrow> n_id q = n_id d \<Longrightarrow>
          \<exists>p. n_parent_id q = Some p \<and> below (nodes s) (n_id d) p" for q
        using below.self [OF i] by (auto simp: purged_visible [OF i])
    qed (simp_all add: purged_visible [OF i])
    show "lookup_segs (purged (n_id d) s) w' xs = lookup_segs s w' xs" if "w' \<noteq> w" for w' xs
    proof -
      have "visible (purged (n_id d) s) w' q \<longleftrightarrow> visible s w' q" for q
        using below_same_workspace [OF tree d(1), of w' q] that by (auto simp: purged_visible [OF i])
      from lookup_visible_cong [OF tree wfD(2) [OF wf'] this] show ?thesis by simp
    qed
    show "chunk_at (purged (n_id d) s) g k = chunk_at s g k"
      if "lookup_segs (purged (n_id d) s) w' xs = Some n" "n_content_generation_id n = Some g" for w' xs n g k
      using that by (elim lookup_row) (auto intro: purged_chunks [OF ok i])
  qed
qed

text \<open>The same for a trashed row: what hangs below it stays in the table, out of reach.\<close>

lemma trashed_cut:
  assumes ok: "tree_ok s" "tree_ok t" and d: "lookup_segs s w dp = Some d" "dp \<noteq> []"
    and f: "\<And>r. n_id (f r) = n_id r" "\<And>r. \<not> active (f r)" "\<And>r. n_workspace_id (f r) = n_workspace_id r"
    and t: "nodes t = upd (n_id d) f (nodes s)" "chunks t = chunks s"
  shows "cut s t w dp"
proof (rule cutI)
  have vis: "visible t w' q \<longleftrightarrow> visible s w' q \<and> n_id q \<noteq> n_id d" for w' q
    using f by (auto simp: visible_def t upd_def image_iff)
  show "lookup_segs t w xs = (if prefix dp xs then None else lookup_segs s w xs)" for xs
  proof (rule hide_lookup [OF ok d])
    show "visible s w q \<Longrightarrow> \<not> below (nodes s) (n_id d) (n_id q) \<Longrightarrow> visible t w q" for q
      unfolding vis using below.self [of "n_id q" "nodes s"] by (auto simp: visible_def)
  qed (simp_all add: vis)
  show "lookup_segs t w' xs = lookup_segs s w' xs" if "w' \<noteq> w" for w' xs
  proof -
    obtain r where r: "r \<in> set (nodes s)" "d = map_row r" "n_workspace_id r = w"
      by (rule lookup_row [OF d(1)])
    have "visible t w' q \<longleftrightarrow> visible s w' q" for q
      unfolding vis using row_id_eq [OF ok(1), of q r] r that by (auto simp: visible_def)
    from lookup_visible_cong [OF ok this] show ?thesis by simp
  qed
qed (simp add: chunk_at_def t)

text \<open>Only the node and chunk rows are read.\<close>

lemma cut_cong:
  assumes "nodes u = nodes t" "chunks u = chunks t"
  shows "cut s u w dp = cut s t w dp"
proof -
  have "lookup_segs u = lookup_segs t" by (intro ext lookup_cong [OF assms(1)])
  moreover have "chunk_at u = chunk_at t" by (intro ext) (simp add: chunk_at_def assms(2))
  ultimately show ?thesis by (simp add: cut_def file_at_def gen_holds_def)
qed

subsection \<open>A subtree moved\<close>

text \<open>
  The paths through \<open>dp\<close> are now paths through \<open>tp\<close>, the moved row itself is now \<open>m\<close>, what was
  at \<open>tp\<close> is gone, and all other paths lead where they led. No file changes its content.
\<close>

definition moved :: "db \<Rightarrow> db \<Rightarrow> uuid \<Rightarrow> string list \<Rightarrow> string list \<Rightarrow> raw_node \<Rightarrow> bool" where
  "moved s t w dp tp m \<longleftrightarrow>
     lookup_segs t w tp = Some m \<and>
     (\<forall>w' xs.
        if w' = w \<and> prefix tp xs
        then (xs \<noteq> tp \<longrightarrow> lookup_segs t w' xs = lookup_segs s w (dp @ drop (length tp) xs)) \<and>
          (\<forall>bs. file_at s w (dp @ drop (length tp) xs) bs \<longrightarrow> file_at t w' xs bs)
        else if w' = w \<and> prefix dp xs then lookup_segs t w' xs = None
        else lookup_segs t w' xs = lookup_segs s w' xs \<and>
          (\<forall>bs. file_at s w' xs bs \<longrightarrow> file_at t w' xs bs))"

lemma rehang_lookup:
  assumes ok: "tree_ok s" "tree_ok t" and d: "lookup_segs s w dp = Some d" "dp \<noteq> []"
    and p: "lookup_segs s w pp = Some p" "n_kind p = DIRECTORY_KIND" and out: "\<not> prefix dp pp"
    and free: "fetch_child s w (n_id p) nm = None"
    and f: "place_row (n_id p) nm None f" and t: "nodes t = upd (n_id d) f (nodes s)"
    and r: "r \<in> set (nodes s)" "d = map_row r"
  shows "lookup_segs t w xs = (if prefix (pp @ [nm]) xs
      then (if xs = pp @ [nm] then Some (map_row (f r))
            else lookup_segs s w (dp @ drop (Suc (length pp)) xs))
      else if prefix dp xs then None else lookup_segs s w xs)"
proof -
  obtain r0 where r0: "r0 \<in> set (nodes s)" "d = map_row r0" "n_workspace_id r0 = w" "active r0"
    by (rule lookup_row [OF d(1)])
  with r row_id_eq [OF ok(1)] have "r0 = r" by (metis map_row_fields(1))
  with r0 have vr: "visible s w r" by (simp add: visible_def)
  have same: "q = r" if "visible s w q" "n_id q = n_id d" for q
    using row_id_eq [OF ok(1), of q r] that r by (simp add: visible_def)
  define g where "g = (\<lambda>q. if n_id q = n_id d then f q else q)"
  have g: "n_id (g q) = n_id q" "n_kind (g q) = n_kind q"
    "n_parent_id (g q) = (if n_id q = n_id d then Some (n_id p) else n_parent_id q)"
    "n_name (g q) = (if n_id q = n_id d then nm else n_name q)" for q
    using f by (simp_all add: g_def)
  have vis: "visible t w q \<longleftrightarrow> (\<exists>q'. visible s w q' \<and> q = g q')" for q
  proof -
    have "active x" if "x \<in> set (nodes s)" "n_id x = n_id d" for x
      using row_id_eq [OF ok(1) that(1) r(1)] that(2) r(2) vr by (simp add: visible_def)
    with f show ?thesis by (fastforce simp: visible_def t upd_def image_iff g_def)
  qed
  have root: "root_id w t = root_id w s"
  proof (rule option_eqI)
    have "n_parent_id r \<noteq> None"
      using d r by (cases dp rule: rev_cases) (auto elim: lookup_parentE [OF ok(1)])
    with same have "visible s w q \<Longrightarrow> n_parent_id q = None \<Longrightarrow> n_id q \<noteq> n_id d" for q by auto
    then show "root_id w t = Some i \<longleftrightarrow> root_id w s = Some i" for i
      unfolding root_id_iff [OF ok(1)] root_id_iff [OF ok(2)] vis by (auto simp: g split: if_splits)
  qed
  obtain rp where rp: "visible s w rp" "p = map_row rp" using lookup_visible [OF p(1)] by auto
  have free': "\<not> (visible s w q \<and> n_parent_id q = Some (n_id p) \<and> n_name q = nm)" for q
    using fetch_child_eq [OF tree_okD(2) [OF ok(1)], of w q "n_id p"] free by auto
  have child: "child_id w t a x = (if a = n_id p \<and> x = nm then Some (n_id d)
      else if child_id w s a x = Some (n_id d) then None else child_id w s a x)" for a x
  proof (rule option_eqI)
    fix c
    have "child_id w t a x = Some c \<longleftrightarrow>
      (\<exists>q. visible s w q \<and> n_id q = a \<and> n_kind q = DIRECTORY_KIND) \<and>
      (if c = n_id d then a = n_id p \<and> x = nm
       else \<exists>q. visible s w q \<and> n_id q = c \<and> n_parent_id q = Some a \<and> n_name q = x)"
    proof -
      have "child_id w t a x = Some c \<longleftrightarrow>
        (\<exists>q. visible s w q \<and> n_id (g q) = a \<and> n_kind (g q) = DIRECTORY_KIND) \<and>
        (\<exists>q. visible s w q \<and> n_id (g q) = c \<and> n_parent_id (g q) = Some a \<and> n_name (g q) = x)"
        unfolding child_id_iff [OF ok(2)] vis by blast
      also have "(\<exists>q. visible s w q \<and> n_id (g q) = c \<and> n_parent_id (g q) = Some a \<and> n_name (g q) = x)
        \<longleftrightarrow> (if c = n_id d then a = n_id p \<and> x = nm
             else \<exists>q. visible s w q \<and> n_id q = c \<and> n_parent_id q = Some a \<and> n_name q = x)"
        using vr r(2) by (auto simp: g split: if_splits)
      finally show ?thesis by (simp only: g)
    qed
    moreover have X: "child_id w s a x = Some c \<longleftrightarrow>
      (\<exists>q. visible s w q \<and> n_id q = a \<and> n_kind q = DIRECTORY_KIND) \<and>
      (\<exists>q. visible s w q \<and> n_id q = c \<and> n_parent_id q = Some a \<and> n_name q = x)" for c
      unfolding child_id_iff [OF ok(1)] by blast
    ultimately have Y: "child_id w t a x = Some c \<longleftrightarrow>
      (if c = n_id d then (\<exists>q. visible s w q \<and> n_id q = a \<and> n_kind q = DIRECTORY_KIND) \<and> a = n_id p \<and> x = nm
       else child_id w s a x = Some c)"
      by presburger
    have "child_id w s a x = None" if "a = n_id p" "x = nm"
      by (rule option_eqI) (use X free' that in auto)
    moreover have "\<exists>q. visible s w q \<and> n_id q = a \<and> n_kind q = DIRECTORY_KIND" if "a = n_id p"
      using rp p(2) that by auto
    ultimately show "child_id w t a x = Some c \<longleftrightarrow> (if a = n_id p \<and> x = nm then Some (n_id d)
      else if child_id w s a x = Some (n_id d) then None else child_id w s a x) = Some c"
      unfolding Y by auto
  qed
  have place: "place (root_id w s) (child_id w s) ys = path_id s w ys" for ys by (simp add: path_id_def)
  have pd: "path_id s w dp = Some (n_id d)" using path_id_lookup [OF ok(1), of w dp] d(1) by simp
  have path: "path_id t w xs = (if prefix (pp @ [nm]) xs
      then path_id s w (dp @ drop (Suc (length pp)) xs)
      else if prefix dp xs then None else path_id s w xs)"
  proof -
    have "child_id w s (n_id p) nm = None"
      using child_id_stored [OF ok(1) lookup_stored [OF p(1)], of nm] p(2) free by (simp add: enter_def)
    note mv = ws.place_move [OF ok(1) root _ d(2) _ out this child, of xs, unfolded place]
    have "trail (child_id w s) (n_id d) zs = path_id s w (dp @ zs)" for zs
      using pd by (simp add: path_id_def place_append)
    with mv [OF pd] path_id_lookup [OF ok(1), of w pp] p(1) show ?thesis
      by (simp add: path_id_def)
  qed
  have fetch: "fetch_by_id t w i = (if i = n_id d then Some (map_row (f r)) else fetch_by_id s w i)" for i
  proof (rule option_eqI)
    fix n
    have "fetch_by_id t w i = Some n \<longleftrightarrow> (\<exists>q. visible s w q \<and> n_id (g q) = i \<and> n = map_row (g q))"
      unfolding fetch_by_id_iff [OF ok(2)] vis by blast
    then have e: "fetch_by_id t w i = Some n \<longleftrightarrow> (\<exists>q. visible s w q \<and> n_id q = i \<and> n = map_row (g q))"
      unfolding g .
    show "fetch_by_id t w i = Some n \<longleftrightarrow>
      (if i = n_id d then Some (map_row (f r)) else fetch_by_id s w i) = Some n"
    proof (cases "i = n_id d")
      case True
      have "n_id r = n_id d" using r(2) by simp
      then have "(\<exists>q. visible s w q \<and> n_id q = i \<and> n = map_row (g q)) \<longleftrightarrow> n = map_row (g r)"
        unfolding True using same vr by blast
      with e True \<open>n_id r = n_id d\<close> show ?thesis unfolding g_def by auto
    next
      case False
      then have "(\<exists>q. visible s w q \<and> n_id q = i \<and> n = map_row (g q))
        \<longleftrightarrow> (\<exists>q. visible s w q \<and> n_id q = i \<and> n = map_row q)"
        unfolding g_def by fastforce
      with e False show ?thesis by (simp add: fetch_by_id_iff [OF ok(1)])
    qed
  qed
  have at_d: "path_id s w ys = Some (n_id d) \<longleftrightarrow> ys = dp" for ys
    using pd ws.place_unique [OF ok(1)] unfolding path_id_def by metis
  have found: "Option.bind (path_id s w ys) (fetch_by_id t w)
      = (if ys = dp then Some (map_row (f r)) else lookup_segs s w ys)" for ys
    unfolding lookup_path_id [OF ok(1)] using at_d [of ys] pd
    by (cases "path_id s w ys") (auto simp: fetch)
  have "lookup_segs t w xs = Option.bind (path_id t w xs) (fetch_by_id t w)"
    by (rule lookup_path_id [OF ok(2)])
  also have "\<dots> = (if prefix (pp @ [nm]) xs
      then (if dp @ drop (Suc (length pp)) xs = dp then Some (map_row (f r))
            else lookup_segs s w (dp @ drop (Suc (length pp)) xs))
      else if prefix dp xs then None else lookup_segs s w xs)"
    unfolding path by (auto simp: found)
  also have "\<dots> = (if prefix (pp @ [nm]) xs
      then (if xs = pp @ [nm] then Some (map_row (f r))
            else lookup_segs s w (dp @ drop (Suc (length pp)) xs))
      else if prefix dp xs then None else lookup_segs s w xs)"
    by (auto simp: prefix_def)
  finally show ?thesis .
qed

end
