(* ===== verification/Trash.thy ===== *)
theory Trash
  imports Mutate Paging
begin

text \<open>
  \<open>fslite-sqlite/src/trash.rs\<close>: trashing a node, listing the trash, restoring and purging. Only
  the trashed row itself is marked; what hangs below it is out of reach because no lookup
  enters a trashed row.
\<close>

subsection \<open>trash\<close>

datatype trash_outcome =
    TrashTrashed uuid raw_node int
  | TrashIsRoot
  | TrashNotFound
  | TrashLinkLoop
  | TrashRevisionConflict

definition trash_result ::
    "ext \<Rightarrow> trash_outcome \<Rightarrow> virtual_path \<Rightarrow> actor \<Rightarrow> trash_entry fs_result" where
  "trash_result E outcome path actor_metadata = (case outcome of
     TrashTrashed trash_id node deleted_at_ms \<Rightarrow>
       res_bind (parse_id E trash_id) (\<lambda>i.
       res_bind (into_node E node) (\<lambda>n.
       Inr \<lparr>tr_id = i, tr_node = n, tr_original_path = path, tr_trashed_at_ms = deleted_at_ms,
            tr_actor_metadata = actor_metadata\<rparr>))
   | TrashIsRoot \<Rightarrow> Inl (permission_denied (as_str path))
   | TrashNotFound \<Rightarrow> Inl (not_found (as_str path))
   | TrashLinkLoop \<Rightarrow> Inl (link_loop (as_str path))
   | TrashRevisionConflict \<Rightarrow> Inl (revision_conflict (as_str path)))"

text \<open>The UPDATE of the trashed row.\<close>

definition mark_trashed :: "int \<Rightarrow> node_row \<Rightarrow> node_row" where
  "mark_trashed now r = r\<lparr>n_trashed_at_ms := Some now\<rparr>"

definition trash_tx ::
    "ext \<Rightarrow> uuid \<Rightarrow> virtual_path \<Rightarrow> mutation_options \<Rightarrow> string \<Rightarrow> db \<Rightarrow> (trash_outcome \<times> db) option" where
  "trash_tx E w path options actor_json s =
     (if vp_name path = None then Some (TrashIsRoot, s)
      else case resolve_following s w path False of
        RNotFound \<Rightarrow> Some (TrashNotFound, s)
      | RBrokenLink \<Rightarrow> Some (TrashNotFound, s)
      | RLinkLoop \<Rightarrow> Some (TrashLinkLoop, s)
      | RFound node \<Rightarrow>
          if stale (mo_expected_revision options) node then Some (TrashRevisionConflict, s)
          else
            let (trash_id, s) = new_id E s;
                (now, s) = now_ms E s
            in do {
              original_parent_id \<leftarrow> n_parent_id node;
              s \<leftarrow> insert_trash
                     \<lparr>t_id = trash_id, t_workspace_id = w, t_node_id = n_id node,
                      t_original_parent_id = original_parent_id, t_original_name = n_name node,
                      t_deleted_at_ms = now\<rparr> s;
              s \<leftarrow> update_node (n_id node) (mark_trashed now) s;
              s \<leftarrow> append_change w Trashed (Some (n_id node)) (Some (as_str path)) None
                     (Some (n_revision node)) actor_json now s;
              Some (TrashTrashed trash_id node now, s) })"

text \<open>\<open>serde_json::from_str(..).unwrap_or_default()\<close> of the actor metadata.\<close>

definition actor_or_default :: "ext \<Rightarrow> string \<Rightarrow> actor" where
  "actor_or_default E actor_json = (case actor_of_json E actor_json of Some a \<Rightarrow> a | None \<Rightarrow> [])"

definition trash ::
    "ext \<Rightarrow> uuid \<Rightarrow> virtual_path \<Rightarrow> mutation_options \<Rightarrow> string \<Rightarrow> db \<Rightarrow> trash_entry fs_result \<times> db" where
  "trash E w path options actor_json s =
     finish_call (\<lambda>outcome. trash_result E outcome path (actor_or_default E actor_json))
       (conn_call (trash_tx E w path options actor_json) s)"

subsection \<open>list_trash\<close>

record raw_trash_row =
  rt_id :: uuid
  rt_node_id :: uuid
  rt_deleted_at_ms :: int

definition fetch_trash_page :: "db \<Rightarrow> uuid \<Rightarrow> string \<Rightarrow> nat \<Rightarrow> raw_trash_row list" where
  "fetch_trash_page s w after_id limit =
     map (\<lambda>t. \<lparr>rt_id = t_id t, rt_node_id = t_node_id t, rt_deleted_at_ms = t_deleted_at_ms t\<rparr>)
       (take limit (sort_key t_id
         (filter (\<lambda>t. t_workspace_id t = w \<and> after_id < t_id t) (trash_rows s))))"

text \<open>ORDER BY sequence DESC LIMIT 1 is the last row in ascending order.\<close>

definition fetch_trash_change_context :: "db \<Rightarrow> uuid \<Rightarrow> uuid \<Rightarrow> (string option \<times> string) option" where
  "fetch_trash_change_context s w node_id =
     (case List.rev (sort_key ch_sequence
         (filter (\<lambda>c. ch_workspace_id c = w \<and> ch_node_id c = Some node_id \<and> ch_kind c = ''trashed'')
            (changes s))) of
        [] \<Rightarrow> None
      | c # _ \<Rightarrow> Some (ch_old_path c, ch_actor_json c))"

definition build_trash_entry ::
    "ext \<Rightarrow> raw_trash_row \<Rightarrow> raw_node option \<Rightarrow> (string option \<times> string) option \<Rightarrow>
     trash_entry fs_result" where
  "build_trash_entry E row node_row context =
     (case node_row of
        None \<Rightarrow> Inl (internal_storage_failure ''trashed node record is missing'')
      | Some n \<Rightarrow>
          let (old_path, actor_json) = (case context of None \<Rightarrow> (None, ''{}'') | Some c \<Rightarrow> c)
          in res_bind (case old_path of Some raw \<Rightarrow> vp_parse raw | None \<Rightarrow> Inr vp_root) (\<lambda>original_path.
             res_bind (parse_id E (rt_id row)) (\<lambda>i.
             res_bind (into_node E n) (\<lambda>nd.
             Inr \<lparr>tr_id = i, tr_node = nd, tr_original_path = original_path,
                  tr_trashed_at_ms = rt_deleted_at_ms row,
                  tr_actor_metadata = actor_or_default E actor_json\<rparr>))))"

record trash_cursor =
  tsc_v :: nat
  tsc_workspace_id :: uuid
  tsc_last_id :: string

definition encode_trash_cursor :: "trash_cursor codec \<Rightarrow> uuid \<Rightarrow> string \<Rightarrow> string" where
  "encode_trash_cursor C w last_id =
     enc C \<lparr>tsc_v = 1, tsc_workspace_id = w, tsc_last_id = last_id\<rparr>"

definition decode_trash_cursor :: "trash_cursor codec \<Rightarrow> string \<Rightarrow> uuid \<Rightarrow> trash_cursor fs_result" where
  "decode_trash_cursor C raw w = (case dec C raw of
     None \<Rightarrow> Inl (invalid_cursor raw)
   | Some p \<Rightarrow>
       if tsc_v p \<noteq> 1 \<or> tsc_workspace_id p \<noteq> w then Inl (invalid_cursor raw) else Inr p)"

definition list_trash ::
    "ext \<Rightarrow> trash_cursor codec \<Rightarrow> uuid \<Rightarrow> page_request \<Rightarrow> db \<Rightarrow> trash_entry page fs_result" where
  "list_trash E C w page s =
     res_bind (case pr_cursor page of
                 Some raw \<Rightarrow> res_bind (decode_trash_cursor C raw w) (\<lambda>p. Inr (tsc_last_id p))
               | None \<Rightarrow> Inr '''') (\<lambda>after_id.
     let limit = max (pr_limit page) 1;
         fetched = fetch_trash_page s w after_id (limit + 1);
         has_more = length fetched > limit;
         rows = (if has_more then take limit fetched else fetched);
         next = (if has_more then Some (encode_trash_cursor C w (rt_id (last rows))) else None)
     in res_bind (collect_results (map (\<lambda>row. build_trash_entry E row
            (fetch_by_id_any s w (rt_node_id row))
            (fetch_trash_change_context s w (rt_node_id row))) rows)) (\<lambda>items.
        Inr \<lparr>pg_items = items, pg_next_cursor = next\<rparr>))"

subsection \<open>restore\<close>

definition fetch_trash_row :: "db \<Rightarrow> uuid \<Rightarrow> uuid \<Rightarrow> (uuid \<times> uuid \<times> string) option" where
  "fetch_trash_row s w trash_id =
     map_option (\<lambda>t. (t_node_id t, t_original_parent_id t, t_original_name t))
       (find (\<lambda>t. t_workspace_id t = w \<and> t_id t = trash_id) (trash_rows s))"

datatype restore_outcome =
    RestoreRestored raw_node
  | RestoreTrashNotFound
  | RestoreRevisionConflict
  | RestoreDestIsRoot
  | RestoreDestParentNotFound
  | RestoreDestParentNotDirectory
  | RestoreDestAlreadyExists
  | RestoreOriginalLocationGone

definition restore_result :: "ext \<Rightarrow> restore_outcome \<Rightarrow> uuid \<Rightarrow> node fs_result" where
  "restore_result E outcome trash_id = (case outcome of
     RestoreRestored row \<Rightarrow> into_node E row
   | RestoreTrashNotFound \<Rightarrow> Inl (not_found trash_id)
   | RestoreOriginalLocationGone \<Rightarrow> Inl (not_found trash_id)
   | RestoreDestParentNotFound \<Rightarrow> Inl (not_found trash_id)
   | RestoreRevisionConflict \<Rightarrow> Inl (revision_conflict trash_id)
   | RestoreDestIsRoot \<Rightarrow> Inl (already_exists trash_id)
   | RestoreDestAlreadyExists \<Rightarrow> Inl (already_exists trash_id)
   | RestoreDestParentNotDirectory \<Rightarrow> Inl (wrong_node_type trash_id))"

text \<open>Where the node goes back to; the error outcomes are returned early.\<close>

definition restore_place ::
    "db \<Rightarrow> uuid \<Rightarrow> virtual_path option \<Rightarrow> uuid \<Rightarrow> string \<Rightarrow> (restore_outcome + uuid \<times> string) option" where
  "restore_place s w dest original_parent_id original_name =
     (case dest of
        Some dest_path \<Rightarrow>
          (case vp_name dest_path of
             None \<Rightarrow> Some (Inl RestoreDestIsRoot)
           | Some name \<Rightarrow> do {
               parent_path \<leftarrow> vp_parent dest_path;
               Some (case resolve_following s w parent_path True of
                       RFound parent \<Rightarrow>
                         if n_kind parent = DIRECTORY_KIND then Inr (n_id parent, name)
                         else Inl RestoreDestParentNotDirectory
                     | _ \<Rightarrow> Inl RestoreDestParentNotFound) })
      | None \<Rightarrow>
          Some (case fetch_by_id s w original_parent_id of
             Some parent \<Rightarrow>
               if n_kind parent = DIRECTORY_KIND then Inr (original_parent_id, original_name)
               else Inl RestoreDestParentNotDirectory
           | None \<Rightarrow> Inl RestoreOriginalLocationGone))"

definition put_back :: "uuid \<Rightarrow> string \<Rightarrow> int \<Rightarrow> int \<Rightarrow> node_row \<Rightarrow> node_row" where
  "put_back parent_id name new_revision now r =
     r\<lparr>n_parent_id := Some parent_id, n_name := name, n_trashed_at_ms := None,
       n_revision := new_revision, n_modified_at_ms := now\<rparr>"

definition restore_tx ::
    "ext \<Rightarrow> uuid \<Rightarrow> uuid \<Rightarrow> virtual_path option \<Rightarrow> mutation_options \<Rightarrow> string \<Rightarrow> db \<Rightarrow>
     (restore_outcome \<times> db) option" where
  "restore_tx E w trash_id dest options actor_json s =
     (case fetch_trash_row s w trash_id of
        None \<Rightarrow> Some (RestoreTrashNotFound, s)
      | Some (node_id, original_parent_id, original_name) \<Rightarrow>
          (case fetch_by_id_any s w node_id of
             None \<Rightarrow> Some (RestoreTrashNotFound, s)
           | Some node \<Rightarrow>
               if stale (mo_expected_revision options) node then Some (RestoreRevisionConflict, s)
               else do {
                 dest_place \<leftarrow> restore_place s w dest original_parent_id original_name;
                 (case dest_place of
                    Inl outcome \<Rightarrow> Some (outcome, s)
                  | Inr (dest_parent_id, dest_name) \<Rightarrow>
                      if fetch_child s w dest_parent_id dest_name \<noteq> None
                      then Some (RestoreDestAlreadyExists, s)
                      else
                        let (now, s) = now_ms E s;
                            new_revision = n_revision node + 1
                        in do {
                          s \<leftarrow> update_node (n_id node)
                                 (put_back dest_parent_id dest_name new_revision now) s;
                          s \<leftarrow> delete_trash (\<lambda>t. t_id t = trash_id) s;
                          s \<leftarrow> append_change w Restored (Some (n_id node)) None None
                                 (Some new_revision) actor_json now s;
                          restored \<leftarrow> fetch_by_id s w (n_id node);
                          Some (RestoreRestored restored, s) }) }))"

definition restore ::
    "ext \<Rightarrow> uuid \<Rightarrow> uuid \<Rightarrow> virtual_path option \<Rightarrow> mutation_options \<Rightarrow> string \<Rightarrow> db \<Rightarrow>
     node fs_result \<times> db" where
  "restore E w trash_id dest options actor_json s =
     finish_call (\<lambda>outcome. restore_result E outcome trash_id)
       (conn_call (restore_tx E w trash_id dest options actor_json) s)"

subsection \<open>purge\<close>

datatype purge_outcome = PurgePurged | PurgeNotFound

definition purge_result :: "purge_outcome \<Rightarrow> uuid \<Rightarrow> unit fs_result" where
  "purge_result outcome trash_id = (case outcome of
     PurgePurged \<Rightarrow> Inr ()
   | PurgeNotFound \<Rightarrow> Inl (not_found trash_id))"

definition purge_tx :: "ext \<Rightarrow> uuid \<Rightarrow> uuid \<Rightarrow> string \<Rightarrow> db \<Rightarrow> (purge_outcome \<times> db) option" where
  "purge_tx E w trash_id actor_json s =
     (case fetch_trash_row s w trash_id of
        None \<Rightarrow> Some (PurgeNotFound, s)
      | Some (node_id, _, _) \<Rightarrow>
          let (now, s) = now_ms E s
          in do {
            s \<leftarrow> append_change w Purged (Some node_id) None None None actor_json now s;
            s \<leftarrow> purge_subtree node_id s;
            Some (PurgePurged, s) })"

definition purge :: "ext \<Rightarrow> uuid \<Rightarrow> uuid \<Rightarrow> string \<Rightarrow> db \<Rightarrow> unit fs_result \<times> db" where
  "purge E w trash_id actor_json s =
     finish_call (\<lambda>outcome. purge_result outcome trash_id)
       (conn_call (purge_tx E w trash_id actor_json) s)"

end
