(* ===== verification/Tree_Ops.thy ===== *)
theory Tree_Ops
  imports Subtrees Trash
begin

text \<open>
  The transactions that take subtrees away or put them somewhere else: remove, purge, trash,
  restore and move. Each ends on a well-formed store with a well-formed store; when it
  reports success the paths changed as \<open>cut\<close>, \<open>moved\<close> or \<open>revived\<close> says and the feed has one
  more entry, and every other outcome leaves the store as it was.
\<close>

subsection \<open>The target of a named path\<close>

lemma resolve_loop_named:
  "resolve_loop s w False c q h l = RFound n \<Longrightarrow> q \<noteq> [] \<Longrightarrow> n_parent_id n \<noteq> None"
proof (induction s w False c q h l rule: resolve_loop.induct)
  case (1 s w c q h l)
  from 1(5) obtain x xs where q: "q = x # xs" by (cases q) auto
  show ?case
  proof (cases "n_kind c = DIRECTORY_KIND")
    case True
    with q 1(4) obtain d where d: "fetch_child s w (n_id c) x = Some d"
      and rec: "resolve_loop s w False d xs h (l - 1) = RFound n"
      by (subst (asm) resolve_loop.simps) (auto split: option.splits if_splits)
    show ?thesis
    proof (cases "xs = []")
      case True
      with rec have "n = d" by (subst (asm) resolve_loop.simps) simp
      with d show ?thesis by (auto dest!: fetch_child_SomeD)
    next
      case False
      with 1(2) [OF q True d] rec show ?thesis by blast
    qed
  next
    case False
    with q 1(4) have sym: "n_kind c = SYMLINK_KIND"
      by (subst (asm) resolve_loop.simps) (auto split: if_splits)
    with q False 1(4) obtain b rest h' where fo: "follow_one s w c h = (FNext b rest, h')"
      and rec: "resolve_loop s w False b (rest @ q) h' (length rest) = RFound n"
      by (subst (asm) resolve_loop.simps) (auto split: prod.splits follow_step.splits if_splits)
    with 1(3) [OF q False sym fo [symmetric] refl] q show ?thesis by simp
  qed
qed

lemma named_target:
  assumes ok: "tree_ok s" and path: "canonical path" "vp_name path \<noteq> None"
    and d: "resolve_following s w path False = RFound d"
  obtains dp where "lookup_segs s w dp = Some d" "dp \<noteq> []" "n_parent_id d \<noteq> None"
proof -
  obtain x where "vp_name path = Some x" using path(2) by auto
  then have "vp_segments path \<noteq> []" by (rule vp_name_SomeE [OF path(1)]) simp
  with d have par: "n_parent_id d \<noteq> None"
    by (auto simp: resolve_following_def split: option.splits dest: resolve_loop_named)
  from resolve_following_reachable [OF ok d] obtain dp where dp: "lookup_segs s w dp = Some d"
    by (auto simp: reachable_def)
  moreover have "dp \<noteq> []" using dp par lookup_Nil_parent [of s w d] by auto
  ultimately show thesis using par that by blast
qed

text \<open>The row a lookup returns, with what the invariant says of it.\<close>

lemma reached_rowE:
  assumes "wf E s" "lookup_segs s w dp = Some d"
  obtains r where "r \<in> set (nodes s)" "d = map_row r" "n_workspace_id r = w" "active r"
    "n_revision r \<ge> 1" "n_id r \<in> used_ids E s" "w \<in> w_id ` set (workspaces s)"
proof -
  obtain r where r: "r \<in> set (nodes s)" "d = map_row r" "n_workspace_id r = w" "active r"
    by (rule lookup_row [OF assms(2)])
  moreover have "n_revision r \<ge> 1"
    using wfD(4) [OF assms(1)] r(1) by (simp add: content_ok_def row_content_ok_def)
  moreover have "n_id r \<in> used_ids E s" using wfD(6) [OF assms(1)] r(1) by (auto simp: ids_ok_def)
  moreover have "w \<in> w_id ` set (workspaces s)"
    by (rule visible_workspace [OF assms(1), of w r]) (use r in \<open>simp add: visible_def\<close>)
  ultimately show thesis using that by blast
qed

text \<open>One more entry in the feed.\<close>

definition logged ::
    "db \<Rightarrow> db \<Rightarrow> uuid \<Rightarrow> change_kind \<Rightarrow> uuid \<Rightarrow> string option \<Rightarrow> string option \<Rightarrow> int option \<Rightarrow>
     string \<Rightarrow> bool" where
  "logged s t w kind i old_path new_path rv aj \<longleftrightarrow>
     (\<exists>sq now. changes t = changes s @ [change_rec w sq kind (Some i) old_path new_path rv aj now])"

lemma log_step:
  assumes ok: "wf E s" and w: "w \<in> w_id ` set (workspaces s)" and i: "i \<in> used_ids E s"
    and op: "\<And>p. op = Some p \<Longrightarrow> \<exists>v. canonical v \<and> p = as_str v"
    and np: "\<And>p. np = Some p \<Longrightarrow> \<exists>v. canonical v \<and> p = as_str v" and rv: "\<And>v. rv = Some v \<Longrightarrow> v \<ge> 1"
  obtains t where "append_change w kind (Some i) op np rv aj now s = Some t" "wf E t"
    "logged s t w kind i op np rv aj" "nodes t = nodes s" "chunks t = chunks s"
    "generations t = generations s" "attributes t = attributes s" "trash_rows t = trash_rows s"
    "w_id ` set (workspaces t) = w_id ` set (workspaces s)"
proof -
  have used: "k \<in> used_ids E s" if "Some i = Some k" for k using i that by simp
  have cok: "change_ok (change_rec w sq kind (Some i) op np rv aj now)" for sq
    by (rule change_ok_rec [OF op np rv])
  obtain t sq where t: "append_change w kind (Some i) op np rv aj now s = Some t" "wf E t"
    "t = s\<lparr>workspaces := map (bump_seq w now) (workspaces s),
        changes := changes s @ [change_rec w sq kind (Some i) op np rv aj now]\<rparr>"
    "w_id ` set (workspaces t) = w_id ` set (workspaces s)"
    by (rule append_change_wf [OF ok w used cok])
  have "logged s t w kind i op np rv aj" unfolding logged_def by (auto simp: t(3))
  with t that show thesis by simp
qed

lemma logged_cong: "changes s' = changes s \<Longrightarrow> logged s' t w k i op np rv aj = logged s t w k i op np rv aj"
  by (simp add: logged_def)

subsection \<open>remove\<close>

definition removed :: "db \<Rightarrow> db \<Rightarrow> uuid \<Rightarrow> virtual_path \<Rightarrow> remove_options \<Rightarrow> string \<Rightarrow> bool" where
  "removed s t w path options aj \<longleftrightarrow>
     (\<exists>d dp. resolve_following s w path False = RFound d \<and> lookup_segs s w dp = Some d \<and> dp \<noteq> [] \<and>
        \<not> stale (rmo_expected_revision options) d \<and>
        (n_kind d = DIRECTORY_KIND \<longrightarrow> rmo_recursive options \<or> (\<forall>x. lookup_segs s w (dp @ [x]) = None)) \<and>
        cut s t w dp \<and> (\<forall>r \<in> set (nodes t). \<not> below (nodes s) (n_id d) (n_id r)) \<and>
        logged s t w Removed (n_id d) (Some (as_str path)) None None aj)"

lemma no_active_children:
  assumes "tree_ok s" "lookup_segs s w dp = Some d" "\<not> has_active_children s w (n_id d)"
  shows "lookup_segs s w (dp @ [x]) = None"
proof -
  have "fetch_child s w (n_id d) x = None"
    using assms(3) by (auto simp: fetch_child_def has_active_children_def find_None_iff list_ex_iff)
  then show ?thesis using assms(2) by (simp add: lookup_snoc enter_def)
qed

theorem remove_tx_ok:
  assumes ok: "wf E s" and path: "canonical path"
  shows "\<exists>res t. remove_tx E w path options aj s = Some (res, t) \<and> wf E t \<and>
    (if res = RemoveRemoved then removed s t w path options aj else t = s)"
proof (cases "\<exists>d. resolve_following s w path False = RFound d \<and> vp_name path \<noteq> None \<and>
    \<not> stale (rmo_expected_revision options) d \<and>
    \<not> (n_kind d = DIRECTORY_KIND \<and> \<not> rmo_recursive options \<and> has_active_children s w (n_id d))")
  case False
  with ok show ?thesis
    by (auto simp: remove_tx_def split: resolve_outcome.splits)
next
  case True
  then obtain d where d: "resolve_following s w path False = RFound d" "vp_name path \<noteq> None"
    "\<not> stale (rmo_expected_revision options) d"
    "\<not> (n_kind d = DIRECTORY_KIND \<and> \<not> rmo_recursive options \<and> has_active_children s w (n_id d))"
    by blast
  note tree = wfD(2) [OF ok]
  obtain dp where dp: "lookup_segs s w dp = Some d" "dp \<noteq> []"
    by (rule named_target [OF tree path d(2,1)])
  obtain r where r: "r \<in> set (nodes s)" "d = map_row r" "n_id r \<in> used_ids E s"
    "w \<in> w_id ` set (workspaces s)"
    by (rule reached_rowE [OF ok dp(1)])
  define now where "now = clock_ms E (clock_reads s)"
  define s1 where "s1 = (purged (n_id d) s)\<lparr>clock_reads := Suc (clock_reads s)\<rparr>"
  note cut = purged_cut [OF ok dp]
  have w1: "wf E s1" using cut(2) by (simp add: s1_def)
  obtain t where t: "append_change w Removed (Some (n_id d)) (Some (as_str path)) None None aj now s1 = Some t"
    "wf E t" "logged s1 t w Removed (n_id d) (Some (as_str path)) None None aj"
    "nodes t = nodes s1" "chunks t = chunks s1"
    by (rule log_step [OF w1, of w "n_id d" "Some (as_str path)" None None])
      (use r path in \<open>auto simp: s1_def used_ids_def\<close>)
  have "remove_tx E w path options aj s = Some (RemoveRemoved, t)"
    using d cut(3) t(1) by (auto simp: remove_tx_def now_ms_def s1_def now_def)
  moreover have "cut s t w dp" using cut(1) cut_cong [of t "purged (n_id d) s"] t(4,5) by (simp add: s1_def)
  moreover have "\<forall>q \<in> set (nodes t). \<not> below (nodes s) (n_id d) (n_id q)"
    using purged_rows(1) [of "n_id d" s] r(1,2) by (auto simp: t(4) s1_def)
  moreover have "logged s t w Removed (n_id d) (Some (as_str path)) None None aj"
    using t(3) logged_cong [of s1 s] by (simp add: s1_def)
  moreover have "n_kind d = DIRECTORY_KIND \<longrightarrow> rmo_recursive options \<or> (\<forall>x. lookup_segs s w (dp @ [x]) = None)"
    using d(4) no_active_children [OF tree dp(1)] by blast
  ultimately show ?thesis using t(2) d(1,3) dp unfolding removed_def by auto
qed

subsection \<open>purge\<close>

lemma fetch_trash_row_Some:
  assumes ok: "wf E s" and f: "fetch_trash_row s w tid = Some (i, op, nm)"
  obtains x r where "x \<in> set (trash_rows s)" "t_id x = tid" "t_workspace_id x = w" "t_node_id x = i"
    "r \<in> set (nodes s)" "n_id r = i" "n_workspace_id r = w" "\<not> active r" "n_parent_id r = Some op"
    "n_name r = nm" "i \<in> used_ids E s" "w \<in> w_id ` set (workspaces s)" "n_revision r \<ge> 1"
proof -
  from f obtain x where x: "x \<in> set (trash_rows s)" "t_workspace_id x = w" "t_id x = tid"
    "t_node_id x = i" "t_original_parent_id x = op" "t_original_name x = nm"
    by (auto simp: fetch_trash_row_def dest!: find_SomeD)
  with wfD(5) [OF ok] obtain r where r: "r \<in> set (nodes s)" "n_id r = i" "n_workspace_id r = w"
    "\<not> active r" "n_parent_id r = Some op" "n_name r = nm"
    unfolding trash_ok_def by blast
  moreover have "i \<in> used_ids E s" using wfD(6) [OF ok] r by (auto simp: ids_ok_def)
  moreover have "w \<in> w_id ` set (workspaces s)"
    using schema_parts(6) [OF wfD(1) [OF ok]] r unfolding fk_ok_iff by blast
  moreover have "n_revision r \<ge> 1" using wfD(4) [OF ok] r(1) by (simp add: content_ok_def row_content_ok_def)
  ultimately show thesis using that x by blast
qed

text \<open>A trashed row is on no path, and neither is what hangs below it.\<close>

lemma trashed_below_hidden:
  assumes ok: "tree_ok s" and r: "r \<in> set (nodes s)" "\<not> active r"
  shows "lookup_segs s w xs = Some n \<Longrightarrow> \<not> below (nodes s) (n_id r) (n_id n)"
proof (induction xs arbitrary: n rule: rev_induct)
  case Nil
  obtain q where q: "q \<in> set (nodes s)" "n = map_row q" "active q" by (rule lookup_row [OF Nil])
  have "n_parent_id q = None" using lookup_Nil_parent [OF Nil] q(2) by simp
  then show ?case
    using below_root [OF _ q(1) refl _ tree_okD(1) [OF ok], of "n_id r"] row_id_eq [OF ok q(1) r(1)] q r(2)
    by auto
next
  case (snoc x xs)
  obtain q where q: "q \<in> set (nodes s)" "n = map_row q" "active q" by (rule lookup_row [OF snoc.prems])
  obtain p where "lookup_segs s w xs = Some p" "n_parent_id n = Some (n_id p)"
    by (rule lookup_parentE [OF ok snoc.prems])
  moreover have "n_id q \<noteq> n_id r" using row_id_eq [OF ok q(1) r(1)] q(3) r(2) by auto
  ultimately show ?case
    using below_parent [OF tree_okD(1) [OF ok] q(1), of "n_id r"] snoc.IH q(2) by auto
qed

text \<open>Deleting rows no path reaches changes no path.\<close>

lemma unreached_lookup:
  assumes ok: "tree_ok s" "tree_ok t" and hidden: "\<And>ys n. lookup_segs s w ys = Some n \<Longrightarrow> \<not> B (n_id n)"
    and vis: "\<And>q. visible t w q \<longleftrightarrow> visible s w q \<and> \<not> B (n_id q)"
  shows "lookup_segs t w xs = lookup_segs s w xs"
proof (induction xs rule: rev_induct)
  case Nil
  show ?case unfolding lookup_Nil
  proof (rule option_eqI)
    fix n
    have "\<not> B (n_id n)" if "fetch_root s w = Some n" using hidden [of "[]" n] that by simp
    then show "fetch_root t w = Some n \<longleftrightarrow> fetch_root s w = Some n"
      unfolding fetch_root_iff [OF ok(2)] vis using fetch_root_iff [OF ok(1), of w n]
      by (metis map_row_fields(1))
  qed
next
  case (snoc x xs)
  have "enter t w m x = enter s w m x" if m: "lookup_segs s w xs = Some m" for m
  proof (rule option_eqI)
    fix n
    have "\<not> B (n_id n)" if "enter s w m x = Some n" using hidden [of "xs @ [x]" n] m that by (simp add: lookup_snoc)
    then show "enter t w m x = Some n \<longleftrightarrow> enter s w m x = Some n"
      unfolding enter_def fetch_child_iff [OF ok(2)] vis
      using fetch_child_iff [OF ok(1), of w "n_id m" x n] by (auto simp: fetch_child_iff [OF ok(2)] vis)
  qed
  with snoc show ?case by (cases "lookup_segs s w xs") (simp_all add: lookup_snoc)
qed

text \<open>Every path and every file as it was.\<close>

definition undisturbed :: "db \<Rightarrow> db \<Rightarrow> bool" where
  "undisturbed s t \<longleftrightarrow>
     (\<forall>w xs. lookup_segs t w xs = lookup_segs s w xs \<and> (\<forall>bs. file_at s w xs bs \<longrightarrow> file_at t w xs bs))"

lemma undisturbedI:
  assumes "\<And>w xs. lookup_segs t w xs = lookup_segs s w xs"
    and "\<And>w xs n g k. lookup_segs t w xs = Some n \<Longrightarrow> n_content_generation_id n = Some g \<Longrightarrow>
      chunk_at t g k = chunk_at s g k"
  shows "undisturbed s t"
  using assms unfolding undisturbed_def file_at_def gen_holds_def by metis

definition purged_entry :: "db \<Rightarrow> db \<Rightarrow> uuid \<Rightarrow> uuid \<Rightarrow> string \<Rightarrow> bool" where
  "purged_entry s t w tid aj \<longleftrightarrow>
     (\<exists>i op nm. fetch_trash_row s w tid = Some (i, op, nm) \<and> undisturbed s t \<and>
        (\<forall>r \<in> set (nodes t). \<not> below (nodes s) i (n_id r)) \<and>
        fetch_trash_row t w tid = None \<and> logged s t w Purged i None None None aj)"

theorem purge_tx_ok:
  assumes ok: "wf E s" and nc: "\<And>i op nm. fetch_trash_row s w tid = Some (i, op, nm) \<Longrightarrow> no_cycle (nodes s) i"
  shows "\<exists>res t. purge_tx E w tid aj s = Some (res, t) \<and> wf E t \<and>
    (case res of PurgePurged \<Rightarrow> purged_entry s t w tid aj
     | PurgeNotFound \<Rightarrow> t = s \<and> fetch_trash_row s w tid = None)"
proof (cases "fetch_trash_row s w tid")
  case None
  with ok show ?thesis by (simp add: purge_tx_def)
next
  case (Some a)
  obtain i op nm where a: "a = (i, op, nm)" by (cases a)
  note f = Some [unfolded a]
  note tree = wfD(2) [OF ok]
  obtain x r where x: "x \<in> set (trash_rows s)" "t_id x = tid" "t_workspace_id x = w" "t_node_id x = i"
    and r: "r \<in> set (nodes s)" "n_id r = i" "n_workspace_id r = w" "\<not> active r" "n_parent_id r = Some op"
    and u: "i \<in> used_ids E s" "w \<in> w_id ` set (workspaces s)"
    by (rule fetch_trash_row_Some [OF ok f])
  define now where "now = clock_ms E (clock_reads s)"
  define s1 where "s1 = s\<lparr>clock_reads := Suc (clock_reads s)\<rparr>"
  have w1: "wf E s1" using ok by (simp add: s1_def)
  obtain s2 where s2: "append_change w Purged (Some i) None None None aj now s1 = Some s2"
    "wf E s2" "logged s1 s2 w Purged i None None None aj" "nodes s2 = nodes s1" "chunks s2 = chunks s1"
    "trash_rows s2 = trash_rows s1"
    by (rule log_step [OF w1, of w i None None None]) (use u in \<open>auto simp: s1_def used_ids_def\<close>)
  have n2: "nodes s2 = nodes s" "trash_rows s2 = trash_rows s" "chunks s2 = chunks s" using s2 by (simp_all add: s1_def)
  have r2: "r \<in> set (nodes s2)" using r n2 by simp
  have np: "n_parent_id r \<noteq> None" using r by simp
  have t: "purge_subtree i s2 = Some (purged i s2)" "wf E (purged i s2)"
    by (rule purge_subtree_ok [OF s2(2) r2 r(2) np] wf_purged(1) [OF s2(2) r2 r(2) np];
        use nc [OF f] n2 in simp)+
  have i2: "i \<in> n_id ` set (nodes s2)" using r n2 by auto
  have "undisturbed s (purged i s2)"
  proof (rule undisturbedI)
    fix w' xs
    have "lookup_segs (purged i s2) w' xs = lookup_segs s2 w' xs"
    proof (rule unreached_lookup [OF wfD(2) [OF s2(2)] wfD(2) [OF t(2)]])
      show "visible (purged i s2) w' q \<longleftrightarrow> visible s2 w' q \<and> \<not> below (nodes s2) i (n_id q)" for q
        by (rule purged_visible [OF i2])
      show "lookup_segs s2 w' ys = Some n \<Longrightarrow> \<not> below (nodes s2) i (n_id n)" for ys n
        using trashed_below_hidden [OF wfD(2) [OF s2(2)] r2 r(4)] r(2) by simp
    qed
    then show "lookup_segs (purged i s2) w' xs = lookup_segs s w' xs" by (simp add: lookup_cong [OF n2(1)])
  next
    fix w' xs n g k assume "lookup_segs (purged i s2) w' xs = Some n" "n_content_generation_id n = Some g"
    then have "chunk_at (purged i s2) g k = chunk_at s2 g k"
      by (elim lookup_row) (auto intro: purged_chunks [OF s2(2) i2])
    then show "chunk_at (purged i s2) g k = chunk_at s g k" by (simp add: chunk_at_def n2(3))
  qed
  moreover have "\<forall>q \<in> set (nodes (purged i s2)). \<not> below (nodes s) i (n_id q)"
    by (auto simp: purged_rows(1) [OF i2] n2(1))
  moreover have "fetch_trash_row (purged i s2) w tid = None"
  proof -
    have "y = x" if "y \<in> set (trash_rows s)" "t_id y = tid" for y
      using distinct_map_eqD [OF schema_parts(5) [OF wfD(1) [OF ok]] that(1) x(1)] that(2) x(2) by simp
    moreover have "below (nodes s) i i" using r by (auto intro: below.self)
    ultimately show ?thesis
      using x(4) by (auto simp: fetch_trash_row_def find_None_iff purged_rows(3) [OF i2] n2)
  qed
  moreover have "logged s (purged i s2) w Purged i None None None aj"
    using s2(3) by (simp add: logged_def s1_def)
  moreover have "purge_tx E w tid aj s = Some (PurgePurged, purged i s2)"
    using f s2(1) t(1) by (simp add: purge_tx_def now_ms_def s1_def now_def)
  ultimately show ?thesis using t(2) f by (auto simp: purged_entry_def)
qed

subsection \<open>trash\<close>

lemma mark_trashed_fields [simp]:
  "n_id (mark_trashed now r) = n_id r" "n_workspace_id (mark_trashed now r) = n_workspace_id r"
  "n_parent_id (mark_trashed now r) = n_parent_id r" "n_name (mark_trashed now r) = n_name r"
  "n_kind (mark_trashed now r) = n_kind r" "n_size (mark_trashed now r) = n_size r"
  "n_revision (mark_trashed now r) = n_revision r"
  "n_content_generation_id (mark_trashed now r) = n_content_generation_id r"
  "n_symlink_target (mark_trashed now r) = n_symlink_target r"
  "n_trashed_at_ms (mark_trashed now r) = Some now" "\<not> active (mark_trashed now r)"
  "map_row (mark_trashed now r) = map_row r"
  by (simp_all add: mark_trashed_def active_def map_row_def raw_node.truncate_def)

text \<open>Rows that change their place only keep their content.\<close>

lemma content_upd_place:
  assumes ok: "content_ok s"
    and f: "\<And>r. n_id (f r) = n_id r" "\<And>r. n_workspace_id (f r) = n_workspace_id r" "\<And>r. n_kind (f r) = n_kind r"
      "\<And>r. n_size (f r) = n_size r" "\<And>r. n_content_generation_id (f r) = n_content_generation_id r"
      "\<And>r. n_symlink_target (f r) = n_symlink_target r"
    and rev: "\<And>r. r \<in> set (nodes s) \<Longrightarrow> n_id r = i \<Longrightarrow> n_revision (f r) \<ge> 1"
    and t: "nodes t = upd i f (nodes s)" "generations t = generations s" "chunks t = chunks s"
  shows "content_ok t"
proof -
  have "keeps_content f" unfolding keeps_content_def using f by blast
  from content_upd_keep [OF ok this rev] show ?thesis
    by (subst content_ok_cong [where s = "s\<lparr>nodes := upd i f (nodes s)\<rparr>"]) (simp_all add: t)
qed

lemma upd_cong:
  assumes "tree_ok s" "r \<in> set (nodes s)" "f r = g r"
  shows "upd (n_id r) f (nodes s) = upd (n_id r) g (nodes s)"
  unfolding upd_def
proof (rule map_cong [OF refl])
  fix x assume x: "x \<in> set (nodes s)"
  show "(if n_id x = n_id r then f x else x) = (if n_id x = n_id r then g x else x)"
    using row_id_eq [OF assms(1) x assms(2)] assms(3) by (cases "n_id x = n_id r") simp_all
qed

text \<open>The two statements of a trashing.\<close>

definition trashed_row :: "uuid \<Rightarrow> uuid \<Rightarrow> int \<Rightarrow> node_row \<Rightarrow> trash_row" where
  "trashed_row tid w now r =
     \<lparr>t_id = tid, t_workspace_id = w, t_node_id = n_id r, t_original_parent_id = the (n_parent_id r),
      t_original_name = n_name r, t_deleted_at_ms = now\<rparr>"

lemma trash_rows_wf:
  assumes ok: "wf E s" and r: "r \<in> set (nodes s)" "n_workspace_id r = w" "active r" "n_parent_id r = Some p"
    and tid: "tid \<notin> t_id ` set (trash_rows s)" "tid \<in> used_ids E s"
    and s1: "s1 = s\<lparr>trash_rows := trash_rows s @ [trashed_row tid w now r]\<rparr>"
    and t: "t = s1\<lparr>nodes := upd (n_id r) (mark_trashed now) (nodes s)\<rparr>"
  shows "schema_ok s1" and "wf E t"
proof -
  note tree = wfD(2) [OF ok]
  have w: "w \<in> w_id ` set (workspaces s)"
    using schema_parts(6) [OF wfD(1) [OF ok]] r(1,2) unfolding fk_ok_iff by blast
  show sch1: "schema_ok s1"
    unfolding s1 by (rule schema_add_trash [OF wfD(1) [OF ok]]) (use tid w r in \<open>auto simp: trashed_row_def\<close>)
  obtain q where q: "q \<in> set (nodes s)" "n_id q = p" "n_workspace_id q = n_workspace_id r"
    "n_kind q = DIRECTORY_KIND" "valid_seg (n_name r)"
    by (rule row_parentE [OF tree r(1,4)])
  define f where "f = (\<lambda>x. (mark_trashed now x)\<lparr>n_parent_id := Some p, n_name := n_name r\<rparr>)"
  have "mark_trashed now r = f r" using r(4) by (cases r) (simp add: f_def mark_trashed_def)
  then have upd: "upd (n_id r) (mark_trashed now) (nodes s) = upd (n_id r) f (nodes s)"
    by (rule upd_cong [OF tree r(1)])
  have pr: "place_row p (n_name r) (Some now) f"
    unfolding place_row_def f_def by (simp del: place_rowD)
  have t': "t = s1\<lparr>nodes := upd (n_id r) f (nodes s1)\<rparr>" unfolding t upd by (simp add: s1)
  have tree1: "tree_ok s1" using tree by (subst tree_ok_cong [where s = s]) (simp_all add: s1)
  have r1: "r \<in> set (nodes s1)" using r by (simp add: s1)
  have sch: "schema_ok t"
    unfolding t' by (rule schema_move_node [OF sch1 pr r1 refl]) (use q in \<open>auto simp: s1\<close>)
  have "tree_ok t"
    by (rule tree_move_node [OF tree1 t' sch pr r1 refl, of q]) (use q r in \<open>simp_all add: s1\<close>)
  moreover have "log_ok t" using wfD(3) [OF ok] log_ok_cong [of t s] by (simp add: t s1)
  moreover have "content_ok t"
    by (rule content_upd_place [OF wfD(4) [OF ok], of "mark_trashed now" "n_id r"])
      (use wfD(4) [OF ok] in \<open>auto simp: t s1 content_ok_def row_content_ok_def\<close>)
  moreover have "trash_ok t"
  proof -
    have old: "t_node_id x \<noteq> n_id r" if "x \<in> set (trash_rows s)" for x
      using wfD(5) [OF ok] that row_id_eq [OF tree _ r(1)] r(3) unfolding trash_ok_def by metis
    have rows: "q \<in> set (nodes t) \<longleftrightarrow> (q \<in> set (nodes s) \<and> n_id q \<noteq> n_id r) \<or> q = mark_trashed now r" for q
      using row_id_eq [OF tree _ r(1)] r(1) by (auto simp: t upd_def image_iff)
    have "\<exists>q \<in> set (nodes t). n_id q = t_node_id x \<and> n_workspace_id q = t_workspace_id x \<and> \<not> active q \<and>
        n_parent_id q = Some (t_original_parent_id x) \<and> n_name q = t_original_name x"
      if x: "x \<in> set (trash_rows t)" for x
    proof (cases "x \<in> set (trash_rows s)")
      case True
      with wfD(5) [OF ok] obtain q where "q \<in> set (nodes s)" "n_id q = t_node_id x"
        "n_workspace_id q = t_workspace_id x" "\<not> active q"
        "n_parent_id q = Some (t_original_parent_id x)" "n_name q = t_original_name x"
        unfolding trash_ok_def by blast
      with old [OF True] show ?thesis unfolding rows by (intro bexI [of _ q]) (auto simp: rows)
    next
      case False
      with x have "x = trashed_row tid w now r" by (auto simp: t s1)
      with r show ?thesis by (intro bexI [of _ "mark_trashed now r"]) (auto simp: rows trashed_row_def)
    qed
    moreover have "n_id r \<notin> t_node_id ` set (trash_rows s)" using old by (metis imageE)
    then have "distinct (map t_node_id (trash_rows t))"
      using wfD(5) [OF ok] by (simp add: t s1 trash_ok_def trashed_row_def)
    moreover have "n_id q \<in> t_node_id ` set (trash_rows t)" if "q \<in> set (nodes t)" "\<not> active q" for q
      using that wfD(5) [OF ok] unfolding rows trash_ok_def by (auto simp: t s1 trashed_row_def)
    ultimately show ?thesis unfolding trash_ok_def by blast
  qed
  moreover have "ids_ok E t"
    by (rule ids_ok_mono [OF wfD(6) [OF ok]])
      (use tid(2) imageI [OF r(1), of n_id] in \<open>auto simp: t s1 upd_def trashed_row_def used_ids_def\<close>)
  ultimately show "wf E t" using sch by (simp add: wf_def)
qed

definition trashed :: "db \<Rightarrow> db \<Rightarrow> uuid \<Rightarrow> virtual_path \<Rightarrow> mutation_options \<Rightarrow> string \<Rightarrow> uuid \<Rightarrow> raw_node \<Rightarrow> int \<Rightarrow> bool" where
  "trashed s t w path options aj tid d now \<longleftrightarrow>
     (\<exists>dp p. resolve_following s w path False = RFound d \<and> lookup_segs s w dp = Some d \<and> dp \<noteq> [] \<and>
        \<not> stale (mo_expected_revision options) d \<and> n_parent_id d = Some p \<and>
        cut s t w dp \<and> nodes t = upd (n_id d) (mark_trashed now) (nodes s) \<and>
        trash_rows t = trash_rows s @ [\<lparr>t_id = tid, t_workspace_id = w, t_node_id = n_id d,
          t_original_parent_id = p, t_original_name = n_name d, t_deleted_at_ms = now\<rparr>] \<and>
        tid \<notin> t_id ` set (trash_rows s) \<and> chunks t = chunks s \<and> generations t = generations s \<and>
        logged s t w Trashed (n_id d) (Some (as_str path)) None (Some (n_revision d)) aj)"

theorem trash_tx_ok:
  assumes E: "ext_ok E" and ok: "wf E s" and path: "canonical path"
  shows "\<exists>res t. trash_tx E w path options aj s = Some (res, t) \<and> wf E t \<and>
    (case res of TrashTrashed tid d now \<Rightarrow> trashed s t w path options aj tid d now | _ \<Rightarrow> t = s)"
proof (cases "\<exists>d. resolve_following s w path False = RFound d \<and> vp_name path \<noteq> None \<and>
    \<not> stale (mo_expected_revision options) d")
  case False
  with ok show ?thesis by (auto simp: trash_tx_def split: resolve_outcome.splits)
next
  case True
  then obtain d where d: "resolve_following s w path False = RFound d" "vp_name path \<noteq> None"
    "\<not> stale (mo_expected_revision options) d" by blast
  note tree = wfD(2) [OF ok]
  obtain dp where dp: "lookup_segs s w dp = Some d" "dp \<noteq> []" "n_parent_id d \<noteq> None"
    by (rule named_target [OF tree path d(2,1)])
  then obtain p where p: "n_parent_id d = Some p" by auto
  obtain r where r: "r \<in> set (nodes s)" "d = map_row r" "n_workspace_id r = w" "active r"
    "n_revision r \<ge> 1" "n_id r \<in> used_ids E s" "w \<in> w_id ` set (workspaces s)"
    by (rule reached_rowE [OF ok dp(1)])
  have rp: "n_parent_id r = Some p" using p r(2) by simp
  define tid where "tid = fresh_id E s"
  define now where "now = clock_ms E (clock_reads s)"
  define s0 where "s0 = s\<lparr>ids_used := Suc (ids_used s), clock_reads := Suc (clock_reads s)\<rparr>"
  define s1 where "s1 = s0\<lparr>trash_rows := trash_rows s0 @ [trashed_row tid w now r]\<rparr>"
  define s2 where "s2 = s1\<lparr>nodes := upd (n_id r) (mark_trashed now) (nodes s0)\<rparr>"
  have w0: "wf E s0" using wf_new_id [OF ok] by (simp add: s0_def)
  have tid: "tid \<notin> t_id ` set (trash_rows s)" "tid \<in> used_ids E s0"
    using fresh_unused(4) [OF E wfD(6) [OF ok]] by (auto simp: tid_def s0_def used_ids_def fresh_id_def)
  have r0: "r \<in> set (nodes s0)" using r by (simp add: s0_def)
  have "tid \<notin> t_id ` set (trash_rows s0)" using tid(1) by (simp add: s0_def)
  note wf2 = trash_rows_wf [OF w0 r0 r(3,4) rp this tid(2) s1_def s2_def]
  obtain t where t: "append_change w Trashed (Some (n_id d)) (Some (as_str path)) None (Some (n_revision d)) aj now s2 = Some t"
    "wf E t" "logged s2 t w Trashed (n_id d) (Some (as_str path)) None (Some (n_revision d)) aj"
    "nodes t = nodes s2" "chunks t = chunks s2" "generations t = generations s2" "attributes t = attributes s2"
    "trash_rows t = trash_rows s2"
    by (rule log_step [OF wf2(2), of w "n_id d" "Some (as_str path)" None "Some (n_revision d)"])
      (use r path in \<open>auto simp: s2_def s1_def s0_def used_ids_def\<close>)
  have nt: "nodes t = upd (n_id d) (mark_trashed now) (nodes s)" using t(4) r(2) by (simp add: s2_def s0_def)
  have rest: "chunks t = chunks s" "generations t = generations s"
    using t(5,6) by (simp_all add: s2_def s1_def s0_def)
  have "cut s t w dp"
    by (rule trashed_cut [OF tree wfD(2) [OF t(2)] dp(1,2) _ _ _ nt rest(1)]) simp_all
  moreover have "trash_rows t = trash_rows s @ [\<lparr>t_id = tid, t_workspace_id = w, t_node_id = n_id d,
      t_original_parent_id = p, t_original_name = n_name d, t_deleted_at_ms = now\<rparr>]"
    using t(8) r(2) rp by (simp add: s2_def s1_def s0_def trashed_row_def)
  moreover have "logged s t w Trashed (n_id d) (Some (as_str path)) None (Some (n_revision d)) aj"
    using t(3) by (simp add: logged_def s2_def s1_def s0_def)
  ultimately have post: "trashed s t w path options aj tid d now"
    unfolding trashed_def using d dp(1,2) p nt rest tid(1) by blast
  have ins: "insert_trash \<lparr>t_id = tid, t_workspace_id = w, t_node_id = n_id d, t_original_parent_id = p,
      t_original_name = n_name d, t_deleted_at_ms = now\<rparr> s0 = Some s1"
    using wf2(1) r(2) rp by (simp add: insert_trash_def checked_def s1_def trashed_row_def)
  have upd: "update_node (n_id d) (mark_trashed now) s1 = Some s2"
    using wfD(1) [OF wf2(2)] r(2) by (simp add: update_node_upd checked_def s2_def s1_def)
  have "trash_tx E w path options aj s = Some (TrashTrashed tid d now, t)"
    using d p ins upd t(1)
    by (auto simp: trash_tx_def now_ms_def new_id_eq s0_def now_def tid_def fresh_id_def)
  with t(2) post show ?thesis by simp
qed

subsection \<open>restore\<close>

lemma put_back_fields [simp]:
  "n_id (put_back p nm v now r) = n_id r" "n_workspace_id (put_back p nm v now r) = n_workspace_id r"
  "n_parent_id (put_back p nm v now r) = Some p" "n_name (put_back p nm v now r) = nm"
  "n_kind (put_back p nm v now r) = n_kind r" "n_size (put_back p nm v now r) = n_size r"
  "n_revision (put_back p nm v now r) = v" "n_modified_at_ms (put_back p nm v now r) = now"
  "n_content_generation_id (put_back p nm v now r) = n_content_generation_id r"
  "n_symlink_target (put_back p nm v now r) = n_symlink_target r"
  "n_trashed_at_ms (put_back p nm v now r) = None" "active (put_back p nm v now r)"
  by (simp_all add: put_back_def active_def)

lemma put_back_places: "place_row p nm None (put_back p nm v now)"
  unfolding place_row_def by (simp del: place_rowD)

lemma upd_rows:
  assumes "tree_ok s" "r \<in> set (nodes s)"
  shows "q \<in> set (upd (n_id r) f (nodes s)) \<longleftrightarrow> (q \<in> set (nodes s) \<and> n_id q \<noteq> n_id r) \<or> q = f r"
proof -
  have "x = r" if "x \<in> set (nodes s)" "n_id x = n_id r" for x
    using row_id_eq [OF assms(1) that(1) assms(2) that(2)] .
  then show ?thesis using assms(2) by (auto simp: upd_def image_iff)
qed

lemma restore_rows_wf:
  assumes ok: "wf E s" and r: "r \<in> set (nodes s)" "n_workspace_id r = w" "n_parent_id r \<noteq> None"
    and q: "q \<in> set (nodes s)" "n_id q = p" "n_kind q = DIRECTORY_KIND" "n_workspace_id q = w"
    and nm: "valid_seg nm" "fetch_child s w p nm = None" and v: "v \<ge> 1"
    and x: "x \<in> set (trash_rows s)" "t_id x = tid" "t_node_id x = n_id r"
    and s1: "s1 = s\<lparr>nodes := upd (n_id r) (put_back p nm v now) (nodes s)\<rparr>"
    and t: "t = s1\<lparr>trash_rows := filter (\<lambda>y. t_id y \<noteq> tid) (trash_rows s)\<rparr>"
  shows "schema_ok s1" and "wf E t"
proof -
  note tree = wfD(2) [OF ok]
  have rows: "y \<in> set (nodes s1) \<longleftrightarrow> (y \<in> set (nodes s) \<and> n_id y \<noteq> n_id r) \<or> y = put_back p nm v now r" for y
    using upd_rows [OF tree r(1)] by (simp add: s1)
  show sch1: "schema_ok s1"
    unfolding s1
    by (rule schema_move_node [OF wfD(1) [OF ok] put_back_places r(1) refl])
      (use q r(2) nm(2) in \<open>auto simp: name_free_fetch\<close>)
  have tree1: "tree_ok s1"
    by (rule tree_move_node [OF tree s1 sch1 put_back_places r(1) refl r(3) q(1)]) (use q r nm in simp_all)
  have sch: "schema_ok t" using schema_filter_trash [OF sch1, of "\<lambda>y. t_id y \<noteq> tid"] by (simp add: t s1)
  moreover have "tree_ok t" using tree1 by (subst tree_ok_cong [where s = s1]) (simp_all add: t)
  moreover have "log_ok t" using wfD(3) [OF ok] log_ok_cong [of t s] by (simp add: t s1)
  moreover have "content_ok t"
    by (rule content_upd_place [OF wfD(4) [OF ok], of "put_back p nm v now" "n_id r"])
      (use v in \<open>simp_all add: t s1\<close>)
  moreover have "trash_ok t"
  proof -
    have ids: "y = x" if "y \<in> set (trash_rows s)" "t_id y = tid \<or> t_node_id y = n_id r" for y
      using that distinct_map_eqD [OF schema_parts(5) [OF wfD(1) [OF ok]] that(1) x(1)]
        distinct_map_eqD [of t_node_id "trash_rows s" y x] wfD(5) [OF ok] x
      unfolding trash_ok_def by metis
    have "\<exists>z \<in> set (nodes t). n_id z = t_node_id y \<and> n_workspace_id z = t_workspace_id y \<and> \<not> active z \<and>
        n_parent_id z = Some (t_original_parent_id y) \<and> n_name z = t_original_name y"
      if y: "y \<in> set (trash_rows t)" for y
    proof -
      from y have y': "y \<in> set (trash_rows s)" "t_id y \<noteq> tid" by (auto simp: t)
      with ids x(2) have "t_node_id y \<noteq> n_id r" by metis
      moreover obtain z where "z \<in> set (nodes s)" "n_id z = t_node_id y"
        "n_workspace_id z = t_workspace_id y" "\<not> active z"
        "n_parent_id z = Some (t_original_parent_id y)" "n_name z = t_original_name y"
        using wfD(5) [OF ok] y'(1) unfolding trash_ok_def by blast
      ultimately show ?thesis using rows by (intro bexI [of _ z]) (auto simp: t)
    qed
    moreover have "distinct (map t_node_id (trash_rows t))"
      using wfD(5) [OF ok] by (auto simp: t trash_ok_def intro: distinct_map_filter)
    moreover have "n_id z \<in> t_node_id ` set (trash_rows t)" if "z \<in> set (nodes t)" "\<not> active z" for z
    proof -
      have "z \<in> set (nodes s1)" using that(1) by (simp add: t)
      with that(2) rows have z: "z \<in> set (nodes s)" "n_id z \<noteq> n_id r" by auto
      with wfD(5) [OF ok] that(2) obtain y where y: "y \<in> set (trash_rows s)" "t_node_id y = n_id z"
        unfolding trash_ok_def by (metis imageE)
      with ids x(3) z(2) have "t_id y \<noteq> tid" by metis
      with y show ?thesis by (intro rev_image_eqI [of y]) (auto simp: t)
    qed
    ultimately show ?thesis unfolding trash_ok_def by blast
  qed
  moreover have "ids_ok E t"
    by (rule ids_ok_mono [OF wfD(6) [OF ok]])
      (use imageI [OF r(1), of n_id] in \<open>auto simp: t s1 upd_def used_ids_def\<close>)
  ultimately show "wf E t" by (simp add: wf_def)
qed

text \<open>The paths after a row came back: only those through its new name are new.\<close>

lemma revive_lookup:
  assumes ok: "tree_ok s" "tree_ok t" and r: "n_parent_id r = Some p" "n_name r = nm"
    and vis: "\<And>q. visible t w q \<longleftrightarrow> visible s w q \<or> q = r"
  shows "\<not> (\<exists>pp d. lookup_segs s w pp = Some d \<and> n_id d = p \<and> prefix (pp @ [nm]) xs) \<Longrightarrow>
      lookup_segs t w xs = lookup_segs s w xs"
    and "lookup_segs s w pp = Some d \<Longrightarrow> n_id d = p \<Longrightarrow> n_kind d = DIRECTORY_KIND \<Longrightarrow>
      lookup_segs t w (pp @ [nm]) = Some (map_row r)"
proof -
  show *: "\<not> (\<exists>pp d. lookup_segs s w pp = Some d \<and> n_id d = p \<and> prefix (pp @ [nm]) xs) \<Longrightarrow>
      lookup_segs t w xs = lookup_segs s w xs" for xs
  proof (induction xs rule: rev_induct)
    case Nil
    show ?case unfolding lookup_Nil
      by (rule option_eqI) (use r in \<open>auto simp: fetch_root_iff [OF ok(1)] fetch_root_iff [OF ok(2)] vis\<close>)
  next
    case (snoc x xs)
    then have "lookup_segs t w xs = lookup_segs s w xs" by (meson prefix_prefix)
    moreover have "enter t w m x = enter s w m x" if m: "lookup_segs s w xs = Some m" for m
    proof -
      have "\<not> (n_id m = p \<and> nm = x)" using snoc.prems m by auto
      then have "fetch_child t w (n_id m) x = fetch_child s w (n_id m) x"
        by (intro option_eqI) (use r in \<open>auto simp: fetch_child_iff [OF ok(1)] fetch_child_iff [OF ok(2)] vis\<close>)
      then show ?thesis by (simp add: enter_def)
    qed
    ultimately show ?case by (cases "lookup_segs s w xs") (simp_all add: lookup_snoc)
  qed
  show "lookup_segs t w (pp @ [nm]) = Some (map_row r)"
    if d: "lookup_segs s w pp = Some d" "n_id d = p" "n_kind d = DIRECTORY_KIND"
  proof -
    have "\<not> (\<exists>pp' d'. lookup_segs s w pp' = Some d' \<and> n_id d' = p \<and> prefix (pp' @ [nm]) pp)"
    proof
      assume "\<exists>pp' d'. lookup_segs s w pp' = Some d' \<and> n_id d' = p \<and> prefix (pp' @ [nm]) pp"
      then obtain pp' d' where "lookup_segs s w pp' = Some d'" "n_id d' = p" "prefix (pp' @ [nm]) pp" by blast
      moreover from this d have "d' = d" using stored_id_eq [OF ok(1)] lookup_stored by metis
      ultimately show False using lookup_unique [OF ok(1), of w pp' d pp] d(1) by (auto simp: prefix_def)
    qed
    from * [OF this] d have "lookup_segs t w pp = Some d" by simp
    moreover have "fetch_child t w p nm = Some (map_row r)"
      unfolding fetch_child_iff [OF ok(2)] using r vis by blast
    ultimately show ?thesis using d by (simp add: lookup_snoc enter_def)
  qed
qed

definition revived :: "db \<Rightarrow> db \<Rightarrow> uuid \<Rightarrow> uuid \<Rightarrow> string \<Rightarrow> raw_node \<Rightarrow> bool" where
  "revived s t w p nm n \<longleftrightarrow>
     (\<forall>w' xs. w' = w \<and> (\<exists>pp d. lookup_segs s w pp = Some d \<and> n_id d = p \<and> prefix (pp @ [nm]) xs) \<or>
        lookup_segs t w' xs = lookup_segs s w' xs) \<and>
     (\<forall>pp d. lookup_segs s w pp = Some d \<and> n_id d = p \<longrightarrow> lookup_segs t w (pp @ [nm]) = Some n)"

definition restored ::
    "db \<Rightarrow> db \<Rightarrow> uuid \<Rightarrow> uuid \<Rightarrow> virtual_path option \<Rightarrow> mutation_options \<Rightarrow> string \<Rightarrow> raw_node \<Rightarrow> bool" where
  "restored s t w tid dest options aj n \<longleftrightarrow>
     (\<exists>i op nm0 m p nm. fetch_trash_row s w tid = Some (i, op, nm0) \<and> fetch_by_id_any s w i = Some m \<and>
        \<not> stale (mo_expected_revision options) m \<and>
        restore_place s w dest op nm0 = Some (Inr (p, nm)) \<and> fetch_child s w p nm = None \<and>
        n_id n = i \<and> n_revision n = n_revision m + 1 \<and>
        nodes t = upd i (put_back p nm (n_revision m + 1) (n_modified_at_ms n)) (nodes s) \<and>
        chunks t = chunks s \<and> generations t = generations s \<and> revived s t w p nm n \<and>
        fetch_trash_row t w tid = None \<and>
        logged s t w Restored i None None (Some (n_revision m + 1)) aj)"

lemma restore_placeE:
  assumes ok: "wf E s" and dest: "\<And>d. dest = Some d \<Longrightarrow> canonical d" and nm0: "valid_seg nm0"
    and p: "restore_place s w dest op nm0 = Some (Inr (p, nm))"
  obtains q where "q \<in> set (nodes s)" "n_id q = p" "n_kind q = DIRECTORY_KIND" "n_workspace_id q = w"
    "valid_seg nm"
proof (cases dest)
  case None
  with p obtain m where m: "fetch_by_id s w op = Some m" "n_kind m = DIRECTORY_KIND" "p = op" "nm = nm0"
    by (auto simp: restore_place_def split: option.splits if_splits)
  then obtain q where "visible s w q" "n_id q = op" "m = map_row q" by (auto dest!: fetch_by_id_SomeD)
  with that m nm0 show thesis by (auto simp: visible_def)
next
  case (Some d)
  from p obtain m pq where m: "vp_name d = Some nm" "resolve_following s w pq True = RFound m"
    "n_kind m = DIRECTORY_KIND" "p = n_id m"
    by (auto simp: restore_place_def Some split: option.splits if_splits bind_splits resolve_outcome.splits)
  from dest [OF Some] m(1) obtain ss where "list_all valid_seg (ss @ [nm])" by (rule vp_name_SomeE)
  then have nm: "valid_seg nm" by simp
  from reachable_stored [OF resolve_following_reachable [OF wfD(2) [OF ok] m(2)]]
  obtain q where "visible s w q" "m = map_row q" by (auto simp: stored_def)
  with that m nm show thesis by (auto simp: visible_def)
qed

lemma restore_place_total:
  assumes "\<And>d. dest = Some d \<Longrightarrow> canonical d"
  shows "\<exists>x. restore_place s w dest op nm0 = Some x"
proof (cases dest)
  case None
  then show ?thesis by (simp add: restore_place_def)
next
  case (Some d)
  show ?thesis
  proof (cases "vp_name d")
    case (Some x)
    from assms [OF \<open>dest = Some d\<close>] this obtain ss where "vp_parent d = Some (path_of ss)"
      by (rule vp_name_SomeE)
    with Some \<open>dest = Some d\<close> show ?thesis by (simp add: restore_place_def)
  qed (simp add: restore_place_def Some)
qed

theorem restore_tx_ok:
  assumes ok: "wf E s" and dest: "\<And>d. dest = Some d \<Longrightarrow> canonical d"
  shows "\<exists>res t. restore_tx E w tid dest options aj s = Some (res, t) \<and> wf E t \<and>
    (case res of RestoreRestored n \<Rightarrow> restored s t w tid dest options aj n | _ \<Rightarrow> t = s)"
proof (cases "fetch_trash_row s w tid")
  case None
  with ok show ?thesis by (simp add: restore_tx_def)
next
  case (Some a)
  obtain i op nm0 where a: "a = (i, op, nm0)" by (cases a)
  note f = Some [unfolded a]
  note tree = wfD(2) [OF ok]
  obtain x r where x: "x \<in> set (trash_rows s)" "t_id x = tid" "t_workspace_id x = w" "t_node_id x = i"
    and r: "r \<in> set (nodes s)" "n_id r = i" "n_workspace_id r = w" "\<not> active r" "n_parent_id r = Some op"
      "n_name r = nm0"
    and u: "i \<in> used_ids E s" "w \<in> w_id ` set (workspaces s)" "n_revision r \<ge> 1"
    by (rule fetch_trash_row_Some [OF ok f])
  have m: "fetch_by_id_any s w i = Some (map_row r)"
    using fetch_by_id_any_eq [OF tree r(1,3)] r(2) by simp
  have nm0: "valid_seg nm0"
    using row_parentE [OF tree r(1,5)] r(6) by metis
  obtain pl where pl: "restore_place s w dest op nm0 = Some pl" using restore_place_total [OF dest] by blast
  show ?thesis
  proof (cases "stale (mo_expected_revision options) (map_row r) \<or> (\<exists>out. pl = Inl out) \<or>
      (\<exists>p nm. pl = Inr (p, nm) \<and> fetch_child s w p nm \<noteq> None)")
    case True
    have "\<exists>res. restore_tx E w tid dest options aj s = Some (res, s) \<and> (\<forall>n. res \<noteq> RestoreRestored n)"
    proof (cases "stale (mo_expected_revision options) (map_row r)")
      case True
      then show ?thesis by (simp add: restore_tx_def f m)
    next
      case fresh: False
      show ?thesis
      proof (cases pl)
        case (Inl out)
        then have "out \<noteq> RestoreRestored n" for n
          using pl by (auto simp: restore_place_def split: option.splits bind_splits resolve_outcome.splits if_splits)
        with Inl fresh pl show ?thesis by (simp add: restore_tx_def f m)
      next
        case (Inr y)
        with True fresh pl show ?thesis by (cases y) (auto simp: restore_tx_def f m)
      qed
    qed
    with ok show ?thesis by (fastforce split: restore_outcome.split)
  next
    case False
    then obtain p nm where pn: "pl = Inr (p, nm)" "fetch_child s w p nm = None"
      and fresh: "\<not> stale (mo_expected_revision options) (map_row r)"
      by (metis sum.exhaust prod.exhaust)
    obtain q where q: "q \<in> set (nodes s)" "n_id q = p" "n_kind q = DIRECTORY_KIND" "n_workspace_id q = w"
      "valid_seg nm"
      by (rule restore_placeE [OF ok dest nm0 pl [unfolded pn(1)]])
    define now where "now = clock_ms E (clock_reads s)"
    define v where "v = n_revision r + 1"
    define s0 where "s0 = s\<lparr>clock_reads := Suc (clock_reads s)\<rparr>"
    define s1 where "s1 = s0\<lparr>nodes := upd (n_id r) (put_back p nm v now) (nodes s0)\<rparr>"
    define s2 where "s2 = s1\<lparr>trash_rows := filter (\<lambda>y. t_id y \<noteq> tid) (trash_rows s0)\<rparr>"
    have w0: "wf E s0" using ok by (simp add: s0_def)
    have n0: "nodes s0 = nodes s" "trash_rows s0 = trash_rows s" "workspaces s0 = workspaces s"
      "chunks s0 = chunks s" "generations s0 = generations s" "changes s0 = changes s" "used_ids E s0 = used_ids E s"
      by (simp_all add: s0_def used_ids_def)
    have wf2: "schema_ok s1" "wf E s2"
      by (rule restore_rows_wf [OF w0 _ r(3) _ _ q(2,3,4,5) _ _ _ x(2) _ s1_def s2_def];
        use r q x pn(2) u(3) fetch_cong(2) [OF n0(1)] in \<open>simp add: n0 v_def\<close>)+
    obtain t where t: "append_change w Restored (Some i) None None (Some v) aj now s2 = Some t" "wf E t"
      "logged s2 t w Restored i None None (Some v) aj" "nodes t = nodes s2" "chunks t = chunks s2"
      "generations t = generations s2" "trash_rows t = trash_rows s2"
      by (rule log_step [OF wf2(2), of w i None None "Some v"])
        (use u in \<open>auto simp: s2_def s1_def n0 v_def used_ids_def s0_def\<close>)
    let ?n = "put_back p nm v now r"
    have nt: "nodes t = upd (n_id r) (put_back p nm v now) (nodes s)" by (simp add: t(4) s2_def s1_def n0)
    have vis: "visible t w' z \<longleftrightarrow> visible s w' z \<or> (w' = w \<and> z = ?n)" for w' z
      unfolding visible_def nt upd_rows [OF tree r(1)] using row_id_eq [OF tree _ r(1)] r(3,4) by auto
    note tree' = wfD(2) [OF t(2)]
    have "fetch_by_id t w i = Some (map_row ?n)"
      unfolding fetch_by_id_iff [OF tree'] using vis r(2) by auto
    moreover have "trash_rows s1 = trash_rows s0" by (simp add: s1_def)
    ultimately have run: "restore_tx E w tid dest options aj s = Some (RestoreRestored (map_row ?n), t)"
      using fresh pn wf2 t(1) wfD(1) [OF wf2(2)]
      by (simp add: restore_tx_def f m pl now_ms_def update_node_upd delete_trash_def checked_def r(2)
          s0_def [symmetric] now_def [symmetric] v_def [symmetric] s1_def [symmetric, simplified r(2)] s2_def)
    have vr: "n_workspace_id ?n = w" by (simp add: r(3))
    have revived: "revived s t w p nm (map_row ?n)"
      unfolding revived_def
    proof (intro conjI allI impI)
      fix w' xs
      show "w' = w \<and> (\<exists>pp d. lookup_segs s w pp = Some d \<and> n_id d = p \<and> prefix (pp @ [nm]) xs) \<or>
        lookup_segs t w' xs = lookup_segs s w' xs"
      proof (cases "w' = w")
        case True
        then show ?thesis using revive_lookup(1) [OF tree tree', of ?n p nm w xs] vis by auto
      next
        case False
        then have "lookup_segs t w' = lookup_segs s w'"
          by (intro lookup_visible_cong [OF tree tree']) (simp add: vis)
        then show ?thesis by simp
      qed
    next
      fix pp d assume d: "lookup_segs s w pp = Some d \<and> n_id d = p"
      then obtain dr where "dr \<in> set (nodes s)" "d = map_row dr" by (auto elim: lookup_row)
      with row_id_eq [OF tree _ q(1)] d q(2,3) have "n_kind d = DIRECTORY_KIND" by auto
      with d show "lookup_segs t w (pp @ [nm]) = Some (map_row ?n)"
        by (intro revive_lookup(2) [OF tree tree', of ?n p nm w pp d]) (simp_all add: vis)
    qed
    have gone: "fetch_trash_row t w tid = None"
      by (auto simp: fetch_trash_row_def find_None_iff t(7) s2_def)
    have "restored s t w tid dest options aj (map_row ?n)"
      unfolding restored_def
      by (rule exI [of _ i], rule exI [of _ op], rule exI [of _ nm0], rule exI [of _ "map_row r"],
          rule exI [of _ p], rule exI [of _ nm])
        (use f m fresh pl pn revived gone nt t(3,5,6) r(2) in
          \<open>simp add: v_def logged_def s2_def s1_def n0\<close>)
    with run t(2) show ?thesis by simp
  qed
qed

subsection \<open>Making room at a destination\<close>

lemma file_at_mono:
  assumes "file_at s w xs bs" "lookup_segs t w' ys = Some n" "lookup_segs s w xs = Some m"
    "n_kind n = n_kind m" "n_size n = n_size m" "n_content_generation_id n = n_content_generation_id m"
    "\<And>g k. n_content_generation_id n = Some g \<Longrightarrow> chunk_at t g k = chunk_at s g k"
  shows "file_at t w' ys bs"
  using assms by (auto simp: file_at_def gen_holds_def)

lemma resolve_destinationE:
  assumes ok: "wf E s" and to: "canonical to"
  obtains (ready) p pp nm where
      "resolve_destination s w to = Some (DestReady (n_id p) (fetch_child s w (n_id p) nm))"
      "vp_name to = Some nm" "valid_seg nm" "lookup_segs s w pp = Some p" "n_kind p = DIRECTORY_KIND"
      "\<And>pq. vp_parent to = Some pq \<Longrightarrow> resolve_following s w pq True = RFound p"
  | (failed) x where "resolve_destination s w to = Some x" "\<And>i e. x \<noteq> DestReady i e"
proof (cases "vp_name to")
  case None
  then show thesis by (intro failed [of DestIsRoot]) (simp_all add: resolve_destination_def)
next
  case (Some nm)
  obtain ss where ss: "vp_parent to = Some (path_of ss)" "list_all valid_seg (ss @ [nm])"
    by (rule vp_name_SomeE [OF to Some])
  show thesis
  proof (cases "\<exists>p. resolve_following s w (path_of ss) True = RFound p \<and> n_kind p = DIRECTORY_KIND")
    case True
    then obtain p where p: "resolve_following s w (path_of ss) True = RFound p" "n_kind p = DIRECTORY_KIND"
      by blast
    from resolve_following_reachable [OF wfD(2) [OF ok] p(1)] obtain pp where "lookup_segs s w pp = Some p"
      by (auto simp: reachable_def)
    with p ss Some show thesis by (intro ready [of p nm pp]) (simp_all add: resolve_destination_def)
  next
    case False
    then have "\<exists>x. resolve_destination s w to = Some x \<and> (\<forall>i e. x \<noteq> DestReady i e)"
      using Some ss(1) by (auto simp: resolve_destination_def split: resolve_outcome.splits)
    then show thesis using failed by blast
  qed
qed

lemma lookup_child:
  assumes "lookup_segs s w pp = Some p" "n_kind p = DIRECTORY_KIND"
  shows "lookup_segs s w (pp @ [nm]) = fetch_child s w (n_id p) nm"
  using assms by (simp add: lookup_snoc enter_def)

lemma vacate:
  assumes ok: "wf E s" and p: "lookup_segs s w pp = Some p" "n_kind p = DIRECTORY_KIND"
  obtains t where
    "(case fetch_child s w (n_id p) nm of Some n \<Rightarrow> purge_subtree (n_id n) s | None \<Rightarrow> Some s) = Some t"
    "wf E t" "cut s t w (pp @ [nm])" "set (nodes t) \<subseteq> set (nodes s)" "changes t = changes s"
    "workspaces t = workspaces s" "ids_used t = ids_used s" "clock_reads t = clock_reads s"
    "lookup_segs t w pp = Some p" "fetch_child t w (n_id p) nm = None"
proof (cases "fetch_child s w (n_id p) nm")
  case None
  then have "lookup_segs s w (pp @ [nm]) = None" using lookup_child [OF p] by simp
  then have "prefix (pp @ [nm]) xs \<Longrightarrow> lookup_segs s w xs = None" for xs
    by (metis lookup_prefix option.exhaust option.distinct(1) prefix_def)
  then have "cut s s w (pp @ [nm])" by (auto simp: cut_def)
  with None p ok that [of s] show thesis by simp
next
  case (Some e)
  have e: "lookup_segs s w (pp @ [nm]) = Some e" using lookup_child [OF p] Some by simp
  obtain r where r: "r \<in> set (nodes s)" "e = map_row r" by (rule lookup_row [OF e])
  then have i: "n_id e \<in> n_id ` set (nodes s)" by auto
  note cut = purged_cut [OF ok e]
  have "lookup_segs (purged (n_id e) s) w pp = Some p"
    "lookup_segs (purged (n_id e) s) w (pp @ [nm]) = None"
    using cut(1) p(1) by (auto simp: cut_def)
  with lookup_child p(2) have "fetch_child (purged (n_id e) s) w (n_id p) nm = None" by metis
  with Some cut \<open>lookup_segs (purged (n_id e) s) w pp = Some p\<close> show thesis
    by (intro that [of "purged (n_id e) s"]) (auto simp: purged_rows(1) [OF i])
qed

subsection \<open>move\<close>

lemma rehang_fields [simp]:
  "n_id (rehang p nm v now r) = n_id r" "n_workspace_id (rehang p nm v now r) = n_workspace_id r"
  "n_parent_id (rehang p nm v now r) = Some p" "n_name (rehang p nm v now r) = nm"
  "n_kind (rehang p nm v now r) = n_kind r" "n_size (rehang p nm v now r) = n_size r"
  "n_revision (rehang p nm v now r) = v" "n_modified_at_ms (rehang p nm v now r) = now"
  "n_content_generation_id (rehang p nm v now r) = n_content_generation_id r"
  "n_symlink_target (rehang p nm v now r) = n_symlink_target r"
  "n_trashed_at_ms (rehang p nm v now r) = n_trashed_at_ms r" "active (rehang p nm v now r) = active r"
  by (simp_all add: rehang_def active_def)

text \<open>An active row re-hung is a row put back.\<close>

lemma rehang_put_back: "active r \<Longrightarrow> rehang p nm v now r = put_back p nm v now r"
  by (cases r) (simp add: rehang_def put_back_def active_def)

lemma rehang_wf:
  assumes ok: "wf E s" and r: "r \<in> set (nodes s)" "n_workspace_id r = w" "n_parent_id r \<noteq> None" "active r"
    and q: "q \<in> set (nodes s)" "n_id q = p" "n_kind q = DIRECTORY_KIND" "n_workspace_id q = w"
    and nm: "valid_seg nm" "fetch_child s w p nm = None" and v: "v \<ge> 1"
    and t: "t = s\<lparr>nodes := upd (n_id r) (rehang p nm v now) (nodes s)\<rparr>"
  shows "wf E t"
proof -
  note tree = wfD(2) [OF ok]
  have t': "t = s\<lparr>nodes := upd (n_id r) (put_back p nm v now) (nodes s)\<rparr>"
    using upd_cong [where f = "rehang p nm v now" and g = "put_back p nm v now", OF tree r(1)]
      rehang_put_back [OF r(4)] by (simp add: t)
  have sch: "schema_ok t"
    unfolding t'
    by (rule schema_move_node [OF wfD(1) [OF ok] put_back_places r(1) refl])
      (use q r(2) nm(2) in \<open>auto simp: name_free_fetch\<close>)
  moreover have "tree_ok t"
    by (rule tree_move_node [OF tree t' sch put_back_places r(1) refl r(3) q(1)]) (use q r nm in simp_all)
  moreover have "log_ok t" using wfD(3) [OF ok] log_ok_cong [of t s] by (simp add: t)
  moreover have "content_ok t"
    by (rule content_upd_place [OF wfD(4) [OF ok], of "rehang p nm v now" "n_id r"])
      (use v in \<open>simp_all add: t\<close>)
  moreover have "trash_ok t"
  proof -
    have rows: "y \<in> set (nodes t) \<longleftrightarrow> (y \<in> set (nodes s) \<and> n_id y \<noteq> n_id r) \<or> y = rehang p nm v now r" for y
      using upd_rows [OF tree r(1)] by (simp add: t)
    have "y \<in> set (nodes t) \<longleftrightarrow> y \<in> set (nodes s)" if "\<not> active y" for y
      unfolding rows using that r(1,4) row_id_eq [OF tree _ r(1), of y] by auto
    then show ?thesis using wfD(5) [OF ok] unfolding trash_ok_def by (simp add: t) blast
  qed
  moreover have "ids_ok E t"
    by (rule ids_ok_mono [OF wfD(6) [OF ok]])
      (use imageI [OF r(1), of n_id] in \<open>auto simp: t upd_def used_ids_def\<close>)
  ultimately show "wf E t" by (simp add: wf_def)
qed

definition move_done ::
    "db \<Rightarrow> db \<Rightarrow> uuid \<Rightarrow> virtual_path \<Rightarrow> virtual_path \<Rightarrow> move_options \<Rightarrow> string \<Rightarrow> raw_node \<Rightarrow> bool" where
  "move_done s t w from_path to_path options aj n \<longleftrightarrow>
     (\<exists>d dp p pp pq nm. resolve_following s w from_path False = RFound d \<and>
        lookup_segs s w dp = Some d \<and> dp \<noteq> [] \<and>
        vp_parent to_path = Some pq \<and> resolve_following s w pq True = RFound p \<and>
        lookup_segs s w pp = Some p \<and> n_kind p = DIRECTORY_KIND \<and> vp_name to_path = Some nm \<and>
        \<not> stale (mvo_expected_revision options) d \<and> \<not> is_same_or_descendant from_path to_path \<and>
        (lookup_segs s w (pp @ [nm]) \<noteq> None \<longrightarrow> mvo_overwrite options) \<and>
        n_id n = n_id d \<and> n_revision n = n_revision d + 1 \<and>
        logged s t w Moved (n_id d) (Some (as_str from_path)) (Some (as_str to_path))
          (Some (n_revision d + 1)) aj \<and>
        (\<not> prefix dp pp \<and> \<not> prefix (pp @ [nm]) dp \<longrightarrow> moved s t w dp (pp @ [nm]) n))"

lemma moved_from_rehang:
  assumes cut: "cut s s1 w tp" and tp: "tp = pp @ [nm]"
    and sep: "\<not> prefix dp pp" "\<not> prefix tp dp" and d: "lookup_segs s w dp = Some d"
    and m: "n_kind m = n_kind d" "n_size m = n_size d"
      "n_content_generation_id m = n_content_generation_id d"
    and w: "\<And>xs. lookup_segs t w xs = (if prefix tp xs
        then (if xs = tp then Some m else lookup_segs s1 w (dp @ drop (length tp) xs))
        else if prefix dp xs then None else lookup_segs s1 w xs)"
    and other: "\<And>w'. w' \<noteq> w \<Longrightarrow> lookup_segs t w' = lookup_segs s1 w'"
    and chunk: "chunks t = chunks s1"
  shows "moved s t w dp tp m"
proof -
  have chunk': "chunk_at t = chunk_at s1" by (intro ext) (simp add: chunk_at_def chunk)
  have dtp: "dp \<noteq> tp" using sep(2) by auto
  have out: "\<not> prefix tp (dp @ zs)" for zs
  proof
    assume "prefix tp (dp @ zs)"
    with sep(2) have "prefix dp tp" by (meson prefix_same_cases prefixI)
    with sep(1) tp dtp show False by auto
  qed
  have s1: "lookup_segs s1 w' xs = lookup_segs s w' xs" "file_at s w' xs bs \<Longrightarrow> file_at s1 w' xs bs"
    if "\<not> (w' = w \<and> prefix tp xs)" for w' xs bs
    using cut that by (auto simp: cut_def split: if_splits)
  have keep: "file_at t w' ys bs"
    if "file_at s w' xs bs" "\<not> (w' = w \<and> prefix tp xs)" "lookup_segs t w' ys = lookup_segs s1 w' xs" for w' xs ys bs
    using s1(2) [OF that(2,1)] that(3) by (auto simp: file_at_def gen_holds_def chunk')
  show ?thesis
    unfolding moved_def
  proof (intro conjI allI)
    show "lookup_segs t w tp = Some m" using w by simp
    fix w' xs
    show "if w' = w \<and> prefix tp xs
      then (xs \<noteq> tp \<longrightarrow> lookup_segs t w' xs = lookup_segs s w (dp @ drop (length tp) xs)) \<and>
        (\<forall>bs. file_at s w (dp @ drop (length tp) xs) bs \<longrightarrow> file_at t w' xs bs)
      else if w' = w \<and> prefix dp xs then lookup_segs t w' xs = None
      else lookup_segs t w' xs = lookup_segs s w' xs \<and> (\<forall>bs. file_at s w' xs bs \<longrightarrow> file_at t w' xs bs)"
    proof (cases "w' = w \<and> prefix tp xs")
      case True
      show ?thesis
      proof (cases "xs = tp")
        case eq: True
        have "file_at t w tp bs" if "file_at s w dp bs" for bs
        proof -
          have "file_at s1 w dp bs" "lookup_segs s1 w dp = Some d"
            using s1 [of w dp] that sep(2) d by auto
          then show ?thesis using w [of tp] m by (auto simp: file_at_def gen_holds_def chunk')
        qed
        with True eq show ?thesis by simp
      next
        case False
        with True w s1(1) [of w "dp @ drop (length tp) xs"] out
          keep [of w "dp @ drop (length tp) xs" _ xs]
        show ?thesis by simp
      qed
    next
      case False
      then show ?thesis
        using w [of xs] other [of w'] s1(1) [OF False] keep [of w' xs _ xs, OF _ False]
        by (cases "w' = w") auto
    qed
  qed
qed

text \<open>The rows of a workspace other than the one a row is updated in.\<close>

lemma upd_other_workspace:
  assumes ok: "tree_ok s" "tree_ok t" and t: "nodes t = upd (n_id r) f (nodes s)"
    and r: "r \<in> set (nodes s)" "n_workspace_id r = w" "n_workspace_id (f r) = w" and "w' \<noteq> w"
  shows "lookup_segs t w' = lookup_segs s w'"
proof (rule lookup_visible_cong [OF ok])
  show "visible t w' q \<longleftrightarrow> visible s w' q" for q
    unfolding visible_def t upd_rows [OF ok(1) r(1)]
    using row_id_eq [OF ok(1) _ r(1), of q] r(2,3) \<open>w' \<noteq> w\<close> by auto
qed

text \<open>The UPDATE and the log entry of a move, after the destination was vacated.\<close>

lemma move_rows:
  assumes ok: "wf E s" and d: "d = map_row r" "n_workspace_id r = w" "n_parent_id r \<noteq> None" "active r"
      "n_revision r \<ge> 1"
    and r: "r \<in> set (nodes s) \<or> n_id r \<notin> n_id ` set (nodes s)"
    and p: "lookup_segs s w pp = Some p" "n_kind p = DIRECTORY_KIND" "fetch_child s w (n_id p) nm = None"
    and nm: "valid_seg nm"
  obtains s1 where "update_node (n_id d) (rehang (n_id p) nm (n_revision d + 1) now) s = Some s1" "wf E s1"
    "s1 = s\<lparr>nodes := upd (n_id d) (rehang (n_id p) nm (n_revision d + 1) now) (nodes s)\<rparr>"
proof -
  define t where "t = s\<lparr>nodes := upd (n_id r) (rehang (n_id p) nm (n_revision r + 1) now) (nodes s)\<rparr>"
  obtain q where q: "q \<in> set (nodes s)" "p = map_row q" "n_workspace_id q = w" by (rule lookup_row [OF p(1)])
  have "wf E t"
  proof (cases "r \<in> set (nodes s)")
    case True
    show ?thesis
      by (rule rehang_wf [OF ok True d(2,3,4) q(1) _ _ q(3) nm _ _ t_def]) (use p q d(5) in simp_all)
  next
    case False
    with r have "t = s" by (simp add: t_def upd_absent)
    with ok show ?thesis by simp
  qed
  with that [of t] d(1) show thesis
    using wfD(1) [OF \<open>wf E t\<close>] by (simp add: update_node_upd checked_def t_def)
qed

theorem move_tx_ok:
  assumes ok: "wf E s" and path: "canonical from_path" "canonical to_path"
  shows "\<exists>res t. move_tx E w from_path to_path options aj s = Some (res, t) \<and> wf E t \<and>
    (case res of MoveMoved n \<Rightarrow> move_done s t w from_path to_path options aj n | _ \<Rightarrow> t = s)"
proof (cases "\<exists>d. resolve_following s w from_path False = RFound d \<and> vp_name from_path \<noteq> None \<and>
    \<not> stale (mvo_expected_revision options) d \<and> \<not> is_same_or_descendant from_path to_path")
  case False
  with ok show ?thesis by (auto simp: move_tx_def split: resolve_outcome.splits)
next
  case True
  then obtain d where d: "resolve_following s w from_path False = RFound d" "vp_name from_path \<noteq> None"
    "\<not> stale (mvo_expected_revision options) d" "\<not> is_same_or_descendant from_path to_path" by blast
  note tree = wfD(2) [OF ok]
  obtain dp where dp: "lookup_segs s w dp = Some d" "dp \<noteq> []" "n_parent_id d \<noteq> None"
    by (rule named_target [OF tree path(1) d(2,1)])
  obtain r where r: "r \<in> set (nodes s)" "d = map_row r" "n_workspace_id r = w" "active r"
    "n_revision r \<ge> 1" "n_id r \<in> used_ids E s" "w \<in> w_id ` set (workspaces s)"
    by (rule reached_rowE [OF ok dp(1)])
  show ?thesis
  proof (cases rule: resolve_destinationE [OF ok path(2), of w, case_names ready failed])
    case (failed x)
    with d ok show ?thesis by (cases x) (auto simp: move_tx_def)
  next
    case (ready p pp nm)
    show ?thesis
    proof (cases "fetch_child s w (n_id p) nm \<noteq> None \<and> \<not> mvo_overwrite options")
      case True
      with d ready(1) ok show ?thesis by (auto simp: move_tx_def)
    next
      case go: False
      obtain s1 where s1: "(case fetch_child s w (n_id p) nm of Some n \<Rightarrow> purge_subtree (n_id n) s
          | None \<Rightarrow> Some s) = Some s1"
        "wf E s1" "cut s s1 w (pp @ [nm])" "set (nodes s1) \<subseteq> set (nodes s)" "changes s1 = changes s"
        "workspaces s1 = workspaces s" "ids_used s1 = ids_used s" "clock_reads s1 = clock_reads s"
        "lookup_segs s1 w pp = Some p" "fetch_child s1 w (n_id p) nm = None"
        by (rule vacate [OF ok ready(4,5)])
      define now where "now = clock_ms E (clock_reads s)"
      define s2 where "s2 = s1\<lparr>clock_reads := Suc (clock_reads s)\<rparr>"
      have w2: "wf E s2" using s1(2) by (simp add: s2_def)
      have n2: "nodes s2 = nodes s1" "chunks s2 = chunks s1" by (simp_all add: s2_def)
      have at: "r \<in> set (nodes s2) \<or> n_id r \<notin> n_id ` set (nodes s2)"
        using s1(4) row_id_eq [OF tree _ r(1)] by (auto simp: n2)
      have p2: "lookup_segs s2 w pp = Some p" "fetch_child s2 w (n_id p) nm = None"
        using s1(9,10) by (simp_all add: lookup_cong [OF n2(1)] fetch_cong(2) [OF n2(1)])
      have rp: "n_parent_id r \<noteq> None" using dp(3) r(2) by simp
      obtain s3 where s3: "update_node (n_id d) (rehang (n_id p) nm (n_revision d + 1) now) s2 = Some s3"
        "wf E s3" "s3 = s2\<lparr>nodes := upd (n_id d) (rehang (n_id p) nm (n_revision d + 1) now) (nodes s2)\<rparr>"
        by (rule move_rows [OF w2 r(2,3) rp r(4,5) at p2(1) ready(5) p2(2) ready(3)])
      obtain t where t: "append_change w Moved (Some (n_id d)) (Some (as_str from_path)) (Some (as_str to_path))
          (Some (n_revision d + 1)) aj now s3 = Some t" "wf E t"
        "logged s3 t w Moved (n_id d) (Some (as_str from_path)) (Some (as_str to_path)) (Some (n_revision d + 1)) aj"
        "nodes t = nodes s3" "chunks t = chunks s3"
        by (rule log_step [OF s3(2), of w "n_id d" "Some (as_str from_path)" "Some (as_str to_path)"
              "Some (n_revision d + 1)"])
          (use r path in \<open>auto simp: s3(3) s2_def s1(6,7) used_ids_def\<close>)
      let ?n = "d\<lparr>n_workspace_id := w, n_parent_id := Some (n_id p), n_name := nm,
        n_revision := n_revision d + 1, n_modified_at_ms := now\<rparr>"
      have run: "move_tx E w from_path to_path options aj s = Some (MoveMoved ?n, t)"
        using d(2-4) go s1(1) s3(1) t(1) ready(2)
        by (auto simp: move_tx_def d(1) ready(1) now_ms_def s2_def s1(8) now_def split: option.splits)
      have mv: "moved s t w dp (pp @ [nm]) ?n" if sep: "\<not> prefix dp pp" "\<not> prefix (pp @ [nm]) dp"
      proof -
        have d2: "lookup_segs s2 w dp = Some d"
          using s1(3) sep(2) dp(1) by (simp add: cut_def lookup_cong [OF n2(1)])
        have "r \<in> set (nodes s2)"
        proof -
          obtain r' where "r' \<in> set (nodes s2)" "d = map_row r'" by (rule lookup_row [OF d2])
          moreover from this have "n_id r' = n_id r" using r(2) map_row_fields(1) by metis
          ultimately show ?thesis using row_id_eq [OF tree _ r(1), of r'] s1(4) by (auto simp: n2)
        qed
        note rs = this r(2)
        let ?f = "put_back (n_id p) nm (n_revision d + 1) now"
        have f: "rehang (n_id p) nm (n_revision d + 1) now r = ?f r" by (rule rehang_put_back [OF r(4)])
        have "upd (n_id r) (rehang (n_id p) nm (n_revision d + 1) now) (nodes s2) = upd (n_id r) ?f (nodes s2)"
          by (rule upd_cong [where f = "rehang (n_id p) nm (n_revision d + 1) now" and g = ?f,
                OF wfD(2) [OF w2] rs(1) f])
        then have nt: "nodes t = upd (n_id d) ?f (nodes s2)" using t(4) r(2) by (simp add: s3(3))
        have m: "map_row (?f r) = ?n"
          unfolding r(2) using r(3) by (cases r) (simp add: put_back_def map_row_def raw_node.truncate_def)
        note look = rehang_lookup [OF wfD(2) [OF w2] wfD(2) [OF t(2)] d2 dp(2) p2(1) ready(5) sep(1) p2(2)
            put_back_places nt rs, unfolded m]
        have other: "lookup_segs t w' = lookup_segs s2 w'" if "w' \<noteq> w" for w'
          by (rule upd_other_workspace [OF wfD(2) [OF w2] wfD(2) [OF t(2)] _ rs(1) r(3) _ that, of ?f])
            (use nt r(2,3) in simp_all)
        have cut2: "cut s s2 w (pp @ [nm])" using s1(3) cut_cong [OF n2] by simp
        show ?thesis
          by (rule moved_from_rehang [OF cut2 refl sep dp(1) _ _ _ _ other])
            (use look t(5) in \<open>simp_all add: s3(3)\<close>)
      qed
      have "logged s t w Moved (n_id d) (Some (as_str from_path)) (Some (as_str to_path))
          (Some (n_revision d + 1)) aj"
        using t(3) by (simp add: logged_def s3(3) s2_def s1(5))
      moreover obtain pq where "vp_parent to_path = Some pq"
        using ready(2) path(2) by (metis vp_name_SomeE)
      moreover have "lookup_segs s w (pp @ [nm]) \<noteq> None \<longrightarrow> mvo_overwrite options"
        using go lookup_child [OF ready(4,5)] by auto
      ultimately have "move_done s t w from_path to_path options aj ?n"
        unfolding move_done_def using d dp(1,2) ready mv
        by (intro exI [of _ d] exI [of _ dp] exI [of _ p] exI [of _ pp] exI [of _ pq] exI [of _ nm]) simp
      with run t(2) show ?thesis by simp
    qed
  qed
qed

end
