(* ===== verification/File_Ops.thy ===== *)
theory File_Ops
  imports Files Paging
begin

text \<open>
  \<open>touch\<close> and \<open>read\<close> over the file abstraction: what a read of a range returns, and what
  touching an existing or a missing file changes.
\<close>

subsection \<open>read\<close>

lemma file_revision:
  assumes ok: "wf E s" and n: "lookup_segs s w segs = Some n"
  shows "n_revision n \<ge> 1"
proof -
  obtain r where "r \<in> set (nodes s)" "n = map_row r"
    using lookup_visible [OF n] by (auto simp: visible_def)
  then show ?thesis using wfD(4) [OF ok] by (auto simp: content_ok_def row_content_ok_def)
qed

theorem read_op_range:
  assumes ok: "wf E s" and fit: "sizes_fit s" "revisions_fit s"
    and f: "file_at s w (vp_segments path) bs"
  shows "case ro_range options of
      None \<Rightarrow> \<exists>fr. read_op w path options s = Inr fr \<and> concat (fr_stream fr) = bs \<and>
        unat (fr_logical_length fr) = length bs
    | Some rg \<Rightarrow>
        if unat (br_start rg) > length bs then read_op w path options s = Inl (invalid_range (as_str path))
        else \<exists>fr. read_op w path options s = Inr fr \<and> unat (fr_logical_length fr) = length bs \<and>
          concat (fr_stream fr)
            = take (min (unat (br_end rg)) (length bs) - unat (br_start rg)) (drop (unat (br_start rg)) bs)"
proof -
  obtain n g where n: "lookup_segs s w (vp_segments path) = Some n" "n_kind n = FILE_KIND"
    "n_content_generation_id n = Some g" "n_size n = int (length bs)" "gen_holds s g bs"
    using f by (auto simp: file_at_def)
  obtain r where r: "r \<in> set (nodes s)" "n = map_row r"
    using lookup_visible [OF n(1)] by (auto simp: visible_def)
  define size where "size = as_u64 (n_size n)"
  have size: "unat size = length bs"
    using old_length [OF ok fit(1) n(1,2,4)] by (simp add: size_def)
  have "1 \<le> n_revision n" "n_revision n < 2 ^ 63"
    using file_revision [OF ok n(1)] fit(2) r by (auto simp: revisions_fit_def)
  then have "as_u64 (n_revision n) \<noteq> 0" using unat_as_u64 [of "n_revision n"] by auto
  then have rev: "rev_new (as_u64 (n_revision n)) = Some (Revision (as_u64 (n_revision n)))"
    by (simp add: rev_new_def)
  define answer where "answer = (\<lambda>rg :: byte_range. if br_start rg > size then Inl (invalid_range (as_str path))
    else Inr \<lparr>fr_logical_length = size, fr_revision = Revision (as_u64 (n_revision n)),
      fr_range = br_new (br_start rg) (min (br_end rg) size),
      fr_stream = (if br_start rg \<ge> min (br_end rg) size then []
        else chunk_range_stream s g (unat (br_start rg)) (unat (min (br_end rg) size)))\<rparr>)"
  have eq: "read_op w path options s = answer (case ro_range options of Some rg \<Rightarrow> rg | None \<Rightarrow> br_new 0 size)"
    using n(2,3) unfolding read_op_def resolve_lookup n(1) option.case Let_def size_def [symmetric] rev answer_def
    by simp
  have stop: "unat (min x size) = min (unat x) (length bs)" for x :: u64
    by (simp add: min_def word_le_nat_alt size)
  have stream: "concat (if a \<ge> min b size then []
        else chunk_range_stream s g (unat a) (unat (min b size)))
      = take (min (unat b) (length bs) - unat a) (drop (unat a) bs)" for a b
  proof (cases "a \<ge> min b size")
    case True
    then have "min (unat b) (length bs) \<le> unat a" by (simp add: word_le_nat_alt stop)
    with True show ?thesis by simp
  next
    case False
    then have "unat a < unat (min b size)" by (simp add: word_less_nat_alt not_le)
    from chunk_range_bytes [OF n(5) this] False show ?thesis by (simp add: stop)
  qed
  show ?thesis
  proof (cases "ro_range options")
    case None
    have "concat (fr_stream fr) = bs" if "answer (br_new 0 size) = Inr fr" for fr
    proof -
      have "fr_stream fr = (if (0 :: u64) \<ge> min size size then []
          else chunk_range_stream s g (unat (0 :: u64)) (unat (min size size)))"
        using that by (auto simp: answer_def br_new_def)
      then have "concat (fr_stream fr) = take (min (unat size) (length bs) - unat (0 :: u64)) (drop (unat (0 :: u64)) bs)"
        by (simp only: stream)
      then show ?thesis by (simp add: size)
    qed
    moreover have "\<exists>fr. answer (br_new 0 size) = Inr fr \<and> unat (fr_logical_length fr) = length bs"
      by (simp add: answer_def br_new_def size)
    ultimately show ?thesis using eq None by auto
  next
    case (Some rg)
    have "br_start rg > size \<longleftrightarrow> unat (br_start rg) > length bs" by (simp add: word_less_nat_alt size)
    with Some eq stream [where a = "br_start rg" and b = "br_end rg"] size
    show ?thesis by (simp add: answer_def)
  qed
qed

subsection \<open>touch\<close>

lemma bump_row_fields [simp]:
  "n_id (bump_row v now r) = n_id r" "n_workspace_id (bump_row v now r) = n_workspace_id r"
  "n_parent_id (bump_row v now r) = n_parent_id r" "n_name (bump_row v now r) = n_name r"
  "n_kind (bump_row v now r) = n_kind r" "n_size (bump_row v now r) = n_size r"
  "n_trashed_at_ms (bump_row v now r) = n_trashed_at_ms r"
  "n_content_generation_id (bump_row v now r) = n_content_generation_id r"
  "n_symlink_target (bump_row v now r) = n_symlink_target r" "n_revision (bump_row v now r) = v"
  by (simp_all add: bump_row_def)

lemma bump_row_keeps: "keeps_place (bump_row v now)" "keeps_content (bump_row v now)"
  unfolding keeps_place_def keeps_content_def bump_row_fields by simp_all

definition touch_post ::
    "db \<Rightarrow> db \<Rightarrow> uuid \<Rightarrow> virtual_path \<Rightarrow> touch_options \<Rightarrow> string \<Rightarrow> touch_outcome \<Rightarrow> bool" where
  "touch_post s t w path options aj res \<longleftrightarrow> (case res of
     TouchTouched n \<Rightarrow> \<exists>m. lookup_segs s w (vp_segments path) = Some m \<and> n_kind m = FILE_KIND \<and>
       lookup_segs t w (vp_segments path) = Some n \<and> n_id n = n_id m \<and>
       n_revision n = n_revision m + 1 \<and> changes t = changes s \<and>
       only_path s t w (vp_segments path) \<and>
       (\<forall>bs. file_at s w (vp_segments path) bs \<longrightarrow> file_at t w (vp_segments path) bs)
   | TouchCreated n \<Rightarrow> lookup_segs s w (vp_segments path) = None \<and> tco_create options \<and>
       written s t w path aj [] n
   | TouchNotFound \<Rightarrow> lookup_segs s w (vp_segments path) = None \<and> nodes t = nodes s \<and> changes t = changes s
   | TouchWrongNodeType \<Rightarrow> nodes t = nodes s \<and> changes t = changes s
   | TouchRevisionConflict \<Rightarrow> t = s \<and> (\<exists>m rv. lookup_segs s w (vp_segments path) = Some m \<and>
       tco_expected_revision options = Some rv \<and> n_revision m \<noteq> as_i64 (rev_get rv)))"

text \<open>An update of one node that keeps its place and its content.\<close>

lemma update_existing:
  assumes ok: "wf E s" and m: "lookup_segs s w segs = Some m"
    and f: "keeps_place f" "keeps_content f" "\<And>r. n_revision (f r) = n_revision m + 1"
  obtains t n where "update_node (n_id m) f s = Some t" "t = s\<lparr>nodes := upd (n_id m) f (nodes s)\<rparr>"
    "wf E t" "fetch_by_id t w (n_id m) = Some n" "lookup_segs t w segs = Some n" "n_id n = n_id m"
    "n_revision n = n_revision m + 1" "only_path s t w segs"
    "\<And>bs. file_at s w segs bs \<Longrightarrow> file_at t w segs bs"
proof -
  let ?t = "s\<lparr>nodes := upd (n_id m) f (nodes s)\<rparr>"
  obtain r where r: "visible s w r" "m = map_row r" using lookup_visible [OF m] by blast
  then have rs: "r \<in> set (nodes s)" "n_id r = n_id m" by (simp_all add: visible_def)
  have rev: "n_revision (f q) \<ge> 1" for q using file_revision [OF ok m] f(3) by simp
  note t = upd_keep_wf [OF ok f(1,2) rev, where i = "n_id m"]
  have look: "lookup_segs ?t w' xs = (if lookup_segs s w' xs = Some m then Some (map_row (f r)) else lookup_segs s w' xs)"
    for w' xs
  proof -
    have nt: "nodes ?t = upd (n_id m) f (nodes s)" by simp
    show ?thesis
      using upd_lookup [OF wfD(2) [OF ok] wfD(2) [OF t(2)] f(1) nt rs, of w' xs]
      unfolding r(2) [symmetric] .
  qed
  have now: "lookup_segs ?t w segs = Some (map_row (f r))" using look [of w segs] m by simp
  have chunk: "chunk_at ?t = chunk_at s" by (simp add: chunk_at_def fun_eq_iff)
  have "only_path s ?t w segs"
  proof (rule only_pathI)
    fix w' xs assume ne: "(w', xs) \<noteq> (w, segs)"
    have "lookup_segs s w' xs \<noteq> Some m"
    proof
      assume x: "lookup_segs s w' xs = Some m"
      then obtain r' where "visible s w' r'" "m = map_row r'" using lookup_visible by blast
      then have "w' = w" using r by (metis map_row_fields(2) visible_def)
      with lookup_unique [OF wfD(2) [OF ok]] x m ne show False by blast
    qed
    then show "lookup_segs ?t w' xs = lookup_segs s w' xs" by (simp add: look)
  qed (simp add: chunk)
  moreover have "file_at ?t w segs bs" if "file_at s w segs bs" for bs
    using that now m r(2) f(2) unfolding file_at_def gen_holds_def chunk by auto
  moreover have "fetch_by_id ?t w (n_id m) = Some (map_row (f r))"
    using fetch_by_id_stored [OF wfD(2) [OF t(2)] lookup_stored [OF now]] rs(2) keeps_placeD(1) [OF f(1)] by simp
  ultimately show thesis
    using that [OF t(1) refl t(2) _ now] rs(2) keeps_placeD(1) [OF f(1)] f(3) by simp
qed

theorem touch_tx_ok:
  assumes E: "ext_ok E" and ok: "wf E s" and w: "w \<in> w_id ` set (workspaces s)" and path: "canonical path"
  shows "\<exists>res t. touch_tx E w path options aj s = Some (res, t) \<and> wf E t \<and> touch_post s t w path options aj res"
proof (cases "lookup_segs s w (vp_segments path)")
  case (Some m)
  define s1 where "s1 = s\<lparr>clock_reads := Suc (clock_reads s)\<rparr>"
  have s1: "wf E s1" "nodes s1 = nodes s" "changes s1 = changes s" using ok by (simp_all add: s1_def)
  show ?thesis
  proof (cases "n_kind m = FILE_KIND \<and> \<not> (case tco_expected_revision options of
        Some expected \<Rightarrow> n_revision m \<noteq> as_i64 (rev_get expected) | None \<Rightarrow> False)")
    case True
    then have m: "n_kind m = FILE_KIND" by simp
    have look: "lookup_segs s1 w (vp_segments path) = Some m" using Some lookup_cong [OF s1(2)] by simp
    obtain t n where t: "update_node (n_id m) (bump_row (n_revision m + 1) (clock_ms E (clock_reads s))) s1 = Some t"
      "t = s1\<lparr>nodes := upd (n_id m) (bump_row (n_revision m + 1) (clock_ms E (clock_reads s))) (nodes s1)\<rparr>"
      "wf E t" "fetch_by_id t w (n_id m) = Some n" "lookup_segs t w (vp_segments path) = Some n"
      "n_id n = n_id m" "n_revision n = n_revision m + 1"
      "only_path s1 t w (vp_segments path)"
      "\<And>bs. file_at s1 w (vp_segments path) bs \<Longrightarrow> file_at t w (vp_segments path) bs"
      by (rule update_existing [OF s1(1) look, where f = "bump_row (n_revision m + 1) (clock_ms E (clock_reads s))",
            OF bump_row_keeps bump_row_fields(10)]) metis
    have same: "only_path s1 t w xs = only_path s t w xs" "file_at s1 = file_at s" for xs
    proof -
      have c: "chunk_at s1 = chunk_at s" by (simp add: s1_def chunk_at_def fun_eq_iff)
      show "only_path s1 t w xs = only_path s t w xs" by (rule only_path_same) (simp_all add: s1(2) c)
      have l: "lookup_segs s1 = lookup_segs s" by (intro ext lookup_cong s1(2))
      show "file_at s1 = file_at s" by (simp add: file_at_def l gen_holds_def c fun_eq_iff)
    qed
    have "touch_tx E w path options aj s = Some (TouchTouched n, t)"
      using True t(1,4) by (simp add: touch_tx_def resolve_lookup Some now_ms_def s1_def)
    moreover have "touch_post s t w path options aj (TouchTouched n)"
      using t(2,5-9) Some m s1(3) unfolding same by (simp add: touch_post_def)
    ultimately show ?thesis using t(3) by blast
  next
    case False
    with ok show ?thesis
      by (auto simp: touch_tx_def resolve_lookup Some touch_post_def split: option.splits)
  qed
next
  case None
  show ?thesis
  proof (cases "tco_create options")
    case False
    with ok show ?thesis by (simp add: touch_tx_def resolve_lookup None touch_post_def)
  next
    case create: True
    obtain g s1 now where c: "create_generation E w s = Some (g, s1)" "wf E s1" "spare s1 w g"
      "\<forall>c \<in> set (chunks s1). c_generation_id c \<noteq> g" "g \<notin> g_id ` set (generations s)"
      "s1 = s\<lparr>generations := generations s @ [\<lparr>g_id = g, g_workspace_id = w, g_complete = 0,
         g_length = 0, g_created_at_ms = now\<rparr>], ids_used := Suc (ids_used s),
         clock_reads := Suc (clock_reads s)\<rparr>"
      by (rule create_generation_ok [OF E ok w])
    define s2 where "s2 = completed g 0 s1"
    note w2 = completed_wf [OF c(2,3), of 0, folded s2_def]
    have f2: "finalize_generation g 0 s1 = Some s2"
      using finalize_generation_eq [OF wfD(1) [OF c(2)]] by (simp add: s2_def)
    have "writing g 0 (new_writer g 0) [] s1" by (rule new_writer_writing [OF c(4)])
    then have h2: "gen_holds s2 g []" by (simp add: writing_def s2_def)
    have keep: "only_path s s2 w (vp_segments path)" "nodes s2 = nodes s" "changes s2 = changes s"
      using staging_only_path(1) [OF E ok w c(1) staged_refl, of "vp_segments path"]
        staging_only_path(2,3) [OF E ok w c(1) staged_refl]
        only_path_same [of s s s2 s1 w "vp_segments path"]
      by (simp_all add: s2_def)
    obtain res t where t: "finalize_tx E w path g (length ([] :: byte list))
        \<lparr>fp_allow_create = True, fp_expected_revision = None\<rparr> aj s2 = Some (res, t)" "wf E t"
      "if accepts s2 w (vp_segments path) True None
       then \<exists>n. res = FinApplied n \<and> written s2 t w path aj [] n
       else t = s2 \<and> (\<forall>n. res \<noteq> FinApplied n)"
      using finalize_tx_ok [OF E w2 h2 path, of "\<lparr>fp_allow_create = True, fp_expected_revision = None\<rparr>" aj]
      by auto
    have conflict: "res \<noteq> FinRevisionConflict"
    proof
      assume "res = FinRevisionConflict"
      with t(1) None show False
        using lookup_cong [OF keep(2)]
        by (auto simp: finalize_tx_def resolve_lookup finalize_create_def Let_def split_beta
            split: option.splits if_splits bind_splits)
    qed
    define out where "out = (case res of FinApplied row \<Rightarrow> TouchCreated row | FinNotFound \<Rightarrow> TouchNotFound
      | FinWrongNodeType \<Rightarrow> TouchWrongNodeType | FinRevisionConflict \<Rightarrow> TouchRevisionConflict)"
    have tx: "touch_tx E w path options aj s = Some (out, t)"
      using create c(1) f2 t(1) by (simp add: touch_tx_def resolve_lookup None out_def)
    have "touch_post s t w path options aj out"
    proof (cases "accepts s2 w (vp_segments path) True None")
      case True
      with t(3) obtain n where n: "res = FinApplied n" "written s2 t w path aj [] n" by auto
      from written_from [OF keep n(2)] n(1) None create show ?thesis
        by (simp add: touch_post_def out_def)
    next
      case False
      with t(3) conflict None keep show ?thesis by (cases res) (auto simp: touch_post_def out_def)
    qed
    with tx t(2) show ?thesis by blast
  qed
qed

end
