(* ===== verification/Node_Ops.thy ===== *)
theory Node_Ops
  imports Tree_Ops File_Ops
begin

text \<open>
  What the transactions of \<open>symlink\<close>, \<open>set_attribute\<close> and \<open>remove_attribute\<close> do to a
  well-formed store, and the bounds on attributes.
\<close>

subsection \<open>A new leaf\<close>

lemma leaf_step:
  assumes ok: "wf E s" and p: "lookup_segs s w pp = Some p" "n_kind p = DIRECTORY_KIND"
    and nm: "valid_seg (n_name r)" and free: "fetch_child s w (n_id p) (n_name r) = None"
    and r: "n_workspace_id r = w" "active r" "n_parent_id r = Some (n_id p)"
      "n_kind r \<in> {DIRECTORY_KIND, FILE_KIND, SYMLINK_KIND}"
    and new: "n_id r \<notin> n_id ` set (nodes s)" "n_id r \<in> used_ids E s"
    and cont: "row_content_ok s r"
    and unref: "\<And>g q. n_content_generation_id r = Some g \<Longrightarrow> q \<in> set (nodes s) \<Longrightarrow>
      n_content_generation_id q \<noteq> Some g"
  obtains t where "insert_node r s = Some t" "t = s\<lparr>nodes := nodes s @ [r]\<rparr>" "wf E t"
    "lookup_segs t w (pp @ [n_name r]) = Some (map_row r)" "only_path s t w (pp @ [n_name r])"
proof -
  obtain q where q: "visible s w q" "n_id q = n_id p" "n_kind q = DIRECTORY_KIND"
    using lookup_visible [OF p(1)] p(2) by auto
  let ?t = "s\<lparr>nodes := nodes s @ [r]\<rparr>"
  have t: "insert_node r s = Some ?t" "wf E ?t"
    by (rule add_child_wf [OF ok new q(1) _ q(3) r(1,2) nm r(4) _ cont unref];
        use r(3) q(2) free in simp)+
  have look: "lookup_segs ?t w xs = (if xs = pp @ [n_name r] then Some (map_row r) else lookup_segs s w xs)" for xs
    by (rule add_child_lookup [OF wfD(2) [OF ok] wfD(2) [OF t(2)] _ new(1) r(1-3) p(1) refl p(2) free]) simp
  have "only_path s ?t w (pp @ [n_name r])"
  proof (rule only_pathI)
    fix w' xs assume ne: "(w', xs) \<noteq> (w, pp @ [n_name r])"
    show "lookup_segs ?t w' xs = lookup_segs s w' xs"
    proof (cases "w' = w")
      case True
      with look ne show ?thesis by simp
    next
      case False
      with r(1) show ?thesis by (intro add_row_other [where r = r]) simp_all
    qed
  qed (simp add: chunk_at_def)
  with t look that show thesis by simp
qed

subsection \<open>symlink\<close>

text \<open>A link target as \<open>LinkTarget::parse\<close> makes it.\<close>

definition valid_target :: "link_target \<Rightarrow> bool" where
  "valid_target t \<longleftrightarrow> lt_parse (target_str t) = Inr t"

definition linked :: "db \<Rightarrow> db \<Rightarrow> uuid \<Rightarrow> virtual_path \<Rightarrow> link_target \<Rightarrow> string \<Rightarrow> raw_node \<Rightarrow> bool" where
  "linked s t w link target aj n \<longleftrightarrow>
     (\<exists>p pp pq nm. vp_parent link = Some pq \<and> resolve_following s w pq True = RFound p \<and>
        lookup_segs s w pp = Some p \<and> n_kind p = DIRECTORY_KIND \<and> vp_name link = Some nm \<and>
        lookup_segs s w (pp @ [nm]) = None \<and> lookup_segs t w (pp @ [nm]) = Some n \<and>
        n_kind n = SYMLINK_KIND \<and> n_symlink_target n = Some (target_str target) \<and> n_revision n = 1 \<and>
        only_path s t w (pp @ [nm]) \<and>
        logged s t w Created (n_id n) None (Some (as_str link)) (Some 1) aj)"

lemma link_row_fields [simp]:
  "n_id (link_row i w p x now tg) = i" "n_workspace_id (link_row i w p x now tg) = w"
  "n_parent_id (link_row i w p x now tg) = Some p" "n_name (link_row i w p x now tg) = x"
  "n_kind (link_row i w p x now tg) = SYMLINK_KIND" "n_size (link_row i w p x now tg) = 0"
  "n_revision (link_row i w p x now tg) = 1" "active (link_row i w p x now tg)"
  "n_content_generation_id (link_row i w p x now tg) = None"
  "n_symlink_target (link_row i w p x now tg) = Some tg"
  by (simp_all add: link_row_def active_def)

theorem symlink_tx_ok:
  assumes E: "ext_ok E" and ok: "wf E s" and link: "canonical link" "vp_name link \<noteq> None"
    and target: "valid_target target"
  shows "\<exists>res t. symlink_tx E w link (target_str target) options aj s = Some (res, t) \<and> wf E t \<and>
    (case res of
       SymlinkCreated n \<Rightarrow> linked s t w link target aj n
     | SymlinkExisting n \<Rightarrow> t = s \<and> n_kind n = SYMLINK_KIND \<and> co_exist_ok options \<and>
         (\<exists>xs. lookup_segs s w xs = Some n)
     | _ \<Rightarrow> t = s)"
proof -
  obtain nm ss where nm: "vp_name link = Some nm" "vp_parent link = Some (path_of ss)"
    "list_all valid_seg (ss @ [nm])"
    using link(2) vp_name_SomeE [OF link(1)] by (metis not_None_eq)
  show ?thesis
  proof (cases "\<exists>p. resolve_following s w (path_of ss) True = RFound p \<and> n_kind p = DIRECTORY_KIND")
    case False
    with ok nm show ?thesis by (auto simp: symlink_tx_def split: resolve_outcome.splits)
  next
    case True
    then obtain p where p: "resolve_following s w (path_of ss) True = RFound p" "n_kind p = DIRECTORY_KIND"
      by blast
    obtain pp where pp: "lookup_segs s w pp = Some p"
      using resolve_following_reachable [OF wfD(2) [OF ok] p(1)] by (auto simp: reachable_def)
    have child: "lookup_segs s w (pp @ [nm]) = fetch_child s w (n_id p) nm"
      by (simp add: lookup_snoc pp enter_def p(2))
    show ?thesis
    proof (cases "fetch_child s w (n_id p) nm")
      case (Some x)
      with ok nm p child show ?thesis by (auto simp: symlink_tx_def)
    next
      case None
      define i where "i = fresh_id E s"
      define now where "now = clock_ms E (clock_reads s)"
      define s1 where "s1 = s\<lparr>ids_used := Suc (ids_used s), clock_reads := Suc (clock_reads s)\<rparr>"
      define r where "r = link_row i w (n_id p) nm now (target_str target)"
      have w1: "wf E s1" using wf_new_id [OF ok] by (simp add: s1_def)
      have n1: "nodes s1 = nodes s" "chunk_at s1 = chunk_at s"
        by (simp_all add: s1_def chunk_at_def fun_eq_iff)
      have used: "i \<in> used_ids E s1" by (simp add: i_def s1_def used_ids_def fresh_id_def)
      have new: "i \<notin> n_id ` set (nodes s1)"
        using fresh_unused(3) [OF E wfD(6) [OF ok]] by (simp add: i_def n1)
      have cont: "row_content_ok s1 r"
        using target by (auto simp: row_content_ok_def r_def kind_defs valid_target_def)
      have p1: "lookup_segs s1 w pp = Some p" using pp lookup_cong [OF n1(1)] by simp
      obtain s2 where s2: "insert_node r s1 = Some s2" "s2 = s1\<lparr>nodes := nodes s1 @ [r]\<rparr>" "wf E s2"
        "lookup_segs s2 w (pp @ [n_name r]) = Some (map_row r)" "only_path s1 s2 w (pp @ [n_name r])"
        by (rule leaf_step [OF w1 p1 p(2), of r])
          (use None nm(3) used new cont in \<open>simp_all add: r_def fetch_cong(2) [OF n1(1)]\<close>)
      obtain v where v: "visible s w v" using lookup_visible [OF pp] by blast
      obtain t where t: "append_change w Created (Some i) None (Some (as_str link)) (Some 1) aj now s2 = Some t"
        "wf E t" "logged s2 t w Created i None (Some (as_str link)) (Some 1) aj" "nodes t = nodes s2"
        "chunks t = chunks s2"
        by (rule log_step [OF s2(3), of w i None "Some (as_str link)" "Some 1"])
          (use used link visible_workspace [OF ok v] in \<open>auto simp: s2(2) s1_def used_ids_def\<close>)
      have "only_path s t w (pp @ [nm])"
        using s2(5) only_path_same [OF n1(1) [symmetric] t(4), of w "pp @ [nm]"] t(5) n1(2)
        by (simp add: r_def chunk_at_def)
      moreover have "lookup_segs t w (pp @ [nm]) = Some (map_row r)"
        using s2(4) lookup_cong [OF t(4)] by (simp add: r_def)
      moreover have "logged s t w Created i None (Some (as_str link)) (Some 1) aj"
        using t(3) by (simp add: logged_def s2(2) s1_def)
      ultimately have "linked s t w link target aj (map_row r)"
        unfolding linked_def using nm p pp child None
        by (intro exI [of _ p] exI [of _ pp] exI [of _ "path_of ss"] exI [of _ nm]) (simp add: r_def)
      moreover have "symlink_tx E w link (target_str target) options aj s = Some (SymlinkCreated (map_row r), t)"
        using nm p None s2(1) t(1)
        by (simp add: symlink_tx_def new_id_eq now_ms_def s1_def i_def now_def r_def)
      ultimately show ?thesis using t(2) by simp
    qed
  qed
qed

subsection \<open>Attributes\<close>

text \<open>The attributes of a node as a map from keys to values.\<close>

definition attribute_of :: "db \<Rightarrow> uuid \<Rightarrow> string \<rightharpoonup> byte list" where
  "attribute_of s i key =
     map_option a_value (find (\<lambda>a. a_node_id a = i \<and> a_key a = key) (attributes s))"

text \<open>The bounds on keys, values and their number.\<close>

definition attributes_bounded :: "db \<Rightarrow> bool" where
  "attributes_bounded s \<longleftrightarrow>
     (\<forall>a \<in> set (attributes s). a_key a \<noteq> '''' \<and> length (a_key a) \<le> MAX_ATTRIBUTE_KEY_BYTES \<and>
        length (a_value a) \<le> MAX_ATTRIBUTE_VALUE_BYTES) \<and>
     (\<forall>i. length (filter (\<lambda>a. a_node_id a = i) (attributes s)) \<le> MAX_ATTRIBUTES_PER_NODE)"

lemma attributes_bounded_cong: "attributes t = attributes s \<Longrightarrow> attributes_bounded t = attributes_bounded s"
  by (simp add: attributes_bounded_def)

lemma attribute_of_cong: "attributes t = attributes s \<Longrightarrow> attribute_of t = attribute_of s"
  by (simp add: attribute_of_def fun_eq_iff)

lemma attribute_of_iff:
  assumes "schema_ok s"
  shows "attribute_of s i key = Some val \<longleftrightarrow> \<lparr>a_node_id = i, a_key = key, a_value = val\<rparr> \<in> set (attributes s)"
proof -
  have d: "distinct (map (\<lambda>a. (a_node_id a, a_key a)) (attributes s))"
    using assms by (simp add: schema_ok_def pk_ok_def)
  show ?thesis
  proof
    assume "attribute_of s i key = Some val"
    then obtain a where a: "find (\<lambda>a. a_node_id a = i \<and> a_key a = key) (attributes s) = Some a" "a_value a = val"
      by (auto simp: attribute_of_def)
    then have "a \<in> set (attributes s)" "a_node_id a = i" "a_key a = key" by (auto simp: find_Some_iff)
    with a(2) show "\<lparr>a_node_id = i, a_key = key, a_value = val\<rparr> \<in> set (attributes s)" by (cases a) simp
  next
    let ?a = "\<lparr>a_node_id = i, a_key = key, a_value = val\<rparr>"
    assume a: "?a \<in> set (attributes s)"
    then have "\<exists>x \<in> set (attributes s). a_node_id x = i \<and> a_key x = key" by force
    then obtain b where b: "find (\<lambda>a. a_node_id a = i \<and> a_key a = key) (attributes s) = Some b"
      using find_None_iff [of "\<lambda>a. a_node_id a = i \<and> a_key a = key" "attributes s"] by blast
    then have "b \<in> set (attributes s)" "a_node_id b = i" "a_key b = key" by (auto simp: find_Some_iff)
    then have "b = ?a" using distinct_map_eqD [OF d _ a] by simp
    with b show "attribute_of s i key = Some val" by (simp add: attribute_of_def)
  qed
qed

lemma wf_attributes:
  assumes "wf E s" "schema_ok (s\<lparr>attributes := as\<rparr>)"
  shows "wf E (s\<lparr>attributes := as\<rparr>)"
proof -
  have n: "nodes (s\<lparr>attributes := as\<rparr>) = nodes s" by simp
  show ?thesis
    using assms tree_ok_cong [of "s\<lparr>attributes := as\<rparr>" s] log_ok_cong [of "s\<lparr>attributes := as\<rparr>" s]
    by (auto simp: wf_def content_ok_def row_content_ok_def generation_ok_def gen_holds_def
      chunk_at_def trash_ok_def ids_ok_def used_ids_def)
qed

lemma upsert_attribute_ok:
  assumes ok: "wf E s" and i: "i \<in> n_id ` set (nodes s)"
  obtains as where "upsert_attribute i key val s = Some (s\<lparr>attributes := as\<rparr>)" "wf E (s\<lparr>attributes := as\<rparr>)"
    "as = (if attribute_of s i key = None
           then attributes s @ [\<lparr>a_node_id = i, a_key = key, a_value = val\<rparr>]
           else map (\<lambda>a. if a_node_id a = i \<and> a_key a = key then a\<lparr>a_value := val\<rparr> else a) (attributes s))"
    "attribute_of (s\<lparr>attributes := as\<rparr>) = (\<lambda>j. if j = i then (attribute_of s i)(key \<mapsto> val) else attribute_of s j)"
proof -
  let ?P = "\<lambda>a. a_node_id a = i \<and> a_key a = key"
  let ?g = "\<lambda>a. if ?P a then a\<lparr>a_value := val\<rparr> else a"
  define as where "as = (if attribute_of s i key = None
      then attributes s @ [\<lparr>a_node_id = i, a_key = key, a_value = val\<rparr>] else map ?g (attributes s))"
  have none: "attribute_of s i key = None \<longleftrightarrow> \<not> list_ex ?P (attributes s)"
    by (auto simp: attribute_of_def find_None_iff list_ex_iff)
  have sch: "schema_ok (s\<lparr>attributes := as\<rparr>)"
  proof (cases "attribute_of s i key = None")
    case True
    have "distinct (map (\<lambda>a. (a_node_id a, a_key a)) (attributes s))"
      using ok by (auto simp: schema_ok_def pk_ok_def)
    with True show ?thesis
      using i wfD(1) [OF ok] none unfolding as_def
      by (auto intro!: schema_add_attributes simp: list_ex_iff; blast)
  next
    case False
    have [simp]: "a_node_id (?g a) = a_node_id a" "a_key (?g a) = a_key a" for a by simp_all
    have "map (\<lambda>a. (a_node_id a, a_key a)) (map ?g (attributes s)) = map (\<lambda>a. (a_node_id a, a_key a)) (attributes s)"
      by simp
    with wfD(1) [OF ok] False show ?thesis
      by (auto simp: as_def schema_ok_def pk_ok_def unique_ok_def fk_ok_def Let_def list_all_iff simp del: map_map)
  qed
  have find_map: "find Q (map h xs) = map_option h (find (\<lambda>x. Q (h x)) xs)" for Q h and xs :: "attribute_row list"
    by (induction xs) simp_all
  have "attribute_of (s\<lparr>attributes := as\<rparr>) j k = (if j = i then (attribute_of s i)(key \<mapsto> val) else attribute_of s j) k"
    for j k
  proof (rule option_eqI)
    fix x
    have t: "attribute_of (s\<lparr>attributes := as\<rparr>) j k = Some x \<longleftrightarrow> \<lparr>a_node_id = j, a_key = k, a_value = x\<rparr> \<in> set as"
      using attribute_of_iff [OF sch] by simp
    note old = attribute_of_iff [OF wfD(1) [OF ok]]
    show "attribute_of (s\<lparr>attributes := as\<rparr>) j k = Some x \<longleftrightarrow>
        (if j = i then (attribute_of s i)(key \<mapsto> val) else attribute_of s j) k = Some x"
    proof (cases "attribute_of s i key = None")
      case True
      with none have "\<lparr>a_node_id = i, a_key = key, a_value = x\<rparr> \<notin> set (attributes s)"
        by (auto simp: list_ex_iff)
      with True show ?thesis unfolding t by (auto simp: old as_def)
    next
      case False
      then obtain y where "attribute_of s i key = Some y" by blast
      then have y: "\<lparr>a_node_id = i, a_key = key, a_value = y\<rparr> \<in> set (attributes s)" by (simp add: old)
      have "set as = ?g ` set (attributes s)" by (simp only: as_def False if_False set_map)
      moreover have "\<lparr>a_node_id = i, a_key = key, a_value = val\<rparr> = ?g \<lparr>a_node_id = i, a_key = key, a_value = y\<rparr>"
        by simp
      ultimately have new: "\<lparr>a_node_id = i, a_key = key, a_value = val\<rparr> \<in> set as" using y by blast
      have "\<lparr>a_node_id = j, a_key = k, a_value = x\<rparr> \<in> set as \<longleftrightarrow>
          (if j = i \<and> k = key then x = val else \<lparr>a_node_id = j, a_key = k, a_value = x\<rparr> \<in> set (attributes s))"
      proof (cases "j = i \<and> k = key")
        case True
        with new \<open>set as = _\<close> show ?thesis by (auto dest: arg_cong [where f = a_value] split: if_splits)
      next
        case ne: False
        have eq: "\<lparr>a_node_id = j, a_key = k, a_value = x\<rparr> = ?g a \<longleftrightarrow> \<lparr>a_node_id = j, a_key = k, a_value = x\<rparr> = a" for a
          using ne by (cases a) auto
        have "\<lparr>a_node_id = j, a_key = k, a_value = x\<rparr> \<in> ?g ` set (attributes s) \<longleftrightarrow>
            \<lparr>a_node_id = j, a_key = k, a_value = x\<rparr> \<in> set (attributes s)" unfolding image_iff eq by blast
        then show ?thesis unfolding \<open>set as = _\<close> using ne by (simp only: if_False)
      qed
      then show ?thesis unfolding t by (simp add: old eq_commute [of val x])
    qed
  qed
  moreover have "upsert_attribute i key val s = Some (s\<lparr>attributes := as\<rparr>)"
    using sch none
    by (cases "attribute_of s i key = None")
      (simp_all add: upsert_attribute_def insert_attributes_def checked_def as_def)
  ultimately show thesis
    using that [of as] wf_attributes [OF ok sch] by (auto simp: as_def fun_eq_iff)
qed

lemma attributes_bounded_upsert:
  assumes b: "attributes_bounded s" and sch: "schema_ok s"
    and key: "key \<noteq> ''''" "length key \<le> MAX_ATTRIBUTE_KEY_BYTES" "length val \<le> MAX_ATTRIBUTE_VALUE_BYTES"
    and room: "attribute_of s i key \<noteq> None \<or>
      length (filter (\<lambda>a. a_node_id a = i) (attributes s)) < MAX_ATTRIBUTES_PER_NODE"
    and t: "attributes t = (if attribute_of s i key = None
       then attributes s @ [\<lparr>a_node_id = i, a_key = key, a_value = val\<rparr>]
       else map (\<lambda>a. if a_node_id a = i \<and> a_key a = key then a\<lparr>a_value := val\<rparr> else a) (attributes s))"
  shows "attributes_bounded t"
proof (cases "attribute_of s i key = None")
  case True
  with assms show ?thesis by (auto simp: attributes_bounded_def)
next
  case False
  define g :: "attribute_row \<Rightarrow> attribute_row" where "g = (\<lambda>a. if a_node_id a = i \<and> a_key a = key then a\<lparr>a_value := val\<rparr> else a)"
  have [simp]: "a_node_id (g a) = a_node_id a" "a_key (g a) = a_key a" for a by (simp_all add: g_def)
  have "attributes t = map g (attributes s)" using False t by (simp add: g_def)
  moreover have "length (filter (\<lambda>a. a_node_id a = j) (map g (attributes s))) =
      length (filter (\<lambda>a. a_node_id a = j) (attributes s))" for j
    by (simp add: filter_map o_def)
  moreover have "length (a_value (g a)) \<le> MAX_ATTRIBUTE_VALUE_BYTES" if "a \<in> set (attributes s)" for a
    using b that key by (simp add: attributes_bounded_def g_def)
  ultimately show ?thesis using b by (simp add: attributes_bounded_def)
qed

lemma attributes_bounded_filter:
  assumes "attributes_bounded s" "attributes t = filter P (attributes s)"
  shows "attributes_bounded t"
proof -
  have "length (filter (\<lambda>a. a_node_id a = i) (attributes t)) \<le> length (filter (\<lambda>a. a_node_id a = i) (attributes s))" for i
  proof -
    have "filter (\<lambda>a. a_node_id a = i) (attributes t) = filter P (filter (\<lambda>a. a_node_id a = i) (attributes s))"
      unfolding assms(2) filter_filter by (rule filter_cong) auto
    then show ?thesis by (simp only: length_filter_le)
  qed
  then have "length (filter (\<lambda>a. a_node_id a = i) (attributes t)) \<le> MAX_ATTRIBUTES_PER_NODE" for i
    using assms(1) order_trans unfolding attributes_bounded_def by blast
  moreover have "set (attributes t) \<subseteq> set (attributes s)" using assms(2) by auto
  ultimately show ?thesis using assms(1) unfolding attributes_bounded_def by blast
qed

lemma restamp_fields [simp]:
  "n_id (restamp v now r) = n_id r" "n_workspace_id (restamp v now r) = n_workspace_id r"
  "n_parent_id (restamp v now r) = n_parent_id r" "n_name (restamp v now r) = n_name r"
  "n_kind (restamp v now r) = n_kind r" "n_size (restamp v now r) = n_size r"
  "n_trashed_at_ms (restamp v now r) = n_trashed_at_ms r"
  "n_content_generation_id (restamp v now r) = n_content_generation_id r"
  "n_symlink_target (restamp v now r) = n_symlink_target r" "n_revision (restamp v now r) = v"
  by (simp_all add: restamp_def)

lemma restamp_keeps: "keeps_place (restamp v now)" "keeps_content (restamp v now)"
  unfolding keeps_place_def keeps_content_def restamp_fields by simp_all

text \<open>The node of an attribute change: restamped, and the change logged.\<close>

definition restamped ::
    "db \<Rightarrow> db \<Rightarrow> uuid \<Rightarrow> virtual_path \<Rightarrow> change_kind \<Rightarrow> string \<Rightarrow> raw_node \<Rightarrow> raw_node \<Rightarrow> bool" where
  "restamped s t w path kind aj d n \<longleftrightarrow>
     (\<exists>dp. lookup_segs s w dp = Some d \<and> lookup_segs t w dp = Some n \<and> n_id n = n_id d \<and>
        n_revision n = n_revision d + 1 \<and> only_path s t w dp \<and>
        (\<forall>bs. file_at s w dp bs \<longrightarrow> file_at t w dp bs)) \<and>
     logged s t w kind (n_id d) None (Some (as_str path)) (Some (n_revision d + 1)) aj"

lemma restamp_step:
  assumes ok: "wf E s" and d: "lookup_segs s w dp = Some d" and path: "canonical path"
    and kind: "s = v\<lparr>attributes := as, clock_reads := k\<rparr>"
  obtains s' t n where "update_node (n_id d) (restamp (n_revision d + 1) now) s = Some s'"
    "append_change w kind (Some (n_id d)) None (Some (as_str path)) (Some (n_revision d + 1)) aj now s' = Some t"
    "wf E t" "fetch_by_id t w (n_id d) = Some n" "restamped v t w path kind aj d n" "attributes t = as"
proof -
  obtain t1 n where t1: "update_node (n_id d) (restamp (n_revision d + 1) now) s = Some t1"
    "t1 = s\<lparr>nodes := upd (n_id d) (restamp (n_revision d + 1) now) (nodes s)\<rparr>"
    "wf E t1" "fetch_by_id t1 w (n_id d) = Some n" "lookup_segs t1 w dp = Some n" "n_id n = n_id d"
    "n_revision n = n_revision d + 1" "only_path s t1 w dp"
    "\<And>bs. file_at s w dp bs \<Longrightarrow> file_at t1 w dp bs"
    by (rule update_existing [OF ok d, where f = "restamp (n_revision d + 1) now",
          OF restamp_keeps restamp_fields(10)]) metis
  have r: "n_id d \<in> used_ids E s" "w \<in> w_id ` set (workspaces s)" "n_revision d \<ge> 1"
  proof -
    obtain q where "d = map_row q" "n_id q \<in> used_ids E s" "w \<in> w_id ` set (workspaces s)" "n_revision q \<ge> 1"
      by (rule reached_rowE [OF ok d])
    then show "n_id d \<in> used_ids E s" "w \<in> w_id ` set (workspaces s)" "n_revision d \<ge> 1" by simp_all
  qed
  obtain t where t: "append_change w kind (Some (n_id d)) None (Some (as_str path)) (Some (n_revision d + 1)) aj now t1 = Some t"
    "wf E t" "logged t1 t w kind (n_id d) None (Some (as_str path)) (Some (n_revision d + 1)) aj"
    "nodes t = nodes t1" "chunks t = chunks t1" "attributes t = attributes t1"
    by (rule log_step [OF t1(3), of w "n_id d" None "Some (as_str path)" "Some (n_revision d + 1)"])
      (use r path in \<open>auto simp: t1(2) used_ids_def\<close>)
  have same: "nodes v = nodes s" "chunk_at v = chunk_at s" by (simp_all add: kind chunk_at_def fun_eq_iff)
  have ct: "chunk_at t = chunk_at t1" using t(5) by (simp add: chunk_at_def fun_eq_iff)
  have look: "lookup_segs t = lookup_segs t1" "lookup_segs v = lookup_segs s"
    by (intro ext lookup_cong t(4) same(1))+
  have "file_at t = file_at t1" "file_at v = file_at s"
    by (simp_all add: file_at_def look gen_holds_def ct same(2) fun_eq_iff)
  moreover have "only_path v t w dp" using t1(8) only_path_same [OF same(1) t(4)] same(2) ct by simp
  moreover have "logged v t w kind (n_id d) None (Some (as_str path)) (Some (n_revision d + 1)) aj"
    using t(3) by (simp add: logged_def t1(2) kind)
  ultimately have "restamped v t w path kind aj d n"
    using t1(5-9) d unfolding restamped_def look by metis
  moreover have "fetch_by_id t w (n_id d) = Some n" using t1(4) fetch_cong(5) [OF t(4)] by simp
  moreover have "attributes t = as" using t(6) by (simp add: t1(2) kind)
  ultimately show thesis using that t1(1) t(1,2) by blast
qed

definition attribute_set ::
    "db \<Rightarrow> db \<Rightarrow> uuid \<Rightarrow> virtual_path \<Rightarrow> string \<Rightarrow> byte list \<Rightarrow> mutation_options \<Rightarrow> string \<Rightarrow> raw_node \<Rightarrow> bool" where
  "attribute_set s t w path key val options aj n \<longleftrightarrow>
     (\<exists>d. resolve_following s w path False = RFound d \<and> \<not> stale (mo_expected_revision options) d \<and>
        key \<noteq> '''' \<and> length key \<le> MAX_ATTRIBUTE_KEY_BYTES \<and> length val \<le> MAX_ATTRIBUTE_VALUE_BYTES \<and>
        attribute_of t = (attribute_of s)(n_id d := (attribute_of s (n_id d))(key \<mapsto> val)) \<and>
        (attributes_bounded s \<longrightarrow> attributes_bounded t) \<and>
        restamped s t w path AttributeSet aj d n)"

theorem set_attribute_tx_ok:
  assumes ok: "wf E s" and path: "canonical path"
  shows "\<exists>res t. set_attribute_tx E w path key val options aj s = Some (res, t) \<and> wf E t \<and>
    (case res of AttrUpdated n attrs \<Rightarrow>
       attribute_set s t w path key val options aj n \<and> attrs = build_attributes_map E t (n_id n)
     | _ \<Rightarrow> t = s)"
proof (cases "resolve_following s w path False")
  case (RFound d)
  note tree = wfD(2) [OF ok]
  obtain dp where dp: "lookup_segs s w dp = Some d"
    using resolve_following_reachable [OF tree RFound] by (auto simp: reachable_def)
  have there: "list_ex (\<lambda>a. a_node_id a = n_id d \<and> a_key a = key) (attributes s) \<longleftrightarrow> attribute_of s (n_id d) key \<noteq> None"
    by (auto simp: attribute_of_def find_None_iff list_ex_iff)
  show ?thesis
  proof (cases "key = '''' \<or> length key > MAX_ATTRIBUTE_KEY_BYTES \<or> length val > MAX_ATTRIBUTE_VALUE_BYTES \<or>
      stale (mo_expected_revision options) d \<or> (attribute_of s (n_id d) key = None \<and>
        length (filter (\<lambda>a. a_node_id a = n_id d) (attributes s)) \<ge> MAX_ATTRIBUTES_PER_NODE)")
    case True
    with ok RFound there show ?thesis by (auto simp: set_attribute_tx_def)
  next
    case False
    obtain q where q: "visible s w q" "d = map_row q" using lookup_visible [OF dp] by blast
    then have i: "n_id d \<in> n_id ` set (nodes s)" by (auto simp: visible_def)
    obtain as where as: "upsert_attribute (n_id d) key val s = Some (s\<lparr>attributes := as\<rparr>)" "wf E (s\<lparr>attributes := as\<rparr>)"
      "as = (if attribute_of s (n_id d) key = None
           then attributes s @ [\<lparr>a_node_id = n_id d, a_key = key, a_value = val\<rparr>]
           else map (\<lambda>a. if a_node_id a = n_id d \<and> a_key a = key then a\<lparr>a_value := val\<rparr> else a) (attributes s))"
      "attribute_of (s\<lparr>attributes := as\<rparr>)
         = (\<lambda>j. if j = n_id d then (attribute_of s (n_id d))(key \<mapsto> val) else attribute_of s j)"
      by (rule upsert_attribute_ok [OF ok i])
    let ?s1 = "s\<lparr>attributes := as, clock_reads := Suc (clock_reads s)\<rparr>"
    have w1: "wf E ?s1" using as(2) by (simp only: wf_now)
    have d1: "lookup_segs ?s1 w dp = Some d" using dp lookup_cong [of ?s1 s] by simp
    obtain s' t n where t: "update_node (n_id d) (restamp (n_revision d + 1) (clock_ms E (clock_reads s))) ?s1 = Some s'"
      "append_change w AttributeSet (Some (n_id d)) None (Some (as_str path)) (Some (n_revision d + 1)) aj
         (clock_ms E (clock_reads s)) s' = Some t"
      "wf E t" "fetch_by_id t w (n_id d) = Some n" "restamped s t w path AttributeSet aj d n" "attributes t = as"
      by (rule restamp_step [OF w1 d1 path refl])
    have "attribute_of t = (attribute_of s)(n_id d := (attribute_of s (n_id d))(key \<mapsto> val))"
      using attribute_of_cong [of t "s\<lparr>attributes := as\<rparr>"] as(4) t(6) by (simp add: fun_eq_iff)
    moreover have "attributes_bounded t" if "attributes_bounded s"
      by (rule attributes_bounded_upsert [OF that wfD(1) [OF ok], where key = key and val = val and i = "n_id d"])
        (use False t(6) as(3) in auto)
    ultimately have "attribute_set s t w path key val options aj n"
      unfolding attribute_set_def using RFound False t(5) by (intro exI [of _ d]) auto
    moreover have "n_id n = n_id d" using t(5) by (auto simp: restamped_def)
    moreover have "set_attribute_tx E w path key val options aj s
        = Some (AttrUpdated n (build_attributes_map E t (n_id d)), t)"
      using RFound False there as(1) t(1,2,4) by (auto simp: set_attribute_tx_def now_ms_def)
    ultimately show ?thesis using t(3) by simp
  qed
qed (use ok in \<open>auto simp: set_attribute_tx_def\<close>)

definition attribute_removed ::
    "db \<Rightarrow> db \<Rightarrow> uuid \<Rightarrow> virtual_path \<Rightarrow> string \<Rightarrow> mutation_options \<Rightarrow> string \<Rightarrow> raw_node \<Rightarrow> bool" where
  "attribute_removed s t w path key options aj n \<longleftrightarrow>
     (\<exists>d. resolve_following s w path False = RFound d \<and> \<not> stale (mo_expected_revision options) d \<and>
        attribute_of t = (attribute_of s)(n_id d := (attribute_of s (n_id d))(key := None)) \<and>
        (attributes_bounded s \<longrightarrow> attributes_bounded t) \<and>
        (if attribute_of s (n_id d) key = None then t = s \<and> n = d
         else restamped s t w path AttributeRemoved aj d n))"

theorem remove_attribute_tx_ok:
  assumes ok: "wf E s" and path: "canonical path"
  shows "\<exists>res t. remove_attribute_tx E w path key options aj s = Some (res, t) \<and> wf E t \<and>
    (case res of AttrUpdated n attrs \<Rightarrow>
       attribute_removed s t w path key options aj n \<and> attrs = build_attributes_map E t (n_id n)
     | _ \<Rightarrow> t = s)"
proof (cases "resolve_following s w path False")
  case (RFound d)
  note tree = wfD(2) [OF ok]
  obtain dp where dp: "lookup_segs s w dp = Some d"
    using resolve_following_reachable [OF tree RFound] by (auto simp: reachable_def)
  show ?thesis
  proof (cases "stale (mo_expected_revision options) d")
    case True
    with ok RFound show ?thesis by (simp add: remove_attribute_tx_def)
  next
    case fresh: False
    let ?P = "\<lambda>a. a_node_id a = n_id d \<and> a_key a = key"
    define as where "as = filter (\<lambda>a. \<not> ?P a) (attributes s)"
    have sch: "schema_ok (s\<lparr>attributes := as\<rparr>)"
      unfolding as_def by (rule schema_filter_attributes [OF wfD(1) [OF ok]])
    have del: "delete_attributes ?P s = Some (s\<lparr>attributes := as\<rparr>)"
      using sch by (simp add: delete_attributes_def checked_def as_def)
    have ato: "attribute_of (s\<lparr>attributes := as\<rparr>) = (attribute_of s)(n_id d := (attribute_of s (n_id d))(key := None))"
    proof (intro ext option_eqI)
      fix j k x
      have "\<lparr>a_node_id = j, a_key = k, a_value = x\<rparr> \<in> set as \<longleftrightarrow>
          \<not> (j = n_id d \<and> k = key) \<and> \<lparr>a_node_id = j, a_key = k, a_value = x\<rparr> \<in> set (attributes s)"
        by (auto simp: as_def)
      then show "attribute_of (s\<lparr>attributes := as\<rparr>) j k = Some x \<longleftrightarrow>
          ((attribute_of s)(n_id d := (attribute_of s (n_id d))(key := None))) j k = Some x"
        using attribute_of_iff [OF sch, of j k x] attribute_of_iff [OF wfD(1) [OF ok], of j k x] by auto
    qed
    have none: "attribute_of s (n_id d) key = None \<longleftrightarrow> filter ?P (attributes s) = []"
      by (auto simp: attribute_of_def find_None_iff filter_empty_conv)
    show ?thesis
    proof (cases "attribute_of s (n_id d) key = None")
      case True
      then have "as = attributes s"
        using none by (auto simp: as_def filter_empty_conv intro!: filter_True)
      then have s: "s\<lparr>attributes := as\<rparr> = s" by simp
      have "remove_attribute_tx E w path key options aj s = Some (AttrUpdated d (build_attributes_map E s (n_id d)), s)"
        using RFound fresh del True none by (simp add: remove_attribute_tx_def s)
      moreover have "attribute_removed s s w path key options aj d"
        unfolding attribute_removed_def using RFound fresh True ato by (intro exI [of _ d]) (simp add: s)
      ultimately show ?thesis using ok by auto
    next
      case False
      let ?s1 = "s\<lparr>attributes := as, clock_reads := Suc (clock_reads s)\<rparr>"
      have w1: "wf E ?s1" using wf_attributes [OF ok sch] by (simp only: wf_now)
      have d1: "lookup_segs ?s1 w dp = Some d" using dp lookup_cong [of ?s1 s] by simp
      obtain s' t n where t: "update_node (n_id d) (restamp (n_revision d + 1) (clock_ms E (clock_reads s))) ?s1 = Some s'"
        "append_change w AttributeRemoved (Some (n_id d)) None (Some (as_str path)) (Some (n_revision d + 1)) aj
           (clock_ms E (clock_reads s)) s' = Some t"
        "wf E t" "fetch_by_id t w (n_id d) = Some n" "restamped s t w path AttributeRemoved aj d n" "attributes t = as"
        by (rule restamp_step [OF w1 d1 path refl])
      have "attribute_of t = (attribute_of s)(n_id d := (attribute_of s (n_id d))(key := None))"
        using attribute_of_cong [of t "s\<lparr>attributes := as\<rparr>"] ato t(6) by simp
      moreover have "attributes_bounded t" if "attributes_bounded s"
        by (rule attributes_bounded_filter [OF that]) (simp add: t(6) as_def)
      ultimately have "attribute_removed s t w path key options aj n"
        unfolding attribute_removed_def using RFound False fresh t(5) by (intro exI [of _ d]) auto
      moreover have "remove_attribute_tx E w path key options aj s
          = Some (AttrUpdated n (build_attributes_map E t (n_id n)), t)"
        using RFound False none fresh del t(1,2,4) by (auto simp: remove_attribute_tx_def now_ms_def)
      ultimately show ?thesis using t(3) by simp
    qed
  qed
qed (use ok in \<open>auto simp: remove_attribute_tx_def\<close>)

end
