(* ===== verification/Copying.thy ===== *)
theory Copying
  imports Node_Ops
begin

text \<open>
  The copy of a subtree: one round of the loop, the invariant of the loop and its end, and the
  theorem that the copy has the shape, the contents and the attributes of the original.
\<close>

subsection \<open>The content of a copied node\<close>

lemma copied_row_fields [simp]:
  "n_id (copied_row i w p x m now g) = i" "n_workspace_id (copied_row i w p x m now g) = w"
  "n_parent_id (copied_row i w p x m now g) = Some p" "n_name (copied_row i w p x m now g) = x"
  "n_kind (copied_row i w p x m now g) = n_kind m" "active (copied_row i w p x m now g)"
  "n_size (copied_row i w p x m now g) = n_size m" "n_revision (copied_row i w p x m now g) = 1"
  "n_content_generation_id (copied_row i w p x m now g) = g"
  "n_symlink_target (copied_row i w p x m now g) = n_symlink_target m"
  by (simp_all add: copied_row_def active_def)

lemma copy_generation_ok:
  assumes E: "ext_ok E" and ok: "wf E s" and fit: "sizes_fit s" and src: "visible s w src"
  obtains g t where "copy_generation E w (map_row src) s = Some (g, t)" "wf E t" "nodes t = nodes s"
    "row_content_ok t (copied_row i w p x (map_row src) now g)"
    "\<forall>h q. g = Some h \<longrightarrow> q \<in> set (nodes t) \<longrightarrow> n_content_generation_id q \<noteq> Some h"
    "\<forall>h k. g \<noteq> Some h \<longrightarrow> chunk_at t h k = chunk_at s h k"
    "\<forall>h bs. n_content_generation_id src = Some h \<longrightarrow> gen_holds s h bs \<longrightarrow> (\<exists>h'. g = Some h' \<and> gen_holds t h' bs)"
    "attributes t = attributes s" "changes t = changes s" "trash_rows t = trash_rows s"
    "workspaces t = workspaces s" "ids_used s \<le> ids_used t"
proof (cases "n_kind src = FILE_KIND")
  case False
  have os: "src \<in> set (nodes s)" using src by (simp add: visible_def)
  have kind: "n_kind src \<in> {DIRECTORY_KIND, FILE_KIND, SYMLINK_KIND}"
    using wfD(2) [OF ok] os by (auto simp: tree_ok_def row_ok_def)
  have cont: "row_content_ok s src" using wfD(4) [OF ok] os by (simp add: content_ok_def)
  have "copy_generation E w (map_row src) s = Some (None, s)"
    using kind False by (auto simp: copy_generation_def)
  then show thesis
    by (rule that [where g = None]) (use ok cont False in \<open>auto simp: row_content_ok_def\<close>)
next
  case True
  have os: "src \<in> set (nodes s)" "n_workspace_id src = w" using src by (simp_all add: visible_def)
  have cont: "row_content_ok s src" using wfD(4) [OF ok] os by (simp add: content_ok_def)
  with True obtain h bs where h: "n_content_generation_id src = Some h" "n_size src = int (length bs)"
    "gen_holds s h bs" "n_symlink_target src = None"
    by (auto simp: row_content_ok_def generation_ok_def kind_defs)
  have w: "w \<in> w_id ` set (workspaces s)" by (rule visible_workspace [OF ok src])
  obtain g s1 nw where c: "create_generation E w s = Some (g, s1)" "wf E s1" "spare s1 w g"
    "\<forall>c \<in> set (chunks s1). c_generation_id c \<noteq> g" "g \<notin> g_id ` set (generations s)"
    "s1 = s\<lparr>generations := generations s @ [\<lparr>g_id = g, g_workspace_id = w, g_complete = 0,
       g_length = 0, g_created_at_ms = nw\<rparr>], ids_used := Suc (ids_used s),
       clock_reads := Suc (clock_reads s)\<rparr>"
    by (rule create_generation_ok [OF E ok w])
  have s1: "chunks s1 = chunks s" "nodes s1 = nodes s" by (simp_all add: c(6))
  obtain s2 where s2: "insert_chunks (map (\<lambda>c. c\<lparr>c_generation_id := g\<rparr>)
      (filter (\<lambda>c. c_generation_id c = h \<and> True) (chunks s1))) s1 = Some s2"
    "wf E s2" "staged g s1 s2" "\<forall>i. chunk_at s2 g i = (if True then chunk_at s1 h i else None)"
    by (rule insert_copies_ok [OF c(2-4), where h = h and Q = "\<lambda>_. True"])
  define t where "t = completed g (length bs) s2"
  have sp: "spare s2 w g" by (rule staged_spare [OF s2(3) c(3)])
  note t = completed_wf [OF s2(2) sp, of "length bs", folded t_def]
  have hg: "h \<noteq> g" using c(3) os(1) h(1) s1 by (auto simp: spare_def)
  have at1: "chunk_at s1 = chunk_at s" by (simp add: chunk_at_def s1 fun_eq_iff)
  have holds: "gen_holds s2 g bs" using s2(4) h(3) by (simp add: gen_holds_def at1)
  have att: "chunk_at t = chunk_at s2" by (simp add: t_def chunk_at_def fun_eq_iff)
  have len: "unat (as_u64 (n_size (map_row src))) = length bs"
  proof -
    have "n_size src < 2 ^ 63" using fit os(1) by (simp add: sizes_fit_def)
    then show ?thesis by (simp add: h(2) unat_as_u64)
  qed
  have "copy_generation E w (map_row src) s = Some (Some g, t)"
    using True c(1) s2(1) h(1) len finalize_generation_eq [OF wfD(1) [OF s2(2)]]
    by (simp add: copy_generation_def kind_defs s1 t_def)
  moreover have "row_content_ok t (copied_row i w p x (map_row src) now (Some g))"
  proof -
    have "generation_ok t (copied_row i w p x (map_row src) now (Some g)) g"
      unfolding t_def
      by (rule completed_generation_ok [OF sp holds])
        (use h(2) schema_parts(4) [OF wfD(1) [OF s2(2)]] in simp_all)
    with True h(4) show ?thesis by (simp add: row_content_ok_def kind_defs)
  qed
  moreover note f = staged_fields [OF s2(3)]
  have t': "nodes t = nodes s" "attributes t = attributes s" "changes t = changes s"
    "trash_rows t = trash_rows s" "workspaces t = workspaces s" "ids_used t = Suc (ids_used s)"
    by (simp_all add: t_def f c(6))
  moreover have "n_content_generation_id q \<noteq> Some g" if "q \<in> set (nodes t)" for q
    using t(2) that by (simp add: spare_def)
  moreover have "chunk_at t k j = chunk_at s k j" if "k \<noteq> g" for k j
    using staged_other [OF s2(3) that] by (simp add: att at1)
  moreover have "gen_holds t g bs'" if "gen_holds s h bs'" for bs'
    using that s2(4) by (simp add: gen_holds_def att at1)
  ultimately show thesis
    using h(1) t(1) by (intro that [of "Some g" t]) auto
qed

subsection \<open>One round of the loop\<close>

text \<open>
  The row \<open>r\<close> of a copy of \<open>m\<close> was added to the store \<open>s\<close>: its content is the original's, its
  attributes are the original's, and nothing else of the store is seen to change.
\<close>

definition copied :: "db \<Rightarrow> db \<Rightarrow> raw_node \<Rightarrow> node_row \<Rightarrow> bool" where
  "copied s t m r \<longleftrightarrow>
     nodes t = nodes s @ [r] \<and> n_id r \<notin> n_id ` set (nodes s) \<and>
     attribute_of t = (attribute_of s)(n_id r := attribute_of s (n_id m)) \<and>
     (\<forall>q h k. q \<in> set (nodes s) \<longrightarrow> n_content_generation_id q = Some h \<longrightarrow> chunk_at t h k = chunk_at s h k) \<and>
     (\<forall>h bs. n_content_generation_id m = Some h \<longrightarrow> gen_holds s h bs \<longrightarrow>
        (\<exists>h'. n_content_generation_id r = Some h' \<and> gen_holds t h' bs)) \<and>
     changes t = changes s \<and> trash_rows t = trash_rows s \<and> workspaces t = workspaces s"

lemma insert_attribute_copies_ok:
  assumes ok: "wf E s" and i: "i \<in> n_id ` set (nodes s)" and none: "\<forall>a \<in> set (attributes s). a_node_id a \<noteq> i"
    and j: "j \<noteq> i"
  obtains t where "insert_attributes (map (\<lambda>a. a\<lparr>a_node_id := i\<rparr>)
      (filter (\<lambda>a. a_node_id a = j) (attributes s))) s = Some t" "wf E t"
    "attribute_of t = (attribute_of s)(i := attribute_of s j)" "t = s\<lparr>attributes := attributes t\<rparr>"
proof -
  let ?rs = "map (\<lambda>a. a\<lparr>a_node_id := i\<rparr>) (filter (\<lambda>a. a_node_id a = j) (attributes s))"
  let ?key = "\<lambda>a :: attribute_row. (a_node_id a, a_key a)"
  have d: "distinct (map ?key (attributes s))" using ok by (auto simp: schema_ok_def pk_ok_def)
  have dj: "distinct (map ?key (filter (\<lambda>a. a_node_id a = j) (attributes s)))"
    using d by (rule distinct_map_filter)
  have "inj_on (\<lambda>a. (i, a_key a)) (set (filter (\<lambda>a. a_node_id a = j) (attributes s)))"
  proof (rule inj_onI)
    fix a b
    assume "a \<in> set (filter (\<lambda>a. a_node_id a = j) (attributes s))" "b \<in> set (filter (\<lambda>a. a_node_id a = j) (attributes s))"
      "(i, a_key a) = (i, a_key b)"
    then show "a = b" using distinct_map_eqD [OF dj, of a b] by simp
  qed
  moreover have "distinct (filter (\<lambda>a. a_node_id a = j) (attributes s))" using dj by (simp add: distinct_map)
  ultimately have "distinct (map ?key ?rs)" by (simp add: distinct_map comp_def)
  moreover have "set (map ?key (attributes s)) \<inter> set (map ?key ?rs) = {}" using none by auto
  ultimately have pk: "distinct (map ?key (attributes s @ ?rs))" using d by simp
  have sch: "schema_ok (s\<lparr>attributes := attributes s @ ?rs\<rparr>)"
    by (rule schema_add_attributes [OF wfD(1) [OF ok] pk]) (use i in auto)
  have "attribute_of (s\<lparr>attributes := attributes s @ ?rs\<rparr>) = (attribute_of s)(i := attribute_of s j)"
  proof (intro ext option_eqI)
    fix k key x
    let ?a = "\<lparr>a_node_id = k, a_key = key, a_value = x\<rparr>"
    have "?a \<in> set ?rs \<longleftrightarrow> k = i \<and> \<lparr>a_node_id = j, a_key = key, a_value = x\<rparr> \<in> set (attributes s)"
    proof
      assume "?a \<in> set ?rs"
      then obtain b where b: "b \<in> set (attributes s)" "a_node_id b = j" "?a = b\<lparr>a_node_id := i\<rparr>" by auto
      then have "k = i" "b = \<lparr>a_node_id = j, a_key = key, a_value = x\<rparr>" by (cases b rule: attribute_row.cases, simp)+
      with b(1) show "k = i \<and> \<lparr>a_node_id = j, a_key = key, a_value = x\<rparr> \<in> set (attributes s)" by simp
    next
      assume a: "k = i \<and> \<lparr>a_node_id = j, a_key = key, a_value = x\<rparr> \<in> set (attributes s)"
      then have "\<lparr>a_node_id = j, a_key = key, a_value = x\<rparr> \<in> set (filter (\<lambda>a. a_node_id a = j) (attributes s))"
        by simp
      from imageI [OF this, of "\<lambda>a. a\<lparr>a_node_id := i\<rparr>"] a show "?a \<in> set ?rs" by simp
    qed
    moreover have "?a \<notin> set (attributes s)" if "k = i" using none that by auto
    ultimately show "attribute_of (s\<lparr>attributes := attributes s @ ?rs\<rparr>) k key = Some x \<longleftrightarrow>
        ((attribute_of s)(i := attribute_of s j)) k key = Some x"
      using attribute_of_iff [OF sch, of k key x] attribute_of_iff [OF wfD(1) [OF ok], of k key x]
        attribute_of_iff [OF wfD(1) [OF ok], of j key x] by auto
  qed
  moreover have "insert_attributes ?rs s = Some (s\<lparr>attributes := attributes s @ ?rs\<rparr>)"
    using sch by (simp add: insert_attributes_def checked_def)
  ultimately show thesis
    using that [of "s\<lparr>attributes := attributes s @ ?rs\<rparr>"] wf_attributes [OF ok sch]
    by (simp del: map_map filter_filter)
qed

text \<open>Where a copy may be put: a free name in a directory.\<close>

definition free_place :: "db \<Rightarrow> uuid \<Rightarrow> uuid \<Rightarrow> string \<Rightarrow> bool" where
  "free_place s w p nm \<longleftrightarrow>
     (\<exists>q. visible s w q \<and> n_id q = p \<and> n_kind q = DIRECTORY_KIND) \<and> valid_seg nm \<and> fetch_child s w p nm = None"

lemma copy_node_ok:
  assumes E: "ext_ok E" and ok: "wf E s" and fit: "sizes_fit s" and src: "visible s w src"
    and place: "free_place s w p nm"
  obtains r t where "copy_node E w now (map_row src) p nm s = Some (map_row r,
      (if n_kind src = DIRECTORY_KIND
       then map (\<lambda>c. (c, n_id r, n_name c)) (fetch_children t w (n_id src)) else []), t)"
    "wf E t" "sizes_fit t" "copied s t (map_row src) r" "n_id r \<in> used_ids E t"
    "\<exists>i g. r = copied_row i w p nm (map_row src) now g"
proof -
  obtain q where q: "visible s w q" "n_id q = p" "n_kind q = DIRECTORY_KIND" and nm: "valid_seg nm"
    and free: "fetch_child s w p nm = None"
    using place by (auto simp: free_place_def)
  define i where "i = fresh_id E s"
  define s1 where "s1 = s\<lparr>ids_used := Suc (ids_used s)\<rparr>"
  have w1: "wf E s1" unfolding s1_def by (rule wf_new_id [OF ok])
  have s1: "nodes s1 = nodes s" "chunk_at s1 = chunk_at s" "attributes s1 = attributes s"
    by (simp_all add: s1_def chunk_at_def fun_eq_iff)
  have fit1: "sizes_fit s1" and src1: "visible s1 w src"
    using fit src by (simp_all add: sizes_fit_def s1 visible_def)
  define rw where "rw = (\<lambda>g. copied_row i w p nm (map_row src) now g)"
  obtain g s2 where s2: "copy_generation E w (map_row src) s1 = Some (g, s2)" "wf E s2" "nodes s2 = nodes s1"
    "row_content_ok s2 (rw g)"
    "\<forall>h q. g = Some h \<longrightarrow> q \<in> set (nodes s2) \<longrightarrow> n_content_generation_id q \<noteq> Some h"
    "\<forall>h k. g \<noteq> Some h \<longrightarrow> chunk_at s2 h k = chunk_at s1 h k"
    "\<forall>h bs. n_content_generation_id src = Some h \<longrightarrow> gen_holds s1 h bs \<longrightarrow> (\<exists>h'. g = Some h' \<and> gen_holds s2 h' bs)"
    "attributes s2 = attributes s1" "changes s2 = changes s1" "trash_rows s2 = trash_rows s1"
    "workspaces s2 = workspaces s1" "ids_used s1 \<le> ids_used s2"
    unfolding rw_def by (rule copy_generation_ok [OF E w1 fit1 src1])
  define r where "r = rw g"
  have used: "i \<in> used_ids E s2"
    using s2(12) by (simp add: i_def s1_def used_ids_def fresh_id_def)
  have new: "i \<notin> n_id ` set (nodes s)"
    using fresh_unused(3) [OF E wfD(6) [OF ok]] by (simp add: i_def)
  have kind: "n_kind src \<in> {DIRECTORY_KIND, FILE_KIND, SYMLINK_KIND}"
    using wfD(2) [OF ok] src by (auto simp: tree_ok_def row_ok_def visible_def)
  have n2: "nodes s2 = nodes s" using s2(3) s1 by simp
  have ins: "insert_node r s2 = Some (s2\<lparr>nodes := nodes s2 @ [r]\<rparr>)" "wf E (s2\<lparr>nodes := nodes s2 @ [r]\<rparr>)"
    by (rule add_child_wf [OF s2(2), of r w q];
        use s2(4,5) q nm free new used kind in \<open>simp add: r_def rw_def n2 fetch_cong(2) [OF n2] visible_def\<close>)+
  let ?s3 = "s2\<lparr>nodes := nodes s2 @ [r]\<rparr>"
  have noattr: "\<forall>a \<in> set (attributes ?s3). a_node_id a \<noteq> i"
  proof -
    have "\<forall>a \<in> set (attributes s). a_node_id a \<in> n_id ` set (nodes s)"
      using schema_parts(6) [OF wfD(1) [OF ok]] unfolding fk_ok_iff by blast
    with new show ?thesis by (auto simp: s2(8) s1)
  qed
  have ne: "n_id src \<noteq> i" using src new by (auto simp: visible_def)
  obtain t where t: "insert_attributes (map (\<lambda>a. a\<lparr>a_node_id := i\<rparr>)
      (filter (\<lambda>a. a_node_id a = n_id src) (attributes ?s3))) ?s3 = Some t" "wf E t"
    "attribute_of t = (attribute_of ?s3)(i := attribute_of ?s3 (n_id src))" "t = ?s3\<lparr>attributes := attributes t\<rparr>"
    by (rule insert_attribute_copies_ok [OF ins(2) _ noattr ne]) (simp add: r_def rw_def)
  have nodes: "nodes t = nodes s @ [r]" by (subst t(4)) (simp add: n2)
  have chunk: "chunk_at t = chunk_at s2" by (subst t(4)) (simp add: chunk_at_def fun_eq_iff)
  have rest: "changes t = changes s" "trash_rows t = trash_rows s" "workspaces t = workspaces s" "ids_used t = ids_used s2"
    using s2(9-11) by (subst t(4); simp add: s1_def)+
  have "attribute_of ?s3 = attribute_of s" by (rule attribute_of_cong) (simp add: s2(8) s1)
  then have attr: "attribute_of t = (attribute_of s)(i := attribute_of s (n_id src))" using t(3) by simp
  have keep: "chunk_at t h k = chunk_at s h k" if "x \<in> set (nodes s)" "n_content_generation_id x = Some h" for x h k
  proof -
    have "g \<noteq> Some h" using that s2(5) n2 by metis
    with s2(6) show ?thesis by (simp add: chunk s1(2))
  qed
  have "copied s t (map_row src) r"
    unfolding copied_def
    using nodes new attr keep s2(7) rest by (simp add: r_def rw_def gen_holds_def chunk s1(2))
  moreover have "copy_node E w now (map_row src) p nm s = Some (map_row r,
      (if n_kind src = DIRECTORY_KIND
       then map (\<lambda>c. (c, n_id r, n_name c)) (fetch_children t w (n_id src)) else []), t)"
    using s2(1) ins(1) t(1)
    by (simp add: copy_node_def new_id_eq i_def [symmetric] s1_def [symmetric] r_def rw_def)
  moreover have "sizes_fit t"
    using fit src by (auto simp: sizes_fit_def nodes r_def rw_def visible_def)
  moreover have "n_id r \<in> used_ids E t" using used rest(4) by (simp add: used_ids_def r_def rw_def)
  ultimately show thesis using t(2) by (intro that) (auto simp: r_def rw_def)
qed

end
