(* ===== verification/Copy_Loop.thy ===== *)
theory Copy_Loop
  imports Copying
begin

text \<open>
  The loop of \<open>copy_subtree\<close>: it keeps the store well formed; and where the destination is not
  inside the source it ends, leaving a copy with the shape, the contents and the attributes of
  the original.
\<close>

lemma copied_rows:
  assumes "copied s t m r"
  shows "visible t w q \<longleftrightarrow> visible s w q \<or> (q = r \<and> n_workspace_id r = w \<and> active r)"
    "fetch_child t w p x = (case fetch_child s w p x of Some c \<Rightarrow> Some c
       | None \<Rightarrow> if n_workspace_id r = w \<and> n_parent_id r = Some p \<and> n_name r = x \<and> active r
                 then Some (map_row r) else None)"
  using assms by (auto simp: copied_def visible_def fetch_child_def find_append split: option.splits)

text \<open>No row has the fresh id as its parent.\<close>

lemma fresh_childless:
  assumes ok: "wf E s" and new: "i \<notin> n_id ` set (nodes s)" and q: "q \<in> set (nodes s)"
  shows "n_parent_id q \<noteq> Some i"
proof
  assume "n_parent_id q = Some i"
  then obtain p where "p \<in> set (nodes s)" "n_id p = i" using row_parentE [OF wfD(2) [OF ok] q] by blast
  with new show False by auto
qed

lemma set_fetch_children:
  "set (fetch_children s w p) = map_row ` {r. visible s w r \<and> n_parent_id r = Some p}"
  by (auto simp: fetch_children_def visible_def)

lemma distinct_children:
  assumes "tree_ok s"
  shows "distinct (map n_name (fetch_children s w p))"
proof -
  let ?rs = "filter (\<lambda>r. n_workspace_id r = w \<and> n_parent_id r = Some p \<and> active r) (nodes s)"
  have "distinct (map n_name ?rs)"
  proof -
    have "distinct ?rs" using tree_okD(1) [OF assms] by (simp add: distinct_map)
    moreover have "inj_on n_name (set ?rs)"
      by (rule inj_onI) (auto intro!: siblings_unique [OF tree_okD(2) [OF assms], of w] simp: visible_def)
    ultimately show ?thesis by (simp add: distinct_map)
  qed
  then have "distinct (map n_name (sort_key (\<lambda>r. (n_name r, n_id r)) ?rs))"
    by (simp add: distinct_map)
  then show ?thesis by (simp add: fetch_children_def comp_def)
qed

subsection \<open>The loop keeps the store well formed\<close>

definition stack_ok :: "db \<Rightarrow> uuid \<Rightarrow> (raw_node \<times> uuid \<times> string) list \<Rightarrow> bool" where
  "stack_ok s w stack \<longleftrightarrow>
     (\<forall>(m, p, nm) \<in> set stack. stored s w m \<and> free_place s w p nm) \<and> distinct (map snd stack)"

lemma stack_step:
  assumes ok: "wf E s" and ok': "wf E t" and cp: "copied s t (map_row src) r"
    and st: "stack_ok s w ((map_row src, p, nm) # rest)"
    and r: "r = copied_row i w p nm (map_row src) now g"
  shows "stack_ok t w (rev (if n_kind src = DIRECTORY_KIND
      then map (\<lambda>c. (c, n_id r, n_name c)) (fetch_children t w (n_id src)) else []) @ rest)"
proof -
  have new: "n_id r \<notin> n_id ` set (nodes s)" and nodes: "nodes t = nodes s @ [r]"
    using cp by (simp_all add: copied_def)
  have place: "free_place s w p nm" and st_rest: "\<And>m a x. (m, a, x) \<in> set rest \<Longrightarrow> stored s w m \<and> free_place s w a x"
    and dist: "(p, nm) \<notin> snd ` set rest" "distinct (map snd rest)"
    using st by (auto simp: stack_ok_def)
  have stay: "stored t w m" if "stored s w m" for m
    using that copied_rows(1) [OF cp] by (auto simp: stored_def)
  have other: "free_place t w a x" if "free_place s w a x" "(a, x) \<noteq> (p, nm)" for a x
    using that by (auto simp: free_place_def copied_rows [OF cp] r)
  have old: "a \<noteq> n_id r" if "free_place s w a x" for a x
    using that new unfolding free_place_def visible_def by (metis imageI)
  have below: "free_place t w (n_id r) (n_name c)"
    if dir: "n_kind src = DIRECTORY_KIND" and c: "c \<in> set (fetch_children t w (n_id src))" for c
  proof -
    obtain q where q: "visible t w q" "n_parent_id q = Some (n_id src)" "c = map_row q"
      using c by (auto simp: set_fetch_children)
    have "valid_seg (n_name q)"
      using row_parentE [OF wfD(2) [OF ok'], of q] q by (auto simp: visible_def)
    moreover have "visible t w r" using copied_rows(1) [OF cp] by (simp add: r)
    moreover have "fetch_child t w (n_id r) x = None" for x
    proof (rule ccontr)
      assume "fetch_child t w (n_id r) x \<noteq> None"
      then obtain q' where "visible t w q'" "n_parent_id q' = Some (n_id r)" using fetch_child_SomeD by blast
      then have "q' = r" using fresh_childless [OF ok new] nodes by (auto simp: visible_def)
      with \<open>n_parent_id q' = Some (n_id r)\<close> old [OF place] show False by (simp add: r)
    qed
    ultimately show ?thesis using q(3) dir by (auto simp: free_place_def r)
  qed
  define kids where "kids = (if n_kind src = DIRECTORY_KIND
      then map (\<lambda>c. (c, n_id r, n_name c)) (fetch_children t w (n_id src)) else [])"
  have kid: "stored t w m \<and> free_place t w a x \<and> a = n_id r" if k: "(m, a, x) \<in> set kids" for m a x
  proof -
    have "n_kind src = DIRECTORY_KIND" "m \<in> set (fetch_children t w (n_id src))" "a = n_id r" "x = n_name m"
      using k by (auto simp: kids_def split: if_splits)
    with below show ?thesis by (auto simp: set_fetch_children stored_def)
  qed
  have "distinct (map snd kids)"
    using distinct_children [OF wfD(2) [OF ok'], of w "n_id src"]
    by (auto simp: kids_def comp_def distinct_map inj_on_def)
  moreover have "snd ` set kids \<inter> snd ` set rest = {}"
    using kid st_rest old by fastforce
  ultimately have "distinct (map snd (List.rev kids @ rest))"
    using dist(2) by (simp add: rev_map [symmetric] Int_commute)
  moreover have "stored t w m \<and> free_place t w a x" if "(m, a, x) \<in> set (List.rev kids @ rest)" for m a x
  proof (cases "(m, a, x) \<in> set kids")
    case True
    with kid show ?thesis by blast
  next
    case False
    with that have "(m, a, x) \<in> set rest" by simp
    moreover from this have "(a, x) \<noteq> (p, nm)" using dist(1) by force
    ultimately show ?thesis using st_rest stay other by blast
  qed
  ultimately show ?thesis unfolding stack_ok_def kids_def [symmetric] by auto
qed

lemma copy_loop_wf:
  assumes "copy_loop E w now stack root_copy s = Some y"
    and "ext_ok E" "wf E s" "sizes_fit s" "stack_ok s w stack"
    and "\<And>m. root_copy = Some m \<Longrightarrow> stored s w m \<and> n_id m \<in> used_ids E s"
  shows "wf E (snd y) \<and> sizes_fit (snd y) \<and> stored (snd y) w (fst y) \<and> n_id (fst y) \<in> used_ids E (snd y) \<and>
    changes (snd y) = changes s \<and> workspaces (snd y) = workspaces s"
  using assms
proof (induction rule: copy_loop.raw_induct [rotated, consumes 1, case_names step])
  case (step loop E w now stack root_copy s y)
  show ?case
  proof (cases stack)
    case Nil
    with step show ?thesis by (auto split: bind_splits)
  next
    case (Cons item rest)
    obtain m p nm where item: "item = (m, p, nm)" by (cases item) auto
    have head: "stored s w m" "free_place s w p nm"
      using step(6) Cons item by (auto simp: stack_ok_def)
    then obtain src where src: "visible s w src" "m = map_row src" by (auto simp: stored_def)
    obtain r u where u: "copy_node E w now (map_row src) p nm s = Some (map_row r,
        (if n_kind src = DIRECTORY_KIND
         then map (\<lambda>c. (c, n_id r, n_name c)) (fetch_children u w (n_id src)) else []), u)"
      "wf E u" "sizes_fit u" "copied s u (map_row src) r" "n_id r \<in> used_ids E u"
      "\<exists>i g. r = copied_row i w p nm (map_row src) now g"
      by (rule copy_node_ok [OF step(3-5) src(1) head(2)])
    let ?kids = "if n_kind src = DIRECTORY_KIND
         then map (\<lambda>c. (c, n_id r, n_name c)) (fetch_children u w (n_id src)) else []"
    let ?rc = "case root_copy of None \<Rightarrow> Some (map_row r) | Some n \<Rightarrow> Some n"
    have go: "loop E w now (List.rev ?kids @ rest) ?rc u = Some y"
      using step(2) by (cases root_copy) (simp_all add: Cons item src(2) u(1) split: if_splits)
    have st: "stack_ok u w (List.rev ?kids @ rest)"
      using u(6) stack_step [OF step(4) u(2,4)] step(6) by (auto simp: Cons item src(2))
    have rc: "stored u w n \<and> n_id n \<in> used_ids E u" if "?rc = Some n" for n
    proof (cases root_copy)
      case None
      have "visible u w r" using copied_rows(1) [OF u(4)] u(6) by auto
      with None that u(5) show ?thesis by (auto simp: stored_def)
    next
      case (Some m')
      then have "stored s w n" using that step(7) [OF Some] by simp
      then obtain q where "visible s w q" "n = map_row q" by (auto simp: stored_def)
      then have "visible u w q" "q \<in> set (nodes u)" using copied_rows(1) [OF u(4)] by (auto simp: visible_def)
      moreover have "n_id q \<in> used_ids E u"
        using wfD(6) [OF u(2)] \<open>q \<in> set (nodes u)\<close> by (auto simp: ids_ok_def)
      ultimately show ?thesis using \<open>n = map_row q\<close> by (auto simp: stored_def)
    qed
    have "changes u = changes s" "workspaces u = workspaces s" using u(4) by (simp_all add: copied_def)
    with step(1) [OF go step(3) u(2,3) st rc] show ?thesis by simp
  qed
qed

lemma free_placeI:
  assumes "lookup_segs s w pp = Some p" "n_kind p = DIRECTORY_KIND" "valid_seg nm" "fetch_child s w (n_id p) nm = None"
  shows "free_place s w (n_id p) nm"
  using lookup_visible [OF assms(1)] assms(2-4) by (auto simp: free_place_def)

subsection \<open>The copy is a mirror of the original\<close>

definition copy_like :: "raw_node \<Rightarrow> raw_node \<Rightarrow> bool" where
  "copy_like m m' \<longleftrightarrow>
     n_kind m' = n_kind m \<and> n_size m' = n_size m \<and> n_symlink_target m' = n_symlink_target m \<and> n_revision m' = 1"

text \<open>What the store \<open>s\<close> has at one path, the store \<open>t\<close> has at another, as a copy.\<close>

definition mirrored :: "uuid \<Rightarrow> db \<Rightarrow> string list \<Rightarrow> db \<Rightarrow> string list \<Rightarrow> bool" where
  "mirrored w s xs t ys \<longleftrightarrow>
     (case lookup_segs s w xs of
        None \<Rightarrow> lookup_segs t w ys = None
      | Some m \<Rightarrow> \<exists>m'. lookup_segs t w ys = Some m' \<and> copy_like m m' \<and>
          attribute_of t (n_id m') = attribute_of s (n_id m)) \<and>
     (\<forall>bs. file_at s w xs bs \<longrightarrow> file_at t w ys bs)"

lemma copied_only_path:
  assumes ok: "wf E s" and ok': "wf E t" and cp: "copied s t m r"
    and r: "n_workspace_id r = w" "active r" "n_parent_id r = Some (n_id q)"
    and q: "lookup_segs s w pp = Some q" "n_kind q = DIRECTORY_KIND" and free: "fetch_child s w (n_id q) (n_name r) = None"
  shows "only_path s t w (pp @ [n_name r])" "lookup_segs t w (pp @ [n_name r]) = Some (map_row r)"
proof -
  have nodes: "nodes t = nodes s @ [r]" and new: "n_id r \<notin> n_id ` set (nodes s)"
    using cp by (simp_all add: copied_def)
  have look: "lookup_segs t w xs = (if xs = pp @ [n_name r] then Some (map_row r) else lookup_segs s w xs)" for xs
    by (rule add_child_lookup [OF wfD(2) [OF ok] wfD(2) [OF ok'] nodes new r q(1) refl q(2) free])
  then show "lookup_segs t w (pp @ [n_name r]) = Some (map_row r)" by simp
  show "only_path s t w (pp @ [n_name r])"
  proof (rule only_pathI)
    fix w' xs assume ne: "(w', xs) \<noteq> (w, pp @ [n_name r])"
    show "lookup_segs t w' xs = lookup_segs s w' xs"
    proof (cases "w' = w")
      case True
      with look ne show ?thesis by simp
    next
      case False
      with r(1) show ?thesis by (intro add_row_other [OF nodes]) simp
    qed
  next
    fix w' xs n g i assume "lookup_segs s w' xs = Some n" "n_content_generation_id n = Some g"
    then obtain v where "v \<in> set (nodes s)" "n_content_generation_id v = Some g"
      using lookup_visible by (fastforce simp: visible_def)
    with cp show "chunk_at t g i = chunk_at s g i" unfolding copied_def by blast
  qed
qed

lemma mirrored_copied:
  assumes ok: "wf E s" and cp: "copied s t m r" and look: "lookup_segs t w ys = Some (map_row r)"
    and src: "lookup_segs s w xs = Some m" and r: "r = copied_row i w p nm m now g"
  shows "mirrored w s xs t ys"
proof -
  have "file_at t w ys bs" if "file_at s w xs bs" for bs
  proof -
    from that src obtain h where h: "n_kind m = FILE_KIND" "n_content_generation_id m = Some h"
      "n_size m = int (length bs)" "gen_holds s h bs" by (auto simp: file_at_def)
    with cp obtain h' where "n_content_generation_id r = Some h'" "gen_holds t h' bs"
      unfolding copied_def by blast
    with h look r show ?thesis by (auto simp: file_at_def)
  qed
  moreover have "attribute_of t (n_id r) = attribute_of s (n_id m)" using cp by (simp add: copied_def)
  ultimately show ?thesis using src look r by (simp add: mirrored_def copy_like_def)
qed

lemma mirrored_keep:
  assumes mi: "mirrored w s0 xs s ys" and only: "only_path s t w zs" and ne: "ys \<noteq> zs"
    and attr: "\<And>j. j \<in> n_id ` set (nodes s) \<Longrightarrow> attribute_of t j = attribute_of s j"
  shows "mirrored w s0 xs t ys"
proof -
  have look: "lookup_segs t w ys = lookup_segs s w ys" and files: "\<And>bs. file_at s w ys bs \<Longrightarrow> file_at t w ys bs"
    using only ne unfolding only_path_def by auto
  have "attribute_of t (n_id m') = attribute_of s (n_id m')" if "lookup_segs s w ys = Some m'" for m'
    using lookup_visible [OF that] by (intro attr) (auto simp: visible_def)
  then show ?thesis using mi files by (auto simp: mirrored_def look split: option.splits)
qed

subsection \<open>The loop invariant\<close>

text \<open>
  The store \<open>s0\<close> before the loop, the source path \<open>dp\<close> and the destination path \<open>tp\<close>: the
  items of the stack stand for relative paths \<open>ps\<close>, none below another. Below those nothing is
  copied yet, everything else is, and outside of the destination nothing has changed.
\<close>

definition pending :: "string list list \<Rightarrow> string list \<Rightarrow> bool" where
  "pending ps xs \<longleftrightarrow> (\<exists>ys \<in> set ps. prefix ys xs)"

definition item_for ::
    "uuid \<Rightarrow> db \<Rightarrow> db \<Rightarrow> string list \<Rightarrow> string list \<Rightarrow> raw_node \<times> uuid \<times> string \<Rightarrow> string list \<Rightarrow> bool" where
  "item_for w s0 s dp tp item ys \<longleftrightarrow>
     lookup_segs s0 w (dp @ ys) = Some (fst item) \<and> valid_seg (snd (snd item)) \<and>
     tp @ ys \<noteq> [] \<and> snd (snd item) = last (tp @ ys) \<and>
     (\<exists>q. lookup_segs s w (butlast (tp @ ys)) = Some q \<and> n_id q = fst (snd item) \<and> n_kind q = DIRECTORY_KIND)"

definition copying ::
    "uuid \<Rightarrow> db \<Rightarrow> string list \<Rightarrow> string list \<Rightarrow> (raw_node \<times> uuid \<times> string) list \<Rightarrow> string list list \<Rightarrow> db \<Rightarrow> bool" where
  "copying w s0 dp tp stack ps s \<longleftrightarrow>
     list_all2 (item_for w s0 s dp tp) stack ps \<and> distinct ps \<and>
     (\<forall>y \<in> set ps. \<forall>z \<in> set ps. prefix y z \<longrightarrow> y = z) \<and>
     (\<forall>xs. if pending ps xs then lookup_segs s w (tp @ xs) = None else mirrored w s0 (dp @ xs) s (tp @ xs)) \<and>
     (\<forall>w' xs. \<not> (w' = w \<and> prefix tp xs) \<longrightarrow> lookup_segs s w' xs = lookup_segs s0 w' xs \<and>
        (\<forall>bs. file_at s0 w' xs bs \<longrightarrow> file_at s w' xs bs)) \<and>
     (\<forall>j \<in> n_id ` set (nodes s0). attribute_of s j = attribute_of s0 j) \<and> set (nodes s0) \<subseteq> set (nodes s)"

lemma copyingD:
  assumes "copying w s0 dp tp stack ps s"
  shows "list_all2 (item_for w s0 s dp tp) stack ps" "distinct ps"
    "\<forall>y \<in> set ps. \<forall>z \<in> set ps. prefix y z \<longrightarrow> y = z"
    "\<forall>xs. if pending ps xs then lookup_segs s w (tp @ xs) = None else mirrored w s0 (dp @ xs) s (tp @ xs)"
    "\<forall>w' xs. \<not> (w' = w \<and> prefix tp xs) \<longrightarrow> lookup_segs s w' xs = lookup_segs s0 w' xs \<and>
        (\<forall>bs. file_at s0 w' xs bs \<longrightarrow> file_at s w' xs bs)"
    "\<forall>j \<in> n_id ` set (nodes s0). attribute_of s j = attribute_of s0 j" "set (nodes s0) \<subseteq> set (nodes s)"
  using assms unfolding copying_def by - (elim conjE, assumption)+

lemma copying_step:
  assumes ok: "wf E s" and ok': "wf E t" and inv: "copying w s0 dp tp ((map_row src, p, nm) # rest) (ys # ps) s"
    and cp: "copied s t (map_row src) r" and r: "r = copied_row i w p nm (map_row src) now g"
    and sep: "\<And>xs. \<not> prefix tp (dp @ xs)"
  shows "copying w s0 dp tp
      (List.rev (if n_kind src = DIRECTORY_KIND
         then map (\<lambda>c. (c, n_id r, n_name c)) (fetch_children t w (n_id src)) else []) @ rest)
      (List.rev (if n_kind src = DIRECTORY_KIND
         then map (\<lambda>c. ys @ [n_name c]) (fetch_children t w (n_id src)) else []) @ ps) t"
    (is "copying w s0 dp tp (List.rev ?kids @ rest) (List.rev ?kps @ ps) t")
proof -
  note D = copyingD [OF inv]
  have anti: "\<And>y z. y \<in> set (ys # ps) \<Longrightarrow> z \<in> set (ys # ps) \<Longrightarrow> prefix y z \<Longrightarrow> y = z"
    using D(3) by blast
  have attr0: "\<And>j. j \<in> n_id ` set (nodes s0) \<Longrightarrow> attribute_of s j = attribute_of s0 j" using D(6) by blast
  have dist: "ys \<notin> set ps" "distinct ps" using D(2) by simp_all
  have rest: "list_all2 (item_for w s0 s dp tp) rest ps" and it: "item_for w s0 s dp tp (map_row src, p, nm) ys"
    using D(1) by simp_all
  note stat = spec [OF D(4)] and sub = D(7)
  have frame: "lookup_segs s w' xs = lookup_segs s0 w' xs \<and> (\<forall>bs. file_at s0 w' xs bs \<longrightarrow> file_at s w' xs bs)"
    if "\<not> (w' = w \<and> prefix tp xs)" for w' xs
    using D(5) that by blast
  obtain q where q: "lookup_segs s w (butlast (tp @ ys)) = Some q" "n_id q = p" "n_kind q = DIRECTORY_KIND"
    and m: "lookup_segs s0 w (dp @ ys) = Some (map_row src)" and nm: "tp @ ys \<noteq> []" "nm = last (tp @ ys)"
    using it by (auto simp: item_for_def)
  have here: "butlast (tp @ ys) @ [nm] = tp @ ys" using nm by simp
  have none: "lookup_segs s w (tp @ ys) = None" using stat [of ys] by (simp add: pending_def)
  have free: "fetch_child s w (n_id q) nm = None"
  proof -
    have "lookup_segs s w (butlast (tp @ ys) @ [nm]) = None" by (simp only: here none)
    then show ?thesis using q by (simp only: lookup_snoc) (simp add: enter_def)
  qed
  have ms: "lookup_segs s w (dp @ ys) = Some (map_row src)" using frame [of w "dp @ ys"] sep m by simp
  have attr: "attribute_of t j = attribute_of s j" if "j \<in> n_id ` set (nodes s)" for j
    using cp that unfolding copied_def by (metis fun_upd_apply)
  have only: "only_path s t w (tp @ ys)" and new: "lookup_segs t w (tp @ ys) = Some (map_row r)"
    using copied_only_path [OF ok ok' cp _ _ _ q(1,3)] free here q(2) by (simp_all add: r)
  have same: "lookup_segs t w' xs = lookup_segs s w' xs" "\<And>bs. file_at s w' xs bs \<Longrightarrow> file_at t w' xs bs"
    if "(w', xs) \<noteq> (w, tp @ ys)" for w' xs
    using only that unfolding only_path_def by auto
  have outside: "(w', xs) \<noteq> (w, tp @ ys)" if "\<not> (w' = w \<and> prefix tp xs)" for w' xs using that by auto
  have apart: "dp \<noteq> tp" using sep by auto
  have child: "n_kind src = DIRECTORY_KIND \<Longrightarrow> lookup_segs s0 w (dp @ ys @ [n_name c]) = Some c \<and> valid_seg (n_name c)"
    if c: "c \<in> set (fetch_children t w (n_id src))" for c
  proof -
    assume dir: "n_kind src = DIRECTORY_KIND"
    obtain v where v: "visible t w v" "n_parent_id v = Some (n_id src)" "c = map_row v"
      using c by (auto simp: set_fetch_children)
    have mt: "lookup_segs t w (dp @ ys) = Some (map_row src)"
      using same(1) [of w "dp @ ys"] ms apart by simp
    have "fetch_child t w (n_id src) (n_name v) = Some (map_row v)"
      by (rule fetch_child_eq [OF tree_okD(2) [OF wfD(2) [OF ok']] v(1,2)])
    then have "lookup_segs t w ((dp @ ys) @ [n_name c]) = Some c"
      using mt dir v(3) by (simp only: lookup_snoc) (simp add: enter_def)
    moreover have "valid_seg (n_name v)" using row_parentE [OF wfD(2) [OF ok'], of v] v by (auto simp: visible_def)
    ultimately show ?thesis
      using same(1) [of w "dp @ ys @ [n_name c]"] frame [of w "dp @ ys @ [n_name c]"] sep [of "ys @ [n_name c]"] v(3)
      by (auto simp: prefix_def)
  qed
  have kids: "list_all2 (item_for w s0 t dp tp) ?kids ?kps"
    using child new by (auto simp: list_all2_map1 list_all2_map2 list_all2_same item_for_def butlast_append r)
  have "list_all2 (item_for w s0 t dp tp) rest ps"
  proof (rule list_all2_mono [OF rest])
    fix item zs assume z: "item_for w s0 s dp tp item zs"
    then obtain q' where "lookup_segs s w (butlast (tp @ zs)) = Some q'" by (auto simp: item_for_def)
    with none have "butlast (tp @ zs) \<noteq> tp @ ys" by auto
    then have "lookup_segs t w (butlast (tp @ zs)) = lookup_segs s w (butlast (tp @ zs))" by (intro same(1)) simp
    with z show "item_for w s0 t dp tp item zs" unfolding item_for_def by metis
  qed
  with kids have items: "list_all2 (item_for w s0 t dp tp) (List.rev ?kids @ rest) (List.rev ?kps @ ps)"
    by (intro list_all2_appendI) (simp_all only: list_all2_rev)
  have kp: "\<exists>x. k = ys @ [x]" if "k \<in> set ?kps" for k using that by (auto split: if_splits)
  note kids_below = kp
  have "distinct ?kps"
    using distinct_children [OF wfD(2) [OF ok'], of w "n_id src"] by (auto simp: distinct_map inj_on_def)
  moreover have "set ?kps \<inter> set ps = {}"
  proof -
    have "k \<notin> set ps" if inkids: "k \<in> set ?kps" for k
    proof
      assume k: "k \<in> set ps"
      obtain x where "k = ys @ [x]" using kp [OF inkids] by blast
      then have "prefix ys k" by simp
      with anti [of ys k] k have "ys = k" by simp
      with k dist(1) show False by simp
    qed
    then show ?thesis by blast
  qed
  ultimately have "distinct (List.rev ?kps @ ps)" using dist(2) by auto
  moreover have "\<forall>y \<in> set (List.rev ?kps @ ps). \<forall>z \<in> set (List.rev ?kps @ ps). prefix y z \<longrightarrow> y = z"
  proof (intro ballI impI)
    fix y z assume y: "y \<in> set (List.rev ?kps @ ps)" and z: "z \<in> set (List.rev ?kps @ ps)" and pre: "prefix y z"
    consider (kk) "y \<in> set ?kps" "z \<in> set ?kps" | (kp) "y \<in> set ?kps" "z \<in> set ps"
      | (pk) "y \<in> set ps" "z \<in> set ?kps" | (pp) "y \<in> set ps" "z \<in> set ps"
      using y z by (simp only: set_append set_rev Un_iff) blast
    then show "y = z"
    proof cases
      case kk
      then show ?thesis using kp [of y] kp [of z] pre by auto
    next
      case kp
      then have "prefix ys z" using kids_below [of y] pre by (auto simp: prefix_def)
      with anti [of ys z] kp dist show ?thesis by simp
    next
      case pk
      then obtain x where "z = ys @ [x]" using kp [of z] by blast
      with pre have "y = z \<or> prefix y ys" by auto
      with anti [of y ys] pk dist show ?thesis by auto
    next
      case pp
      then show ?thesis using anti [of y z] pre by simp
    qed
  qed
  moreover have "if pending (List.rev ?kps @ ps) xs then lookup_segs t w (tp @ xs) = None
      else mirrored w s0 (dp @ xs) t (tp @ xs)" for xs
  proof -
    consider (here) "xs = ys" | (deep) x zs where "xs = ys @ x # zs" | (other) "\<not> prefix ys xs"
      by (metis append_Nil2 list.exhaust prefixE)
    then show ?thesis
    proof cases
      case here
      have np: "\<not> pending (List.rev ?kps @ ps) ys"
        using kp anti [of _ ys] dist by (fastforce simp: pending_def)
      have "mirrored w s (dp @ ys) t (tp @ ys)" by (rule mirrored_copied [OF ok cp new ms r])
      moreover have "attribute_of s (n_id src) = attribute_of s0 (n_id src)"
      proof (rule attr0)
        obtain v where "v \<in> set (nodes s0)" "map_row src = map_row v"
          using lookup_visible [OF m] by (auto simp: visible_def)
        then show "n_id src \<in> n_id ` set (nodes s0)" by (metis imageI map_row_fields(1))
      qed
      ultimately have "mirrored w s0 (dp @ ys) t (tp @ ys)"
        using frame [of w "dp @ ys"] sep [of ys] by (auto simp: mirrored_def m ms)
      with np show ?thesis by (simp add: here)
    next
      case deep
      have sn: "lookup_segs t w (tp @ xs) = None"
        using stat [of xs] same(1) [of w "tp @ xs"] by (simp add: deep pending_def prefix_def)
      show ?thesis
      proof (cases "pending (List.rev ?kps @ ps) xs")
        case True
        with sn show ?thesis by simp
      next
        case False
        have "lookup_segs s0 w (dp @ xs) = None"
        proof (rule ccontr)
          assume "lookup_segs s0 w (dp @ xs) \<noteq> None"
          then obtain c where c0: "lookup_segs s0 w ((dp @ ys) @ [x]) = Some c"
            using lookup_prefix [of s0 w "(dp @ ys) @ [x]" zs] by (auto simp: deep)
          then have "n_kind src = DIRECTORY_KIND"
            using m by (auto simp: lookup_snoc enter_def simp del: append_assoc split: if_splits)
          have "lookup_segs t w ((dp @ ys) @ [x]) = Some c"
            using c0 same(1) [of w "dp @ ys @ [x]"] frame [of w "dp @ ys @ [x]"] sep [of "ys @ [x]"]
            by (auto simp: prefix_def)
          moreover have "lookup_segs t w (dp @ ys) = Some (map_row src)"
            using same(1) [of w "dp @ ys"] ms apart by simp
          ultimately have "fetch_child t w (n_id src) x = Some c"
            by (auto simp: lookup_snoc enter_def simp del: append_assoc split: if_splits)
          then obtain v where "visible t w v" "n_parent_id v = Some (n_id src)" "n_name v = x" "c = map_row v"
            using fetch_child_SomeD by blast
          then have "c \<in> set (fetch_children t w (n_id src))" "n_name c = x" by (auto simp: set_fetch_children)
          then have "ys @ [x] \<in> set ?kps" using \<open>n_kind src = DIRECTORY_KIND\<close> by auto
          then have "pending (List.rev ?kps @ ps) xs" by (auto simp: pending_def deep intro!: bexI [of _ "ys @ [x]"])
          with False show False ..
        qed
        then have "mirrored w s0 (dp @ xs) t (tp @ xs)" using sn by (simp add: mirrored_def file_at_def)
        with False show ?thesis by simp
      qed
    next
      case other
      have pend: "pending (List.rev ?kps @ ps) xs \<longleftrightarrow> pending (ys # ps) xs"
      proof -
        have "\<not> prefix k xs" if "k \<in> set ?kps" for k using kp [OF that] other by (auto simp: prefix_def)
        then show ?thesis using other by (auto simp: pending_def)
      qed
      have ne: "tp @ xs \<noteq> tp @ ys" using other by auto
      show ?thesis
      proof (cases "pending (ys # ps) xs")
        case True
        with stat [of xs] same(1) [of w "tp @ xs"] ne pend show ?thesis by simp
      next
        case False
        with stat [of xs] have "mirrored w s0 (dp @ xs) s (tp @ xs)" by simp
        from mirrored_keep [OF this only ne attr] False pend show ?thesis by simp
      qed
    qed
  qed
  moreover have "lookup_segs t w' xs = lookup_segs s0 w' xs \<and> (\<forall>bs. file_at s0 w' xs bs \<longrightarrow> file_at t w' xs bs)"
    if "\<not> (w' = w \<and> prefix tp xs)" for w' xs
    using frame [OF that] same [OF outside [OF that]] by simp
  moreover have "attribute_of t j = attribute_of s0 j" if "j \<in> n_id ` set (nodes s0)" for j
    using attr0 [OF that] attr [of j] that sub by auto
  moreover have "set (nodes s0) \<subseteq> set (nodes t)" using sub cp by (auto simp: copied_def)
  ultimately show ?thesis unfolding copying_def by (intro conjI allI items) blast+
qed

text \<open>Every round leaves fewer paths of the source to copy.\<close>

definition to_copy :: "uuid \<Rightarrow> db \<Rightarrow> string list \<Rightarrow> string list list \<Rightarrow> string list set" where
  "to_copy w s0 dp ps = {xs. pending ps xs \<and> lookup_segs s0 w (dp @ xs) \<noteq> None}"

lemma finite_to_copy:
  assumes "tree_ok s0"
  shows "finite (to_copy w s0 dp ps)"
proof (rule finite_imageD)
  let ?f = "\<lambda>xs. lookup_segs s0 w (dp @ xs)"
  have "?f ` to_copy w s0 dp ps \<subseteq> (\<lambda>r. Some (map_row r)) ` set (nodes s0)"
  proof
    fix y assume "y \<in> ?f ` to_copy w s0 dp ps"
    then obtain xs n where "lookup_segs s0 w (dp @ xs) = Some n" "y = Some n" by (auto simp: to_copy_def)
    then show "y \<in> (\<lambda>r. Some (map_row r)) ` set (nodes s0)"
      using lookup_visible [of s0 w "dp @ xs" n] by (auto simp: visible_def)
  qed
  then show "finite (?f ` to_copy w s0 dp ps)" by (rule finite_subset) simp
  show "inj_on ?f (to_copy w s0 dp ps)"
  proof (rule inj_onI)
    fix xs zs assume "xs \<in> to_copy w s0 dp ps" "?f xs = ?f zs"
    then obtain n where "?f xs = Some n" "?f zs = Some n" by (auto simp: to_copy_def)
    with lookup_unique [OF assms, of w "dp @ xs" n "dp @ zs"] show "xs = zs" by simp
  qed
qed

lemma copy_loop_mirrors:
  assumes E: "ext_ok E" and tree: "tree_ok s0" and sep: "\<And>xs. \<not> prefix tp (dp @ xs)"
  shows "copying w s0 dp tp stack ps s \<Longrightarrow> wf E s \<Longrightarrow> sizes_fit s \<Longrightarrow>
    stack \<noteq> [] \<or> root_copy \<noteq> None \<Longrightarrow>
    (case root_copy of None \<Rightarrow> ps = [[]] | Some n \<Rightarrow> lookup_segs s w tp = Some n) \<Longrightarrow>
    \<exists>n t. copy_loop E w now stack root_copy s = Some (n, t) \<and> wf E t \<and> sizes_fit t \<and>
      copying w s0 dp tp [] [] t \<and> lookup_segs t w tp = Some n \<and>
      changes t = changes s \<and> workspaces t = workspaces s"
proof (induction "card (to_copy w s0 dp ps)" arbitrary: stack ps root_copy s rule: less_induct)
  case (less ps stack root_copy s)
  show ?case
  proof (cases stack)
    case Nil
    with less.prems(1) have "ps = []" by (auto dest: copyingD(1))
    with Nil less.prems show ?thesis
      by (subst copy_loop.simps) (auto split: option.splits)
  next
    case (Cons item rest)
    then obtain m p nm ys ps' where item: "item = (m, p, nm)" and ps: "ps = ys # ps'"
      using copyingD(1) [OF less.prems(1)] by (cases item, cases ps) auto
    note inv = less.prems(1) [unfolded Cons item ps]
    note D = copyingD [OF inv]
    have it: "lookup_segs s0 w (dp @ ys) = Some m" "valid_seg nm" "tp @ ys \<noteq> []" "nm = last (tp @ ys)"
      "\<exists>q. lookup_segs s w (butlast (tp @ ys)) = Some q \<and> n_id q = p \<and> n_kind q = DIRECTORY_KIND"
      using D(1) by (auto simp: item_for_def)
    have "\<not> (w = w \<and> prefix tp (dp @ ys))" using sep by simp
    then have "lookup_segs s w (dp @ ys) = Some m" using D(5) it(1) by metis
    then obtain src where src: "visible s w src" "m = map_row src" using lookup_visible by blast
    obtain q where q: "lookup_segs s w (butlast (tp @ ys)) = Some q" "n_id q = p" "n_kind q = DIRECTORY_KIND"
      using it(5) by blast
    have "lookup_segs s w (tp @ ys) = None" using spec [OF D(4), of ys] by (simp add: pending_def)
    then have "lookup_segs s w (butlast (tp @ ys) @ [nm]) = None" using it(3,4) by simp
    then have "fetch_child s w (n_id q) nm = None" using q by (simp only: lookup_snoc) (simp add: enter_def)
    then have place: "free_place s w p nm" using free_placeI [OF q(1,3) it(2)] q(2) by simp
    obtain r u where u: "copy_node E w now (map_row src) p nm s = Some (map_row r,
        (if n_kind src = DIRECTORY_KIND
         then map (\<lambda>c. (c, n_id r, n_name c)) (fetch_children u w (n_id src)) else []), u)"
      "wf E u" "sizes_fit u" "copied s u (map_row src) r" "n_id r \<in> used_ids E u"
      "\<exists>i g. r = copied_row i w p nm (map_row src) now g"
      by (rule copy_node_ok [OF E less.prems(2,3) src(1) place])
    let ?kids = "if n_kind src = DIRECTORY_KIND
         then map (\<lambda>c. (c, n_id r, n_name c)) (fetch_children u w (n_id src)) else []"
    let ?kps = "if n_kind src = DIRECTORY_KIND
         then map (\<lambda>c. ys @ [n_name c]) (fetch_children u w (n_id src)) else []"
    let ?rc = "case root_copy of None \<Rightarrow> Some (map_row r) | Some n \<Rightarrow> Some n"
    obtain i g where r: "r = copied_row i w p nm (map_row src) now g" using u(6) by blast
    have nxt: "copying w s0 dp tp (List.rev ?kids @ rest) (List.rev ?kps @ ps') u"
      by (rule copying_step [OF less.prems(2) u(2) inv [unfolded src(2)] u(4) r sep])
    have kp: "\<exists>x. k = ys @ [x]" if "k \<in> set ?kps" for k using that by (auto split: if_splits)
    have "to_copy w s0 dp (List.rev ?kps @ ps') \<subseteq> to_copy w s0 dp ps"
      using kp by (fastforce simp: to_copy_def pending_def ps prefix_def)
    moreover have "ys \<in> to_copy w s0 dp ps" using it(1) by (simp add: to_copy_def pending_def ps)
    moreover have "ys \<notin> to_copy w s0 dp (List.rev ?kps @ ps')"
      using kp D(2,3) by (fastforce simp: to_copy_def pending_def)
    ultimately have fewer: "card (to_copy w s0 dp (List.rev ?kps @ ps')) < card (to_copy w s0 dp ps)"
      by (intro psubset_card_mono finite_to_copy [OF tree]) blast
    have look: "lookup_segs u w (tp @ ys) = Some (map_row r)" and only: "only_path s u w (tp @ ys)"
      using copied_only_path [OF less.prems(2) u(2,4) _ _ _ q(1,3)] q(2) it(3,4)
        \<open>fetch_child s w (n_id q) nm = None\<close> by (simp_all add: r)
    have rc: "case ?rc of None \<Rightarrow> List.rev ?kps @ ps' = [[]] | Some n \<Rightarrow> lookup_segs u w tp = Some n"
    proof (cases root_copy)
      case None
      then have "ys = []" using less.prems(5) ps by simp
      with None look show ?thesis by simp
    next
      case (Some n)
      then have "lookup_segs s w tp = Some n" using less.prems(5) by simp
      moreover from this have "tp \<noteq> tp @ ys" using \<open>lookup_segs s w (tp @ ys) = None\<close> by auto
      ultimately show ?thesis using only Some by (simp add: only_path_def)
    qed
    have "changes u = changes s" "workspaces u = workspaces s" using u(4) by (simp_all add: copied_def)
    moreover have "?rc \<noteq> None" by (cases root_copy) simp_all
    then obtain n t where t: "copy_loop E w now (List.rev ?kids @ rest) ?rc u = Some (n, t)" "wf E t" "sizes_fit t"
      "copying w s0 dp tp [] [] t" "lookup_segs t w tp = Some n" "changes t = changes u" "workspaces t = workspaces u"
      using less.hyps [OF fewer nxt u(2,3) _ rc] by blast
    have "copy_loop E w now stack root_copy s = copy_loop E w now (List.rev ?kids @ rest) ?rc u"
      by (subst copy_loop.simps) (simp only: Cons item src(2) list.case fst_conv snd_conv u(1) bind_simps Option.bind.simps)
    ultimately show ?thesis using t by auto
  qed
qed

subsection \<open>copy\<close>

lemma vacate_attributes:
  assumes ok: "wf E s" and p: "lookup_segs s w pp = Some p" "n_kind p = DIRECTORY_KIND"
    and t: "(case fetch_child s w (n_id p) nm of Some n \<Rightarrow> purge_subtree (n_id n) s | None \<Rightarrow> Some s) = Some t"
    and j: "j \<in> n_id ` set (nodes t)"
  shows "attribute_of t j = attribute_of s j"
proof (cases "fetch_child s w (n_id p) nm")
  case None
  with t show ?thesis by simp
next
  case (Some e)
  have e: "lookup_segs s w (pp @ [nm]) = Some e" using lookup_child [OF p] Some by simp
  obtain r where r: "r \<in> set (nodes s)" "e = map_row r" by (rule lookup_row [OF e])
  then have i: "n_id e \<in> n_id ` set (nodes s)" by auto
  have t': "t = purged (n_id e) s" using t Some purged_cut(3) [OF ok e] by simp
  have "\<not> below (nodes s) (n_id e) j" using j by (auto simp: t' purged_rows(1) [OF i])
  then have same: "(\<lambda>a. \<not> below (nodes s) (n_id e) (a_node_id a) \<and> a_node_id a = j \<and> a_key a = k)
      = (\<lambda>a. a_node_id a = j \<and> a_key a = k)" for k by auto
  show ?thesis by (intro ext) (simp only: attribute_of_def t' purged_rows(2) [OF i] find_filter same)
qed

definition deep_copied :: "db \<Rightarrow> db \<Rightarrow> uuid \<Rightarrow> string list \<Rightarrow> string list \<Rightarrow> raw_node \<Rightarrow> bool" where
  "deep_copied s t w dp tp n \<longleftrightarrow>
     lookup_segs t w tp = Some n \<and>
     (\<forall>w' xs.
        if w' = w \<and> prefix tp xs then mirrored w s (dp @ drop (length tp) xs) t xs
        else lookup_segs t w' xs = lookup_segs s w' xs \<and>
          (\<forall>bs. file_at s w' xs bs \<longrightarrow> file_at t w' xs bs))"

definition copy_done ::
    "db \<Rightarrow> db \<Rightarrow> uuid \<Rightarrow> virtual_path \<Rightarrow> virtual_path \<Rightarrow> copy_options \<Rightarrow> string \<Rightarrow> raw_node \<Rightarrow> bool" where
  "copy_done s t w from_path to_path options aj n \<longleftrightarrow>
     (\<exists>d dp p pp pq nm. resolve_following s w from_path False = RFound d \<and>
        lookup_segs s w dp = Some d \<and> (n_kind d = DIRECTORY_KIND \<longrightarrow> cpo_recursive options) \<and>
        vp_parent to_path = Some pq \<and> resolve_following s w pq True = RFound p \<and>
        lookup_segs s w pp = Some p \<and> n_kind p = DIRECTORY_KIND \<and> vp_name to_path = Some nm \<and>
        \<not> stale (cpo_expected_revision options) d \<and>
        (lookup_segs s w (pp @ [nm]) \<noteq> None \<longrightarrow> cpo_overwrite options) \<and>
        logged s t w Copied (n_id n) (Some (as_str from_path)) (Some (as_str to_path)) (Some 1) aj \<and>
        (\<not> prefix dp pp \<and> \<not> prefix (pp @ [nm]) dp \<longrightarrow> deep_copied s t w dp (pp @ [nm]) n))"

text \<open>In the tree, the destination is not inside the source nor the source inside the destination.\<close>

definition apart :: "db \<Rightarrow> uuid \<Rightarrow> virtual_path \<Rightarrow> virtual_path \<Rightarrow> bool" where
  "apart s w from_path to_path \<longleftrightarrow>
     (\<forall>d dp p pp pq nm. resolve_following s w from_path False = RFound d \<longrightarrow> lookup_segs s w dp = Some d \<longrightarrow>
        vp_parent to_path = Some pq \<longrightarrow> resolve_following s w pq True = RFound p \<longrightarrow>
        lookup_segs s w pp = Some p \<longrightarrow> vp_name to_path = Some nm \<longrightarrow>
        \<not> prefix dp pp \<and> \<not> prefix (pp @ [nm]) dp)"

lemma prefix_apart:
  assumes "\<not> prefix dp pp" "\<not> prefix (pp @ [nm]) dp"
  shows "\<not> prefix (pp @ [nm]) (dp @ xs)"
  using assms by (metis prefix_append prefix_order.order_refl prefix_same_cases prefix_snoc prefixI)

lemma copy_start:
  assumes s: "lookup_segs s w dp = Some d" and p: "lookup_segs s w pp = Some p" "n_kind p = DIRECTORY_KIND"
    and nm: "valid_seg nm" "fetch_child s w (n_id p) nm = None"
  shows "copying w s dp (pp @ [nm]) [(d, n_id p, nm)] [[]] s"
proof -
  have none: "lookup_segs s w (pp @ [nm]) = None" using lookup_child [OF p] nm by simp
  then have "lookup_segs s w ((pp @ [nm]) @ xs) = None" for xs
    by (metis lookup_prefix option.exhaust option.distinct(1))
  then show ?thesis
    unfolding copying_def using assms by (simp add: item_for_def pending_def)
qed

text \<open>The guards of the code, before anything is changed.\<close>

lemma copy_tx_guards:
  assumes ok: "wf E s" and to: "canonical to_path"
  obtains (refused) res where "copy_tx E w from_path to_path options aj s = Some (res, s)" "\<And>n. res \<noteq> CopyCreated n"
  | (go) d dp p pp pq nm s1 where
    "resolve_following s w from_path False = RFound d" "lookup_segs s w dp = Some d"
    "n_kind d = DIRECTORY_KIND \<longrightarrow> cpo_recursive options" "\<not> stale (cpo_expected_revision options) d"
    "vp_parent to_path = Some pq" "resolve_following s w pq True = RFound p" "lookup_segs s w pp = Some p"
    "n_kind p = DIRECTORY_KIND" "vp_name to_path = Some nm" "valid_seg nm"
    "lookup_segs s w (pp @ [nm]) \<noteq> None \<longrightarrow> cpo_overwrite options"
    "(case fetch_child s w (n_id p) nm of Some n \<Rightarrow> purge_subtree (n_id n) s | None \<Rightarrow> Some s) = Some s1"
    "wf E s1" "cut s s1 w (pp @ [nm])" "set (nodes s1) \<subseteq> set (nodes s)" "changes s1 = changes s"
    "workspaces s1 = workspaces s" "lookup_segs s1 w pp = Some p" "fetch_child s1 w (n_id p) nm = None"
    "copy_tx E w from_path to_path options aj s =
      (let now = clock_ms E (clock_reads s); s2 = s1\<lparr>clock_reads := Suc (clock_reads s)\<rparr>
       in Option.bind (copy_subtree E w d (n_id p) nm now s2) (\<lambda>(n, s).
          Option.bind (append_change w Copied (Some (n_id n)) (Some (as_str from_path))
            (Some (as_str to_path)) (Some 1) aj now s) (\<lambda>s. Some (CopyCreated n, s))))"
proof (cases "\<exists>d. resolve_following s w from_path False = RFound d \<and> \<not> stale (cpo_expected_revision options) d \<and>
    (n_kind d = DIRECTORY_KIND \<longrightarrow> cpo_recursive options)")
  case False
  then have "\<exists>res. copy_tx E w from_path to_path options aj s = Some (res, s) \<and> (\<forall>n. res \<noteq> CopyCreated n)"
    by (auto simp: copy_tx_def split: resolve_outcome.splits)
  then show thesis using refused by blast
next
  case True
  then obtain d where d: "resolve_following s w from_path False = RFound d" "\<not> stale (cpo_expected_revision options) d"
    "n_kind d = DIRECTORY_KIND \<longrightarrow> cpo_recursive options" by blast
  obtain dp where dp: "lookup_segs s w dp = Some d"
    using resolve_following_reachable [OF wfD(2) [OF ok] d(1)] by (auto simp: reachable_def)
  show thesis
  proof (cases rule: resolve_destinationE [OF ok to, of w, case_names ready failed])
    case (failed x)
    then have "\<exists>res. copy_tx E w from_path to_path options aj s = Some (res, s) \<and> (\<forall>n. res \<noteq> CopyCreated n)"
      using d by (cases x) (auto simp: copy_tx_def)
    then show thesis using refused by blast
  next
    case (ready p pp nm)
    obtain pq where pq: "vp_parent to_path = Some pq" using ready(2) to by (metis vp_name_SomeE)
    show thesis
    proof (cases "fetch_child s w (n_id p) nm \<noteq> None \<and> \<not> cpo_overwrite options")
      case True
      then have "copy_tx E w from_path to_path options aj s = Some (CopyDestAlreadyExists, s)"
        using d ready(1) by (auto simp: copy_tx_def)
      then show thesis using refused by blast
    next
      case False
      obtain s1 where s1: "(case fetch_child s w (n_id p) nm of Some n \<Rightarrow> purge_subtree (n_id n) s
          | None \<Rightarrow> Some s) = Some s1"
        "wf E s1" "cut s s1 w (pp @ [nm])" "set (nodes s1) \<subseteq> set (nodes s)" "changes s1 = changes s"
        "workspaces s1 = workspaces s" "ids_used s1 = ids_used s" "clock_reads s1 = clock_reads s"
        "lookup_segs s1 w pp = Some p" "fetch_child s1 w (n_id p) nm = None"
        by (rule vacate [OF ok ready(4,5)])
      have "copy_tx E w from_path to_path options aj s =
        (let now = clock_ms E (clock_reads s); s2 = s1\<lparr>clock_reads := Suc (clock_reads s)\<rparr>
         in Option.bind (copy_subtree E w d (n_id p) nm now s2) (\<lambda>(n, s).
            Option.bind (append_change w Copied (Some (n_id n)) (Some (as_str from_path))
              (Some (as_str to_path)) (Some 1) aj now s) (\<lambda>s. Some (CopyCreated n, s))))"
        using d False ready(1,2) s1(1,8)
        by (auto simp: copy_tx_def now_ms_def Let_def split: option.splits)
      moreover have "lookup_segs s w (pp @ [nm]) \<noteq> None \<longrightarrow> cpo_overwrite options"
        using False lookup_child [OF ready(4,5)] by auto
      ultimately show thesis
        using go [OF d(1) dp d(3,2) pq ready(6) [OF pq] ready(4,5,2,3) _ s1(1-6,9,10)] by blast
    qed
  qed
qed

text \<open>The end of the transaction, once the loop has returned.\<close>

lemma copy_end:
  assumes ok: "wf E t1" and w: "w \<in> w_id ` set (workspaces t1)" and n: "n_id n \<in> used_ids E t1"
    and path: "canonical from_path" "canonical to_path" and c: "changes t1 = changes s"
  obtains t where "append_change w Copied (Some (n_id n)) (Some (as_str from_path))
      (Some (as_str to_path)) (Some 1) aj now t1 = Some t" "wf E t"
    "logged s t w Copied (n_id n) (Some (as_str from_path)) (Some (as_str to_path)) (Some 1) aj"
    "nodes t = nodes t1" "chunks t = chunks t1" "attributes t = attributes t1"
    "w_id ` set (workspaces t) = w_id ` set (workspaces t1)"
proof -
  obtain t where t: "append_change w Copied (Some (n_id n)) (Some (as_str from_path))
      (Some (as_str to_path)) (Some 1) aj now t1 = Some t" "wf E t"
    "logged t1 t w Copied (n_id n) (Some (as_str from_path)) (Some (as_str to_path)) (Some 1) aj"
    "nodes t = nodes t1" "chunks t = chunks t1" "attributes t = attributes t1"
    "w_id ` set (workspaces t) = w_id ` set (workspaces t1)"
    by (rule log_step [OF ok w n, of "Some (as_str from_path)" "Some (as_str to_path)" "Some 1"]) (use path in auto)
  with c that show thesis by (simp add: logged_def)
qed

lemma copy_subtree_wf:
  assumes E: "ext_ok E" and ok: "wf E s" and fit: "sizes_fit s"
    and p: "lookup_segs s w pp = Some p" "n_kind p = DIRECTORY_KIND" "valid_seg nm" "fetch_child s w (n_id p) nm = None"
    and run: "copy_subtree E w d (n_id p) nm now s = Some (n, t)"
  shows "wf E t" "n_id n \<in> used_ids E t" "changes t = changes s" "workspaces t = workspaces s" "sizes_fit t"
proof -
  from run obtain m where m: "fetch_by_id s w (n_id d) = Some m"
    "copy_loop E w now [(m, n_id p, nm)] None s = Some (n, t)"
    by (auto simp: copy_subtree_def fetch_full_def split: bind_splits)
  have "stack_ok s w [(m, n_id p, nm)]"
    using fetch_stored(3) [OF m(1)] free_placeI [OF p] by (simp add: stack_ok_def)
  from copy_loop_wf [OF m(2) E ok fit this]
  show "wf E t" "n_id n \<in> used_ids E t" "changes t = changes s" "workspaces t = workspaces s" "sizes_fit t" by auto
qed

theorem copy_tx_wf:
  assumes E: "ext_ok E" and ok: "wf E s" and fit: "sizes_fit s" and path: "canonical from_path" "canonical to_path"
    and run: "copy_tx E w from_path to_path options aj s = Some (res, t)"
  shows "wf E t \<and> sizes_fit t \<and> w_id ` set (workspaces t) = w_id ` set (workspaces s) \<and>
    ((\<forall>n. res \<noteq> CopyCreated n) \<longrightarrow> t = s)"
proof (cases rule: copy_tx_guards [OF ok path(2), of w from_path options aj, case_names refused go])
case (refused r)
  with run ok fit show ?thesis by auto
next
  case (go d dp p pp pq nm s1)
  define now where "now = clock_ms E (clock_reads s)"
  define s2 where "s2 = s1\<lparr>clock_reads := Suc (clock_reads s)\<rparr>"
  have w2: "wf E s2" using go(13) by (simp add: s2_def)
  have fit2: "sizes_fit s2" using fit go(15) by (auto simp: s2_def sizes_fit_def)
  have p2: "lookup_segs s2 w pp = Some p" "fetch_child s2 w (n_id p) nm = None"
    using go(18,19) lookup_cong [of s2 s1] fetch_cong(2) [of s2 s1] by (simp_all add: s2_def)
  obtain n t1 where t1: "copy_subtree E w d (n_id p) nm now s2 = Some (n, t1)"
    "append_change w Copied (Some (n_id n)) (Some (as_str from_path)) (Some (as_str to_path)) (Some 1) aj now t1 = Some t"
    "res = CopyCreated n"
    using run unfolding go(20) by (auto simp: Let_def now_def s2_def split: bind_splits)
  note c = copy_subtree_wf [OF E w2 fit2 p2(1) go(8,10) p2(2) t1(1)]
  obtain v where "visible s w v" using lookup_visible [OF go(7)] by blast
  then have "w \<in> w_id ` set (workspaces t1)"
    using visible_workspace [OF ok] c(4) go(17) by (simp add: s2_def)
  from copy_end [OF c(1) this c(2) path c(3), of aj now] t1(2)
  have "wf E t" "nodes t = nodes t1" "w_id ` set (workspaces t) = w_id ` set (workspaces t1)"
    by (metis option.inject)+
  with t1(3) c(4,5) go(17) show ?thesis by (simp add: sizes_fit_def s2_def)
qed

text \<open>Apart places: the copy returns, and is deep.\<close>

lemma deep_copied_from_loop:
  assumes cut: "cut s s1 w (pp @ [nm])" and s2: "nodes s2 = nodes s1" "chunks s2 = chunks s1" "attributes s2 = attributes s1"
    and attr: "\<And>j. j \<in> n_id ` set (nodes s1) \<Longrightarrow> attribute_of s1 j = attribute_of s j"
    and fin: "copying w s2 dp (pp @ [nm]) [] [] t1" and n: "lookup_segs t1 w (pp @ [nm]) = Some n"
    and t: "nodes t = nodes t1" "chunks t = chunks t1" "attributes t = attributes t1"
    and sep: "\<not> prefix dp pp" "\<not> prefix (pp @ [nm]) dp"
  shows "deep_copied s t w dp (pp @ [nm]) n"
proof -
  have look: "lookup_segs t = lookup_segs t1" "lookup_segs s2 = lookup_segs s1"
    by (intro ext lookup_cong t(1) s2(1))+
  have ch: "chunk_at t = chunk_at t1" "chunk_at s2 = chunk_at s1" using t(2) s2(2) by (simp_all add: chunk_at_def fun_eq_iff)
  have files: "file_at t = file_at t1" "file_at s2 = file_at s1"
    by (simp_all add: file_at_def look gen_holds_def ch fun_eq_iff)
  have at: "attribute_of t = attribute_of t1" "attribute_of s2 = attribute_of s1"
    by (rule attribute_of_cong [OF t(3)], rule attribute_of_cong [OF s2(3)])
  note D = copyingD [OF fin]
  have mirror: "mirrored w s (dp @ xs) t (pp @ [nm] @ xs)" for xs
  proof -
    have "mirrored w s2 (dp @ xs) t1 ((pp @ [nm]) @ xs)" using spec [OF D(4), of xs] by (simp add: pending_def)
    moreover have "\<not> prefix (pp @ [nm]) (dp @ xs)" by (rule prefix_apart [OF sep])
    then have "lookup_segs s1 w (dp @ xs) = lookup_segs s w (dp @ xs)"
      "\<And>bs. file_at s w (dp @ xs) bs \<Longrightarrow> file_at s1 w (dp @ xs) bs"
      using cut by (auto simp: cut_def)
    moreover have "attribute_of s1 (n_id m) = attribute_of s (n_id m)" if "lookup_segs s1 w (dp @ xs) = Some m" for m
      using lookup_visible [OF that] by (intro attr) (auto simp: visible_def)
    ultimately show ?thesis
      unfolding mirrored_def look files at by (cases "lookup_segs s w (dp @ xs)") auto
  qed
  have frame: "lookup_segs t w' xs = lookup_segs s w' xs \<and> (\<forall>bs. file_at s w' xs bs \<longrightarrow> file_at t w' xs bs)"
    if out: "\<not> (w' = w \<and> prefix (pp @ [nm]) xs)" for w' xs
  proof -
    have "lookup_segs t1 w' xs = lookup_segs s1 w' xs \<and> (\<forall>bs. file_at s1 w' xs bs \<longrightarrow> file_at t1 w' xs bs)"
      using D(5) out unfolding look files by blast
    with cut out show ?thesis by (auto simp: cut_def look files)
  qed
  show ?thesis
    unfolding deep_copied_def
  proof (intro conjI allI)
    show "lookup_segs t w (pp @ [nm]) = Some n" using n by (simp add: look)
    fix w' xs
    show "if w' = w \<and> prefix (pp @ [nm]) xs then mirrored w s (dp @ drop (length (pp @ [nm])) xs) t xs
        else lookup_segs t w' xs = lookup_segs s w' xs \<and> (\<forall>bs. file_at s w' xs bs \<longrightarrow> file_at t w' xs bs)"
    proof (cases "w' = w \<and> prefix (pp @ [nm]) xs")
      case True
      then obtain zs where "xs = (pp @ [nm]) @ zs" by (auto simp: prefix_def)
      with True mirror [of zs] show ?thesis by simp
    next
      case False
      show ?thesis unfolding if_not_P [OF False] by (rule frame [OF False])
    qed
  qed
qed

theorem copy_tx_ok:
  assumes E: "ext_ok E" and ok: "wf E s" and fit: "sizes_fit s" and path: "canonical from_path" "canonical to_path"
    and sep: "apart s w from_path to_path"
  shows "\<exists>res t. copy_tx E w from_path to_path options aj s = Some (res, t) \<and> wf E t \<and>
    (case res of CopyCreated n \<Rightarrow> copy_done s t w from_path to_path options aj n | _ \<Rightarrow> t = s)"
proof (cases rule: copy_tx_guards [OF ok path(2), of w from_path options aj, case_names refused go])
  case (refused r)
  with ok show ?thesis by (cases r) auto
next
  case (go d dp p pp pq nm s1)
  define now where "now = clock_ms E (clock_reads s)"
  define s2 where "s2 = s1\<lparr>clock_reads := Suc (clock_reads s)\<rparr>"
  have n2: "nodes s2 = nodes s1" "chunks s2 = chunks s1" "attributes s2 = attributes s1" by (simp_all add: s2_def)
  have w2: "wf E s2" using go(13) by (simp add: s2_def)
  have fit2: "sizes_fit s2" using fit go(15) by (auto simp: s2_def sizes_fit_def)
  have p2: "lookup_segs s2 w pp = Some p" "fetch_child s2 w (n_id p) nm = None"
    using go(18,19) lookup_cong [OF n2(1)] fetch_cong(2) [OF n2(1)] by simp_all
  have ap: "\<not> prefix dp pp" "\<not> prefix (pp @ [nm]) dp"
    using sep go(1,2,5,6,7,9) unfolding apart_def by blast+
  have d2: "lookup_segs s2 w dp = Some d"
    using go(2,14) ap(2) lookup_cong [OF n2(1)] by (simp add: cut_def)
  have "fetch_by_id s2 w (n_id d) = Some d"
    by (rule fetch_by_id_stored [OF wfD(2) [OF w2] lookup_stored [OF d2]])
  moreover obtain n t1 where t1: "copy_loop E w now [(d, n_id p, nm)] None s2 = Some (n, t1)" "wf E t1" "sizes_fit t1"
    "copying w s2 dp (pp @ [nm]) [] [] t1" "lookup_segs t1 w (pp @ [nm]) = Some n" "changes t1 = changes s2"
    "workspaces t1 = workspaces s2"
    using copy_loop_mirrors [OF E wfD(2) [OF w2] prefix_apart [OF ap] copy_start [OF d2 p2(1) go(8,10) p2(2)] w2 fit2,
        of None now] by auto
  ultimately have sub: "copy_subtree E w d (n_id p) nm now s2 = Some (n, t1)"
    by (simp add: copy_subtree_def fetch_full_def)
  note c = copy_subtree_wf [OF E w2 fit2 p2(1) go(8,10) p2(2) sub]
  obtain v where "visible s w v" using lookup_visible [OF go(7)] by blast
  then have wt: "w \<in> w_id ` set (workspaces t1)"
    using visible_workspace [OF ok] c(4) go(17) by (simp add: s2_def)
  have ch: "changes t1 = changes s" using t1(6) go(16) by (simp add: s2_def)
  obtain t where t: "append_change w Copied (Some (n_id n)) (Some (as_str from_path))
      (Some (as_str to_path)) (Some 1) aj now t1 = Some t" "wf E t"
    "logged s t w Copied (n_id n) (Some (as_str from_path)) (Some (as_str to_path)) (Some 1) aj"
    "nodes t = nodes t1" "chunks t = chunks t1" "attributes t = attributes t1"
    "w_id ` set (workspaces t) = w_id ` set (workspaces t1)"
    by (rule copy_end [OF t1(2) wt c(2) path ch])
  have "deep_copied s t w dp (pp @ [nm]) n"
    by (rule deep_copied_from_loop [OF go(14) n2 _ t1(4,5) t(4-6) ap])
      (rule vacate_attributes [OF ok go(7,8,12)])
  then have "copy_done s t w from_path to_path options aj n"
    unfolding copy_done_def using go(1-9,11) t(3)
    by (intro exI [of _ d] exI [of _ dp] exI [of _ p] exI [of _ pp] exI [of _ pq] exI [of _ nm]) simp
  moreover have "copy_tx E w from_path to_path options aj s = Some (CopyCreated n, t)"
    unfolding go(20) using sub t(1) by (simp add: Let_def now_def s2_def)
  ultimately show ?thesis using t(2) by simp
qed

end
