(* ===== verification/Tame.thy ===== *)
theory Tame
  imports Copy_Loop
begin

text \<open>
  What no mutation but a content write changes: the workspaces, and the bound on the stored
  sizes. The transactions are followed statement by statement; together with their contracts
  this is what a sequence of them needs to go on.
\<close>

definition tame :: "db \<Rightarrow> db \<Rightarrow> bool" where
  "tame s t \<longleftrightarrow> map w_id (workspaces t) = map w_id (workspaces s) \<and>
     n_size ` set (nodes t) \<subseteq> insert 0 (n_size ` set (nodes s))"

lemma tame_refl [simp, intro]: "tame s s"
  by (auto simp: tame_def)

lemma tame_trans [trans]: "tame s t \<Longrightarrow> tame t u \<Longrightarrow> tame s u"
  unfolding tame_def by (elim conjE, intro conjI) (simp, blast)

lemma tame_sizes_fit: "tame s t \<Longrightarrow> sizes_fit s \<Longrightarrow> sizes_fit t"
  unfolding tame_def sizes_fit_def by fastforce

lemma tame_workspaces: "tame s t \<Longrightarrow> w_id ` set (workspaces t) = w_id ` set (workspaces s)"
  unfolding tame_def by (metis list.set_map)

subsection \<open>The statements\<close>

named_theorems tame_stmts

lemma tame_counters [simp]:
  "tame (s\<lparr>clock_reads := k\<rparr>) t = tame s t" "tame (s\<lparr>ids_used := k\<rparr>) t = tame s t"
  by (simp_all add: tame_def)

lemma tame_insert_node [tame_stmts]:
  "insert_node r s = Some t \<Longrightarrow> n_size r = 0 \<Longrightarrow> tame s t"
  by (auto simp: tame_def insert_node_def row_simps)

lemma tame_update_node [tame_stmts]:
  "update_node i f s = Some t \<Longrightarrow> (\<And>r. n_size (f r) = n_size r) \<Longrightarrow> tame s t"
  by (auto simp: tame_def update_node_def row_simps)

lemma tame_append_change [tame_stmts]:
  "append_change w kind i op np rv aj now s = Some t \<Longrightarrow> tame s t"
  by (auto simp: tame_def append_change_def update_workspace_def insert_change_def row_simps split: bind_splits)

lemma tame_other [tame_stmts]:
  "insert_trash x s = Some t \<Longrightarrow> tame s t" "delete_trash P s = Some t \<Longrightarrow> tame s t"
  "upsert_attribute i key val s = Some t \<Longrightarrow> tame s t" "delete_attributes Q s = Some t \<Longrightarrow> tame s t"
  "insert_attributes as s = Some t \<Longrightarrow> tame s t"
  "insert_generation g s = Some t \<Longrightarrow> tame s t" "update_generation i h s = Some t \<Longrightarrow> tame s t"
  "delete_generations R s = Some t \<Longrightarrow> tame s t" "insert_chunks cs s = Some t \<Longrightarrow> tame s t"
  by (auto simp: tame_def insert_trash_def delete_trash_def upsert_attribute_def delete_attributes_def
      insert_attributes_def insert_generation_def update_generation_def delete_generations_def
      drop_generations_def insert_chunks_def Let_def row_simps split: if_splits)

lemma tame_delete_nodes [tame_stmts]: "delete_nodes P s = Some t \<Longrightarrow> tame s t"
  by (auto simp: tame_def delete_nodes_def drop_nodes_def row_simps)

lemma tame_delete_each_generation [tame_stmts]: "delete_each_generation gs s = Some t \<Longrightarrow> tame s t"
proof (induction gs arbitrary: s)
  case (Cons g gs)
  then show ?case
    by (auto simp: delete_generation_def split: bind_splits intro: tame_trans tame_stmts)
qed simp

lemma tame_purge_subtree [tame_stmts]: "purge_subtree i s = Some t \<Longrightarrow> tame s t"
  by (auto simp: purge_subtree_def split: bind_splits intro: tame_trans tame_stmts)

lemma tame_create_directory [tame_stmts]:
  "create_directory E w p name path aj s = Some (n, t) \<Longrightarrow> tame s t"
  by (auto simp: create_directory_def new_id_def now_ms_def Let_def dir_row_def split: bind_splits
      dest!: tame_insert_node tame_append_change intro: tame_trans)

lemma tame_mkdir_ancestors [tame_stmts]:
  "mkdir_ancestors E w options aj d p segs s = Some (r, t) \<Longrightarrow> tame s t"
proof (induction E w options aj d p segs s rule: mkdir_ancestors.induct)
  case (2 E w options aj d p x rest s)
  then show ?case
    by (auto split: if_splits option.splits bind_splits dest: tame_create_directory intro: tame_trans)
qed simp

subsection \<open>The transactions\<close>

lemma tame_mkdir_tx [tame_stmts]: "mkdir_tx E w segs options aj s = Some (res, t) \<Longrightarrow> tame s t"
  by (auto simp: mkdir_tx_def mkdir_leaf_def split: option.splits bind_splits if_splits sum.splits
      dest!: tame_mkdir_ancestors tame_create_directory intro: tame_trans) (meson tame_trans)+

lemma tame_symlink_tx [tame_stmts]: "symlink_tx E w link target options aj s = Some (res, t) \<Longrightarrow> tame s t"
  by (auto simp: symlink_tx_def new_id_def now_ms_def Let_def link_row_def
      split: resolve_outcome.splits option.splits bind_splits if_splits
      dest!: tame_insert_node tame_append_change intro: tame_trans)

lemma tame_set_attribute_tx [tame_stmts]:
  "set_attribute_tx E w path key val options aj s = Some (res, t) \<Longrightarrow> tame s t"
  by (auto simp: set_attribute_tx_def now_ms_def Let_def restamp_def
      split: resolve_outcome.splits bind_splits if_splits
      dest!: tame_other(3) tame_update_node tame_append_change intro: tame_trans) (meson tame_trans)+

lemma tame_remove_attribute_tx [tame_stmts]:
  "remove_attribute_tx E w path key options aj s = Some (res, t) \<Longrightarrow> tame s t"
  by (auto simp: remove_attribute_tx_def now_ms_def Let_def restamp_def
      split: resolve_outcome.splits bind_splits if_splits
      dest!: tame_other(4) tame_update_node tame_append_change intro: tame_trans) (meson tame_trans)+

lemma tame_remove_tx [tame_stmts]: "remove_tx E w path options aj s = Some (res, t) \<Longrightarrow> tame s t"
  by (auto simp: remove_tx_def now_ms_def Let_def split: resolve_outcome.splits bind_splits if_splits
      dest!: tame_purge_subtree tame_append_change intro: tame_trans)

lemma tame_purge_tx [tame_stmts]: "purge_tx E w tid aj s = Some (res, t) \<Longrightarrow> tame s t"
  by (auto simp: purge_tx_def now_ms_def Let_def split: option.splits bind_splits
      dest!: tame_purge_subtree tame_append_change intro: tame_trans) (meson tame_trans)+

lemma tame_trash_tx [tame_stmts]: "trash_tx E w path options aj s = Some (res, t) \<Longrightarrow> tame s t"
  by (auto simp: trash_tx_def new_id_def now_ms_def Let_def mark_trashed_def
      split: resolve_outcome.splits bind_splits if_splits
      dest!: tame_other(1) tame_update_node tame_append_change intro: tame_trans)

lemma tame_restore_tx [tame_stmts]: "restore_tx E w tid dest options aj s = Some (res, t) \<Longrightarrow> tame s t"
  by (auto simp: restore_tx_def now_ms_def Let_def put_back_def
      split: option.splits bind_splits if_splits sum.splits
      dest!: tame_other(2) tame_update_node tame_append_change intro: tame_trans) (meson tame_trans)+

lemma tame_move_tx [tame_stmts]: "move_tx E w from_path to_path options aj s = Some (res, t) \<Longrightarrow> tame s t"
  by (auto simp: move_tx_def now_ms_def Let_def rehang_def
      split: option.splits bind_splits if_splits resolve_outcome.splits destination.splits
      dest!: tame_purge_subtree tame_update_node tame_append_change intro: tame_trans) (meson tame_trans)+

lemma tame_touch_tx [tame_stmts]:
  assumes "touch_tx E w path options aj s = Some (res, t)"
  shows "tame s t"
proof -
  have create: "tame s t" if "create_generation E w s = Some (g, t)" for g s t
    using that by (auto simp: create_generation_def new_id_def now_ms_def Let_def split: bind_splits dest!: tame_other(6))
  have fin: "tame s t" if "finalize_generation g k s = Some t" for g k s t
    using that by (auto simp: finalize_generation_def split: bind_splits dest!: tame_other(7))
  have del: "tame s t" if "delete_generation g s = Some t" for g s t
    using that by (auto simp: delete_generation_def split: bind_splits dest!: tame_other(8))
  have fresh: "resolve s2 w path = None" if "resolve s w path = None" "create_generation E w s = Some (g, s1)"
    "finalize_generation g 0 s1 = Some s2" for g s1 s2
  proof -
    have "nodes s2 = nodes s"
      using that(2,3) by (auto simp: create_generation_def finalize_generation_def insert_generation_def
          update_generation_def new_id_def now_ms_def Let_def row_simps split: bind_splits)
    from lookup_cong [OF this] that(1) show ?thesis by (simp add: resolve_lookup)
  qed
  have ftx: "tame s t" if "finalize_tx E w path g 0 params aj s = Some (res, t)" "resolve s w path = None" for g params res s t
    using that by (auto simp: finalize_tx_def finalize_create_def new_id_def now_ms_def Let_def file_row_def
        split: option.splits bind_splits if_splits dest!: tame_insert_node fin tame_append_change intro: tame_trans)
  from assms show ?thesis
    by (auto simp: touch_tx_def now_ms_def Let_def bump_row_def split: option.splits bind_splits if_splits
        dest!: tame_update_node)
      (metis fresh create fin ftx tame_trans)
qed

end
