(* ===== verification/Frames.thy ===== *)
theory Frames
  imports Tame Workspace
begin

text \<open>
  What a mutation does to each table, row by row. The contracts of \<open>Directory\<close>, \<open>Tree_Ops\<close> and
  \<open>Copy_Loop\<close> say which paths a mutation changes; the lemmas here say that no other row of any
  table is touched: which rows are gone, which are new, and that all others are still there
  as they were. The transactions are followed statement by statement.
\<close>

subsection \<open>The row of the workspace\<close>

text \<open>
  The row of the workspace has counted \<open>k\<close> more entries of the feed and has a new time; the rows
  of the other workspaces are as they were.
\<close>

definition counted :: "db \<Rightarrow> db \<Rightarrow> uuid \<Rightarrow> nat \<Rightarrow> bool" where
  "counted s t w k \<longleftrightarrow>
     list_all2 (\<lambda>r q. if w_id r = w
         then \<exists>now. q = r\<lparr>w_change_seq := w_change_seq r + int k, w_updated_at_ms := now\<rparr>
         else q = r)
       (workspaces s) (workspaces t)"

lemma counted_refl [simp]:
  assumes "workspaces t = workspaces s"
  shows "counted s t w 0"
proof -
  have "\<exists>now. r = r\<lparr>w_change_seq := w_change_seq r + int 0, w_updated_at_ms := now\<rparr>" for r :: workspace_row
    by (rule exI [of _ "w_updated_at_ms r"]) simp
  with assms show ?thesis unfolding counted_def by (auto intro!: list.rel_refl_strong simp del: of_nat_0)
qed

lemma counted_cong: "workspaces s' = workspaces s \<Longrightarrow> workspaces t' = workspaces t \<Longrightarrow> counted s' t' w k = counted s t w k"
  by (simp add: counted_def)

lemma counted_trans:
  assumes "counted s t w j" "counted t u w k"
  shows "counted s u w (j + k)"
  unfolding counted_def
proof (rule list_all2_trans [OF _ assms [unfolded counted_def]])
  fix a b c :: workspace_row
  assume b: "if w_id a = w then \<exists>now. b = a\<lparr>w_change_seq := w_change_seq a + int j, w_updated_at_ms := now\<rparr> else b = a"
    and c: "if w_id b = w then \<exists>now. c = b\<lparr>w_change_seq := w_change_seq b + int k, w_updated_at_ms := now\<rparr> else c = b"
  show "if w_id a = w then \<exists>now. c = a\<lparr>w_change_seq := w_change_seq a + int (j + k), w_updated_at_ms := now\<rparr> else c = a"
  proof (cases "w_id a = w")
    case True
    then obtain now where b': "b = a\<lparr>w_change_seq := w_change_seq a + int j, w_updated_at_ms := now\<rparr>" using b by auto
    then have "w_id b = w" using True by simp
    with c obtain now' where "c = b\<lparr>w_change_seq := w_change_seq b + int k, w_updated_at_ms := now'\<rparr>" by auto
    with b' have "c = a\<lparr>w_change_seq := w_change_seq a + int (j + k), w_updated_at_ms := now'\<rparr>"
      by (cases a) (simp add: algebra_simps)
    with True show ?thesis by auto
  next
    case False
    with b c show ?thesis by auto
  qed
qed

lemma append_change_rows:
  assumes "append_change w kind ni op np rv aj now s = Some t"
  shows "nodes t = nodes s" "generations t = generations s" "chunks t = chunks s"
    "attributes t = attributes s" "trash_rows t = trash_rows s" "counted s t w 1"
    "\<exists>sq. changes t = changes s @ [change_rec w sq kind ni op np rv aj now]"
proof -
  obtain sq where t: "t = s\<lparr>workspaces := map (bump_seq w now) (workspaces s),
           changes := changes s @ [change_rec w sq kind ni op np rv aj now]\<rparr>"
    by (rule append_change_Some [OF assms]) blast
  then show "nodes t = nodes s" "generations t = generations s" "chunks t = chunks s"
    "attributes t = attributes s" "trash_rows t = trash_rows s"
    "\<exists>sq. changes t = changes s @ [change_rec w sq kind ni op np rv aj now]" by auto
  show "counted s t w 1"
    unfolding counted_def t by (simp add: list.rel_map bump_seq_def) (auto intro!: list.rel_refl_strong)
qed

subsection \<open>Rows that are gone\<close>

text \<open>
  The nodes with an identifier in \<open>P\<close> are gone, with their attributes, trash records, generations
  and chunks; every other row is still there, as it was and in its place.
\<close>

definition owns_generation :: "db \<Rightarrow> (uuid \<Rightarrow> bool) \<Rightarrow> uuid \<Rightarrow> bool" where
  "owns_generation s P g \<longleftrightarrow> (\<exists>r \<in> set (nodes s). P (n_id r) \<and> n_content_generation_id r = Some g)"

definition cut_rows :: "db \<Rightarrow> db \<Rightarrow> (uuid \<Rightarrow> bool) \<Rightarrow> bool" where
  "cut_rows s t P \<longleftrightarrow>
     nodes t = filter (\<lambda>r. \<not> P (n_id r)) (nodes s) \<and>
     attributes t = filter (\<lambda>a. \<not> P (a_node_id a)) (attributes s) \<and>
     trash_rows t = filter (\<lambda>x. \<not> P (t_node_id x)) (trash_rows s) \<and>
     generations t = filter (\<lambda>g. \<not> owns_generation s P (g_id g)) (generations s) \<and>
     chunks t = filter (\<lambda>c. \<not> owns_generation s P (c_generation_id c)) (chunks s)"

lemma cut_rows_none: "cut_rows s s (\<lambda>x. False)"
  by (simp add: cut_rows_def owns_generation_def)

lemma cut_rows_cong:
  assumes "nodes t = nodes t'" "attributes t = attributes t'" "trash_rows t = trash_rows t'"
    "generations t = generations t'" "chunks t = chunks t'"
    and "nodes s = nodes s'" "attributes s = attributes s'" "trash_rows s = trash_rows s'"
    "generations s = generations s'" "chunks s = chunks s'"
  shows "cut_rows s t P = cut_rows s' t' P"
  using assms by (simp add: cut_rows_def owns_generation_def)

lemma purged_cut_rows:
  assumes ok: "wf E s" and i: "i \<in> n_id ` set (nodes s)"
  shows "cut_rows s (purged i s) (below (nodes s) i)"
proof -
  let ?P = "\<lambda>q :: generation_row. owns_generation s (below (nodes s) i) (g_id q)"
  have fk: "c_generation_id c \<in> g_id ` set (generations s)" if "c \<in> set (chunks s)" for c
    using schema_parts(6) [OF wfD(1) [OF ok]] that unfolding fk_ok_iff by blast
  have p: "purged i s = drop_generations ?P (drop_nodes (cascade (nodes s) [i]) s)"
    by (simp add: purged_def owns_generation_def)
  have "c_generation_id c \<in> set (map g_id (filter ?P (generations s))) \<longleftrightarrow> owns_generation s (below (nodes s) i) (c_generation_id c)"
    if "c \<in> set (chunks s)" for c
    using fk [OF that] by fastforce
  then have "chunks (purged i s) = filter (\<lambda>c. \<not> owns_generation s (below (nodes s) i) (c_generation_id c)) (chunks s)"
    unfolding p by (simp add: drop_generations_def drop_nodes_def Let_def cong: filter_cong)
  moreover have "generations (purged i s) = filter (\<lambda>g. \<not> owns_generation s (below (nodes s) i) (g_id g)) (generations s)"
    by (simp add: purged_def drop_generations_def drop_nodes_def Let_def owns_generation_def)
  ultimately show ?thesis using purged_rows [OF i] by (simp add: cut_rows_def)
qed


lemma cut_rows_step: "nodes t = nodes t' \<Longrightarrow> attributes t = attributes t' \<Longrightarrow> trash_rows t = trash_rows t' \<Longrightarrow>
    generations t = generations t' \<Longrightarrow> chunks t = chunks t' \<Longrightarrow> cut_rows s t' P \<Longrightarrow> cut_rows s t P"
  by (simp add: cut_rows_def)

lemma purge_subtree_rows:
  assumes ok: "wf E s" and r: "r \<in> set (nodes s)" "n_id r = i" "n_parent_id r \<noteq> None"
    and run: "purge_subtree i s = Some t"
  shows "cut_rows s t (below (nodes s) i)" "workspaces t = workspaces s" "changes t = changes s"
proof -
  have t: "t = purged i s" by (rule purge_subtree_wf(2) [OF ok r run])
  have i: "i \<in> n_id ` set (nodes s)" using r by auto
  show "cut_rows s t (below (nodes s) i)" unfolding t by (rule purged_cut_rows [OF ok i])
  show "workspaces t = workspaces s" "changes t = changes s" by (simp_all add: t)
qed

subsection \<open>remove, purge and trash\<close>

text \<open>The tables after a removal: the rows of the subtree are cut out, and nothing else.\<close>

definition removed_rows :: "db \<Rightarrow> db \<Rightarrow> uuid \<Rightarrow> virtual_path \<Rightarrow> bool" where
  "removed_rows s t w path \<longleftrightarrow>
     (\<exists>d. resolve_following s w path False = RFound d \<and> cut_rows s t (below (nodes s) (n_id d)) \<and>
        counted s t w 1)"

lemma remove_tx_rows:
  assumes ok: "wf E s" and path: "canonical path"
    and run: "remove_tx E w path options aj s = Some (RemoveRemoved, t)"
  shows "removed_rows s t w path"
proof -
  from run obtain d s1 where d: "resolve_following s w path False = RFound d" "vp_name path \<noteq> None"
    and s1: "purge_subtree (n_id d) s = Some s1"
    and t: "append_change w Removed (Some (n_id d)) (Some (as_str path)) None None aj
      (clock_ms E (clock_reads s1)) (s1\<lparr>clock_reads := Suc (clock_reads s1)\<rparr>) = Some t"
    by (auto simp: remove_tx_def now_ms_def Let_def split: resolve_outcome.splits bind_splits if_splits)
  obtain dp where dp: "lookup_segs s w dp = Some d" "n_parent_id d \<noteq> None"
    by (rule named_target [OF wfD(2) [OF ok] path d(2,1)])
  obtain r where r: "r \<in> set (nodes s)" "d = map_row r" by (rule reached_rowE [OF ok dp(1)])
  have np: "n_parent_id r \<noteq> None" and i: "n_id r = n_id d" using dp(2) r(2) by simp_all
  note c = purge_subtree_rows [OF ok r(1) i np s1]
  note a = append_change_rows [OF t]
  have "cut_rows s t (below (nodes s) (n_id d))" by (rule cut_rows_step [OF _ _ _ _ _ c(1)]) (simp_all add: a)
  moreover have "counted s t w 1" using a(6) c(2) by (simp add: counted_def)
  ultimately show ?thesis using d(1) unfolding removed_rows_def by blast
qed

text \<open>After a purge the rows of the trashed subtree are cut out, and nothing else.\<close>

definition purged_rows_only :: "db \<Rightarrow> db \<Rightarrow> uuid \<Rightarrow> uuid \<Rightarrow> bool" where
  "purged_rows_only s t w tid \<longleftrightarrow>
     (\<exists>i op nm. fetch_trash_row s w tid = Some (i, op, nm) \<and> cut_rows s t (below (nodes s) i) \<and>
        counted s t w 1)"

lemma purge_tx_rows:
  assumes ok: "wf E s" and run: "purge_tx E w tid aj s = Some (PurgePurged, t)"
  shows "purged_rows_only s t w tid"
proof -
  from run obtain i op nm s1 where f: "fetch_trash_row s w tid = Some (i, op, nm)"
    and s1: "append_change w Purged (Some i) None None None aj (clock_ms E (clock_reads s))
      (s\<lparr>clock_reads := Suc (clock_reads s)\<rparr>) = Some s1"
    and t: "purge_subtree i s1 = Some t"
    by (auto simp: purge_tx_def now_ms_def Let_def split: option.splits bind_splits)
  obtain r where r: "r \<in> set (nodes s)" "n_id r = i" "n_parent_id r = Some op"
    and u: "i \<in> used_ids E s" "w \<in> w_id ` set (workspaces s)"
    by (rule fetch_trash_row_Some [OF ok f])
  have w0: "wf E (s\<lparr>clock_reads := Suc (clock_reads s)\<rparr>)" using ok by simp
  obtain s1' where "append_change w Purged (Some i) None None None aj (clock_ms E (clock_reads s))
      (s\<lparr>clock_reads := Suc (clock_reads s)\<rparr>) = Some s1'" "wf E s1'"
    by (rule log_step [OF w0, of w i None None None]) (use u in \<open>auto simp: used_ids_def\<close>)
  with s1 have w1: "wf E s1" by simp
  note a = append_change_rows [OF s1, simplified]
  have "cut_rows s1 t (below (nodes s1) i)" "workspaces t = workspaces s1"
    by (rule purge_subtree_rows [OF w1 _ r(2) _ t]; use r a(1) in simp)+
  moreover have "cut_rows s1 t P = cut_rows s t P" for P by (rule cut_rows_cong) (simp_all add: a)
  ultimately show ?thesis using a(1,6) f by (auto simp: purged_rows_only_def counted_def)
qed

text \<open>Trashing leaves the attributes and the other workspaces alone.\<close>

lemma trash_tx_rows:
  assumes run: "trash_tx E w path options aj s = Some (TrashTrashed tid d now, t)"
  shows "attributes t = attributes s" "counted s t w 1"
proof -
  from run obtain x f s1 s2 where s1: "insert_trash x (s\<lparr>ids_used := Suc (ids_used s), clock_reads := Suc (clock_reads s)\<rparr>) = Some s1"
    and s2: "update_node (n_id d) f s1 = Some s2"
    and t: "append_change w Trashed (Some (n_id d)) (Some (as_str path)) None (Some (n_revision d)) aj now s2 = Some t"
    by (auto simp: trash_tx_def new_id_def now_ms_def Let_def split: resolve_outcome.splits bind_splits if_splits)
  note a = append_change_rows [OF t]
  have "attributes s2 = attributes s" "workspaces s2 = workspaces s"
    using s1 s2 by (auto simp: insert_trash_def update_node_def row_simps)
  with a(4,6) show "attributes t = attributes s" "counted s t w 1" by (simp_all add: counted_def)
qed


subsection \<open>move\<close>

text \<open>The subtree at a place of the tree cut out of the tables; nothing to do where there is none.\<close>

definition vacated :: "db \<Rightarrow> db \<Rightarrow> uuid \<Rightarrow> string list \<Rightarrow> bool" where
  "vacated s u w xs \<longleftrightarrow>
     cut_rows s u (\<lambda>i. \<exists>e. lookup_segs s w xs = Some e \<and> below (nodes s) (n_id e) i)"

lemma vacate_rows:
  assumes ok: "wf E s" and p: "lookup_segs s w pp = Some p" "n_kind p = DIRECTORY_KIND"
    and t: "(case fetch_child s w (n_id p) nm of Some n \<Rightarrow> purge_subtree (n_id n) s | None \<Rightarrow> Some s) = Some t"
  shows "vacated s t w (pp @ [nm])" "workspaces t = workspaces s" "changes t = changes s"
proof -
  note l = lookup_child [OF p, of nm]
  have "vacated s t w (pp @ [nm]) \<and> workspaces t = workspaces s \<and> changes t = changes s"
  proof (cases "fetch_child s w (n_id p) nm")
    case None
    with t have "t = s" by simp
    with None show ?thesis using cut_rows_none [of s] by (simp add: vacated_def l)
  next
    case (Some e)
    have e: "lookup_segs s w (pp @ [nm]) = Some e" using Some l by simp
    obtain q where "n_parent_id e = Some q" by (rule lookup_parentE [OF wfD(2) [OF ok] e]) blast
    moreover obtain r where r: "r \<in> set (nodes s)" "e = map_row r" by (rule lookup_row [OF e])
    ultimately have np: "n_parent_id r \<noteq> None" and i: "n_id r = n_id e" by simp_all
    have "purge_subtree (n_id e) s = Some t" using t Some by simp
    note c = purge_subtree_rows [OF ok r(1) i np this]
    then show ?thesis by (simp add: vacated_def e)
  qed
  then show "vacated s t w (pp @ [nm])" "workspaces t = workspaces s" "changes t = changes s" by blast+
qed

lemma cut_trans:
  assumes "cut s u w tp" "prefix dp tp" "cut u t w dp"
  shows "cut s t w dp"
  unfolding cut_def
proof (intro allI)
  fix w' xs
  show "if w' = w \<and> prefix dp xs then lookup_segs t w' xs = None
    else lookup_segs t w' xs = lookup_segs s w' xs \<and> (\<forall>bs. file_at s w' xs bs \<longrightarrow> file_at t w' xs bs)"
  proof (cases "w' = w \<and> prefix dp xs")
    case False
    then have "\<not> (w' = w \<and> prefix tp xs)" using assms(2) prefix_order.trans by blast
    with assms(1,3) False show ?thesis by (simp add: cut_def)
  qed (use assms(3) in \<open>simp add: cut_def\<close>)
qed

text \<open>A subtree hung below itself is on no path any more, and nothing else is hidden.\<close>

lemma hung_inside_cut:
  assumes ok: "tree_ok s" "tree_ok t" and d: "lookup_segs s w dp = Some d" "dp \<noteq> []"
    and p: "lookup_segs s w pp = Some p" "prefix dp pp"
    and t: "nodes t = upd (n_id d) (rehang (n_id p) nm v now) (nodes s)" "chunks t = chunks s"
  shows "cut s t w dp"
proof -
  obtain r where r: "r \<in> set (nodes s)" "d = map_row r" "n_workspace_id r = w" "active r" by (rule lookup_row [OF d(1)])
  have i: "n_id d = n_id r" using r(2) by simp
  have vis: "visible t w' q \<longleftrightarrow> visible s w' q \<and> n_id q \<noteq> n_id d \<or> w' = w \<and> q = rehang (n_id p) nm v now r" for w' q
    unfolding visible_def t i upd_rows [OF ok(1) r(1)] using r(3,4) by auto
  have dp: "below (nodes s) (n_id d) (n_id p)" using path_below [OF ok(1) d(1) p(1)] p(2) by simp
  show ?thesis
  proof (rule cutI)
    show "lookup_segs t w xs = (if prefix dp xs then None else lookup_segs s w xs)" for xs
    proof (rule hide_lookup [OF ok d])
      show "visible t w q \<Longrightarrow> n_id q \<noteq> n_id d \<Longrightarrow> visible s w q" for q
        unfolding vis using i by auto
      show "visible t w q \<Longrightarrow> n_id q = n_id d \<Longrightarrow> \<exists>x. n_parent_id q = Some x \<and> below (nodes s) (n_id d) x" for q
        unfolding vis using dp by auto
      show "visible s w q \<Longrightarrow> \<not> below (nodes s) (n_id d) (n_id q) \<Longrightarrow> visible t w q" for q
        unfolding vis using path_below [OF ok(1) d(1) d(1)] by auto
    qed
    show "lookup_segs t w' xs = lookup_segs s w' xs" if "w' \<noteq> w" for w' xs
    proof -
      have "visible t w' q \<longleftrightarrow> visible s w' q" for q
        unfolding vis using that i r(3) row_id_eq [OF ok(1) _ r(1), of q] by (auto simp: visible_def)
      from lookup_visible_cong [OF ok this] show ?thesis by simp
    qed
  qed (simp add: chunk_at_def t)
qed

text \<open>
  The tables after a move: what was at the destination is cut out, then the row of the source,
  if it is still there, gets its new place, revision and time. On the paths this is a subtree
  moved, unless the destination is the source itself or above it, and the source went away
  with what was overwritten, or the destination is inside the source, and the source hangs below
  itself where no path leads.
\<close>

definition move_effect ::
    "db \<Rightarrow> db \<Rightarrow> uuid \<Rightarrow> virtual_path \<Rightarrow> virtual_path \<Rightarrow> raw_node \<Rightarrow> bool" where
  "move_effect s t w from_path to_path n \<longleftrightarrow>
     (\<exists>d dp p pp pq nm u. resolve_following s w from_path False = RFound d \<and> lookup_segs s w dp = Some d \<and>
        vp_parent to_path = Some pq \<and> resolve_following s w pq True = RFound p \<and>
        lookup_segs s w pp = Some p \<and> vp_name to_path = Some nm \<and>
        vacated s u w (pp @ [nm]) \<and>
        nodes t = map (\<lambda>r. if n_id r = n_id d
          then r\<lparr>n_parent_id := Some (n_id p), n_name := nm, n_revision := n_revision d + 1,
                n_modified_at_ms := n_modified_at_ms n\<rparr> else r) (nodes u) \<and>
        attributes t = attributes u \<and> trash_rows t = trash_rows u \<and> generations t = generations u \<and>
        chunks t = chunks u \<and> counted s t w 1 \<and>
        (if prefix (pp @ [nm]) dp then cut s t w (pp @ [nm])
         else if prefix dp pp then cut s t w dp
         else moved s t w dp (pp @ [nm]) n))"

lemma move_tx_effect:
  assumes ok: "wf E s" and path: "canonical from_path" "canonical to_path"
    and run: "move_tx E w from_path to_path options aj s = Some (MoveMoved n, t)"
  shows "move_effect s t w from_path to_path n"
proof -
  obtain res t' where m: "move_tx E w from_path to_path options aj s = Some (res, t')" "wf E t'"
    "case res of MoveMoved n \<Rightarrow> move_done s t' w from_path to_path options aj n | _ \<Rightarrow> t' = s"
    using move_tx_ok [OF ok path, of w options aj] by blast
  with run have wt: "wf E t" and md: "move_done s t w from_path to_path options aj n" by auto
  then obtain d dp p pp pq nm where
    d: "resolve_following s w from_path False = RFound d" "lookup_segs s w dp = Some d" "dp \<noteq> []"
    and p: "vp_parent to_path = Some pq" "resolve_following s w pq True = RFound p"
      "lookup_segs s w pp = Some p" "n_kind p = DIRECTORY_KIND" "vp_name to_path = Some nm"
    and mv: "\<not> prefix dp pp \<and> \<not> prefix (pp @ [nm]) dp \<longrightarrow> moved s t w dp (pp @ [nm]) n"
    unfolding move_done_def by blast
  have dest: "resolve_destination s w to_path = Some (DestReady (n_id p) (fetch_child s w (n_id p) nm))"
    using p by (simp add: resolve_destination_def)
  from run obtain u s2 now where
    u: "(case fetch_child s w (n_id p) nm of Some n \<Rightarrow> purge_subtree (n_id n) s | None \<Rightarrow> Some s) = Some u"
    and s2: "update_node (n_id d) (rehang (n_id p) nm (n_revision d + 1) now) (u\<lparr>clock_reads := Suc (clock_reads u)\<rparr>) = Some s2"
    and t: "append_change w Moved (Some (n_id d)) (Some (as_str from_path)) (Some (as_str to_path))
      (Some (n_revision d + 1)) aj now s2 = Some t"
    and n: "n_modified_at_ms n = now"
    unfolding move_tx_def d(1) dest
    by (auto simp: p(5) now_ms_def Let_def split: bind_splits if_splits)
  note v = vacate_rows [OF ok p(3,4) u]
  obtain u' where u': "(case fetch_child s w (n_id p) nm of Some n \<Rightarrow> purge_subtree (n_id n) s | None \<Rightarrow> Some s) = Some u'"
    "wf E u'" "cut s u' w (pp @ [nm])" "lookup_segs u' w pp = Some p"
    by (rule vacate [OF ok p(3,4), of nm])
  with u have wu: "wf E u" and cu: "cut s u w (pp @ [nm])" and pu: "lookup_segs u w pp = Some p" by simp_all
  note a = append_change_rows [OF t]
  have s2': "s2 = u\<lparr>clock_reads := Suc (clock_reads u), nodes := upd (n_id d) (rehang (n_id p) nm (n_revision d + 1) now) (nodes u)\<rparr>"
    using s2 by (simp add: update_node_upd row_simps)
  have nt: "nodes t = upd (n_id d) (rehang (n_id p) nm (n_revision d + 1) now) (nodes u)" and ct: "chunks t = chunks u"
    and rest: "attributes t = attributes u" "trash_rows t = trash_rows u" "generations t = generations u"
    by (simp_all add: a s2')
  have "counted s t w 1" using a(6) v(2) by (simp add: counted_def s2')
  moreover have "if prefix (pp @ [nm]) dp then cut s t w (pp @ [nm])
         else if prefix dp pp then cut s t w dp else moved s t w dp (pp @ [nm]) n"
  proof (cases "prefix (pp @ [nm]) dp")
    case True
    have gone: "n_id d \<notin> n_id ` set (nodes u)"
    proof
      assume "n_id d \<in> n_id ` set (nodes u)"
      then obtain r where r: "r \<in> set (nodes u)" "n_id r = n_id d" by auto
      obtain e where e: "lookup_segs s w (pp @ [nm]) = Some e"
        using True d(2) lookup_prefix by (metis prefix_def)
      have "below (nodes s) (n_id e) (n_id d)" using path_below [OF wfD(2) [OF ok] e d(2)] True by simp
      with r v(1) e show False by (auto simp: vacated_def cut_rows_def)
    qed
    then have "nodes t = nodes u" by (simp add: nt upd_absent)
    with True cu cut_cong [of t u] ct show ?thesis by simp
  next
    case False
    show ?thesis
    proof (cases "prefix dp pp")
      case True
      have du: "lookup_segs u w dp = Some d" using cu False d(2) by (simp add: cut_def)
      have "cut u t w dp"
        by (rule hung_inside_cut [OF wfD(2) [OF wu] wfD(2) [OF wt] du d(3) pu True nt ct])
      moreover have "prefix dp (pp @ [nm])" using True by simp
      ultimately have "cut s t w dp" using cut_trans [OF cu] by blast
      with False True show ?thesis by simp
    qed (use False mv in simp)
  qed
  ultimately show ?thesis
    unfolding move_effect_def using d(1,2) p(1-3,5) v(1) nt rest ct
    by (intro exI [of _ d] exI [of _ dp] exI [of _ p] exI [of _ pp] exI [of _ pq] exI [of _ nm] exI [of _ u])
      (simp add: upd_def rehang_def n)
qed


subsection \<open>copy\<close>

text \<open>
  Rows were added at the end of the tables: nodes and generations of the workspace, chunks of the
  new generations and attributes of the new nodes. Every row that was there is as it was.
\<close>

definition appended :: "db \<Rightarrow> db \<Rightarrow> uuid \<Rightarrow> bool" where
  "appended s t w \<longleftrightarrow>
     (\<exists>ns gs cs as. nodes t = nodes s @ ns \<and> generations t = generations s @ gs \<and>
        chunks t = chunks s @ cs \<and> attributes t = attributes s @ as \<and> trash_rows t = trash_rows s \<and>
        list_all (\<lambda>r. n_workspace_id r = w) ns \<and> list_all (\<lambda>g. g_workspace_id g = w) gs \<and>
        list_all (\<lambda>c. c_generation_id c \<in> g_id ` set gs) cs \<and>
        list_all (\<lambda>a. a_node_id a \<in> n_id ` set ns) as)"

lemma appendedI:
  assumes "nodes t = nodes s @ ns" "generations t = generations s @ gs" "chunks t = chunks s @ cs"
    "attributes t = attributes s @ as" "trash_rows t = trash_rows s"
    "list_all (\<lambda>r. n_workspace_id r = w) ns" "list_all (\<lambda>g. g_workspace_id g = w) gs"
    "list_all (\<lambda>c. c_generation_id c \<in> g_id ` set gs) cs" "list_all (\<lambda>a. a_node_id a \<in> n_id ` set ns) as"
  shows "appended s t w"
  using assms unfolding appended_def by blast

lemma appended_refl: "appended s s w"
  by (rule appendedI [where ns = "[]" and gs = "[]" and cs = "[]" and as = "[]"]) simp_all

lemma appended_trans:
  assumes "appended s t w" "appended t u w"
  shows "appended s u w"
proof -
  obtain ns gs cs as where a: "nodes t = nodes s @ ns" "generations t = generations s @ gs" "chunks t = chunks s @ cs"
    "attributes t = attributes s @ as" "trash_rows t = trash_rows s"
    "list_all (\<lambda>r. n_workspace_id r = w) ns" "list_all (\<lambda>g. g_workspace_id g = w) gs"
    "list_all (\<lambda>c. c_generation_id c \<in> g_id ` set gs) cs" "list_all (\<lambda>a. a_node_id a \<in> n_id ` set ns) as"
    using assms(1) unfolding appended_def by blast
  obtain ns' gs' cs' as' where b: "nodes u = nodes t @ ns'" "generations u = generations t @ gs'" "chunks u = chunks t @ cs'"
    "attributes u = attributes t @ as'" "trash_rows u = trash_rows t"
    "list_all (\<lambda>r. n_workspace_id r = w) ns'" "list_all (\<lambda>g. g_workspace_id g = w) gs'"
    "list_all (\<lambda>c. c_generation_id c \<in> g_id ` set gs') cs'" "list_all (\<lambda>a. a_node_id a \<in> n_id ` set ns') as'"
    using assms(2) unfolding appended_def by blast
  show ?thesis
    by (rule appendedI [where ns = "ns @ ns'" and gs = "gs @ gs'" and cs = "cs @ cs'" and as = "as @ as'"])
      (use a b in \<open>simp_all add: list_all_iff image_Un ball_Un\<close>)
qed

lemma appended_cong:
  assumes "nodes t = nodes t'" "generations t = generations t'" "chunks t = chunks t'" "attributes t = attributes t'"
    "trash_rows t = trash_rows t'"
  shows "appended s t w = appended s t' w"
  using assms by (simp add: appended_def)

lemma copy_generation_appends:
  assumes "copy_generation E w old s = Some (g, t)"
  shows "\<exists>gs cs. nodes t = nodes s \<and> attributes t = attributes s \<and> trash_rows t = trash_rows s \<and>
    workspaces t = workspaces s \<and> changes t = changes s \<and>
    generations t = generations s @ gs \<and> chunks t = chunks s @ cs \<and>
    list_all (\<lambda>g. g_workspace_id g = w) gs \<and> list_all (\<lambda>c. c_generation_id c \<in> g_id ` set gs) cs"
proof (cases "g")
  case None
  with assms have "t = s" by (auto simp: copy_generation_def split: if_splits option.splits bind_splits)
  then show ?thesis by (intro exI [of _ "[]"]) simp
next
  case (Some i)
  with assms obtain o' s1 s2 where s1: "create_generation E w s = Some (i, s1)"
    and s2: "insert_chunks (map (\<lambda>c. c\<lparr>c_generation_id := i\<rparr>) (filter (\<lambda>c. c_generation_id c = o') (chunks s1))) s1 = Some s2"
    and t: "finalize_generation i (unat (as_u64 (n_size old))) s2 = Some t"
    by (auto simp: copy_generation_def split: if_splits option.splits bind_splits)
  define row where "row = \<lparr>g_id = i, g_workspace_id = w, g_complete = 0, g_length = 0, g_created_at_ms = clock_ms E (clock_reads s)\<rparr>"
  from s1 have c: "schema_ok s1" "generations s1 = generations s @ [row]" "nodes s1 = nodes s" "chunks s1 = chunks s"
    "attributes s1 = attributes s" "trash_rows s1 = trash_rows s" "workspaces s1 = workspaces s" "changes s1 = changes s"
    by (auto simp: create_generation_def new_id_def now_ms_def Let_def insert_generation_def row_simps row_def split: bind_splits)
  have "i \<notin> g_id ` set (generations s)"
    using schema_parts(4) [OF c(1)] by (simp add: c(2) row_def)
  then have same: "map (\<lambda>q. if g_id q = i then f q else q) (generations s) = generations s" for f
    by (intro map_idI) auto
  let ?cs = "map (\<lambda>c. c\<lparr>c_generation_id := i\<rparr>) (filter (\<lambda>c. c_generation_id c = o') (chunks s1))"
  show ?thesis
    by (rule exI [of _ "[row\<lparr>g_complete := 1, g_length := int (unat (as_u64 (n_size old)))\<rparr>]"], rule exI [of _ ?cs])
      (use s2 t c in \<open>auto simp: insert_chunks_def finalize_generation_def update_generation_def row_simps same list_all_iff row_def\<close>)
qed

lemma copy_node_appends:
  assumes "copy_node E w now old p nm s = Some (n, kids, t)"
  shows "appended s t w" "workspaces t = workspaces s" "changes t = changes s"
proof -
  let ?i = "now_v7 E (ids_used s)"
  from assms obtain g s1 s2 where s1: "copy_generation E w old (s\<lparr>ids_used := Suc (ids_used s)\<rparr>) = Some (g, s1)"
    and s2: "insert_node (copied_row ?i w p nm old now g) s1 = Some s2"
    and t: "insert_attributes (map (\<lambda>a. a\<lparr>a_node_id := ?i\<rparr>) (filter (\<lambda>a. a_node_id a = n_id old) (attributes s2))) s2 = Some t"
    by (auto simp: copy_node_def new_id_def Let_def split: bind_splits)
  obtain gs cs where g: "nodes s1 = nodes s" "attributes s1 = attributes s" "trash_rows s1 = trash_rows s"
    "workspaces s1 = workspaces s" "changes s1 = changes s"
    "generations s1 = generations s @ gs" "chunks s1 = chunks s @ cs"
    "list_all (\<lambda>g. g_workspace_id g = w) gs" "list_all (\<lambda>c. c_generation_id c \<in> g_id ` set gs) cs"
    using copy_generation_appends [OF s1] by auto
  show "workspaces t = workspaces s" "changes t = changes s"
    using s2 t g by (auto simp: insert_node_def insert_attributes_def row_simps)
  show "appended s t w"
    by (rule appendedI [where ns = "[copied_row ?i w p nm old now g]" and gs = gs and cs = cs
          and as = "map (\<lambda>a. a\<lparr>a_node_id := ?i\<rparr>) (filter (\<lambda>a. a_node_id a = n_id old) (attributes s2))"])
      (use s2 t g in \<open>auto simp: insert_node_def insert_attributes_def row_simps list_all_iff\<close>)
qed

lemma copy_loop_appends:
  assumes "copy_loop E w now stack root_copy s = Some y"
  shows "appended s (snd y) w \<and> workspaces (snd y) = workspaces s \<and> changes (snd y) = changes s"
  using assms
proof (induction rule: copy_loop.raw_induct [rotated, consumes 1, case_names step])
  case (step loop E w now stack root_copy s y)
  show ?case
  proof (cases stack)
    case Nil
    with step(2) show ?thesis by (auto simp: appended_refl split: bind_splits)
  next
    case (Cons item rest)
    obtain n kids u rc where c: "copy_node E w now (fst item) (fst (snd item)) (snd (snd item)) s = Some (n, kids, u)"
      and go: "loop E w now (List.rev kids @ rest) rc u = Some y"
      using step(2) by (auto simp: Cons split: bind_splits)
    from step(1) [OF go] copy_node_appends [OF c] show ?thesis by (auto intro: appended_trans)
  qed
qed

text \<open>The tables after a copy: what was at the destination is cut out, then rows are added.\<close>

definition copy_effect :: "db \<Rightarrow> db \<Rightarrow> uuid \<Rightarrow> virtual_path \<Rightarrow> bool" where
  "copy_effect s t w to_path \<longleftrightarrow>
     (\<exists>p pp pq nm u. vp_parent to_path = Some pq \<and> resolve_following s w pq True = RFound p \<and>
        lookup_segs s w pp = Some p \<and> vp_name to_path = Some nm \<and>
        vacated s u w (pp @ [nm]) \<and> appended u t w \<and> counted s t w 1)"

lemma copy_tx_effect:
  assumes ok: "wf E s" and to: "canonical to_path"
    and run: "copy_tx E w from_path to_path options aj s = Some (CopyCreated n, t)"
  shows "copy_effect s t w to_path"
proof (cases rule: copy_tx_guards [OF ok to, of w from_path options aj, case_names refused go])
  case (refused r)
  with run show ?thesis by auto
next
  case (go d dp p pp pq nm s1)
  note v = vacate_rows [OF ok go(7,8,12)]
  from run obtain t1 now where
    c: "copy_subtree E w d (n_id p) nm now (s1\<lparr>clock_reads := Suc (clock_reads s)\<rparr>) = Some (n, t1)"
    and t: "append_change w Copied (Some (n_id n)) (Some (as_str from_path)) (Some (as_str to_path)) (Some 1) aj now t1 = Some t"
    unfolding go(20) by (auto simp: Let_def split: bind_splits)
  from c obtain m where "copy_loop E w now [(m, n_id p, nm)] None (s1\<lparr>clock_reads := Suc (clock_reads s)\<rparr>) = Some (n, t1)"
    by (auto simp: copy_subtree_def split: bind_splits)
  note l = copy_loop_appends [OF this, simplified]
  note a = append_change_rows [OF t]
  have "appended s1 t1 w" using l by (simp add: appended_def)
  then have "appended s1 t w" using appended_cong [of t t1] a(1-5) by simp
  moreover have "counted s t w 1" using a(6) l v(2) by (simp add: counted_def)
  ultimately show ?thesis using go(5,6,7,9) v(1) unfolding copy_effect_def by blast
qed


subsection \<open>Workspaces\<close>

text \<open>
  The rows of a workspace are gone from the tables of generations, chunks, attributes, trash
  records and changes; the rows of the other workspaces are there as they were.
\<close>

definition workspace_cleared :: "db \<Rightarrow> db \<Rightarrow> uuid \<Rightarrow> bool" where
  "workspace_cleared s t w \<longleftrightarrow>
     generations t = filter (\<lambda>g. g_workspace_id g \<noteq> w) (generations s) \<and>
     chunks t = filter (\<lambda>c. \<not> (\<exists>g \<in> set (generations s). g_workspace_id g = w \<and> g_id g = c_generation_id c)) (chunks s) \<and>
     attributes t = filter (\<lambda>a. \<not> (\<exists>r \<in> set (nodes s). n_workspace_id r = w \<and> n_id r = a_node_id a)) (attributes s) \<and>
     trash_rows t = filter (\<lambda>x. t_workspace_id x \<noteq> w) (trash_rows s) \<and>
     changes t = filter (\<lambda>c. ch_workspace_id c \<noteq> w) (changes s)"

lemma image_where: "x \<in> f ` {r \<in> A. P r} \<longleftrightarrow> (\<exists>r \<in> A. P r \<and> f r = x)"
  by auto

lemma without_rows_cleared:
  assumes ok: "wf E s"
  shows "workspace_cleared s ((without_rows w s)\<lparr>changes := filter (\<lambda>c. ch_workspace_id c \<noteq> w) (changes s)\<rparr>) w"
proof -
  have "t_node_id x \<in> n_id ` {r \<in> set (nodes s). n_workspace_id r = w} \<longleftrightarrow> t_workspace_id x = w"
    if x: "x \<in> set (trash_rows s)" for x
  proof -
    obtain r where r: "r \<in> set (nodes s)" "n_id r = t_node_id x" "n_workspace_id r = t_workspace_id x"
      using bspec [OF conjunct1 [OF wfD(5) [OF ok, unfolded trash_ok_def]] x] by blast
    show ?thesis
    proof
      assume "t_node_id x \<in> n_id ` {r \<in> set (nodes s). n_workspace_id r = w}"
      then obtain q where q: "q \<in> set (nodes s)" "n_workspace_id q = w" "t_node_id x = n_id q" by auto
      have "q = r" by (rule row_id_eq [OF wfD(2) [OF ok] q(1) r(1)]) (simp add: r(2) q(3))
      with q(2) r(3) show "t_workspace_id x = w" by simp
    next
      assume "t_workspace_id x = w"
      with r have "r \<in> {r \<in> set (nodes s). n_workspace_id r = w}" by simp
      from imageI [OF this, of n_id] r(2) show "t_node_id x \<in> n_id ` {r \<in> set (nodes s). n_workspace_id r = w}" by simp
    qed
  qed
  then have "trash_rows (without_rows w s) = filter (\<lambda>x. t_workspace_id x \<noteq> w) (trash_rows s)"
    by (simp add: without_rows_def drop_generations_def drop_nodes_def Let_def cong: filter_cong)
  then show ?thesis
    by (simp add: workspace_cleared_def) (simp add: without_rows_def drop_generations_def drop_nodes_def Let_def image_where)
qed

lemma create_workspace_rows:
  assumes "create_workspace E opts s = (Inr k, t)"
  shows "\<exists>now. workspaces t = workspaces s @ [\<lparr>w_id = wk_id k, w_created_at_ms = now, w_updated_at_ms = now,
      w_change_seq = 0, w_max_bytes = as_i64 (wso_max_bytes opts), w_max_nodes = as_i64 (wso_max_nodes opts),
      w_max_file_bytes = as_i64 (wso_max_file_bytes opts)\<rparr>] \<and>
    nodes t = nodes s @ [root_row (now_v7 E (Suc (ids_used s))) (wk_id k) now] \<and>
    generations t = generations s \<and> chunks t = chunks s \<and> attributes t = attributes s \<and>
    trash_rows t = trash_rows s \<and> changes t = changes s"
  using assms
  by (auto simp: create_workspace_def conn_call_def create_workspace_tx_def new_id_def now_ms_def Let_def
      insert_workspace_def insert_node_def row_simps split: option.splits bind_splits)

lemma delete_workspace_rows_cleared:
  assumes ok: "wf E s" and run: "delete_workspace w s = (Inr (), t)"
  shows "workspace_cleared s t w"
proof -
  have tr: "filter (\<lambda>t. t_workspace_id t \<noteq> w) (trash_rows (without_rows w s)) = trash_rows (without_rows w s)"
    using trash_rows_workspace [OF ok] by (simp add: filter_id_conv)
  have "delete_workspace_rows w s = Some t"
    using run by (auto simp: delete_workspace_def conn_call_def split: option.splits)
  then have "t = (without_rows w s)\<lparr>workspaces := filter (\<lambda>r. w_id r \<noteq> w) (workspaces s),
      changes := filter (\<lambda>c. ch_workspace_id c \<noteq> w) (changes s)\<rparr>"
    unfolding delete_workspace_rows_eq [OF ok] tr by (simp add: row_simps)
  with without_rows_cleared [OF ok, of w] show ?thesis by (simp add: workspace_cleared_def)
qed

lemma reset_workspace_rows:
  assumes ok: "wf E s" and run: "reset_workspace E w s = (Inr (), t)"
  shows "workspace_cleared s t w"
    "\<exists>now. workspaces t = map (\<lambda>r. if w_id r = w then r\<lparr>w_change_seq := 0, w_updated_at_ms := now\<rparr> else r) (workspaces s) \<and>
       nodes t = filter (\<lambda>r. n_workspace_id r \<noteq> w) (nodes s) @ [root_row (fresh_id E s) w now]"
proof -
  note tree = wfD(2) [OF ok]
  let ?ids = "map n_id (filter (\<lambda>r. n_workspace_id r = w) (nodes s))"
  have dn: "drop_nodes (cascade (nodes s) ?ids) s = drop_nodes ?ids s"
    by (rule drop_nodes_cong) (use cascade_workspace [OF tree, of w] in auto)
  from run obtain s1 s2 s3 s5 now where
    s1: "delete_nodes (\<lambda>r. n_workspace_id r = w) s = Some s1"
    and s2: "delete_generations (\<lambda>g. g_workspace_id g = w) s1 = Some s2"
    and s3: "delete_changes (\<lambda>c. ch_workspace_id c = w) s2 = Some s3"
    and s5: "insert_node (root_row (now_v7 E (ids_used s3)) w now) (s3\<lparr>ids_used := Suc (ids_used s3), clock_reads := Suc (clock_reads s3)\<rparr>) = Some s5"
    and t: "update_workspace w (\<lambda>r. r\<lparr>w_change_seq := 0, w_updated_at_ms := now\<rparr>) s5 = Some t"
    by (auto simp: reset_workspace_def finish_call_def conn_call_def reset_workspace_tx_def new_id_def now_ms_def Let_def
        split: option.splits bind_splits if_splits)
  have "s1 = drop_nodes ?ids s" using s1 by (simp only: delete_nodes_def dn checked_Some)
  then have s2': "s2 = without_rows w s" using s2 by (simp only: delete_generations_def checked_Some without_rows_def)
  have "changes (without_rows w s) = changes s" by (simp add: without_rows_def)
  with s3 have s3': "s3 = (without_rows w s)\<lparr>changes := filter (\<lambda>c. ch_workspace_id c \<noteq> w) (changes s)\<rparr>"
    by (simp only: delete_changes_def checked_Some s2')
  note c = without_rows_cleared [OF ok, of w, folded s3']
  have fields: "ids_used s3 = ids_used s" "workspaces s3 = workspaces s"
    "nodes s3 = filter (\<lambda>r. n_workspace_id r \<noteq> w) (nodes s)"
    using tree by (simp_all add: s3') (simp_all add: without_rows_def)
  from s5 t c show "workspace_cleared s t w"
    by (auto simp: insert_node_def update_workspace_def row_simps workspace_cleared_def)
  from s5 t fields show "\<exists>now. workspaces t = map (\<lambda>r. if w_id r = w then r\<lparr>w_change_seq := 0, w_updated_at_ms := now\<rparr> else r) (workspaces s) \<and>
       nodes t = filter (\<lambda>r. n_workspace_id r \<noteq> w) (nodes s) @ [root_row (fresh_id E s) w now]"
    by (auto simp: insert_node_def update_workspace_def row_simps fresh_id_def)
qed


subsection \<open>mkdir\<close>

text \<open>The part of a path that is not there, from the top: the directories \<open>mkdir -p\<close> has to make.\<close>

fun missing :: "db \<Rightarrow> uuid \<Rightarrow> string list \<Rightarrow> string list \<Rightarrow> string list list" where
  "missing s w pp [] = []"
| "missing s w pp (x # xs) =
     (if lookup_segs s w (pp @ [x]) = None then [pp @ [x]] else []) @ missing s w (pp @ [x]) xs"

text \<open>One new directory: its row, and the entry of the feed that names it and its path.\<close>

definition dir_entry :: "uuid \<Rightarrow> string \<Rightarrow> string list \<Rightarrow> node_row \<times> change_row \<Rightarrow> bool" where
  "dir_entry w aj p new \<longleftrightarrow>
     (\<exists>i parent now sq. new = (dir_row i w parent (last p) now,
        change_rec w sq Created (Some i) None (Some (as_str (path_of p))) (Some 1) aj now))"

text \<open>Only the rows of these directories and their feed entries were added.\<close>

definition dirs_added :: "db \<Rightarrow> db \<Rightarrow> uuid \<Rightarrow> string \<Rightarrow> string list list \<Rightarrow> bool" where
  "dirs_added s t w aj ps \<longleftrightarrow>
     (\<exists>new. list_all2 (dir_entry w aj) ps new \<and>
        nodes t = nodes s @ map fst new \<and> changes t = changes s @ map snd new \<and>
        generations t = generations s \<and> chunks t = chunks s \<and> attributes t = attributes s \<and>
        trash_rows t = trash_rows s \<and> counted s t w (length ps))"

lemma dirs_added_refl: "dirs_added s s w aj []"
  by (simp add: dirs_added_def)

lemma dirs_added_trans:
  assumes "dirs_added s t w aj ps" "dirs_added t u w aj qs"
  shows "dirs_added s u w aj (ps @ qs)"
proof -
  obtain new where a: "list_all2 (dir_entry w aj) ps new" "nodes t = nodes s @ map fst new"
    "changes t = changes s @ map snd new" "generations t = generations s" "chunks t = chunks s"
    "attributes t = attributes s" "trash_rows t = trash_rows s" "counted s t w (length ps)"
    using assms(1) unfolding dirs_added_def by blast
  obtain new' where b: "list_all2 (dir_entry w aj) qs new'" "nodes u = nodes t @ map fst new'"
    "changes u = changes t @ map snd new'" "generations u = generations t" "chunks u = chunks t"
    "attributes u = attributes t" "trash_rows u = trash_rows t" "counted t u w (length qs)"
    using assms(2) unfolding dirs_added_def by blast
  show ?thesis
    unfolding dirs_added_def
    by (rule exI [of _ "new @ new'"])
      (use a b counted_trans [OF a(8) b(8)] in \<open>simp add: list_all2_appendI\<close>)
qed

lemma create_directory_adds:
  assumes "create_directory E w parent (last p) (path_of p) aj s = Some (n, t)"
  shows "dirs_added s t w aj [p]"
proof -
  define i where "i = now_v7 E (ids_used s)"
  define now where "now = clock_ms E (clock_reads s)"
  from assms obtain s1 where
    s1: "insert_node (dir_row i w parent (last p) now) (s\<lparr>ids_used := Suc (ids_used s), clock_reads := Suc (clock_reads s)\<rparr>) = Some s1"
    and t: "append_change w Created (Some i) None (Some (as_str (path_of p))) (Some 1) aj now s1 = Some t"
    by (auto simp: create_directory_def new_id_def now_ms_def Let_def i_def now_def split: bind_splits)
  note a = append_change_rows [OF t]
  from a(7) obtain sq where c: "changes t = changes s1 @ [change_rec w sq Created (Some i) None (Some (as_str (path_of p))) (Some 1) aj now]" by blast
  have "dir_entry w aj p (dir_row i w parent (last p) now,
      change_rec w sq Created (Some i) None (Some (as_str (path_of p))) (Some 1) aj now)"
    unfolding dir_entry_def by blast
  moreover have "counted s t w 1" using a(6) s1 by (simp add: counted_def insert_node_def row_simps)
  ultimately show ?thesis
    unfolding dirs_added_def
    by (intro exI [of _ "[(dir_row i w parent (last p) now,
      change_rec w sq Created (Some i) None (Some (as_str (path_of p))) (Some 1) aj now)]"])
      (use a(1-5) c s1 in \<open>simp add: insert_node_def row_simps\<close>)
qed

lemma missing_cong:
  "(\<And>ys. ys \<noteq> [] \<Longrightarrow> lookup_segs t w (pp @ ys) = lookup_segs s w (pp @ ys)) \<Longrightarrow> missing t w pp xs = missing s w pp xs"
proof (induction xs arbitrary: pp)
  case (Cons x xs)
  have "missing t w (pp @ [x]) xs = missing s w (pp @ [x]) xs"
    by (rule Cons.IH) (use Cons.prems [of "x # _"] in simp)
  then show ?case using Cons.prems [of "[x]"] by simp
qed simp

lemma missing_snoc:
  "missing s w pp (xs @ [x]) = missing s w pp xs @ (if lookup_segs s w (pp @ xs @ [x]) = None then [pp @ xs @ [x]] else [])"
  by (induction xs arbitrary: pp) simp_all

text \<open>Why a path cannot be made: something on it is no directory.\<close>

definition blocked :: "db \<Rightarrow> uuid \<Rightarrow> string list \<Rightarrow> bool" where
  "blocked s w segs \<longleftrightarrow> (\<exists>xs n. prefix xs segs \<and> lookup_segs s w xs = Some n \<and> n_kind n \<noteq> DIRECTORY_KIND)"

lemma blockedI: "lookup_segs s w xs = Some n \<Longrightarrow> n_kind n \<noteq> DIRECTORY_KIND \<Longrightarrow> prefix xs segs \<Longrightarrow> blocked s w segs"
  unfolding blocked_def by blast

lemma mkdir_ancestors_adds:
  assumes E: "ext_ok E"
  shows "wf E s \<Longrightarrow> lookup_segs s w pp = Some cur \<Longrightarrow> list_all valid_seg (pp @ segs) \<Longrightarrow>
    mkdir_ancestors E w opts aj cur (path_of pp) segs s = Some (res, t) \<Longrightarrow>
    (case res of
       Inl o1 \<Rightarrow> o1 = MkdirWrongNodeType \<longrightarrow> blocked s w (pp @ segs)
     | Inr _ \<Rightarrow> dirs_added s t w aj (missing s w pp segs))"
proof (induction segs arbitrary: s pp cur)
  case Nil
  then show ?case by (auto intro: dirs_added_refl)
next
  case (Cons x segs)
  have vx: "valid_seg x" "list_all valid_seg pp" "list_all valid_seg ((pp @ [x]) @ segs)"
    using Cons.prems(3) by simp_all
  have join: "expect_ok (vp_join (path_of pp) x) = Some (path_of (pp @ [x]))"
    using vp_join_seg [of "path_of pp" x] vx by (simp add: expect_ok_def path_simps)
  show ?case
  proof (cases "n_kind cur = DIRECTORY_KIND")
    case False
    then show ?thesis using Cons.prems(4) blockedI [OF Cons.prems(2) False, of "pp @ x # segs"] by auto
  next
    case dir: True
    show ?thesis
    proof (cases "fetch_child s w (n_id cur) x")
      case (Some c)
      then have c: "lookup_segs s w (pp @ [x]) = Some c"
        using Cons.prems(2) dir by (simp add: lookup_snoc enter_def)
      have "mkdir_ancestors E w opts aj c (path_of (pp @ [x])) segs s = Some (res, t)"
        using Cons.prems(4) by (simp add: dir Some join)
      from Cons.IH [OF Cons.prems(1) c vx(3) this] c show ?thesis by (cases res) simp_all
    next
      case None
      then have free: "lookup_segs s w (pp @ [x]) = None" using Cons.prems(2) dir by (simp add: lookup_snoc enter_def)
      show ?thesis
      proof (cases "co_parents opts")
        case False
        with None dir Cons.prems(4) show ?thesis by auto
      next
        case par: True
        have can: "canonical (path_of (pp @ [x]))" using vx by (intro canonical_path_of) simp
        obtain n s1 where c: "create_directory E w (n_id cur) x (path_of (pp @ [x])) aj s = Some (n, s1)"
          and s1: "wf E s1" "n_kind n = DIRECTORY_KIND"
            "\<And>segs. lookup_segs s1 w segs = (if segs = pp @ [x] then Some n else lookup_segs s w segs)"
          by (rule create_directory_grown [OF E Cons.prems(1,2) dir vx(1) None can, of aj]) blast
        have go: "mkdir_ancestors E w opts aj n (path_of (pp @ [x])) segs s1 = Some (res, t)"
          using Cons.prems(4) by (simp add: dir None join par c)
        have n: "lookup_segs s1 w (pp @ [x]) = Some n" by (simp add: s1(3))
        note ih = Cons.IH [OF s1(1) n vx(3) go]
        have m: "missing s1 w (pp @ [x]) segs = missing s w (pp @ [x]) segs" by (rule missing_cong) (simp add: s1(3))
        have a: "dirs_added s s1 w aj [pp @ [x]]" by (rule create_directory_adds) (use c in simp)
        have "blocked s w (pp @ x # segs)" if "blocked s1 w ((pp @ [x]) @ segs)"
          using that s1(2,3) unfolding blocked_def by (auto split: if_splits)
        then show ?thesis using ih m dirs_added_trans [OF a] free by (auto split: sum.splits)
      qed
    qed
  qed
qed

text \<open>What \<open>mkdir\<close> does to the tables, and to the paths of the other workspaces.\<close>

definition mkdir_effect :: "db \<Rightarrow> db \<Rightarrow> uuid \<Rightarrow> string list \<Rightarrow> string \<Rightarrow> mkdir_outcome \<Rightarrow> bool" where
  "mkdir_effect s t w segs aj res \<longleftrightarrow>
     (case res of
        MkdirCreated n \<Rightarrow> dirs_added s t w aj (missing s w [] segs) \<and>
          (\<forall>w' xs. w' \<noteq> w \<longrightarrow> lookup_segs t w' xs = lookup_segs s w' xs) \<and>
          (\<forall>w' xs bs. file_at s w' xs bs \<longrightarrow> file_at t w' xs bs)
      | MkdirWrongNodeType \<Rightarrow> blocked s w segs
      | _ \<Rightarrow> True)"

lemma dirs_added_other:
  assumes ok: "tree_ok s" "tree_ok t" and d: "dirs_added s t w aj ps" and w': "w' \<noteq> w"
  shows "lookup_segs t w' = lookup_segs s w'"
proof (rule lookup_visible_cong [OF ok])
  obtain new where new: "list_all2 (dir_entry w aj) ps new" "nodes t = nodes s @ map fst new"
    using d unfolding dirs_added_def by blast
  have "n_workspace_id (fst x) = w" if "x \<in> set new" for x
    using new(1) that by (auto simp: list_all2_conv_all_nth in_set_conv_nth dir_entry_def)
  then show "visible t w' q \<longleftrightarrow> visible s w' q" for q
    using w' by (auto simp: visible_def new(2))
qed

lemma mkdir_tx_effect:
  assumes E: "ext_ok E" and ok: "wf E s" "wf E t" and segs: "segs \<noteq> []" "list_all valid_seg segs"
    and post: "mkdir_post s t w opts segs res"
    and run: "mkdir_tx E w segs opts aj s = Some (res, t)"
  shows "mkdir_effect s t w segs aj res"
proof -
  obtain xs x where xs: "segs = xs @ [x]" using segs(1) by (cases segs rule: rev_cases) auto
  show ?thesis
  proof (cases "fetch_root s w")
    case None
    with run show ?thesis by (auto simp: mkdir_tx_def mkdir_effect_def)
  next
    case (Some root)
    then have root: "lookup_segs s w [] = Some root" by simp
    have vxs: "list_all valid_seg ([] @ xs)" using segs xs by simp
    obtain rs s1 where a: "mkdir_ancestors E w opts aj root (path_of []) xs s = Some (rs, s1)"
      and go: "(case rs of Inl outcome \<Rightarrow> Some (outcome, s1)
         | Inr (c, p) \<Rightarrow> mkdir_leaf E w opts aj c p (last (xs @ [x])) s1) = Some (res, t)"
      using run Some by (auto simp: mkdir_tx_def xs vp_root_path_of split: bind_splits)
    note anc = mkdir_ancestors_adds [OF E ok(1) root vxs a]
    obtain rs' s1' where m: "mkdir_ancestors E w opts aj root (path_of []) xs s = Some (rs', s1')" "wf E s1'"
      "case rs' of Inl o1 \<Rightarrow> s1' = s \<and> lookup_segs s w ([] @ xs) = None \<and>
           (o1 = MkdirWrongNodeType \<or> o1 = MkdirParentNotFound \<and> \<not> co_parents opts) \<and>
           \<not> (co_parents opts \<and> childless s w root)
       | Inr (c, path) \<Rightarrow> path = path_of ([] @ xs) \<and> lookup_segs s1' w ([] @ xs) = Some c \<and>
           grown s s1' w ([] @ xs) \<and> (co_parents opts \<and> childless s w root \<longrightarrow> childless s1' w c) \<and>
           (s1' = s \<or> childless s1' w c)"
      using mkdir_ancestors_ok [OF E ok(1) root vxs, of opts aj] by blast
    show ?thesis
    proof (cases rs)
      case (Inl o1)
      with go anc m a show ?thesis
        by (auto simp: mkdir_effect_def xs blocked_def split: mkdir_outcome.splits)
    next
      case (Inr cp)
      obtain c where c: "rs = Inr (c, path_of xs)" "lookup_segs s1 w xs = Some c"
        using m a Inr by (cases cp) auto
      have leaf: "mkdir_leaf E w opts aj c (path_of xs) x s1 = Some (res, t)" using go c(1) by simp
      have d1: "dirs_added s s1 w aj (missing s w [] xs)" using anc c(1) by simp
      show ?thesis
      proof (cases res)
        case (MkdirCreated n)
        with leaf have "create_directory E w (n_id c) x (path_of (xs @ [x])) aj s1 = Some (n, t)"
          using vp_join_seg [of "path_of xs" x] segs xs
          by (auto simp: mkdir_leaf_def expect_ok_def path_simps split: if_splits option.splits bind_splits)
        then have "dirs_added s1 t w aj [xs @ [x]]" by (intro create_directory_adds) simp
        moreover have p: "lookup_segs s w segs = None" "grown s t w segs"
          using post by (simp_all add: MkdirCreated mkdir_post_def)
        ultimately have d: "dirs_added s t w aj (missing s w [] segs)"
          using dirs_added_trans [OF d1] by (simp add: xs missing_snoc)
        note other = dirs_added_other [OF wfD(2) [OF ok(1)] wfD(2) [OF ok(2)] d]
        have same: "lookup_segs t w' ys = Some m" if "lookup_segs s w' ys = Some m" for w' ys m
          using other [of w'] p(2) that by (cases "w' = w") (auto simp: grown_def)
        have "chunks t = chunks s" using d by (auto simp: dirs_added_def)
        then have "chunk_at t = chunk_at s" by (simp add: chunk_at_def fun_eq_iff)
        then have "file_at t w' ys bs" if "file_at s w' ys bs" for w' ys bs
          using that same by (fastforce simp: file_at_def gen_holds_def)
        with d other show ?thesis by (simp add: mkdir_effect_def MkdirCreated)
      next
        case MkdirWrongNodeType
        have "t = s" using post by (simp add: MkdirWrongNodeType mkdir_post_def)
        moreover have "t = s1" using leaf
          by (auto simp: mkdir_leaf_def MkdirWrongNodeType split: if_splits option.splits bind_splits)
        ultimately have s1: "s1 = s" by simp
        show ?thesis
        proof (cases "n_kind c = DIRECTORY_KIND")
          case False
          with c(2) s1 have "blocked s w segs" by (intro blockedI [of s w xs c]) (simp_all add: xs)
          then show ?thesis by (simp add: mkdir_effect_def MkdirWrongNodeType)
        next
          case True
          with leaf s1 obtain e where e: "fetch_child s w (n_id c) x = Some e" "n_kind e \<noteq> DIRECTORY_KIND"
            by (auto simp: mkdir_leaf_def MkdirWrongNodeType split: if_splits option.splits bind_splits)
          have "lookup_segs s w segs = Some e" using lookup_child [of s w xs c x] c(2) s1 True e(1) by (simp add: xs)
          from blockedI [OF this e(2)] show ?thesis by (simp add: mkdir_effect_def MkdirWrongNodeType)
        qed
      qed (simp_all add: mkdir_effect_def)
    qed
  qed
qed

end
