(* ===== verification/Batch.thy ===== *)
theory Batch
  imports Trash
begin

text \<open>
  The batches of \<open>fslite-sqlite/src/mutate.rs\<close>: the operations run in request order against
  one transaction, which is committed only when all of them succeed. Also the capability
  checks and entry points of \<open>fslite-sqlite/src/lib.rs\<close>.
\<close>

datatype batch_step_outcome = StepResult batch_result | StepFailed fs_error

datatype batch_outcome = BatchCompleted "batch_result list" | BatchFailed nat fs_error

definition required_capability :: "batch_operation \<Rightarrow> capability" where
  "required_capability operation = (case operation of
     BMkdir _ _ \<Rightarrow> CapWrite
   | BTouch _ _ \<Rightarrow> CapWrite
   | BCopy _ _ _ \<Rightarrow> CapWrite
   | BMove _ _ _ \<Rightarrow> CapWrite
   | BSymlink _ _ _ \<Rightarrow> CapWrite
   | BSetAttribute _ _ _ _ \<Rightarrow> CapWrite
   | BRemoveAttribute _ _ _ \<Rightarrow> CapWrite
   | BRemove _ _ \<Rightarrow> CapDelete
   | BPurge _ \<Rightarrow> CapDelete
   | BTrash _ _ \<Rightarrow> CapTrashRestore
   | BRestore _ _ _ \<Rightarrow> CapTrashRestore)"

definition to_step :: "'a fs_result \<Rightarrow> ('a \<Rightarrow> batch_result) \<Rightarrow> batch_step_outcome" where
  "to_step result wrap = (case result of
     Inr x \<Rightarrow> StepResult (wrap x)
   | Inl err \<Rightarrow> StepFailed err)"

text \<open>The conversion of an outcome that leaves the transaction's store as it is.\<close>

definition step_of ::
    "('o \<Rightarrow> 'a fs_result) \<Rightarrow> ('a \<Rightarrow> batch_result) \<Rightarrow> ('o \<times> db) option \<Rightarrow>
     (batch_step_outcome \<times> db) option" where
  "step_of conv wrap r = map_option (\<lambda>(outcome, s). (to_step (conv outcome) wrap, s)) r"

definition execute_batch_operation ::
    "ext \<Rightarrow> uuid \<Rightarrow> batch_operation \<Rightarrow> string \<Rightarrow> db \<Rightarrow> (batch_step_outcome \<times> db) option" where
  "execute_batch_operation E w operation actor_json s = (case operation of
     BMkdir path options \<Rightarrow>
       if vp_name path = None then Some (StepFailed (already_exists (as_str path)), s)
       else step_of (mkdir_result E path) BRNode
              (mkdir_tx E w (vp_segments path) options actor_json s)
   | BTouch path options \<Rightarrow>
       step_of (touch_result E path) BRNode (touch_tx E w path options actor_json s)
   | BCopy from_path to_path options \<Rightarrow>
       step_of (\<lambda>outcome. copy_result E outcome from_path to_path) BRNode
         (copy_tx E w from_path to_path options actor_json s)
   | BMove from_path to_path options \<Rightarrow>
       step_of (\<lambda>outcome. move_result E outcome from_path to_path) BRNode
         (move_tx E w from_path to_path options actor_json s)
   | BRemove path options \<Rightarrow>
       step_of (\<lambda>outcome. remove_result outcome path) (\<lambda>_. BRUnit)
         (remove_tx E w path options actor_json s)
   | BSymlink target link options \<Rightarrow>
       if vp_name link = None then Some (StepFailed (already_exists (as_str link)), s)
       else step_of (\<lambda>outcome. symlink_result E outcome link) BRNode
              (symlink_tx E w link (target_str target) options actor_json s)
   | BTrash path options \<Rightarrow>
       step_of (\<lambda>outcome. trash_result E outcome path (actor_or_default E actor_json)) BRTrash
         (trash_tx E w path options actor_json s)
   | BRestore trash_id dest options \<Rightarrow>
       step_of (\<lambda>outcome. restore_result E outcome trash_id) BRNode
         (restore_tx E w trash_id dest options actor_json s)
   | BPurge trash_id \<Rightarrow>
       step_of (\<lambda>outcome. purge_result outcome trash_id) (\<lambda>_. BRUnit)
         (purge_tx E w trash_id actor_json s)
   | BSetAttribute path key val options \<Rightarrow>
       step_of (\<lambda>outcome. attribute_result E outcome path) BRNode
         (set_attribute_tx E w path key val options actor_json s)
   | BRemoveAttribute path key options \<Rightarrow>
       step_of (\<lambda>outcome. attribute_result E outcome path) BRNode
         (remove_attribute_tx E w path key options actor_json s))"

text \<open>\<open>{required:?}\<close>.\<close>

definition show_capability :: "capability \<Rightarrow> string" where
  "show_capability c = (case c of
     CapRead \<Rightarrow> ''Read''
   | CapWrite \<Rightarrow> ''Write''
   | CapDelete \<Rightarrow> ''Delete''
   | CapTrashRestore \<Rightarrow> ''TrashRestore''
   | CapWorkspaceAdmin \<Rightarrow> ''WorkspaceAdmin'')"

fun batch_loop ::
    "ext \<Rightarrow> uuid \<Rightarrow> capability list \<Rightarrow> string \<Rightarrow> nat \<Rightarrow> batch_operation list \<Rightarrow> batch_result list \<Rightarrow>
     db \<Rightarrow> (batch_outcome \<times> db) option" where
  "batch_loop E w capabilities actor_json index [] results s = Some (BatchCompleted results, s)"
| "batch_loop E w capabilities actor_json index (operation # operations) results s =
     (let required = required_capability operation
      in if required \<notin> set capabilities then
           Some (BatchFailed index (permission_denied
             (''batch operation '' @ show_nat index @ '' requires '' @ show_capability required)), s)
         else (case execute_batch_operation E w operation actor_json s of
             None \<Rightarrow> None
           | Some (StepResult r, s) \<Rightarrow>
               batch_loop E w capabilities actor_json (Suc index) operations (results @ [r]) s
           | Some (StepFailed err, s) \<Rightarrow> Some (BatchFailed index err, s)))"

text \<open>A failed step returns before the commit: the transaction is rolled back.\<close>

definition batch_tx ::
    "ext \<Rightarrow> uuid \<Rightarrow> capability list \<Rightarrow> batch_operation list \<Rightarrow> string \<Rightarrow> db \<Rightarrow>
     (batch_outcome \<times> db) option" where
  "batch_tx E w capabilities operations actor_json s =
     (case batch_loop E w capabilities actor_json 0 operations [] s of
        None \<Rightarrow> None
      | Some (BatchCompleted results, t) \<Rightarrow> Some (BatchCompleted results, t)
      | Some (BatchFailed index err, _) \<Rightarrow> Some (BatchFailed index err, s))"

definition batch ::
    "ext \<Rightarrow> request_context \<Rightarrow> batch_operation list \<Rightarrow> string \<Rightarrow> db \<Rightarrow>
     batch_result list fs_result \<times> db" where
  "batch E ctx operations actor_json s =
     finish_call (\<lambda>outcome. case outcome of
         BatchCompleted results \<Rightarrow> Inr results
       | BatchFailed index err \<Rightarrow>
           Inl (FsError (err_code err) (err_message err)
                  (JObject [(''index'', JNumber (show_nat index))])))
       (conn_call (batch_tx E (cx_workspace_id ctx) (cx_capabilities ctx) operations actor_json) s)"

end
