(* ===== verification/Batches.thy ===== *)
theory Batches
  imports Tame Batch
begin

text \<open>
  Batches as transactions: a batch that completes is its operations run one after the other,
  and one that fails is none of them. The sequences are those of an arbitrary step function,
  whose invariant the locale \<open>kept\<close> carries along a run; the operations of a batch are its
  first instance.
\<close>

subsection \<open>Runs of a step function\<close>

inductive runs :: "('o \<Rightarrow> 's \<Rightarrow> ('r \<times> 's) option) \<Rightarrow> 'o list \<Rightarrow> 'r list \<Rightarrow> 's \<Rightarrow> 's \<Rightarrow> bool" for step where
  stop: "runs step [] [] s s"
| go: "step x s = Some (r, t) \<Longrightarrow> runs step xs rs t u \<Longrightarrow> runs step (x # xs) (r # rs) s u"

inductive_simps runs_Nil [simp]: "runs step [] rs s t"
inductive_simps runs_Cons: "runs step (x # xs) rs s t"

lemma runs_length: "runs step xs rs s t \<Longrightarrow> length rs = length xs"
  by (induction rule: runs.induct) simp_all

lemma runs_determ: "runs step xs rs s t \<Longrightarrow> runs step xs rs' s t' \<Longrightarrow> rs' = rs \<and> t' = t"
proof (induction arbitrary: rs' t' rule: runs.induct)
  case (go x s r t xs rs u)
  from go.prems go.hyps(1) obtain rs2 where "rs' = r # rs2" "runs step xs rs2 t t'"
    by (auto simp: runs_Cons)
  with go.IH show ?case by blast
qed simp

lemma runs_append:
  "runs step (xs @ ys) rs s u \<longleftrightarrow>
     (\<exists>t rs1 rs2. rs = rs1 @ rs2 \<and> runs step xs rs1 s t \<and> runs step ys rs2 t u)"
proof (induction xs arbitrary: rs s)
  case (Cons x xs)
  show ?case
    by (auto simp: runs_Cons Cons.IH) (metis append_Cons)+
qed simp

locale kept =
  fixes step :: "'o \<Rightarrow> 's \<Rightarrow> ('r \<times> 's) option" and legal :: "'o \<Rightarrow> bool" and inv :: "'s \<Rightarrow> bool"
  assumes keep: "legal x \<Longrightarrow> inv s \<Longrightarrow> step x s = Some (r, t) \<Longrightarrow> inv t"
begin

lemma runs_keep: "runs step xs rs s t \<Longrightarrow> list_all legal xs \<Longrightarrow> inv s \<Longrightarrow> inv t"
  by (induction rule: runs.induct) (auto dest: keep)

end

subsection \<open>One operation of a batch\<close>

fun legal_op :: "batch_operation \<Rightarrow> bool" where
  "legal_op (BMkdir path _) = canonical path"
| "legal_op (BTouch path _) = canonical path"
| "legal_op (BCopy from_path to_path _) = (canonical from_path \<and> canonical to_path)"
| "legal_op (BMove from_path to_path _) = (canonical from_path \<and> canonical to_path)"
| "legal_op (BRemove path _) = canonical path"
| "legal_op (BSymlink target link _) = (valid_target target \<and> canonical link)"
| "legal_op (BTrash path _) = canonical path"
| "legal_op (BRestore _ dest _) = pred_option canonical dest"
| "legal_op (BPurge _) = True"
| "legal_op (BSetAttribute path _ _ _) = canonical path"
| "legal_op (BRemoveAttribute path _ _) = canonical path"

text \<open>The stores on which a batch can be run.\<close>

definition serves :: "ext \<Rightarrow> db \<Rightarrow> bool" where
  "serves E s \<longleftrightarrow> wf E s \<and> sizes_fit s"

lemma servesI: "wf E t \<Longrightarrow> tame s t \<Longrightarrow> serves E s \<Longrightarrow> serves E t"
  using tame_sizes_fit unfolding serves_def by metis

text \<open>On a workspace that does not exist nothing is found and nothing can be created.\<close>

lemma no_workspace_lookup:
  assumes "wf E s" "w \<notin> w_id ` set (workspaces s)"
  shows "lookup_segs s w segs = None"
proof (cases "lookup_segs s w segs")
  case (Some n)
  then obtain r where "visible s w r" using lookup_visible by blast
  with visible_workspace [OF assms(1)] assms(2) show ?thesis by blast
qed

lemma mkdir_tx_wf:
  assumes E: "ext_ok E" and ok: "wf E s" and segs: "segs \<noteq> []" "list_all valid_seg segs"
  shows "\<exists>res t. mkdir_tx E w segs options aj s = Some (res, t) \<and> wf E t"
proof (cases "w \<in> w_id ` set (workspaces s)")
  case True
  from mkdir_tx_ok [OF E ok this segs, of options aj] show ?thesis by blast
next
  case False
  from no_workspace_lookup [OF ok this, of "[]"] have "fetch_root s w = None" by simp
  with ok show ?thesis by (simp add: mkdir_tx_def)
qed

lemma touch_tx_wf:
  assumes E: "ext_ok E" and ok: "wf E s" and path: "canonical path"
    and t: "touch_tx E w path options aj s = Some (res, t)"
  shows "wf E t"
proof (cases "w \<in> w_id ` set (workspaces s)")
  case True
  from touch_tx_ok [OF E ok this path, of options aj] t show ?thesis by auto
next
  case False
  have "create_generation E w s = None"
    using False by (auto simp: create_generation_def new_id_def now_ms_def Let_def insert_generation_def checked_def
        schema_ok_def fk_ok_def)
  with no_workspace_lookup [OF ok False] ok t show ?thesis
    by (auto simp: touch_tx_def resolve_lookup split: if_splits)
qed

lemma purge_tx_wf:
  assumes ok: "wf E s" and t: "purge_tx E w tid aj s = Some (res, t)"
  shows "wf E t"
proof (cases "fetch_trash_row s w tid")
  case None
  with ok t show ?thesis by (simp add: purge_tx_def)
next
  case (Some a)
  obtain i op nm where a: "a = (i, op, nm)" by (cases a)
  obtain r where r: "r \<in> set (nodes s)" "n_id r = i" "n_parent_id r = Some op"
    and u: "i \<in> used_ids E s" "w \<in> w_id ` set (workspaces s)"
    by (rule fetch_trash_row_Some [OF ok Some [unfolded a]])
  define s1 where "s1 = s\<lparr>clock_reads := Suc (clock_reads s)\<rparr>"
  have w1: "wf E s1" using ok by (simp add: s1_def)
  obtain s2 where s2: "append_change w Purged (Some i) None None None aj (clock_ms E (clock_reads s)) s1 = Some s2"
    "wf E s2" "nodes s2 = nodes s1"
    by (rule log_step [OF w1, of w i None None None]) (use u in \<open>auto simp: s1_def used_ids_def\<close>)
  then have "purge_subtree i s2 = Some t"
    using t Some a by (auto simp: purge_tx_def now_ms_def s1_def Let_def split: bind_splits)
  then show ?thesis
    using purge_subtree_wf(1) [OF s2(2) _ r(2)] r s2(3) by (simp add: s1_def)
qed

lemma servesD: "serves E s \<Longrightarrow> wf E s" "serves E s \<Longrightarrow> sizes_fit s"
  by (simp_all add: serves_def)

text \<open>A transaction with a contract, as a step of a batch.\<close>

lemma serves_step:
  assumes run: "step_of conv wrap m = Some (r, t)" and tame: "\<And>res. m = Some (res, t) \<Longrightarrow> tame s t"
    and ok: "\<exists>res t. m = Some (res, t) \<and> wf E t \<and> Q res t" and s: "serves E s"
  shows "serves E t"
proof -
  from run obtain res where m: "m = Some (res, t)" by (auto simp: step_of_def)
  with ok have "wf E t" by auto
  from this tame [OF m] s show ?thesis by (rule servesI)
qed

lemma execute_serves:
  assumes E: "ext_ok E" and legal: "legal_op x" and s: "serves E s"
    and run: "execute_batch_operation E w x aj s = Some (r, t)"
  shows "serves E t"
proof (cases x)
  case (BCopy from_path to_path options)
  with run obtain res where "copy_tx E w from_path to_path options aj s = Some (res, t)"
    by (auto simp: execute_batch_operation_def step_of_def)
  with copy_tx_wf [OF E _ _ _ _ this] s legal BCopy show ?thesis by (simp add: serves_def)
next
  case (BMkdir path options)
  show ?thesis
  proof (cases "vp_name path")
    case (Some nm)
    from legal BMkdir have "canonical path" by simp
    then obtain ss where "vp_segments path = ss @ [nm]" "list_all valid_seg (ss @ [nm])" using Some by (rule vp_name_SomeE)
    then have "vp_segments path \<noteq> []" "list_all valid_seg (vp_segments path)" by simp_all
    from mkdir_tx_wf [OF E servesD(1) [OF s] this, of w options aj] obtain res u where
      u: "mkdir_tx E w (vp_segments path) options aj s = Some (res, u)" "wf E u" by blast
    then have "t = u" using run Some BMkdir by (simp add: execute_batch_operation_def step_of_def)
    with servesI [OF u(2) tame_mkdir_tx [OF u(1)] s] show ?thesis by simp
  qed (use run BMkdir s in \<open>simp add: execute_batch_operation_def\<close>)
next
  case (BSymlink target link options)
  show ?thesis
  proof (cases "vp_name link")
    case (Some nm)
    then have "step_of (\<lambda>outcome. symlink_result E outcome link) BRNode
        (symlink_tx E w link (target_str target) options aj s) = Some (r, t)"
      using run BSymlink by (simp add: execute_batch_operation_def)
    then show ?thesis
      by (rule serves_step [OF _ tame_symlink_tx symlink_tx_ok [OF E servesD(1) [OF s]] s])
        (use legal BSymlink Some in simp_all)
  qed (use run BSymlink s in \<open>simp add: execute_batch_operation_def\<close>)
next
  case (BTouch path options)
  with run obtain res where u: "touch_tx E w path options aj s = Some (res, t)"
    by (auto simp: execute_batch_operation_def step_of_def)
  with touch_tx_wf [OF E servesD(1) [OF s] _ u] legal BTouch have "wf E t" by simp
  from servesI [OF this tame_touch_tx [OF u] s] show ?thesis .
next
  case (BMove from_path to_path options)
  show ?thesis
    by (rule serves_step [OF run [unfolded BMove execute_batch_operation_def batch_operation.case] tame_move_tx move_tx_ok [OF servesD(1) [OF s]] s])
      (use legal BMove in simp_all)
next
  case (BRemove path options)
  show ?thesis
    by (rule serves_step [OF run [unfolded BRemove execute_batch_operation_def batch_operation.case] tame_remove_tx remove_tx_ok [OF servesD(1) [OF s]] s])
      (use legal BRemove in simp_all)
next
  case (BTrash path options)
  show ?thesis
    by (rule serves_step [OF run [unfolded BTrash execute_batch_operation_def batch_operation.case] tame_trash_tx trash_tx_ok [OF E servesD(1) [OF s]] s])
      (use legal BTrash in simp_all)
next
  case (BRestore tid dest options)
  show ?thesis
    by (rule serves_step [OF run [unfolded BRestore execute_batch_operation_def batch_operation.case]
          tame_restore_tx restore_tx_ok [OF servesD(1) [OF s]] s])
      (use legal BRestore in simp_all)
next
  case (BPurge tid)
  with run obtain res where "purge_tx E w tid aj s = Some (res, t)"
    by (auto simp: execute_batch_operation_def step_of_def)
  from servesI [OF purge_tx_wf [OF servesD(1) [OF s] this] tame_purge_tx [OF this] s] show ?thesis .
next
  case (BSetAttribute path key val options)
  show ?thesis
    by (rule serves_step [OF run [unfolded BSetAttribute execute_batch_operation_def batch_operation.case] tame_set_attribute_tx set_attribute_tx_ok [OF servesD(1) [OF s]] s])
      (use legal BSetAttribute in simp_all)
next
  case (BRemoveAttribute path key options)
  show ?thesis
    by (rule serves_step [OF run [unfolded BRemoveAttribute execute_batch_operation_def batch_operation.case] tame_remove_attribute_tx remove_attribute_tx_ok [OF servesD(1) [OF s]] s])
      (use legal BRemoveAttribute in simp_all)
qed

subsection \<open>The whole batch\<close>

definition batch_step ::
    "ext \<Rightarrow> uuid \<Rightarrow> capability list \<Rightarrow> string \<Rightarrow> batch_operation \<Rightarrow> db \<Rightarrow> (batch_result \<times> db) option" where
  "batch_step E w caps aj x s =
     (if required_capability x \<in> set caps then
        (case execute_batch_operation E w x aj s of Some (StepResult r, t) \<Rightarrow> Some (r, t) | _ \<Rightarrow> None)
      else None)"

lemma batch_step_Some:
  "batch_step E w caps aj x s = Some (r, t) \<longleftrightarrow>
     required_capability x \<in> set caps \<and> execute_batch_operation E w x aj s = Some (StepResult r, t)"
  by (auto simp: batch_step_def split: option.splits batch_step_outcome.splits)

interpretation batch: kept "batch_step E w caps aj" "\<lambda>x. ext_ok E \<and> legal_op x" "serves E"
  by unfold_locales (auto simp: batch_step_Some dest: execute_serves)

text \<open>Why a batch stops at an operation, with the error it gives.\<close>

definition refused ::
    "ext \<Rightarrow> uuid \<Rightarrow> capability list \<Rightarrow> string \<Rightarrow> nat \<Rightarrow> batch_operation \<Rightarrow> db \<Rightarrow> fs_error \<Rightarrow> bool" where
  "refused E w caps aj k x s err \<longleftrightarrow>
     (if required_capability x \<in> set caps
      then \<exists>t. execute_batch_operation E w x aj s = Some (StepFailed err, t)
      else err = permission_denied
        (''batch operation '' @ show_nat k @ '' requires '' @ show_capability (required_capability x)))"

text \<open>The loop, by the operation at which it stops.\<close>

lemma batch_loop_runs:
  "case batch_loop E w caps aj k xs results s of
     None \<Rightarrow> \<exists>before x after rs u. xs = before @ x # after \<and> runs (batch_step E w caps aj) before rs s u \<and>
       required_capability x \<in> set caps \<and> execute_batch_operation E w x aj u = None
   | Some (BatchCompleted rs, t) \<Rightarrow> \<exists>new. rs = results @ new \<and> runs (batch_step E w caps aj) xs new s t
   | Some (BatchFailed i err, t) \<Rightarrow> \<exists>before x after rs u. xs = before @ x # after \<and> i = k + length before \<and>
       runs (batch_step E w caps aj) before rs s u \<and> refused E w caps aj i x u err"
proof (induction E w caps aj k xs results s rule: batch_loop.induct)
  case (2 E w caps aj k x xs results s)
  show ?case
  proof (cases "batch_step E w caps aj x s")
    case None
    then show ?thesis
      by (auto simp: batch_step_def refused_def Let_def split: if_splits option.splits batch_step_outcome.splits
          intro!: exI [of _ "[]"])
  next
    case (Some a)
    obtain r t where a: "a = (r, t)" by (cases a)
    note st = Some [unfolded a]
    from st have e: "required_capability x \<in> set caps" "execute_batch_operation E w x aj s = Some (StepResult r, t)"
      by (simp_all add: batch_step_Some)
    have loop: "batch_loop E w caps aj k (x # xs) results s = batch_loop E w caps aj (Suc k) xs (results @ [r]) t"
      using e by simp
    have IH: "case batch_loop E w caps aj (Suc k) xs (results @ [r]) t of
       None \<Rightarrow> \<exists>before x after rs u. xs = before @ x # after \<and> runs (batch_step E w caps aj) before rs t u \<and>
         required_capability x \<in> set caps \<and> execute_batch_operation E w x aj u = None
     | Some (BatchCompleted rs, t') \<Rightarrow> \<exists>new. rs = (results @ [r]) @ new \<and> runs (batch_step E w caps aj) xs new t t'
     | Some (BatchFailed i err, t') \<Rightarrow> \<exists>before x after rs u. xs = before @ x # after \<and> i = Suc k + length before \<and>
         runs (batch_step E w caps aj) before rs t u \<and> refused E w caps aj i x u err"
      by (rule 2 [OF refl _ e(2)]) (use e(1) in auto)
    have ext: "runs (batch_step E w caps aj) (x # before) (r # rs) s u"
      if "runs (batch_step E w caps aj) before rs t u" for before rs u
      using st that by (rule runs.go)
    show ?thesis
    proof (cases "batch_loop E w caps aj (Suc k) xs (results @ [r]) t")
      case None
      with IH obtain before y after rs u where "xs = before @ y # after" "runs (batch_step E w caps aj) before rs t u"
        "required_capability y \<in> set caps" "execute_batch_operation E w y aj u = None" by auto
      with ext [of before rs u] show ?thesis unfolding loop None option.case
        by (intro exI [of _ "x # before"] exI [of _ y] exI [of _ after] exI [of _ "r # rs"] exI [of _ u]) simp
    next
      case (Some b)
      obtain res t' where b: "b = (res, t')" by (cases b)
      show ?thesis
      proof (cases res)
        case (BatchCompleted rs)
        with IH Some b obtain new where "rs = (results @ [r]) @ new" "runs (batch_step E w caps aj) xs new t t'" by auto
        with ext [of xs new t'] show ?thesis unfolding loop Some b BatchCompleted by auto
      next
        case (BatchFailed i err)
        with IH Some b obtain before y after rs u where "xs = before @ y # after" "i = Suc k + length before"
          "runs (batch_step E w caps aj) before rs t u" "refused E w caps aj i y u err" by auto
        with ext [of before rs u] show ?thesis unfolding loop Some b BatchFailed option.case prod.case batch_outcome.case
          by (intro exI [of _ "x # before"] exI [of _ y] exI [of _ after] exI [of _ "r # rs"] exI [of _ u]) simp
      qed
    qed
  qed
qed simp

subsection \<open>Atomicity\<close>

lemma refused_no_step: "refused E w caps aj k x s err \<Longrightarrow> batch_step E w caps aj x s = None"
  by (auto simp: refused_def batch_step_def split: if_splits)

text \<open>What a batch does: all of its operations in order, or nothing and the index of the culprit.\<close>

definition batch_done ::
    "ext \<Rightarrow> request_context \<Rightarrow> string \<Rightarrow> batch_operation list \<Rightarrow> db \<Rightarrow> batch_result list fs_result \<Rightarrow> db \<Rightarrow> bool" where
  "batch_done E ctx aj xs s res t \<longleftrightarrow>
     (let w = cx_workspace_id ctx; caps = cx_capabilities ctx; step = batch_step E w caps aj
      in case res of
           Inr rs \<Rightarrow> runs step xs rs s t
         | Inl e \<Rightarrow> t = s \<and>
             (\<exists>before x after rs u. xs = before @ x # after \<and> runs step before rs s u \<and>
               ((\<exists>err. refused E w caps aj (length before) x u err \<and>
                   e = FsError (err_code err) (err_message err) (JObject [(''index'', JNumber (show_nat (length before)))])) \<or>
                required_capability x \<in> set caps \<and> execute_batch_operation E w x aj u = None \<and>
                  err_code e = InternalStorageFailure)))"

lemma batch_ok: "batch_done E ctx aj xs s (fst (batch E ctx xs aj s)) (snd (batch E ctx xs aj s))"
proof -
  let ?w = "cx_workspace_id ctx" and ?caps = "cx_capabilities ctx"
  note loop = batch_loop_runs [where E = E and w = ?w and caps = ?caps and aj = aj and k = 0 and xs = xs and results = "[]" and s = s]
  show ?thesis
  proof (cases "batch_loop E ?w ?caps aj 0 xs [] s")
    case None
    with loop obtain before x after rs u where "xs = before @ x # after"
      "runs (batch_step E ?w ?caps aj) before rs s u" "required_capability x \<in> set ?caps"
      "execute_batch_operation E ?w x aj u = None" by auto
    moreover have bt: "batch E ctx xs aj s = (Inl (internal_storage_failure ''sqlite error''), s)"
      by (simp add: batch_def batch_tx_def conn_call_def finish_call_def None)
    moreover have "err_code (internal_storage_failure x) = InternalStorageFailure" for x
      by (simp add: internal_storage_failure_def for_subject_def)
    ultimately show ?thesis unfolding batch_done_def Let_def bt fst_conv snd_conv sum.case by blast
  next
    case (Some b)
    obtain res t where b: "b = (res, t)" by (cases b)
    show ?thesis
    proof (cases res)
      case (BatchCompleted rs)
      with loop Some b show ?thesis
        by (simp add: batch_done_def batch_def batch_tx_def conn_call_def finish_call_def)
    next
      case (BatchFailed i err)
      with loop Some b obtain before x after rs u where "xs = before @ x # after" "i = length before"
        "runs (batch_step E ?w ?caps aj) before rs s u" "refused E ?w ?caps aj i x u err" by auto
      moreover from Some b BatchFailed have bt: "batch E ctx xs aj s =
          (Inl (FsError (err_code err) (err_message err) (JObject [(''index'', JNumber (show_nat i))])), s)"
        by (simp add: batch_def batch_tx_def conn_call_def finish_call_def)
      ultimately show ?thesis unfolding batch_done_def Let_def bt fst_conv snd_conv sum.case by blast
    qed
  qed
qed

text \<open>A batch whose operations all run completes.\<close>

lemma batch_completes:
  assumes "runs (batch_step E (cx_workspace_id ctx) (cx_capabilities ctx) aj) xs rs s t"
  shows "batch E ctx xs aj s = (Inr rs, t)"
proof -
  let ?step = "batch_step E (cx_workspace_id ctx) (cx_capabilities ctx) aj"
  have stuck: "\<not> runs ?step xs rs s t" if "xs = before @ x # after" "runs ?step before rs' s u" "?step x u = None"
    for before x after rs' u
    using that by (auto simp: runs_append runs_Cons dest: runs_determ)
  note post = batch_ok [where E = E and ctx = ctx and aj = aj and xs = xs and s = s, unfolded batch_done_def Let_def]
  show ?thesis
  proof (cases "fst (batch E ctx xs aj s)")
    case (Inl e)
    with post obtain before x after rs' u where "xs = before @ x # after" "runs ?step before rs' s u" "?step x u = None"
      by (auto simp: batch_step_def dest: refused_no_step)
    with stuck assms show ?thesis by blast
  next
    case (Inr rs')
    with post have "runs ?step xs rs' s (snd (batch E ctx xs aj s))" by simp
    with runs_determ [OF assms this] Inr show ?thesis by (metis prod.collapse)
  qed
qed

text \<open>Batches keep the store well formed.\<close>

lemma batch_serves:
  assumes "ext_ok E" "list_all legal_op xs" "serves E s"
  shows "serves E (snd (batch E ctx xs aj s))"
proof (cases "fst (batch E ctx xs aj s)")
  case (Inr rs)
  with batch_ok [where E = E and ctx = ctx and aj = aj and xs = xs and s = s]
  have "runs (batch_step E (cx_workspace_id ctx) (cx_capabilities ctx) aj) xs rs s (snd (batch E ctx xs aj s))"
    by (simp add: batch_done_def Let_def)
  from batch.runs_keep [OF this _ assms(3)] assms(1,2) show ?thesis by (simp add: list_all_iff)
next
  case (Inl e)
  with batch_ok [where E = E and ctx = ctx and aj = aj and xs = xs and s = s] assms(3) show ?thesis by (simp add: batch_done_def Let_def)
qed

end
