(* ===== verification/Search.thy ===== *)
theory Search
  imports Directory Content Mutate
begin

text \<open>
  \<open>fslite-sqlite/src/search.rs\<close>: glob, metadata find and content search. All three walk a
  subtree in the order (depth, name, id), at most \<open>WORK_BUDGET\<close> rows a call. The recursive
  query is the one of \<open>tree\<close> with the depth bounded by \<open>MAX_SUBTREE_DEPTH\<close>.
\<close>

definition WORK_BUDGET :: nat where "WORK_BUDGET = 5000"
definition MAX_SUBTREE_DEPTH :: nat where "MAX_SUBTREE_DEPTH = 4096"

type_synonym raw_descendant = tree_row
type_synonym cursor_pos = "int \<times> string \<times> uuid"

definition fetch_subtree_page ::
    "db \<Rightarrow> uuid \<Rightarrow> uuid \<Rightarrow> cursor_pos \<Rightarrow> nat \<Rightarrow> raw_descendant list option" where
  "fetch_subtree_page s w top_id after limit =
     fetch_tree_page s w top_id (Some MAX_SUBTREE_DEPTH) after limit"

record search_cursor =
  sc_v :: nat
  sc_workspace_id :: uuid
  sc_root :: string
  sc_last_depth :: int
  sc_last_name :: string
  sc_last_id :: uuid

definition encode_search_cursor ::
    "search_cursor codec \<Rightarrow> uuid \<Rightarrow> virtual_path \<Rightarrow> cursor_pos \<Rightarrow> string" where
  "encode_search_cursor C w root pos =
     enc C \<lparr>sc_v = 1, sc_workspace_id = w, sc_root = as_str root, sc_last_depth = fst pos,
            sc_last_name = fst (snd pos), sc_last_id = snd (snd pos)\<rparr>"

definition decode_search_cursor ::
    "search_cursor codec \<Rightarrow> string \<Rightarrow> uuid \<Rightarrow> virtual_path \<Rightarrow> cursor_pos fs_result" where
  "decode_search_cursor C raw w root = (case dec C raw of
     None \<Rightarrow> Inl (invalid_cursor raw)
   | Some p \<Rightarrow>
       if sc_v p \<noteq> 1 \<or> sc_workspace_id p \<noteq> w \<or> sc_root p \<noteq> as_str root
       then Inl (invalid_cursor raw)
       else Inr (sc_last_depth p, sc_last_name p, sc_last_id p))"

text \<open>The cursor of a request, decoded.\<close>

definition search_after ::
    "search_cursor codec \<Rightarrow> uuid \<Rightarrow> virtual_path \<Rightarrow> page_request \<Rightarrow> cursor_pos option fs_result" where
  "search_after C w root page = (case pr_cursor page of
     Some raw \<Rightarrow> res_bind (decode_search_cursor C raw w root) (\<lambda>p. Inr (Some p))
   | None \<Rightarrow> Inr None)"

subsection \<open>Patterns\<close>

datatype pattern_segment = PLiteral string | PGlob string | PDoubleStar

definition compile_pattern :: "string \<Rightarrow> pattern_segment list fs_result" where
  "compile_pattern pattern =
     (if \<not> prefix ''/'' pattern then Inl (invalid_path_or_name pattern)
      else Inr (map (\<lambda>segment.
                  if segment = ''**'' then PDoubleStar
                  else if CHR ''*'' \<in> set segment \<or> CHR ''?'' \<in> set segment then PGlob segment
                  else PLiteral segment)
             (filter (\<lambda>segment. segment \<noteq> '''') (split_on slash (tl pattern)))))"

text \<open>\<^const>\<open>None\<close> is the panic of \<open>expect\<close>: a segment that \<open>join\<close> rejects.\<close>

fun literal_prefix_from ::
    "virtual_path \<Rightarrow> nat \<Rightarrow> pattern_segment list \<Rightarrow> (virtual_path \<times> nat) option" where
  "literal_prefix_from path count (PLiteral name # segments) =
     (case vp_join path name of
        Inl _ \<Rightarrow> None
      | Inr path \<Rightarrow> literal_prefix_from path (count + 1) segments)"
| "literal_prefix_from path count segments = Some (path, count)"

definition literal_prefix :: "pattern_segment list \<Rightarrow> (virtual_path \<times> nat) option" where
  "literal_prefix segments = literal_prefix_from vp_root 0 segments"

text \<open>
  The two-pointer match over code points. The state holds the pattern and the text from the
  two positions on; \<open>star\<close> holds the pattern after the last star and the text at
  \<open>match_from\<close>.
\<close>

definition star_char :: string where "star_char = ''*''"
definition any_char :: string where "any_char = ''?''"

function wildcard_loop ::
    "(string list \<times> string list) option \<Rightarrow> string list \<Rightarrow> string list \<Rightarrow> bool" where
  "wildcard_loop star ps [] = (dropWhile (\<lambda>p. p = star_char) ps = [])"
| "wildcard_loop star ps (t # ts) =
     (if ps \<noteq> [] \<and> (hd ps = any_char \<or> hd ps = t) then wildcard_loop star (tl ps) ts
      else if ps \<noteq> [] \<and> hd ps = star_char then wildcard_loop (Some (tl ps, t # ts)) (tl ps) (t # ts)
      else (case star of
              Some (after_star, match_from) \<Rightarrow>
                wildcard_loop (Some (after_star, tl match_from)) after_star (tl match_from)
            | None \<Rightarrow> False))"
  by pat_completeness auto
termination
  by (relation "measures [\<lambda>(star, ps, ts). max (length ts) (case star of None \<Rightarrow> 0 | Some (_, m) \<Rightarrow> length m),
                          \<lambda>(star, ps, ts). length ps]")
    (auto split: option.splits)

definition wildcard_match :: "string \<Rightarrow> string \<Rightarrow> bool" where
  "wildcard_match pattern txt = wildcard_loop None (utf8_chars pattern) (utf8_chars txt)"

text \<open>The arm of \<open>DoubleStar\<close> is unreachable: \<open>glob_match\<close> handles it.\<close>

definition segment_matches :: "pattern_segment \<Rightarrow> string \<Rightarrow> bool" where
  "segment_matches segment name = (case segment of
     PLiteral expected \<Rightarrow> expected = name
   | PGlob pattern \<Rightarrow> wildcard_match pattern name
   | PDoubleStar \<Rightarrow> False)"

text \<open>One row of the table from the row upper, and the table row by row.\<close>

fun dp_cells :: "pattern_segment \<Rightarrow> bool \<Rightarrow> bool list \<Rightarrow> string list \<Rightarrow> bool list" where
  "dp_cells seg left (corner # upper # prev) (c # cs) =
     (let cell = (case seg of PDoubleStar \<Rightarrow> upper \<or> left
                  | _ \<Rightarrow> corner \<and> segment_matches seg c)
      in cell # dp_cells seg cell (upper # prev) cs)"
| "dp_cells seg left prev cs = []"

definition dp_row :: "string list \<Rightarrow> pattern_segment \<Rightarrow> bool list \<Rightarrow> bool list" where
  "dp_row candidate seg prev =
     (let start = (seg = PDoubleStar \<and> hd prev) in start # dp_cells seg start prev candidate)"

definition glob_match :: "pattern_segment list \<Rightarrow> string list \<Rightarrow> bool" where
  "glob_match pattern candidate =
     last (fold (dp_row candidate) pattern (True # replicate (length candidate) False))"

subsection \<open>glob\<close>

datatype glob_raw = GlobRootNotFound | GlobFound "raw_node list" "cursor_pos option"

definition pos_of :: "raw_descendant \<Rightarrow> cursor_pos" where
  "pos_of row = (tw_depth row, n_name (tw_node row), n_id (tw_node row))"

text \<open>
  The scan over the rows of one call: the matches, the last position, and whether the limit
  stopped it. \<open>glob_tx\<close> and \<open>find_tx\<close> hold the same loop.
\<close>

fun scan_rows ::
    "(raw_descendant \<Rightarrow> bool) \<Rightarrow> nat \<Rightarrow> raw_node list \<Rightarrow> cursor_pos option \<Rightarrow> raw_descendant list \<Rightarrow>
     raw_node list \<times> cursor_pos option \<times> bool" where
  "scan_rows is_match limit matches last_pos [] = (matches, last_pos, False)"
| "scan_rows is_match limit matches last_pos (row # rows) =
     (if is_match row then
        (let matches = matches @ [tw_node row]
         in if length matches \<ge> limit then (matches, Some (pos_of row), True)
            else scan_rows is_match limit matches (Some (pos_of row)) rows)
      else scan_rows is_match limit matches (Some (pos_of row)) rows)"

definition glob_tx ::
    "db \<Rightarrow> uuid \<Rightarrow> virtual_path \<Rightarrow> pattern_segment list \<Rightarrow> cursor_pos option \<Rightarrow> nat \<Rightarrow>
     glob_raw option" where
  "glob_tx s w prefix_path remaining after limit =
     (case resolve s w prefix_path of
        None \<Rightarrow> Some GlobRootNotFound
      | Some root \<Rightarrow>
          let matches = (if after = None \<and> glob_match remaining [] then [root] else [])
          in if matches \<noteq> [] \<and> length matches \<ge> limit
             then Some (GlobFound matches (Some (0, '''', n_id root)))
             else do {
               rows \<leftarrow> fetch_subtree_page s w (n_id root)
                  (case after of Some p \<Rightarrow> p | None \<Rightarrow> (0, '''', '''')) (WORK_BUDGET + 1);
               let budget_exhausted = length rows > WORK_BUDGET;
                   scan_count = (if budget_exhausted then WORK_BUDGET else length rows);
                   (matches, last_pos, stopped_early) =
                     scan_rows (\<lambda>row. glob_match remaining (split_on slash (tw_relative_path row)))
                       limit matches None (take scan_count rows)
               in Some (GlobFound matches
                          (if stopped_early \<or> budget_exhausted then last_pos else None)) })"

text \<open>\<^const>\<open>None\<close> is the panic of \<open>literal_prefix\<close>.\<close>

definition glob ::
    "ext \<Rightarrow> search_cursor codec \<Rightarrow> uuid \<Rightarrow> string \<Rightarrow> page_request \<Rightarrow> db \<Rightarrow>
     node page fs_result option" where
  "glob E C w pattern page s =
     (case compile_pattern pattern of
        Inl err \<Rightarrow> Some (Inl err)
      | Inr compiled \<Rightarrow> do {
          (prefix_path, prefix_len) \<leftarrow> literal_prefix compiled;
          let remaining = drop prefix_len compiled;
              limit = max (pr_limit page) 1
          in (case search_after C w prefix_path page of
                Inl err \<Rightarrow> Some (Inl err)
              | Inr after \<Rightarrow> do {
                  raw \<leftarrow> glob_tx s w prefix_path remaining after limit;
                  Some (case raw of
                    GlobRootNotFound \<Rightarrow> Inr \<lparr>pg_items = [], pg_next_cursor = None\<rparr>
                  | GlobFound matches pos \<Rightarrow>
                      res_bind (collect_results (map (into_node E) matches)) (\<lambda>items.
                      Inr \<lparr>pg_items = items,
                           pg_next_cursor = map_option (encode_search_cursor C w prefix_path) pos\<rparr>)) }) })"

subsection \<open>find\<close>

definition kind_code :: "node_kind \<Rightarrow> int" where
  "kind_code kind = (case kind of
     Directory \<Rightarrow> DIRECTORY_KIND | File \<Rightarrow> FILE_KIND | Symlink \<Rightarrow> SYMLINK_KIND)"

definition predicate_matches :: "raw_node \<Rightarrow> find_query \<Rightarrow> bool" where
  "predicate_matches n query \<longleftrightarrow>
     (case fq_kind query of Some kind \<Rightarrow> n_kind n = kind_code kind | None \<Rightarrow> True) \<and>
     (case fq_min_logical_size query of Some m \<Rightarrow> \<not> as_u64 (n_size n) < m | None \<Rightarrow> True) \<and>
     (case fq_max_logical_size query of Some m \<Rightarrow> \<not> as_u64 (n_size n) > m | None \<Rightarrow> True) \<and>
     (case fq_modified_after_ms query of Some after \<Rightarrow> \<not> n_modified_at_ms n \<le> after | None \<Rightarrow> True) \<and>
     (case fq_modified_before_ms query of Some before \<Rightarrow> \<not> n_modified_at_ms n \<ge> before
      | None \<Rightarrow> True) \<and>
     (case fq_name_contains query of Some sub \<Rightarrow> sublist sub (n_name n) | None \<Rightarrow> True)"

definition attributes_match :: "ext \<Rightarrow> db \<Rightarrow> uuid \<Rightarrow> (string \<times> json) list \<Rightarrow> bool" where
  "attributes_match E s node_id required =
     (if required = [] then True
      else list_all (\<lambda>(key, val). map_of (build_attributes_map E s node_id) key = Some val) required)"

datatype find_raw = FindRootNotFound | FindFound "raw_node list" "cursor_pos option"

definition find_tx ::
    "ext \<Rightarrow> db \<Rightarrow> uuid \<Rightarrow> virtual_path \<Rightarrow> find_query \<Rightarrow> cursor_pos option \<Rightarrow> nat \<Rightarrow>
     find_raw option" where
  "find_tx E s w root_path query after limit =
     (case resolve s w root_path of
        None \<Rightarrow> Some FindRootNotFound
      | Some root \<Rightarrow>
          let is_match = (\<lambda>n. predicate_matches n query
                              \<and> attributes_match E s (n_id n) (fq_attributes query));
              matches = (if after = None \<and> is_match root then [root] else [])
          in if matches \<noteq> [] \<and> length matches \<ge> limit
             then Some (FindFound matches (Some (0, '''', n_id root)))
             else do {
               rows \<leftarrow> fetch_subtree_page s w (n_id root)
                  (case after of Some p \<Rightarrow> p | None \<Rightarrow> (0, '''', '''')) (WORK_BUDGET + 1);
               let budget_exhausted = length rows > WORK_BUDGET;
                   scan_count = (if budget_exhausted then WORK_BUDGET else length rows);
                   (matches, last_pos, stopped_early) =
                     scan_rows (\<lambda>row. is_match (tw_node row)) limit matches None
                       (take scan_count rows)
               in Some (FindFound matches
                          (if stopped_early \<or> budget_exhausted then last_pos else None)) })"

definition find_op ::
    "ext \<Rightarrow> search_cursor codec \<Rightarrow> uuid \<Rightarrow> find_query \<Rightarrow> page_request \<Rightarrow> db \<Rightarrow>
     node page fs_result option" where
  "find_op E C w query page s =
     (let limit = max (pr_limit page) 1;
          root = fq_root query
      in (case search_after C w root page of
            Inl err \<Rightarrow> Some (Inl err)
          | Inr after \<Rightarrow> do {
              raw \<leftarrow> find_tx E s w root query after limit;
              Some (case raw of
                FindRootNotFound \<Rightarrow> Inl (not_found (as_str root))
              | FindFound matches pos \<Rightarrow>
                  res_bind (collect_results (map (into_node E) matches)) (\<lambda>items.
                  Inr \<lparr>pg_items = items,
                       pg_next_cursor = map_option (encode_search_cursor C w root) pos\<rparr>)) }))"

subsection \<open>search_content\<close>

definition SEARCH_BYTE_BUDGET :: nat where "SEARCH_BYTE_BUDGET = 16 * 1024 * 1024"
definition PREVIEW_CONTEXT_BYTES :: nat where "PREVIEW_CONTEXT_BYTES = 32"

definition find_all_occurrences :: "byte list \<Rightarrow> byte list \<Rightarrow> nat list" where
  "find_all_occurrences haystack needle =
     (if needle = [] \<or> length haystack < length needle then []
      else filter (\<lambda>start. take (length needle) (drop start haystack) = needle)
             [0..<Suc (length haystack - length needle)])"

record raw_search_match =
  rs_node :: raw_node
  rs_relative_path :: string
  rs_start :: nat
  rs_end :: nat
  rs_preview :: "byte list"

definition into_search_match ::
    "ext \<Rightarrow> virtual_path \<Rightarrow> raw_search_match \<Rightarrow> search_match fs_result" where
  "into_search_match E root_path m =
     res_bind (if rs_relative_path m = '''' then Inr root_path
               else vp_join root_path (rs_relative_path m)) (\<lambda>path.
     res_bind (into_node E (rs_node m)) (\<lambda>n.
     Inr \<lparr>sm_node = n, sm_path = path,
          sm_range = br_new (word_of_nat (rs_start m)) (word_of_nat (rs_end m)),
          sm_preview = rs_preview m\<rparr>))"

text \<open>The matches of one buffer, which starts at \<open>buffer_base\<close> of the file.\<close>

definition buffer_matches ::
    "raw_node \<Rightarrow> string \<Rightarrow> byte list \<Rightarrow> nat \<Rightarrow> byte list \<Rightarrow> raw_search_match list" where
  "buffer_matches node relative_path needle buffer_base buffer =
     map (\<lambda>start.
       let preview_start = start - PREVIEW_CONTEXT_BYTES;
           preview_end = min (start + length needle + PREVIEW_CONTEXT_BYTES) (length buffer)
       in \<lparr>rs_node = node, rs_relative_path = relative_path, rs_start = buffer_base + start,
           rs_end = buffer_base + start + length needle,
           rs_preview = take (preview_end - preview_start) (drop preview_start buffer)\<rparr>)
       (find_all_occurrences buffer needle)"

function search_chunks ::
    "db \<Rightarrow> uuid \<Rightarrow> raw_node \<Rightarrow> string \<Rightarrow> byte list \<Rightarrow> nat \<Rightarrow> nat \<Rightarrow> byte list \<Rightarrow> nat \<Rightarrow>
     raw_search_match list \<times> nat" where
  "search_chunks s g node relative_path needle chunk_index buffer_base overlap bytes_scanned =
     (let chunk = fetch_chunk_bytes s g (int chunk_index)
      in if bytes_scanned \<ge> SEARCH_BYTE_BUDGET \<or> chunk = [] then ([], bytes_scanned)
         else
           let keep = length needle - 1;
               buffer = overlap @ chunk;
               next_overlap_start = length buffer - keep;
               (rest, scanned) = search_chunks s g node relative_path needle (Suc chunk_index)
                  (buffer_base + next_overlap_start) (drop next_overlap_start buffer)
                  (bytes_scanned + length chunk)
           in (buffer_matches node relative_path needle buffer_base buffer @ rest, scanned))"
  by pat_completeness auto
termination
  by (relation "measure (\<lambda>(s, g, node, relative_path, needle, chunk_index, buffer_base, overlap,
        bytes_scanned). SEARCH_BYTE_BUDGET - bytes_scanned)")
    (auto simp: not_le intro!: diff_less_mono2)

declare search_chunks.simps [simp del]

definition search_file ::
    "db \<Rightarrow> raw_node \<Rightarrow> string \<Rightarrow> byte list \<Rightarrow> nat \<Rightarrow> raw_search_match list \<times> nat" where
  "search_file s node relative_path needle bytes_scanned =
     (case n_content_generation_id node of
        None \<Rightarrow> ([], bytes_scanned)
      | Some g \<Rightarrow> search_chunks s g node relative_path needle 0 0 [] bytes_scanned)"

datatype search_raw = SearchRootNotFound | SearchFound "raw_search_match list" "cursor_pos option"

text \<open>Pushing the matches of a file until the limit: the list, and whether it was reached.\<close>

fun push_matches ::
    "nat \<Rightarrow> raw_search_match list \<Rightarrow> raw_search_match list \<Rightarrow> raw_search_match list \<times> bool" where
  "push_matches limit matches [] = (matches, False)"
| "push_matches limit matches (m # ms) =
     (if length (matches @ [m]) \<ge> limit then (matches @ [m], True)
      else push_matches limit (matches @ [m]) ms)"

fun scan_files ::
    "db \<Rightarrow> byte list \<Rightarrow> nat \<Rightarrow> raw_search_match list \<Rightarrow> nat \<Rightarrow> cursor_pos option \<Rightarrow>
     raw_descendant list \<Rightarrow> raw_search_match list \<times> cursor_pos option \<times> bool" where
  "scan_files s needle limit matches bytes_scanned last_pos [] = (matches, last_pos, False)"
| "scan_files s needle limit matches bytes_scanned last_pos (row # rows) =
     (let (file_matches, bytes_scanned) =
            (if n_kind (tw_node row) = FILE_KIND
             then search_file s (tw_node row) (tw_relative_path row) needle bytes_scanned
             else ([], bytes_scanned));
          (matches, reached) = push_matches limit matches file_matches
      in if reached \<or> bytes_scanned \<ge> SEARCH_BYTE_BUDGET then (matches, Some (pos_of row), True)
         else scan_files s needle limit matches bytes_scanned (Some (pos_of row)) rows)"

definition search_content_tx ::
    "db \<Rightarrow> uuid \<Rightarrow> virtual_path \<Rightarrow> byte list \<Rightarrow> cursor_pos option \<Rightarrow> nat \<Rightarrow> search_raw option" where
  "search_content_tx s w root_path needle after limit =
     (case resolve s w root_path of
        None \<Rightarrow> Some SearchRootNotFound
      | Some root \<Rightarrow>
          let (file_matches, bytes_scanned) =
                (if after = None \<and> n_kind root = FILE_KIND
                 then search_file s root '''' needle 0 else ([], 0));
              (matches, reached) = push_matches limit [] file_matches
          in if reached \<or> bytes_scanned \<ge> SEARCH_BYTE_BUDGET
             then Some (SearchFound matches (Some (0, '''', n_id root)))
             else do {
               rows \<leftarrow> fetch_subtree_page s w (n_id root)
                  (case after of Some p \<Rightarrow> p | None \<Rightarrow> (0, '''', '''')) (WORK_BUDGET + 1);
               let budget_exhausted_nodes = length rows > WORK_BUDGET;
                   scan_count = (if budget_exhausted_nodes then WORK_BUDGET else length rows);
                   (matches, last_pos, stopped_early) =
                     scan_files s needle limit matches bytes_scanned None (take scan_count rows)
               in Some (SearchFound matches
                          (if stopped_early \<or> budget_exhausted_nodes then last_pos else None)) })"

definition search_content ::
    "ext \<Rightarrow> search_cursor codec \<Rightarrow> uuid \<Rightarrow> content_query \<Rightarrow> page_request \<Rightarrow> db \<Rightarrow>
     search_match page fs_result option" where
  "search_content E C w query page s =
     (if cq_needle query = []
      then Some (Inl (invalid_range ''content search needle must not be empty''))
      else
        let limit = max (pr_limit page) 1;
            root = cq_root query
        in (case search_after C w root page of
              Inl err \<Rightarrow> Some (Inl err)
            | Inr after \<Rightarrow> do {
                raw \<leftarrow> search_content_tx s w root (cq_needle query) after limit;
                Some (case raw of
                  SearchRootNotFound \<Rightarrow> Inl (not_found (as_str root))
                | SearchFound matches pos \<Rightarrow>
                    res_bind (collect_results (map (into_search_match E root) matches)) (\<lambda>items.
                    Inr \<lparr>pg_items = items,
                         pg_next_cursor = map_option (encode_search_cursor C w root) pos\<rparr>)) }))"

end
