(* ===== verification/Api.thy ===== *)
theory Api
  imports Batch Search File_Ops Workspace
begin

text \<open>
  \<open>fslite-sqlite/src/lib.rs\<close>: the operations of \<open>SqliteFileSystem\<close>. Each checks the capability
  it needs on the request context and passes the request, with the actor metadata as JSON, to
  the function of the component. A request without the capability changes nothing.
\<close>

definition actor_json :: "ext \<Rightarrow> request_context \<Rightarrow> string" where
  "actor_json E ctx =
     (case actor_to_json E (cx_actor_metadata ctx) of Some j \<Rightarrow> j | None \<Rightarrow> ''{}'')"

definition require_capability :: "request_context \<Rightarrow> capability \<Rightarrow> string \<Rightarrow> unit fs_result" where
  "require_capability ctx c subject =
     (if has_capability ctx c then Inr () else Inl (permission_denied subject))"

text \<open>\<open>require_capability(..)?\<close> before an operation on the store, and before a query.\<close>

definition guard_op ::
    "request_context \<Rightarrow> capability \<Rightarrow> string \<Rightarrow> (db \<Rightarrow> 'a fs_result \<times> db) \<Rightarrow> db \<Rightarrow>
     'a fs_result \<times> db" where
  "guard_op ctx c subject f s =
     (case require_capability ctx c subject of Inl err \<Rightarrow> (Inl err, s) | Inr _ \<Rightarrow> f s)"

definition guard_query ::
    "request_context \<Rightarrow> capability \<Rightarrow> string \<Rightarrow> (db \<Rightarrow> 'a fs_result) \<Rightarrow> db \<Rightarrow> 'a fs_result" where
  "guard_query ctx c subject f s = res_bind (require_capability ctx c subject) (\<lambda>_. f s)"

text \<open>The same for a query that may not end (\<^const>\<open>None\<close>).\<close>

definition guard_scan ::
    "request_context \<Rightarrow> capability \<Rightarrow> string \<Rightarrow> (db \<Rightarrow> 'a fs_result option) \<Rightarrow> db \<Rightarrow>
     'a fs_result option" where
  "guard_scan ctx c subject f s =
     (case require_capability ctx c subject of Inl err \<Rightarrow> Some (Inl err) | Inr _ \<Rightarrow> f s)"

subsection \<open>Queries\<close>

definition fs_workspace_usage ::
    "request_context \<Rightarrow> db \<Rightarrow> workspace_usage fs_result" where
  "fs_workspace_usage ctx =
     guard_query ctx CapRead (cx_workspace_id ctx)
       (workspace_usage_op (cx_workspace_id ctx))"

definition fs_stat ::
    "ext \<Rightarrow> request_context \<Rightarrow> virtual_path \<Rightarrow>
     stat_options \<Rightarrow> db \<Rightarrow> node fs_result" where
  "fs_stat E ctx path options =
     guard_query ctx CapRead (as_str path)
       (stat_op E (cx_workspace_id ctx) path (so_follow_symlinks options))"

definition fs_exists ::
    "ext \<Rightarrow> request_context \<Rightarrow> virtual_path \<Rightarrow>
     stat_options \<Rightarrow> db \<Rightarrow> bool fs_result" where
  "fs_exists E ctx path options =
     guard_query ctx CapRead (as_str path)
       (exists_op E (cx_workspace_id ctx) path (so_follow_symlinks options))"

definition fs_read_dir ::
    "ext \<Rightarrow> request_context \<Rightarrow> dir_cursor codec \<Rightarrow>
     virtual_path \<Rightarrow> page_request \<Rightarrow> db \<Rightarrow> node page fs_result" where
  "fs_read_dir E ctx C path page =
     guard_query ctx CapRead (as_str path)
       (read_dir E C (cx_workspace_id ctx) path page)"

definition fs_read ::
    "request_context \<Rightarrow> virtual_path \<Rightarrow> read_options \<Rightarrow>
     db \<Rightarrow> file_read fs_result" where
  "fs_read ctx path options =
     guard_query ctx CapRead (as_str path)
       (read_op (cx_workspace_id ctx) path options)"

definition fs_read_link ::
    "request_context \<Rightarrow> virtual_path \<Rightarrow> db \<Rightarrow>
     link_target fs_result" where
  "fs_read_link ctx path =
     guard_query ctx CapRead (as_str path)
       (read_link (cx_workspace_id ctx) path)"

definition fs_list_trash ::
    "ext \<Rightarrow> request_context \<Rightarrow> trash_cursor codec \<Rightarrow>
     page_request \<Rightarrow> db \<Rightarrow> trash_entry page fs_result" where
  "fs_list_trash E ctx C page =
     guard_query ctx CapRead (cx_workspace_id ctx)
       (list_trash E C (cx_workspace_id ctx) page)"

definition fs_changes ::
    "ext \<Rightarrow> request_context \<Rightarrow> change_cursor codec \<Rightarrow>
     string option \<Rightarrow> page_request \<Rightarrow> db \<Rightarrow>
     change page fs_result" where
  "fs_changes E ctx C after page =
     guard_query ctx CapRead (cx_workspace_id ctx)
       (changes_op E C (cx_workspace_id ctx) after page)"

definition fs_tree ::
    "ext \<Rightarrow> request_context \<Rightarrow> tree_cursor codec \<Rightarrow>
     virtual_path \<Rightarrow> tree_options \<Rightarrow> page_request \<Rightarrow>
     db \<Rightarrow> tree_entry page fs_result option" where
  "fs_tree E ctx C path options page =
     guard_scan ctx CapRead (as_str path)
       (tree_op E C (cx_workspace_id ctx) path options page)"

definition fs_glob ::
    "ext \<Rightarrow> request_context \<Rightarrow> search_cursor codec \<Rightarrow>
     string \<Rightarrow> page_request \<Rightarrow> db \<Rightarrow> node page fs_result option" where
  "fs_glob E ctx C pattern page =
     guard_scan ctx CapRead (cx_workspace_id ctx)
       (glob E C (cx_workspace_id ctx) pattern page)"

definition fs_find ::
    "ext \<Rightarrow> request_context \<Rightarrow> search_cursor codec \<Rightarrow>
     find_query \<Rightarrow> page_request \<Rightarrow> db \<Rightarrow>
     node page fs_result option" where
  "fs_find E ctx C query page =
     guard_scan ctx CapRead (cx_workspace_id ctx)
       (find_op E C (cx_workspace_id ctx) query page)"

definition fs_search_content ::
    "ext \<Rightarrow> request_context \<Rightarrow> search_cursor codec \<Rightarrow>
     content_query \<Rightarrow> page_request \<Rightarrow> db \<Rightarrow>
     search_match page fs_result option" where
  "fs_search_content E ctx C query page =
     guard_scan ctx CapRead (cx_workspace_id ctx)
       (search_content E C (cx_workspace_id ctx) query page)"

subsection \<open>Mutations\<close>

definition fs_mkdir ::
    "ext \<Rightarrow> request_context \<Rightarrow> virtual_path \<Rightarrow>
     create_options \<Rightarrow> db \<Rightarrow> node fs_result \<times> db" where
  "fs_mkdir E ctx path options =
     guard_op ctx CapWrite (as_str path)
       (mkdir E (cx_workspace_id ctx) path options (actor_json E ctx))"

definition fs_write ::
    "ext \<Rightarrow> request_context \<Rightarrow> virtual_path \<Rightarrow>
     byte list fs_result list \<Rightarrow> write_options \<Rightarrow> db \<Rightarrow>
     node fs_result \<times> db" where
  "fs_write E ctx path source options =
     guard_op ctx CapWrite (as_str path)
       (write_op E (cx_workspace_id ctx) path source options (actor_json E ctx))"

definition fs_write_at ::
    "ext \<Rightarrow> request_context \<Rightarrow> virtual_path \<Rightarrow> nat \<Rightarrow>
     byte list fs_result list \<Rightarrow> write_options \<Rightarrow> db \<Rightarrow>
     node fs_result \<times> db" where
  "fs_write_at E ctx path offset source options =
     guard_op ctx CapWrite (as_str path)
       (write_at E (cx_workspace_id ctx) path offset source options (actor_json E ctx))"

definition fs_append ::
    "ext \<Rightarrow> request_context \<Rightarrow> virtual_path \<Rightarrow>
     byte list fs_result list \<Rightarrow> write_options \<Rightarrow> db \<Rightarrow>
     node fs_result \<times> db" where
  "fs_append E ctx path source options =
     guard_op ctx CapWrite (as_str path)
       (append_op E (cx_workspace_id ctx) path source options (actor_json E ctx))"

definition fs_truncate ::
    "ext \<Rightarrow> request_context \<Rightarrow> virtual_path \<Rightarrow> nat \<Rightarrow>
     mutation_options \<Rightarrow> db \<Rightarrow> node fs_result \<times> db" where
  "fs_truncate E ctx path len options =
     guard_op ctx CapWrite (as_str path)
       (truncate_op E (cx_workspace_id ctx) path len options (actor_json E ctx))"

definition fs_touch ::
    "ext \<Rightarrow> request_context \<Rightarrow> virtual_path \<Rightarrow>
     touch_options \<Rightarrow> db \<Rightarrow> node fs_result \<times> db" where
  "fs_touch E ctx path options =
     guard_op ctx CapWrite (as_str path)
       (touch E (cx_workspace_id ctx) path options (actor_json E ctx))"

definition fs_copy ::
    "ext \<Rightarrow> request_context \<Rightarrow> virtual_path \<Rightarrow>
     virtual_path \<Rightarrow> copy_options \<Rightarrow> db \<Rightarrow>
     node fs_result \<times> db" where
  "fs_copy E ctx from_path to_path options =
     guard_op ctx CapWrite (as_str to_path)
       (copy_op E (cx_workspace_id ctx) from_path to_path options (actor_json E ctx))"

definition fs_move_path ::
    "ext \<Rightarrow> request_context \<Rightarrow> virtual_path \<Rightarrow>
     virtual_path \<Rightarrow> move_options \<Rightarrow> db \<Rightarrow>
     node fs_result \<times> db" where
  "fs_move_path E ctx from_path to_path options =
     guard_op ctx CapWrite (as_str to_path)
       (move_path E (cx_workspace_id ctx) from_path to_path options (actor_json E ctx))"

definition fs_remove ::
    "ext \<Rightarrow> request_context \<Rightarrow> virtual_path \<Rightarrow>
     remove_options \<Rightarrow> db \<Rightarrow> unit fs_result \<times> db" where
  "fs_remove E ctx path options =
     guard_op ctx CapDelete (as_str path)
       (remove_op E (cx_workspace_id ctx) path options (actor_json E ctx))"

definition fs_symlink ::
    "ext \<Rightarrow> request_context \<Rightarrow> link_target \<Rightarrow>
     virtual_path \<Rightarrow> create_options \<Rightarrow> db \<Rightarrow>
     node fs_result \<times> db" where
  "fs_symlink E ctx target link options =
     guard_op ctx CapWrite (as_str link)
       (symlink E (cx_workspace_id ctx) target link options (actor_json E ctx))"

definition fs_trash ::
    "ext \<Rightarrow> request_context \<Rightarrow> virtual_path \<Rightarrow>
     mutation_options \<Rightarrow> db \<Rightarrow> trash_entry fs_result \<times> db" where
  "fs_trash E ctx path options =
     guard_op ctx CapTrashRestore (as_str path)
       (trash E (cx_workspace_id ctx) path options (actor_json E ctx))"

definition fs_restore ::
    "ext \<Rightarrow> request_context \<Rightarrow> uuid \<Rightarrow>
     virtual_path option \<Rightarrow> mutation_options \<Rightarrow> db \<Rightarrow>
     node fs_result \<times> db" where
  "fs_restore E ctx trash_id dest options =
     guard_op ctx CapTrashRestore (cx_workspace_id ctx)
       (restore E (cx_workspace_id ctx) trash_id dest options (actor_json E ctx))"

definition fs_purge ::
    "ext \<Rightarrow> request_context \<Rightarrow> uuid \<Rightarrow> db \<Rightarrow>
     unit fs_result \<times> db" where
  "fs_purge E ctx trash_id =
     guard_op ctx CapDelete (cx_workspace_id ctx)
       (purge E (cx_workspace_id ctx) trash_id (actor_json E ctx))"

definition fs_set_attribute ::
    "ext \<Rightarrow> request_context \<Rightarrow> virtual_path \<Rightarrow>
     string \<Rightarrow> byte list \<Rightarrow> mutation_options \<Rightarrow> db \<Rightarrow>
     node fs_result \<times> db" where
  "fs_set_attribute E ctx path key val options =
     guard_op ctx CapWrite (as_str path)
       (set_attribute E (cx_workspace_id ctx) path key val options (actor_json E ctx))"

definition fs_remove_attribute ::
    "ext \<Rightarrow> request_context \<Rightarrow> virtual_path \<Rightarrow>
     string \<Rightarrow> mutation_options \<Rightarrow> db \<Rightarrow>
     node fs_result \<times> db" where
  "fs_remove_attribute E ctx path key options =
     guard_op ctx CapWrite (as_str path)
       (remove_attribute E (cx_workspace_id ctx) path key options (actor_json E ctx))"

text \<open>A batch checks the capability of each operation itself.\<close>

definition fs_batch ::
    "ext \<Rightarrow> request_context \<Rightarrow> batch_operation list \<Rightarrow> db \<Rightarrow> batch_result list fs_result \<times> db" where
  "fs_batch E ctx operations = batch E ctx operations (actor_json E ctx)"

end
