(* ===== verification/Requests.thy ===== *)
theory Requests
  imports Batches Api Workspace
begin

text \<open>
  The life of a store: every request a client can make, and the stores they lead to from the
  empty database. The invariant of the store holds in all of them, whatever the requests ask
  for: also a refused, a failing or a never ending one leaves a well-formed store.
\<close>

lemma stored_file:
  assumes ok: "wf E s" and f: "lookup_segs s w segs = Some m" "n_kind m = FILE_KIND"
  obtains bs where "file_at s w segs bs" "n_size m = int (length bs)"
proof -
  obtain r where r: "r \<in> set (nodes s)" "m = map_row r" using lookup_visible [OF f(1)] by (auto simp: visible_def)
  then have "row_content_ok s r" using wfD(4) [OF ok] by (simp add: content_ok_def)
  moreover have "n_kind r = FILE_KIND" using r(2) f(2) by simp
  ultimately obtain g where g: "n_content_generation_id r = Some g" "generation_ok s r g"
    unfolding row_content_ok_def by metis
  then obtain bs where "n_size r = int (length bs)" "gen_holds s g bs" by (auto simp: generation_ok_def)
  with that f g(1) r(2) show thesis by (auto simp: file_at_def)
qed

subsection \<open>Requests on a workspace that does not exist\<close>

lemma no_workspace_quota: "w \<notin> w_id ` set (workspaces s) \<Longrightarrow> max_file_bytes s w = Inl (not_found w)"
  by (auto simp: max_file_bytes_def fetch_max_file_bytes_def find_None_iff split: option.splits)

lemma write_op_wf:
  assumes "ext_ok E" "wf E s" "canonical path"
  shows "wf E (snd (write_op E w path source options aj s))"
proof (cases "w \<in> w_id ` set (workspaces s)")
  case True
  from write_op_ok [OF assms(1,2) this assms(3)] show ?thesis by (simp add: commits_def)
next
  case False
  with assms(2) show ?thesis by (simp add: write_op_def no_workspace_quota)
qed

lemma write_at_impl_wf:
  assumes E: "ext_ok E" and ok: "wf E s" and fit: "sizes_fit s" and path: "canonical path"
  shows "wf E (snd (write_at_impl E w path offset source create expected aj keep s))"
proof (cases "w \<in> w_id ` set (workspaces s)")
  case w: True
  have wr: ?thesis if "\<And>m. lookup_segs s w (vp_segments path) = Some m \<Longrightarrow> n_kind m = FILE_KIND \<Longrightarrow>
      file_at s w (vp_segments path) old" "lookup_segs s w (vp_segments path) = None \<Longrightarrow> old = []" for old
  proof -
    have "spliced E s w path aj old offset (case source of Some src \<Rightarrow> src | None \<Rightarrow> []) keep
        (accepts s w (vp_segments path) create expected)
        (write_at_impl E w path offset source create expected aj keep s)"
      by (rule write_at_impl_ok [OF E ok fit w path that])
    then show ?thesis by (simp add: spliced_def)
  qed
  show ?thesis
  proof (cases "\<exists>m. lookup_segs s w (vp_segments path) = Some m \<and> n_kind m = FILE_KIND")
    case True
    then obtain bs where "file_at s w (vp_segments path) bs" using stored_file [OF ok] by metis
    with True show ?thesis by (intro wr [of bs]) auto
  next
    case False
    then show ?thesis by (intro wr [of "[]"]) auto
  qed
next
  case False
  with ok show ?thesis
    by (auto simp: write_at_impl_def no_workspace_quota Let_def split: sum.splits)
qed

lemma append_op_wf:
  assumes "ext_ok E" "wf E s" "sizes_fit s" "canonical path"
  shows "wf E (snd (append_op E w path source options aj s))"
  using write_at_impl_wf [OF assms] assms(2) by (auto simp: append_op_def Let_def split: sum.splits)

lemma mkdir_wf:
  assumes E: "ext_ok E" and ok: "wf E s" and path: "canonical path"
  shows "wf E (snd (mkdir E w path options aj s))"
proof (cases "vp_name path")
  case (Some nm)
  with path obtain ss where "vp_segments path = ss @ [nm]" "list_all valid_seg (ss @ [nm])" by (rule vp_name_SomeE)
  with mkdir_tx_wf [OF E ok, of "vp_segments path" w options aj] Some show ?thesis
    by (auto simp: mkdir_def finish_call_Some)
qed (use ok in \<open>simp add: mkdir_def\<close>)

subsection \<open>The requests\<close>

datatype request =
    RequestCreateWorkspace workspace_options
  | RequestDeleteWorkspace uuid
  | RequestResetWorkspace uuid
  | RequestMkdir request_context virtual_path create_options
  | RequestWrite request_context virtual_path "byte list fs_result list" write_options
  | RequestWriteAt request_context virtual_path nat "byte list fs_result list" write_options
  | RequestAppend request_context virtual_path "byte list fs_result list" write_options
  | RequestTruncate request_context virtual_path nat mutation_options
  | RequestTouch request_context virtual_path touch_options
  | RequestCopy request_context virtual_path virtual_path copy_options
  | RequestMove request_context virtual_path virtual_path move_options
  | RequestRemove request_context virtual_path remove_options
  | RequestSymlink request_context link_target virtual_path create_options
  | RequestTrash request_context virtual_path mutation_options
  | RequestRestore request_context uuid "virtual_path option" mutation_options
  | RequestPurge request_context uuid
  | RequestSetAttribute request_context virtual_path string "byte list" mutation_options
  | RequestRemoveAttribute request_context virtual_path string mutation_options
  | RequestBatch request_context "batch_operation list"

text \<open>The error a request reports, if any, and the store after it; the queries change nothing.\<close>

definition report :: "'a fs_result \<times> db \<Rightarrow> fs_error option \<times> db" where
  "report r = (case fst r of Inl e \<Rightarrow> Some e | Inr _ \<Rightarrow> None, snd r)"

fun perform :: "ext \<Rightarrow> request \<Rightarrow> db \<Rightarrow> fs_error option \<times> db" where
  "perform E (RequestCreateWorkspace options) s = report (create_workspace E options s)"
| "perform E (RequestDeleteWorkspace w) s = report (delete_workspace w s)"
| "perform E (RequestResetWorkspace w) s = report (reset_workspace E w s)"
| "perform E (RequestMkdir ctx path options) s = report (fs_mkdir E ctx path options s)"
| "perform E (RequestWrite ctx path source options) s = report (fs_write E ctx path source options s)"
| "perform E (RequestWriteAt ctx path offset source options) s = report (fs_write_at E ctx path offset source options s)"
| "perform E (RequestAppend ctx path source options) s = report (fs_append E ctx path source options s)"
| "perform E (RequestTruncate ctx path len options) s = report (fs_truncate E ctx path len options s)"
| "perform E (RequestTouch ctx path options) s = report (fs_touch E ctx path options s)"
| "perform E (RequestCopy ctx from_path to_path options) s = report (fs_copy E ctx from_path to_path options s)"
| "perform E (RequestMove ctx from_path to_path options) s = report (fs_move_path E ctx from_path to_path options s)"
| "perform E (RequestRemove ctx path options) s = report (fs_remove E ctx path options s)"
| "perform E (RequestSymlink ctx target link options) s = report (fs_symlink E ctx target link options s)"
| "perform E (RequestTrash ctx path options) s = report (fs_trash E ctx path options s)"
| "perform E (RequestRestore ctx tid dest options) s = report (fs_restore E ctx tid dest options s)"
| "perform E (RequestPurge ctx tid) s = report (fs_purge E ctx tid s)"
| "perform E (RequestSetAttribute ctx path key val options) s = report (fs_set_attribute E ctx path key val options s)"
| "perform E (RequestRemoveAttribute ctx path key options) s = report (fs_remove_attribute E ctx path key options s)"
| "perform E (RequestBatch ctx operations) s = report (fs_batch E ctx operations s)"

definition after :: "ext \<Rightarrow> request \<Rightarrow> db \<Rightarrow> db" where
  "after E rq s = snd (perform E rq s)"

lemma snd_report [simp]: "snd (report r) = snd r"
  by (simp add: report_def)

lemmas after_simps = after_def perform.simps snd_report

text \<open>Paths and link targets are made by the parsers of the core.\<close>

fun legal :: "request \<Rightarrow> bool" where
  "legal (RequestCreateWorkspace _) = True"
| "legal (RequestDeleteWorkspace _) = True"
| "legal (RequestResetWorkspace _) = True"
| "legal (RequestMkdir _ path _) = canonical path"
| "legal (RequestWrite _ path _ _) = canonical path"
| "legal (RequestWriteAt _ path _ _ _) = canonical path"
| "legal (RequestAppend _ path _ _) = canonical path"
| "legal (RequestTruncate _ path _ _) = canonical path"
| "legal (RequestTouch _ path _) = canonical path"
| "legal (RequestCopy _ from_path to_path _) = (canonical from_path \<and> canonical to_path)"
| "legal (RequestMove _ from_path to_path _) = (canonical from_path \<and> canonical to_path)"
| "legal (RequestRemove _ path _) = canonical path"
| "legal (RequestSymlink _ target link _) = (valid_target target \<and> canonical link)"
| "legal (RequestTrash _ path _) = canonical path"
| "legal (RequestRestore _ _ dest _) = pred_option canonical dest"
| "legal (RequestPurge _ _) = True"
| "legal (RequestSetAttribute _ path _ _ _) = canonical path"
| "legal (RequestRemoveAttribute _ path _ _) = canonical path"
| "legal (RequestBatch _ operations) = list_all legal_op operations"

lemma guard_op_wf: "wf E s \<Longrightarrow> wf E (snd (f s)) \<Longrightarrow> wf E (snd (guard_op ctx c subject f s))"
  by (simp add: guard_op_def split: sum.splits)

lemma call_wf:
  assumes "wf E s" "\<And>res t. tx s = Some (res, t) \<Longrightarrow> wf E t"
  shows "wf E (snd (finish_call f (conn_call tx s)))"
  using assms by (auto simp: finish_call_def conn_call_def split: option.splits)

lemma contract_wf: "tx s = Some (res, t) \<Longrightarrow> \<exists>res t. tx s = Some (res, t) \<and> wf E t \<and> Q res t \<Longrightarrow> wf E t"
  by auto

lemma touch_wf:
  "ext_ok E \<Longrightarrow> wf E s \<Longrightarrow> canonical path \<Longrightarrow> wf E (snd (touch E w path options aj s))"
  unfolding touch_def by (rule call_wf) (auto intro: touch_tx_wf)

lemma symlink_wf:
  assumes "ext_ok E" "wf E s" "canonical link" "valid_target target"
  shows "wf E (snd (symlink E w target link options aj s))"
proof (cases "vp_name link")
  case (Some nm)
  with symlink_tx_ok [OF assms(1-3) _ assms(4), of w options aj] show ?thesis
    by (auto simp: symlink_def finish_call_Some)
qed (use assms(2) in \<open>simp add: symlink_def\<close>)

lemma after_wf:
  assumes E: "ext_ok E" and ok: "wf E s" and fit: "sizes_fit s" and legal: "legal rq"
  shows "wf E (after E rq s)"
proof (cases rq)
  case (RequestCreateWorkspace options)
  obtain k t where "create_workspace E options s = (Inr k, t)" "wf E t" by (rule create_workspace_wf [OF E ok])
  with RequestCreateWorkspace show ?thesis by (simp add: after_def)
next
  case (RequestDeleteWorkspace w)
  obtain t where "delete_workspace w s = (Inr (), t)" "wf E t" by (rule delete_workspace_wf [OF ok])
  with RequestDeleteWorkspace show ?thesis by (simp add: after_def)
next
  case (RequestResetWorkspace w)
  show ?thesis
  proof (cases "w \<in> w_id ` set (workspaces s)")
    case True
    obtain t where "reset_workspace E w s = (Inr (), t)" "wf E t" by (rule reset_workspace_wf [OF E ok True])
    with RequestResetWorkspace show ?thesis by (simp add: after_def)
  next
    case False
    then have "\<not> list_ex (\<lambda>r. w_id r = w) (workspaces s)" by (auto simp: list_ex_iff)
    with RequestResetWorkspace ok show ?thesis
      by (simp add: after_def reset_workspace_def reset_workspace_tx_def finish_call_Some)
  qed
next
  case (RequestCopy ctx from_path to_path options)
  have "wf E t" if "copy_tx E w from_path to_path options aj s = Some (res, t)" for w aj res t
    using copy_tx_wf [OF E ok fit _ _ that] legal RequestCopy by simp
  then show ?thesis
    unfolding RequestCopy after_simps fs_copy_def by (intro guard_op_wf [OF ok]) (simp add: copy_op_def call_wf [OF ok])
next
  case (RequestPurge ctx tid)
  show ?thesis
    unfolding RequestPurge after_simps fs_purge_def
    by (intro guard_op_wf [OF ok]) (simp add: purge_def call_wf [OF ok] purge_tx_wf [OF ok])
next
  case (RequestRestore ctx tid dest options)
  have "wf E t" if "restore_tx E w tid dest options aj s = Some (res, t)" for w aj res t
  proof -
    have canon: "canonical d" if "dest = Some d" for d using that legal RequestRestore by simp
    have "\<exists>res t. restore_tx E w tid dest options aj s = Some (res, t) \<and> wf E t \<and>
        (case res of RestoreRestored n \<Rightarrow> restored s t w tid dest options aj n | _ \<Rightarrow> t = s)"
      by (rule restore_tx_ok [OF ok canon])
    with that show ?thesis by auto
  qed
  then show ?thesis
    unfolding RequestRestore after_simps fs_restore_def by (intro guard_op_wf [OF ok]) (simp add: restore_def call_wf [OF ok])
next
  case (RequestBatch ctx operations)
  with E legal ok fit batch_serves [of E operations s ctx "actor_json E ctx"] show ?thesis
    by (simp add: after_def fs_batch_def serves_def)
qed (use assms in \<open>auto simp: after_def fs_mkdir_def fs_write_def fs_write_at_def fs_append_def fs_truncate_def
    fs_touch_def fs_move_path_def fs_remove_def fs_symlink_def fs_trash_def fs_set_attribute_def
    fs_remove_attribute_def write_at_def truncate_op_def move_path_def remove_op_def trash_def
    set_attribute_def remove_attribute_def
    intro!: guard_op_wf mkdir_wf write_op_wf write_at_impl_wf append_op_wf touch_wf symlink_wf call_wf
    elim!: contract_wf
    intro: move_tx_ok remove_tx_ok trash_tx_ok set_attribute_tx_ok remove_attribute_tx_ok\<close>)

subsection \<open>Reachable stores\<close>

text \<open>
  The stores a client can bring about, as long as no file reaches the size at which the
  64-bit integers of the database end.
\<close>

inductive stores :: "ext \<Rightarrow> db \<Rightarrow> bool" for E where
  empty: "stores E empty_db"
| request: "stores E s \<Longrightarrow> sizes_fit s \<Longrightarrow> legal rq \<Longrightarrow> stores E (after E rq s)"

lemma stores_wf: "ext_ok E \<Longrightarrow> stores E s \<Longrightarrow> wf E s"
  by (rotate_tac) (induction rule: stores.induct; simp add: wf_empty after_wf)

end
