(* ===== verification/Lexer.thy ===== *)
theory Lexer
  imports Prelude
begin

text \<open>
  \<open>fslite-command/src/lexer.rs\<close>: the tokenizer of the command line grammar. A \<open>char\<close> is its
  UTF-8 byte group, as \<^const>\<open>utf8_chars\<close> yields it; the peekable iterator is the list of the
  characters that are left.
\<close>

type_synonym uchar = string

definition MAX_LINE_LEN :: nat where
  "MAX_LINE_LEN = 65536"

definition REJECTED_UNQUOTED_METACHARACTERS :: "uchar list" where
  "REJECTED_UNQUOTED_METACHARACTERS = [''|'', '';'', ''&'', ''<'', ''>'', ''`'']"

datatype token = Word string | Flag string "string option"

datatype lex_error =
    UnterminatedQuote
  | InvalidEscape uchar
  | NulByte
  | TooLong nat nat
  | UnsupportedMetacharacter uchar

text \<open>\<open>char::is_whitespace\<close>: the Unicode property White\_Space.\<close>

definition white_space :: "uchar list" where
  "white_space =
     [[CHR 0x09], [CHR 0x0A], [CHR 0x0B], [CHR 0x0C], [CHR 0x0D], [CHR 0x20], [CHR 0xC2, CHR 0x85], [CHR 0xC2, CHR 0xA0], [CHR 0xE1, CHR 0x9A, CHR 0x80]] @
     map (\<lambda>c. [CHR 0xE2, CHR 0x80, c])
       [CHR 0x80, CHR 0x81, CHR 0x82, CHR 0x83, CHR 0x84, CHR 0x85, CHR 0x86,
        CHR 0x87, CHR 0x88, CHR 0x89, CHR 0x8A, CHR 0xA8, CHR 0xA9, CHR 0xAF] @
     [[CHR 0xE2, CHR 0x81, CHR 0x9F], [CHR 0xE3, CHR 0x80, CHR 0x80]]"

definition is_whitespace :: "uchar \<Rightarrow> bool" where
  "is_whitespace ch \<longleftrightarrow> ch \<in> set white_space"

definition is_meta :: "uchar \<Rightarrow> bool" where
  "is_meta ch \<longleftrightarrow> ch \<in> set REJECTED_UNQUOTED_METACHARACTERS"

abbreviation squote :: uchar where "squote \<equiv> [CHR 0x27]"
abbreviation dquote :: uchar where "dquote \<equiv> [CHR 0x22]"
abbreviation backslash :: uchar where "backslash \<equiv> [CHR 0x5C]"

definition classify :: "string \<Rightarrow> token" where
  "classify word =
     (if take 2 word = ''--''
      then (case split_once CHR ''='' (drop 2 word) of
              Some (name, val) \<Rightarrow> Flag name (Some val)
            | None \<Rightarrow> Flag (drop 2 word) None)
      else Word word)"

fun read_single_quoted :: "string \<Rightarrow> uchar list \<Rightarrow> lex_error + string \<times> uchar list" where
  "read_single_quoted content [] = Inl UnterminatedQuote"
| "read_single_quoted content (ch # rest) =
     (if ch = squote then Inr (content, rest) else read_single_quoted (content @ ch) rest)"

text \<open>The character an escape stands for.\<close>

definition unescape :: "uchar \<Rightarrow> string option" where
  "unescape ch =
     (if ch = ''n'' then Some [CHR 10] else if ch = ''t'' then Some [CHR 9]
      else if ch = dquote then Some dquote else if ch = backslash then Some backslash else None)"

fun read_double_quoted :: "string \<Rightarrow> uchar list \<Rightarrow> lex_error + string \<times> uchar list" where
  "read_double_quoted content [] = Inl UnterminatedQuote"
| "read_double_quoted content (ch # rest) =
     (if ch = dquote then Inr (content, rest)
      else if ch = backslash then
        (case rest of
           [] \<Rightarrow> Inl UnterminatedQuote
         | e # rest \<Rightarrow>
             (case unescape e of
                Some t \<Rightarrow> read_double_quoted (content @ t) rest
              | None \<Rightarrow> Inl (InvalidEscape e)))
      else read_double_quoted (content @ ch) rest)"

lemma read_single_quoted_shorter:
  "read_single_quoted content cs = Inr (w, rest) \<Longrightarrow> length rest < length cs"
  by (induction content cs rule: read_single_quoted.induct) (auto split: if_splits)

lemma read_double_quoted_shorter:
  "read_double_quoted content cs = Inr (w, rest) \<Longrightarrow> length rest < length cs"
proof (induction content cs rule: read_double_quoted.induct)
  case (2 content ch tl)
  show ?case
  proof (cases "ch = backslash")
    case True
    with "2.prems" obtain e tl' t where "tl = e # tl'" "unescape e = Some t"
      "read_double_quoted (content @ t) tl' = Inr (w, rest)"
      by (auto split: list.splits option.splits)
    with True "2.IH"(1) show ?thesis by fastforce
  next
    case False
    with 2 show ?thesis by (fastforce split: if_splits)
  qed
qed simp

function read_word :: "string \<Rightarrow> bool \<Rightarrow> uchar list \<Rightarrow> lex_error + string \<times> uchar list" where
  "read_word word started [] = Inr (word, [])"
| "read_word word started (ch # rest) =
     (if is_whitespace ch then Inr (word, ch # rest)
      else if is_meta ch \<and> started then Inl (UnsupportedMetacharacter ch)
      else if ch = squote then
        (case read_single_quoted '''' rest of
           Inl e \<Rightarrow> Inl e
         | Inr (content, rest) \<Rightarrow> read_word (word @ content) True rest)
      else if ch = dquote then
        (case read_double_quoted '''' rest of
           Inl e \<Rightarrow> Inl e
         | Inr (content, rest) \<Rightarrow> read_word (word @ content) True rest)
      else read_word (word @ ch) True rest)"
  by pat_completeness auto
termination
  by (relation "measure (length \<circ> snd \<circ> snd)")
    (auto dest!: read_single_quoted_shorter read_double_quoted_shorter)

lemma read_word_length:
  "read_word word started cs = Inr (w, rest) \<Longrightarrow> length rest \<le> length cs"
proof (induction word started cs rule: read_word.induct)
  case (2 word started ch tl)
  consider "is_whitespace ch" | "\<not> is_whitespace ch" "ch = squote" | "\<not> is_whitespace ch" "ch = dquote"
    | "\<not> is_whitespace ch" "ch \<noteq> squote" "ch \<noteq> dquote" by blast
  then show ?case
  proof cases
    case 2
    with "2.prems" obtain c tl' where q: "read_single_quoted '''' tl = Inr (c, tl')"
      "read_word (word @ c) True tl' = Inr (w, rest)" by (auto split: if_splits sum.splits)
    with 2 "2.IH"(1) "2.prems" read_single_quoted_shorter [OF q(1)] show ?thesis by (fastforce split: if_splits)
  next
    case 3
    with "2.prems" obtain c tl' where q: "read_double_quoted '''' tl = Inr (c, tl')"
      "read_word (word @ c) True tl' = Inr (w, rest)" by (auto split: if_splits sum.splits)
    with 3 "2.IH"(2) "2.prems" read_double_quoted_shorter [OF q(1)] show ?thesis by (fastforce split: if_splits)
  next
    case 4
    with "2.prems" "2.IH"(3) show ?thesis by (fastforce split: if_splits)
  qed (use "2.prems" in simp)
qed simp

lemma read_word_shorter:
  assumes "read_word word started (ch # rest) = Inr (w, rest')" "\<not> is_whitespace ch"
  shows "length rest' < length (ch # rest)"
  using assms by (auto split: if_splits sum.splits
      dest!: read_word_length read_single_quoted_shorter read_double_quoted_shorter)

function tokenize_loop :: "uchar list \<Rightarrow> lex_error + token list" where
  "tokenize_loop [] = Inr []"
| "tokenize_loop (ch # rest) =
     (if is_whitespace ch then tokenize_loop rest
      else if is_meta ch then Inl (UnsupportedMetacharacter ch)
      else
        (case read_word '''' False (ch # rest) of
           Inl e \<Rightarrow> Inl e
         | Inr (word, rest) \<Rightarrow>
             (case tokenize_loop rest of
                Inl e \<Rightarrow> Inl e
              | Inr tokens \<Rightarrow> Inr (classify word # tokens))))"
  by pat_completeness auto
termination
  by (relation "measure length") (auto dest: read_word_shorter simp del: read_word.simps)

text \<open>\<open>line.contains("$(")\<close>.\<close>

fun contains :: "string \<Rightarrow> string \<Rightarrow> bool" where
  "contains pat [] \<longleftrightarrow> pat = []"
| "contains pat (c # cs) \<longleftrightarrow> prefix pat (c # cs) \<or> contains pat cs"

definition tokenize :: "string \<Rightarrow> lex_error + token list" where
  "tokenize line =
     (if length line > MAX_LINE_LEN then Inl (TooLong MAX_LINE_LEN (length line))
      else if CHR 0x00 \<in> set line then Inl NulByte
      else if contains [CHR 0x24, CHR 0x28] line then Inl (UnsupportedMetacharacter [CHR 0x24])
      else tokenize_loop (utf8_chars line))"

subsection \<open>Characters of a string\<close>

definition uchar_ok :: "uchar \<Rightarrow> bool" where
  "uchar_ok ch \<longleftrightarrow> ch \<noteq> [] \<and> \<not> utf8_cont (hd ch) \<and> list_all utf8_cont (tl ch)"

text \<open>No string starts with a continuation byte.\<close>

definition utf8_ok :: "string \<Rightarrow> bool" where
  "utf8_ok s \<longleftrightarrow> s = [] \<or> \<not> utf8_cont (hd s)"

lemma utf8_chars_ok: "utf8_ok s \<Longrightarrow> list_all uchar_ok (utf8_chars s)"
proof (induction s rule: utf8_chars.induct)
  case (2 c cs)
  have "utf8_ok (dropWhile utf8_cont cs)"
    using hd_dropWhile [of utf8_cont cs] by (auto simp: utf8_ok_def)
  moreover have "list_all utf8_cont (takeWhile utf8_cont cs)"
    unfolding list_all_iff by (blast dest: set_takeWhileD)
  moreover have "\<not> utf8_cont c" using "2.prems" by (simp add: utf8_ok_def)
  ultimately show ?case using "2.IH" by (simp add: uchar_ok_def)
qed simp

lemma utf8_ok_concat: "list_all uchar_ok cs \<Longrightarrow> utf8_ok (concat cs)"
  by (cases cs) (auto simp: utf8_ok_def uchar_ok_def)

lemma utf8_chars_concat: "list_all uchar_ok cs \<Longrightarrow> utf8_chars (concat cs) = cs"
proof (induction cs)
  case (Cons c cs)
  then obtain h t where c: "c = h # t" "list_all utf8_cont t" by (cases c) (auto simp: uchar_ok_def)
  from Cons.prems have "utf8_ok (concat cs)" by (auto intro: utf8_ok_concat)
  then have "takeWhile utf8_cont (concat cs) = []" "dropWhile utf8_cont (concat cs) = concat cs"
    by (auto simp: utf8_ok_def takeWhile_eq_Nil_iff dropWhile_eq_self_iff)
  with c have "takeWhile utf8_cont (t @ concat cs) = t" "dropWhile utf8_cont (t @ concat cs) = concat cs"
    by (simp_all add: takeWhile_append dropWhile_append list_all_iff)
  with Cons c show ?case by simp
qed simp

lemma concat_join: "concat (join_on [c] xss) = join_on c (map concat xss)"
  by (induction "[c]" xss rule: join_on.induct) simp_all

lemma join_all: "(\<forall>xs \<in> set xss. list_all P xs) \<Longrightarrow> P c \<Longrightarrow> list_all P (join_on c xss)"
  by (induction c xss rule: join_on.induct) simp_all

subsection \<open>What stands outside of quotes\<close>

text \<open>
  A one-pass reading of the same grammar: the mode after each character, the characters that
  stand outside of quotes, and the text the quotes and escapes stand for.
\<close>

datatype mode = Bare | Single | Double | Escape

fun next_mode :: "mode \<Rightarrow> uchar \<Rightarrow> mode" where
  "next_mode Bare ch = (if ch = squote then Single else if ch = dquote then Double else Bare)"
| "next_mode Single ch = (if ch = squote then Bare else Single)"
| "next_mode Double ch = (if ch = dquote then Bare else if ch = backslash then Escape else Double)"
| "next_mode Escape ch = Double"

definition mode_after :: "mode \<Rightarrow> uchar list \<Rightarrow> mode" where
  "mode_after = foldl next_mode"

fun exposed :: "mode \<Rightarrow> uchar list \<Rightarrow> uchar list" where
  "exposed m [] = []"
| "exposed m (ch # cs) =
     (if m = Bare \<and> ch \<noteq> squote \<and> ch \<noteq> dquote then [ch] else []) @ exposed (next_mode m ch) cs"

definition literal :: "mode \<Rightarrow> uchar \<Rightarrow> string" where
  "literal m ch =
     (case m of
        Bare \<Rightarrow> if ch = squote \<or> ch = dquote \<or> is_whitespace ch then '''' else ch
      | Single \<Rightarrow> if ch = squote then '''' else ch
      | Double \<Rightarrow> if ch = dquote \<or> ch = backslash then '''' else ch
      | Escape \<Rightarrow> the (unescape ch))"

fun text_of :: "mode \<Rightarrow> uchar list \<Rightarrow> string" where
  "text_of m [] = ''''"
| "text_of m (ch # cs) = literal m ch @ text_of (next_mode m ch) cs"

lemma mode_after_simps [simp]:
  "mode_after m [] = m" "mode_after m (ch # cs) = mode_after (next_mode m ch) cs"
  "mode_after m (xs @ ys) = mode_after (mode_after m xs) ys"
  by (simp_all add: mode_after_def)

lemma exposed_append: "exposed m (xs @ ys) = exposed m xs @ exposed (mode_after m xs) ys"
  by (induction m xs rule: exposed.induct) auto

lemma text_of_append: "text_of m (xs @ ys) = text_of m xs @ text_of (mode_after m xs) ys"
  by (induction m xs rule: text_of.induct) auto

text \<open>The part \<open>used\<close> of the input, read from mode \<open>m\<close> outside of quotes again, gave \<open>w\<close>.\<close>

definition reads :: "mode \<Rightarrow> uchar list \<Rightarrow> string \<Rightarrow> bool" where
  "reads m used w \<longleftrightarrow> mode_after m used = Bare \<and> text_of m used = w \<and> \<not> list_ex is_meta (exposed m used)"

lemma reads_append: "reads m xs v \<Longrightarrow> reads Bare ys w \<Longrightarrow> reads m (xs @ ys) (v @ w)"
  by (simp add: reads_def exposed_append text_of_append)

lemma reads_Cons:
  "reads (next_mode m ch) cs w \<Longrightarrow> \<not> (m = Bare \<and> ch \<noteq> squote \<and> ch \<noteq> dquote \<and> is_meta ch) \<Longrightarrow>
    reads m (ch # cs) (literal m ch @ w)"
  by (auto simp: reads_def)

lemma reads_Nil [simp]: "reads Bare [] ''''"
  by (simp add: reads_def)

lemma single_reads:
  "read_single_quoted content cs = Inr (w, rest) \<Longrightarrow>
    \<exists>used v. cs = used @ rest \<and> w = content @ v \<and> reads Single used v"
proof (induction content cs rule: read_single_quoted.induct)
  case (2 content ch tl)
  show ?case
  proof (cases "ch = squote")
    case True
    with 2(2) reads_Cons [of Single ch "[]" "''''"] show ?thesis
      by (intro exI [of _ "[ch]"] exI [of _ "''''"]) (simp add: literal_def)
  next
    case False
    with 2 obtain used v where "tl = used @ rest" "w = (content @ ch) @ v" "reads Single used v" by auto
    with False reads_Cons [of Single ch used v] show ?thesis
      by (intro exI [of _ "ch # used"] exI [of _ "ch @ v"]) (simp add: literal_def)
  qed
qed simp

lemma double_reads:
  "read_double_quoted content cs = Inr (w, rest) \<Longrightarrow>
    \<exists>used v. cs = used @ rest \<and> w = content @ v \<and> reads Double used v"
proof (induction content cs rule: read_double_quoted.induct)
  case (2 content ch tl)
  consider "ch = dquote" | "ch = backslash" | "ch \<noteq> dquote" "ch \<noteq> backslash" by blast
  then show ?case
  proof cases
    case 1
    with "2.prems" reads_Cons [of Double ch "[]" "''''"] show ?thesis
      by (intro exI [of _ "[ch]"] exI [of _ "''''"]) (simp add: literal_def)
  next
    case 2
    with "2.prems" obtain e tl' t where e: "tl = e # tl'" "unescape e = Some t"
      "read_double_quoted (content @ t) tl' = Inr (w, rest)"
      by (auto split: list.splits option.splits)
    from "2.IH"(1) [OF _ 2 e] 2 obtain used v where u: "tl' = used @ rest" "w = (content @ t) @ v" "reads Double used v"
      by auto
    have "reads Escape (e # used) (t @ v)" using reads_Cons [of Escape e used v] u(3) e(2) by (simp add: literal_def)
    with 2 have "reads Double (ch # e # used) (t @ v)"
      using reads_Cons [of Double ch "e # used" "t @ v"] by (simp add: literal_def)
    with u e show ?thesis by (intro exI [of _ "ch # e # used"] exI [of _ "t @ v"]) simp
  next
    case 3
    with "2.prems" "2.IH"(2) obtain used v where "tl = used @ rest" "w = (content @ ch) @ v" "reads Double used v" by auto
    with 3 reads_Cons [of Double ch used v] show ?thesis
      by (intro exI [of _ "ch # used"] exI [of _ "ch @ v"]) (simp add: literal_def)
  qed
qed simp

lemma word_reads:
  "read_word word started cs = Inr (w, rest) \<Longrightarrow> started \<or> cs = [] \<or> \<not> is_meta (hd cs) \<Longrightarrow>
    \<exists>used v. cs = used @ rest \<and> w = word @ v \<and> reads Bare used v"
proof (induction word started cs rule: read_word.induct)
  case (2 word started ch tl)
  consider "is_whitespace ch" | "\<not> is_whitespace ch" "ch = squote" | "\<not> is_whitespace ch" "ch = dquote"
    | "\<not> is_whitespace ch" "ch \<noteq> squote" "ch \<noteq> dquote" by blast
  then show ?case
  proof cases
    case 1
    with "2.prems" show ?thesis by simp
  next
    case 2
    with "2.prems" obtain c tl' where q: "read_single_quoted '''' tl = Inr (c, tl')"
      "read_word (word @ c) True tl' = Inr (w, rest)" by (auto split: if_splits sum.splits)
    from single_reads [OF q(1)] obtain a where a: "tl = a @ tl'" "reads Single a c" by auto
    have "\<not> (is_meta ch \<and> started)" using 2 by (auto simp: is_meta_def REJECTED_UNQUOTED_METACHARACTERS_def)
    from "2.IH"(1) [OF 2(1) this 2(2) q(1) refl q(2)] obtain used v where
      u: "tl' = used @ rest" "w = (word @ c) @ v" "reads Bare used v" by auto
    have "reads Bare (ch # a) c" using reads_Cons [of Bare ch a c] a(2) 2 by (simp add: literal_def)
    from reads_append [OF this u(3)] a(1) u show ?thesis
      by (intro exI [of _ "ch # a @ used"] exI [of _ "c @ v"]) simp
  next
    case 3
    with "2.prems" obtain c tl' where q: "read_double_quoted '''' tl = Inr (c, tl')"
      "read_word (word @ c) True tl' = Inr (w, rest)" by (auto split: if_splits sum.splits)
    from double_reads [OF q(1)] obtain a where a: "tl = a @ tl'" "reads Double a c" by auto
    have "\<not> (is_meta ch \<and> started)" "ch \<noteq> squote"
      using 3 by (auto simp: is_meta_def REJECTED_UNQUOTED_METACHARACTERS_def)
    from "2.IH"(2) [OF 3(1) this 3(2) q(1) refl q(2)] obtain used v where
      u: "tl' = used @ rest" "w = (word @ c) @ v" "reads Bare used v" by auto
    have "reads Bare (ch # a) c" using reads_Cons [of Bare ch a c] a(2) 3 by (simp add: literal_def)
    from reads_append [OF this u(3)] a(1) u show ?thesis
      by (intro exI [of _ "ch # a @ used"] exI [of _ "c @ v"]) simp
  next
    case 4
    with "2.prems" have m: "\<not> is_meta ch" "read_word (word @ ch) True tl = Inr (w, rest)"
      by (auto split: if_splits)
    from "2.IH"(3) [OF 4(1) _ 4(2,3) m(2)] m(1) obtain used v where
      u: "tl = used @ rest" "w = (word @ ch) @ v" "reads Bare used v" by auto
    with 4 m(1) reads_Cons [of Bare ch used v] show ?thesis
      by (intro exI [of _ "ch # used"] exI [of _ "ch @ v"]) (simp add: literal_def)
  qed
qed simp

text \<open>The text of a token as it was given.\<close>

fun token_text :: "token \<Rightarrow> string" where
  "token_text (Word w) = w"
| "token_text (Flag name None) = ''--'' @ name"
| "token_text (Flag name (Some val)) = ''--'' @ name @ ''='' @ val"

lemma token_text_classify: "token_text (classify w) = w"
proof (cases "take 2 w = ''--''")
  case True
  then have w: "w = ''--'' @ drop 2 w" by (metis append_take_drop_id)
  show ?thesis
  proof (cases "split_once CHR ''='' (drop 2 w)")
    case None
    with True w show ?thesis by (simp add: classify_def)
  next
    case (Some a)
    with split_once_Some [of "CHR ''=''" "drop 2 w" "fst a" "snd a"] have "drop 2 w = fst a @ CHR ''='' # snd a" by simp
    with True w Some show ?thesis by (cases a) (simp add: classify_def)
  qed
qed (simp add: classify_def)

lemma tokenize_loop_reads:
  "tokenize_loop cs = Inr ts \<Longrightarrow> reads Bare cs (concat (map token_text ts))"
proof (induction cs arbitrary: ts rule: tokenize_loop.induct)
  case (2 ch tl)
  show ?case
  proof (cases "is_whitespace ch")
    case True
    with 2 have "reads Bare tl (concat (map token_text ts))" by simp
    moreover have "\<not> is_meta ch" "ch \<noteq> squote" "ch \<noteq> dquote"
      using True by (auto simp: is_whitespace_def white_space_def is_meta_def REJECTED_UNQUOTED_METACHARACTERS_def)
    ultimately show ?thesis using reads_Cons [of Bare ch tl] True by (simp add: literal_def)
  next
    case False
    with "2.prems" obtain w tl' ts' where q: "\<not> is_meta ch" "read_word '''' False (ch # tl) = Inr (w, tl')"
      "tokenize_loop tl' = Inr ts'" "ts = classify w # ts'"
      by (auto simp del: read_word.simps split: if_splits sum.splits)
    from word_reads [OF q(2)] q(1) obtain used where u: "ch # tl = used @ tl'" "reads Bare used w" by auto
    from "2.IH"(2) [OF False q(1,2) refl q(3)] have "reads Bare tl' (concat (map token_text ts'))" .
    from reads_append [OF u(2) this] u(1) q(4) show ?thesis by (simp add: token_text_classify)
  qed
qed simp

end
