(* ===== verification/Quoting.thy ===== *)
theory Quoting
  imports Lexer
begin

text \<open>
  \<open>quote_word\<close> and \<open>quote_line\<close> of \<open>fslite-cli/src/main.rs\<close>: the words of the command line of the
  process joined into one line for the tokenizer, and the round trip through it.
\<close>

definition needs_quoting :: "string \<Rightarrow> bool" where
  "needs_quoting word \<longleftrightarrow> word = '''' \<or>
     list_ex (\<lambda>ch. is_whitespace ch \<or> ch = squote \<or> ch = dquote \<or>
                   ch \<in> set [''|'', '';'', ''&'', ''<'', ''>'', ''`'']) (utf8_chars word)"

definition escape_quote :: "uchar \<Rightarrow> string" where
  "escape_quote ch = (if ch = dquote \<or> ch = backslash then backslash @ ch else ch)"

definition quote_word :: "string \<Rightarrow> string" where
  "quote_word word =
     (if \<not> needs_quoting word then word
      else if CHR 0x27 \<notin> set word then squote @ word @ squote
      else dquote @ concat (map escape_quote (utf8_chars word)) @ dquote)"

definition quote_line :: "string list \<Rightarrow> string" where
  "quote_line words = join_on CHR '' '' (map quote_word words)"

subsection \<open>The quoted characters\<close>

definition escaped :: "uchar \<Rightarrow> uchar list" where
  "escaped ch = (if ch = dquote \<or> ch = backslash then [backslash, ch] else [ch])"

definition quote_chars :: "string \<Rightarrow> uchar list" where
  "quote_chars word =
     (if \<not> needs_quoting word then utf8_chars word
      else if CHR 0x27 \<notin> set word then squote # utf8_chars word @ [squote]
      else dquote # concat (map escaped (utf8_chars word)) @ [dquote])"

lemma concat_quote_chars: "concat (quote_chars word) = quote_word word"
proof -
  have "concat (concat (map escaped cs)) = concat (map escape_quote cs)" for cs
    by (induction cs) (simp_all add: escaped_def escape_quote_def)
  then show ?thesis by (simp add: quote_chars_def quote_word_def concat_utf8_chars)
qed

lemma quote_chars_ok:
  assumes "utf8_ok word"
  shows "list_all uchar_ok (quote_chars word)"
proof -
  have "uchar_ok squote" "uchar_ok dquote" "uchar_ok backslash" by code_simp+
  then show ?thesis using utf8_chars_ok [OF assms]
    by (auto simp: quote_chars_def escaped_def list_all_iff)
qed

lemma plain_quotes [simp]:
  "\<not> is_whitespace dquote" "\<not> is_meta dquote" "\<not> is_whitespace squote" "\<not> is_meta squote" "is_whitespace '' ''"
  by code_simp+

subsection \<open>Reading them back\<close>

lemma read_single: "squote \<notin> set cs \<Longrightarrow> read_single_quoted content (cs @ squote # rest) = Inr (content @ concat cs, rest)"
  by (induction cs arbitrary: content) auto

lemma read_escaped:
  "read_double_quoted content (concat (map escaped cs) @ dquote # rest) = Inr (content @ concat cs, rest)"
  by (induction cs arbitrary: content) (auto simp: escaped_def unescape_def)

definition ends_word :: "uchar list \<Rightarrow> bool" where
  "ends_word rest \<longleftrightarrow> rest = [] \<or> is_whitespace (hd rest)"

lemma read_end: "ends_word rest \<Longrightarrow> read_word w started rest = Inr (w, rest)"
  by (cases rest) (simp_all add: ends_word_def)

lemma read_plain:
  assumes "ends_word rest"
  shows "list_all (\<lambda>ch. \<not> is_whitespace ch \<and> \<not> is_meta ch \<and> ch \<noteq> squote \<and> ch \<noteq> dquote) cs \<Longrightarrow>
    read_word w started (cs @ rest) = Inr (w @ concat cs, rest)"
  by (induction cs arbitrary: w started) (simp_all add: read_end [OF assms])

lemma plain_chars:
  "\<not> needs_quoting word \<Longrightarrow>
    list_all (\<lambda>ch. \<not> is_whitespace ch \<and> \<not> is_meta ch \<and> ch \<noteq> squote \<and> ch \<noteq> dquote) (utf8_chars word)"
  by (auto simp: needs_quoting_def list_all_iff list_ex_iff is_meta_def REJECTED_UNQUOTED_METACHARACTERS_def)

lemma no_squote: "CHR 0x27 \<notin> set word \<Longrightarrow> squote \<notin> set (utf8_chars word)"
proof
  assume "CHR 0x27 \<notin> set word" "squote \<in> set (utf8_chars word)"
  from this(2) have "CHR 0x27 \<in> set (concat (utf8_chars word))"
    unfolding set_concat by (rule UN_I) simp
  with \<open>CHR 0x27 \<notin> set word\<close> show False by (simp add: concat_utf8_chars)
qed

lemma read_quoted:
  assumes "ends_word rest"
  shows "read_word '''' False (quote_chars word @ rest) = Inr (word, rest)"
proof -
  consider "\<not> needs_quoting word" | "needs_quoting word" "CHR 0x27 \<notin> set word" | "needs_quoting word" "CHR 0x27 \<in> set word"
    by blast
  then show ?thesis
  proof cases
    case 1
    with read_plain [OF assms plain_chars] show ?thesis by (simp add: quote_chars_def concat_utf8_chars)
  next
    case 2
    with read_end [OF assms] read_single [OF no_squote] show ?thesis by (simp add: quote_chars_def concat_utf8_chars)
  next
    case 3
    with read_end [OF assms] show ?thesis by (simp add: quote_chars_def concat_utf8_chars read_escaped)
  qed
qed

lemma quote_starts: "\<exists>ch cs. quote_chars word = ch # cs \<and> \<not> is_whitespace ch \<and> \<not> is_meta ch"
proof (cases "needs_quoting word")
  case False
  then have "utf8_chars word \<noteq> []" by (cases word) (auto simp: needs_quoting_def)
  with plain_chars [OF False] False show ?thesis
    by (cases "utf8_chars word") (auto simp: quote_chars_def)
qed (simp add: quote_chars_def)

lemma tokenize_quoted_chars:
  "tokenize_loop (join_on '' '' (map quote_chars ws)) = Inr (map classify ws)"
proof (induction ws)
  case (Cons w ws)
  have loop: "tokenize_loop (quote_chars w @ rest) = (case tokenize_loop rest of
      Inl e \<Rightarrow> Inl e | Inr ts \<Rightarrow> Inr (classify w # ts))" if "ends_word rest" for rest
    using quote_starts [of w] read_quoted [OF that, of w] by (auto simp del: read_word.simps)
  show ?case
  proof (cases ws)
    case Nil
    with loop [of "[]"] show ?thesis by (simp add: ends_word_def)
  next
    case (Cons v vs)
    with loop [of "'' '' # join_on '' '' (map quote_chars ws)"] Cons.IH show ?thesis by (simp add: ends_word_def)
  qed
qed simp

text \<open>A line the length and the dollar-parenthesis checks let through gives the words back.\<close>

lemma tokenize_quote_line:
  assumes ws: "list_all utf8_ok ws"
    and fit: "length (quote_line ws) \<le> MAX_LINE_LEN" "CHR 0x00 \<notin> set (quote_line ws)"
      "\<not> contains [CHR 0x24, CHR 0x28] (quote_line ws)"
  shows "tokenize (quote_line ws) = Inr (map classify ws)"
proof -
  have "uchar_ok '' ''" by code_simp
  then have "list_all uchar_ok (join_on '' '' (map quote_chars ws))"
    using ws by (intro join_all) (auto simp: list_all_iff intro: quote_chars_ok [unfolded list_all_iff, rule_format])
  moreover have "quote_line ws = concat (join_on '' '' (map quote_chars ws))"
    by (simp add: quote_line_def concat_join comp_def concat_quote_chars)
  ultimately have "utf8_chars (quote_line ws) = join_on '' '' (map quote_chars ws)" by (simp add: utf8_chars_concat)
  with fit tokenize_quoted_chars show ?thesis by (simp add: tokenize_def)
qed

text \<open>The joined line contains a zero byte or a dollar-parenthesis only if a word does.\<close>

subsection \<open>What quoting adds\<close>

lemma contains_pair_Cons:
  "contains [a, b] (c # cs) \<longleftrightarrow> (c = a \<and> take (Suc 0) cs = [b]) \<or> contains [a, b] cs"
  by (cases cs) auto

lemma contains_pair_append:
  "contains [a, b] (xs @ ys) \<longleftrightarrow>
    contains [a, b] xs \<or> contains [a, b] ys \<or> (xs \<noteq> [] \<and> last xs = a \<and> take (Suc 0) ys = [b])"
proof (induction xs)
  case (Cons x xs)
  then show ?case by (cases xs) (auto simp: contains_pair_Cons simp del: contains.simps(2))
qed simp

lemma first_escaped:
  "take (Suc 0) (concat (map escape_quote cs)) = [CHR 0x28] \<longleftrightarrow> take (Suc 0) (concat cs) = [CHR 0x28]"
proof (induction cs)
  case (Cons c cs)
  then show ?case by (cases c) (auto simp: escape_quote_def)
qed simp

lemma contains_escaped:
  "contains [CHR 0x24, CHR 0x28] (concat (map escape_quote cs)) \<longleftrightarrow> contains [CHR 0x24, CHR 0x28] (concat cs)"
proof (induction cs)
  case (Cons c cs)
  show ?case
  proof (cases "c = dquote \<or> c = backslash")
    case True
    with Cons show ?thesis by (auto simp: escape_quote_def contains_pair_Cons simp del: contains.simps(2))
  next
    case False
    then have "escape_quote c = c" by (simp add: escape_quote_def)
    then show ?thesis by (simp add: contains_pair_append first_escaped Cons del: contains.simps(2))
  qed
qed simp

lemma contains_quote_word:
  "contains [CHR 0x24, CHR 0x28] (quote_word word) \<longleftrightarrow> contains [CHR 0x24, CHR 0x28] word"
  by (auto simp: quote_word_def concat_utf8_chars contains_pair_append contains_pair_Cons contains_escaped
      simp del: contains.simps(2))

lemma join_on_step: "join_on c (x # xs) = x @ (if xs = [] then [] else c # join_on c xs)"
  by (cases xs) simp_all

lemma contains_quote_line:
  "contains [CHR 0x24, CHR 0x28] (quote_line words) \<longleftrightarrow> list_ex (contains [CHR 0x24, CHR 0x28]) words"
  unfolding quote_line_def
proof (induction words)
  case (Cons w ws)
  then show ?case
    by (auto simp: join_on_step contains_pair_append contains_pair_Cons contains_quote_word simp del: contains.simps(2))
qed simp

lemma nul_quote_word: "CHR 0x00 \<in> set (quote_word word) \<Longrightarrow> CHR 0x00 \<in> set word"
proof -
  have "CHR 0x00 \<in> set (concat (map escape_quote cs)) \<Longrightarrow> CHR 0x00 \<in> set (concat cs)" for cs
    by (induction cs) (auto simp: escape_quote_def split: if_splits)
  from this [of "utf8_chars word"] show "CHR 0x00 \<in> set (quote_word word) \<Longrightarrow> CHR 0x00 \<in> set word"
    by (auto simp: quote_word_def concat_utf8_chars split: if_splits)
qed

lemma nul_quote_line: "CHR 0x00 \<in> set (quote_line words) \<Longrightarrow> list_ex (\<lambda>w. CHR 0x00 \<in> set w) words"
  unfolding quote_line_def
  by (induction words) (auto simp: join_on_step split: if_splits dest: nul_quote_word)

lemma words_round_trip:
  assumes "list_all utf8_ok words" "length (quote_line words) \<le> MAX_LINE_LEN"
    and "\<not> list_ex (\<lambda>w. CHR 0x00 \<in> set w) words" "\<not> list_ex (contains [CHR 0x24, CHR 0x28]) words"
  shows "tokenize (quote_line words) = Inr (map classify words)"
  using tokenize_quote_line [OF assms(1,2)] nul_quote_line contains_quote_line assms(3,4) by blast

text \<open>A word with a dollar-parenthesis is refused however it is quoted.\<close>

lemma dollar_word_refused:
  assumes "length (quote_line words) \<le> MAX_LINE_LEN" "\<not> list_ex (\<lambda>w. CHR 0x00 \<in> set w) words"
    and "list_ex (contains [CHR 0x24, CHR 0x28]) words"
  shows "tokenize (quote_line words) = Inl (UnsupportedMetacharacter [CHR 0x24])"
  using assms nul_quote_line [of words] by (auto simp: tokenize_def contains_quote_line)

end
