(* ===== verification/Command.thy ===== *)
theory Command
  imports Core_Model
begin

text \<open>
  \<open>fslite-command/src/command.rs\<close> and \<open>output.rs\<close>: one command per operation of the file
  system, and one output per shape of result. Payloads are byte lists; their base64 form
  exists only on the wire.
\<close>

datatype command =
    CmdWorkspaceUsage
  | CmdStat virtual_path stat_options
  | CmdExists virtual_path stat_options
  | CmdReadDir virtual_path page_request
  | CmdTree virtual_path tree_options page_request
  | CmdMkdir virtual_path create_options
  | CmdRead virtual_path read_options
  | CmdWrite virtual_path "byte list" write_options
  | CmdWriteAt virtual_path u64 "byte list" write_options
  | CmdAppend virtual_path "byte list" write_options
  | CmdTruncate virtual_path u64 mutation_options
  | CmdTouch virtual_path touch_options
  | CmdCopy virtual_path virtual_path copy_options
  | CmdMove virtual_path virtual_path move_options
  | CmdRemove virtual_path remove_options
  | CmdSymlink link_target virtual_path create_options
  | CmdReadLink virtual_path
  | CmdTrash virtual_path mutation_options
  | CmdListTrash page_request
  | CmdRestore uuid "virtual_path option" mutation_options
  | CmdPurge uuid
  | CmdSetAttribute virtual_path string "byte list" mutation_options
  | CmdRemoveAttribute virtual_path string mutation_options
  | CmdGlob string page_request
  | CmdFind find_query page_request
  | CmdSearchContent content_query page_request
  | CmdChanges "string option" page_request
  | CmdBatch "batch_operation list"

datatype command_output =
    OutUsage workspace_usage
  | OutNode node
  | OutExists bool
  | OutNodes "node page"
  | OutTree "tree_entry page"
  | OutContent u64 revision byte_range "byte list"
  | OutUnit
  | OutLinkTarget link_target
  | OutTrash trash_entry
  | OutTrashList "trash_entry page"
  | OutSearchMatches "search_match page"
  | OutChanges "change page"
  | OutBatch "batch_result list"

end
