(* ===== verification/Parser.thy ===== *)
theory Parser
  imports Lexer Command Db
begin

text \<open>
  \<open>fslite-command/src/parser.rs\<close>: from the tokens of a line to a command, one arm per verb.
  Positional arguments and flags are collected first; each arm then checks the flags it
  knows, the number of its positionals, and converts them.
\<close>

datatype parse_error =
    LexFailed lex_error
  | UnknownVerb string
  | MissingArgument string string
  | InvalidArgument string string string
  | UnknownFlag string string
  | TooManyArguments string nat nat

text \<open>The \<open>?\<close> operator on a \<open>Result\<close>, \<open>map_err\<close>, and \<open>Option::map(..).transpose()?\<close>.\<close>

fun andthen :: "'e + 'a \<Rightarrow> ('a \<Rightarrow> 'e + 'b) \<Rightarrow> 'e + 'b" where
  "andthen (Inl e) f = Inl e"
| "andthen (Inr x) f = f x"

definition map_err :: "('d \<Rightarrow> 'e) \<Rightarrow> 'd + 'a \<Rightarrow> 'e + 'a" where
  "map_err f r = (case r of Inl d \<Rightarrow> Inl (f d) | Inr x \<Rightarrow> Inr x)"

definition ok_or :: "'e \<Rightarrow> 'a option \<Rightarrow> 'e + 'a" where
  "ok_or e x = (case x of None \<Rightarrow> Inl e | Some v \<Rightarrow> Inr v)"

definition transposed :: "('a \<Rightarrow> 'e + 'b) \<Rightarrow> 'a option \<Rightarrow> 'e + 'b option" where
  "transposed f x = (case x of None \<Rightarrow> Inr None | Some v \<Rightarrow> (case f v of Inl e \<Rightarrow> Inl e | Inr y \<Rightarrow> Inr (Some y)))"

subsection \<open>Numbers\<close>

text \<open>
  \<open>str::parse\<close> of the integer types: an optional sign (no minus for unsigned types), then at
  least one digit and nothing else, within the bounds of the type.
\<close>

definition digit_value :: "char \<Rightarrow> nat option" where
  "digit_value c = (let n = of_char c in if 48 \<le> n \<and> n \<le> (57 :: nat) then Some (n - 48) else None)"

fun digits_value :: "nat \<Rightarrow> string \<Rightarrow> nat option" where
  "digits_value acc [] = Some acc"
| "digits_value acc (c # cs) =
     (case digit_value c of None \<Rightarrow> None | Some d \<Rightarrow> digits_value (10 * acc + d) cs)"

definition parse_digits :: "string \<Rightarrow> nat option" where
  "parse_digits s = (if s = '''' then None else digits_value 0 s)"

definition parse_uint :: "nat \<Rightarrow> string \<Rightarrow> nat option" where
  "parse_uint bits s =
     (case parse_digits (if s \<noteq> '''' \<and> hd s = CHR ''+'' then tl s else s) of
        None \<Rightarrow> None
      | Some n \<Rightarrow> if n < 2 ^ bits then Some n else None)"

definition parse_u64 :: "string \<Rightarrow> u64 option" where
  "parse_u64 s = map_option of_nat (parse_uint 64 s)"

definition parse_u32 :: "string \<Rightarrow> nat option" where
  "parse_u32 s = parse_uint 32 s"

definition parse_i64 :: "string \<Rightarrow> int option" where
  "parse_i64 s =
     (if s \<noteq> '''' \<and> hd s = CHR ''-''
      then (case parse_digits (tl s) of None \<Rightarrow> None | Some n \<Rightarrow> if n \<le> 2 ^ 63 then Some (- int n) else None)
      else (case parse_uint 63 s of None \<Rightarrow> None | Some n \<Rightarrow> Some (int n)))"

subsection \<open>Arguments\<close>

text \<open>
  The flags are a \<open>HashMap\<close>: a later flag replaces an earlier one of the same name. Its
  iteration order, which decides the unknown flag that is reported, comes from outside, with
  the two things an arm reads: an identifier parser and the file of a batch.
\<close>

record args =
  positionals :: "string list"
  flags :: "(string \<times> string option) list"

record parse_env =
  key_order :: "string list \<Rightarrow> string list"
  id_parse :: "string \<Rightarrow> uuid option"
  read_file :: "string \<Rightarrow> string + string"
  batch_of_json :: "string \<Rightarrow> string + batch_operation list"

definition positional :: "args \<Rightarrow> string \<Rightarrow> nat \<Rightarrow> string \<Rightarrow> parse_error + string" where
  "positional a verb index name =
     (if index < length (positionals a) then Inr (positionals a ! index) else Inl (MissingArgument verb name))"

definition has_flag :: "args \<Rightarrow> string \<Rightarrow> bool" where
  "has_flag a name \<longleftrightarrow> map_of (flags a) name \<noteq> None"

definition flag_value :: "args \<Rightarrow> string \<Rightarrow> string option" where
  "flag_value a name = Option.bind (map_of (flags a) name) (\<lambda>v. v)"

definition check_known_flags :: "parse_env \<Rightarrow> args \<Rightarrow> string \<Rightarrow> string list \<Rightarrow> parse_error + unit" where
  "check_known_flags H a verb known =
     (case find (\<lambda>flag. flag \<notin> set known) (key_order H (map fst (flags a))) of
        Some flag \<Rightarrow> Inl (UnknownFlag verb flag)
      | None \<Rightarrow> Inr ())"

definition check_positional_arity :: "args \<Rightarrow> string \<Rightarrow> nat \<Rightarrow> parse_error + unit" where
  "check_positional_arity a verb expected =
     (if length (positionals a) > expected
      then Inl (TooManyArguments verb expected (length (positionals a))) else Inr ())"

definition expected_revision :: "args \<Rightarrow> string \<Rightarrow> parse_error + revision option" where
  "expected_revision a verb =
     (case flag_value a ''expected-revision'' of
        None \<Rightarrow> Inr None
      | Some raw \<Rightarrow>
          andthen (ok_or (InvalidArgument verb ''expected-revision'' ''must be a non-negative integer'') (parse_u64 raw)) (\<lambda>val.
          andthen (ok_or (InvalidArgument verb ''expected-revision'' ''must be nonzero'') (rev_new val)) (\<lambda>r.
          Inr (Some r))))"

definition page_arg :: "args \<Rightarrow> string \<Rightarrow> parse_error + page_request" where
  "page_arg a verb =
     (let page = (case flag_value a ''cursor'' of
                    None \<Rightarrow> page_request_default
                  | Some cursor \<Rightarrow> page_request_default\<lparr>pr_cursor := Some cursor\<rparr>)
      in case flag_value a ''limit'' of
           None \<Rightarrow> Inr page
         | Some raw \<Rightarrow>
             andthen (ok_or (InvalidArgument verb ''limit'' ''must be a non-negative integer'') (parse_u32 raw)) (\<lambda>limit.
             Inr (page\<lparr>pr_limit := limit\<rparr>)))"

text \<open>\<open>HashMap::insert\<close>.\<close>

definition insert_flag :: "string \<Rightarrow> string option \<Rightarrow> (string \<times> string option) list \<Rightarrow> (string \<times> string option) list" where
  "insert_flag name val fs = (name, val) # filter (\<lambda>f. fst f \<noteq> name) fs"

definition add_token :: "token \<Rightarrow> args \<Rightarrow> args" where
  "add_token t a = (case t of
     Word w \<Rightarrow> a\<lparr>positionals := positionals a @ [w]\<rparr>
   | Flag name val \<Rightarrow> a\<lparr>flags := insert_flag name val (flags a)\<rparr>)"

definition split_tokens :: "token list \<Rightarrow> args" where
  "split_tokens tokens = fold add_token tokens \<lparr>positionals = [], flags = []\<rparr>"

definition parse_path :: "string \<Rightarrow> string \<Rightarrow> string \<Rightarrow> parse_error + virtual_path" where
  "parse_path verb name raw =
     map_err (\<lambda>e. InvalidArgument verb name (err_message e))
       (if raw \<noteq> '''' \<and> hd raw = slash then vp_parse raw else vp_join vp_root raw)"

definition parse_glob_pattern :: "string \<Rightarrow> parse_error + string" where
  "parse_glob_pattern raw =
     map_err (\<lambda>e. InvalidArgument ''glob'' ''pattern'' (err_message e))
       (case vp_join vp_root (dropWhile (\<lambda>c. c = slash) raw) of
          Inl e \<Rightarrow> Inl e
        | Inr pat \<Rightarrow> Inr (as_str pat))"

text \<open>The positional argument at an index as a path.\<close>

definition path_arg :: "args \<Rightarrow> string \<Rightarrow> nat \<Rightarrow> string \<Rightarrow> parse_error + virtual_path" where
  "path_arg a verb index name = andthen (positional a verb index name) (parse_path verb name)"

text \<open>\<open>s.as_bytes()\<close>.\<close>

definition as_bytes :: "string \<Rightarrow> byte list" where
  "as_bytes s = map (\<lambda>c. word_of_nat (of_char c)) s"

definition unsigned_reason :: string where
  "unsigned_reason = ''must be a non-negative integer''"

subsection \<open>The verbs\<close>

text \<open>The two checks every arm starts with.\<close>

definition check_args :: "parse_env \<Rightarrow> args \<Rightarrow> string \<Rightarrow> string list \<Rightarrow> nat \<Rightarrow> parse_error + unit" where
  "check_args H a verb known expected =
     andthen (check_known_flags H a verb known) (\<lambda>_. check_positional_arity a verb expected)"

definition parse_range :: "string \<Rightarrow> parse_error + byte_range" where
  "parse_range raw =
     andthen (ok_or (InvalidArgument ''cat'' ''range'' ''expected START-END'') (split_once CHR ''-'' raw)) (\<lambda>(start, end).
     andthen (ok_or (InvalidArgument ''cat'' ''range'' ''invalid start'') (parse_u64 start)) (\<lambda>start.
     andthen (ok_or (InvalidArgument ''cat'' ''range'' ''invalid end'') (parse_u64 end)) (\<lambda>end.
     Inr (br_new start end))))"

definition parse_kind :: "string \<Rightarrow> parse_error + node_kind" where
  "parse_kind k =
     (if k = ''file'' then Inr File
      else if k = ''directory'' then Inr Directory
      else if k = ''symlink'' then Inr Symlink
      else Inl (InvalidArgument ''find'' ''kind'' (''unknown kind `'' @ k @ ''`'')))"

definition parse_usage :: "parse_env \<Rightarrow> args \<Rightarrow> parse_error + command" where
  "parse_usage H a =
     andthen (check_args H a ''usage'' [] 0) (\<lambda>_.
     Inr (CmdWorkspaceUsage))"

definition parse_stat :: "parse_env \<Rightarrow> args \<Rightarrow> parse_error + command" where
  "parse_stat H a =
     andthen (check_args H a ''stat'' [''no-follow''] 1) (\<lambda>_.
     andthen (path_arg a ''stat'' 0 ''path'') (\<lambda>path.
     Inr (CmdStat path (stat_options_default\<lparr>so_follow_symlinks := \<not> has_flag a ''no-follow''\<rparr>))))"

definition parse_exists :: "parse_env \<Rightarrow> args \<Rightarrow> parse_error + command" where
  "parse_exists H a =
     andthen (check_args H a ''exists'' [''no-follow''] 1) (\<lambda>_.
     andthen (path_arg a ''exists'' 0 ''path'') (\<lambda>path.
     Inr (CmdExists path (stat_options_default\<lparr>so_follow_symlinks := \<not> has_flag a ''no-follow''\<rparr>))))"

definition parse_ls :: "parse_env \<Rightarrow> args \<Rightarrow> parse_error + command" where
  "parse_ls H a =
     andthen (check_args H a ''ls'' [''cursor'', ''limit''] 1) (\<lambda>_.
     andthen (path_arg a ''ls'' 0 ''path'') (\<lambda>path.
     andthen (page_arg a ''ls'') (\<lambda>page.
     Inr (CmdReadDir path page))))"

definition parse_tree :: "parse_env \<Rightarrow> args \<Rightarrow> parse_error + command" where
  "parse_tree H a =
     andthen (check_args H a ''tree'' [''max-depth'', ''follow-symlinks'', ''cursor'', ''limit''] 1) (\<lambda>_.
     andthen (path_arg a ''tree'' 0 ''path'') (\<lambda>path.
     andthen (transposed (\<lambda>v. ok_or (InvalidArgument ''tree'' ''max-depth'' unsigned_reason) (parse_u32 v)) (flag_value a ''max-depth'')) (\<lambda>max_depth.
     andthen (page_arg a ''tree'') (\<lambda>page.
     Inr (CmdTree path (tree_options_default\<lparr>to_max_depth := max_depth,
     to_follow_symlinks := has_flag a ''follow-symlinks''\<rparr>) page)))))"

definition parse_mkdir :: "parse_env \<Rightarrow> args \<Rightarrow> parse_error + command" where
  "parse_mkdir H a =
     andthen (check_args H a ''mkdir'' [''parents'', ''exist-ok'', ''expected-revision''] 1) (\<lambda>_.
     andthen (path_arg a ''mkdir'' 0 ''path'') (\<lambda>path.
     andthen (expected_revision a ''mkdir'') (\<lambda>rev.
     Inr (CmdMkdir path (create_options_default\<lparr>co_parents := has_flag a ''parents'',
     co_exist_ok := has_flag a ''exist-ok'', co_expected_revision := rev\<rparr>)))))"

definition parse_cat :: "parse_env \<Rightarrow> args \<Rightarrow> parse_error + command" where
  "parse_cat H a =
     andthen (check_args H a ''cat'' [''range'', ''no-follow''] 1) (\<lambda>_.
     andthen (path_arg a ''cat'' 0 ''path'') (\<lambda>path.
     andthen (transposed parse_range (flag_value a ''range'')) (\<lambda>range.
     Inr (CmdRead path (read_options_default\<lparr>ro_range := range,
     ro_follow_symlinks := \<not> has_flag a ''no-follow''\<rparr>)))))"

definition parse_write :: "parse_env \<Rightarrow> args \<Rightarrow> parse_error + command" where
  "parse_write H a =
     andthen (check_args H a ''write'' [''text'', ''no-create'', ''expected-revision''] 1) (\<lambda>_.
     andthen (path_arg a ''write'' 0 ''path'') (\<lambda>path.
     andthen (ok_or (MissingArgument ''write'' ''--text (or another payload source)'') (map_option as_bytes (flag_value a ''text''))) (\<lambda>bytes.
     andthen (expected_revision a ''write'') (\<lambda>rev.
     Inr (CmdWrite path bytes (write_options_default\<lparr>wo_create := \<not> has_flag a ''no-create'',
     wo_expected_revision := rev\<rparr>))))))"

definition parse_write_at :: "parse_env \<Rightarrow> args \<Rightarrow> parse_error + command" where
  "parse_write_at H a =
     andthen (check_args H a ''write-at'' [''offset'', ''text'', ''no-create'', ''expected-revision''] 1) (\<lambda>_.
     andthen (path_arg a ''write-at'' 0 ''path'') (\<lambda>path.
     andthen (ok_or (MissingArgument ''write-at'' ''--offset'') (flag_value a ''offset'')) (\<lambda>raw.
     andthen (ok_or (InvalidArgument ''write-at'' ''offset'' unsigned_reason) (parse_u64 raw)) (\<lambda>offset.
     andthen (ok_or (MissingArgument ''write-at'' ''--text'') (map_option as_bytes (flag_value a ''text''))) (\<lambda>bytes.
     andthen (expected_revision a ''write-at'') (\<lambda>rev.
     Inr (CmdWriteAt path offset bytes (write_options_default\<lparr>wo_create := \<not> has_flag a ''no-create'',
     wo_expected_revision := rev\<rparr>))))))))"

definition parse_append :: "parse_env \<Rightarrow> args \<Rightarrow> parse_error + command" where
  "parse_append H a =
     andthen (check_args H a ''append'' [''text'', ''expected-revision''] 1) (\<lambda>_.
     andthen (path_arg a ''append'' 0 ''path'') (\<lambda>path.
     andthen (ok_or (MissingArgument ''append'' ''--text'') (map_option as_bytes (flag_value a ''text''))) (\<lambda>bytes.
     andthen (expected_revision a ''append'') (\<lambda>rev.
     Inr (CmdAppend path bytes (write_options_default\<lparr>wo_expected_revision := rev\<rparr>))))))"

definition parse_truncate :: "parse_env \<Rightarrow> args \<Rightarrow> parse_error + command" where
  "parse_truncate H a =
     andthen (check_args H a ''truncate'' [''length'', ''expected-revision''] 1) (\<lambda>_.
     andthen (path_arg a ''truncate'' 0 ''path'') (\<lambda>path.
     andthen (ok_or (MissingArgument ''truncate'' ''--length'') (flag_value a ''length'')) (\<lambda>raw.
     andthen (ok_or (InvalidArgument ''truncate'' ''length'' unsigned_reason) (parse_u64 raw)) (\<lambda>len.
     andthen (expected_revision a ''truncate'') (\<lambda>rev.
     Inr (CmdTruncate path len (mutation_options_default\<lparr>mo_expected_revision := rev\<rparr>)))))))"

definition parse_touch :: "parse_env \<Rightarrow> args \<Rightarrow> parse_error + command" where
  "parse_touch H a =
     andthen (check_args H a ''touch'' [''no-create'', ''expected-revision''] 1) (\<lambda>_.
     andthen (path_arg a ''touch'' 0 ''path'') (\<lambda>path.
     andthen (expected_revision a ''touch'') (\<lambda>rev.
     Inr (CmdTouch path (touch_options_default\<lparr>tco_create := \<not> has_flag a ''no-create'',
     tco_expected_revision := rev\<rparr>)))))"

definition parse_cp :: "parse_env \<Rightarrow> args \<Rightarrow> parse_error + command" where
  "parse_cp H a =
     andthen (check_args H a ''cp'' [''recursive'', ''overwrite'', ''expected-revision''] 2) (\<lambda>_.
     andthen (path_arg a ''cp'' 0 ''from'') (\<lambda>from_path.
     andthen (path_arg a ''cp'' 1 ''to'') (\<lambda>to_path.
     andthen (expected_revision a ''cp'') (\<lambda>rev.
     Inr (CmdCopy from_path to_path (copy_options_default\<lparr>cpo_recursive := has_flag a ''recursive'',
     cpo_overwrite := has_flag a ''overwrite'', cpo_expected_revision := rev\<rparr>))))))"

definition parse_mv :: "parse_env \<Rightarrow> args \<Rightarrow> parse_error + command" where
  "parse_mv H a =
     andthen (check_args H a ''mv'' [''overwrite'', ''expected-revision''] 2) (\<lambda>_.
     andthen (path_arg a ''mv'' 0 ''from'') (\<lambda>from_path.
     andthen (path_arg a ''mv'' 1 ''to'') (\<lambda>to_path.
     andthen (expected_revision a ''mv'') (\<lambda>rev.
     Inr (CmdMove from_path to_path (move_options_default\<lparr>mvo_overwrite := has_flag a ''overwrite'',
     mvo_expected_revision := rev\<rparr>))))))"

definition parse_rm :: "parse_env \<Rightarrow> args \<Rightarrow> parse_error + command" where
  "parse_rm H a =
     andthen (check_args H a ''rm'' [''recursive'', ''expected-revision''] 1) (\<lambda>_.
     andthen (path_arg a ''rm'' 0 ''path'') (\<lambda>path.
     andthen (expected_revision a ''rm'') (\<lambda>rev.
     Inr (CmdRemove path (remove_options_default\<lparr>rmo_recursive := has_flag a ''recursive'',
     rmo_expected_revision := rev\<rparr>)))))"

definition parse_ln :: "parse_env \<Rightarrow> args \<Rightarrow> parse_error + command" where
  "parse_ln H a =
     andthen (check_args H a ''ln'' [''parents'', ''exist-ok'', ''expected-revision''] 2) (\<lambda>_.
     andthen (positional a ''ln'' 0 ''target'') (\<lambda>target_raw.
     andthen (positional a ''ln'' 1 ''link'') (\<lambda>link_raw.
     andthen (map_err (\<lambda>e. InvalidArgument ''ln'' ''target'' (err_message e)) (lt_parse target_raw)) (\<lambda>target.
     andthen (parse_path ''ln'' ''link'' link_raw) (\<lambda>link.
     andthen (expected_revision a ''ln'') (\<lambda>rev.
     Inr (CmdSymlink target link (create_options_default\<lparr>co_parents := has_flag a ''parents'',
     co_exist_ok := has_flag a ''exist-ok'', co_expected_revision := rev\<rparr>))))))))"

definition parse_readlink :: "parse_env \<Rightarrow> args \<Rightarrow> parse_error + command" where
  "parse_readlink H a =
     andthen (check_args H a ''readlink'' [] 1) (\<lambda>_.
     andthen (path_arg a ''readlink'' 0 ''path'') (\<lambda>path.
     Inr (CmdReadLink path)))"

definition parse_trash :: "parse_env \<Rightarrow> args \<Rightarrow> parse_error + command" where
  "parse_trash H a =
     andthen (check_args H a ''trash'' [''expected-revision''] 1) (\<lambda>_.
     andthen (path_arg a ''trash'' 0 ''path'') (\<lambda>path.
     andthen (expected_revision a ''trash'') (\<lambda>rev.
     Inr (CmdTrash path (mutation_options_default\<lparr>mo_expected_revision := rev\<rparr>)))))"

definition parse_trash_ls :: "parse_env \<Rightarrow> args \<Rightarrow> parse_error + command" where
  "parse_trash_ls H a =
     andthen (check_args H a ''trash-ls'' [''cursor'', ''limit''] 0) (\<lambda>_.
     andthen (page_arg a ''trash-ls'') (\<lambda>page.
     Inr (CmdListTrash page)))"

definition parse_restore :: "parse_env \<Rightarrow> args \<Rightarrow> parse_error + command" where
  "parse_restore H a =
     andthen (check_args H a ''restore'' [''to'', ''expected-revision''] 1) (\<lambda>_.
     andthen (positional a ''restore'' 0 ''trash-id'') (\<lambda>raw_id.
     andthen (ok_or (InvalidArgument ''restore'' ''trash-id'' ''not a valid id'') (id_parse H raw_id)) (\<lambda>trash.
     andthen (transposed (parse_path ''restore'' ''to'') (flag_value a ''to'')) (\<lambda>dest.
     andthen (expected_revision a ''restore'') (\<lambda>rev.
     Inr (CmdRestore trash dest (mutation_options_default\<lparr>mo_expected_revision := rev\<rparr>)))))))"

definition parse_purge :: "parse_env \<Rightarrow> args \<Rightarrow> parse_error + command" where
  "parse_purge H a =
     andthen (check_args H a ''purge'' [] 1) (\<lambda>_.
     andthen (positional a ''purge'' 0 ''trash-id'') (\<lambda>raw_id.
     andthen (ok_or (InvalidArgument ''purge'' ''trash-id'' ''not a valid id'') (id_parse H raw_id)) (\<lambda>trash.
     Inr (CmdPurge trash))))"

definition parse_setattr :: "parse_env \<Rightarrow> args \<Rightarrow> parse_error + command" where
  "parse_setattr H a =
     andthen (check_args H a ''setattr'' [''value'', ''expected-revision''] 2) (\<lambda>_.
     andthen (path_arg a ''setattr'' 0 ''path'') (\<lambda>path.
     andthen (positional a ''setattr'' 1 ''key'') (\<lambda>key.
     andthen (ok_or (MissingArgument ''setattr'' ''--value'') (map_option as_bytes (flag_value a ''value''))) (\<lambda>val.
     andthen (expected_revision a ''setattr'') (\<lambda>rev.
     Inr (CmdSetAttribute path key val (mutation_options_default\<lparr>mo_expected_revision := rev\<rparr>)))))))"

definition parse_rmattr :: "parse_env \<Rightarrow> args \<Rightarrow> parse_error + command" where
  "parse_rmattr H a =
     andthen (check_args H a ''rmattr'' [''expected-revision''] 2) (\<lambda>_.
     andthen (path_arg a ''rmattr'' 0 ''path'') (\<lambda>path.
     andthen (positional a ''rmattr'' 1 ''key'') (\<lambda>key.
     andthen (expected_revision a ''rmattr'') (\<lambda>rev.
     Inr (CmdRemoveAttribute path key (mutation_options_default\<lparr>mo_expected_revision := rev\<rparr>))))))"

definition parse_glob :: "parse_env \<Rightarrow> args \<Rightarrow> parse_error + command" where
  "parse_glob H a =
     andthen (check_args H a ''glob'' [''cursor'', ''limit''] 1) (\<lambda>_.
     andthen (positional a ''glob'' 0 ''pattern'') (\<lambda>raw.
     andthen (parse_glob_pattern raw) (\<lambda>pattern.
     andthen (page_arg a ''glob'') (\<lambda>page.
     Inr (CmdGlob pattern page)))))"

definition parse_find :: "parse_env \<Rightarrow> args \<Rightarrow> parse_error + command" where
  "parse_find H a =
     andthen (check_args H a ''find'' [''name-contains'', ''kind'', ''min-size'', ''max-size'',
      ''modified-after'', ''modified-before'', ''cursor'', ''limit''] 1) (\<lambda>_.
     andthen (path_arg a ''find'' 0 ''root'') (\<lambda>root.
     andthen (transposed parse_kind (flag_value a ''kind'')) (\<lambda>kind.
     andthen (transposed (\<lambda>v. ok_or (InvalidArgument ''find'' ''min-size'' unsigned_reason) (parse_u64 v)) (flag_value a ''min-size'')) (\<lambda>min_size.
     andthen (transposed (\<lambda>v. ok_or (InvalidArgument ''find'' ''max-size'' unsigned_reason) (parse_u64 v)) (flag_value a ''max-size'')) (\<lambda>max_size.
     andthen (transposed (\<lambda>v. ok_or (InvalidArgument ''find'' ''modified-after'' ''must be an integer'') (parse_i64 v)) (flag_value a ''modified-after'')) (\<lambda>modified_after.
     andthen (transposed (\<lambda>v. ok_or (InvalidArgument ''find'' ''modified-before'' ''must be an integer'') (parse_i64 v)) (flag_value a ''modified-before'')) (\<lambda>modified_before.
     andthen (page_arg a ''find'') (\<lambda>page.
     Inr (CmdFind (find_query_default\<lparr>fq_root := root, fq_name_contains := flag_value a ''name-contains'',
     fq_kind := kind, fq_min_logical_size := min_size, fq_max_logical_size := max_size,
     fq_modified_after_ms := modified_after, fq_modified_before_ms := modified_before\<rparr>) page)))))))))"

definition parse_grep :: "parse_env \<Rightarrow> args \<Rightarrow> parse_error + command" where
  "parse_grep H a =
     andthen (check_args H a ''grep'' [''cursor'', ''limit''] 2) (\<lambda>_.
     andthen (path_arg a ''grep'' 0 ''root'') (\<lambda>root.
     andthen (positional a ''grep'' 1 ''needle'') (\<lambda>needle.
     andthen (page_arg a ''grep'') (\<lambda>page.
     Inr (CmdSearchContent (content_query_default\<lparr>cq_root := root, cq_needle := as_bytes needle\<rparr>) page)))))"

definition parse_changes :: "parse_env \<Rightarrow> args \<Rightarrow> parse_error + command" where
  "parse_changes H a =
     andthen (check_args H a ''changes'' [''after'', ''cursor'', ''limit''] 0) (\<lambda>_.
     andthen (page_arg a ''changes'') (\<lambda>page.
     Inr (CmdChanges (flag_value a ''after'') page)))"

definition parse_batch :: "parse_env \<Rightarrow> args \<Rightarrow> parse_error + command" where
  "parse_batch H a =
     andthen (check_args H a ''batch'' [''file''] 0) (\<lambda>_.
     andthen (ok_or (MissingArgument ''batch'' ''--file'') (flag_value a ''file'')) (\<lambda>file.
     andthen (map_err (InvalidArgument ''batch'' ''file'') (read_file H file)) (\<lambda>contents.
     andthen (map_err (InvalidArgument ''batch'' ''file'') (batch_of_json H contents)) (\<lambda>operations.
     Inr (CmdBatch operations)))))"

definition verb_table :: "(string \<times> (parse_env \<Rightarrow> args \<Rightarrow> parse_error + command)) list" where
  "verb_table =
     [(''usage'', parse_usage),
      (''stat'', parse_stat),
      (''exists'', parse_exists),
      (''ls'', parse_ls),
      (''tree'', parse_tree),
      (''mkdir'', parse_mkdir),
      (''cat'', parse_cat),
      (''write'', parse_write),
      (''write-at'', parse_write_at),
      (''append'', parse_append),
      (''truncate'', parse_truncate),
      (''touch'', parse_touch),
      (''cp'', parse_cp),
      (''mv'', parse_mv),
      (''rm'', parse_rm),
      (''ln'', parse_ln),
      (''readlink'', parse_readlink),
      (''trash'', parse_trash),
      (''trash-ls'', parse_trash_ls),
      (''restore'', parse_restore),
      (''purge'', parse_purge),
      (''setattr'', parse_setattr),
      (''rmattr'', parse_rmattr),
      (''glob'', parse_glob),
      (''find'', parse_find),
      (''grep'', parse_grep),
      (''changes'', parse_changes),
      (''batch'', parse_batch)]"

text \<open>The dispatch on the verb, and the whole line.\<close>

definition dispatch :: "parse_env \<Rightarrow> string \<Rightarrow> args \<Rightarrow> parse_error + command" where
  "dispatch H verb a = (case map_of verb_table verb of Some arm \<Rightarrow> arm H a | None \<Rightarrow> Inl (UnknownVerb verb))"

definition parse :: "parse_env \<Rightarrow> string \<Rightarrow> parse_error + command" where
  "parse H line =
     andthen (map_err LexFailed (tokenize line)) (\<lambda>tokens.
     case tokens of
       [] \<Rightarrow> Inl (MissingArgument ''<line>'' ''verb'')
     | Flag name _ # _ \<Rightarrow> Inl (UnknownVerb (''--'' @ name))
     | Word verb # rest \<Rightarrow> dispatch H verb (split_tokens rest))"

end
