(* ===== verification/Help.thy ===== *)
theory Help
  imports Command
begin

text \<open>
  \<open>fslite-command/src/help.rs\<close>: the documentation of the verbs, and what the help command
  prints, line by line.
\<close>

record verb_help =
  vh_name :: string
  vh_summary :: string
  vh_flags :: "string list"

definition VERB_HELP :: "verb_help list" where
  "VERB_HELP =
     [\<lparr>vh_name = ''append'',
        vh_summary = ''Append bytes to a regular file (creates if missing).'',
        vh_flags = [''text'', ''expected-revision'']\<rparr>,
      \<lparr>vh_name = ''batch'',
        vh_summary = ''Atomically execute a list of metadata operations from a file or stdin.'',
        vh_flags = [''file'']\<rparr>,
      \<lparr>vh_name = ''cat'',
        vh_summary = ''Stream a regular file's contents to stdout.'',
        vh_flags = [''range'', ''no-follow'']\<rparr>,
      \<lparr>vh_name = ''changes'',
        vh_summary = ''Stream the workspace change feed (cursor-paginated).'',
        vh_flags = [''after'', ''cursor'', ''limit'']\<rparr>,
      \<lparr>vh_name = ''cp'',
        vh_summary = ''Copy a node within the workspace.'',
        vh_flags = [''recursive'', ''overwrite'', ''expected-revision'']\<rparr>,
      \<lparr>vh_name = ''exists'',
        vh_summary = ''Test whether a path resolves to a visible node (exit 0 if yes).'',
        vh_flags = [''no-follow'']\<rparr>,
      \<lparr>vh_name = ''find'',
        vh_summary = ''Match nodes by bounded metadata predicates (kind, size, mtime, name).'',
        vh_flags = [''name-contains'', ''kind'', ''min-size'', ''max-size'',
          ''modified-after'', ''modified-before'', ''cursor'', ''limit'']\<rparr>,
      \<lparr>vh_name = ''glob'',
        vh_summary = ''Match path shapes from the workspace root (e.g. `docs/*.txt`).'',
        vh_flags = [''cursor'', ''limit'']\<rparr>,
      \<lparr>vh_name = ''grep'',
        vh_summary = ''Literal byte matches inside regular files (returns matched ranges).'',
        vh_flags = [''cursor'', ''limit'']\<rparr>,
      \<lparr>vh_name = ''ln'',
        vh_summary = ''Create a symbolic link.'',
        vh_flags = [''parents'', ''exist-ok'', ''expected-revision'']\<rparr>,
      \<lparr>vh_name = ''ls'',
        vh_summary = ''List one directory's direct children (cursor-paginated).'',
        vh_flags = [''cursor'', ''limit'']\<rparr>,
      \<lparr>vh_name = ''mkdir'',
        vh_summary = ''Create a directory (paths may be workspace-root-relative).'',
        vh_flags = [''parents'', ''exist-ok'', ''expected-revision'']\<rparr>,
      \<lparr>vh_name = ''mv'',
        vh_summary = ''Move a node within the workspace.'',
        vh_flags = [''overwrite'', ''expected-revision'']\<rparr>,
      \<lparr>vh_name = ''purge'',
        vh_summary = ''Permanently delete a trashed node.'',
        vh_flags = []\<rparr>,
      \<lparr>vh_name = ''readlink'',
        vh_summary = ''Print a symbolic link's stored target.'',
        vh_flags = []\<rparr>,
      \<lparr>vh_name = ''restore'',
        vh_summary = ''Restore a trashed node (optionally to a different path).'',
        vh_flags = [''to'', ''expected-revision'']\<rparr>,
      \<lparr>vh_name = ''rm'',
        vh_summary = ''Permanently remove a node and (recursively) its subtree.'',
        vh_flags = [''recursive'', ''expected-revision'']\<rparr>,
      \<lparr>vh_name = ''rmattr'',
        vh_summary = ''Remove a custom attribute from a node.'',
        vh_flags = [''expected-revision'']\<rparr>,
      \<lparr>vh_name = ''setattr'',
        vh_summary = ''Set an opaque custom attribute on a node.'',
        vh_flags = [''value'', ''expected-revision'']\<rparr>,
      \<lparr>vh_name = ''stat'',
        vh_summary = ''Print metadata for one path.'',
        vh_flags = [''no-follow'']\<rparr>,
      \<lparr>vh_name = ''touch'',
        vh_summary = ''Update timestamps or create an empty regular file.'',
        vh_flags = [''no-create'', ''expected-revision'']\<rparr>,
      \<lparr>vh_name = ''trash'',
        vh_summary = ''Move a node into recoverable trash.'',
        vh_flags = [''expected-revision'']\<rparr>,
      \<lparr>vh_name = ''trash-ls'',
        vh_summary = ''List recoverable trash records (cursor-paginated).'',
        vh_flags = [''cursor'', ''limit'']\<rparr>,
      \<lparr>vh_name = ''tree'',
        vh_summary = ''Recursively enumerate a subtree (cursor-paginated).'',
        vh_flags = [''max-depth'', ''follow-symlinks'', ''cursor'', ''limit'']\<rparr>,
      \<lparr>vh_name = ''truncate'',
        vh_summary = ''Set a regular file's logical length.'',
        vh_flags = [''length'', ''expected-revision'']\<rparr>,
      \<lparr>vh_name = ''usage'',
        vh_summary = ''Print workspace byte/node usage and quota limits.'',
        vh_flags = []\<rparr>,
      \<lparr>vh_name = ''write'',
        vh_summary = ''Replace a regular file's contents (creates by default).'',
        vh_flags = [''text'', ''no-create'', ''expected-revision'']\<rparr>,
      \<lparr>vh_name = ''write-at'',
        vh_summary = ''Write bytes beginning at a logical offset.'',
        vh_flags = [''offset'', ''text'', ''no-create'', ''expected-revision'']\<rparr>]"

text \<open>\<open>{:<width$}\<close> of an ASCII text.\<close>

definition pad_right :: "nat \<Rightarrow> string \<Rightarrow> string" where
  "pad_right width s = s @ replicate (width - length s) CHR '' ''"

definition print_verb_table :: "string list" where
  "print_verb_table =
     (let entries = sort_key vh_name VERB_HELP;
          name_width = (if entries = [] then 0 else Max (set (map (\<lambda>e. length (vh_name e)) entries)))
      in map (\<lambda>e. ''  '' @ pad_right name_width (vh_name e) @ ''  '' @ vh_summary e) entries)"

text \<open>The entry found and the lines printed.\<close>

definition print_verb_help :: "string \<Rightarrow> (verb_help \<times> string list) option" where
  "print_verb_help verb =
     (case find (\<lambda>e. vh_name e = verb) VERB_HELP of
        None \<Rightarrow> None
      | Some e \<Rightarrow> Some (e, [vh_summary e, '''', ''Flags:''] @
          (if vh_flags e = [] then [''  (none)''] else map (\<lambda>flag. ''  --'' @ flag) (vh_flags e))))"

end
