(* ===== verification/Grammar.thy ===== *)
theory Grammar
  imports Parser Help Batches
begin

text \<open>
  The grammar of the command lines: what the parser accepts, for every verb, is what the help
  table says, no argument is dropped silently, and whatever comes out of the parser has
  normalized paths.
\<close>

subsection \<open>Results\<close>

lemma andthen_Inr [simp]: "andthen r f = Inr y \<longleftrightarrow> (\<exists>x. r = Inr x \<and> f x = Inr y)"
  by (cases r) auto

lemma map_err_Inr [simp]: "map_err f r = Inr y \<longleftrightarrow> r = Inr y"
  by (cases r) (auto simp: map_err_def)

lemma ok_or_Inr [simp]: "ok_or e x = Inr y \<longleftrightarrow> x = Some y"
  by (cases x) (auto simp: ok_or_def)

lemma transposed_Inr: "transposed f x = Inr y \<longleftrightarrow> (case x of None \<Rightarrow> y = None | Some v \<Rightarrow> \<exists>z. f v = Inr z \<and> y = Some z)"
  by (auto simp: transposed_def split: option.splits sum.splits)

subsection \<open>The guard of every arm\<close>

text \<open>The flags the help table lists for a verb, and the number of its positional arguments.\<close>

definition flags_of :: "string \<Rightarrow> string list" where
  "flags_of verb = (case find (\<lambda>e. vh_name e = verb) VERB_HELP of Some e \<Rightarrow> vh_flags e | None \<Rightarrow> [])"

definition arity_of :: "string \<Rightarrow> nat" where
  "arity_of verb =
     (if verb \<in> {''usage'', ''trash-ls'', ''changes'', ''batch''} then 0
      else if verb \<in> {''cp'', ''mv'', ''ln'', ''setattr'', ''rmattr'', ''grep''} then 2 else 1)"

definition guarded :: "string \<Rightarrow> string list \<Rightarrow> nat \<Rightarrow> (parse_env \<Rightarrow> args \<Rightarrow> parse_error + command) \<Rightarrow> bool" where
  "guarded verb known n arm \<longleftrightarrow> (\<exists>k. \<forall>H a. arm H a = andthen (check_args H a verb known n) (k H a))"

lemma guardedI: "(\<And>H a. arm H a = andthen (check_args H a verb known n) (k H a)) \<Longrightarrow> guarded verb known n arm"
  unfolding guarded_def by blast

lemmas arm_defs =
  parse_usage_def parse_stat_def parse_exists_def parse_ls_def
  parse_tree_def parse_mkdir_def parse_cat_def parse_write_def
  parse_write_at_def parse_append_def parse_truncate_def parse_touch_def
  parse_cp_def parse_mv_def parse_rm_def parse_ln_def
  parse_readlink_def parse_trash_def parse_trash_ls_def parse_restore_def
  parse_purge_def parse_setattr_def parse_rmattr_def parse_glob_def
  parse_find_def parse_grep_def parse_changes_def parse_batch_def

lemma arms_guarded:
  "guarded ''usage'' [] 0 parse_usage"
  "guarded ''stat'' [''no-follow''] 1 parse_stat"
  "guarded ''exists'' [''no-follow''] 1 parse_exists"
  "guarded ''ls'' [''cursor'', ''limit''] 1 parse_ls"
  "guarded ''tree'' [''max-depth'', ''follow-symlinks'', ''cursor'', ''limit''] 1 parse_tree"
  "guarded ''mkdir'' [''parents'', ''exist-ok'', ''expected-revision''] 1 parse_mkdir"
  "guarded ''cat'' [''range'', ''no-follow''] 1 parse_cat"
  "guarded ''write'' [''text'', ''no-create'', ''expected-revision''] 1 parse_write"
  "guarded ''write-at'' [''offset'', ''text'', ''no-create'', ''expected-revision''] 1 parse_write_at"
  "guarded ''append'' [''text'', ''expected-revision''] 1 parse_append"
  "guarded ''truncate'' [''length'', ''expected-revision''] 1 parse_truncate"
  "guarded ''touch'' [''no-create'', ''expected-revision''] 1 parse_touch"
  "guarded ''cp'' [''recursive'', ''overwrite'', ''expected-revision''] 2 parse_cp"
  "guarded ''mv'' [''overwrite'', ''expected-revision''] 2 parse_mv"
  "guarded ''rm'' [''recursive'', ''expected-revision''] 1 parse_rm"
  "guarded ''ln'' [''parents'', ''exist-ok'', ''expected-revision''] 2 parse_ln"
  "guarded ''readlink'' [] 1 parse_readlink"
  "guarded ''trash'' [''expected-revision''] 1 parse_trash"
  "guarded ''trash-ls'' [''cursor'', ''limit''] 0 parse_trash_ls"
  "guarded ''restore'' [''to'', ''expected-revision''] 1 parse_restore"
  "guarded ''purge'' [] 1 parse_purge"
  "guarded ''setattr'' [''value'', ''expected-revision''] 2 parse_setattr"
  "guarded ''rmattr'' [''expected-revision''] 2 parse_rmattr"
  "guarded ''glob'' [''cursor'', ''limit''] 1 parse_glob"
  "guarded ''find'' [''name-contains'', ''kind'', ''min-size'',
     ''max-size'', ''modified-after'', ''modified-before'', ''cursor'', ''limit''] 1 parse_find"
  "guarded ''grep'' [''cursor'', ''limit''] 2 parse_grep"
  "guarded ''changes'' [''after'', ''cursor'', ''limit''] 0 parse_changes"
  "guarded ''batch'' [''file''] 0 parse_batch"
  by (rule guardedI, rule arm_defs)+

text \<open>The lists of the parser are those of the help table.\<close>

lemma flags_of_verbs:
  "flags_of ''usage'' = []"
  "flags_of ''stat'' = [''no-follow'']"
  "flags_of ''exists'' = [''no-follow'']"
  "flags_of ''ls'' = [''cursor'', ''limit'']"
  "flags_of ''tree'' = [''max-depth'', ''follow-symlinks'', ''cursor'', ''limit'']"
  "flags_of ''mkdir'' = [''parents'', ''exist-ok'', ''expected-revision'']"
  "flags_of ''cat'' = [''range'', ''no-follow'']"
  "flags_of ''write'' = [''text'', ''no-create'', ''expected-revision'']"
  "flags_of ''write-at'' = [''offset'', ''text'', ''no-create'', ''expected-revision'']"
  "flags_of ''append'' = [''text'', ''expected-revision'']"
  "flags_of ''truncate'' = [''length'', ''expected-revision'']"
  "flags_of ''touch'' = [''no-create'', ''expected-revision'']"
  "flags_of ''cp'' = [''recursive'', ''overwrite'', ''expected-revision'']"
  "flags_of ''mv'' = [''overwrite'', ''expected-revision'']"
  "flags_of ''rm'' = [''recursive'', ''expected-revision'']"
  "flags_of ''ln'' = [''parents'', ''exist-ok'', ''expected-revision'']"
  "flags_of ''readlink'' = []"
  "flags_of ''trash'' = [''expected-revision'']"
  "flags_of ''trash-ls'' = [''cursor'', ''limit'']"
  "flags_of ''restore'' = [''to'', ''expected-revision'']"
  "flags_of ''purge'' = []"
  "flags_of ''setattr'' = [''value'', ''expected-revision'']"
  "flags_of ''rmattr'' = [''expected-revision'']"
  "flags_of ''glob'' = [''cursor'', ''limit'']"
  "flags_of ''find'' = [''name-contains'', ''kind'', ''min-size'',
     ''max-size'', ''modified-after'', ''modified-before'', ''cursor'', ''limit'']"
  "flags_of ''grep'' = [''cursor'', ''limit'']"
  "flags_of ''changes'' = [''after'', ''cursor'', ''limit'']"
  "flags_of ''batch'' = [''file'']"
  by code_simp+

lemma verb_table_guarded: "list_all (\<lambda>(verb, arm). guarded verb (flags_of verb) (arity_of verb) arm) verb_table"
  by (simp add: verb_table_def flags_of_verbs arity_of_def arms_guarded [unfolded One_nat_def])

subsection \<open>What is accepted\<close>

text \<open>The iteration of a hash map visits every key.\<close>

definition env_ok :: "parse_env \<Rightarrow> bool" where
  "env_ok H \<longleftrightarrow> (\<forall>ks. set (key_order H ks) = set ks) \<and>
     (\<forall>contents ops. batch_of_json H contents = Inr ops \<longrightarrow> list_all legal_op ops)"

lemma check_args_Inr:
  assumes "env_ok H"
  shows "check_args H a verb known n = Inr u \<longleftrightarrow>
    fst ` set (flags a) \<subseteq> set known \<and> length (positionals a) \<le> n"
proof -
  have "set (key_order H (map fst (flags a))) = fst ` set (flags a)" using assms by (simp add: env_ok_def)
  then have "check_known_flags H a verb known = Inr () \<longleftrightarrow> fst ` set (flags a) \<subseteq> set known"
    by (auto simp: check_known_flags_def subset_iff simp flip: find_None_iff split: option.splits)
      (auto simp: find_None_iff dest!: find_SomeD)
  then show ?thesis by (auto simp: check_args_def check_positional_arity_def)
qed

lemma unknown_flag:
  assumes "env_ok H" "\<not> fst ` set (flags a) \<subseteq> set known"
  shows "\<exists>flag \<in> fst ` set (flags a) - set known. check_args H a verb known n = Inl (UnknownFlag verb flag)"
proof -
  from assms obtain flag where "find (\<lambda>flag. flag \<notin> set known) (key_order H (map fst (flags a))) = Some flag"
    unfolding env_ok_def by (cases "find (\<lambda>flag. flag \<notin> set known) (key_order H (map fst (flags a)))")
      (auto simp: find_None_iff)
  moreover from find_SomeD [OF this] assms(1) have "flag \<in> fst ` set (flags a) - set known"
    by (auto simp: env_ok_def)
  ultimately show ?thesis by (auto simp: check_args_def check_known_flags_def)
qed

lemma dispatch_guarded:
  assumes "map_of verb_table verb \<noteq> None"
  obtains k where "\<forall>H a. dispatch H verb a = andthen (check_args H a verb (flags_of verb) (arity_of verb)) (k H a)"
proof -
  from assms obtain arm where arm: "map_of verb_table verb = Some arm" by blast
  then have "(verb, arm) \<in> set verb_table" by (rule map_of_SomeD)
  then have "guarded verb (flags_of verb) (arity_of verb) arm" using verb_table_guarded by (auto simp: list_all_iff)
  with arm that show thesis by (auto simp: dispatch_def guarded_def)
qed

text \<open>The tokens after the verb, as the arms see them.\<close>

fun word_list :: "token \<Rightarrow> string list" where
  "word_list (Word w) = [w]"
| "word_list (Flag _ _) = []"

lemma positionals_fold: "positionals (fold add_token ts a) = positionals a @ concat (map word_list ts)"
proof (induction ts arbitrary: a)
  case (Cons t ts)
  then show ?case by (cases t) (simp_all add: add_token_def)
qed simp

lemma flags_insert: "fst ` set (insert_flag name val fs) = insert name (fst ` set fs)"
  by (auto simp: insert_flag_def image_iff)

lemma flags_fold: "fst ` set (flags (fold add_token ts a)) = fst ` set (flags a) \<union> {name. \<exists>val. Flag name val \<in> set ts}"
proof (induction ts arbitrary: a)
  case (Cons t ts)
  then show ?case by (cases t) (auto simp: add_token_def flags_insert)
qed simp

lemma split_tokens:
  "positionals (split_tokens ts) = concat (map word_list ts)"
  "fst ` set (flags (split_tokens ts)) = {name. \<exists>val. Flag name val \<in> set ts}"
  by (simp_all add: split_tokens_def positionals_fold flags_fold)

text \<open>An accepted line, piece by piece.\<close>

definition accepted :: "string \<Rightarrow> bool" where
  "accepted line \<longleftrightarrow>
     (\<exists>verb rest. tokenize line = Inr (Word verb # rest) \<and> verb \<in> set (map vh_name VERB_HELP) \<and>
        (\<forall>name val. Flag name val \<in> set rest \<longrightarrow> name \<in> set (flags_of verb)) \<and>
        length (concat (map word_list rest)) \<le> arity_of verb)"

lemma help_verbs: "set (map vh_name VERB_HELP) = set (map fst verb_table)"
  by code_simp

lemma parse_lineE:
  assumes p: "parse H line = Inr cmd"
  obtains verb rest where "tokenize line = Inr (Word verb # rest)" "dispatch H verb (split_tokens rest) = Inr cmd"
proof -
  from p obtain ts where ts: "tokenize line = Inr ts" by (auto simp: parse_def)
  show thesis
  proof (cases ts)
    case Nil
    with p ts show ?thesis by (simp add: parse_def map_err_def)
  next
    case (Cons t rest)
    with p ts that show ?thesis by (cases t) (simp_all add: parse_def map_err_def)
  qed
qed

lemma parse_accepted:
  assumes H: "env_ok H" and p: "parse H line = Inr cmd"
  shows "accepted line"
proof -
  obtain verb rest where t: "tokenize line = Inr (Word verb # rest)" "dispatch H verb (split_tokens rest) = Inr cmd"
    using p by (rule parse_lineE)
  then have v: "map_of verb_table verb \<noteq> None" by (auto simp: dispatch_def split: option.splits)
  then obtain k where "\<forall>H a. dispatch H verb a = andthen (check_args H a verb (flags_of verb) (arity_of verb)) (k H a)"
    by (rule dispatch_guarded)
  with t(2) have "fst ` set (flags (split_tokens rest)) \<subseteq> set (flags_of verb)"
    "length (positionals (split_tokens rest)) \<le> arity_of verb"
    by (auto simp: check_args_Inr [OF H])
  moreover have "verb \<in> set (map fst verb_table)" using v by (auto simp: map_of_eq_None_iff)
  ultimately show ?thesis
    using t(1) unfolding accepted_def split_tokens help_verbs by blast
qed

lemma dispatch_unknown_flag:
  assumes "env_ok H" "map_of verb_table verb \<noteq> None" "\<not> fst ` set (flags a) \<subseteq> set (flags_of verb)"
  shows "\<exists>flag \<in> fst ` set (flags a) - set (flags_of verb). dispatch H verb a = Inl (UnknownFlag verb flag)"
proof -
  obtain k where "\<forall>H a. dispatch H verb a = andthen (check_args H a verb (flags_of verb) (arity_of verb)) (k H a)"
    using assms(2) by (rule dispatch_guarded)
  moreover obtain flag where "flag \<in> fst ` set (flags a) - set (flags_of verb)"
    "check_args H a verb (flags_of verb) (arity_of verb) = Inl (UnknownFlag verb flag)"
    using unknown_flag [OF assms(1,3), of verb "arity_of verb"] by blast
  ultimately show ?thesis by (intro bexI [of _ flag]) simp_all
qed

lemma dispatch_too_many:
  assumes "env_ok H" "map_of verb_table verb \<noteq> None" "fst ` set (flags a) \<subseteq> set (flags_of verb)"
    "arity_of verb < length (positionals a)"
  shows "dispatch H verb a = Inl (TooManyArguments verb (arity_of verb) (length (positionals a)))"
proof -
  obtain k where "\<forall>H a. dispatch H verb a = andthen (check_args H a verb (flags_of verb) (arity_of verb)) (k H a)"
    using assms(2) by (rule dispatch_guarded)
  moreover have "check_known_flags H a verb (flags_of verb) = Inr ()"
  proof -
    have "find (\<lambda>flag. flag \<notin> set (flags_of verb)) (key_order H (map fst (flags a))) = None"
      using assms(1,3) by (auto simp: find_None_iff env_ok_def)
    then show ?thesis by (simp add: check_known_flags_def)
  qed
  ultimately show ?thesis using assms(4) by (simp add: check_args_def check_positional_arity_def)
qed

text \<open>Every way to be refused by the two checks, on a line the tokenizer accepts.\<close>

lemma parse_refuses:
  assumes H: "env_ok H" and t: "tokenize line = Inr (Word verb # rest)"
  shows
    "verb \<notin> set (map vh_name VERB_HELP) \<Longrightarrow> parse H line = Inl (UnknownVerb verb)"
    "verb \<in> set (map vh_name VERB_HELP) \<Longrightarrow> \<exists>name val. Flag name val \<in> set rest \<and> name \<notin> set (flags_of verb) \<Longrightarrow>
      \<exists>name val. Flag name val \<in> set rest \<and> name \<notin> set (flags_of verb) \<and> parse H line = Inl (UnknownFlag verb name)"
    "verb \<in> set (map vh_name VERB_HELP) \<Longrightarrow> \<forall>name val. Flag name val \<in> set rest \<longrightarrow> name \<in> set (flags_of verb) \<Longrightarrow>
      arity_of verb < length (concat (map word_list rest)) \<Longrightarrow>
      parse H line = Inl (TooManyArguments verb (arity_of verb) (length (concat (map word_list rest))))"
proof -
  have p: "parse H line = dispatch H verb (split_tokens rest)" using t by (simp add: parse_def map_err_def)
  have v: "map_of verb_table verb \<noteq> None \<longleftrightarrow> verb \<in> set (map vh_name VERB_HELP)"
    unfolding help_verbs by (simp add: map_of_eq_None_iff)
  show "parse H line = Inl (UnknownVerb verb)" if "verb \<notin> set (map vh_name VERB_HELP)"
    using that v by (simp add: p dispatch_def)
  show "\<exists>name val. Flag name val \<in> set rest \<and> name \<notin> set (flags_of verb) \<and> parse H line = Inl (UnknownFlag verb name)"
    if "verb \<in> set (map vh_name VERB_HELP)" "\<exists>name val. Flag name val \<in> set rest \<and> name \<notin> set (flags_of verb)"
    using dispatch_unknown_flag [OF H, of verb "split_tokens rest"] that v unfolding p split_tokens by blast
  show "parse H line = Inl (TooManyArguments verb (arity_of verb) (length (concat (map word_list rest))))"
    if "verb \<in> set (map vh_name VERB_HELP)" "\<forall>name val. Flag name val \<in> set rest \<longrightarrow> name \<in> set (flags_of verb)"
      "arity_of verb < length (concat (map word_list rest))"
    using dispatch_too_many [OF H, of verb "split_tokens rest"] that v unfolding p split_tokens by blast
qed

subsection \<open>What comes out\<close>

fun legal_command :: "command \<Rightarrow> bool" where
  "legal_command (CmdStat path _) = canonical path"
| "legal_command (CmdExists path _) = canonical path"
| "legal_command (CmdReadDir path _) = canonical path"
| "legal_command (CmdTree path _ _) = canonical path"
| "legal_command (CmdMkdir path _) = canonical path"
| "legal_command (CmdRead path _) = canonical path"
| "legal_command (CmdWrite path _ _) = canonical path"
| "legal_command (CmdWriteAt path _ _ _) = canonical path"
| "legal_command (CmdAppend path _ _) = canonical path"
| "legal_command (CmdTruncate path _ _) = canonical path"
| "legal_command (CmdTouch path _) = canonical path"
| "legal_command (CmdCopy from_path to_path _) = (canonical from_path \<and> canonical to_path)"
| "legal_command (CmdMove from_path to_path _) = (canonical from_path \<and> canonical to_path)"
| "legal_command (CmdRemove path _) = canonical path"
| "legal_command (CmdSymlink target link _) = (valid_target target \<and> canonical link)"
| "legal_command (CmdReadLink path) = canonical path"
| "legal_command (CmdTrash path _) = canonical path"
| "legal_command (CmdRestore _ dest _) = pred_option canonical dest"
| "legal_command (CmdSetAttribute path _ _ _) = canonical path"
| "legal_command (CmdRemoveAttribute path _ _) = canonical path"
| "legal_command (CmdFind query _) = canonical (fq_root query)"
| "legal_command (CmdSearchContent query _) = canonical (cq_root query)"
| "legal_command (CmdBatch operations) = list_all legal_op operations"
| "legal_command _ = True"

lemma parse_path_canonical: "parse_path verb name raw = Inr path \<Longrightarrow> canonical path"
  using vp_parse_segments(1) [of raw path] vp_join_segments(1) [OF canonical_root, of raw path]
  by (auto simp: parse_path_def split: if_splits)

lemma path_arg_canonical: "path_arg a verb i name = Inr path \<Longrightarrow> canonical path"
  by (auto simp: path_arg_def dest: parse_path_canonical)

lemma transposed_path: "transposed (parse_path verb name) x = Inr dest \<Longrightarrow> pred_option canonical dest"
  by (cases x) (auto simp: transposed_Inr dest: parse_path_canonical)

lemma target_valid: "lt_parse raw = Inr target \<Longrightarrow> valid_target target"
  by (simp add: valid_target_def lt_parse_target_str)

lemma arms_legal:
  "parse_usage H a = Inr cmd \<Longrightarrow> legal_command cmd"
  "parse_stat H a = Inr cmd \<Longrightarrow> legal_command cmd"
  "parse_exists H a = Inr cmd \<Longrightarrow> legal_command cmd"
  "parse_ls H a = Inr cmd \<Longrightarrow> legal_command cmd"
  "parse_tree H a = Inr cmd \<Longrightarrow> legal_command cmd"
  "parse_mkdir H a = Inr cmd \<Longrightarrow> legal_command cmd"
  "parse_cat H a = Inr cmd \<Longrightarrow> legal_command cmd"
  "parse_write H a = Inr cmd \<Longrightarrow> legal_command cmd"
  "parse_write_at H a = Inr cmd \<Longrightarrow> legal_command cmd"
  "parse_append H a = Inr cmd \<Longrightarrow> legal_command cmd"
  "parse_truncate H a = Inr cmd \<Longrightarrow> legal_command cmd"
  "parse_touch H a = Inr cmd \<Longrightarrow> legal_command cmd"
  "parse_cp H a = Inr cmd \<Longrightarrow> legal_command cmd"
  "parse_mv H a = Inr cmd \<Longrightarrow> legal_command cmd"
  "parse_rm H a = Inr cmd \<Longrightarrow> legal_command cmd"
  "parse_ln H a = Inr cmd \<Longrightarrow> legal_command cmd"
  "parse_readlink H a = Inr cmd \<Longrightarrow> legal_command cmd"
  "parse_trash H a = Inr cmd \<Longrightarrow> legal_command cmd"
  "parse_trash_ls H a = Inr cmd \<Longrightarrow> legal_command cmd"
  "parse_restore H a = Inr cmd \<Longrightarrow> legal_command cmd"
  "parse_purge H a = Inr cmd \<Longrightarrow> legal_command cmd"
  "parse_setattr H a = Inr cmd \<Longrightarrow> legal_command cmd"
  "parse_rmattr H a = Inr cmd \<Longrightarrow> legal_command cmd"
  "parse_glob H a = Inr cmd \<Longrightarrow> legal_command cmd"
  "parse_find H a = Inr cmd \<Longrightarrow> legal_command cmd"
  "parse_grep H a = Inr cmd \<Longrightarrow> legal_command cmd"
  "parse_changes H a = Inr cmd \<Longrightarrow> legal_command cmd"
  by ((unfold arm_defs)?, clarsimp simp: transposed_path target_valid dest!: path_arg_canonical parse_path_canonical)+

lemma batch_legal: "env_ok H \<Longrightarrow> parse_batch H a = Inr cmd \<Longrightarrow> legal_command cmd"
  by (auto simp: arm_defs env_ok_def)

lemma parse_legal:
  assumes "env_ok H" "parse H line = Inr cmd"
  shows "legal_command cmd"
proof -
  obtain verb rest where "dispatch H verb (split_tokens rest) = Inr cmd" using assms(2) by (rule parse_lineE)
  then obtain arm where "(verb, arm) \<in> set verb_table" "arm H (split_tokens rest) = Inr cmd"
    by (auto simp: dispatch_def split: option.splits dest: map_of_SomeD)
  then show ?thesis
    unfolding verb_table_def by (auto intro: arms_legal batch_legal [OF assms(1)])
qed

end
