(* ===== verification/File_System.thy ===== *)
theory File_System
  imports Api
begin

text \<open>
  The trait \<open>FileSystem\<close> of \<open>fslite-core/src/fs.rs\<close> as the record of its operations over a store
  of any kind, and \<open>fslite-sqlite/src/backend.rs\<close>, its implementation by the entry points of the
  SQLite crate. A mutation returns its result and the store it leaves; the listings that search
  the tree may not end.
\<close>

text \<open>A write source is the sequence of chunks and errors its stream yields.\<close>

type_synonym write_source = "byte list fs_result list"

definition source_from_bytes :: "byte list \<Rightarrow> write_source" where
  "source_from_bytes bytes = [Inr bytes]"

record 's file_system =
  fs_op_workspace_usage :: "request_context \<Rightarrow> 's \<Rightarrow> workspace_usage fs_result"
  fs_op_stat :: "request_context \<Rightarrow> virtual_path \<Rightarrow> stat_options \<Rightarrow> 's \<Rightarrow> node fs_result"
  fs_op_exists :: "request_context \<Rightarrow> virtual_path \<Rightarrow> stat_options \<Rightarrow> 's \<Rightarrow> bool fs_result"
  fs_op_read_dir :: "request_context \<Rightarrow> virtual_path \<Rightarrow> page_request \<Rightarrow> 's \<Rightarrow> node page fs_result"
  fs_op_tree :: "request_context \<Rightarrow> virtual_path \<Rightarrow> tree_options \<Rightarrow> page_request \<Rightarrow> 's \<Rightarrow> tree_entry page fs_result option"
  fs_op_mkdir :: "request_context \<Rightarrow> virtual_path \<Rightarrow> create_options \<Rightarrow> 's \<Rightarrow> node fs_result \<times> 's"
  fs_op_read :: "request_context \<Rightarrow> virtual_path \<Rightarrow> read_options \<Rightarrow> 's \<Rightarrow> file_read fs_result"
  fs_op_write :: "request_context \<Rightarrow> virtual_path \<Rightarrow> write_source \<Rightarrow> write_options \<Rightarrow> 's \<Rightarrow> node fs_result \<times> 's"
  fs_op_write_at :: "request_context \<Rightarrow> virtual_path \<Rightarrow> u64 \<Rightarrow> write_source \<Rightarrow> write_options \<Rightarrow> 's \<Rightarrow> node fs_result \<times> 's"
  fs_op_append :: "request_context \<Rightarrow> virtual_path \<Rightarrow> write_source \<Rightarrow> write_options \<Rightarrow> 's \<Rightarrow> node fs_result \<times> 's"
  fs_op_truncate :: "request_context \<Rightarrow> virtual_path \<Rightarrow> u64 \<Rightarrow> mutation_options \<Rightarrow> 's \<Rightarrow> node fs_result \<times> 's"
  fs_op_touch :: "request_context \<Rightarrow> virtual_path \<Rightarrow> touch_options \<Rightarrow> 's \<Rightarrow> node fs_result \<times> 's"
  fs_op_copy :: "request_context \<Rightarrow> virtual_path \<Rightarrow> virtual_path \<Rightarrow> copy_options \<Rightarrow> 's \<Rightarrow> node fs_result \<times> 's"
  fs_op_move_path :: "request_context \<Rightarrow> virtual_path \<Rightarrow> virtual_path \<Rightarrow> move_options \<Rightarrow> 's \<Rightarrow> node fs_result \<times> 's"
  fs_op_remove :: "request_context \<Rightarrow> virtual_path \<Rightarrow> remove_options \<Rightarrow> 's \<Rightarrow> unit fs_result \<times> 's"
  fs_op_symlink :: "request_context \<Rightarrow> link_target \<Rightarrow> virtual_path \<Rightarrow> create_options \<Rightarrow> 's \<Rightarrow> node fs_result \<times> 's"
  fs_op_read_link :: "request_context \<Rightarrow> virtual_path \<Rightarrow> 's \<Rightarrow> link_target fs_result"
  fs_op_trash :: "request_context \<Rightarrow> virtual_path \<Rightarrow> mutation_options \<Rightarrow> 's \<Rightarrow> trash_entry fs_result \<times> 's"
  fs_op_list_trash :: "request_context \<Rightarrow> page_request \<Rightarrow> 's \<Rightarrow> trash_entry page fs_result"
  fs_op_restore :: "request_context \<Rightarrow> uuid \<Rightarrow> virtual_path option \<Rightarrow> mutation_options \<Rightarrow> 's \<Rightarrow> node fs_result \<times> 's"
  fs_op_purge :: "request_context \<Rightarrow> uuid \<Rightarrow> 's \<Rightarrow> unit fs_result \<times> 's"
  fs_op_set_attribute :: "request_context \<Rightarrow> virtual_path \<Rightarrow> string \<Rightarrow> byte list \<Rightarrow> mutation_options \<Rightarrow> 's \<Rightarrow> node fs_result \<times> 's"
  fs_op_remove_attribute :: "request_context \<Rightarrow> virtual_path \<Rightarrow> string \<Rightarrow> mutation_options \<Rightarrow> 's \<Rightarrow> node fs_result \<times> 's"
  fs_op_glob :: "request_context \<Rightarrow> string \<Rightarrow> page_request \<Rightarrow> 's \<Rightarrow> node page fs_result option"
  fs_op_find :: "request_context \<Rightarrow> find_query \<Rightarrow> page_request \<Rightarrow> 's \<Rightarrow> node page fs_result option"
  fs_op_search_content :: "request_context \<Rightarrow> content_query \<Rightarrow> page_request \<Rightarrow> 's \<Rightarrow> search_match page fs_result option"
  fs_op_batch :: "request_context \<Rightarrow> batch_operation list \<Rightarrow> 's \<Rightarrow> batch_result list fs_result \<times> 's"
  fs_op_changes :: "request_context \<Rightarrow> string option \<Rightarrow> page_request \<Rightarrow> 's \<Rightarrow> change page fs_result"

text \<open>The encodings of the page cursors.\<close>

record codecs =
  cd_dir :: "dir_cursor codec"
  cd_tree :: "tree_cursor codec"
  cd_trash :: "trash_cursor codec"
  cd_change :: "change_cursor codec"
  cd_search :: "search_cursor codec"

definition sqlite_file_system :: "ext \<Rightarrow> codecs \<Rightarrow> db file_system" where
  "sqlite_file_system E C =
     \<lparr>fs_op_workspace_usage = fs_workspace_usage,
      fs_op_stat = fs_stat E,
      fs_op_exists = fs_exists E,
      fs_op_read_dir = (\<lambda>ctx. fs_read_dir E ctx (cd_dir C)),
      fs_op_tree = (\<lambda>ctx. fs_tree E ctx (cd_tree C)),
      fs_op_mkdir = fs_mkdir E,
      fs_op_read = fs_read,
      fs_op_write = fs_write E,
      fs_op_write_at = (\<lambda>ctx path offset. fs_write_at E ctx path (unat offset)),
      fs_op_append = fs_append E,
      fs_op_truncate = (\<lambda>ctx path len. fs_truncate E ctx path (unat len)),
      fs_op_touch = fs_touch E,
      fs_op_copy = fs_copy E,
      fs_op_move_path = fs_move_path E,
      fs_op_remove = fs_remove E,
      fs_op_symlink = fs_symlink E,
      fs_op_read_link = fs_read_link,
      fs_op_trash = fs_trash E,
      fs_op_list_trash = (\<lambda>ctx. fs_list_trash E ctx (cd_trash C)),
      fs_op_restore = fs_restore E,
      fs_op_purge = fs_purge E,
      fs_op_set_attribute = fs_set_attribute E,
      fs_op_remove_attribute = fs_remove_attribute E,
      fs_op_glob = (\<lambda>ctx. fs_glob E ctx (cd_search C)),
      fs_op_find = (\<lambda>ctx. fs_find E ctx (cd_search C)),
      fs_op_search_content = (\<lambda>ctx. fs_search_content E ctx (cd_search C)),
      fs_op_batch = fs_batch E,
      fs_op_changes = (\<lambda>ctx. fs_changes E ctx (cd_change C))\<rparr>"

end
