(* ===== verification/Local.thy ===== *)
theory Local
  imports File_System Command
begin

text \<open>
  \<open>fslite-command/src/local.rs\<close>: a command executed on a file system in the same process. The
  result is \<^const>\<open>None\<close> when the operation never returns.
\<close>

text \<open>The stream of a read, drained; it yields no errors when the store is read as it is.\<close>

definition drain :: "byte list fs_result list \<Rightarrow> byte list fs_result" where
  "drain stream = (case collect_results stream of Inl e \<Rightarrow> Inl e | Inr pieces \<Rightarrow> Inr (concat pieces))"

definition drained :: "file_read \<Rightarrow> command_output fs_result" where
  "drained file =
     res_bind (drain (map Inr (fr_stream file))) (\<lambda>bytes.
       Inr (OutContent (fr_logical_length file) (fr_revision file) (fr_range file) bytes))"

definition answer :: "('a \<Rightarrow> command_output fs_result) \<Rightarrow> 'a fs_result \<Rightarrow> 's \<Rightarrow> (command_output fs_result \<times> 's) option" where
  "answer f r s = Some (res_bind r f, s)"

definition answer_scan :: "('a \<Rightarrow> command_output) \<Rightarrow> 'a fs_result option \<Rightarrow> 's \<Rightarrow> (command_output fs_result \<times> 's) option" where
  "answer_scan f r s = map_option (\<lambda>x. (res_bind x (\<lambda>y. Inr (f y)), s)) r"

definition changed :: "('a \<Rightarrow> command_output) \<Rightarrow> 'a fs_result \<times> 's \<Rightarrow> (command_output fs_result \<times> 's) option" where
  "changed f r = Some (res_bind (fst r) (\<lambda>x. Inr (f x)), snd r)"

fun execute :: "'s file_system \<Rightarrow> request_context \<Rightarrow> command \<Rightarrow> 's \<Rightarrow> (command_output fs_result \<times> 's) option" where
  "execute F ctx CmdWorkspaceUsage s = answer (\<lambda>x. Inr (OutUsage x)) (fs_op_workspace_usage F ctx s) s"
| "execute F ctx (CmdStat path options) s = answer (\<lambda>x. Inr (OutNode x)) (fs_op_stat F ctx path options s) s"
| "execute F ctx (CmdExists path options) s = answer (\<lambda>x. Inr (OutExists x)) (fs_op_exists F ctx path options s) s"
| "execute F ctx (CmdReadDir path page) s = answer (\<lambda>x. Inr (OutNodes x)) (fs_op_read_dir F ctx path page s) s"
| "execute F ctx (CmdTree path options page) s = answer_scan OutTree (fs_op_tree F ctx path options page s) s"
| "execute F ctx (CmdMkdir path options) s = changed OutNode (fs_op_mkdir F ctx path options s)"
| "execute F ctx (CmdRead path options) s = answer drained (fs_op_read F ctx path options s) s"
| "execute F ctx (CmdWrite path bytes options) s = changed OutNode (fs_op_write F ctx path (source_from_bytes bytes) options s)"
| "execute F ctx (CmdWriteAt path offset bytes options) s = changed OutNode (fs_op_write_at F ctx path offset (source_from_bytes bytes) options s)"
| "execute F ctx (CmdAppend path bytes options) s = changed OutNode (fs_op_append F ctx path (source_from_bytes bytes) options s)"
| "execute F ctx (CmdTruncate path len options) s = changed OutNode (fs_op_truncate F ctx path len options s)"
| "execute F ctx (CmdTouch path options) s = changed OutNode (fs_op_touch F ctx path options s)"
| "execute F ctx (CmdCopy from_path to_path options) s = changed OutNode (fs_op_copy F ctx from_path to_path options s)"
| "execute F ctx (CmdMove from_path to_path options) s = changed OutNode (fs_op_move_path F ctx from_path to_path options s)"
| "execute F ctx (CmdRemove path options) s = changed (\<lambda>_. OutUnit) (fs_op_remove F ctx path options s)"
| "execute F ctx (CmdSymlink target link options) s = changed OutNode (fs_op_symlink F ctx target link options s)"
| "execute F ctx (CmdReadLink path) s = answer (\<lambda>x. Inr (OutLinkTarget x)) (fs_op_read_link F ctx path s) s"
| "execute F ctx (CmdTrash path options) s = changed OutTrash (fs_op_trash F ctx path options s)"
| "execute F ctx (CmdListTrash page) s = answer (\<lambda>x. Inr (OutTrashList x)) (fs_op_list_trash F ctx page s) s"
| "execute F ctx (CmdRestore tid dest options) s = changed OutNode (fs_op_restore F ctx tid dest options s)"
| "execute F ctx (CmdPurge tid) s = changed (\<lambda>_. OutUnit) (fs_op_purge F ctx tid s)"
| "execute F ctx (CmdSetAttribute path key val options) s = changed OutNode (fs_op_set_attribute F ctx path key val options s)"
| "execute F ctx (CmdRemoveAttribute path key options) s = changed OutNode (fs_op_remove_attribute F ctx path key options s)"
| "execute F ctx (CmdGlob pattern page) s = answer_scan OutNodes (fs_op_glob F ctx pattern page s) s"
| "execute F ctx (CmdFind query page) s = answer_scan OutNodes (fs_op_find F ctx query page s) s"
| "execute F ctx (CmdSearchContent query page) s = answer_scan OutSearchMatches (fs_op_search_content F ctx query page s) s"
| "execute F ctx (CmdChanges after_cursor page) s = answer (\<lambda>x. Inr (OutChanges x)) (fs_op_changes F ctx after_cursor page s) s"
| "execute F ctx (CmdBatch operations) s = changed OutBatch (fs_op_batch F ctx operations s)"

end
