(* ===== verification/Render.thy ===== *)
theory Render
  imports Command Lexer
begin

text \<open>
  \<open>fslite-command/src/render.rs\<close>: the human-readable text of a result. Names, paths and previews
  come from the outside; the sanitizers keep them from forging rows or terminal controls.
\<close>

subsection \<open>Characters\<close>

text \<open>\<open>char::is_control\<close> (category Cc): U+0000 to U+001F, U+007F to U+009F.\<close>

fun is_control :: "uchar \<Rightarrow> bool" where
  "is_control [] = False"
| "is_control (c # cs) \<longleftrightarrow> c < CHR 0x20 \<or> c = CHR 0x7F \<or> (c = CHR 0xC2 \<and> cs \<noteq> [] \<and> hd cs < CHR 0xA0)"

definition is_bidi_override :: "uchar \<Rightarrow> bool" where
  "is_bidi_override ch \<longleftrightarrow> ch \<in> set
     [[CHR 0xE2, CHR 0x80, CHR 0xAA], [CHR 0xE2, CHR 0x80, CHR 0xAB], [CHR 0xE2, CHR 0x80, CHR 0xAC],
      [CHR 0xE2, CHR 0x80, CHR 0xAD], [CHR 0xE2, CHR 0x80, CHR 0xAE],
      [CHR 0xE2, CHR 0x81, CHR 0xA6], [CHR 0xE2, CHR 0x81, CHR 0xA7], [CHR 0xE2, CHR 0x81, CHR 0xA8],
      [CHR 0xE2, CHR 0x81, CHR 0xA9],
      [CHR 0xE2, CHR 0x80, CHR 0x8E], [CHR 0xE2, CHR 0x80, CHR 0x8F], [CHR 0xD8, CHR 0x9C]]"

abbreviation line_separator :: uchar where "line_separator \<equiv> [CHR 0xE2, CHR 0x80, CHR 0xA8]"
abbreviation paragraph_separator :: uchar where "paragraph_separator \<equiv> [CHR 0xE2, CHR 0x80, CHR 0xA9]"

definition is_unicode_linebreak :: "uchar \<Rightarrow> bool" where
  "is_unicode_linebreak ch \<longleftrightarrow> ch = line_separator \<or> ch = paragraph_separator"

abbreviation newline :: char where "newline \<equiv> CHR 0x0A"
abbreviation tab :: char where "tab \<equiv> CHR 0x09"

subsection \<open>Sanitizers\<close>

definition sanitize_for_terminal :: "string \<Rightarrow> string" where
  "sanitize_for_terminal raw = concat (filter
     (\<lambda>ch. ch = [newline] \<or> ch = [tab] \<or> is_unicode_linebreak ch \<or> (\<not> is_control ch \<and> \<not> is_bidi_override ch))
     (utf8_chars raw))"

definition sanitize_name :: "string \<Rightarrow> string" where
  "sanitize_name raw = concat (filter
     (\<lambda>ch. \<not> is_control ch \<and> \<not> is_bidi_override ch \<and> \<not> is_unicode_linebreak ch) (utf8_chars raw))"

definition escape_break :: "uchar \<Rightarrow> string" where
  "escape_break ch =
     (if ch = [newline] then backslash @ ''n'' else if ch = [tab] then backslash @ ''t''
      else if ch = line_separator then backslash @ ''u{2028}''
      else if ch = paragraph_separator then backslash @ ''u{2029}'' else ch)"

definition sanitize_preview :: "string \<Rightarrow> string" where
  "sanitize_preview raw = concat (map escape_break (utf8_chars (sanitize_for_terminal raw)))"

subsection \<open>Lossy decoding\<close>

text \<open>
  \<open>String::from_utf8_lossy\<close>: every maximal part of an ill-formed sequence is replaced by U+FFFD.
  \<open>take_char\<close> yields the bytes of a character, or \<^const>\<open>None\<close> for a part to replace, and the rest.
\<close>

definition cont_byte :: "byte \<Rightarrow> bool" where
  "cont_byte b \<longleftrightarrow> 0x80 \<le> b \<and> b \<le> 0xBF"

definition second_byte :: "byte \<Rightarrow> byte \<Rightarrow> bool" where
  "second_byte b c \<longleftrightarrow>
     (if b = 0xE0 then 0xA0 \<le> c \<and> c \<le> 0xBF else if b = 0xED then 0x80 \<le> c \<and> c \<le> 0x9F
      else if b = 0xF0 then 0x90 \<le> c \<and> c \<le> 0xBF else if b = 0xF4 then 0x80 \<le> c \<and> c \<le> 0x8F
      else cont_byte c)"

fun more_bytes :: "nat \<Rightarrow> byte list \<Rightarrow> byte list \<Rightarrow> byte list option \<times> byte list" where
  "more_bytes 0 got rest = (Some got, rest)"
| "more_bytes (Suc n) got [] = (None, [])"
| "more_bytes (Suc n) got (c # rest) =
     (if cont_byte c then more_bytes n (got @ [c]) rest else (None, c # rest))"

definition take_char :: "byte \<Rightarrow> byte list \<Rightarrow> byte list option \<times> byte list" where
  "take_char b rest =
     (if b < 0x80 then (Some [b], rest)
      else if 0xC2 \<le> b \<and> b \<le> 0xDF then more_bytes 1 [b] rest
      else if 0xE0 \<le> b \<and> b \<le> 0xF4 then
        (case rest of
           [] \<Rightarrow> (None, [])
         | c # rest' \<Rightarrow>
             if second_byte b c then more_bytes (if b < 0xF0 then 1 else 2) [b, c] rest' else (None, rest))
      else (None, rest))"

lemma more_bytes_shorter: "more_bytes n got bs = (g, rest) \<Longrightarrow> length rest \<le> length bs"
  by (induction n got bs rule: more_bytes.induct) (auto split: if_splits)

lemma take_char_shorter: "take_char b bs = (g, rest) \<Longrightarrow> length rest \<le> length bs"
  by (auto simp: take_char_def split: if_splits list.splits dest: more_bytes_shorter)

definition byte_char :: "byte \<Rightarrow> char" where
  "byte_char b = char_of (unat b)"

function from_utf8_lossy :: "byte list \<Rightarrow> string" where
  "from_utf8_lossy [] = ''''"
| "from_utf8_lossy (b # bs) =
     (case take_char b bs of (g, rest) \<Rightarrow>
        (case g of Some cs \<Rightarrow> map byte_char cs | None \<Rightarrow> [CHR 0xEF, CHR 0xBF, CHR 0xBD]) @ from_utf8_lossy rest)"
  by pat_completeness auto
termination
  by (relation "measure length") (auto dest: take_char_shorter [OF sym])

subsection \<open>The text of a result\<close>

fun kind_text :: "node_kind \<Rightarrow> string" where
  "kind_text Directory = ''directory''"
| "kind_text File = ''file''"
| "kind_text Symlink = ''symlink''"

fun change_kind_text :: "change_kind \<Rightarrow> string" where
  "change_kind_text Created = ''Created''"
| "change_kind_text Modified = ''Modified''"
| "change_kind_text Copied = ''Copied''"
| "change_kind_text Moved = ''Moved''"
| "change_kind_text Removed = ''Removed''"
| "change_kind_text Trashed = ''Trashed''"
| "change_kind_text Restored = ''Restored''"
| "change_kind_text Purged = ''Purged''"
| "change_kind_text AttributeSet = ''AttributeSet''"
| "change_kind_text AttributeRemoved = ''AttributeRemoved''"

definition show_u64 :: "u64 \<Rightarrow> string" where
  "show_u64 w = show_nat (unat w)"

text \<open>\<open>{:<n}\<close> and \<open>{:>n}\<close> of an ASCII text.\<close>

definition left_align :: "nat \<Rightarrow> string \<Rightarrow> string" where
  "left_align n s = s @ replicate (n - length s) CHR '' ''"

definition right_align :: "nat \<Rightarrow> string \<Rightarrow> string" where
  "right_align n s = replicate (n - length s) CHR '' '' @ s"

definition render_node_line :: "node \<Rightarrow> string" where
  "render_node_line node =
     left_align 10 (kind_text (nd_kind node)) @ '' '' @ right_align 10 (show_u64 (nd_logical_size node)) @ '' '' @
     sanitize_name (nd_name node)"

definition tree_line :: "tree_entry \<Rightarrow> string" where
  "tree_line entry = concat (replicate (te_depth entry) ''  '') @ sanitize_name (as_str (te_path entry))"

definition trash_line :: "trash_entry \<Rightarrow> string" where
  "trash_line entry = tr_id entry @ '' '' @ sanitize_name (as_str (tr_original_path entry))"

definition match_line :: "search_match \<Rightarrow> string" where
  "match_line m =
     sanitize_name (as_str (sm_path m)) @ '': '' @ sanitize_preview (from_utf8_lossy (sm_preview m))"

definition change_line :: "change \<Rightarrow> string" where
  "change_line c = show_u64 (cg_sequence c) @ '' '' @ change_kind_text (cg_kind c)"

fun render_human :: "command_output \<Rightarrow> string" where
  "render_human (OutUsage usage) =
     ''active: '' @ show_u64 (wu_active_logical_bytes usage) @ '' bytes / '' @ show_u64 (wu_active_nodes usage) @ '' nodes'' @
     [newline] @ ''trashed: '' @ show_u64 (wu_trashed_logical_bytes usage) @ '' bytes / '' @
     show_u64 (wu_trashed_nodes usage) @ '' nodes'' @
     [newline] @ ''quota: '' @ show_u64 (wu_max_logical_bytes usage) @ '' bytes / '' @ show_u64 (wu_max_nodes usage) @ '' nodes''"
| "render_human (OutNode node) = render_node_line node"
| "render_human (OutExists found) = (if found then ''true'' else ''false'')"
| "render_human (OutNodes page) = join_on newline (map render_node_line (pg_items page))"
| "render_human (OutTree page) = join_on newline (map tree_line (pg_items page))"
| "render_human (OutContent _ _ _ bytes) = from_utf8_lossy bytes"
| "render_human OutUnit = ''ok''"
| "render_human (OutLinkTarget target) = sanitize_name (target_str target)"
| "render_human (OutTrash entry) =
     tr_id entry @ '' (was '' @ sanitize_name (as_str (tr_original_path entry)) @ '')''"
| "render_human (OutTrashList page) = join_on newline (map trash_line (pg_items page))"
| "render_human (OutSearchMatches page) = join_on newline (map match_line (pg_items page))"
| "render_human (OutChanges page) = join_on newline (map change_line (pg_items page))"
| "render_human (OutBatch results) = show_nat (length results) @ '' operations completed''"

subsection \<open>Harmless text\<close>

definition harmless :: "uchar \<Rightarrow> bool" where
  "harmless ch \<longleftrightarrow> \<not> is_control ch \<and> \<not> is_bidi_override ch \<and> \<not> is_unicode_linebreak ch"

definition clean :: "string \<Rightarrow> bool" where
  "clean s \<longleftrightarrow> utf8_ok s \<and> list_all harmless (utf8_chars s)"

lemma utf8_chars_append: "utf8_ok t \<Longrightarrow> utf8_chars (s @ t) = utf8_chars s @ utf8_chars t"
proof (induction s rule: utf8_chars.induct)
  case (2 c cs)
  then have "takeWhile utf8_cont t = []" "dropWhile utf8_cont t = t" by (cases t; simp add: utf8_ok_def)+
  then have "takeWhile utf8_cont (xs @ t) = takeWhile utf8_cont xs"
    "dropWhile utf8_cont (xs @ t) = dropWhile utf8_cont xs @ t" for xs
    by (induction xs) simp_all
  with 2 show ?case by simp
qed simp

lemma utf8_ok_append: "utf8_ok s \<Longrightarrow> utf8_ok t \<Longrightarrow> utf8_ok (s @ t)"
  by (cases s) (auto simp: utf8_ok_def)

lemma clean_append [intro!]: "clean s \<Longrightarrow> clean t \<Longrightarrow> clean (s @ t)"
  by (simp add: clean_def utf8_chars_append utf8_ok_append)

lemma clean_groups:
  "list_all uchar_ok cs \<Longrightarrow> list_all harmless cs \<Longrightarrow> clean (concat cs)"
  by (simp add: clean_def utf8_ok_concat utf8_chars_concat)

definition ascii :: "char \<Rightarrow> bool" where
  "ascii c \<longleftrightarrow> CHR 0x20 \<le> c \<and> c < CHR 0x7F"

lemma clean_ascii: "list_all ascii s \<Longrightarrow> clean s"
proof (induction s)
  case (Cons c s)
  have "uchar_ok [c]" "harmless [c]"
    using Cons.prems by (auto simp: uchar_ok_def harmless_def ascii_def utf8_cont_def is_bidi_override_def
        is_unicode_linebreak_def less_eq_char_def less_char_def)
  then have "clean [c]" using clean_groups [of "[[c]]"] by simp
  with Cons clean_append [of "[c]" s] show ?case by simp
qed (simp add: clean_def utf8_ok_def)

lemma clean_name: "utf8_ok raw \<Longrightarrow> clean (sanitize_name raw)"
  unfolding sanitize_name_def
  by (rule clean_groups) (use utf8_chars_ok [of raw] in \<open>auto simp: list_all_iff harmless_def\<close>)

subsection \<open>The rows\<close>

lemma show_nat_ascii: "list_all ascii (show_nat n)"
proof (induction n rule: show_nat.induct)
  case (1 n)
  have "ascii (char_of (48 + m))" if "m < 10" for m :: nat
    using that by (simp add: ascii_def less_eq_char_def less_char_def)
  with 1 show ?case by (subst show_nat.simps) simp
qed

lemma clean_kind: "clean (kind_text k)" "clean (change_kind_text c)"
  by (cases k; rule clean_ascii; simp add: ascii_def; fail) (cases c; rule clean_ascii; simp add: ascii_def; fail)

lemma clean_blank: "clean (replicate n CHR '' '')" "clean (concat (replicate n ''  ''))"
  by (rule clean_ascii; auto simp: list_all_iff ascii_def)+

lemma clean_numbers: "clean (show_nat n)" "clean (show_u64 w)"
  by (simp_all add: show_u64_def clean_ascii show_nat_ascii)

lemma clean_Nil: "clean ''''"
  by (simp add: clean_ascii)

lemma clean_Cons: "ascii c \<Longrightarrow> clean s \<Longrightarrow> clean (c # s)"
  using clean_append [of "[c]" s] clean_ascii [of "[c]"] by simp

lemma clean_concat: "list_all clean ss \<Longrightarrow> clean (concat ss)"
  by (induction ss) (auto simp: clean_ascii)

lemma more_bytes_head: "more_bytes n got bs = (Some cs, rest) \<Longrightarrow> \<exists>ds. cs = got @ ds"
  by (induction n got bs rule: more_bytes.induct) (auto split: if_splits)

lemma take_char_head: "take_char b bs = (Some cs, rest) \<Longrightarrow> \<exists>ds. cs = b # ds \<and> (b < 0x80 \<or> 0xC2 \<le> b)"
proof -
  have "0xE0 \<le> b \<Longrightarrow> 0xC2 \<le> b" by (simp add: word_le_nat_alt)
  then show "take_char b bs = (Some cs, rest) \<Longrightarrow> \<exists>ds. cs = b # ds \<and> (b < 0x80 \<or> 0xC2 \<le> b)"
    by (auto simp: take_char_def split: if_splits list.splits dest: more_bytes_head)
qed

lemma from_utf8_lossy_ok: "utf8_ok (from_utf8_lossy bs)"
proof (cases bs)
  case (Cons b tl)
  obtain g rest where t: "take_char b tl = (g, rest)" by fastforce
  show ?thesis
  proof (cases g)
    case None
    with Cons t show ?thesis by (simp add: utf8_ok_def utf8_cont_def)
  next
    case (Some cs)
    with t obtain ds where ds: "cs = b # ds" "b < 0x80 \<or> 0xC2 \<le> b" using take_char_head by blast
    have "unat b < 256" using unsigned_less [of b] by simp
    moreover have "unat b < 128 \<or> 194 \<le> unat b" using ds(2) by (simp add: word_less_nat_alt word_le_nat_alt)
    ultimately have "\<not> utf8_cont (byte_char b)" by (auto simp: utf8_cont_def byte_char_def)
    with Cons t Some ds show ?thesis by (simp add: utf8_ok_def)
  qed
qed (simp add: utf8_ok_def)

lemma clean_preview:
  assumes "utf8_ok raw"
  shows "clean (sanitize_preview raw)"
proof -
  let ?P = "\<lambda>ch. ch = [newline] \<or> ch = [tab] \<or> is_unicode_linebreak ch \<or> (\<not> is_control ch \<and> \<not> is_bidi_override ch)"
  let ?cs = "filter ?P (utf8_chars raw)"
  have ok: "list_all uchar_ok ?cs" using utf8_chars_ok [OF assms] by (auto simp: list_all_iff)
  have "clean (escape_break ch)" if "ch \<in> set ?cs" for ch
  proof -
    consider "ch \<in> {[newline], [tab], line_separator, paragraph_separator}"
      | "ch \<notin> {[newline], [tab], line_separator, paragraph_separator}" by blast
    then show ?thesis
    proof cases
      case 1
      then show ?thesis by (auto simp: escape_break_def ascii_def intro!: clean_ascii)
    next
      case 2
      with that ok have "harmless ch" "uchar_ok ch"
        by (auto simp: harmless_def is_unicode_linebreak_def list_all_iff)
      with 2 clean_groups [of "[ch]"] show ?thesis by (simp add: escape_break_def)
    qed
  qed
  then show ?thesis
    unfolding sanitize_preview_def sanitize_for_terminal_def utf8_chars_concat [OF ok]
    by (intro clean_concat) (simp add: list_all_iff)
qed

lemma clean_no_newline:
  assumes "clean s"
  shows "newline \<notin> set s"
proof
  assume "newline \<in> set s"
  then have "newline \<in> set (concat (utf8_chars s))" by (simp add: concat_utf8_chars)
  then obtain ch where ch: "ch \<in> set (utf8_chars s)" "newline \<in> set ch" by auto
  with assms utf8_chars_ok [of s] have ok: "uchar_ok ch" "harmless ch" by (auto simp: clean_def list_all_iff)
  have "\<not> utf8_cont newline" by code_simp
  with ok(1) ch(2) have "hd ch = newline" "ch \<noteq> []" by (cases ch; auto simp: uchar_ok_def list_all_iff)+
  with ok(2) show False by (cases ch) (auto simp: harmless_def less_char_def)
qed

text \<open>The rows a result is shown in, and the strings a backend has to get right.\<close>

fun row_count :: "command_output \<Rightarrow> nat option" where
  "row_count (OutUsage _) = Some 3"
| "row_count (OutNodes page) = Some (max 1 (length (pg_items page)))"
| "row_count (OutTree page) = Some (max 1 (length (pg_items page)))"
| "row_count (OutTrashList page) = Some (max 1 (length (pg_items page)))"
| "row_count (OutSearchMatches page) = Some (max 1 (length (pg_items page)))"
| "row_count (OutChanges page) = Some (max 1 (length (pg_items page)))"
| "row_count (OutContent _ _ _ _) = None"
| "row_count _ = Some 1"

fun presentable :: "command_output \<Rightarrow> bool" where
  "presentable (OutNode node) = utf8_ok (nd_name node)"
| "presentable (OutNodes page) = list_all (\<lambda>node. utf8_ok (nd_name node)) (pg_items page)"
| "presentable (OutTree page) = list_all (\<lambda>entry. utf8_ok (as_str (te_path entry))) (pg_items page)"
| "presentable (OutLinkTarget target) = utf8_ok (target_str target)"
| "presentable (OutTrash entry) = (clean (tr_id entry) \<and> utf8_ok (as_str (tr_original_path entry)))"
| "presentable (OutTrashList page) =
     list_all (\<lambda>entry. clean (tr_id entry) \<and> utf8_ok (as_str (tr_original_path entry))) (pg_items page)"
| "presentable (OutSearchMatches page) = list_all (\<lambda>m. utf8_ok (as_str (sm_path m))) (pg_items page)"
| "presentable _ = True"

lemmas clean_intros =
  clean_append clean_Cons clean_Nil clean_kind clean_blank clean_numbers clean_name clean_preview from_utf8_lossy_ok

lemma clean_lines:
  "utf8_ok (nd_name node) \<Longrightarrow> clean (render_node_line node)"
  "utf8_ok (as_str (te_path entry)) \<Longrightarrow> clean (tree_line entry)"
  "clean (tr_id t) \<Longrightarrow> utf8_ok (as_str (tr_original_path t)) \<Longrightarrow> clean (trash_line t)"
  "utf8_ok (as_str (sm_path m)) \<Longrightarrow> clean (match_line m)"
  "clean (change_line c)"
  by (auto simp: render_node_line_def tree_line_def trash_line_def match_line_def change_line_def
      left_align_def right_align_def ascii_def
      intro!: clean_intros)

definition shows_rows :: "string \<Rightarrow> nat \<Rightarrow> bool" where
  "shows_rows text n \<longleftrightarrow> length (split_on newline text) = n \<and> list_all clean (split_on newline text)"

lemma shows_join:
  assumes "list_all clean rows"
  shows "shows_rows (join_on newline rows) (max 1 (length rows))"
proof (cases "rows = []")
  case False
  have "\<forall>row \<in> set rows. newline \<notin> set row" using assms clean_no_newline by (auto simp: list_all_iff)
  from split_join_on [OF False this] False assms show ?thesis by (cases rows) (simp_all add: shows_rows_def)
qed (simp add: shows_rows_def clean_ascii)

lemma shows_map:
  "\<forall>x \<in> set xs. clean (f x) \<Longrightarrow> shows_rows (join_on newline (map f xs)) (max (Suc 0) (length xs))"
  using shows_join [of "map f xs"] by (simp add: list_all_iff)

lemma shows_one: "clean s \<Longrightarrow> shows_rows s (Suc 0)"
  using shows_join [of "[s]"] by simp

lemma render_rows:
  assumes "presentable out" "row_count out = Some n"
  shows "shows_rows (render_human out) n"
  using assms
proof (cases out)
  case (OutUsage u)
  let ?rows = "[''active: '' @ show_u64 (wu_active_logical_bytes u) @ '' bytes / '' @ show_u64 (wu_active_nodes u) @ '' nodes'',
     ''trashed: '' @ show_u64 (wu_trashed_logical_bytes u) @ '' bytes / '' @ show_u64 (wu_trashed_nodes u) @ '' nodes'',
     ''quota: '' @ show_u64 (wu_max_logical_bytes u) @ '' bytes / '' @ show_u64 (wu_max_nodes u) @ '' nodes'']"
  have "list_all clean ?rows" by (auto intro!: clean_intros simp: ascii_def)
  from shows_join [OF this] OutUsage assms show ?thesis by (simp add: numeral_3_eq_3)
next
  case (OutLinkTarget target)
  with assms show ?thesis by (auto intro!: shows_one clean_name)
qed (auto intro!: shows_one shows_map clean_lines clean_intros
    simp: list_all_iff ascii_def)

end
