(* ===== verification/Sessions.thy ===== *)
theory Sessions
  imports Local Requests Grammar
begin

text \<open>
  Command lines executed one after the other, by \<open>run_repl\<close> of \<open>fslite-cli/src/main.rs\<close> on the
  executor of \<open>fslite-command/src/local.rs\<close>. What a file system has to promise for a session to
  keep an invariant of its states is a locale; the SQLite file system is an instance.
\<close>

subsection \<open>The loop over the lines\<close>

text \<open>\<open>str::trim\<close>.\<close>

definition trim :: "string \<Rightarrow> string" where
  "trim line = concat (List.rev (dropWhile is_whitespace (List.rev (dropWhile is_whitespace (utf8_chars line)))))"

text \<open>The trait \<open>Executor\<close>.\<close>

type_synonym 's executor = "request_context \<Rightarrow> command \<Rightarrow> 's \<Rightarrow> (command_output fs_result \<times> 's) option"

datatype shown = Shown command_output | Failed fs_error | Unparsed parse_error

text \<open>
  The lines of the standard input, \<^const>\<open>None\<close> for one that cannot be read. The answers go to
  the terminal in order. The result is \<^const>\<open>None\<close> when a command never returns.
\<close>

fun run_repl ::
    "parse_env \<Rightarrow> 's executor \<Rightarrow> request_context \<Rightarrow> string option list \<Rightarrow> 's \<Rightarrow> (shown list \<times> 's) option" where
  "run_repl H X ctx [] s = Some ([], s)"
| "run_repl H X ctx (None # _) s = Some ([], s)"
| "run_repl H X ctx (Some line # rest) s =
     (let trimmed = trim line
      in if trimmed = '''' then run_repl H X ctx rest s
         else if trimmed = ''exit'' \<or> trimmed = ''quit'' then Some ([], s)
         else case parse H trimmed of
           Inl e \<Rightarrow> map_option (apfst (Cons (Unparsed e))) (run_repl H X ctx rest s)
         | Inr cmd \<Rightarrow>
             (case X ctx cmd s of
                None \<Rightarrow> None
              | Some (r, t) \<Rightarrow>
                  map_option (apfst (Cons (case r of Inl e \<Rightarrow> Failed e | Inr out \<Rightarrow> Shown out)))
                    (run_repl H X ctx rest t)))"

text \<open>One line given on the command line: its answer and the exit code of the process.\<close>

definition run_line ::
    "parse_env \<Rightarrow> 's executor \<Rightarrow> request_context \<Rightarrow> string \<Rightarrow> 's \<Rightarrow> ((shown \<times> int) \<times> 's) option" where
  "run_line H X ctx line s =
     (case parse H line of
        Inl e \<Rightarrow> Some ((Unparsed e, 2), s)
      | Inr cmd \<Rightarrow>
          map_option (\<lambda>(r, t). (case r of Inr out \<Rightarrow> (Shown out, 0) | Inl e \<Rightarrow> (Failed e, 1), t))
            (X ctx cmd s))"

text \<open>The states in which the commands of a session start.\<close>

fun repl_states :: "parse_env \<Rightarrow> 's executor \<Rightarrow> request_context \<Rightarrow> string option list \<Rightarrow> 's \<Rightarrow> 's list" where
  "repl_states H X ctx [] s = []"
| "repl_states H X ctx (None # _) s = []"
| "repl_states H X ctx (Some line # rest) s =
     (if trim line = '''' then repl_states H X ctx rest s
      else if trim line = ''exit'' \<or> trim line = ''quit'' then []
      else case parse H (trim line) of
        Inl e \<Rightarrow> repl_states H X ctx rest s
      | Inr cmd \<Rightarrow> s # (case X ctx cmd s of None \<Rightarrow> [] | Some (r, t) \<Rightarrow> repl_states H X ctx rest t))"

subsection \<open>File systems that keep an invariant\<close>

locale keeping_file_system =
  fixes F :: "'s file_system" and inv fit :: "'s \<Rightarrow> bool"
  assumes
    keeps_mkdir: "\<And>ctx path options s. inv s \<Longrightarrow> fit s \<Longrightarrow> canonical path \<Longrightarrow> inv (snd (fs_op_mkdir F ctx path options s))"
    and keeps_write: "\<And>ctx path source options s. inv s \<Longrightarrow> fit s \<Longrightarrow> canonical path \<Longrightarrow> inv (snd (fs_op_write F ctx path source options s))"
    and keeps_write_at: "\<And>ctx path offset source options s. inv s \<Longrightarrow> fit s \<Longrightarrow> canonical path \<Longrightarrow> inv (snd (fs_op_write_at F ctx path offset source options s))"
    and keeps_append: "\<And>ctx path source options s. inv s \<Longrightarrow> fit s \<Longrightarrow> canonical path \<Longrightarrow> inv (snd (fs_op_append F ctx path source options s))"
    and keeps_truncate: "\<And>ctx path len options s. inv s \<Longrightarrow> fit s \<Longrightarrow> canonical path \<Longrightarrow> inv (snd (fs_op_truncate F ctx path len options s))"
    and keeps_touch: "\<And>ctx path options s. inv s \<Longrightarrow> fit s \<Longrightarrow> canonical path \<Longrightarrow> inv (snd (fs_op_touch F ctx path options s))"
    and keeps_copy: "\<And>ctx from_path to_path options s. inv s \<Longrightarrow> fit s \<Longrightarrow> canonical from_path \<Longrightarrow> canonical to_path \<Longrightarrow> inv (snd (fs_op_copy F ctx from_path to_path options s))"
    and keeps_move_path: "\<And>ctx from_path to_path options s. inv s \<Longrightarrow> fit s \<Longrightarrow> canonical from_path \<Longrightarrow> canonical to_path \<Longrightarrow> inv (snd (fs_op_move_path F ctx from_path to_path options s))"
    and keeps_remove: "\<And>ctx path options s. inv s \<Longrightarrow> fit s \<Longrightarrow> canonical path \<Longrightarrow> inv (snd (fs_op_remove F ctx path options s))"
    and keeps_symlink: "\<And>ctx target link options s. inv s \<Longrightarrow> fit s \<Longrightarrow> valid_target target \<Longrightarrow> canonical link \<Longrightarrow> inv (snd (fs_op_symlink F ctx target link options s))"
    and keeps_trash: "\<And>ctx path options s. inv s \<Longrightarrow> fit s \<Longrightarrow> canonical path \<Longrightarrow> inv (snd (fs_op_trash F ctx path options s))"
    and keeps_restore: "\<And>ctx tid dest options s. inv s \<Longrightarrow> fit s \<Longrightarrow> pred_option canonical dest \<Longrightarrow> inv (snd (fs_op_restore F ctx tid dest options s))"
    and keeps_purge: "\<And>ctx tid s. inv s \<Longrightarrow> fit s \<Longrightarrow> inv (snd (fs_op_purge F ctx tid s))"
    and keeps_set_attribute: "\<And>ctx path key val options s. inv s \<Longrightarrow> fit s \<Longrightarrow> canonical path \<Longrightarrow> inv (snd (fs_op_set_attribute F ctx path key val options s))"
    and keeps_remove_attribute: "\<And>ctx path key options s. inv s \<Longrightarrow> fit s \<Longrightarrow> canonical path \<Longrightarrow> inv (snd (fs_op_remove_attribute F ctx path key options s))"
    and keeps_batch: "\<And>ctx operations s. inv s \<Longrightarrow> fit s \<Longrightarrow> list_all legal_op operations \<Longrightarrow> inv (snd (fs_op_batch F ctx operations s))"
begin

lemmas keeps = keeps_mkdir keeps_write keeps_write_at keeps_append keeps_truncate keeps_touch keeps_copy keeps_move_path keeps_remove keeps_symlink keeps_trash keeps_restore keeps_purge keeps_set_attribute keeps_remove_attribute keeps_batch

lemma changed_keeps: "inv (snd r) \<Longrightarrow> changed f r = Some (out, t) \<Longrightarrow> inv t"
  by (auto simp: changed_def)

lemma answer_keeps: "inv s \<Longrightarrow> answer f r s = Some (out, t) \<Longrightarrow> inv t"
  by (auto simp: answer_def)

lemma answer_scan_keeps: "inv s \<Longrightarrow> answer_scan f r s = Some (out, t) \<Longrightarrow> inv t"
  by (auto simp: answer_scan_def)

lemma execute_keeps:
  assumes "inv s" "fit s" "legal_command cmd" "execute F ctx cmd s = Some (out, t)"
  shows "inv t"
  using assms
  by (cases cmd) (auto elim!: changed_keeps [rotated] answer_keeps [rotated] answer_scan_keeps [rotated] intro: keeps)

lemma run_line_keeps:
  assumes "env_ok H" "inv s" "fit s" "run_line H (execute F) ctx line s = Some (out, t)"
  shows "inv t"
proof (cases "parse H line")
  case (Inr cmd)
  with assms(4) obtain r where "execute F ctx cmd s = Some (r, t)" by (auto simp: run_line_def)
  with assms(1-3) Inr show ?thesis by (blast intro: execute_keeps parse_legal)
qed (use assms in \<open>simp add: run_line_def\<close>)

lemma run_repl_keeps:
  "env_ok H \<Longrightarrow> inv s \<Longrightarrow> list_all fit (repl_states H (execute F) ctx lines s) \<Longrightarrow>
    run_repl H (execute F) ctx lines s = Some (out, t) \<Longrightarrow> inv t"
proof (induction lines arbitrary: s out)
  case (Cons l rest)
  show ?case
  proof (cases l)
    case (Some line)
    show ?thesis
    proof (cases "trim line = [] \<or> trim line = ''exit'' \<or> trim line = ''quit''")
      case False
      then show ?thesis
      proof (cases "parse H (trim line)")
        case (Inr cmd)
        with False Some Cons.prems(4) obtain r u out' where
          "execute F ctx cmd s = Some (r, u)" "run_repl H (execute F) ctx rest u = Some (out', t)"
          by (auto simp: Let_def split: option.splits)
        with False Some Inr Cons.prems(1-3) show ?thesis
          using Cons.IH [of u out'] execute_keeps [OF Cons.prems(2) _ parse_legal] by simp
      qed (use False Some Cons.prems Cons.IH [of s] in \<open>auto simp: Let_def\<close>)
    qed (use Some Cons.prems Cons.IH [of s] in \<open>auto simp: Let_def\<close>)
  qed (use Cons.prems in simp)
qed simp

end

subsection \<open>The SQLite file system\<close>

lemma request_wf:
  assumes "ext_ok E" "wf E s" "sizes_fit s"
  shows
    "\<And>ctx path options. canonical path \<Longrightarrow> wf E (snd (fs_mkdir E ctx path options s))"
    "\<And>ctx path source options. canonical path \<Longrightarrow> wf E (snd (fs_write E ctx path source options s))"
    "\<And>ctx path offset source options. canonical path \<Longrightarrow> wf E (snd (fs_write_at E ctx path (unat offset) source options s))"
    "\<And>ctx path source options. canonical path \<Longrightarrow> wf E (snd (fs_append E ctx path source options s))"
    "\<And>ctx path len options. canonical path \<Longrightarrow> wf E (snd (fs_truncate E ctx path (unat len) options s))"
    "\<And>ctx path options. canonical path \<Longrightarrow> wf E (snd (fs_touch E ctx path options s))"
    "\<And>ctx from_path to_path options. canonical from_path \<Longrightarrow> canonical to_path \<Longrightarrow> wf E (snd (fs_copy E ctx from_path to_path options s))"
    "\<And>ctx from_path to_path options. canonical from_path \<Longrightarrow> canonical to_path \<Longrightarrow> wf E (snd (fs_move_path E ctx from_path to_path options s))"
    "\<And>ctx path options. canonical path \<Longrightarrow> wf E (snd (fs_remove E ctx path options s))"
    "\<And>ctx target link options. valid_target target \<Longrightarrow> canonical link \<Longrightarrow> wf E (snd (fs_symlink E ctx target link options s))"
    "\<And>ctx path options. canonical path \<Longrightarrow> wf E (snd (fs_trash E ctx path options s))"
    "\<And>ctx tid dest options. pred_option canonical dest \<Longrightarrow> wf E (snd (fs_restore E ctx tid dest options s))"
    "\<And>ctx tid. wf E (snd (fs_purge E ctx tid s))"
    "\<And>ctx path key val options. canonical path \<Longrightarrow> wf E (snd (fs_set_attribute E ctx path key val options s))"
    "\<And>ctx path key options. canonical path \<Longrightarrow> wf E (snd (fs_remove_attribute E ctx path key options s))"
    "\<And>ctx operations. list_all legal_op operations \<Longrightarrow> wf E (snd (fs_batch E ctx operations s))"
proof -
  show "canonical path \<Longrightarrow> wf E (snd (fs_mkdir E ctx path options s))" for ctx path options
    using after_wf [OF assms, of "RequestMkdir ctx path options"] by (simp add: after_simps)
  show "canonical path \<Longrightarrow> wf E (snd (fs_write E ctx path source options s))" for ctx path source options
    using after_wf [OF assms, of "RequestWrite ctx path source options"] by (simp add: after_simps)
  show "canonical path \<Longrightarrow> wf E (snd (fs_write_at E ctx path (unat offset) source options s))" for ctx path offset source options
    using after_wf [OF assms, of "RequestWriteAt ctx path (unat offset) source options"] by (simp add: after_simps)
  show "canonical path \<Longrightarrow> wf E (snd (fs_append E ctx path source options s))" for ctx path source options
    using after_wf [OF assms, of "RequestAppend ctx path source options"] by (simp add: after_simps)
  show "canonical path \<Longrightarrow> wf E (snd (fs_truncate E ctx path (unat len) options s))" for ctx path len options
    using after_wf [OF assms, of "RequestTruncate ctx path (unat len) options"] by (simp add: after_simps)
  show "canonical path \<Longrightarrow> wf E (snd (fs_touch E ctx path options s))" for ctx path options
    using after_wf [OF assms, of "RequestTouch ctx path options"] by (simp add: after_simps)
  show "canonical from_path \<Longrightarrow> canonical to_path \<Longrightarrow> wf E (snd (fs_copy E ctx from_path to_path options s))" for ctx from_path to_path options
    using after_wf [OF assms, of "RequestCopy ctx from_path to_path options"] by (simp add: after_simps)
  show "canonical from_path \<Longrightarrow> canonical to_path \<Longrightarrow> wf E (snd (fs_move_path E ctx from_path to_path options s))" for ctx from_path to_path options
    using after_wf [OF assms, of "RequestMove ctx from_path to_path options"] by (simp add: after_simps)
  show "canonical path \<Longrightarrow> wf E (snd (fs_remove E ctx path options s))" for ctx path options
    using after_wf [OF assms, of "RequestRemove ctx path options"] by (simp add: after_simps)
  show "valid_target target \<Longrightarrow> canonical link \<Longrightarrow> wf E (snd (fs_symlink E ctx target link options s))" for ctx target link options
    using after_wf [OF assms, of "RequestSymlink ctx target link options"] by (simp add: after_simps)
  show "canonical path \<Longrightarrow> wf E (snd (fs_trash E ctx path options s))" for ctx path options
    using after_wf [OF assms, of "RequestTrash ctx path options"] by (simp add: after_simps)
  show "pred_option canonical dest \<Longrightarrow> wf E (snd (fs_restore E ctx tid dest options s))" for ctx tid dest options
    using after_wf [OF assms, of "RequestRestore ctx tid dest options"] by (simp add: after_simps)
  show "wf E (snd (fs_purge E ctx tid s))" for ctx tid
    using after_wf [OF assms, of "RequestPurge ctx tid"] by (simp add: after_simps)
  show "canonical path \<Longrightarrow> wf E (snd (fs_set_attribute E ctx path key val options s))" for ctx path key val options
    using after_wf [OF assms, of "RequestSetAttribute ctx path key val options"] by (simp add: after_simps)
  show "canonical path \<Longrightarrow> wf E (snd (fs_remove_attribute E ctx path key options s))" for ctx path key options
    using after_wf [OF assms, of "RequestRemoveAttribute ctx path key options"] by (simp add: after_simps)
  show "list_all legal_op operations \<Longrightarrow> wf E (snd (fs_batch E ctx operations s))" for ctx operations
    using after_wf [OF assms, of "RequestBatch ctx operations"] by (simp add: after_simps)
qed

interpretation sqlite: keeping_file_system "sqlite_file_system E C" "\<lambda>s. ext_ok E \<longrightarrow> wf E s" sizes_fit for E C
  by (unfold_locales; (intro impI)?;
    simp add: sqlite_file_system_def request_wf)

end
