(* ===== verification/Access.thy ===== *)
theory Access
  imports Sessions
begin

text \<open>
  The capabilities of a context, over the whole interface: what every command needs, that
  without it the command is an error and does nothing, that a capability beyond it makes no
  difference, and what this means for batches and for sessions at the prompt.
\<close>

text \<open>The capability a command needs and the subject of its refusal; the operations of a batch have their own.\<close>

fun needs :: "request_context \<Rightarrow> command \<Rightarrow> (capability \<times> string) option" where
  "needs ctx CmdWorkspaceUsage = Some (CapRead, cx_workspace_id ctx)"
| "needs ctx (CmdStat path _) = Some (CapRead, as_str path)"
| "needs ctx (CmdExists path _) = Some (CapRead, as_str path)"
| "needs ctx (CmdReadDir path _) = Some (CapRead, as_str path)"
| "needs ctx (CmdTree path _ _) = Some (CapRead, as_str path)"
| "needs ctx (CmdMkdir path _) = Some (CapWrite, as_str path)"
| "needs ctx (CmdRead path _) = Some (CapRead, as_str path)"
| "needs ctx (CmdWrite path _ _) = Some (CapWrite, as_str path)"
| "needs ctx (CmdWriteAt path _ _ _) = Some (CapWrite, as_str path)"
| "needs ctx (CmdAppend path _ _) = Some (CapWrite, as_str path)"
| "needs ctx (CmdTruncate path _ _) = Some (CapWrite, as_str path)"
| "needs ctx (CmdTouch path _) = Some (CapWrite, as_str path)"
| "needs ctx (CmdCopy _ to_path _) = Some (CapWrite, as_str to_path)"
| "needs ctx (CmdMove _ to_path _) = Some (CapWrite, as_str to_path)"
| "needs ctx (CmdRemove path _) = Some (CapDelete, as_str path)"
| "needs ctx (CmdSymlink _ link _) = Some (CapWrite, as_str link)"
| "needs ctx (CmdReadLink path) = Some (CapRead, as_str path)"
| "needs ctx (CmdTrash path _) = Some (CapTrashRestore, as_str path)"
| "needs ctx (CmdListTrash _) = Some (CapRead, cx_workspace_id ctx)"
| "needs ctx (CmdRestore _ _ _) = Some (CapTrashRestore, cx_workspace_id ctx)"
| "needs ctx (CmdPurge _) = Some (CapDelete, cx_workspace_id ctx)"
| "needs ctx (CmdSetAttribute path _ _ _) = Some (CapWrite, as_str path)"
| "needs ctx (CmdRemoveAttribute path _ _) = Some (CapWrite, as_str path)"
| "needs ctx (CmdGlob _ _) = Some (CapRead, cx_workspace_id ctx)"
| "needs ctx (CmdFind _ _) = Some (CapRead, cx_workspace_id ctx)"
| "needs ctx (CmdSearchContent _ _) = Some (CapRead, cx_workspace_id ctx)"
| "needs ctx (CmdChanges _ _) = Some (CapRead, cx_workspace_id ctx)"
| "needs ctx (CmdBatch _) = None"

lemmas guards = guard_op_def guard_query_def guard_scan_def require_capability_def has_capability_def

lemmas guarded_defs = sqlite_file_system_def fs_workspace_usage_def fs_stat_def fs_exists_def fs_read_dir_def fs_tree_def
  fs_mkdir_def fs_read_def fs_write_def fs_write_at_def fs_append_def fs_truncate_def fs_touch_def fs_copy_def
  fs_move_path_def fs_remove_def fs_symlink_def fs_read_link_def fs_trash_def fs_list_trash_def fs_restore_def
  fs_purge_def fs_set_attribute_def fs_remove_attribute_def fs_glob_def fs_find_def fs_search_content_def fs_changes_def
  answer_def answer_scan_def changed_def

lemma refused_command:
  "needs ctx cmd = Some (c, subject) \<Longrightarrow> c \<notin> set (cx_capabilities ctx) \<Longrightarrow>
    execute (sqlite_file_system E C) ctx cmd s = Some (Inl (permission_denied subject), s)"
  by (cases cmd) (simp_all add: guarded_defs guards)

text \<open>A context that differs in its capabilities only.\<close>

definition same_actor :: "request_context \<Rightarrow> request_context \<Rightarrow> bool" where
  "same_actor ctx ctx' \<longleftrightarrow> cx_workspace_id ctx' = cx_workspace_id ctx \<and> cx_actor_metadata ctx' = cx_actor_metadata ctx"

lemma granted_command:
  "needs ctx cmd = Some (c, subject) \<Longrightarrow> c \<in> set (cx_capabilities ctx) \<Longrightarrow> c \<in> set (cx_capabilities ctx') \<Longrightarrow>
    same_actor ctx ctx' \<Longrightarrow> execute (sqlite_file_system E C) ctx' cmd s = execute (sqlite_file_system E C) ctx cmd s"
  by (cases cmd) (auto simp: guarded_defs guards same_actor_def actor_json_def)

subsection \<open>Batches\<close>

lemma batch_loop_granted:
  "\<forall>x\<in>set xs. required_capability x \<in> set caps \<and> required_capability x \<in> set caps' \<Longrightarrow>
    batch_loop E w caps' aj i xs rs s = batch_loop E w caps aj i xs rs s"
proof (induction xs arbitrary: i rs s)
  case (Cons x rest)
  then show ?case by (simp split: option.split batch_step_outcome.split)
qed simp

lemma granted_batch:
  assumes "\<forall>x\<in>set xs. required_capability x \<in> set (cx_capabilities ctx) \<and> required_capability x \<in> set (cx_capabilities ctx')"
    and "same_actor ctx ctx'"
  shows "execute (sqlite_file_system E C) ctx' (CmdBatch xs) s = execute (sqlite_file_system E C) ctx (CmdBatch xs) s"
  using assms(2) batch_loop_granted [OF assms(1)]
  by (simp add: sqlite_file_system_def fs_batch_def changed_def batch_def batch_tx_def [abs_def] same_actor_def actor_json_def)

lemma runs_capable:
  "runs (batch_step E w caps aj) xs rs s t \<Longrightarrow> x \<in> set xs \<Longrightarrow> required_capability x \<in> set caps"
  by (induction rule: runs.induct) (auto simp: batch_step_Some)

lemma refused_batch:
  assumes "x \<in> set xs" "required_capability x \<notin> set (cx_capabilities ctx)"
  shows "\<exists>e. execute (sqlite_file_system E C) ctx (CmdBatch xs) s = Some (Inl e, s)"
proof -
  note b = batch_ok [of E ctx "actor_json E ctx" xs s]
  have "\<exists>e. batch E ctx xs (actor_json E ctx) s = (Inl e, s)"
  proof (cases "batch E ctx xs (actor_json E ctx) s")
    case (Pair res t)
    with b runs_capable [OF _ assms(1)] assms(2) show ?thesis
      by (cases res) (auto simp: batch_done_def Let_def)
  qed
  then show ?thesis by (auto simp: sqlite_file_system_def fs_batch_def changed_def)
qed

subsection \<open>The capabilities a command is about\<close>

fun capabilities_for :: "request_context \<Rightarrow> command \<Rightarrow> capability set" where
  "capabilities_for ctx (CmdBatch xs) = required_capability ` set xs"
| "capabilities_for ctx cmd = (case needs ctx cmd of None \<Rightarrow> {} | Some (c, _) \<Rightarrow> {c})"

lemma capabilities_for_needs: "needs ctx cmd = Some (c, subject) \<Longrightarrow> capabilities_for ctx cmd = {c}"
  by (cases cmd) simp_all

lemma needs_None: "needs ctx cmd = None \<longleftrightarrow> (\<exists>xs. cmd = CmdBatch xs)"
  by (cases cmd) simp_all

lemma denied:
  assumes "\<not> capabilities_for ctx cmd \<subseteq> set (cx_capabilities ctx)"
  shows "\<exists>e. execute (sqlite_file_system E C) ctx cmd s = Some (Inl e, s) \<and>
    (\<forall>c subject. needs ctx cmd = Some (c, subject) \<longrightarrow> e = permission_denied subject)"
proof (cases "needs ctx cmd")
  case None
  then obtain xs where cmd: "cmd = CmdBatch xs" by (auto simp: needs_None)
  with assms obtain x where "x \<in> set xs" "required_capability x \<notin> set (cx_capabilities ctx)" by auto
  with refused_batch [of x xs ctx E C s] show ?thesis by (auto simp: cmd)
next
  case (Some cs)
  obtain c subject where n: "needs ctx cmd = Some (c, subject)" using Some by (cases cs) simp
  with assms have "c \<notin> set (cx_capabilities ctx)" by (simp add: capabilities_for_needs)
  with refused_command [OF n] n show ?thesis by simp
qed

lemma granted:
  assumes "capabilities_for ctx cmd \<subseteq> set (cx_capabilities ctx) \<inter> set (cx_capabilities ctx')" "same_actor ctx ctx'"
  shows "execute (sqlite_file_system E C) ctx' cmd s = execute (sqlite_file_system E C) ctx cmd s"
proof (cases "needs ctx cmd")
  case None
  then obtain xs where cmd: "cmd = CmdBatch xs" by (auto simp: needs_None)
  with assms(1) show ?thesis by (auto simp only: cmd intro!: granted_batch assms(2)) auto
next
  case (Some cs)
  obtain c subject where n: "needs ctx cmd = Some (c, subject)" using Some by (cases cs) simp
  with assms show ?thesis by (auto simp only: capabilities_for_needs intro!: granted_command [OF n])
qed

subsection \<open>Sessions without a capability to change\<close>

definition read_only :: "request_context \<Rightarrow> bool" where
  "read_only ctx \<longleftrightarrow> set (cx_capabilities ctx) \<inter> {CapWrite, CapDelete, CapTrashRestore} = {}"

lemma required_changes: "required_capability x \<in> {CapWrite, CapDelete, CapTrashRestore}"
  by (cases x) (simp_all add: required_capability_def)

lemma answer_same: "answer f r s = Some (out, t) \<Longrightarrow> t = s" "answer_scan g q s = Some (out, t) \<Longrightarrow> t = s"
  by (auto simp: answer_def answer_scan_def)

lemma read_only_frozen:
  assumes ro: "read_only ctx" and run: "execute (sqlite_file_system E C) ctx cmd s = Some (r, t)"
  shows "t = s"
proof (cases "capabilities_for ctx cmd \<subseteq> set (cx_capabilities ctx)")
  case False
  with denied [of ctx cmd E C s] run show ?thesis by auto
next
  case True
  show ?thesis
  proof (cases "needs ctx cmd")
    case None
    then obtain xs where cmd: "cmd = CmdBatch xs" by (auto simp: needs_None)
    have "xs = []"
    proof (rule ccontr)
      assume "xs \<noteq> []"
      then obtain x where "x \<in> set xs" by (cases xs) auto
      with True have "required_capability x \<in> set (cx_capabilities ctx)" by (auto simp: cmd)
      with ro required_changes [of x] show False by (auto simp: read_only_def)
    qed
    with run show ?thesis
      by (simp add: cmd sqlite_file_system_def fs_batch_def changed_def batch_def batch_tx_def conn_call_def finish_call_def)
  next
    case (Some cs)
    obtain c subject where n: "needs ctx cmd = Some (c, subject)" using Some by (cases cs) simp
    with True ro have "c = CapRead" by (cases cmd) (auto simp: read_only_def)
    with n run show ?thesis by (cases cmd) (auto dest: answer_same)
  qed
qed

lemma run_repl_frozen:
  assumes X: "\<And>cmd s r t. X ctx cmd s = Some (r, t) \<Longrightarrow> t = s"
  shows "run_repl H X ctx lines s = Some (out, t) \<Longrightarrow> t = s"
proof (induction lines arbitrary: out)
  case (Cons l rest)
  show ?case
  proof (cases l)
    case (Some line)
    with Cons show ?thesis
      by (auto simp: Let_def split: if_splits sum.splits option.splits dest: X)
  qed (use Cons.prems in simp)
qed simp

lemma read_only_session:
  "read_only ctx \<Longrightarrow> run_repl H (execute (sqlite_file_system E C)) ctx lines s = Some (out, t) \<Longrightarrow> t = s"
  by (rule run_repl_frozen [OF read_only_frozen])

end
