(* ===== verification/Lines.thy ===== *)
theory Lines
  imports Sessions Quoting
begin

text \<open>
  Lines as the command line builds them from its words: quoted words, read back by the
  tokenizer, parsed and executed.
\<close>

lemma parse_dispatch:
  "tokenize line = Inr (Word verb # rest) \<Longrightarrow> parse H line = dispatch H verb (split_tokens rest)"
  by (simp add: parse_def map_err_def)

lemma classify_plain: "take 2 w \<noteq> ''--'' \<Longrightarrow> classify w = Word w"
  by (simp add: classify_def)

lemma classify_text: "classify (''--text='' @ text) = Flag ''text'' (Some text)"
  by (simp add: classify_def)

lemma path_arg_any: "parse_path verb name raw = Inr path \<Longrightarrow> parse_path verb' name' raw = Inr path"
  by (simp add: parse_path_def)

lemma check_args_ok:
  "env_ok H \<Longrightarrow> fst ` set (flags a) \<subseteq> set known \<Longrightarrow> length (positionals a) \<le> n \<Longrightarrow> check_args H a verb known n = Inr ()"
  by (simp add: check_args_Inr)

lemma parse_write_line:
  assumes "env_ok H" "tokenize line = Inr [Word ''write'', Word p, Flag ''text'' (Some text)]"
    and "parse_path verb name p = Inr path"
  shows "parse H line = Inr (CmdWrite path (as_bytes text) write_options_default)"
proof -
  let ?a = "split_tokens [Word p, Flag ''text'' (Some text)]"
  have a: "positionals ?a = [p]" "flags ?a = [(''text'', Some text)]"
    by (simp_all add: split_tokens_def add_token_def insert_flag_def)
  have v: "map_of verb_table ''write'' = Some parse_write" by (simp add: verb_table_def)
  show ?thesis
    using a path_arg_any [OF assms(3)]
    by (simp add: parse_dispatch [OF assms(2)] dispatch_def v parse_write_def check_args_ok [OF assms(1)] path_arg_def
        positional_def flag_value_def has_flag_def expected_revision_def ok_or_def write_options_default_def)
qed

lemma parse_cat_line:
  assumes "env_ok H" "tokenize line = Inr [Word ''cat'', Word p]"
    and "parse_path verb name p = Inr path"
  shows "parse H line = Inr (CmdRead path read_options_default)"
proof -
  let ?a = "split_tokens [Word p]"
  have a: "positionals ?a = [p]" "flags ?a = []"
    by (simp_all add: split_tokens_def add_token_def)
  have v: "map_of verb_table ''cat'' = Some parse_cat" by (simp add: verb_table_def)
  show ?thesis
    using a path_arg_any [OF assms(3)]
    by (simp add: parse_dispatch [OF assms(2)] dispatch_def v parse_cat_def check_args_ok [OF assms(1)] path_arg_def
        positional_def flag_value_def has_flag_def transposed_def read_options_default_def)
qed

subsection \<open>On the SQLite file system\<close>

lemma write_line_stores:
  assumes "ext_ok E" "wf E s" "cx_workspace_id ctx \<in> w_id ` set (workspaces s)" "canonical path"
    and p: "parse H line = Inr (CmdWrite path bytes options)"
    and r: "run_line H (execute (sqlite_file_system E C)) ctx line s = Some ((shown, 0), t)"
  shows "wf E t \<and> file_at t (cx_workspace_id ctx) (vp_segments path) bytes"
proof -
  let ?w = "cx_workspace_id ctx"
  from r p obtain n where "fs_write E ctx path (source_from_bytes bytes) options s = (Inr n, t)"
    by (cases "fs_write E ctx path (source_from_bytes bytes) options s"; cases "fst (fs_write E ctx path (source_from_bytes bytes) options s)")
      (auto simp: run_line_def changed_def sqlite_file_system_def split: sum.splits)
  then have "write_op E ?w path (source_from_bytes bytes) options (actor_json E ctx) s = (Inr n, t)"
    by (auto simp: fs_write_def guard_op_def split: sum.splits)
  with write_op_ok [OF assms(1-4), where source = "source_from_bytes bytes" and options = options and aj = "actor_json E ctx"]
  show ?thesis
    by (auto simp: commits_def written_def source_from_bytes_def split: if_splits)
qed

lemma cat_line_shows:
  assumes "wf E s" "sizes_fit s" "revisions_fit s" "file_at s (cx_workspace_id ctx) (vp_segments path) bytes"
    and "CapRead \<in> set (cx_capabilities ctx)" and p: "parse H line = Inr (CmdRead path options)" "ro_range options = None"
  shows "\<exists>len rev rg. run_line H (execute (sqlite_file_system E C)) ctx line s = Some ((Shown (OutContent len rev rg bytes), 0), s) \<and>
    unat len = length bytes"
proof -
  obtain fr where fr: "read_op (cx_workspace_id ctx) path options s = Inr fr" "concat (fr_stream fr) = bytes"
    "unat (fr_logical_length fr) = length bytes"
    using read_op_range [OF assms(1-4), of options] p(2) by auto
  then have "fs_read ctx path options s = Inr fr"
    using assms(5) by (simp add: fs_read_def guard_query_def require_capability_def has_capability_def)
  with fr p show ?thesis
    by (simp add: run_line_def answer_def drained_def drain_def collect_results_Inr sqlite_file_system_def)
qed

end
