(* ===== verification/Opening.thy ===== *)
theory Opening
  imports Workspace Api
begin

text \<open>
  \<open>fslite-sqlite/src/db.rs\<close>: opening a database file. The schema version is the greatest version
  recorded in the table \<open>schema_migrations\<close>; opening runs the migrations above it and refuses a
  file of a newer program. SQLite itself (pragmas, the file format) is not modelled: a database
  file is that table, if it is there, and the tables of the store.
\<close>

record db_file =
  schema_versions :: "int list option"
  tables :: db

definition blank_file :: db_file where
  "blank_file = \<lparr>schema_versions = None, tables = empty_db\<rparr>"

text \<open>\<open>0001_initial.sql\<close> creates the tables; \<open>CREATE TABLE\<close> fails when the table exists.\<close>

definition initial_sql :: "db_file \<Rightarrow> db_file option" where
  "initial_sql f =
     (if schema_versions f = None then Some (f\<lparr>schema_versions := Some [], tables := empty_db\<rparr>) else None)"

definition MIGRATIONS :: "(int \<times> (db_file \<Rightarrow> db_file option)) list" where
  "MIGRATIONS = [(1, initial_sql)]"

definition latest_schema_version :: int where
  "latest_schema_version = (case MIGRATIONS of [] \<Rightarrow> 0 | _ \<Rightarrow> fst (last MIGRATIONS))"

definition read_current_version :: "db_file \<Rightarrow> int" where
  "read_current_version f =
     (case schema_versions f of None \<Rightarrow> 0 | Some vs \<Rightarrow> if vs = [] then 0 else Max (set vs))"

text \<open>
  Each migration is a transaction of its own; \<^const>\<open>False\<close> when one fails, with the file as the
  migrations before it left it. The version is the primary key of the table.
\<close>

fun apply_migrations :: "(int \<times> (db_file \<Rightarrow> db_file option)) list \<Rightarrow> int \<Rightarrow> db_file \<Rightarrow> bool \<times> db_file" where
  "apply_migrations [] current_version f = (True, f)"
| "apply_migrations ((version, sql) # rest) current_version f =
     (if version \<le> current_version then apply_migrations rest current_version f
      else case sql f of
        None \<Rightarrow> (False, f)
      | Some g \<Rightarrow>
          (case schema_versions g of
             None \<Rightarrow> (False, f)
           | Some vs \<Rightarrow>
               if version \<in> set vs then (False, f)
               else apply_migrations rest current_version (g\<lparr>schema_versions := Some (vs @ [version])\<rparr>)))"

definition initialize :: "db_file \<Rightarrow> unit fs_result \<times> db_file" where
  "initialize f =
     (let current_version = read_current_version f
      in if current_version > latest_schema_version
         then (Inl (internal_storage_failure
                 (''database schema version '' @ show_int current_version @
                  '' is newer than the supported version '' @ show_int latest_schema_version)), f)
         else case apply_migrations MIGRATIONS current_version f of
             (True, g) \<Rightarrow> (Inr (), g)
           | (False, g) \<Rightarrow> (Inl (internal_storage_failure ''sqlite error''), g))"

text \<open>\<open>PRAGMA integrity_check\<close> answers with the single row \<open>ok\<close> or with the problems.\<close>

definition integrity_check :: "string list \<Rightarrow> string list" where
  "integrity_check rows = (if rows = [''ok''] then [] else rows)"

subsection \<open>What opening does\<close>

lemma latest_one: "latest_schema_version = 1"
  by (simp add: latest_schema_version_def MIGRATIONS_def)

text \<open>A file this program can work on as it is.\<close>

definition current_file :: "db_file \<Rightarrow> bool" where
  "current_file f \<longleftrightarrow> read_current_version f = latest_schema_version"

lemma initialize_cases:
  "initialize f =
     (if read_current_version f > 1
      then (Inl (internal_storage_failure
              (''database schema version '' @ show_int (read_current_version f) @
               '' is newer than the supported version '' @ show_int 1)), f)
      else if read_current_version f = 1 then (Inr (), f)
      else if schema_versions f = None then (Inr (), \<lparr>schema_versions = Some [1], tables = empty_db, \<dots> = db_file.more f\<rparr>)
      else (Inl (internal_storage_failure ''sqlite error''), f))"
  by (auto simp: initialize_def latest_one MIGRATIONS_def initial_sql_def Let_def)

lemma initialize_blank: "initialize blank_file = (Inr (), \<lparr>schema_versions = Some [1], tables = empty_db\<rparr>)"
  by (simp add: initialize_cases blank_file_def read_current_version_def)

lemma initialize_current: "initialize f = (Inr u, g) \<Longrightarrow> current_file g \<and> initialize g = (Inr u, g)"
  by (auto simp: initialize_cases current_file_def latest_one read_current_version_def split: if_splits)

text \<open>Opening loses nothing: the rows of a file with a schema stay, whatever the outcome.\<close>

lemma initialize_keeps: "initialize f = (r, g) \<Longrightarrow> schema_versions f \<noteq> None \<Longrightarrow> g = f"
  by (auto simp: initialize_cases split: if_splits)

lemma initialize_newer: "read_current_version f > latest_schema_version \<Longrightarrow> initialize f = (r, g) \<Longrightarrow> isl r \<and> g = f"
  by (auto simp: initialize_cases latest_one)

lemma read_version_None: "schema_versions f = None \<Longrightarrow> read_current_version f = 0"
  by (simp add: read_current_version_def)

end
