(* ===== verification/Host.thy ===== *)
theory Host
  imports Opening Sessions Render
begin

text \<open>
  The local state of the command line: \<open>fslite-cli/src/paths.rs\<close>, \<open>persistence.rs\<close>,
  \<open>registry.rs\<close> and \<open>context.rs\<close>. A machine is the two JSON files, as what reading them yields,
  and the database files by path; what the operating system answers is a \<open>host\<close>. An error is its
  text (\<open>Box<dyn Error>\<close>).
\<close>

type_synonym 'a cli_result = "string + 'a"

datatype io_call =
    CreateDirs string
  | WriteFile string
  | OpenDatabase string
  | OpenLock string
  | TakeLock string
  | RemoveFile string
  | ReadLine

text \<open>
  The environment variables that are set to Unicode text, the local data directory of the platform,
  the error of a call to the operating system, \<open>fs::canonicalize\<close>, the Debug rendering of a string,
  whether the bootstrap lock file is there, and the read-only bits and the integrity report of a file.
\<close>

record host =
  env_var :: "string \<Rightarrow> string option"
  data_local_dir :: "string option"
  io_error :: "io_call \<Rightarrow> string option"
  canonicalize :: "string \<Rightarrow> string cli_result"
  debug_str :: "string \<Rightarrow> string"
  lock_present :: bool
  readonly :: "string \<Rightarrow> bool option"
  integrity_rows :: "string \<Rightarrow> string list fs_result"

text \<open>A JSON file: not there, its value, text that does not parse, or an error of reading it.\<close>

datatype 'a stored = Absent | Stored 'a | Malformed string | Unreadable string

text \<open>A \<open>BTreeMap\<close> with string keys: its entries in the order of the keys.\<close>

type_synonym 'a btree = "(string \<times> 'a) list"

fun btree_insert :: "string \<Rightarrow> 'a \<Rightarrow> 'a btree \<Rightarrow> 'a btree" where
  "btree_insert k v [] = [(k, v)]"
| "btree_insert k v ((j, x) # rest) =
     (if k = j then (k, v) # rest else if k < j then (k, v) # (j, x) # rest else (j, x) # btree_insert k v rest)"

definition btree_remove :: "string \<Rightarrow> 'a btree \<Rightarrow> 'a btree" where
  "btree_remove k t = filter (\<lambda>e. fst e \<noteq> k) t"

lemma map_of_btree_insert [simp]: "map_of (btree_insert k v t) = (map_of t)(k \<mapsto> v)"
  by (induction k v t rule: btree_insert.induct) auto

lemma map_of_btree_remove: "map_of (btree_remove k t) j = (if j = k then None else map_of t j)"
  unfolding btree_remove_def by (induction t) auto

record registry =
  rg_filesystems :: "string btree"
  rg_workspaces :: "uuid btree btree"

record cli_context =
  cl_filesystem :: "string option"
  cl_workspace :: "string option"

datatype disk_file = Database db_file | Foreign string

record machine =
  registry_json :: "registry stored"
  context_json :: "cli_context stored"
  disk :: "string \<Rightarrow> disk_file option"

subsection \<open>Paths\<close>

text \<open>\<open>Path::join\<close> with a relative path.\<close>

definition path_join :: "string \<Rightarrow> string \<Rightarrow> string" where
  "path_join dir name = (if dir = '''' then name else if last dir = slash then dir @ name else dir @ slash # name)"

definition config_dir :: "host \<Rightarrow> string cli_result" where
  "config_dir H =
     (case env_var H ''FSLITE_CONFIG_DIR'' of
        Some dir \<Rightarrow> Inr dir
      | None \<Rightarrow>
          (case env_var H ''XDG_CONFIG_HOME'' of
             Some dir \<Rightarrow> Inr (path_join dir ''fslite'')
           | None \<Rightarrow>
               (case env_var H ''HOME'' of
                  None \<Rightarrow> Inl ''cannot resolve a config directory: none of FSLITE_CONFIG_DIR, XDG_CONFIG_HOME, or HOME is set''
                | Some home \<Rightarrow> Inr (path_join (path_join home ''.config'') ''fslite''))))"

definition data_dir :: "host \<Rightarrow> string cli_result" where
  "data_dir H =
     (case env_var H ''FSLITE_DATA_DIR'' of
        Some dir \<Rightarrow> Inr dir
      | None \<Rightarrow> ok_or ''cannot resolve a user data directory; set FSLITE_DATA_DIR'' (data_local_dir H))"

subsection \<open>Reading and writing the state files\<close>

definition write_json :: "host \<Rightarrow> string \<Rightarrow> unit cli_result" where
  "write_json H path =
     (case io_error H (CreateDirs path) of
        Some e \<Rightarrow> Inl e
      | None \<Rightarrow> (case io_error H (WriteFile path) of Some e \<Rightarrow> Inl e | None \<Rightarrow> Inr ()))"

definition registry_path :: "host \<Rightarrow> string cli_result" where
  "registry_path H = andthen (config_dir H) (\<lambda>dir. Inr (path_join dir ''registry.json''))"

definition empty_registry :: registry where
  "empty_registry = \<lparr>rg_filesystems = [], rg_workspaces = []\<rparr>"

definition registry_load :: "host \<Rightarrow> machine \<Rightarrow> registry cli_result" where
  "registry_load H m =
     andthen (registry_path H) (\<lambda>path.
     case registry_json m of
       Stored r \<Rightarrow> Inr r
     | Malformed e \<Rightarrow> Inl (''failed to parse registry at '' @ path @ '': '' @ e @ ''; repair or restore this file'')
     | Absent \<Rightarrow> Inr empty_registry
     | Unreadable e \<Rightarrow> Inl e)"

definition registry_save :: "host \<Rightarrow> registry \<Rightarrow> machine \<Rightarrow> unit cli_result \<times> machine" where
  "registry_save H r m =
     (case andthen (registry_path H) (write_json H) of
        Inl e \<Rightarrow> (Inl e, m)
      | Inr _ \<Rightarrow> (Inr (), m\<lparr>registry_json := Stored r\<rparr>))"

definition filesystem_exists :: "registry \<Rightarrow> string \<Rightarrow> bool" where
  "filesystem_exists r name \<longleftrightarrow> map_of (rg_filesystems r) name \<noteq> None"

definition registry_is_empty :: "registry \<Rightarrow> bool" where
  "registry_is_empty r \<longleftrightarrow> rg_filesystems r = [] \<and> rg_workspaces r = []"

definition filesystem_path :: "registry \<Rightarrow> string \<Rightarrow> string option" where
  "filesystem_path r name = map_of (rg_filesystems r) name"

definition filesystem_names :: "registry \<Rightarrow> string list" where
  "filesystem_names r = map fst (rg_filesystems r)"

definition register_filesystem :: "string \<Rightarrow> string \<Rightarrow> registry \<Rightarrow> registry" where
  "register_filesystem name path r = r\<lparr>rg_filesystems := btree_insert name path (rg_filesystems r)\<rparr>"

definition remove_filesystem :: "string \<Rightarrow> registry \<Rightarrow> registry" where
  "remove_filesystem name r =
     r\<lparr>rg_filesystems := btree_remove name (rg_filesystems r), rg_workspaces := btree_remove name (rg_workspaces r)\<rparr>"

definition workspace_exists :: "registry \<Rightarrow> string \<Rightarrow> string \<Rightarrow> bool" where
  "workspace_exists r filesystem workspace_name \<longleftrightarrow>
     (case map_of (rg_workspaces r) filesystem of None \<Rightarrow> False | Some ws \<Rightarrow> map_of ws workspace_name \<noteq> None)"

definition workspace_names :: "registry \<Rightarrow> string \<Rightarrow> string list" where
  "workspace_names r filesystem = (case map_of (rg_workspaces r) filesystem of None \<Rightarrow> [] | Some ws \<Rightarrow> map fst ws)"

definition register_workspace :: "string \<Rightarrow> string \<Rightarrow> uuid \<Rightarrow> registry \<Rightarrow> registry" where
  "register_workspace filesystem workspace_name i r =
     r\<lparr>rg_workspaces := btree_insert filesystem
         (btree_insert workspace_name i (case map_of (rg_workspaces r) filesystem of None \<Rightarrow> [] | Some ws \<Rightarrow> ws))
         (rg_workspaces r)\<rparr>"

definition resolve_workspace_name :: "registry \<Rightarrow> string \<Rightarrow> string \<Rightarrow> uuid option" where
  "resolve_workspace_name r filesystem workspace_name =
     Option.bind (map_of (rg_workspaces r) filesystem) (\<lambda>ws. map_of ws workspace_name)"

definition context_path :: "host \<Rightarrow> string cli_result" where
  "context_path H = andthen (config_dir H) (\<lambda>dir. Inr (path_join dir ''context.json''))"

definition empty_context :: cli_context where
  "empty_context = \<lparr>cl_filesystem = None, cl_workspace = None\<rparr>"

definition context_load :: "host \<Rightarrow> machine \<Rightarrow> cli_context cli_result" where
  "context_load H m =
     andthen (context_path H) (\<lambda>path.
     case context_json m of
       Stored c \<Rightarrow> Inr c
     | Malformed e \<Rightarrow> Inl (''failed to parse active context at '' @ path @ '': '' @ e @ ''; repair or restore this file'')
     | Absent \<Rightarrow> Inr empty_context
     | Unreadable e \<Rightarrow> Inl e)"

definition context_save :: "host \<Rightarrow> cli_context \<Rightarrow> machine \<Rightarrow> unit cli_result \<times> machine" where
  "context_save H c m =
     (case andthen (context_path H) (write_json H) of
        Inl e \<Rightarrow> (Inl e, m)
      | Inr _ \<Rightarrow> (Inr (), m\<lparr>context_json := Stored c\<rparr>))"

definition clear_if_filesystem :: "host \<Rightarrow> string \<Rightarrow> machine \<Rightarrow> unit cli_result \<times> machine" where
  "clear_if_filesystem H filesystem m =
     (case context_load H m of
        Inl e \<Rightarrow> (Inl e, m)
      | Inr c \<Rightarrow>
          if cl_filesystem c = Some filesystem
          then context_save H (c\<lparr>cl_filesystem := None, cl_workspace := None\<rparr>) m
          else (Inr (), m))"

subsection \<open>Databases\<close>

definition path_exists :: "machine \<Rightarrow> string \<Rightarrow> bool" where
  "path_exists m path \<longleftrightarrow> disk m path \<noteq> None"

text \<open>\<open>SqliteFileSystem::open\<close>: a missing file is created.\<close>

definition open_database :: "host \<Rightarrow> string \<Rightarrow> machine \<Rightarrow> db fs_result \<times> machine" where
  "open_database H path m =
     (case io_error H (OpenDatabase path) of
        Some e \<Rightarrow> (Inl (internal_storage_failure e), m)
      | None \<Rightarrow>
          (case disk m path of
             Some (Foreign e) \<Rightarrow> (Inl (internal_storage_failure e), m)
           | entry \<Rightarrow>
               (let (r, f) = initialize (case entry of Some (Database f) \<Rightarrow> f | _ \<Rightarrow> blank_file);
                    m = m\<lparr>disk := (disk m)(path \<mapsto> Database f)\<rparr>
                in case r of Inl e \<Rightarrow> (Inl e, m) | Inr _ \<Rightarrow> (Inr (tables f), m))))"

text \<open>The tables of a database after an operation on its connection.\<close>

definition commit_tables :: "string \<Rightarrow> db \<Rightarrow> machine \<Rightarrow> machine" where
  "commit_tables path s m =
     (case disk m path of
        Some (Database f) \<Rightarrow> m\<lparr>disk := (disk m)(path \<mapsto> Database (f\<lparr>tables := s\<rparr>))\<rparr>
      | _ \<Rightarrow> m)"

text \<open>\<open>?\<close> on a file system error.\<close>

definition fs_err :: "fs_error + 'a \<Rightarrow> 'a cli_result" where
  "fs_err = map_err err_message"

end
