(* ===== verification/Cli.thy ===== *)
theory Cli
  imports Host Quoting Help
begin

text \<open>
  The command line of \<open>fslite-cli\<close>: \<open>src/cli.rs\<close>, \<open>main.rs\<close>, \<open>bootstrap.rs\<close> and \<open>status.rs\<close>.
  The parsing of the process arguments is done by a library and not modelled; its result is a
  \<open>cli\<close>. Informative output is left out, except for the answers of the commands and the reports.
\<close>

datatype action =
    Create string string "string option"
  | Delete string bool
  | Use string string
  | HelpVerb "string option"
  | Status
  | Doctor
  | Verb "string list"

record cli =
  cli_db :: "string option"
  cli_memory :: bool
  cli_server :: "string option"
  cli_token :: "string option"
  cli_filesystem :: "string option"
  cli_workspace :: "string option"
  cli_create_workspace :: bool
  cli_repl :: bool
  cli_json :: bool
  cli_action :: "action option"

text \<open>The em dash of the messages.\<close>

abbreviation em_dash :: string where "em_dash \<equiv> [CHR 0xE2, CHR 0x80, CHR 0x94]"

subsection \<open>The target and the workspace of an invocation\<close>

datatype target = Local string | Memory | Remote string

datatype filesystem_source = NoSource | Explicit string | FromContext string

fun source_name :: "filesystem_source \<Rightarrow> string option" where
  "source_name NoSource = None"
| "source_name (Explicit name) = Some name"
| "source_name (FromContext name) = Some name"

definition resolve_target :: "host \<Rightarrow> cli \<Rightarrow> machine \<Rightarrow> (target \<times> filesystem_source) cli_result" where
  "resolve_target H c m =
     (case cli_db c of
        Some db \<Rightarrow> Inr (Local db, NoSource)
      | None \<Rightarrow>
          if cli_memory c then Inr (Memory, NoSource)
          else case cli_server c of
            Some server \<Rightarrow> Inr (Remote server, NoSource)
          | None \<Rightarrow>
              (case cli_filesystem c of
                 Some name \<Rightarrow>
                   andthen (registry_load H m) (\<lambda>r.
                   andthen (ok_or (''no registered filesystem named '' @ debug_str H name) (filesystem_path r name)) (\<lambda>path.
                   Inr (Local path, Explicit name)))
               | None \<Rightarrow>
                   andthen (context_load H m) (\<lambda>ctx.
                   andthen (ok_or (''no filesystem selected: pass --db/--memory/--server/--filesystem, or run `fslite use <filesystem> -w <workspace>` first'')
                     (cl_filesystem ctx)) (\<lambda>name.
                   andthen (registry_load H m) (\<lambda>r.
                   andthen (ok_or (''the active filesystem '' @ debug_str H name @
                       '' is no longer registered (it may have been deleted) '' @ em_dash @ '' run `fslite use` again'')
                     (filesystem_path r name)) (\<lambda>path.
                   Inr (Local path, FromContext name)))))))"

definition open_target :: "host \<Rightarrow> target \<Rightarrow> machine \<Rightarrow> db cli_result \<times> machine" where
  "open_target H target m =
     (case target of
        Local path \<Rightarrow> (case open_database H path m of (r, m) \<Rightarrow> (fs_err r, m))
      | Memory \<Rightarrow> (Inr empty_db, m)
      | Remote _ \<Rightarrow> (Inl ''this operation requires a local database (--db/--memory/--filesystem), not --server'', m))"

definition resolve_workspace :: "host \<Rightarrow> ext \<Rightarrow> cli \<Rightarrow> filesystem_source \<Rightarrow> machine \<Rightarrow> uuid cli_result" where
  "resolve_workspace H E c source m =
     (case cli_workspace c of
        Some reference \<Rightarrow>
          (case uuid_parse E reference of
             Inr i \<Rightarrow> Inr i
           | Inl _ \<Rightarrow>
               andthen (ok_or (debug_str H reference @
                   '' is not a valid workspace id, and no named filesystem is selected to resolve it as a name'')
                 (source_name source)) (\<lambda>name.
               andthen (registry_load H m) (\<lambda>r.
               ok_or (''no workspace named '' @ debug_str H reference @ '' registered under filesystem '' @ debug_str H name)
                 (resolve_workspace_name r name reference))))
      | None \<Rightarrow>
          (case source of
             Explicit name \<Rightarrow>
               Inl (''--filesystem '' @ debug_str H name @ '' was given without --workspace '' @ em_dash @
                 '' pass --workspace <name-or-id> too, or use `fslite use` to set both persistently'')
           | _ \<Rightarrow>
               andthen (context_load H m) (\<lambda>ctx.
               andthen (ok_or ''no workspace selected: pass --workspace, or run `fslite use <filesystem> -w <workspace>` first''
                 (cl_workspace ctx)) (\<lambda>workspace_name.
               andthen (ok_or (''the active context has a workspace but no filesystem '' @ em_dash @ '' run `fslite use` again'')
                 (source_name source)) (\<lambda>name.
               andthen (registry_load H m) (\<lambda>r.
               ok_or (''the active workspace '' @ debug_str H workspace_name @ '' is no longer registered under filesystem '' @
                   debug_str H name)
                 (resolve_workspace_name r name workspace_name)))))))"

subsection \<open>Create, delete and use\<close>

definition create_filesystem ::
    "host \<Rightarrow> ext \<Rightarrow> string \<Rightarrow> string \<Rightarrow> string option \<Rightarrow> machine \<Rightarrow> unit cli_result \<times> machine" where
  "create_filesystem H E name file workspace_name m =
     (case registry_load H m of
        Inl e \<Rightarrow> (Inl e, m)
      | Inr r \<Rightarrow>
          if filesystem_exists r name
          then (Inl (''a filesystem named '' @ debug_str H name @ '' is already registered''), m)
          else if path_exists m file
          then (Inl (debug_str H file @ '' already exists '' @ em_dash @
            '' refusing to overwrite or silently adopt an existing file; choose a different path or remove it first''), m)
          else case open_database H file m of
            (Inl e, m) \<Rightarrow> (Inl (err_message e), m)
          | (Inr s, m) \<Rightarrow>
              (case canonicalize H file of
                 Inl e \<Rightarrow> (Inl e, m)
               | Inr absolute_path \<Rightarrow>
                   let r = register_filesystem name absolute_path r
                   in case workspace_name of
                     None \<Rightarrow> registry_save H r m
                   | Some wname \<Rightarrow>
                       (case create_workspace E workspace_options_default s of
                          (Inl e, s) \<Rightarrow> (Inl (err_message e), commit_tables file s m)
                        | (Inr workspace, s) \<Rightarrow>
                            registry_save H (register_workspace name wname (wk_id workspace) r) (commit_tables file s m))))"

text \<open>The line read as a confirmation, or the error of reading it.\<close>

definition confirmed :: "string \<Rightarrow> bool \<Rightarrow> string cli_result \<Rightarrow> unit cli_result" where
  "confirmed name yes reply =
     (if yes then Inr ()
      else andthen reply (\<lambda>confirmation.
        if trim confirmation \<noteq> name then Inl (''confirmation did not match '' @ em_dash @ '' nothing was deleted'')
        else Inr ()))"

definition delete_filesystem ::
    "host \<Rightarrow> string \<Rightarrow> bool \<Rightarrow> string cli_result \<Rightarrow> machine \<Rightarrow> unit cli_result \<times> machine" where
  "delete_filesystem H name yes reply m =
     (case registry_load H m of
        Inl e \<Rightarrow> (Inl e, m)
      | Inr r \<Rightarrow>
          (case filesystem_path r name of
             None \<Rightarrow> (Inl (''no registered filesystem named '' @ debug_str H name), m)
           | Some path \<Rightarrow>
               (case confirmed name yes reply of
                  Inl e \<Rightarrow> (Inl e, m)
                | Inr _ \<Rightarrow>
                    (case (if path_exists m path then io_error H (RemoveFile path) else None) of
                       Some e \<Rightarrow> (Inl e, m)
                     | None \<Rightarrow>
                         (case registry_save H (remove_filesystem name r) (m\<lparr>disk := (disk m)(path := None)\<rparr>) of
                            (Inl e, m) \<Rightarrow> (Inl e, m)
                          | (Inr _, m) \<Rightarrow> clear_if_filesystem H name m)))))"

definition use_context :: "host \<Rightarrow> string \<Rightarrow> string \<Rightarrow> machine \<Rightarrow> unit cli_result \<times> machine" where
  "use_context H name workspace_name m =
     (case registry_load H m of
        Inl e \<Rightarrow> (Inl e, m)
      | Inr r \<Rightarrow>
          if \<not> filesystem_exists r name then (Inl (''no registered filesystem named '' @ debug_str H name), m)
          else if \<not> workspace_exists r name workspace_name
          then (Inl (''no workspace named '' @ debug_str H workspace_name @ '' registered under filesystem '' @ debug_str H name), m)
          else context_save H \<lparr>cl_filesystem = Some name, cl_workspace = Some workspace_name\<rparr> m)"

end
