(* ===== verification/Cli_Main.thy ===== *)
theory Cli_Main
  imports Cli
begin

text \<open>
  \<open>fslite-cli\<close>: the default file system of the first run (\<open>src/bootstrap.rs\<close>), the status report
  (\<open>src/status.rs\<close>) and the dispatch of \<open>main\<close>.
\<close>

subsection \<open>The first run\<close>

definition DEFAULT_FILESYSTEM :: string where "DEFAULT_FILESYSTEM = ''default''"
definition DEFAULT_WORKSPACE :: string where "DEFAULT_WORKSPACE = ''default''"

definition active_context_is_valid :: "host \<Rightarrow> machine \<Rightarrow> bool cli_result \<times> machine" where
  "active_context_is_valid H m =
     (case context_load H m of
        Inl e \<Rightarrow> (Inl e, m)
      | Inr ctx \<Rightarrow>
          (case (cl_filesystem ctx, cl_workspace ctx) of
             (None, None) \<Rightarrow> (Inr False, m)
           | (Some filesystem, Some wname) \<Rightarrow>
               (case registry_load H m of
                  Inl e \<Rightarrow> (Inl e, m)
                | Inr r \<Rightarrow>
                    (case filesystem_path r filesystem of
                       None \<Rightarrow> (Inl (''the active filesystem '' @ debug_str H filesystem @
                         '' is no longer registered; run `fslite use` again''), m)
                     | Some path \<Rightarrow>
                         if \<not> path_exists m path
                         then (Inl (''the active filesystem '' @ debug_str H filesystem @ '' references a missing database at '' @
                           path @ ''; restore it or select another filesystem''), m)
                         else case resolve_workspace_name r filesystem wname of
                           None \<Rightarrow> (Inl (''the active workspace '' @ debug_str H wname @
                             '' is no longer registered under filesystem '' @ debug_str H filesystem @ ''; run `fslite use` again''), m)
                         | Some i \<Rightarrow>
                             (case open_database H path m of
                                (Inl e, m) \<Rightarrow> (Inl (err_message e), m)
                              | (Inr s, m) \<Rightarrow>
                                  (case fs_workspace_usage (cx_trusted i) s of
                                     Inl e \<Rightarrow> (Inl (''the active workspace '' @ debug_str H wname @ '' cannot be opened from '' @
                                       path @ '': '' @ err_message e @ ''; run `fslite use` again''), m)
                                   | Inr _ \<Rightarrow> (Inr True, m)))))
           | _ \<Rightarrow> (Inl ''the active context is incomplete; run `fslite use <filesystem> -w <workspace>` to repair it'', m)))"

text \<open>
  Under the lock, after the second look at the context: the registry entry of the default file
  system, its workspace, and the two files.
\<close>

definition default_entry :: "host \<Rightarrow> machine \<Rightarrow> string \<Rightarrow> string \<Rightarrow> registry \<Rightarrow> (registry \<times> bool) cli_result" where
  "default_entry H m dir db_path r =
     (let registered_path = filesystem_path r DEFAULT_FILESYSTEM
      in if registered_path = None \<and> \<not> registry_is_empty r
         then Inl ''registered filesystems exist but none is active; run `fslite use <filesystem> -w <workspace>` instead of creating an implicit default''
         else case registered_path of
             Some path \<Rightarrow>
               if path \<noteq> db_path
               then Inl (''reserved filesystem \"default\" points to '' @ path @ '', expected '' @ db_path @
                 ''; choose another name or repair the registry'')
               else if \<not> path_exists m path
               then Inl (''registered default database is missing at '' @ path @
                 ''; restore it or delete the default registry entry'')
               else Inr (r, False)
           | None \<Rightarrow>
               (case io_error H (CreateDirs dir) of
                  Some e \<Rightarrow> Inl e
                | None \<Rightarrow> Inr (register_filesystem DEFAULT_FILESYSTEM db_path r, True)))"

definition default_workspace ::
    "host \<Rightarrow> ext \<Rightarrow> string \<Rightarrow> registry \<times> bool \<Rightarrow> machine \<Rightarrow> (registry \<times> bool) cli_result \<times> machine" where
  "default_workspace H E db_path entry m =
     (if workspace_exists (fst entry) DEFAULT_FILESYSTEM DEFAULT_WORKSPACE then (Inr entry, m)
      else case open_database H db_path m of
        (Inl e, m) \<Rightarrow> (Inl (err_message e), m)
      | (Inr s, m) \<Rightarrow>
          (case create_workspace E workspace_options_default s of
             (Inl e, s) \<Rightarrow> (Inl (err_message e), commit_tables db_path s m)
           | (Inr workspace, s) \<Rightarrow>
               (Inr (register_workspace DEFAULT_FILESYSTEM DEFAULT_WORKSPACE (wk_id workspace) (fst entry), True),
                commit_tables db_path s m)))"

definition default_context :: cli_context where
  "default_context = \<lparr>cl_filesystem = Some DEFAULT_FILESYSTEM, cl_workspace = Some DEFAULT_WORKSPACE\<rparr>"

definition bootstrap :: "host \<Rightarrow> ext \<Rightarrow> machine \<Rightarrow> bool cli_result \<times> machine" where
  "bootstrap H E m =
     (case andthen (registry_load H m) (\<lambda>r. andthen (data_dir H) (\<lambda>dir.
             andthen (default_entry H m dir (path_join dir ''fslite.db'') r) (\<lambda>entry. Inr (dir, entry)))) of
        Inl e \<Rightarrow> (Inl e, m)
      | Inr (dir, entry) \<Rightarrow>
          (case default_workspace H E (path_join dir ''fslite.db'') entry m of
             (Inl e, m) \<Rightarrow> (Inl e, m)
           | (Inr (r, created), m) \<Rightarrow>
               (case registry_save H r m of
                  (Inl e, m) \<Rightarrow> (Inl e, m)
                | (Inr _, m) \<Rightarrow>
                    (case context_save H default_context m of
                       (Inl e, m) \<Rightarrow> (Inl e, m)
                     | (Inr _, m) \<Rightarrow> (Inr created, m)))))"

text \<open>
  The lock file is opened and locked in the configuration directory; what other processes do to
  the machine until the lock is granted is the argument \<open>others\<close>. The result says whether
  something was created.
\<close>

definition take_lock :: "host \<Rightarrow> unit cli_result" where
  "take_lock H =
     andthen (config_dir H) (\<lambda>dir.
       case io_error H (CreateDirs dir) of
         Some e \<Rightarrow> Inl e
       | None \<Rightarrow>
           (case io_error H (OpenLock (path_join dir ''bootstrap.lock'')) of
              Some e \<Rightarrow> Inl e
            | None \<Rightarrow> (case io_error H (TakeLock (path_join dir ''bootstrap.lock'')) of Some e \<Rightarrow> Inl e | None \<Rightarrow> Inr ())))"

definition ensure_default :: "host \<Rightarrow> ext \<Rightarrow> (machine \<Rightarrow> machine) \<Rightarrow> machine \<Rightarrow> bool cli_result \<times> machine" where
  "ensure_default H E others m =
     (case active_context_is_valid H m of
        (Inl e, m) \<Rightarrow> (Inl e, m)
      | (Inr True, m) \<Rightarrow> (Inr False, m)
      | (Inr False, m) \<Rightarrow>
          (case take_lock H of
             Inl e \<Rightarrow> (Inl e, m)
           | Inr _ \<Rightarrow>
               (case active_context_is_valid H (others m) of
                  (Inl e, m) \<Rightarrow> (Inl e, m)
                | (Inr True, m) \<Rightarrow> (Inr False, m)
                | (Inr False, m) \<Rightarrow> bootstrap H E m)))"

subsection \<open>Status\<close>

datatype selection = SelExplicit | SelPersisted | SelNone

record status_report =
  sr_filesystem_name :: "string option"
  sr_database_path :: "string option"
  sr_workspace_name :: "string option"
  sr_workspace_id :: "string option"
  sr_usage :: "workspace_usage option"
  sr_selection :: selection

definition for_details :: "string + 'a \<Rightarrow> 'a cli_result" where
  "for_details = map_err (\<lambda>e. e @ ''. Run `fslite doctor` for details.'')"

definition status_build :: "host \<Rightarrow> cli \<Rightarrow> machine \<Rightarrow> status_report cli_result \<times> machine" where
  "status_build H c m =
     (if cli_db c \<noteq> None \<or> cli_memory c \<or> cli_server c \<noteq> None
      then (Inl ''status reports on registered filesystems only; omit --db/--memory/--server (pass --filesystem, or nothing, to see the active one)'', m)
      else case andthen (for_details (registry_load H m)) (\<lambda>r.
          andthen (case cli_filesystem c of
              Some name \<Rightarrow> Inr (Some name, SelExplicit)
            | None \<Rightarrow>
                andthen (for_details (context_load H m)) (\<lambda>ctx.
                Inr (case cl_filesystem ctx of Some name \<Rightarrow> (Some name, SelPersisted) | None \<Rightarrow> (None, SelNone)))) (\<lambda>sel.
          Inr (r, sel))) of
        Inl e \<Rightarrow> (Inl e, m)
      | Inr (r, None, _) \<Rightarrow>
          (Inr \<lparr>sr_filesystem_name = None, sr_database_path = None, sr_workspace_name = None, sr_workspace_id = None,
                sr_usage = None, sr_selection = SelNone\<rparr>, m)
      | Inr (r, Some filesystem_name, selection) \<Rightarrow>
          (case andthen (ok_or (''the active filesystem '' @ debug_str H filesystem_name @ '' is no longer registered '' @ em_dash @
                 '' run `fslite doctor` for details'') (filesystem_path r filesystem_name)) (\<lambda>path.
               andthen (case selection of
                   SelExplicit \<Rightarrow> Inr (cli_workspace c)
                 | _ \<Rightarrow> andthen (for_details (context_load H m)) (\<lambda>ctx. Inr (cl_workspace ctx))) (\<lambda>wname.
               Inr (path, wname))) of
             Inl e \<Rightarrow> (Inl e, m)
           | Inr (path, None) \<Rightarrow>
               (Inr \<lparr>sr_filesystem_name = Some filesystem_name, sr_database_path = Some path, sr_workspace_name = None,
                     sr_workspace_id = None, sr_usage = None, sr_selection = selection\<rparr>, m)
           | Inr (path, Some wname) \<Rightarrow>
               (case resolve_workspace_name r filesystem_name wname of
                  None \<Rightarrow> (Inl (''no workspace named '' @ debug_str H wname @ '' registered under filesystem '' @
                    debug_str H filesystem_name), m)
                | Some i \<Rightarrow>
                    (case open_database H path m of
                       (Inl e, m) \<Rightarrow> (Inl (err_message e), m)
                     | (Inr s, m) \<Rightarrow>
                         (case fs_workspace_usage (cx_trusted i) s of
                            Inl e \<Rightarrow> (Inl (err_message e), m)
                          | Inr usage \<Rightarrow>
                              (Inr \<lparr>sr_filesystem_name = Some filesystem_name, sr_database_path = Some path,
                                    sr_workspace_name = Some wname, sr_workspace_id = Some i, sr_usage = Some usage,
                                    sr_selection = selection\<rparr>, m))))))"

fun selection_text :: "selection \<Rightarrow> string" where
  "selection_text SelExplicit = ''explicit (--filesystem)''"
| "selection_text SelPersisted = ''persisted (context.json)''"
| "selection_text SelNone = ''none''"

definition status_text :: "status_report \<Rightarrow> string" where
  "status_text rep =
     (case sr_filesystem_name rep of
        None \<Rightarrow> ''No active filesystem yet '' @ em_dash @ '' run any command (e.g. `fslite mkdir docs`) to bootstrap the default workspace.''
      | Some name \<Rightarrow> join_on newline (
          [''Filesystem: '' @ sanitize_name name,
           ''Database:   '' @ sanitize_name (case sr_database_path rep of Some p \<Rightarrow> p | None \<Rightarrow> ''?''),
           (case (sr_workspace_name rep, sr_workspace_id rep) of
              (Some w, Some i) \<Rightarrow> ''Workspace:  '' @ sanitize_name w @ '' ('' @ i @ '')''
            | _ \<Rightarrow> ''Workspace:  (none selected)'')] @
          (case sr_usage rep of
             None \<Rightarrow> []
           | Some u \<Rightarrow> [''Usage:      '' @ show_u64 (wu_active_nodes u) @ '' nodes / '' @ show_u64 (wu_max_nodes u) @ '' max, '' @
               show_u64 (wu_active_logical_bytes u) @ '' bytes active / '' @ show_u64 (wu_max_logical_bytes u) @ '' max, '' @
               show_u64 (wu_trashed_logical_bytes u) @ '' bytes trashed'']) @
          [''Selection:  '' @ selection_text (sr_selection rep)]))"

end
