(* ===== verification/Doctor.thy ===== *)
theory Doctor
  imports Host
begin

text \<open>
  \<open>fslite-cli/src/doctor.rs\<close>: the checks of the local state, their report and the exit code. A
  check appends its results; opening a database may create or migrate it, so the machine is
  passed on.
\<close>

datatype check_status = Pass | Warn | Fail

record check_result =
  ck_check :: string
  ck_scope :: string
  ck_status :: check_status
  ck_detail :: string

definition check_pass :: "string \<Rightarrow> string \<Rightarrow> string \<Rightarrow> check_result" where
  "check_pass check scope detail = \<lparr>ck_check = check, ck_scope = scope, ck_status = Pass, ck_detail = detail\<rparr>"

definition check_warn :: "string \<Rightarrow> string \<Rightarrow> string \<Rightarrow> check_result" where
  "check_warn check scope detail = \<lparr>ck_check = check, ck_scope = scope, ck_status = Warn, ck_detail = detail\<rparr>"

definition check_fail :: "string \<Rightarrow> string \<Rightarrow> string \<Rightarrow> check_result" where
  "check_fail check scope detail = \<lparr>ck_check = check, ck_scope = scope, ck_status = Fail, ck_detail = detail\<rparr>"

definition check_registry :: "host \<Rightarrow> machine \<Rightarrow> registry option \<times> check_result" where
  "check_registry H m =
     (case registry_load H m of
        Inr r \<Rightarrow> (Some r, check_pass ''registry.json'' ''global'' ''valid'')
      | Inl e \<Rightarrow> (None, check_fail ''registry.json'' ''global'' e))"

definition check_context :: "host \<Rightarrow> registry option \<Rightarrow> machine \<Rightarrow> check_result" where
  "check_context H registry m =
     (case context_load H m of
        Inl e \<Rightarrow> check_fail ''context.json'' ''global'' e
      | Inr c \<Rightarrow>
          (case (cl_filesystem c, cl_workspace c) of
             (None, None) \<Rightarrow> check_pass ''context.json'' ''global'' ''no active context (never bootstrapped)''
           | (Some filesystem, Some workspace) \<Rightarrow>
               (case registry of
                  None \<Rightarrow> check_warn ''context.json'' ''global'' ''cannot verify against registry.json (see above)''
                | Some r \<Rightarrow>
                    if workspace_exists r filesystem workspace
                    then check_pass ''context.json'' ''global'' (''points at registered filesystem '' @ debug_str H filesystem @
                      '', workspace '' @ debug_str H workspace)
                    else check_fail ''context.json'' ''global'' (''points at filesystem '' @ debug_str H filesystem @
                      '', workspace '' @ debug_str H workspace @ '', which is not registered''))
           | _ \<Rightarrow> check_fail ''context.json'' ''global'' ''has a filesystem or workspace set but not both''))"

definition check_bootstrap_lock :: "host \<Rightarrow> check_result" where
  "check_bootstrap_lock H =
     (case config_dir H of
        Inl e \<Rightarrow> check_fail ''bootstrap.lock'' ''global'' e
      | Inr dir \<Rightarrow>
          let path = path_join dir ''bootstrap.lock''
          in if \<not> lock_present H
             then check_pass ''bootstrap.lock'' ''global'' ''not present (never bootstrapped)''
             else case io_error H (OpenLock path) of
               Some e \<Rightarrow> check_fail ''bootstrap.lock'' ''global'' e
             | None \<Rightarrow>
                 if io_error H (TakeLock path) = None
                 then check_pass ''bootstrap.lock'' ''global'' ''present and not held''
                 else check_warn ''bootstrap.lock'' ''global'' ''currently held by another fslite process'')"

text \<open>\<open>Path::parent\<close> of a path with a slash in it that does not end in one.\<close>

definition parent_dir :: "string \<Rightarrow> string" where
  "parent_dir path = join_on slash (butlast (split_on slash path))"

definition show_bool :: "bool \<Rightarrow> string" where
  "show_bool b = (if b then ''true'' else ''false'')"

definition check_writable :: "host \<Rightarrow> string \<Rightarrow> string \<Rightarrow> check_result" where
  "check_writable H path scope =
     (let writable = (\<lambda>p. case readonly H p of None \<Rightarrow> False | Some r \<Rightarrow> \<not> r)
      in if writable path \<and> writable (parent_dir path)
         then check_pass ''writable'' scope ''database file and directory are writable''
         else check_fail ''writable'' scope (''database file writable: '' @ show_bool (writable path) @
           '', directory writable: '' @ show_bool (writable (parent_dir path))))"

definition check_schema :: "string \<Rightarrow> db_file \<Rightarrow> check_result" where
  "check_schema filesystem f =
     check_pass ''schema version'' filesystem
       (show_int (read_current_version f) @ '' (latest: '' @ show_int latest_schema_version @ '')'')"

definition check_integrity :: "host \<Rightarrow> string \<Rightarrow> string \<Rightarrow> check_result" where
  "check_integrity H filesystem path =
     (case integrity_rows H path of
        Inl e \<Rightarrow> check_fail ''integrity check'' filesystem (err_message e)
      | Inr rows \<Rightarrow>
          if integrity_check rows = [] then check_pass ''integrity check'' filesystem ''ok''
          else check_fail ''integrity check'' filesystem
            (case integrity_check rows of [] \<Rightarrow> '''' | p # ps \<Rightarrow> p @ concat (map (\<lambda>q. ''; '' @ q) ps)))"

definition check_workspace :: "host \<Rightarrow> registry \<Rightarrow> string \<Rightarrow> db \<Rightarrow> string \<Rightarrow> check_result list" where
  "check_workspace H r filesystem s workspace_name =
     (case resolve_workspace_name r filesystem workspace_name of
        None \<Rightarrow> []
      | Some i \<Rightarrow>
          (case fs_workspace_usage (cx_trusted i) s of
             Inr _ \<Rightarrow> [check_pass ''workspace exists'' filesystem (debug_str H workspace_name @ '' ('' @ i @ '')'')]
           | Inl e \<Rightarrow> [check_fail ''workspace exists'' filesystem
               (debug_str H workspace_name @ '' ('' @ i @ ''): '' @ err_message e)]))"

definition check_filesystem :: "host \<Rightarrow> registry \<Rightarrow> string \<Rightarrow> machine \<Rightarrow> check_result list \<times> machine" where
  "check_filesystem H r filesystem m =
     (case filesystem_path r filesystem of
        None \<Rightarrow> ([], m)
      | Some path \<Rightarrow>
          if \<not> path_exists m path
          then ([check_fail ''database exists'' filesystem (''no database file at '' @ path)], m)
          else case open_database H path m of
            (Inl e, m) \<Rightarrow>
              ([check_pass ''database exists'' filesystem path, check_fail ''database opens'' filesystem (err_message e)], m)
          | (Inr s, m) \<Rightarrow>
              ([check_pass ''database exists'' filesystem path,
                check_pass ''database opens'' filesystem ''opened successfully (schema migrated if needed)''] @
               (case disk m path of Some (Database f) \<Rightarrow> [check_schema filesystem f] | _ \<Rightarrow> []) @
               [check_integrity H filesystem path, check_writable H path filesystem] @
               concat (map (check_workspace H r filesystem s) (workspace_names r filesystem)), m))"

fun check_filesystems :: "host \<Rightarrow> registry \<Rightarrow> string list \<Rightarrow> machine \<Rightarrow> check_result list \<times> machine" where
  "check_filesystems H r [] m = ([], m)"
| "check_filesystems H r (filesystem # rest) m =
     (case check_filesystem H r filesystem m of
        (here, m) \<Rightarrow> (case check_filesystems H r rest m of (there, m) \<Rightarrow> (here @ there, m)))"

definition doctor_run :: "host \<Rightarrow> machine \<Rightarrow> check_result list \<times> machine" where
  "doctor_run H m =
     (case check_registry H m of
        (registry, result) \<Rightarrow>
          (case (case registry of None \<Rightarrow> ([], m) | Some r \<Rightarrow> check_filesystems H r (filesystem_names r) m) of
             (found, m') \<Rightarrow> ([result, check_context H registry m, check_bootstrap_lock H] @ found, m')))"

definition exit_code :: "check_result list \<Rightarrow> int" where
  "exit_code results = (if list_ex (\<lambda>r. ck_status r = Fail) results then 1 else 0)"

fun status_icon :: "check_status \<Rightarrow> string" where
  "status_icon Pass = [CHR 0xE2, CHR 0x9C, CHR 0x93]"
| "status_icon Warn = ''!''"
| "status_icon Fail = [CHR 0xE2, CHR 0x9C, CHR 0x97]"

definition doctor_line :: "check_result \<Rightarrow> string" where
  "doctor_line r =
     status_icon (ck_status r) @ '' '' @ sanitize_name (ck_scope r) @ '': '' @ sanitize_name (ck_check r) @
     '' ('' @ sanitize_name (ck_detail r) @ '')''"

definition doctor_text :: "check_result list \<Rightarrow> string" where
  "doctor_text results =
     (let failures = length (filter (\<lambda>r. ck_status r = Fail) results)
      in join_on newline (map doctor_line results @ ['''',
           if failures = 0 then ''0 problems found.'' else if failures = 1 then ''1 problem found.''
           else show_nat failures @ '' problems found.'']))"

end
