(* ===== verification/Program.thy ===== *)
theory Program
  imports Cli_Main Doctor
begin

text \<open>
  \<open>main\<close> of \<open>fslite-cli\<close>. The executor of a remote server is an argument. The outcome is the
  answers shown with the exit code, a help or report text, or the error \<open>main\<close> returns;
  \<^const>\<open>None\<close> when a command never returns.
\<close>

datatype outcome = Exited int "shown list" | Printed int "string list" | Stopped string

text \<open>The local executor on an open database file, or on the database in memory.\<close>

definition on_disk :: "db file_system \<Rightarrow> string \<Rightarrow> machine executor" where
  "on_disk F path ctx cmd m =
     (case disk m path of
        Some (Database f) \<Rightarrow> map_option (\<lambda>(r, s). (r, commit_tables path s m)) (execute F ctx cmd (tables f))
      | _ \<Rightarrow> Some (Inl (internal_storage_failure ''sqlite error''), m))"

definition run_action ::
    "parse_env \<Rightarrow> 's executor \<Rightarrow> cli \<Rightarrow> string option list \<Rightarrow> request_context \<Rightarrow> 's \<Rightarrow> (outcome \<times> 's) option" where
  "run_action P X c stdin ctx s =
     (if cli_repl c then map_option (\<lambda>(out, s). (Exited 0 out, s)) (run_repl P X ctx stdin s)
      else case cli_action c of
        Some (Verb (w # ws)) \<Rightarrow>
          map_option (\<lambda>((out, code), s). (Exited code [out], s)) (run_line P X ctx (quote_line (w # ws)) s)
      | _ \<Rightarrow> Some (Stopped ''no command given (pass a verb, or use --repl)'', s))"

definition stopped :: "(unit cli_result \<times> machine) \<Rightarrow> (outcome \<times> machine) option" where
  "stopped r = Some (case fst r of Inl e \<Rightarrow> Stopped e | Inr _ \<Rightarrow> Printed 0 [], snd r)"

definition eligible_for_bootstrap :: "cli \<Rightarrow> bool" where
  "eligible_for_bootstrap c \<longleftrightarrow>
     (case cli_action c of Some (Verb _) \<Rightarrow> True | _ \<Rightarrow> False) \<and> cli_db c = None \<and> \<not> cli_memory c \<and>
     cli_server c = None \<and> cli_filesystem c = None \<and> \<not> cli_create_workspace c"

definition handle_help :: "string option \<Rightarrow> outcome" where
  "handle_help verb =
     (case verb of
        None \<Rightarrow> Printed 0 (''fslite verbs:'' # print_verb_table)
      | Some name \<Rightarrow> (case print_verb_help name of None \<Rightarrow> Printed 2 [] | Some (_, lines) \<Rightarrow> Printed 0 lines))"

definition handle_status :: "host \<Rightarrow> cli \<Rightarrow> machine \<Rightarrow> outcome \<times> machine" where
  "handle_status H c m =
     (case status_build H c m of (Inl e, m) \<Rightarrow> (Stopped e, m) | (Inr rep, m) \<Rightarrow> (Printed 0 [status_text rep], m))"

definition handle_doctor :: "host \<Rightarrow> machine \<Rightarrow> outcome \<times> machine" where
  "handle_doctor H m =
     (case doctor_run H m of (results, m) \<Rightarrow> (Printed (exit_code results) [doctor_text results], m))"

text \<open>\<open>--create-workspace\<close>: the id is printed.\<close>

definition create_unnamed :: "host \<Rightarrow> ext \<Rightarrow> target \<Rightarrow> machine \<Rightarrow> outcome \<times> machine" where
  "create_unnamed H E target m =
     (case open_target H target m of
        (Inl e, m) \<Rightarrow> (Stopped e, m)
      | (Inr s, m) \<Rightarrow>
          (case create_workspace E workspace_options_default s of
             (r, s) \<Rightarrow>
               (case r of Inl e \<Rightarrow> Stopped (err_message e) | Inr k \<Rightarrow> Printed 0 [wk_id k],
                case target of Local path \<Rightarrow> commit_tables path s m | _ \<Rightarrow> m)))"

definition run_target ::
    "host \<Rightarrow> ext \<Rightarrow> codecs \<Rightarrow> parse_env \<Rightarrow> (string \<Rightarrow> string \<Rightarrow> machine executor) \<Rightarrow> string option list \<Rightarrow> cli \<Rightarrow>
     machine \<Rightarrow> (outcome \<times> machine) option" where
  "run_target H E C P remote stdin c m =
     (case resolve_target H c m of
        Inl e \<Rightarrow> Some (Stopped e, m)
      | Inr (target, source) \<Rightarrow>
          if cli_create_workspace c then Some (create_unnamed H E target m)
          else
            let workspace = (\<lambda>m run. case resolve_workspace H E c source m of
                               Inl e \<Rightarrow> Some (Stopped e, m)
                             | Inr w \<Rightarrow> run (cx_trusted w) m)
            in case target of
                 Remote server \<Rightarrow>
                   (case cli_token c of
                      None \<Rightarrow> Some (Stopped ''remote mode requires --token'', m)
                    | Some tok \<Rightarrow> workspace m (run_action P (remote server tok) c stdin))
               | Memory \<Rightarrow>
                   workspace m (\<lambda>ctx m. map_option (\<lambda>(out, _). (out, m))
                     (run_action P (execute (sqlite_file_system E C)) c stdin ctx empty_db))
               | Local path \<Rightarrow>
                   (case open_target H target m of
                      (Inl e, m) \<Rightarrow> Some (Stopped e, m)
                    | (Inr _, m) \<Rightarrow> workspace m (run_action P (on_disk (sqlite_file_system E C) path) c stdin)))"

definition main ::
    "host \<Rightarrow> ext \<Rightarrow> codecs \<Rightarrow> parse_env \<Rightarrow> (string \<Rightarrow> string \<Rightarrow> machine executor) \<Rightarrow> (machine \<Rightarrow> machine) \<Rightarrow>
     string option list \<Rightarrow> cli \<Rightarrow> machine \<Rightarrow> (outcome \<times> machine) option" where
  "main H E C P remote others stdin c m =
     (case cli_action c of
        Some (HelpVerb verb) \<Rightarrow> Some (handle_help verb, m)
      | Some (Create name file workspace_name) \<Rightarrow> stopped (create_filesystem H E name file workspace_name m)
      | Some (Delete name yes) \<Rightarrow>
          stopped (delete_filesystem H name yes
            (case stdin of [] \<Rightarrow> Inr '''' | Some line # _ \<Rightarrow> Inr line | None # _ \<Rightarrow> Inl ''stdin'') m)
      | Some (Use name workspace_name) \<Rightarrow> stopped (use_context H name workspace_name m)
      | Some Status \<Rightarrow> Some (handle_status H c m)
      | Some Doctor \<Rightarrow> Some (handle_doctor H m)
      | _ \<Rightarrow>
          if eligible_for_bootstrap c
          then (case ensure_default H E others m of
                  (Inl e, m) \<Rightarrow> Some (Stopped e, m)
                | (Inr _, m) \<Rightarrow> run_target H E C P remote stdin c m)
          else run_target H E C P remote stdin c m)"

end
