(* ===== verification/Cli_Facts.thy ===== *)
theory Cli_Facts
  imports Program Grammar
begin

text \<open>
  The command line's local state: where the workspace of an invocation comes from, the
  consistency of the two state files, and what the first run leaves behind.
\<close>

subsection \<open>One source for the file system and the workspace\<close>

lemma resolve_target_named:
  assumes "resolve_target H c m = Inr (tgt, src)" "source_name src = Some name"
  obtains r path where "registry_load H m = Inr r" "tgt = Local path" "filesystem_path r name = Some path"
    "case cli_filesystem c of
       Some f \<Rightarrow> f = name \<and> src = Explicit name
     | None \<Rightarrow> src = FromContext name \<and> (\<exists>ctx. context_load H m = Inr ctx \<and> cl_filesystem ctx = Some name)"
  using assms by (auto simp: resolve_target_def split: option.splits if_splits)

text \<open>
  A workspace that is not given as an id is looked up under the file system the target is: the
  explicit one, where the workspace's name is explicit too, or the saved one, where the name is
  from the command line or, without one there, saved beside the file system's.
\<close>

definition same_source :: "host \<Rightarrow> cli \<Rightarrow> machine \<Rightarrow> target \<Rightarrow> uuid \<Rightarrow> bool" where
  "same_source H c m tgt i \<longleftrightarrow>
     (\<exists>r name path wname.
        registry_load H m = Inr r \<and> filesystem_path r name = Some path \<and> tgt = Local path \<and>
        resolve_workspace_name r name wname = Some i \<and>
        (case cli_filesystem c of
           Some f \<Rightarrow> name = f \<and> cli_workspace c = Some wname
         | None \<Rightarrow> (\<exists>ctx. context_load H m = Inr ctx \<and> cl_filesystem ctx = Some name \<and>
             (case cli_workspace c of Some w \<Rightarrow> wname = w | None \<Rightarrow> cl_workspace ctx = Some wname))))"

definition unregistered_target :: "cli \<Rightarrow> bool" where
  "unregistered_target c \<longleftrightarrow> cli_db c \<noteq> None \<or> cli_memory c \<or> cli_server c \<noteq> None"

lemma unregistered_source:
  "resolve_target H c m = Inr (tgt, src) \<Longrightarrow> unregistered_target c \<longleftrightarrow> source_name src = None"
  by (auto simp: resolve_target_def unregistered_target_def split: option.splits if_splits sum.splits)

lemma workspace_from_id:
  "resolve_workspace H E c src m = Inr i \<Longrightarrow> cli_workspace c = Some w \<Longrightarrow> uuid_parse E w = Inr j \<Longrightarrow> i = j"
  by (simp add: resolve_workspace_def)

lemma workspace_from_source:
  assumes t: "resolve_target H c m = Inr (tgt, src)" and w: "resolve_workspace H E c src m = Inr i"
    and n: "\<forall>w. cli_workspace c = Some w \<longrightarrow> isl (uuid_parse E w)"
  shows "same_source H c m tgt i \<and> \<not> unregistered_target c"
proof -
  obtain name where name: "source_name src = Some name"
    using w n by (cases src) (auto simp: resolve_workspace_def split: option.splits sum.splits)
  obtain r path where r: "registry_load H m = Inr r" "tgt = Local path" "filesystem_path r name = Some path"
    and f: "case cli_filesystem c of
       Some f \<Rightarrow> f = name \<and> src = Explicit name
     | None \<Rightarrow> src = FromContext name \<and> (\<exists>ctx. context_load H m = Inr ctx \<and> cl_filesystem ctx = Some name)"
    by (rule resolve_target_named [OF t name])
  have "same_source H c m tgt i"
  proof (cases "cli_filesystem c")
    case None
    with f obtain ctx where ctx: "src = FromContext name" "context_load H m = Inr ctx" "cl_filesystem ctx = Some name" by auto
    with w n r None show ?thesis
      by (cases "cli_workspace c") (auto simp: resolve_workspace_def same_source_def split: sum.splits)
  next
    case (Some f')
    with f w n r show ?thesis
      by (cases "cli_workspace c") (auto simp: resolve_workspace_def same_source_def split: sum.splits)
  qed
  with unregistered_source [OF t] name show ?thesis by simp
qed

subsection \<open>The state files\<close>

definition stored_registry :: "machine \<Rightarrow> registry option" where
  "stored_registry m = (case registry_json m of Stored r \<Rightarrow> Some r | Absent \<Rightarrow> Some empty_registry | _ \<Rightarrow> None)"

definition stored_context :: "machine \<Rightarrow> cli_context option" where
  "stored_context m = (case context_json m of Stored c \<Rightarrow> Some c | Absent \<Rightarrow> Some empty_context | _ \<Rightarrow> None)"

definition points_at :: "registry \<Rightarrow> cli_context \<Rightarrow> bool" where
  "points_at r c \<longleftrightarrow>
     (case (cl_filesystem c, cl_workspace c) of
        (None, None) \<Rightarrow> True
      | (Some f, Some w) \<Rightarrow> filesystem_exists r f \<and> workspace_exists r f w
      | _ \<Rightarrow> False)"

definition owned :: "registry \<Rightarrow> bool" where
  "owned r \<longleftrightarrow> (\<forall>f. map_of (rg_workspaces r) f \<noteq> None \<longrightarrow> filesystem_exists r f)"

text \<open>The files parse, every registered workspace belongs to a registered file system, and the
  context, if it is set, points at a registered workspace.\<close>

definition consistent :: "machine \<Rightarrow> bool" where
  "consistent m \<longleftrightarrow>
     (\<exists>r c. stored_registry m = Some r \<and> stored_context m = Some c \<and> owned r \<and> points_at r c)"

lemma registry_load_stored: "registry_load H m = Inr r \<Longrightarrow> stored_registry m = Some r"
  by (auto simp: registry_load_def stored_registry_def split: stored.splits)

lemma context_load_stored: "context_load H m = Inr c \<Longrightarrow> stored_context m = Some c"
  by (auto simp: context_load_def stored_context_def split: stored.splits)

lemma consistentE:
  assumes "consistent m" "registry_load H m = Inr r"
  obtains c where "stored_context m = Some c" "owned r" "points_at r c"
  using assms registry_load_stored by (fastforce simp: consistent_def)

lemma stored_disk [simp]:
  "stored_registry (m\<lparr>disk := d\<rparr>) = stored_registry m" "stored_context (m\<lparr>disk := d\<rparr>) = stored_context m"
  "consistent (m\<lparr>disk := d\<rparr>) = consistent m"
  by (simp_all add: stored_registry_def stored_context_def consistent_def)

lemma open_database_disk: "open_database H path m = (r, m') \<Longrightarrow> \<exists>d. m' = m\<lparr>disk := d\<rparr>"
  unfolding open_database_def
  by (auto simp: Let_def split: option.splits disk_file.splits prod.splits sum.splits intro: exI [of _ "disk m"])

lemma commit_tables_disk: "\<exists>d. commit_tables path s m = m\<lparr>disk := d\<rparr>"
  by (auto simp: commit_tables_def split: option.splits disk_file.splits intro: exI [of _ "disk m"])

lemma commit_consistent [simp]: "consistent (commit_tables path s m) = consistent m"
  using commit_tables_disk [of path s m] by auto

lemma open_consistent: "open_database H path m = (r, m') \<Longrightarrow> consistent m' = consistent m"
  using open_database_disk by fastforce

text \<open>Writing succeeds.\<close>

definition writable_host :: "host \<Rightarrow> bool" where
  "writable_host H \<longleftrightarrow> (\<forall>p. io_error H (WriteFile p) = None \<and> io_error H (CreateDirs p) = None)"

lemma save_registry:
  assumes "writable_host H"
  shows "registry_save H r m = (r', m') \<Longrightarrow> m' = m \<and> isl r' \<and> isl (config_dir H) \<or> m' = m\<lparr>registry_json := Stored r\<rparr> \<and> r' = Inr ()"
  using assms by (cases "config_dir H") (auto simp: registry_save_def registry_path_def write_json_def writable_host_def)

lemma save_context:
  assumes "writable_host H"
  shows "context_save H c m = (r', m') \<Longrightarrow> m' = m \<and> isl r' \<and> isl (config_dir H) \<or> m' = m\<lparr>context_json := Stored c\<rparr> \<and> r' = Inr ()"
  using assms by (cases "config_dir H") (auto simp: context_save_def context_path_def write_json_def writable_host_def)

lemma load_config: "registry_load H m = Inr r \<Longrightarrow> \<not> isl (config_dir H)"
  by (cases "config_dir H") (auto simp: registry_load_def registry_path_def)

text \<open>Registering and removing.\<close>

lemma registered_filesystem:
  "filesystem_exists (register_filesystem name path r) f \<longleftrightarrow> f = name \<or> filesystem_exists r f"
  "workspace_exists (register_filesystem name path r) f w = workspace_exists r f w"
  "filesystem_path (register_filesystem name path r) f = (if f = name then Some path else filesystem_path r f)"
  by (simp_all add: filesystem_exists_def register_filesystem_def workspace_exists_def filesystem_path_def)

lemma registered_workspace:
  "filesystem_exists (register_workspace name w i r) f = filesystem_exists r f"
  "filesystem_path (register_workspace name w i r) f = filesystem_path r f"
  "workspace_exists (register_workspace name w i r) f v \<longleftrightarrow> f = name \<and> v = w \<or> workspace_exists r f v"
  "resolve_workspace_name (register_workspace name w i r) name w = Some i"
  by (auto simp: filesystem_exists_def register_workspace_def workspace_exists_def filesystem_path_def
      resolve_workspace_name_def split: option.splits)

lemma removed_filesystem:
  "filesystem_exists (remove_filesystem name r) f \<longleftrightarrow> f \<noteq> name \<and> filesystem_exists r f"
  "workspace_exists (remove_filesystem name r) f w \<longleftrightarrow> f \<noteq> name \<and> workspace_exists r f w"
  by (simp_all add: filesystem_exists_def remove_filesystem_def workspace_exists_def map_of_btree_remove)

lemma register_keeps:
  "owned r \<Longrightarrow> owned (register_filesystem name path r)"
  "points_at r c \<Longrightarrow> points_at (register_filesystem name path r) c"
  "owned r \<Longrightarrow> filesystem_exists r name \<Longrightarrow> owned (register_workspace name w i r)"
  "points_at r c \<Longrightarrow> points_at (register_workspace name w i r) c"
  "owned r \<Longrightarrow> owned (remove_filesystem name r)"
  "points_at r c \<Longrightarrow> cl_filesystem c \<noteq> Some name \<Longrightarrow> points_at (remove_filesystem name r) c"
proof -
  show "owned r \<Longrightarrow> owned (register_filesystem name path r)"
    by (simp add: owned_def registered_filesystem) (simp add: register_filesystem_def)
  show "owned r \<Longrightarrow> filesystem_exists r name \<Longrightarrow> owned (register_workspace name w i r)"
    by (simp add: owned_def registered_workspace) (simp add: register_workspace_def)
  show "owned r \<Longrightarrow> owned (remove_filesystem name r)"
    by (simp add: owned_def removed_filesystem) (simp add: remove_filesystem_def map_of_btree_remove)
qed (auto simp: points_at_def registered_filesystem registered_workspace removed_filesystem split: option.splits)

lemma saved_consistent:
  assumes "writable_host H" "owned r" "points_at r c" "stored_context m = Some c" "registry_save H r m = (res, m')"
    and "consistent m"
  shows "consistent m'"
  using save_registry [OF assms(1,5)] assms(2-4,6)
  by (auto simp: consistent_def stored_registry_def stored_context_def)

lemma saved_context_consistent:
  assumes "writable_host H" "stored_registry m = Some r" "owned r" "points_at r c" "context_save H c m = (res, m')"
    and "consistent m"
  shows "consistent m'"
  using save_context [OF assms(1,5)] assms(2-4,6)
  by (auto simp: consistent_def stored_registry_def stored_context_def)

lemma context_loads: "\<not> isl (config_dir H) \<Longrightarrow> stored_context m = Some c \<Longrightarrow> context_load H m = Inr c"
  by (cases "config_dir H") (auto simp: context_load_def context_path_def stored_context_def split: stored.splits)

lemma create_consistent:
  assumes W: "writable_host H" and ok: "consistent m"
    and c: "create_filesystem H E name file workspace_name m = (res, m')"
  shows "consistent m'"
proof (cases "registry_load H m")
  case (Inr r)
  obtain ctx where ctx: "stored_context m = Some ctx" "owned r" "points_at r ctx" by (rule consistentE [OF ok Inr])
  show ?thesis
  proof (cases "filesystem_exists r name \<or> path_exists m file")
    case False
    obtain q m1 where o1: "open_database H file m = (q, m1)" by fastforce
    obtain d where m1: "m1 = m\<lparr>disk := d\<rparr>" using open_database_disk [OF o1] by auto
    show ?thesis
    proof (cases "isl q \<or> isl (canonicalize H file)")
      case True
      with c Inr False o1 ok m1 show ?thesis
        by (cases q; cases "canonicalize H file") (auto simp: create_filesystem_def)
    next
      case ok2: False
      then obtain s path where s: "q = Inr s" "canonicalize H file = Inr path" by (cases q; cases "canonicalize H file") auto
      let ?r = "register_filesystem name path r"
      have r: "owned ?r" "points_at ?r ctx" "filesystem_exists ?r name"
        using register_keeps ctx by (auto simp: registered_filesystem)
      show ?thesis
      proof (cases workspace_name)
        case None
        with c Inr False o1 s have "registry_save H ?r m1 = (res, m')" by (auto simp: create_filesystem_def Let_def)
        from saved_consistent [OF W r(1,2) _ this] ctx ok show ?thesis by (simp add: m1)
      next
        case (Some w)
        obtain x t where x: "create_workspace E workspace_options_default s = (x, t)" by fastforce
        obtain d' where d': "commit_tables file t m1 = m\<lparr>disk := d'\<rparr>" using commit_tables_disk [where path = "file" and s = t and m = m1] m1 by auto
        show ?thesis
        proof (cases x)
          case (Inl e)
          with c \<open>registry_load H m = Inr r\<close> False o1 s Some x ok show ?thesis
            by (auto simp: create_filesystem_def Let_def m1)
        next
          case k: (Inr k)
          with c Inr False o1 s Some x have "registry_save H (register_workspace name w (wk_id k) ?r) (m\<lparr>disk := d'\<rparr>) = (res, m')"
            by (auto simp: create_filesystem_def Let_def d')
          moreover have "stored_context (m\<lparr>disk := d'\<rparr>) = Some ctx" "consistent (m\<lparr>disk := d'\<rparr>)" using ctx(1) ok by simp_all
          ultimately show ?thesis
            using saved_consistent [OF W register_keeps(3) [OF r(1,3)] register_keeps(4) [OF r(2)]] by blast
        qed
      qed
    qed
  qed (use c Inr ok in \<open>auto simp: create_filesystem_def split: if_splits\<close>)
qed (use c ok in \<open>simp add: create_filesystem_def\<close>)

lemma use_consistent:
  assumes W: "writable_host H" and ok: "consistent m" and u: "use_context H name workspace_name m = (res, m')"
  shows "consistent m'"
proof (cases "registry_load H m")
  case (Inr r)
  obtain ctx where ctx: "stored_context m = Some ctx" "owned r" "points_at r ctx" by (rule consistentE [OF ok Inr])
  show ?thesis
  proof (cases "filesystem_exists r name \<and> workspace_exists r name workspace_name")
    case True
    let ?c = "\<lparr>cl_filesystem = Some name, cl_workspace = Some workspace_name\<rparr>"
    have "points_at r ?c" using True by (simp add: points_at_def)
    moreover have "context_save H ?c m = (res, m')" using u Inr True by (simp add: use_context_def)
    ultimately show ?thesis using saved_context_consistent [OF W registry_load_stored [OF Inr] ctx(2)] ok by blast
  qed (use u Inr ok in \<open>auto simp: use_context_def split: if_splits\<close>)
qed (use u ok in \<open>simp add: use_context_def\<close>)

lemma delete_consistent:
  assumes W: "writable_host H" and ok: "consistent m" and d: "delete_filesystem H name yes reply m = (res, m')"
  shows "consistent m'"
proof (cases "registry_load H m")
  case (Inr r)
  obtain ctx where ctx: "stored_context m = Some ctx" "owned r" "points_at r ctx" by (rule consistentE [OF ok Inr])
  have config: "\<not> isl (config_dir H)" by (rule load_config [OF Inr])
  show ?thesis
  proof (cases "filesystem_path r name")
    case (Some path)
    show ?thesis
    proof (cases "isl (confirmed name yes reply) \<or> (if path_exists m path then io_error H (RemoveFile path) else None) \<noteq> None")
      case False
      let ?m = "m\<lparr>disk := (disk m)(path := None)\<rparr>" and ?r = "remove_filesystem name r"
      let ?n = "?m\<lparr>registry_json := Stored ?r\<rparr>"
      obtain q m1 where q: "registry_save H ?r ?m = (q, m1)" by fastforce
      have "q = Inr ()" "m1 = ?n" using save_registry [OF W q] config by auto
      moreover obtain u where "confirmed name yes reply = Inr u" using False by (cases "confirmed name yes reply") auto
      ultimately have c: "clear_if_filesystem H name ?n = (res, m')"
        using d Inr Some False q by (simp add: delete_filesystem_def)
      have l: "context_load H ?n = Inr ctx"
        using context_loads [OF config, of ?n ctx] ctx(1) by (simp add: stored_context_def)
      have r: "stored_registry ?n = Some ?r" "owned ?r" using register_keeps(5) [OF ctx(2)] by (simp_all add: stored_registry_def)
      show ?thesis
      proof (cases "cl_filesystem ctx = Some name")
        case True
        with c l obtain "context_save H (ctx\<lparr>cl_filesystem := None, cl_workspace := None\<rparr>) ?n = (res, m')"
          by (simp add: clear_if_filesystem_def)
        from save_context [OF W this] config r show ?thesis
          by (auto simp: consistent_def stored_registry_def stored_context_def points_at_def)
      next
        case no: False
        with c l have "m' = ?n" by (simp add: clear_if_filesystem_def)
        with r register_keeps(6) [OF ctx(3) no] ctx(1) show ?thesis
          by (auto simp: consistent_def stored_context_def)
      qed
    qed (use d Inr Some ok in \<open>auto simp: delete_filesystem_def split: sum.splits option.splits if_splits\<close>)
  qed (use d Inr ok in \<open>simp add: delete_filesystem_def\<close>)
qed (use d ok in \<open>simp add: delete_filesystem_def\<close>)

subsection \<open>The first run\<close>

lemma entry_found:
  assumes "default_entry H m dir p r = Inr (r1, created)"
  shows "filesystem_path r1 DEFAULT_FILESYSTEM = Some p" "owned r \<Longrightarrow> owned r1" "points_at r c \<Longrightarrow> points_at r1 c"
    "created \<Longrightarrow> \<not> workspace_exists r1 DEFAULT_FILESYSTEM DEFAULT_WORKSPACE"
  using assms register_keeps
  by (auto simp: default_entry_def Let_def registered_filesystem registry_is_empty_def workspace_exists_def [of r]
      split: option.splits if_splits)

lemma default_workspace_cases:
  assumes "default_workspace H E p (r, created) m = (res, m')"
  obtains (stay) "res = Inr (r, created)" "m' = m" "workspace_exists r DEFAULT_FILESYSTEM DEFAULT_WORKSPACE"
  | (err) e d where "res = Inl e" "m' = m\<lparr>disk := d\<rparr>"
  | (new) s m1 k t where "open_database H p m = (Inr s, m1)" "create_workspace E workspace_options_default s = (Inr k, t)"
      "res = Inr (register_workspace DEFAULT_FILESYSTEM DEFAULT_WORKSPACE (wk_id k) r, True)" "m' = commit_tables p t m1"
proof -
  obtain q m1 where q: "open_database H p m = (q, m1)" by fastforce
  obtain d where m1: "m1 = m\<lparr>disk := d\<rparr>" using open_database_disk [OF q] by auto
  show thesis
  proof (cases "workspace_exists r DEFAULT_FILESYSTEM DEFAULT_WORKSPACE")
    case True
    with assms that(1) show ?thesis by (simp add: default_workspace_def)
  next
    case False
    show ?thesis
    proof (cases q)
      case (Inl e)
      with assms False q m1 that(2) show ?thesis by (auto simp: default_workspace_def)
    next
      case (Inr s)
      obtain x t where x: "create_workspace E workspace_options_default s = (x, t)" by fastforce
      show ?thesis
      proof (cases x)
        case (Inl e)
        obtain d' where "commit_tables p t m1 = m\<lparr>disk := d'\<rparr>"
          using commit_tables_disk [where path = p and s = t and m = m1] m1 by auto
        with assms False q Inr x Inl that(2) [of "err_message e" d'] show ?thesis by (simp add: default_workspace_def)
      next
        case k: (Inr k)
        with assms False q Inr x that(3) show ?thesis by (auto simp: default_workspace_def)
      qed
    qed
  qed
qed

text \<open>A bootstrap either stops with an error before it writes a state file, or writes both.\<close>

lemma bootstrap_cases:
  assumes W: "writable_host H" and b: "bootstrap H E m = (res, m')"
  obtains (stopped) e d where "res = Inl e" "m' = m\<lparr>disk := d\<rparr>"
  | (wrote) r dir r1 c1 r2 created m1 where
      "registry_load H m = Inr r" "data_dir H = Inr dir"
      "default_entry H m dir (path_join dir ''fslite.db'') r = Inr (r1, c1)"
      "default_workspace H E (path_join dir ''fslite.db'') (r1, c1) m = (Inr (r2, created), m1)"
      "res = Inr created" "m' = m1\<lparr>registry_json := Stored r2, context_json := Stored default_context\<rparr>"
proof (cases "andthen (registry_load H m) (\<lambda>r. andthen (data_dir H) (\<lambda>dir.
    andthen (default_entry H m dir (path_join dir ''fslite.db'') r) (\<lambda>entry. Inr (dir, entry))))")
  case (Inl e)
  with b that(1) [of e "disk m"] show ?thesis by (simp add: bootstrap_def)
next
  case (Inr x)
  then obtain r dir r1 c1 where x: "registry_load H m = Inr r" "data_dir H = Inr dir"
    "default_entry H m dir (path_join dir ''fslite.db'') r = Inr (r1, c1)" "x = (dir, r1, c1)"
    by (cases x) (auto simp: andthen_Inr)
  have config: "\<not> isl (config_dir H)" by (rule load_config [OF x(1)])
  obtain q m1 where q: "default_workspace H E (path_join dir ''fslite.db'') (r1, c1) m = (q, m1)" by fastforce
  show ?thesis
  proof (cases q)
    case e: (Inl e)
    from default_workspace_cases [OF q] e obtain d where "m1 = m\<lparr>disk := d\<rparr>" by (metis sum.distinct(1) sum.inject(1))
    with b Inr x q e that(1) [of e d] show ?thesis by (simp add: bootstrap_def)
  next
    case w: (Inr y)
    then obtain r2 created where y: "q = Inr (r2, created)" by (cases y) auto
    obtain z m2 where z: "registry_save H r2 m1 = (z, m2)" by fastforce
    with save_registry [OF W z] config have z2: "z = Inr ()" "m2 = m1\<lparr>registry_json := Stored r2\<rparr>" by auto
    obtain v m3 where v: "context_save H default_context m2 = (v, m3)" by fastforce
    with save_context [OF W v] config have v2: "v = Inr ()" "m3 = m2\<lparr>context_json := Stored default_context\<rparr>" by auto
    have "res = Inr created" "m' = m1\<lparr>registry_json := Stored r2, context_json := Stored default_context\<rparr>"
      using b Inr x q y z z2 v v2 by (simp_all add: bootstrap_def)
    with x q y that(2) show ?thesis by blast
  qed
qed

lemma workspace_registered:
  assumes "default_workspace H E p (r1, c1) m = (Inr (r2, created), m1)"
    and "filesystem_path r1 DEFAULT_FILESYSTEM = Some p"
  shows "filesystem_path r2 DEFAULT_FILESYSTEM = Some p" "workspace_exists r2 DEFAULT_FILESYSTEM DEFAULT_WORKSPACE"
    "owned r1 \<Longrightarrow> owned r2" "points_at r1 c \<Longrightarrow> points_at r2 c" "\<exists>d. m1 = m\<lparr>disk := d\<rparr>"
proof -
  have "filesystem_exists r1 DEFAULT_FILESYSTEM" using assms(2) by (auto simp: filesystem_exists_def filesystem_path_def)
  note keeps = register_keeps(3) [OF _ this] register_keeps(4)
  have "filesystem_path r2 DEFAULT_FILESYSTEM = Some p \<and> workspace_exists r2 DEFAULT_FILESYSTEM DEFAULT_WORKSPACE \<and>
      (owned r1 \<longrightarrow> owned r2) \<and> (points_at r1 c \<longrightarrow> points_at r2 c) \<and> (\<exists>d. m1 = m\<lparr>disk := d\<rparr>)"
    using assms(1)
  proof (cases rule: default_workspace_cases)
    case stay
    with assms(2) show ?thesis by (auto intro: exI [of _ "disk m"])
  next
    case (new s m' k t)
    obtain d where m': "m' = m\<lparr>disk := d\<rparr>" using open_database_disk [OF new(1)] by auto
    obtain d' where "commit_tables p t m' = m\<lparr>disk := d'\<rparr>"
      using commit_tables_disk [where path = p and s = t and m = m'] m' by auto
    with new assms(2) keeps show ?thesis by (auto simp: registered_workspace)
  qed simp
  then show "filesystem_path r2 DEFAULT_FILESYSTEM = Some p" "workspace_exists r2 DEFAULT_FILESYSTEM DEFAULT_WORKSPACE"
    "owned r1 \<Longrightarrow> owned r2" "points_at r1 c \<Longrightarrow> points_at r2 c" "\<exists>d. m1 = m\<lparr>disk := d\<rparr>" by blast+
qed

lemma bootstrap_consistent:
  assumes W: "writable_host H" and ok: "consistent m" and b: "bootstrap H E m = (res, m')"
  shows "consistent m'"
  using W b
proof (cases rule: bootstrap_cases)
  case (stopped e d)
  with ok show ?thesis by simp
next
  case (wrote r dir r1 c1 r2 created m1)
  obtain ctx where ctx: "owned r" by (rule consistentE [OF ok wrote(1)])
  note e = entry_found [OF wrote(3)]
  note w = workspace_registered [OF wrote(4) e(1)]
  have "points_at r2 default_context"
    using w(1,2) by (auto simp: points_at_def default_context_def filesystem_exists_def filesystem_path_def)
  with w(3) e(2) ctx wrote(6) show ?thesis
    by (auto simp: consistent_def stored_registry_def stored_context_def)
qed

lemma active_disk: "active_context_is_valid H m = (res, m') \<Longrightarrow> \<exists>d. m' = m\<lparr>disk := d\<rparr>"
proof -
  have r: "\<exists>d. n = n\<lparr>disk := d\<rparr>" for n :: machine by (rule exI [of _ "disk n"]) simp
  show "active_context_is_valid H m = (res, m') \<Longrightarrow> \<exists>d. m' = m\<lparr>disk := d\<rparr>"
    unfolding active_context_is_valid_def
    by (auto simp: r split: sum.splits option.splits if_splits prod.splits dest!: open_database_disk)
qed

lemma ensure_consistent:
  assumes W: "writable_host H" and ok: "consistent m" "consistent (others (snd (active_context_is_valid H m)))"
    and e: "ensure_default H E others m = (res, m')"
  shows "consistent m'"
proof -
  obtain q m1 where a: "active_context_is_valid H m = (q, m1)" by fastforce
  obtain q2 m2 where b: "active_context_is_valid H (others m1) = (q2, m2)" by fastforce
  obtain d d2 where m1: "m1 = m\<lparr>disk := d\<rparr>" and m2: "m2 = (others m1)\<lparr>disk := d2\<rparr>"
    using active_disk [OF a] active_disk [OF b] by blast
  have c: "consistent m1" "consistent m2" using ok a by (simp_all add: m1 m2)
  with e a b bootstrap_consistent [OF W c(2)] show ?thesis
    by (auto simp: ensure_default_def split: sum.splits bool.splits)
qed

text \<open>
  The machine as any sequence of the commands leaves it, from one without state files; commands on
  the file systems, other programs and the reports change the databases at will.
\<close>

inductive cli_reachable :: "host \<Rightarrow> ext \<Rightarrow> machine \<Rightarrow> bool" for H E where
  fresh: "registry_json m = Absent \<Longrightarrow> context_json m = Absent \<Longrightarrow> cli_reachable H E m"
| create: "cli_reachable H E m \<Longrightarrow> cli_reachable H E (snd (create_filesystem H E name path workspace_name m))"
| delete: "cli_reachable H E m \<Longrightarrow> cli_reachable H E (snd (delete_filesystem H name yes reply m))"
| use: "cli_reachable H E m \<Longrightarrow> cli_reachable H E (snd (use_context H name workspace_name m))"
| first_run: "cli_reachable H E m \<Longrightarrow> cli_reachable H E n \<Longrightarrow> cli_reachable H E (snd (ensure_default H E (\<lambda>_. n) m))"
| databases: "cli_reachable H E m \<Longrightarrow> cli_reachable H E (m\<lparr>disk := d\<rparr>)"

lemma reachable_consistent:
  assumes "writable_host H"
  shows "cli_reachable H E m \<Longrightarrow> consistent m"
proof (induction rule: cli_reachable.induct)
  case (fresh m)
  then show ?case
    by (simp add: consistent_def stored_registry_def stored_context_def owned_def points_at_def empty_registry_def empty_context_def)
next
  case (create m name path wname)
  then show ?case using create_consistent [OF assms] by (metis prod.collapse)
next
  case (delete m name yes reply)
  then show ?case using delete_consistent [OF assms] by (metis prod.collapse)
next
  case (use m name wname)
  then show ?case using use_consistent [OF assms] by (metis prod.collapse)
next
  case (first_run m n)
  then show ?case using ensure_consistent [OF assms, of m "\<lambda>_. n"] by (metis prod.collapse)
qed simp

subsection \<open>The first run settles\<close>

lemma new_workspace_usable:
  assumes "create_workspace E opts s = (Inr k, t)"
  shows "\<exists>u. fs_workspace_usage (cx_trusted (wk_id k)) t = Inr u"
proof -
  have "wk_id k \<in> w_id ` set (workspaces t)"
    using assms by (auto simp: create_workspace_def conn_call_def create_workspace_tx_def Let_def insert_workspace_def insert_node_def checked_Some new_id_def
        now_ms_def split: option.splits Option.bind_splits)
  then obtain row where "find (\<lambda>r. w_id r = wk_id k) (workspaces t) = Some row"
    by (cases "find (\<lambda>r. w_id r = wk_id k) (workspaces t)") (auto simp: find_None_iff)
  then show ?thesis
    by (simp add: fs_workspace_usage_def guard_query_def require_capability_def has_capability_def cx_trusted_def
        workspace_usage_op_def fetch_usage_def Let_def)
qed

lemma reopen:
  assumes "open_database H p m = (Inr s, m1)"
  shows "open_database H p (commit_tables p t m1) = (Inr t, commit_tables p t m1)" "path_exists (commit_tables p t m1) p"
proof -
  obtain f where f: "disk m1 p = Some (Database f)" "current_file f" "io_error H (OpenDatabase p) = None"
    using assms initialize_current
    by (fastforce simp: open_database_def Let_def split: option.splits disk_file.splits prod.splits sum.splits)
  have "initialize (f\<lparr>tables := t\<rparr>) = (Inr (), f\<lparr>tables := t\<rparr>)"
    using f(2) by (simp add: initialize_cases current_file_def latest_one read_current_version_def)
  with f show "open_database H p (commit_tables p t m1) = (Inr t, commit_tables p t m1)"
    by (simp add: open_database_def commit_tables_def)
  show "path_exists (commit_tables p t m1) p" using f(1) by (simp add: path_exists_def commit_tables_def)
qed

lemma open_database_cong:
  "disk n = disk m \<Longrightarrow> open_database H p n = (case open_database H p m of (r, k) \<Rightarrow> (r, n\<lparr>disk := disk k\<rparr>))"
  by (auto simp: open_database_def Let_def split: option.splits disk_file.splits prod.splits sum.splits)

lemma bootstrap_valid:
  assumes W: "writable_host H" and b: "bootstrap H E m = (Inr True, m')"
  shows "active_context_is_valid H m' = (Inr True, m')"
  using W b
proof (cases rule: bootstrap_cases)
  case (wrote r dir r1 c1 r2 created m1)
  let ?p = "path_join dir ''fslite.db''"
  have config: "\<not> isl (config_dir H)" by (rule load_config [OF wrote(1)])
  note e = entry_found [OF wrote(3)]
  note w = workspace_registered [OF wrote(4) e(1)]
  from wrote(4) show ?thesis
  proof (cases rule: default_workspace_cases)
    case stay
    with wrote(5) e(4) show ?thesis by auto
  next
    case (new s m2 k t)
    obtain u where u: "fs_workspace_usage (cx_trusted (wk_id k)) t = Inr u" using new_workspace_usable [OF new(2)] by blast
    have loads: "registry_load H m' = Inr r2" "context_load H m' = Inr default_context"
      using config wrote(6)
      by (cases "config_dir H"; simp add: registry_load_def context_load_def registry_path_def context_path_def)+
    have "open_database H ?p m' = (Inr t, m')" "path_exists m' ?p"
      using reopen [OF new(1), of t] open_database_cong [of m' m1 H ?p] new(4) wrote(6) by (simp_all add: path_exists_def)
    moreover have "resolve_workspace_name r2 DEFAULT_FILESYSTEM DEFAULT_WORKSPACE = Some (wk_id k)"
      using new(3) by (simp add: registered_workspace)
    ultimately show ?thesis
      using loads w(1) u by (simp add: active_context_is_valid_def default_context_def)
  qed simp
qed simp

lemma first_run_settles:
  assumes "writable_host H" "ensure_default H E others m = (Inr True, m')"
  shows "active_context_is_valid H m' = (Inr True, m')" "ensure_default H E others' m' = (Inr False, m')"
proof -
  obtain n where "bootstrap H E n = (Inr True, m')"
    using assms(2) by (auto simp: ensure_default_def split: sum.splits bool.splits prod.splits)
  then show v: "active_context_is_valid H m' = (Inr True, m')" by (rule bootstrap_valid [OF assms(1)])
  then show "ensure_default H E others' m' = (Inr False, m')" by (simp add: ensure_default_def)
qed

end
