(* ===== verification/Doctor_Facts.thy ===== *)
theory Doctor_Facts
  imports Cli_Facts
begin

text \<open>
  What the doctor's exit code says: it is zero exactly when the state files load and agree and every
  registered file system is sound. The state files are left alone, and so is every database that
  has a schema.
\<close>

definition context_ok :: "registry \<Rightarrow> cli_context \<Rightarrow> bool" where
  "context_ok r c \<longleftrightarrow>
     (case (cl_filesystem c, cl_workspace c) of
        (None, None) \<Rightarrow> True
      | (Some f, Some w) \<Rightarrow> workspace_exists r f w
      | _ \<Rightarrow> False)"

definition lock_ok :: "host \<Rightarrow> bool" where
  "lock_ok H \<longleftrightarrow> (\<forall>dir. config_dir H = Inr dir \<longrightarrow> lock_present H \<longrightarrow> io_error H (OpenLock (path_join dir ''bootstrap.lock'')) = None)"

definition writable_file :: "host \<Rightarrow> string \<Rightarrow> bool" where
  "writable_file H p \<longleftrightarrow> readonly H p = Some False"

definition sound :: "host \<Rightarrow> machine \<Rightarrow> registry \<Rightarrow> string \<Rightarrow> bool" where
  "sound H m r name \<longleftrightarrow>
     (\<exists>path s rows.
        filesystem_path r name = Some path \<and> path_exists m path \<and> fst (open_database H path m) = Inr s \<and>
        integrity_rows H path = Inr rows \<and> integrity_check rows = [] \<and>
        writable_file H path \<and> writable_file H (parent_dir path) \<and>
        (\<forall>w i. w \<in> set (workspace_names r name) \<longrightarrow> resolve_workspace_name r name w = Some i \<longrightarrow>
           i \<in> w_id ` set (workspaces s)))"

definition healthy :: "host \<Rightarrow> machine \<Rightarrow> bool" where
  "healthy H m \<longleftrightarrow>
     (\<exists>r c. registry_load H m = Inr r \<and> context_load H m = Inr c \<and> context_ok r c \<and> lock_ok H \<and>
        (\<forall>name \<in> set (filesystem_names r). sound H m r name))"

abbreviation fails :: "check_result \<Rightarrow> bool" where
  "fails c \<equiv> ck_status c = Fail"

lemma check_status_simps [simp]:
  "ck_status (check_pass a b d) = Pass" "ck_status (check_warn a b d) = Warn" "ck_status (check_fail a b d) = Fail"
  by (simp_all add: check_pass_def check_warn_def check_fail_def)

subsection \<open>Opening what is there\<close>

lemma usage_iff: "isl (fs_workspace_usage (cx_trusted i) s) \<longleftrightarrow> i \<notin> w_id ` set (workspaces s)"
proof -
  have "fetch_usage s i = None \<longleftrightarrow> i \<notin> w_id ` set (workspaces s)"
    by (auto simp: fetch_usage_def Let_def find_None_iff image_iff split: option.splits dest!: find_SomeD)
  then show ?thesis
    by (cases "fetch_usage s i") (auto simp: fs_workspace_usage_def guard_query_def require_capability_def
        has_capability_def cx_trusted_def workspace_usage_op_def)
qed

lemma initialize_twice:
  assumes "initialize f = (r, g)"
  shows "initialize g = (r, g)"
proof (cases r)
  case (Inl e)
  with assms have "g = f" by (auto simp: initialize_cases split: if_splits)
  with assms show ?thesis by simp
next
  case (Inr u)
  with initialize_current assms show ?thesis by blast
qed

text \<open>What an opening changes: at most the entry of a database without a schema.\<close>

definition kept :: "machine \<Rightarrow> machine \<Rightarrow> bool" where
  "kept m n \<longleftrightarrow>
     registry_json n = registry_json m \<and> context_json n = context_json m \<and>
     (\<forall>p. (disk n p = None \<longleftrightarrow> disk m p = None) \<and>
        (\<forall>f. disk m p = Some (Database f) \<longrightarrow> schema_versions f \<noteq> None \<longrightarrow> disk n p = Some (Database f)))"

lemma kept_refl: "kept m m"
  by (simp add: kept_def)

lemma kept_trans: "kept m n \<Longrightarrow> kept n k \<Longrightarrow> kept m k"
  by (simp add: kept_def)

lemma open_kept:
  assumes "path_exists m p" "open_database H p m = (q, n)"
  shows "kept m n" "fst (open_database H p' n) = fst (open_database H p' m)"
proof -
  show "kept m n"
    using assms initialize_keeps
    by (fastforce simp: kept_def path_exists_def open_database_def Let_def split: option.splits disk_file.splits prod.splits sum.splits if_splits)
  show "fst (open_database H p' n) = fst (open_database H p' m)"
  proof (cases "\<exists>f. disk m p = Some (Database f) \<and> io_error H (OpenDatabase p) = None")
    case True
    then obtain f where f: "disk m p = Some (Database f)" "io_error H (OpenDatabase p) = None" by blast
    obtain r g where g: "initialize f = (r, g)" by fastforce
    then have n: "n = m\<lparr>disk := (disk m)(p \<mapsto> Database g)\<rparr>"
      using assms(2) f by (auto simp: open_database_def Let_def split: sum.splits)
    show ?thesis
    proof (cases "p' = p")
      case True
      with f g initialize_twice [OF g] show ?thesis by (simp add: n open_database_def Let_def split: sum.splits)
    qed (auto simp: n open_database_def Let_def split: option.splits disk_file.splits prod.splits sum.splits)
  next
    case False
    with assms have "n = m"
      by (auto simp: path_exists_def open_database_def split: option.splits disk_file.splits)
    then show ?thesis by simp
  qed
qed

lemma sound_cong:
  assumes "path_exists m p" "open_database H p m = (q, n)"
  shows "sound H n r name = sound H m r name"
  using open_kept [OF assms] by (auto simp: sound_def kept_def path_exists_def)

subsection \<open>The checks\<close>

lemma writable_fails: "fails (check_writable H p scope) \<longleftrightarrow> \<not> (writable_file H p \<and> writable_file H (parent_dir p))"
  by (auto simp: check_writable_def writable_file_def Let_def split: option.splits)

lemma integrity_fails: "fails (check_integrity H fsys p) \<longleftrightarrow> \<not> (\<exists>rows. integrity_rows H p = Inr rows \<and> integrity_check rows = [])"
  by (auto simp: check_integrity_def split: sum.splits)

lemma workspace_fails:
  "list_ex fails (check_workspace H r fsys s w) \<longleftrightarrow>
    (\<exists>i. resolve_workspace_name r fsys w = Some i \<and> i \<notin> w_id ` set (workspaces s))"
proof (cases "resolve_workspace_name r fsys w")
  case (Some i)
  with usage_iff [of i s] show ?thesis
    by (cases "fs_workspace_usage (cx_trusted i) s") (simp_all add: check_workspace_def)
qed (simp add: check_workspace_def)

lemma schema_passes: "\<not> fails (check_schema fsys f)"
  by (simp add: check_schema_def)

lemma check_filesystem_fails:
  assumes "filesystem_path r name = Some p" "check_filesystem H r name m = (res, n)"
  shows "list_ex fails res \<longleftrightarrow> \<not> sound H m r name" "kept m n" "\<And>nm. sound H n r nm = sound H m r nm"
proof -
  obtain q k where o1: "open_database H p m = (q, k)" by fastforce
  have "(list_ex fails res \<longleftrightarrow> \<not> sound H m r name) \<and> (path_exists m p \<and> n = k \<or> n = m)"
  proof (cases "path_exists m p")
    case True
    show ?thesis
    proof (cases q)
      case (Inl e)
      with assms o1 True show ?thesis by (auto simp: check_filesystem_def sound_def)
    next
      case (Inr s)
      let ?v = "case disk k p of Some (Database f) \<Rightarrow> [check_schema name f] | _ \<Rightarrow> []"
      have v: "\<not> list_ex fails ?v" by (auto simp: schema_passes split: option.splits disk_file.splits)
      have res: "res = [check_pass ''database exists'' name p,
          check_pass ''database opens'' name ''opened successfully (schema migrated if needed)''] @ ?v @
          [check_integrity H name p, check_writable H p name] @
          concat (map (check_workspace H r name s) (workspace_names r name))" "n = k"
        using assms o1 True Inr by (auto simp: check_filesystem_def)
      have "list_ex fails (concat (map (check_workspace H r name s) ws)) \<longleftrightarrow>
          (\<exists>w i. w \<in> set ws \<and> resolve_workspace_name r name w = Some i \<and> i \<notin> w_id ` set (workspaces s))" for ws
        by (induction ws) (auto simp: workspace_fails)
      with v show ?thesis
        using assms(1) o1 True Inr by (auto simp: res sound_def writable_fails integrity_fails)
    qed
  next
    case False
    with assms show ?thesis by (auto simp: check_filesystem_def sound_def)
  qed
  then show "list_ex fails res \<longleftrightarrow> \<not> sound H m r name" "kept m n" "\<And>nm. sound H n r nm = sound H m r nm"
    using open_kept(1) [OF _ o1] sound_cong [OF _ o1] kept_refl by blast+
qed

lemma check_filesystems_fails:
  assumes "\<forall>name \<in> set names. filesystem_path r name \<noteq> None" "check_filesystems H r names m = (res, n)"
  shows "(list_ex fails res \<longleftrightarrow> (\<exists>name \<in> set names. \<not> sound H m r name)) \<and> kept m n"
  using assms
proof (induction names arbitrary: m res)
  case (Cons name names)
  obtain here k where h: "check_filesystem H r name m = (here, k)" by fastforce
  obtain there where t: "check_filesystems H r names k = (there, n)" "res = here @ there"
    using Cons.prems(2) h by (auto split: prod.splits)
  obtain p where p: "filesystem_path r name = Some p" using Cons.prems(1) by auto
  note c = check_filesystem_fails [OF p h]
  from Cons.IH [OF _ t(1)] Cons.prems(1) c t(2) show ?case by (auto intro: kept_trans)
qed (simp add: kept_refl)

lemma context_fails:
  "registry_load H m = Inr r \<Longrightarrow>
    fails (check_context H (Some r) m) \<longleftrightarrow> \<not> (\<exists>c. context_load H m = Inr c \<and> context_ok r c)"
  by (auto simp: check_context_def context_ok_def split: sum.splits option.splits)

lemma lock_fails: "\<not> isl (config_dir H) \<Longrightarrow> fails (check_bootstrap_lock H) \<longleftrightarrow> \<not> lock_ok H"
  by (cases "config_dir H") (auto simp: check_bootstrap_lock_def lock_ok_def Let_def split: option.splits)

lemma doctor_exit:
  assumes "doctor_run H m = (res, n)"
  shows "exit_code res = (if healthy H m then 0 else 1)" "kept m n"
proof -
  have "(list_ex fails res \<longleftrightarrow> \<not> healthy H m) \<and> kept m n"
  proof (cases "registry_load H m")
    case (Inl e)
    with assms show ?thesis by (auto simp: doctor_run_def check_registry_def healthy_def kept_refl)
  next
    case (Inr r)
    obtain more k where f: "check_filesystems H r (filesystem_names r) m = (more, k)" by fastforce
    have "\<forall>name \<in> set (filesystem_names r). filesystem_path r name \<noteq> None"
      by (auto simp: filesystem_names_def filesystem_path_def map_of_eq_None_iff)
    note c = check_filesystems_fails [OF this f]
    have "res = [check_pass ''registry.json'' ''global'' ''valid'', check_context H (Some r) m, check_bootstrap_lock H] @ more" "n = k"
      using assms Inr f by (auto simp: doctor_run_def check_registry_def)
    with c context_fails [OF Inr] lock_fails [OF load_config [OF Inr]] Inr show ?thesis
      by (auto simp: healthy_def)
  qed
  then show "exit_code res = (if healthy H m then 0 else 1)" "kept m n" by (simp_all add: exit_code_def)
qed

end
