(* ===== verification/Wire.thy ===== *)
theory Wire
  imports Local Render Grammar
begin

text \<open>
  The HTTP interface between \<open>fslite-command/src/remote.rs\<close> and \<open>fslite-server\<close>: requests and
  responses, and \<open>error.rs\<close>, \<open>range.rs\<close> and the query parameters of \<open>dto.rs\<close>. A body is bytes, or
  JSON text by its value. Of the answers, the types both sides derive \<open>Serialize\<close> and
  \<open>Deserialize\<close> for stand for themselves. A body of bytes arrives in one piece.
\<close>

datatype http_method = GET | HEAD | PUT | POST | PATCH | DELETE

datatype request_body = Bytes "byte list" | Json json

record http_request =
  rq_method :: http_method
  rq_url :: string
  rq_query :: "(string \<times> string) list"
  rq_range :: "string option"
  rq_authorization :: "string option"
  rq_body :: request_body

text \<open>\<open>SearchMatchDto\<close>: a search match with its preview as text.\<close>

record search_match_dto =
  smd_node :: node
  smd_path :: virtual_path
  smd_range :: byte_range
  smd_preview_base64 :: string

datatype response_body =
    NoPayload
  | NodePayload node
  | NodesPayload "node page"
  | TreePayload "tree_entry page"
  | UsagePayload workspace_usage
  | TrashPayload trash_entry
  | TrashListPayload "trash_entry page"
  | MatchesPayload "search_match_dto page"
  | ChangesPayload "change page"
  | BatchPayload "batch_result list"
  | TargetPayload string bool
  | WorkspacePayload uuid int u64 u64 u64
  | IdentityPayload uuid "capability list"
  | StatusPayload string
  | BytesPayload "byte list"
  | ErrorPayload string string json

record http_response =
  rs_status :: nat
  rs_content_range :: "string option"
  rs_payload :: response_body

subsection \<open>What the libraries do\<close>

text \<open>
  The route patterns of the server with what they capture, and the functions of the crates
  both sides call: the match of a URL against the patterns (\<open>url\<close>, \<open>axum\<close>), identifiers
  (\<open>uuid\<close>), base64, JSON text and the messages of failed conversions (\<open>serde_json\<close>,
  \<open>reqwest\<close>), the size of a body and the size an extractor buffers, and the name of a status.
\<close>

datatype route =
    Healthz
  | Readyz
  | Me
  | Workspaces
  | AtWorkspace string
  | AtUsage string
  | AtReset string
  | AtFs string string
  | AtDirectories string string
  | AtContent string string
  | AtTrash string
  | AtTrashEntry string string
  | AtRestore string string
  | AtGlob string
  | AtFind string
  | AtSearchContent string
  | AtChanges string
  | AtBatch string

record wire =
  w_match :: "string \<Rightarrow> route option"
  w_uuid :: "string \<Rightarrow> uuid option"
  w_encode :: "byte list \<Rightarrow> string"
  w_decode :: "string \<Rightarrow> string + byte list"
  w_json :: "byte list \<Rightarrow> string + json"
  w_shape_error :: "request_body \<Rightarrow> string"
  w_size :: "request_body \<Rightarrow> nat"
  w_body_limit :: nat
  w_text :: "json \<Rightarrow> byte list"
  w_decode_error :: "response_body \<Rightarrow> string"
  w_status_text :: "nat \<Rightarrow> string"

subsection \<open>Responses\<close>

definition success :: "http_response \<Rightarrow> bool" where
  "success r \<longleftrightarrow> 200 \<le> rs_status r \<and> rs_status r < 300"

definition respond :: "nat \<Rightarrow> response_body \<Rightarrow> http_response" where
  "respond status payload = \<lparr>rs_status = status, rs_content_range = None, rs_payload = payload\<rparr>"

subsection \<open>Errors\<close>

datatype api_error =
    Domain fs_error
  | Unauthenticated string
  | WorkspaceMismatch
  | MalformedBody string
  | RouteNotFound
  | MethodNotAllowed
  | PayloadTooLarge
  | Internal string

type_synonym 'a api_result = "api_error + 'a"

fun domain_status :: "error_code \<Rightarrow> nat" where
  "domain_status InvalidPathOrName = 400"
| "domain_status WorkspaceBoundaryViolation = 400"
| "domain_status InvalidCursor = 400"
| "domain_status PermissionDenied = 403"
| "domain_status NotFound = 404"
| "domain_status AlreadyExists = 409"
| "domain_status WrongNodeType = 409"
| "domain_status DirectoryNotEmpty = 409"
| "domain_status LinkLoop = 409"
| "domain_status BrokenLink = 409"
| "domain_status QuotaExceeded = 409"
| "domain_status RevisionConflict = 412"
| "domain_status InvalidRange = 416"
| "domain_status StorageBusy = 503"
| "domain_status InternalStorageFailure = 500"

fun code_str :: "error_code \<Rightarrow> string" where
  "code_str InvalidPathOrName = ''invalid_path_or_name''"
| "code_str NotFound = ''not_found''"
| "code_str AlreadyExists = ''already_exists''"
| "code_str WrongNodeType = ''wrong_node_type''"
| "code_str DirectoryNotEmpty = ''directory_not_empty''"
| "code_str LinkLoop = ''link_loop''"
| "code_str BrokenLink = ''broken_link''"
| "code_str WorkspaceBoundaryViolation = ''workspace_boundary_violation''"
| "code_str PermissionDenied = ''permission_denied''"
| "code_str RevisionConflict = ''revision_conflict''"
| "code_str QuotaExceeded = ''quota_exceeded''"
| "code_str InvalidRange = ''invalid_range''"
| "code_str InvalidCursor = ''invalid_cursor''"
| "code_str StorageBusy = ''storage_busy''"
| "code_str InternalStorageFailure = ''internal_storage_failure''"

definition error_response :: "api_error \<Rightarrow> http_response" where
  "error_response e =
     (case e of
        Domain err \<Rightarrow> respond (domain_status (err_code err)) (ErrorPayload (code_str (err_code err)) (err_message err) (err_details err))
      | Unauthenticated message \<Rightarrow> respond 401 (ErrorPayload ''unauthenticated'' message (JObject []))
      | WorkspaceMismatch \<Rightarrow> respond 403 (ErrorPayload ''workspace_mismatch'' ''credential does not authorize this workspace'' (JObject []))
      | MalformedBody message \<Rightarrow> respond 400 (ErrorPayload ''malformed_body'' message (JObject []))
      | RouteNotFound \<Rightarrow> respond 404 (ErrorPayload ''route_not_found'' ''no route matched this request'' (JObject []))
      | MethodNotAllowed \<Rightarrow> respond 405 (ErrorPayload ''method_not_allowed'' ''this route does not support this method'' (JObject []))
      | PayloadTooLarge \<Rightarrow> respond 413 (ErrorPayload ''payload_too_large'' ''request body exceeded the configured limit'' (JObject []))
      | Internal message \<Rightarrow> respond 500 (ErrorPayload ''internal'' message (JObject [])))"

text \<open>The names \<open>ErrorCode\<close> deserializes from: its variants in snake case.\<close>

definition error_code_names :: "(string \<times> error_code) list" where
  "error_code_names =
     [(''invalid_path_or_name'', InvalidPathOrName), (''not_found'', NotFound), (''already_exists'', AlreadyExists),
      (''wrong_node_type'', WrongNodeType), (''directory_not_empty'', DirectoryNotEmpty), (''link_loop'', LinkLoop),
      (''broken_link'', BrokenLink), (''workspace_boundary_violation'', WorkspaceBoundaryViolation),
      (''permission_denied'', PermissionDenied), (''revision_conflict'', RevisionConflict),
      (''quota_exceeded'', QuotaExceeded), (''invalid_range'', InvalidRange), (''invalid_cursor'', InvalidCursor),
      (''storage_busy'', StorageBusy), (''internal_storage_failure'', InternalStorageFailure)]"

definition code_from_str :: "string \<Rightarrow> error_code" where
  "code_from_str raw = (case map_of error_code_names raw of Some c \<Rightarrow> c | None \<Rightarrow> InternalStorageFailure)"

lemma code_round_trip: "code_from_str (code_str c) = c"
  by (cases c) (simp_all add: code_from_str_def error_code_names_def)

lemma domain_status_error: "\<not> success (respond (domain_status c) p)"
  by (cases c) (simp_all add: success_def respond_def)

subsection \<open>Numbers and booleans as text\<close>

definition parse_bool :: "string \<Rightarrow> bool option" where
  "parse_bool s = (if s = ''true'' then Some True else if s = ''false'' then Some False else None)"

definition bool_text :: "bool \<Rightarrow> string" where
  "bool_text b = (if b then ''true'' else ''false'')"

lemma parse_bool_text [simp]: "parse_bool (bool_text b) = Some b"
  by (simp add: parse_bool_def bool_text_def)

lemma digits_value_append:
  "digits_value acc (xs @ ys) = Option.bind (digits_value acc xs) (\<lambda>v. digits_value v ys)"
  by (induction xs arbitrary: acc) (auto split: option.splits)

lemma digit_value_char: "d < 10 \<Longrightarrow> digit_value (char_of (48 + d)) = Some d"
  by (simp add: digit_value_def Let_def)

lemma digits_value_show: "digits_value 0 (show_nat n) = Some n"
proof (induction n rule: show_nat.induct)
  case (1 n)
  show ?case
  proof (cases "n < 10")
    case True
    then show ?thesis by (subst show_nat.simps) (simp add: digit_value_char)
  next
    case False
    have "digit_value (char_of (48 + n mod 10)) = Some (n mod 10)" by (simp add: digit_value_char)
    with 1 False show ?thesis by (subst show_nat.simps) (simp add: digits_value_append)
  qed
qed

lemma show_nat_starts: "\<exists>d cs. d < (10 :: nat) \<and> show_nat n = char_of (48 + d) # cs"
proof (induction n rule: show_nat.induct)
  case (1 n)
  show ?case
  proof (cases "n < 10")
    case True
    then have "show_nat n = char_of (48 + n) # []" by (subst show_nat.simps) simp
    with True show ?thesis by blast
  next
    case False
    with 1 obtain d cs where "d < (10 :: nat)" "show_nat (n div 10) = char_of (48 + d) # cs" by blast
    moreover from False have "show_nat n = show_nat (n div 10) @ [char_of (48 + n mod 10)]"
      by (subst show_nat.simps) simp
    ultimately show ?thesis by auto
  qed
qed

lemma char_of_digit_sign:
  assumes "d < (10 :: nat)"
  shows "char_of (48 + d) \<noteq> CHR ''+''" "char_of (48 + d) \<noteq> CHR ''-''"
proof -
  have *: "char_of (48 + d) \<noteq> c" if "of_char c < (48 :: nat)" for c
  proof
    assume "char_of (48 + d) = c"
    then have "of_char c = (48 + d :: nat)" using assms by (auto simp flip: \<open>char_of (48 + d) = c\<close>)
    with that show False by simp
  qed
  show "char_of (48 + d) \<noteq> CHR ''+''" by (rule *) simp
  show "char_of (48 + d) \<noteq> CHR ''-''" by (rule *) simp
qed

lemma parse_uint_show: "n < 2 ^ bits \<Longrightarrow> parse_uint bits (show_nat n) = Some n"
proof -
  obtain d cs where s: "d < (10 :: nat)" "show_nat n = char_of (48 + d) # cs" using show_nat_starts [of n] by blast
  with digits_value_show [of n] char_of_digit_sign [OF s(1)]
  show "n < 2 ^ bits \<Longrightarrow> parse_uint bits (show_nat n) = Some n"
    by (simp add: parse_uint_def parse_digits_def)
qed

lemma parse_u64_show [simp]: "parse_u64 (show_u64 w) = Some w"
proof -
  have "unat w < 2 ^ 64" using unsigned_less [of w, where 'a = nat] by simp
  then have "parse_uint 64 (show_nat (unat w)) = Some (unat w)" by (rule parse_uint_show)
  then show ?thesis by (simp add: parse_u64_def show_u64_def)
qed

lemma parse_u32_show: "n < 2 ^ 32 \<Longrightarrow> parse_u32 (show_nat n) = Some n"
  by (simp add: parse_u32_def parse_uint_show)

subsection \<open>Query parameters\<close>

text \<open>A repeated key of the query string: the last one stays in the hash map.\<close>

type_synonym params = "string \<rightharpoonup> string"

definition params_of :: "(string \<times> string) list \<Rightarrow> params" where
  "params_of query = map_of (List.rev query)"

definition query_bool :: "params \<Rightarrow> string \<Rightarrow> bool \<Rightarrow> bool api_result" where
  "query_bool params key def =
     (case params key of
        None \<Rightarrow> Inr def
      | Some v \<Rightarrow> ok_or (MalformedBody (''query parameter `'' @ key @ ''` must be a boolean'')) (parse_bool v))"

definition query_u32 :: "params \<Rightarrow> string \<Rightarrow> nat \<Rightarrow> nat api_result" where
  "query_u32 params key def =
     (case params key of
        None \<Rightarrow> Inr def
      | Some v \<Rightarrow> ok_or (MalformedBody (''query parameter `'' @ key @ ''` must be a non-negative integer'')) (parse_u32 v))"

definition query_revision :: "params \<Rightarrow> revision option api_result" where
  "query_revision params =
     (case params ''expected_revision'' of
        None \<Rightarrow> Inr None
      | Some v \<Rightarrow>
          andthen (ok_or (MalformedBody ''expected_revision must be a positive integer'') (parse_u64 v)) (\<lambda>raw.
          andthen (ok_or (MalformedBody ''expected_revision must be nonzero'') (rev_new raw)) (\<lambda>r. Inr (Some r))))"

definition query_page :: "params \<Rightarrow> page_request api_result" where
  "query_page params =
     andthen (query_u32 params ''limit'' DEFAULT_PAGE_LIMIT) (\<lambda>limit.
     Inr \<lparr>pr_cursor = params ''cursor'', pr_limit = limit\<rparr>)"

subsection \<open>Ranges\<close>

datatype range_error = Malformed | MultiRangeUnsupported | Unsatisfiable

definition strip_prefix :: "string \<Rightarrow> string \<Rightarrow> string option" where
  "strip_prefix pat s = (if prefix pat s then Some (drop (length pat) s) else None)"

definition strip_suffix :: "string \<Rightarrow> string \<Rightarrow> string option" where
  "strip_suffix pat s = (if suffix pat s then Some (take (length s - length pat) s) else None)"

definition saturating_sub :: "u64 \<Rightarrow> u64 \<Rightarrow> u64" where
  "saturating_sub a b = (if b \<le> a then a - b else 0)"

definition saturating_add :: "u64 \<Rightarrow> u64 \<Rightarrow> u64" where
  "saturating_add a b = (if unat a + unat b < 2 ^ 64 then a + b else - 1)"

definition resolve_range :: "string \<Rightarrow> u64 \<Rightarrow> range_error + byte_range" where
  "resolve_range header logical_size =
     andthen (ok_or Malformed (strip_prefix ''bytes='' header)) (\<lambda>spec.
     if CHR '','' \<in> set spec then Inl MultiRangeUnsupported
     else andthen (ok_or Malformed (split_once CHR ''-'' spec)) (\<lambda>(start_str, end_str).
       if start_str = '''' then
         andthen (ok_or Malformed (parse_u64 end_str)) (\<lambda>suffix_len.
         if suffix_len = 0 then Inl Malformed
         else Inr (br_new (saturating_sub logical_size suffix_len) logical_size))
       else
         andthen (ok_or Malformed (parse_u64 start_str)) (\<lambda>start.
         if start \<ge> logical_size then Inl Unsatisfiable
         else andthen (if end_str = '''' then Inr logical_size
               else andthen (ok_or Malformed (parse_u64 end_str)) (\<lambda>inclusive_end.
                 if inclusive_end < start then Inl Malformed
                 else Inr (min (saturating_add inclusive_end 1) logical_size))) (\<lambda>stop.
           Inr (br_new start stop)))))"

end
