(* ===== verification/Wire_Json.thy ===== *)
theory Wire_Json
  imports Wire "HOL-Library.AList" "HOL-Library.Monad_Syntax"
begin

text \<open>
  The JSON of request bodies: what \<open>serde\<close> derives for the structures of the server's routes, for
  \<open>FindQuery\<close> and for \<open>BatchOperation\<close>, and the defaults \<open>routes/search.rs\<close> and
  \<open>routes/batch.rs\<close> fill in for missing keys. The entries of an object have distinct keys.
\<close>

subsection \<open>Fields\<close>

fun json_bool :: "json \<Rightarrow> bool option" where
  "json_bool (JBool b) = Some b"
| "json_bool _ = None"

fun json_string :: "json \<Rightarrow> string option" where
  "json_string (JString s) = Some s"
| "json_string _ = None"

fun json_u64 :: "json \<Rightarrow> u64 option" where
  "json_u64 (JNumber t) = parse_u64 t"
| "json_u64 _ = None"

fun json_u32 :: "json \<Rightarrow> nat option" where
  "json_u32 (JNumber t) = parse_u32 t"
| "json_u32 _ = None"

fun json_i64 :: "json \<Rightarrow> int option" where
  "json_i64 (JNumber t) = parse_i64 t"
| "json_i64 _ = None"

fun json_u8 :: "json \<Rightarrow> byte option" where
  "json_u8 (JNumber t) = map_option of_nat (parse_uint 8 t)"
| "json_u8 _ = None"

fun json_object :: "json \<Rightarrow> (string \<times> json) list option" where
  "json_object (JObject fs) = Some fs"
| "json_object _ = None"

definition ok_option :: "'e + 'a \<Rightarrow> 'a option" where
  "ok_option r = (case r of Inl _ \<Rightarrow> None | Inr x \<Rightarrow> Some x)"

definition json_path :: "json \<Rightarrow> virtual_path option" where
  "json_path j = Option.bind (json_string j) (\<lambda>s. ok_option (vp_parse s))"

definition json_target :: "json \<Rightarrow> link_target option" where
  "json_target j = Option.bind (json_string j) (\<lambda>s. ok_option (lt_parse s))"

fun json_bytes :: "json \<Rightarrow> byte list option" where
  "json_bytes (JArray items) = those (map json_u8 items)"
| "json_bytes _ = None"

text \<open>A required field, one of type \<open>Option\<close>, and one with \<open>serde(default)\<close>.\<close>

definition field :: "(json \<Rightarrow> 'a option) \<Rightarrow> (string \<times> json) list \<Rightarrow> string \<Rightarrow> 'a option" where
  "field f fs key = Option.bind (map_of fs key) f"

fun nullable :: "(json \<Rightarrow> 'a option) \<Rightarrow> json \<Rightarrow> 'a option option" where
  "nullable f JNull = Some None"
| "nullable f j = map_option Some (f j)"

definition field_opt :: "(json \<Rightarrow> 'a option) \<Rightarrow> (string \<times> json) list \<Rightarrow> string \<Rightarrow> 'a option option" where
  "field_opt f fs key = (case map_of fs key of None \<Rightarrow> Some None | Some j \<Rightarrow> nullable f j)"

definition field_or :: "'a \<Rightarrow> (json \<Rightarrow> 'a option) \<Rightarrow> (string \<times> json) list \<Rightarrow> string \<Rightarrow> 'a option" where
  "field_or def f fs key = (case map_of fs key of None \<Rightarrow> Some def | Some j \<Rightarrow> f j)"

subsection \<open>What is sent\<close>

definition of_u64 :: "u64 \<Rightarrow> json" where
  "of_u64 n = JNumber (show_u64 n)"

definition of_option :: "('a \<Rightarrow> json) \<Rightarrow> 'a option \<Rightarrow> json" where
  "of_option f x = (case x of None \<Rightarrow> JNull | Some v \<Rightarrow> f v)"

definition of_revision :: "revision option \<Rightarrow> json" where
  "of_revision = of_option (\<lambda>r. of_u64 (rev_get r))"

definition of_path :: "virtual_path \<Rightarrow> json" where
  "of_path p = JString (as_str p)"

definition of_bytes :: "byte list \<Rightarrow> json" where
  "of_bytes bytes = JArray (map (\<lambda>b. JNumber (show_nat (unat b))) bytes)"

definition of_i64 :: "int \<Rightarrow> json" where
  "of_i64 i = JNumber (show_int i)"

lemma nullable_of_option [simp]:
  "(\<And>v. x = Some v \<Longrightarrow> f (g v) = Some v \<and> g v \<noteq> JNull) \<Longrightarrow> nullable f (of_option g x) = Some x"
proof (cases x)
  case (Some v)
  moreover assume "\<And>v. x = Some v \<Longrightarrow> f (g v) = Some v \<and> g v \<noteq> JNull"
  ultimately have "f (g v) = Some v" "g v \<noteq> JNull" by auto
  with Some show ?thesis by (cases "g v") (auto simp: of_option_def)
qed (simp add: of_option_def)

lemma json_u64_of [simp]: "json_u64 (of_u64 n) = Some n" "of_u64 n \<noteq> JNull"
  by (simp_all add: of_u64_def)

lemma json_u8_of [simp]: "json_u8 (JNumber (show_nat (unat (b :: byte)))) = Some b"
proof -
  have "unat b < 2 ^ 8" using unsigned_less [of b, where 'a = nat] by simp
  then have "parse_uint 8 (show_nat (unat b)) = Some (unat b)" by (rule parse_uint_show)
  then show ?thesis by simp
qed

lemma json_bytes_of [simp]: "json_bytes (of_bytes bytes) = Some bytes"
  unfolding of_bytes_def by (induction bytes) (auto simp del: json_u8.simps)

lemma json_path_of [simp]: "canonical p \<Longrightarrow> json_path (of_path p) = Some p" "of_path p \<noteq> JNull"
  by (simp_all add: json_path_def of_path_def ok_option_def vp_parse_as_str)

lemma json_target_of [simp]: "valid_target t \<Longrightarrow> json_target (JString (target_str t)) = Some t"
  by (simp add: json_target_def ok_option_def valid_target_def)

lemma parse_i64_show: "- (2 ^ 63) \<le> i \<Longrightarrow> i < 2 ^ 63 \<Longrightarrow> parse_i64 (show_int i) = Some i"
proof (cases "i < 0")
  case True
  assume "- (2 ^ 63) \<le> i"
  with True have "nat (- i) \<le> 2 ^ 63" by simp
  moreover have "show_nat (nat (- i)) \<noteq> []" using show_nat_starts [of "nat (- i)"] by auto
  ultimately show ?thesis using True digits_value_show [of "nat (- i)"]
    by (simp add: parse_i64_def show_int_def parse_digits_def)
next
  case False
  assume "i < 2 ^ 63"
  with False have "nat i < 2 ^ 63" by simp
  then have "parse_uint 63 (show_nat (nat i)) = Some (nat i)" by (rule parse_uint_show)
  moreover obtain d cs where "d < (10 :: nat)" "show_nat (nat i) = char_of (48 + d) # cs"
    using show_nat_starts [of "nat i"] by blast
  ultimately show ?thesis using False char_of_digit_sign [of d]
    by (simp add: parse_i64_def show_int_def)
qed

lemma json_i64_of [simp]: "- (2 ^ 63) \<le> i \<Longrightarrow> i < 2 ^ 63 \<Longrightarrow> json_i64 (of_i64 i) = Some i" "of_i64 i \<noteq> JNull"
  by (simp_all add: of_i64_def parse_i64_show)

subsection \<open>Request bodies\<close>

definition from_slice :: "wire \<Rightarrow> (json \<Rightarrow> 'a option) \<Rightarrow> request_body \<Rightarrow> string + 'a" where
  "from_slice W f body =
     andthen (case body of Json j \<Rightarrow> Inr j | Bytes bytes \<Rightarrow> w_json W bytes) (\<lambda>j.
     ok_or (w_shape_error W body) (f j))"

record mkdir_body =
  mb_parents :: bool
  mb_exist_ok :: bool
  mb_expected_revision :: "u64 option"

definition mkdir_body_of :: "json \<Rightarrow> mkdir_body option" where
  "mkdir_body_of j = do {
     fs \<leftarrow> json_object j;
     parents \<leftarrow> field_or False json_bool fs ''parents'';
     exist_ok \<leftarrow> field_or False json_bool fs ''exist_ok'';
     expected \<leftarrow> field_opt json_u64 fs ''expected_revision'';
     Some \<lparr>mb_parents = parents, mb_exist_ok = exist_ok, mb_expected_revision = expected\<rparr>}"

record symlink_body =
  sb_target :: string
  sb_parents :: bool
  sb_exist_ok :: bool
  sb_expected_revision :: "u64 option"

definition symlink_body_of :: "json \<Rightarrow> symlink_body option" where
  "symlink_body_of j = do {
     fs \<leftarrow> json_object j;
     target \<leftarrow> field json_string fs ''target'';
     parents \<leftarrow> field_or False json_bool fs ''parents'';
     exist_ok \<leftarrow> field_or False json_bool fs ''exist_ok'';
     expected \<leftarrow> field_opt json_u64 fs ''expected_revision'';
     Some \<lparr>sb_target = target, sb_parents = parents, sb_exist_ok = exist_ok, sb_expected_revision = expected\<rparr>}"

record action_body =
  ab_to :: "string option"
  ab_recursive :: bool
  ab_overwrite :: bool
  ab_expected_revision :: "u64 option"

definition action_body_of :: "json \<Rightarrow> action_body option" where
  "action_body_of j = do {
     fs \<leftarrow> json_object j;
     to_path \<leftarrow> field_opt json_string fs ''to'';
     recursive \<leftarrow> field_or False json_bool fs ''recursive'';
     overwrite \<leftarrow> field_or False json_bool fs ''overwrite'';
     expected \<leftarrow> field_opt json_u64 fs ''expected_revision'';
     Some \<lparr>ab_to = to_path, ab_recursive = recursive, ab_overwrite = overwrite, ab_expected_revision = expected\<rparr>}"

datatype patch_body =
    PatchTouch bool "u64 option"
  | PatchSetAttribute string string "u64 option"
  | PatchRemoveAttribute string "u64 option"

definition patch_body_of :: "json \<Rightarrow> patch_body option" where
  "patch_body_of j = do {
     fs \<leftarrow> json_object j;
     tag \<leftarrow> field json_string fs ''op'';
     (if tag = ''touch'' then do {
        create \<leftarrow> field_or False json_bool fs ''create'';
        expected \<leftarrow> field_opt json_u64 fs ''expected_revision'';
        Some (PatchTouch create expected)}
      else if tag = ''set_attribute'' then do {
        key \<leftarrow> field json_string fs ''key'';
        val \<leftarrow> field json_string fs ''value_base64'';
        expected \<leftarrow> field_opt json_u64 fs ''expected_revision'';
        Some (PatchSetAttribute key val expected)}
      else if tag = ''remove_attribute'' then do {
        key \<leftarrow> field json_string fs ''key'';
        expected \<leftarrow> field_opt json_u64 fs ''expected_revision'';
        Some (PatchRemoveAttribute key expected)}
      else None)}"

record truncate_body =
  tb_length :: u64
  tb_expected_revision :: "u64 option"

definition truncate_body_of :: "json \<Rightarrow> truncate_body option" where
  "truncate_body_of j = do {
     fs \<leftarrow> json_object j;
     len \<leftarrow> field json_u64 fs ''length'';
     expected \<leftarrow> field_opt json_u64 fs ''expected_revision'';
     Some \<lparr>tb_length = len, tb_expected_revision = expected\<rparr>}"

record restore_body =
  rb_destination :: "string option"
  rb_expected_revision :: "u64 option"

definition restore_body_of :: "json \<Rightarrow> restore_body option" where
  "restore_body_of j = do {
     fs \<leftarrow> json_object j;
     destination \<leftarrow> field_opt json_string fs ''destination'';
     expected \<leftarrow> field_opt json_u64 fs ''expected_revision'';
     Some \<lparr>rb_destination = destination, rb_expected_revision = expected\<rparr>}"

text \<open>\<open>PageRequestDto\<close> and its conversion.\<close>

definition page_request_dto_of :: "json \<Rightarrow> page_request option" where
  "page_request_dto_of j = do {
     fs \<leftarrow> json_object j;
     cursor \<leftarrow> field_opt json_string fs ''cursor'';
     limit \<leftarrow> field_opt json_u32 fs ''limit'';
     Some \<lparr>pr_cursor = cursor, pr_limit = (case limit of None \<Rightarrow> DEFAULT_PAGE_LIMIT | Some l \<Rightarrow> l)\<rparr>}"

definition backfill :: "(string \<times> json) list \<Rightarrow> (string \<times> json) list \<Rightarrow> (string \<times> json) list" where
  "backfill fs defaults = fs @ filter (\<lambda>(key, _). key \<notin> set (map fst fs)) defaults"

subsection \<open>Find queries\<close>

fun kind_name :: "node_kind \<Rightarrow> string" where
  "kind_name Directory = ''directory''"
| "kind_name File = ''file''"
| "kind_name Symlink = ''symlink''"

fun json_kind :: "json \<Rightarrow> node_kind option" where
  "json_kind (JString t) = map_of [(''directory'', Directory), (''file'', File), (''symlink'', Symlink)] t"
| "json_kind _ = None"

definition find_query_json :: "find_query \<Rightarrow> json" where
  "find_query_json q = JObject
     [(''root'', of_path (fq_root q)),
      (''name_contains'', of_option JString (fq_name_contains q)),
      (''kind'', of_option (\<lambda>k. JString (kind_name k)) (fq_kind q)),
      (''min_logical_size'', of_option of_u64 (fq_min_logical_size q)),
      (''max_logical_size'', of_option of_u64 (fq_max_logical_size q)),
      (''modified_after_ms'', of_option of_i64 (fq_modified_after_ms q)),
      (''modified_before_ms'', of_option of_i64 (fq_modified_before_ms q)),
      (''attributes'', JObject (fq_attributes q))]"

definition find_query_of :: "json \<Rightarrow> find_query option" where
  "find_query_of j = do {
     fs \<leftarrow> json_object j;
     root \<leftarrow> field json_path fs ''root'';
     name_contains \<leftarrow> field_opt json_string fs ''name_contains'';
     kind \<leftarrow> field_opt json_kind fs ''kind'';
     min_size \<leftarrow> field_opt json_u64 fs ''min_logical_size'';
     max_size \<leftarrow> field_opt json_u64 fs ''max_logical_size'';
     after_ms \<leftarrow> field_opt json_i64 fs ''modified_after_ms'';
     before_ms \<leftarrow> field_opt json_i64 fs ''modified_before_ms'';
     attributes \<leftarrow> field json_object fs ''attributes'';
     Some \<lparr>fq_root = root, fq_name_contains = name_contains, fq_kind = kind,
           fq_min_logical_size = min_size, fq_max_logical_size = max_size,
           fq_modified_after_ms = after_ms, fq_modified_before_ms = before_ms, fq_attributes = attributes\<rparr>}"

definition deserialize_find_query :: "json \<Rightarrow> find_query option" where
  "deserialize_find_query j =
     find_query_of
       (case (j, find_query_json find_query_default) of
          (JObject fs, JObject defaults) \<Rightarrow> JObject (backfill fs defaults)
        | _ \<Rightarrow> j)"

definition find_request_of :: "json \<Rightarrow> (find_query \<times> page_request) option" where
  "find_request_of j = do {
     fs \<leftarrow> json_object j;
     query \<leftarrow> field deserialize_find_query fs ''query'';
     page \<leftarrow> field_or page_request_default page_request_dto_of fs ''page'';
     Some (query, page)}"

text \<open>\<open>SearchContentRequest\<close>; the needle is still base64 text.\<close>

definition search_content_request_of :: "json \<Rightarrow> (virtual_path \<times> string \<times> page_request) option" where
  "search_content_request_of j = do {
     fs \<leftarrow> json_object j;
     root \<leftarrow> field json_path fs ''root'';
     needle \<leftarrow> field json_string fs ''needle_base64'';
     page \<leftarrow> field_or page_request_default page_request_dto_of fs ''page'';
     Some (root, needle, page)}"

subsection \<open>Batches\<close>

fun options_json :: "(string \<times> bool) list \<Rightarrow> revision option \<Rightarrow> json" where
  "options_json bools expected = JObject (map (\<lambda>(k, b). (k, JBool b)) bools @ [(''expected_revision'', of_revision expected)])"

definition create_options_json :: "create_options \<Rightarrow> json" where
  "create_options_json p = options_json [(''parents'', co_parents p), (''exist_ok'', co_exist_ok p)] (co_expected_revision p)"

definition touch_options_json :: "touch_options \<Rightarrow> json" where
  "touch_options_json p = options_json [(''create'', tco_create p)] (tco_expected_revision p)"

definition copy_options_json :: "copy_options \<Rightarrow> json" where
  "copy_options_json p = options_json [(''recursive'', cpo_recursive p), (''overwrite'', cpo_overwrite p)] (cpo_expected_revision p)"

definition move_options_json :: "move_options \<Rightarrow> json" where
  "move_options_json p = options_json [(''overwrite'', mvo_overwrite p)] (mvo_expected_revision p)"

definition remove_options_json :: "remove_options \<Rightarrow> json" where
  "remove_options_json p = options_json [(''recursive'', rmo_recursive p)] (rmo_expected_revision p)"

definition mutation_options_json :: "mutation_options \<Rightarrow> json" where
  "mutation_options_json p = options_json [] (mo_expected_revision p)"

fun operation_json :: "batch_operation \<Rightarrow> json" where
  "operation_json (BMkdir path p) = JObject [(''mkdir'', JObject [(''path'', of_path path), (''options'', create_options_json p)])]"
| "operation_json (BTouch path p) = JObject [(''touch'', JObject [(''path'', of_path path), (''options'', touch_options_json p)])]"
| "operation_json (BCopy from_path to_path p) =
     JObject [(''copy'', JObject [(''from'', of_path from_path), (''to'', of_path to_path), (''options'', copy_options_json p)])]"
| "operation_json (BMove from_path to_path p) =
     JObject [(''move'', JObject [(''from'', of_path from_path), (''to'', of_path to_path), (''options'', move_options_json p)])]"
| "operation_json (BRemove path p) = JObject [(''remove'', JObject [(''path'', of_path path), (''options'', remove_options_json p)])]"
| "operation_json (BSymlink target link p) =
     JObject [(''symlink'', JObject [(''target'', JString (target_str target)), (''link'', of_path link), (''options'', create_options_json p)])]"
| "operation_json (BTrash path p) = JObject [(''trash'', JObject [(''path'', of_path path), (''options'', mutation_options_json p)])]"
| "operation_json (BRestore tid dest p) =
     JObject [(''restore'', JObject [(''trash'', JString tid), (''destination'', of_option of_path dest), (''options'', mutation_options_json p)])]"
| "operation_json (BPurge tid) = JObject [(''purge'', JObject [(''trash'', JString tid)])]"
| "operation_json (BSetAttribute path key val p) =
     JObject [(''set_attribute'', JObject [(''path'', of_path path), (''key'', JString key), (''value'', of_bytes val), (''options'', mutation_options_json p)])]"
| "operation_json (BRemoveAttribute path key p) =
     JObject [(''remove_attribute'', JObject [(''path'', of_path path), (''key'', JString key), (''options'', mutation_options_json p)])]"

definition expected_of :: "(string \<times> json) list \<Rightarrow> revision option option" where
  "expected_of fs = field_opt (\<lambda>j. map_option Revision (json_u64 j)) fs ''expected_revision''"

definition create_options_of :: "json \<Rightarrow> create_options option" where
  "create_options_of j = do {
     fs \<leftarrow> json_object j;
     parents \<leftarrow> field json_bool fs ''parents'';
     exist_ok \<leftarrow> field json_bool fs ''exist_ok'';
     expected \<leftarrow> expected_of fs;
     Some \<lparr>co_parents = parents, co_exist_ok = exist_ok, co_expected_revision = expected\<rparr>}"

definition touch_options_of :: "json \<Rightarrow> touch_options option" where
  "touch_options_of j = do {
     fs \<leftarrow> json_object j;
     create \<leftarrow> field json_bool fs ''create'';
     expected \<leftarrow> expected_of fs;
     Some \<lparr>tco_create = create, tco_expected_revision = expected\<rparr>}"

definition copy_options_of :: "json \<Rightarrow> copy_options option" where
  "copy_options_of j = do {
     fs \<leftarrow> json_object j;
     recursive \<leftarrow> field json_bool fs ''recursive'';
     overwrite \<leftarrow> field json_bool fs ''overwrite'';
     expected \<leftarrow> expected_of fs;
     Some \<lparr>cpo_recursive = recursive, cpo_overwrite = overwrite, cpo_expected_revision = expected\<rparr>}"

definition move_options_of :: "json \<Rightarrow> move_options option" where
  "move_options_of j = do {
     fs \<leftarrow> json_object j;
     overwrite \<leftarrow> field json_bool fs ''overwrite'';
     expected \<leftarrow> expected_of fs;
     Some \<lparr>mvo_overwrite = overwrite, mvo_expected_revision = expected\<rparr>}"

definition remove_options_of :: "json \<Rightarrow> remove_options option" where
  "remove_options_of j = do {
     fs \<leftarrow> json_object j;
     recursive \<leftarrow> field json_bool fs ''recursive'';
     expected \<leftarrow> expected_of fs;
     Some \<lparr>rmo_recursive = recursive, rmo_expected_revision = expected\<rparr>}"

definition mutation_options_of :: "json \<Rightarrow> mutation_options option" where
  "mutation_options_of j = do {
     fs \<leftarrow> json_object j;
     expected \<leftarrow> expected_of fs;
     Some \<lparr>mo_expected_revision = expected\<rparr>}"

definition json_uuid :: "wire \<Rightarrow> json \<Rightarrow> uuid option" where
  "json_uuid W j = Option.bind (json_string j) (w_uuid W)"

definition tagged_operation :: "wire \<Rightarrow> string \<Rightarrow> (string \<times> json) list \<Rightarrow> batch_operation option" where
  "tagged_operation W tag fs =
     (if tag = ''mkdir'' then do {
        path \<leftarrow> field json_path fs ''path''; p \<leftarrow> field create_options_of fs ''options''; Some (BMkdir path p)}
      else if tag = ''touch'' then do {
        path \<leftarrow> field json_path fs ''path''; p \<leftarrow> field touch_options_of fs ''options''; Some (BTouch path p)}
      else if tag = ''copy'' then do {
        from_path \<leftarrow> field json_path fs ''from''; to_path \<leftarrow> field json_path fs ''to'';
        p \<leftarrow> field copy_options_of fs ''options''; Some (BCopy from_path to_path p)}
      else if tag = ''move'' then do {
        from_path \<leftarrow> field json_path fs ''from''; to_path \<leftarrow> field json_path fs ''to'';
        p \<leftarrow> field move_options_of fs ''options''; Some (BMove from_path to_path p)}
      else if tag = ''remove'' then do {
        path \<leftarrow> field json_path fs ''path''; p \<leftarrow> field remove_options_of fs ''options''; Some (BRemove path p)}
      else if tag = ''symlink'' then do {
        target \<leftarrow> field json_target fs ''target''; link \<leftarrow> field json_path fs ''link'';
        p \<leftarrow> field create_options_of fs ''options''; Some (BSymlink target link p)}
      else if tag = ''trash'' then do {
        path \<leftarrow> field json_path fs ''path''; p \<leftarrow> field mutation_options_of fs ''options''; Some (BTrash path p)}
      else if tag = ''restore'' then do {
        tid \<leftarrow> field (json_uuid W) fs ''trash''; dest \<leftarrow> field_opt json_path fs ''destination'';
        p \<leftarrow> field mutation_options_of fs ''options''; Some (BRestore tid dest p)}
      else if tag = ''purge'' then do {
        tid \<leftarrow> field (json_uuid W) fs ''trash''; Some (BPurge tid)}
      else if tag = ''set_attribute'' then do {
        path \<leftarrow> field json_path fs ''path''; key \<leftarrow> field json_string fs ''key'';
        val \<leftarrow> field json_bytes fs ''value''; p \<leftarrow> field mutation_options_of fs ''options'';
        Some (BSetAttribute path key val p)}
      else if tag = ''remove_attribute'' then do {
        path \<leftarrow> field json_path fs ''path''; key \<leftarrow> field json_string fs ''key'';
        p \<leftarrow> field mutation_options_of fs ''options''; Some (BRemoveAttribute path key p)}
      else None)"

fun operation_of :: "wire \<Rightarrow> json \<Rightarrow> batch_operation option" where
  "operation_of W (JObject [(tag, inner)]) = Option.bind (json_object inner) (tagged_operation W tag)"
| "operation_of W _ = None"

definition default_options_json :: "string \<Rightarrow> json option" where
  "default_options_json tag =
     (if tag \<in> set [''mkdir'', ''symlink''] then Some (create_options_json create_options_default)
      else if tag = ''touch'' then Some (touch_options_json touch_options_default)
      else if tag = ''copy'' then Some (copy_options_json copy_options_default)
      else if tag = ''move'' then Some (move_options_json move_options_default)
      else if tag = ''remove'' then Some (remove_options_json remove_options_default)
      else if tag \<in> set [''trash'', ''restore'', ''set_attribute'', ''remove_attribute'']
        then Some (mutation_options_json mutation_options_default)
      else None)"

definition fill_options :: "json \<Rightarrow> json" where
  "fill_options op =
     (case op of
        JObject ((tag, JObject inner) # rest) \<Rightarrow>
          (case (map_of inner ''options'', default_options_json tag) of
             (Some (JObject opts), Some (JObject defaults)) \<Rightarrow>
               JObject ((tag, JObject (AList.update ''options'' (JObject (backfill opts defaults)) inner)) # rest)
           | _ \<Rightarrow> op)
      | _ \<Rightarrow> op)"

definition deserialize_operations :: "wire \<Rightarrow> json \<Rightarrow> batch_operation list option" where
  "deserialize_operations W j =
     (case j of JArray items \<Rightarrow> those (map (\<lambda>op. operation_of W (fill_options op)) items) | _ \<Rightarrow> None)"

definition batch_request_of :: "wire \<Rightarrow> json \<Rightarrow> batch_operation list option" where
  "batch_request_of W j = do {
     fs \<leftarrow> json_object j;
     field (deserialize_operations W) fs ''operations''}"

subsection \<open>What is sent is what is read\<close>

lemma expected_of_json [simp]:
  "field_opt json_u64 [(''expected_revision'', of_revision r)] ''expected_revision'' = Some (map_option rev_get r)"
  by (cases r) (simp_all add: field_opt_def of_revision_def of_option_def of_u64_def)

lemma nullable_revision [simp]:
  "nullable json_u64 (of_revision r) = Some (map_option rev_get r)"
  "nullable (\<lambda>j. map_option Revision (json_u64 j)) (of_revision r) = Some r"
  by (cases r; simp add: of_revision_def of_option_def of_u64_def)+

lemmas field_defs = field_def field_opt_def field_or_def expected_of_def

lemma options_read_back:
  "create_options_of (create_options_json c) = Some c"
  "touch_options_of (touch_options_json t) = Some t"
  "copy_options_of (copy_options_json p) = Some p"
  "move_options_of (move_options_json m) = Some m"
  "remove_options_of (remove_options_json r) = Some r"
  "mutation_options_of (mutation_options_json u) = Some u"
  by (simp_all add: create_options_of_def create_options_json_def touch_options_of_def touch_options_json_def
      copy_options_of_def copy_options_json_def move_options_of_def move_options_json_def remove_options_of_def
      remove_options_json_def mutation_options_of_def mutation_options_json_def field_defs)

lemma fill_complete: "fill_options (operation_json op) = operation_json op"
  by (cases op) (simp_all add: fill_options_def default_options_json_def backfill_def create_options_json_def
      touch_options_json_def copy_options_json_def move_options_json_def remove_options_json_def mutation_options_json_def)

definition known_op :: "wire \<Rightarrow> batch_operation \<Rightarrow> bool" where
  "known_op W op \<longleftrightarrow>
     (case op of BRestore tid _ _ \<Rightarrow> w_uuid W tid = Some tid | BPurge tid \<Rightarrow> w_uuid W tid = Some tid | _ \<Rightarrow> True)"

lemma operation_read_back:
  "legal_op op \<Longrightarrow> known_op W op \<Longrightarrow> operation_of W (fill_options (operation_json op)) = Some op"
  unfolding fill_complete
  by (cases op) (auto simp: tagged_operation_def field_defs json_uuid_def known_op_def options_read_back pred_option_def split: option.splits)

lemma operations_read_back:
  "list_all legal_op ops \<Longrightarrow> list_all (known_op W) ops
    \<Longrightarrow> deserialize_operations W (JArray (map operation_json ops)) = Some ops"
  unfolding deserialize_operations_def by (induction ops) (auto simp: operation_read_back)

text \<open>The integers of a query are 64 bit.\<close>

definition small_query :: "find_query \<Rightarrow> bool" where
  "small_query q \<longleftrightarrow>
     pred_option (\<lambda>i. - (2 ^ 63) \<le> i \<and> i < 2 ^ 63) (fq_modified_after_ms q) \<and>
     pred_option (\<lambda>i. - (2 ^ 63) \<le> i \<and> i < 2 ^ 63) (fq_modified_before_ms q)"

lemma json_kind_name [simp]: "json_kind (JString (kind_name k)) = Some k"
  by (cases k) simp_all

lemma find_query_read_back:
  assumes "canonical (fq_root q)" "small_query q"
  shows "deserialize_find_query (find_query_json q) = Some q"
proof -
  have "find_query_of (find_query_json q) = Some q"
    using assms by (simp add: find_query_of_def find_query_json_def field_defs small_query_def pred_option_def del: json_kind.simps)
  then show ?thesis by (simp add: deserialize_find_query_def find_query_json_def backfill_def)
qed

end
