(* ===== verification/Server.thy ===== *)
theory Server
  imports Wire_Json Workspace
begin

text \<open>
  \<open>fslite-server\<close>: authentication (\<open>auth.rs\<close>), the administration of workspaces (\<open>admin.rs\<close>),
  every handler of \<open>routes/\<close> and the application of \<open>lib.rs\<close>. A handler answers with a response or
  an \<open>ApiError\<close>; the answer is \<^const>\<open>None\<close> when the file system never returns. What extractors
  of \<open>axum\<close> refuse by themselves is a response without the error envelope. Headers that carry no
  data, tracing and the dropping of the body of an answer to \<open>HEAD\<close> are left out.
\<close>

type_synonym 's reply = "(http_response api_result \<times> 's) option"

subsection \<open>Answers\<close>

definition refuse :: "api_error \<Rightarrow> 's \<Rightarrow> 's reply" where
  "refuse e s = Some (Inl e, s)"

definition reject :: "nat \<Rightarrow> 's \<Rightarrow> 's reply" where
  "reject status s = Some (Inr (respond status NoPayload), s)"

text \<open>The \<open>?\<close> operator on what an extractor or a conversion yields.\<close>

definition tried :: "'a api_result \<Rightarrow> 's \<Rightarrow> ('a \<Rightarrow> 's reply) \<Rightarrow> 's reply" where
  "tried r s k = (case r of Inl e \<Rightarrow> refuse e s | Inr x \<Rightarrow> k x)"

definition replied :: "('a \<Rightarrow> http_response) \<Rightarrow> 'a fs_result \<Rightarrow> 's \<Rightarrow> 's reply" where
  "replied f r s = Some (case r of Inl e \<Rightarrow> Inl (Domain e) | Inr x \<Rightarrow> Inr (f x), s)"

definition ok_json :: "('a \<Rightarrow> response_body) \<Rightarrow> 'a fs_result \<times> 's \<Rightarrow> 's reply" where
  "ok_json f r = replied (\<lambda>x. respond 200 (f x)) (fst r) (snd r)"

definition ok_scan :: "('a \<Rightarrow> response_body) \<Rightarrow> 'a fs_result option \<Rightarrow> 's \<Rightarrow> 's reply" where
  "ok_scan f r s = Option.bind r (\<lambda>x. ok_json f (x, s))"

subsection \<open>Authentication\<close>

record authenticated_actor =
  aa_workspace_id :: uuid
  aa_capabilities :: "capability list"
  aa_actor_metadata :: actor

type_synonym auth_provider = "string option \<Rightarrow> authenticated_actor api_result"

definition bearer_authenticate :: "(string \<rightharpoonup> authenticated_actor) \<Rightarrow> auth_provider" where
  "bearer_authenticate tokens header =
     andthen (ok_or (Unauthenticated ''missing authorization header'') header) (\<lambda>text.
     andthen (ok_or (Unauthenticated ''expected a Bearer token'') (strip_prefix ''Bearer '' text)) (\<lambda>token.
     ok_or (Unauthenticated ''unrecognized token'') (tokens token)))"

record 's workspace_admin =
  ad_create_workspace :: "'s \<Rightarrow> workspace fs_result \<times> 's"
  ad_delete_workspace :: "uuid \<Rightarrow> 's \<Rightarrow> unit fs_result \<times> 's"
  ad_reset_workspace :: "uuid \<Rightarrow> 's \<Rightarrow> unit fs_result \<times> 's"

definition sqlite_workspace_admin :: "ext \<Rightarrow> db workspace_admin" where
  "sqlite_workspace_admin E =
     \<lparr>ad_create_workspace = create_workspace E workspace_options_default,
      ad_delete_workspace = delete_workspace,
      ad_reset_workspace = reset_workspace E\<rparr>"

record 's app_state =
  as_fs :: "'s file_system"
  as_auth :: auth_provider
  as_admin :: "'s workspace_admin"
  as_health_workspace :: uuid

definition actor_context :: "authenticated_actor \<Rightarrow> request_context" where
  "actor_context a =
     \<lparr>cx_workspace_id = aa_workspace_id a, cx_actor_metadata = aa_actor_metadata a,
      cx_capabilities = aa_capabilities a\<rparr>"

text \<open>The extractor \<open>Ctx\<close>.\<close>

definition from_request_parts :: "wire \<Rightarrow> 's app_state \<Rightarrow> http_request \<Rightarrow> string \<Rightarrow> request_context api_result" where
  "from_request_parts W A rq raw_workspace_id =
     andthen (as_auth A (rq_authorization rq)) (\<lambda>a.
     andthen (ok_or (MalformedBody ''invalid workspace id in path'') (w_uuid W raw_workspace_id)) (\<lambda>workspace_id.
     if aa_workspace_id a \<noteq> workspace_id then Inl WorkspaceMismatch
     else Inr \<lparr>cx_workspace_id = workspace_id, cx_actor_metadata = aa_actor_metadata a,
               cx_capabilities = aa_capabilities a\<rparr>))"

text \<open>The extractor \<open>Bytes\<close> buffers bodies up to its limit.\<close>

definition buffered :: "wire \<Rightarrow> http_request \<Rightarrow> 's \<Rightarrow> (request_body \<Rightarrow> 's reply) \<Rightarrow> 's reply" where
  "buffered W rq s k = (if w_size W (rq_body rq) > w_body_limit W then reject 413 s else k (rq_body rq))"

definition malformed :: "string + 'a \<Rightarrow> 'a api_result" where
  "malformed r = map_err MalformedBody r"

definition route_path :: "string \<Rightarrow> virtual_path api_result" where
  "route_path raw = map_err (\<lambda>err. MalformedBody (err_message err)) (vp_parse (slash # raw))"

definition revision_from :: "u64 option \<Rightarrow> revision option api_result" where
  "revision_from raw =
     (case raw of
        None \<Rightarrow> Inr None
      | Some v \<Rightarrow> if v = 0 then Inl (MalformedBody ''expected_revision must be nonzero'') else Inr (rev_new v))"

text \<open>A body that may be left out.\<close>

definition optional_body :: "wire \<Rightarrow> 'a \<Rightarrow> (json \<Rightarrow> 'a option) \<Rightarrow> request_body \<Rightarrow> 'a api_result" where
  "optional_body W def f body = (if body = Bytes [] then Inr def else malformed (from_slice W f body))"

subsection \<open>Health and identity\<close>

definition healthz :: "'s \<Rightarrow> 's reply" where
  "healthz s = Some (Inr (respond 200 (StatusPayload ''ok'')), s)"

definition readyz :: "'s app_state \<Rightarrow> 's \<Rightarrow> 's reply" where
  "readyz A s =
     ok_json (\<lambda>_. StatusPayload ''ready'')
       (fs_op_exists (as_fs A) (cx_trusted (as_health_workspace A)) vp_root stat_options_default s, s)"

definition me :: "'s app_state \<Rightarrow> http_request \<Rightarrow> 's \<Rightarrow> 's reply" where
  "me A rq s =
     tried (as_auth A (rq_authorization rq)) s (\<lambda>a.
     Some (Inr (respond 200 (IdentityPayload (aa_workspace_id a) (aa_capabilities a))), s))"

subsection \<open>Workspaces\<close>

definition workspace_dto :: "workspace \<Rightarrow> response_body" where
  "workspace_dto w = WorkspacePayload (wk_id w) (wk_created_at_ms w) (wk_max_bytes w) (wk_max_nodes w) (wk_max_file_bytes w)"

definition handle_create_workspace :: "'s app_state \<Rightarrow> http_request \<Rightarrow> 's \<Rightarrow> 's reply" where
  "handle_create_workspace A rq s =
     tried (as_auth A (rq_authorization rq)) s (\<lambda>a.
     if CapWorkspaceAdmin \<notin> set (aa_capabilities a)
     then refuse (Domain (permission_denied ''create_workspace'')) s
     else ok_json workspace_dto (ad_create_workspace (as_admin A) s))"

definition handle_delete_workspace :: "wire \<Rightarrow> 's app_state \<Rightarrow> http_request \<Rightarrow> string \<Rightarrow> 's \<Rightarrow> 's reply" where
  "handle_delete_workspace W A rq raw s =
     (case w_uuid W raw of
        None \<Rightarrow> reject 400 s
      | Some workspace_id \<Rightarrow>
          tried (as_auth A (rq_authorization rq)) s (\<lambda>a.
          if aa_workspace_id a \<noteq> workspace_id \<or> CapWorkspaceAdmin \<notin> set (aa_capabilities a)
          then refuse WorkspaceMismatch s
          else ok_json (\<lambda>_. NoPayload) (ad_delete_workspace (as_admin A) workspace_id s)))"

definition handle_reset_workspace :: "wire \<Rightarrow> 's app_state \<Rightarrow> http_request \<Rightarrow> string \<Rightarrow> 's \<Rightarrow> 's reply" where
  "handle_reset_workspace W A rq raw s =
     (case w_uuid W raw of
        None \<Rightarrow> reject 400 s
      | Some workspace_id \<Rightarrow>
          tried (as_auth A (rq_authorization rq)) s (\<lambda>a.
          if aa_workspace_id a \<noteq> workspace_id then refuse WorkspaceMismatch s
          else if CapWorkspaceAdmin \<notin> set (aa_capabilities a)
          then refuse (Domain (permission_denied ''reset_workspace'')) s
          else
            let ctx = \<lparr>cx_workspace_id = workspace_id, cx_actor_metadata = aa_actor_metadata a,
                       cx_capabilities = aa_capabilities a\<rparr>
            in (case ad_reset_workspace (as_admin A) workspace_id s of
                  (Inl e, t) \<Rightarrow> refuse (Domain e) t
                | (Inr _, t) \<Rightarrow> ok_json UsagePayload (fs_op_workspace_usage (as_fs A) ctx t, t))))"

definition handle_usage :: "'s app_state \<Rightarrow> request_context \<Rightarrow> 's \<Rightarrow> 's reply" where
  "handle_usage A ctx s = ok_json UsagePayload (fs_op_workspace_usage (as_fs A) ctx s, s)"

subsection \<open>Nodes\<close>

definition handle_read_link :: "'s app_state \<Rightarrow> request_context \<Rightarrow> string \<Rightarrow> 's \<Rightarrow> 's reply" where
  "handle_read_link A ctx raw s =
     tried (route_path raw) s (\<lambda>path.
     ok_json (\<lambda>target. TargetPayload (target_str target) (lt_is_absolute target)) (fs_op_read_link (as_fs A) ctx path s, s))"

definition handle_stat :: "'s app_state \<Rightarrow> request_context \<Rightarrow> string \<Rightarrow> params \<Rightarrow> 's \<Rightarrow> 's reply" where
  "handle_stat A ctx raw params s =
     tried (route_path raw) s (\<lambda>path.
     tried (query_bool params ''follow_symlinks'' True) s (\<lambda>follow_symlinks.
     ok_json NodePayload (fs_op_stat (as_fs A) ctx path \<lparr>so_follow_symlinks = follow_symlinks\<rparr> s, s)))"

definition get_dispatch :: "'s app_state \<Rightarrow> request_context \<Rightarrow> string \<Rightarrow> params \<Rightarrow> 's \<Rightarrow> 's reply" where
  "get_dispatch A ctx raw params s =
     (case strip_suffix ''/link-target'' raw of
        Some shorter \<Rightarrow> handle_read_link A ctx shorter s
      | None \<Rightarrow> handle_stat A ctx raw params s)"

definition handle_exists :: "'s app_state \<Rightarrow> request_context \<Rightarrow> string \<Rightarrow> params \<Rightarrow> 's \<Rightarrow> 's reply" where
  "handle_exists A ctx raw params s =
     tried (route_path raw) s (\<lambda>path.
     tried (query_bool params ''follow_symlinks'' True) s (\<lambda>follow_symlinks.
     replied (\<lambda>found. respond (if found then 200 else 404) NoPayload)
       (fs_op_exists (as_fs A) ctx path \<lparr>so_follow_symlinks = follow_symlinks\<rparr> s) s))"

definition handle_remove :: "'s app_state \<Rightarrow> request_context \<Rightarrow> string \<Rightarrow> params \<Rightarrow> 's \<Rightarrow> 's reply" where
  "handle_remove A ctx raw params s =
     tried (route_path raw) s (\<lambda>path.
     tried (query_bool params ''recursive'' False) s (\<lambda>recursive.
     tried (query_revision params) s (\<lambda>expected.
     ok_json (\<lambda>_. NoPayload)
       (fs_op_remove (as_fs A) ctx path \<lparr>rmo_recursive = recursive, rmo_expected_revision = expected\<rparr> s))))"

definition put_node :: "wire \<Rightarrow> 's app_state \<Rightarrow> request_context \<Rightarrow> string \<Rightarrow> params \<Rightarrow> request_body \<Rightarrow> 's \<Rightarrow> 's reply" where
  "put_node W A ctx raw params body s =
     tried (route_path raw) s (\<lambda>path.
     if params ''type'' = Some ''directory'' then
       tried (optional_body W \<lparr>mb_parents = False, mb_exist_ok = False, mb_expected_revision = None\<rparr> mkdir_body_of body) s (\<lambda>b.
       tried (revision_from (mb_expected_revision b)) s (\<lambda>expected.
       ok_json NodePayload
         (fs_op_mkdir (as_fs A) ctx path
            \<lparr>co_parents = mb_parents b, co_exist_ok = mb_exist_ok b, co_expected_revision = expected\<rparr> s)))
     else if params ''type'' = Some ''symlink'' then
       tried (malformed (from_slice W symlink_body_of body)) s (\<lambda>b.
       tried (map_err (\<lambda>e. MalformedBody (err_message e)) (lt_parse (sb_target b))) s (\<lambda>target.
       tried (revision_from (sb_expected_revision b)) s (\<lambda>expected.
       ok_json NodePayload
         (fs_op_symlink (as_fs A) ctx target path
            \<lparr>co_parents = sb_parents b, co_exist_ok = sb_exist_ok b, co_expected_revision = expected\<rparr> s))))
     else refuse (MalformedBody ''query parameter `type` must be `directory` or `symlink`'') s)"

definition node_action :: "wire \<Rightarrow> 's app_state \<Rightarrow> request_context \<Rightarrow> string \<Rightarrow> params \<Rightarrow> request_body \<Rightarrow> 's \<Rightarrow> 's reply" where
  "node_action W A ctx raw params body s =
     tried (route_path raw) s (\<lambda>from_path.
     tried (optional_body W \<lparr>ab_to = None, ab_recursive = False, ab_overwrite = False, ab_expected_revision = None\<rparr> action_body_of body) s (\<lambda>b.
     tried (revision_from (ab_expected_revision b)) s (\<lambda>expected.
     if params ''action'' = Some ''copy'' then
       tried (ok_or (MalformedBody ''`to` is required for action=copy'') (ab_to b)) s (\<lambda>to_raw.
       tried (route_path to_raw) s (\<lambda>to_path.
       ok_json NodePayload
         (fs_op_copy (as_fs A) ctx from_path to_path
            \<lparr>cpo_recursive = ab_recursive b, cpo_overwrite = ab_overwrite b, cpo_expected_revision = expected\<rparr> s)))
     else if params ''action'' = Some ''move'' then
       tried (ok_or (MalformedBody ''`to` is required for action=move'') (ab_to b)) s (\<lambda>to_raw.
       tried (route_path to_raw) s (\<lambda>to_path.
       ok_json NodePayload
         (fs_op_move_path (as_fs A) ctx from_path to_path
            \<lparr>mvo_overwrite = ab_overwrite b, mvo_expected_revision = expected\<rparr> s)))
     else if params ''action'' = Some ''trash'' then
       ok_json TrashPayload (fs_op_trash (as_fs A) ctx from_path \<lparr>mo_expected_revision = expected\<rparr> s)
     else refuse (MalformedBody ''query parameter `action` must be `copy`, `move`, or `trash`'') s)))"

definition patch_node :: "wire \<Rightarrow> 's app_state \<Rightarrow> request_context \<Rightarrow> string \<Rightarrow> request_body \<Rightarrow> 's \<Rightarrow> 's reply" where
  "patch_node W A ctx raw body s =
     tried (route_path raw) s (\<lambda>path.
     tried (malformed (from_slice W patch_body_of body)) s (\<lambda>b.
     case b of
       PatchTouch create expected \<Rightarrow>
         tried (revision_from expected) s (\<lambda>r.
         ok_json NodePayload (fs_op_touch (as_fs A) ctx path \<lparr>tco_create = create, tco_expected_revision = r\<rparr> s))
     | PatchSetAttribute key value_base64 expected \<Rightarrow>
         tried (map_err (\<lambda>e. MalformedBody (''invalid base64 value: '' @ e)) (w_decode W value_base64)) s (\<lambda>val.
         tried (revision_from expected) s (\<lambda>r.
         ok_json NodePayload (fs_op_set_attribute (as_fs A) ctx path key val \<lparr>mo_expected_revision = r\<rparr> s)))
     | PatchRemoveAttribute key expected \<Rightarrow>
         tried (revision_from expected) s (\<lambda>r.
         ok_json NodePayload (fs_op_remove_attribute (as_fs A) ctx path key \<lparr>mo_expected_revision = r\<rparr> s))))"

subsection \<open>Directories\<close>

definition handle_read_dir :: "'s app_state \<Rightarrow> request_context \<Rightarrow> string \<Rightarrow> params \<Rightarrow> 's \<Rightarrow> 's reply" where
  "handle_read_dir A ctx raw params s =
     tried (route_path raw) s (\<lambda>path.
     tried (query_page params) s (\<lambda>page.
     ok_json NodesPayload (fs_op_read_dir (as_fs A) ctx path page s, s)))"

definition handle_tree :: "'s app_state \<Rightarrow> request_context \<Rightarrow> string \<Rightarrow> params \<Rightarrow> 's \<Rightarrow> 's reply" where
  "handle_tree A ctx raw params s =
     tried (route_path raw) s (\<lambda>path.
     tried (query_page params) s (\<lambda>page.
     tried (case params ''max_depth'' of
                None \<Rightarrow> Inr None
              | Some v \<Rightarrow> map_err MalformedBody (ok_or ''max_depth must be a non-negative integer'' (map_option Some (parse_u32 v)))) s (\<lambda>max_depth.
     tried (query_bool params ''follow_symlinks'' False) s (\<lambda>follow_symlinks.
     ok_scan TreePayload
       (fs_op_tree (as_fs A) ctx path \<lparr>to_max_depth = max_depth, to_follow_symlinks = follow_symlinks\<rparr> page s) s))))"

definition directories_dispatch :: "'s app_state \<Rightarrow> request_context \<Rightarrow> string \<Rightarrow> params \<Rightarrow> 's \<Rightarrow> 's reply" where
  "directories_dispatch A ctx raw params s =
     (case strip_suffix ''/children'' raw of
        Some shorter \<Rightarrow> handle_read_dir A ctx shorter params s
      | None \<Rightarrow>
          (case strip_suffix ''/tree'' raw of
             Some shorter \<Rightarrow> handle_tree A ctx shorter params s
           | None \<Rightarrow> refuse RouteNotFound s))"

subsection \<open>Content\<close>

text \<open>A range that cannot be satisfied is an answer of its own, with the size of the file.\<close>

definition unsatisfiable :: "u64 \<Rightarrow> http_response" where
  "unsatisfiable len =
     \<lparr>rs_status = 416, rs_content_range = Some (''bytes */'' @ show_u64 len), rs_payload = NoPayload\<rparr>"

definition content_range_header :: "byte_range \<Rightarrow> u64 \<Rightarrow> string" where
  "content_range_header r len =
     ''bytes '' @ show_u64 (br_start r) @ ''-'' @ show_u64 (saturating_sub (br_end r) 1) @ ''/'' @ show_u64 len"

definition content_response :: "bool \<Rightarrow> file_read \<Rightarrow> http_response" where
  "content_response requested_range file =
     \<lparr>rs_status = (if requested_range then 206 else 200),
      rs_content_range = (if requested_range then Some (content_range_header (fr_range file) (fr_logical_length file)) else None),
      rs_payload = BytesPayload (concat (fr_stream file))\<rparr>"

definition handle_read :: "'s app_state \<Rightarrow> request_context \<Rightarrow> string \<Rightarrow> string option \<Rightarrow> 's \<Rightarrow> 's reply" where
  "handle_read A ctx raw range_header s =
     tried (route_path raw) s (\<lambda>path.
     let read_range = (\<lambda>asked.
           replied (content_response (asked \<noteq> None))
             (fs_op_read (as_fs A) ctx path (read_options_default\<lparr>ro_range := asked\<rparr>) s) s)
     in case range_header of
          None \<Rightarrow> read_range None
        | Some header \<Rightarrow>
            tried (map_err Domain (fs_op_stat (as_fs A) ctx path stat_options_default s)) s (\<lambda>node.
            case resolve_range header (nd_logical_size node) of
              Inr asked \<Rightarrow> read_range (Some asked)
            | Inl Unsatisfiable \<Rightarrow> Some (Inr (unsatisfiable (nd_logical_size node)), s)
            | Inl _ \<Rightarrow> refuse (MalformedBody ''unsupported Range header'') s))"

text \<open>The bytes a body streams; JSON text as bytes is not looked at.\<close>

definition body_write_source :: "(json \<Rightarrow> byte list) \<Rightarrow> request_body \<Rightarrow> write_source" where
  "body_write_source text body = [Inr (case body of Bytes bytes \<Rightarrow> bytes | Json j \<Rightarrow> text j)]"

definition handle_write :: "wire \<Rightarrow> 's app_state \<Rightarrow> request_context \<Rightarrow> string \<Rightarrow> params \<Rightarrow> request_body \<Rightarrow> 's \<Rightarrow> 's reply" where
  "handle_write W A ctx raw params body s =
     tried (route_path raw) s (\<lambda>path.
     tried (query_bool params ''create'' True) s (\<lambda>create.
     tried (query_revision params) s (\<lambda>expected.
     ok_json NodePayload
       (fs_op_write (as_fs A) ctx path (body_write_source (w_text W) body)
          \<lparr>wo_create = create, wo_expected_revision = expected\<rparr> s))))"

definition handle_write_at :: "wire \<Rightarrow> 's app_state \<Rightarrow> request_context \<Rightarrow> string \<Rightarrow> params \<Rightarrow> request_body \<Rightarrow> 's \<Rightarrow> 's reply" where
  "handle_write_at W A ctx raw params body s =
     tried (route_path raw) s (\<lambda>path.
     tried (ok_or (MalformedBody ''query parameter `offset` is required'') (params ''offset'')) s (\<lambda>text.
     tried (ok_or (MalformedBody ''offset must be a non-negative integer'') (parse_u64 text)) s (\<lambda>offset.
     tried (query_revision params) s (\<lambda>expected.
     ok_json NodePayload
       (fs_op_write_at (as_fs A) ctx path offset (body_write_source (w_text W) body)
          (write_options_default\<lparr>wo_expected_revision := expected\<rparr>) s)))))"

definition MAX_TRUNCATE_BODY_BYTES :: nat where
  "MAX_TRUNCATE_BODY_BYTES = 64 * 1024"

definition content_action :: "wire \<Rightarrow> 's app_state \<Rightarrow> request_context \<Rightarrow> string \<Rightarrow> params \<Rightarrow> request_body \<Rightarrow> 's \<Rightarrow> 's reply" where
  "content_action W A ctx raw params body s =
     tried (route_path raw) s (\<lambda>path.
     if params ''action'' = Some ''append'' then
       tried (query_revision params) s (\<lambda>expected.
       ok_json NodePayload
         (fs_op_append (as_fs A) ctx path (body_write_source (w_text W) body)
            (write_options_default\<lparr>wo_expected_revision := expected\<rparr>) s))
     else if params ''action'' = Some ''truncate'' then
       (if w_size W body > MAX_TRUNCATE_BODY_BYTES then refuse PayloadTooLarge s
        else
          tried (malformed (from_slice W truncate_body_of body)) s (\<lambda>b.
          tried (revision_from (tb_expected_revision b)) s (\<lambda>expected.
          ok_json NodePayload (fs_op_truncate (as_fs A) ctx path (tb_length b) \<lparr>mo_expected_revision = expected\<rparr> s))))
     else refuse (MalformedBody ''query parameter `action` must be `append` or `truncate`'') s)"

subsection \<open>Trash\<close>

definition handle_list_trash :: "'s app_state \<Rightarrow> request_context \<Rightarrow> params \<Rightarrow> 's \<Rightarrow> 's reply" where
  "handle_list_trash A ctx params s =
     tried (query_page params) s (\<lambda>page. ok_json TrashListPayload (fs_op_list_trash (as_fs A) ctx page s, s))"

definition parse_trash_id :: "wire \<Rightarrow> string \<Rightarrow> uuid api_result" where
  "parse_trash_id W raw = ok_or (MalformedBody ''invalid trash id'') (w_uuid W raw)"

definition handle_purge :: "wire \<Rightarrow> 's app_state \<Rightarrow> request_context \<Rightarrow> string \<Rightarrow> 's \<Rightarrow> 's reply" where
  "handle_purge W A ctx raw s =
     tried (parse_trash_id W raw) s (\<lambda>tid. ok_json (\<lambda>_. NoPayload) (fs_op_purge (as_fs A) ctx tid s))"

definition handle_restore :: "wire \<Rightarrow> 's app_state \<Rightarrow> request_context \<Rightarrow> string \<Rightarrow> request_body \<Rightarrow> 's \<Rightarrow> 's reply" where
  "handle_restore W A ctx raw body s =
     tried (parse_trash_id W raw) s (\<lambda>tid.
     tried (optional_body W \<lparr>rb_destination = None, rb_expected_revision = None\<rparr> restore_body_of body) s (\<lambda>b.
     tried (map_err (\<lambda>e. MalformedBody (err_message e)) (transposed vp_parse (rb_destination b))) s (\<lambda>destination.
     tried (revision_from (rb_expected_revision b)) s (\<lambda>expected.
     ok_json NodePayload (fs_op_restore (as_fs A) ctx tid destination \<lparr>mo_expected_revision = expected\<rparr> s)))))"

subsection \<open>Search, changes and batches\<close>

definition handle_glob :: "'s app_state \<Rightarrow> request_context \<Rightarrow> params \<Rightarrow> 's \<Rightarrow> 's reply" where
  "handle_glob A ctx params s =
     tried (ok_or (MalformedBody ''query parameter `pattern` is required'') (params ''pattern'')) s (\<lambda>pattern.
     tried (query_page params) s (\<lambda>page.
     ok_scan NodesPayload (fs_op_glob (as_fs A) ctx pattern page s) s))"

definition handle_find :: "wire \<Rightarrow> 's app_state \<Rightarrow> request_context \<Rightarrow> request_body \<Rightarrow> 's \<Rightarrow> 's reply" where
  "handle_find W A ctx body s =
     tried (malformed (from_slice W find_request_of body)) s (\<lambda>(query, page).
     ok_scan NodesPayload (fs_op_find (as_fs A) ctx query page s) s)"

definition search_match_dto_from :: "wire \<Rightarrow> search_match \<Rightarrow> search_match_dto" where
  "search_match_dto_from W m =
     \<lparr>smd_node = sm_node m, smd_path = sm_path m, smd_range = sm_range m,
      smd_preview_base64 = w_encode W (sm_preview m)\<rparr>"

definition handle_search_content :: "wire \<Rightarrow> 's app_state \<Rightarrow> request_context \<Rightarrow> request_body \<Rightarrow> 's \<Rightarrow> 's reply" where
  "handle_search_content W A ctx body s =
     tried (malformed (from_slice W search_content_request_of body)) s (\<lambda>(root, needle_base64, page).
     tried (map_err (\<lambda>e. MalformedBody (''invalid base64 needle: '' @ e)) (w_decode W needle_base64)) s (\<lambda>needle.
     ok_scan (\<lambda>p. MatchesPayload \<lparr>pg_items = map (search_match_dto_from W) (pg_items p), pg_next_cursor = pg_next_cursor p\<rparr>)
       (fs_op_search_content (as_fs A) ctx \<lparr>cq_root = root, cq_needle = needle\<rparr> page s) s))"

definition handle_changes :: "'s app_state \<Rightarrow> request_context \<Rightarrow> params \<Rightarrow> 's \<Rightarrow> 's reply" where
  "handle_changes A ctx params s =
     tried (query_page params) s (\<lambda>page.
     ok_json ChangesPayload (fs_op_changes (as_fs A) ctx (params ''after'') page s, s))"

definition handle_batch :: "wire \<Rightarrow> 's app_state \<Rightarrow> request_context \<Rightarrow> request_body \<Rightarrow> 's \<Rightarrow> 's reply" where
  "handle_batch W A ctx body s =
     tried (malformed (from_slice W (batch_request_of W) body)) s (\<lambda>operations.
     ok_json BatchPayload (fs_op_batch (as_fs A) ctx operations s))"

subsection \<open>The application\<close>

text \<open>The router of each module: the handler of a method, or \<open>method_not_allowed\<close>.\<close>

definition with_ctx :: "wire \<Rightarrow> 's app_state \<Rightarrow> http_request \<Rightarrow> string \<Rightarrow> 's \<Rightarrow> (request_context \<Rightarrow> 's reply) \<Rightarrow> 's reply" where
  "with_ctx W A rq raw s k = tried (from_request_parts W A rq raw) s k"

definition nodes_router :: "wire \<Rightarrow> 's app_state \<Rightarrow> http_request \<Rightarrow> string \<Rightarrow> string \<Rightarrow> 's \<Rightarrow> 's reply" where
  "nodes_router W A rq w raw s =
     (let params = params_of (rq_query rq)
      in case rq_method rq of
           GET \<Rightarrow> with_ctx W A rq w s (\<lambda>ctx. get_dispatch A ctx raw params s)
         | HEAD \<Rightarrow> with_ctx W A rq w s (\<lambda>ctx. handle_exists A ctx raw params s)
         | DELETE \<Rightarrow> with_ctx W A rq w s (\<lambda>ctx. handle_remove A ctx raw params s)
         | PUT \<Rightarrow> with_ctx W A rq w s (\<lambda>ctx. buffered W rq s (\<lambda>body. put_node W A ctx raw params body s))
         | PATCH \<Rightarrow> with_ctx W A rq w s (\<lambda>ctx. buffered W rq s (\<lambda>body. patch_node W A ctx raw body s))
         | POST \<Rightarrow> with_ctx W A rq w s (\<lambda>ctx. buffered W rq s (\<lambda>body. node_action W A ctx raw params body s)))"

definition content_router :: "wire \<Rightarrow> 's app_state \<Rightarrow> http_request \<Rightarrow> string \<Rightarrow> string \<Rightarrow> 's \<Rightarrow> 's reply" where
  "content_router W A rq w raw s =
     (let params = params_of (rq_query rq)
      in case rq_method rq of
           GET \<Rightarrow> with_ctx W A rq w s (\<lambda>ctx. handle_read A ctx raw (rq_range rq) s)
         | HEAD \<Rightarrow> with_ctx W A rq w s (\<lambda>ctx. handle_read A ctx raw (rq_range rq) s)
         | PUT \<Rightarrow> with_ctx W A rq w s (\<lambda>ctx. handle_write W A ctx raw params (rq_body rq) s)
         | PATCH \<Rightarrow> with_ctx W A rq w s (\<lambda>ctx. handle_write_at W A ctx raw params (rq_body rq) s)
         | POST \<Rightarrow> with_ctx W A rq w s (\<lambda>ctx. content_action W A ctx raw params (rq_body rq) s)
         | DELETE \<Rightarrow> refuse MethodNotAllowed s)"

text \<open>A route registered with \<open>get\<close> also answers \<open>HEAD\<close>.\<close>

definition getting :: "http_request \<Rightarrow> 's \<Rightarrow> 's reply \<Rightarrow> 's reply" where
  "getting rq s r = (if rq_method rq \<in> set [GET, HEAD] then r else refuse MethodNotAllowed s)"

definition with_method :: "http_method \<Rightarrow> http_request \<Rightarrow> 's \<Rightarrow> 's reply \<Rightarrow> 's reply" where
  "with_method m rq s r = (if rq_method rq = m then r else refuse MethodNotAllowed s)"

definition route_reply :: "wire \<Rightarrow> 's app_state \<Rightarrow> http_request \<Rightarrow> 's \<Rightarrow> 's reply" where
  "route_reply W A rq s =
     (let params = params_of (rq_query rq)
      in case w_match W (rq_url rq) of
           None \<Rightarrow> refuse RouteNotFound s
         | Some Healthz \<Rightarrow> getting rq s (healthz s)
         | Some Readyz \<Rightarrow> getting rq s (readyz A s)
         | Some Me \<Rightarrow> getting rq s (me A rq s)
         | Some Workspaces \<Rightarrow> with_method POST rq s (handle_create_workspace A rq s)
         | Some (AtWorkspace w) \<Rightarrow> with_method DELETE rq s (handle_delete_workspace W A rq w s)
         | Some (AtReset w) \<Rightarrow> with_method POST rq s (handle_reset_workspace W A rq w s)
         | Some (AtUsage w) \<Rightarrow> getting rq s (with_ctx W A rq w s (\<lambda>ctx. handle_usage A ctx s))
         | Some (AtFs w raw) \<Rightarrow> nodes_router W A rq w raw s
         | Some (AtDirectories w raw) \<Rightarrow>
             getting rq s (with_ctx W A rq w s (\<lambda>ctx. directories_dispatch A ctx raw params s))
         | Some (AtContent w raw) \<Rightarrow> content_router W A rq w raw s
         | Some (AtTrash w) \<Rightarrow> getting rq s (with_ctx W A rq w s (\<lambda>ctx. handle_list_trash A ctx params s))
         | Some (AtTrashEntry w raw) \<Rightarrow> with_method DELETE rq s (with_ctx W A rq w s (\<lambda>ctx. handle_purge W A ctx raw s))
         | Some (AtRestore w raw) \<Rightarrow>
             with_method POST rq s (with_ctx W A rq w s (\<lambda>ctx. buffered W rq s (\<lambda>body. handle_restore W A ctx raw body s)))
         | Some (AtGlob w) \<Rightarrow> getting rq s (with_ctx W A rq w s (\<lambda>ctx. handle_glob A ctx params s))
         | Some (AtFind w) \<Rightarrow>
             with_method POST rq s (with_ctx W A rq w s (\<lambda>ctx. buffered W rq s (\<lambda>body. handle_find W A ctx body s)))
         | Some (AtSearchContent w) \<Rightarrow>
             with_method POST rq s (with_ctx W A rq w s (\<lambda>ctx. buffered W rq s (\<lambda>body. handle_search_content W A ctx body s)))
         | Some (AtChanges w) \<Rightarrow> getting rq s (with_ctx W A rq w s (\<lambda>ctx. handle_changes A ctx params s))
         | Some (AtBatch w) \<Rightarrow>
             with_method POST rq s (with_ctx W A rq w s (\<lambda>ctx. buffered W rq s (\<lambda>body. handle_batch W A ctx body s))))"

definition app :: "wire \<Rightarrow> 's app_state \<Rightarrow> http_request \<Rightarrow> 's \<Rightarrow> (http_response \<times> 's) option" where
  "app W A rq s =
     map_option (\<lambda>(r, t). (case r of Inl e \<Rightarrow> error_response e | Inr response \<Rightarrow> response, t)) (route_reply W A rq s)"

end
