(* ===== verification/Remote.thy ===== *)
theory Remote
  imports Server
begin

text \<open>
  \<open>fslite-command/src/remote.rs\<close>: a command executed by requests to a server. The transport is an
  argument: it takes a request and the state behind it to an answer, or to the message of a
  failed exchange, and never answers when the server does not. The addition of one in
  \<open>parse_content_range_bounds\<close> wraps, as in a release build.
\<close>

type_synonym 's transport = "http_request \<Rightarrow> 's \<Rightarrow> ((string + http_response) \<times> 's) option"

record remote_executor =
  re_base_url :: string
  re_token :: string

definition remote_url :: "remote_executor \<Rightarrow> uuid \<Rightarrow> string \<Rightarrow> string" where
  "remote_url R workspace_id rest = re_base_url R @ ''/v1/workspaces/'' @ workspace_id @ rest"

definition build_request :: "http_method \<Rightarrow> string \<Rightarrow> (string \<times> string) list \<Rightarrow> request_body \<Rightarrow> http_request" where
  "build_request m address query body =
     \<lparr>rq_method = m, rq_url = address, rq_query = query, rq_range = None, rq_authorization = None, rq_body = body\<rparr>"

abbreviation no_body :: request_body where "no_body \<equiv> Bytes []"

subsection \<open>Exchanges\<close>

definition map_reqwest_err :: "string \<Rightarrow> fs_error" where
  "map_reqwest_err err = internal_storage_failure err"

definition error_from_response :: "wire \<Rightarrow> http_response \<Rightarrow> fs_error" where
  "error_from_response W r =
     (case rs_payload r of
        ErrorPayload code message details \<Rightarrow> FsError (code_from_str code) message details
      | _ \<Rightarrow> internal_storage_failure (''unrecognized error response, status '' @ w_status_text W (rs_status r)))"

definition bearer_auth :: "remote_executor \<Rightarrow> http_request \<Rightarrow> http_request" where
  "bearer_auth R rq = rq\<lparr>rq_authorization := Some (''Bearer '' @ re_token R)\<rparr>"

definition send :: "'s transport \<Rightarrow> remote_executor \<Rightarrow> http_request \<Rightarrow> 's \<Rightarrow> (http_response fs_result \<times> 's) option" where
  "send T R rq s = map_option (\<lambda>(r, t). (map_err map_reqwest_err r, t)) (T (bearer_auth R rq) s)"

definition send_checked ::
  "wire \<Rightarrow> 's transport \<Rightarrow> remote_executor \<Rightarrow> http_request \<Rightarrow> 's \<Rightarrow> (http_response fs_result \<times> 's) option" where
  "send_checked W T R rq s =
     map_option
       (\<lambda>(r, t). (res_bind r (\<lambda>response. if success response then Inr response else Inl (error_from_response W response)), t))
       (send T R rq s)"

definition send_json ::
  "wire \<Rightarrow> 's transport \<Rightarrow> remote_executor \<Rightarrow> (response_body \<Rightarrow> 'a option) \<Rightarrow> http_request \<Rightarrow> 's \<Rightarrow> ('a fs_result \<times> 's) option" where
  "send_json W T R f rq s =
     map_option
       (\<lambda>(r, t). (res_bind r (\<lambda>response. ok_or (map_reqwest_err (w_decode_error W (rs_payload response))) (f (rs_payload response))), t))
       (send_checked W T R rq s)"

text \<open>What the types of the answers are read from.\<close>

fun as_node :: "response_body \<Rightarrow> node option" where "as_node (NodePayload x) = Some x" | "as_node _ = None"
fun as_nodes :: "response_body \<Rightarrow> node page option" where "as_nodes (NodesPayload x) = Some x" | "as_nodes _ = None"
fun as_tree :: "response_body \<Rightarrow> tree_entry page option" where "as_tree (TreePayload x) = Some x" | "as_tree _ = None"
fun as_usage :: "response_body \<Rightarrow> workspace_usage option" where "as_usage (UsagePayload x) = Some x" | "as_usage _ = None"
fun as_trash :: "response_body \<Rightarrow> trash_entry option" where "as_trash (TrashPayload x) = Some x" | "as_trash _ = None"
fun as_trash_list :: "response_body \<Rightarrow> trash_entry page option" where "as_trash_list (TrashListPayload x) = Some x" | "as_trash_list _ = None"
fun as_matches :: "response_body \<Rightarrow> search_match_dto page option" where "as_matches (MatchesPayload x) = Some x" | "as_matches _ = None"
fun as_changes :: "response_body \<Rightarrow> change page option" where "as_changes (ChangesPayload x) = Some x" | "as_changes _ = None"
fun as_results :: "response_body \<Rightarrow> batch_result list option" where "as_results (BatchPayload x) = Some x" | "as_results _ = None"
fun as_target :: "response_body \<Rightarrow> string option" where "as_target (TargetPayload x _) = Some x" | "as_target _ = None"

subsection \<open>Parameters\<close>

definition revision_query :: "revision option \<Rightarrow> (string \<times> string) list" where
  "revision_query expected = (case expected of Some r \<Rightarrow> [(''expected_revision'', show_u64 (rev_get r))] | None \<Rightarrow> [])"

definition page_query :: "page_request \<Rightarrow> (string \<times> string) list" where
  "page_query page =
     (''limit'', show_nat (pr_limit page)) # (case pr_cursor page of Some c \<Rightarrow> [(''cursor'', c)] | None \<Rightarrow> [])"

definition page_body :: "page_request \<Rightarrow> json" where
  "page_body page = JObject [(''cursor'', of_option JString (pr_cursor page)), (''limit'', JNumber (show_nat (pr_limit page)))]"

definition parse_content_range_bounds :: "string \<Rightarrow> (u64 \<times> u64) option" where
  "parse_content_range_bounds header = do {
     bounds \<leftarrow> strip_prefix ''bytes '' header;
     (bounds, _) \<leftarrow> split_once slash bounds;
     (start, end_inclusive) \<leftarrow> split_once CHR ''-'' bounds;
     start \<leftarrow> parse_u64 start;
     end_inclusive \<leftarrow> parse_u64 end_inclusive;
     Some (start, end_inclusive + 1)}"

definition range_header :: "byte_range \<Rightarrow> string" where
  "range_header r = ''bytes='' @ show_u64 (br_start r) @ ''-'' @ show_u64 (saturating_sub (br_end r) 1)"

subsection \<open>Commands\<close>

definition returned :: "('a \<Rightarrow> command_output) \<Rightarrow> ('a fs_result \<times> 's) option \<Rightarrow> (command_output fs_result \<times> 's) option" where
  "returned f r = map_option (\<lambda>(x, t). (res_bind x (\<lambda>y. Inr (f y)), t)) r"

definition returned_with :: "('a \<Rightarrow> command_output fs_result) \<Rightarrow> ('a fs_result \<times> 's) option \<Rightarrow> (command_output fs_result \<times> 's) option" where
  "returned_with f r = map_option (\<lambda>(x, t). (res_bind x f, t)) r"

definition remote_stat ::
  "wire \<Rightarrow> 's transport \<Rightarrow> remote_executor \<Rightarrow> request_context \<Rightarrow> virtual_path \<Rightarrow> bool \<Rightarrow> 's \<Rightarrow> (node fs_result \<times> 's) option" where
  "remote_stat W T R ctx path follow_symlinks s =
     send_json W T R as_node
       (build_request GET (remote_url R (cx_workspace_id ctx) (''/fs'' @ as_str path)) [(''follow_symlinks'', bool_text follow_symlinks)] no_body) s"

definition decode_match :: "wire \<Rightarrow> search_match_dto \<Rightarrow> search_match fs_result" where
  "decode_match W item =
     andthen (map_err internal_storage_failure (w_decode W (smd_preview_base64 item))) (\<lambda>preview.
     Inr \<lparr>sm_node = smd_node item, sm_path = smd_path item, sm_range = smd_range item, sm_preview = preview\<rparr>)"

definition remote_content ::
  "wire \<Rightarrow> node \<Rightarrow> virtual_path \<Rightarrow> http_response \<Rightarrow> command_output fs_result" where
  "remote_content W node path response =
     (if rs_status response = 416 then Inl (invalid_range (''range not satisfiable for '' @ as_str path))
      else if \<not> success response then Inl (error_from_response W response)
      else (case rs_payload response of
          BytesPayload bytes \<Rightarrow>
            Inr (OutContent (nd_logical_size node) (nd_revision node)
                   (case Option.bind (rs_content_range response) parse_content_range_bounds of
                      Some (start, stop) \<Rightarrow> br_new start stop
                    | None \<Rightarrow> br_new 0 (of_nat (length bytes))) bytes)
        | payload \<Rightarrow> Inl (map_reqwest_err (w_decode_error W payload))))"

definition remote_read ::
  "wire \<Rightarrow> 's transport \<Rightarrow> remote_executor \<Rightarrow> request_context \<Rightarrow> virtual_path \<Rightarrow> read_options \<Rightarrow> 's \<Rightarrow> (command_output fs_result \<times> 's) option" where
  "remote_read W T R ctx path options s =
     (if \<not> ro_follow_symlinks options
      then Some (Inl (internal_storage_failure
             ''RemoteExecutor cannot honor follow_symlinks=false for read: fslite-server's content route always follows symlinks''), s)
      else do {
        (stat, s) \<leftarrow> remote_stat W T R ctx path True s;
        (case stat of
           Inl e \<Rightarrow> Some (Inl e, s)
         | Inr node \<Rightarrow>
             returned_with (remote_content W node path)
               (send T R
                  ((build_request GET (remote_url R (cx_workspace_id ctx) (''/content'' @ as_str path)) [] no_body)
                     \<lparr>rq_range := map_option range_header (ro_range options)\<rparr>) s))})"

text \<open>One request per command.\<close>

definition remote_workspace_usage ::
  "wire \<Rightarrow> 's transport \<Rightarrow> remote_executor \<Rightarrow> request_context \<Rightarrow> 's \<Rightarrow> (command_output fs_result \<times> 's) option" where
  "remote_workspace_usage W T R ctx s =
     returned OutUsage (send_json W T R as_usage (build_request GET (remote_url R (cx_workspace_id ctx) ''/usage'') [] no_body) s)"

definition remote_exists ::
  "wire \<Rightarrow> 's transport \<Rightarrow> remote_executor \<Rightarrow> request_context \<Rightarrow> virtual_path \<Rightarrow> stat_options \<Rightarrow> 's \<Rightarrow> (command_output fs_result \<times> 's) option" where
  "remote_exists W T R ctx path options s =
     map_option
       (\<lambda>(r, t). (case r of
            Inr _ \<Rightarrow> Inr (OutExists True)
          | Inl err \<Rightarrow> if err_code err = NotFound then Inr (OutExists False) else Inl err, t))
       (remote_stat W T R ctx path (so_follow_symlinks options) s)"

definition remote_read_dir ::
  "wire \<Rightarrow> 's transport \<Rightarrow> remote_executor \<Rightarrow> request_context \<Rightarrow> virtual_path \<Rightarrow> page_request \<Rightarrow> 's \<Rightarrow> (command_output fs_result \<times> 's) option" where
  "remote_read_dir W T R ctx path page s =
     returned OutNodes (send_json W T R as_nodes
       (build_request GET (remote_url R (cx_workspace_id ctx) (''/directories'' @ as_str path @ ''/children'')) (page_query page) no_body) s)"

definition remote_tree ::
  "wire \<Rightarrow> 's transport \<Rightarrow> remote_executor \<Rightarrow> request_context \<Rightarrow> virtual_path \<Rightarrow> tree_options \<Rightarrow> page_request \<Rightarrow> 's \<Rightarrow> (command_output fs_result \<times> 's) option" where
  "remote_tree W T R ctx path options page s =
     returned OutTree (send_json W T R as_tree
       (build_request GET (remote_url R (cx_workspace_id ctx) (''/directories'' @ as_str path @ ''/tree''))
          (page_query page @ (case to_max_depth options of Some d \<Rightarrow> [(''max_depth'', show_nat d)] | None \<Rightarrow> []) @
           [(''follow_symlinks'', bool_text (to_follow_symlinks options))]) no_body) s)"

definition remote_mkdir ::
  "wire \<Rightarrow> 's transport \<Rightarrow> remote_executor \<Rightarrow> request_context \<Rightarrow> virtual_path \<Rightarrow> create_options \<Rightarrow> 's \<Rightarrow> (command_output fs_result \<times> 's) option" where
  "remote_mkdir W T R ctx path options s =
     returned OutNode (send_json W T R as_node
       (build_request PUT (remote_url R (cx_workspace_id ctx) (''/fs'' @ as_str path)) [(''type'', ''directory'')]
          (Json (JObject [(''parents'', JBool (co_parents options)), (''exist_ok'', JBool (co_exist_ok options)),
                          (''expected_revision'', of_revision (co_expected_revision options))]))) s)"

definition remote_write ::
  "wire \<Rightarrow> 's transport \<Rightarrow> remote_executor \<Rightarrow> request_context \<Rightarrow> virtual_path \<Rightarrow> byte list \<Rightarrow> write_options \<Rightarrow> 's \<Rightarrow> (command_output fs_result \<times> 's) option" where
  "remote_write W T R ctx path bytes options s =
     returned OutNode (send_json W T R as_node
       (build_request PUT (remote_url R (cx_workspace_id ctx) (''/content'' @ as_str path))
          ((''create'', bool_text (wo_create options)) # revision_query (wo_expected_revision options)) (Bytes bytes)) s)"

definition remote_write_at ::
  "wire \<Rightarrow> 's transport \<Rightarrow> remote_executor \<Rightarrow> request_context \<Rightarrow> virtual_path \<Rightarrow> u64 \<Rightarrow> byte list \<Rightarrow> write_options \<Rightarrow> 's \<Rightarrow> (command_output fs_result \<times> 's) option" where
  "remote_write_at W T R ctx path offset bytes options s =
     returned OutNode (send_json W T R as_node
       (build_request PATCH (remote_url R (cx_workspace_id ctx) (''/content'' @ as_str path))
          ((''offset'', show_u64 offset) # revision_query (wo_expected_revision options)) (Bytes bytes)) s)"

definition remote_append ::
  "wire \<Rightarrow> 's transport \<Rightarrow> remote_executor \<Rightarrow> request_context \<Rightarrow> virtual_path \<Rightarrow> byte list \<Rightarrow> write_options \<Rightarrow> 's \<Rightarrow> (command_output fs_result \<times> 's) option" where
  "remote_append W T R ctx path bytes options s =
     returned OutNode (send_json W T R as_node
       (build_request POST (remote_url R (cx_workspace_id ctx) (''/content'' @ as_str path))
          ((''action'', ''append'') # revision_query (wo_expected_revision options)) (Bytes bytes)) s)"

definition remote_truncate ::
  "wire \<Rightarrow> 's transport \<Rightarrow> remote_executor \<Rightarrow> request_context \<Rightarrow> virtual_path \<Rightarrow> u64 \<Rightarrow> mutation_options \<Rightarrow> 's \<Rightarrow> (command_output fs_result \<times> 's) option" where
  "remote_truncate W T R ctx path len options s =
     returned OutNode (send_json W T R as_node
       (build_request POST (remote_url R (cx_workspace_id ctx) (''/content'' @ as_str path)) [(''action'', ''truncate'')]
          (Json (JObject [(''length'', of_u64 len), (''expected_revision'', of_revision (mo_expected_revision options))]))) s)"

definition remote_touch ::
  "wire \<Rightarrow> 's transport \<Rightarrow> remote_executor \<Rightarrow> request_context \<Rightarrow> virtual_path \<Rightarrow> touch_options \<Rightarrow> 's \<Rightarrow> (command_output fs_result \<times> 's) option" where
  "remote_touch W T R ctx path options s =
     returned OutNode (send_json W T R as_node
       (build_request PATCH (remote_url R (cx_workspace_id ctx) (''/fs'' @ as_str path)) []
          (Json (JObject [(''op'', JString ''touch''), (''create'', JBool (tco_create options)),
                          (''expected_revision'', of_revision (tco_expected_revision options))]))) s)"

definition remote_copy ::
  "wire \<Rightarrow> 's transport \<Rightarrow> remote_executor \<Rightarrow> request_context \<Rightarrow> virtual_path \<Rightarrow> virtual_path \<Rightarrow> copy_options \<Rightarrow> 's \<Rightarrow> (command_output fs_result \<times> 's) option" where
  "remote_copy W T R ctx from_path to_path options s =
     returned OutNode (send_json W T R as_node
       (build_request POST (remote_url R (cx_workspace_id ctx) (''/fs'' @ as_str from_path)) [(''action'', ''copy'')]
          (Json (JObject [(''to'', JString (as_str to_path)), (''recursive'', JBool (cpo_recursive options)),
                          (''overwrite'', JBool (cpo_overwrite options)),
                          (''expected_revision'', of_revision (cpo_expected_revision options))]))) s)"

definition remote_move ::
  "wire \<Rightarrow> 's transport \<Rightarrow> remote_executor \<Rightarrow> request_context \<Rightarrow> virtual_path \<Rightarrow> virtual_path \<Rightarrow> move_options \<Rightarrow> 's \<Rightarrow> (command_output fs_result \<times> 's) option" where
  "remote_move W T R ctx from_path to_path options s =
     returned OutNode (send_json W T R as_node
       (build_request POST (remote_url R (cx_workspace_id ctx) (''/fs'' @ as_str from_path)) [(''action'', ''move'')]
          (Json (JObject [(''to'', JString (as_str to_path)), (''overwrite'', JBool (mvo_overwrite options)),
                          (''expected_revision'', of_revision (mvo_expected_revision options))]))) s)"

definition remote_remove ::
  "wire \<Rightarrow> 's transport \<Rightarrow> remote_executor \<Rightarrow> request_context \<Rightarrow> virtual_path \<Rightarrow> remove_options \<Rightarrow> 's \<Rightarrow> (command_output fs_result \<times> 's) option" where
  "remote_remove W T R ctx path options s =
     returned (\<lambda>_. OutUnit) (send_checked W T R
       (build_request DELETE (remote_url R (cx_workspace_id ctx) (''/fs'' @ as_str path))
          ((''recursive'', bool_text (rmo_recursive options)) # revision_query (rmo_expected_revision options)) no_body) s)"

definition remote_symlink ::
  "wire \<Rightarrow> 's transport \<Rightarrow> remote_executor \<Rightarrow> request_context \<Rightarrow> link_target \<Rightarrow> virtual_path \<Rightarrow> create_options \<Rightarrow> 's \<Rightarrow> (command_output fs_result \<times> 's) option" where
  "remote_symlink W T R ctx target link options s =
     returned OutNode (send_json W T R as_node
       (build_request PUT (remote_url R (cx_workspace_id ctx) (''/fs'' @ as_str link)) [(''type'', ''symlink'')]
          (Json (JObject [(''target'', JString (target_str target)), (''parents'', JBool (co_parents options)),
                          (''exist_ok'', JBool (co_exist_ok options)),
                          (''expected_revision'', of_revision (co_expected_revision options))]))) s)"

definition remote_read_link ::
  "wire \<Rightarrow> 's transport \<Rightarrow> remote_executor \<Rightarrow> request_context \<Rightarrow> virtual_path \<Rightarrow> 's \<Rightarrow> (command_output fs_result \<times> 's) option" where
  "remote_read_link W T R ctx path s =
     returned_with
       (\<lambda>target. andthen (map_err (\<lambda>e. internal_storage_failure (err_message e)) (lt_parse target)) (\<lambda>t. Inr (OutLinkTarget t)))
       (send_json W T R as_target
          (build_request GET (remote_url R (cx_workspace_id ctx) (''/fs'' @ as_str path @ ''/link-target'')) [] no_body) s)"

definition remote_trash ::
  "wire \<Rightarrow> 's transport \<Rightarrow> remote_executor \<Rightarrow> request_context \<Rightarrow> virtual_path \<Rightarrow> mutation_options \<Rightarrow> 's \<Rightarrow> (command_output fs_result \<times> 's) option" where
  "remote_trash W T R ctx path options s =
     returned OutTrash (send_json W T R as_trash
       (build_request POST (remote_url R (cx_workspace_id ctx) (''/fs'' @ as_str path)) [(''action'', ''trash'')]
          (Json (JObject [(''expected_revision'', of_revision (mo_expected_revision options))]))) s)"

definition remote_list_trash ::
  "wire \<Rightarrow> 's transport \<Rightarrow> remote_executor \<Rightarrow> request_context \<Rightarrow> page_request \<Rightarrow> 's \<Rightarrow> (command_output fs_result \<times> 's) option" where
  "remote_list_trash W T R ctx page s =
     returned OutTrashList (send_json W T R as_trash_list
       (build_request GET (remote_url R (cx_workspace_id ctx) ''/trash'') (page_query page) no_body) s)"

definition remote_restore ::
  "wire \<Rightarrow> 's transport \<Rightarrow> remote_executor \<Rightarrow> request_context \<Rightarrow> uuid \<Rightarrow> virtual_path option \<Rightarrow> mutation_options \<Rightarrow> 's \<Rightarrow> (command_output fs_result \<times> 's) option" where
  "remote_restore W T R ctx tid destination options s =
     returned OutNode (send_json W T R as_node
       (build_request POST (remote_url R (cx_workspace_id ctx) (''/trash/'' @ tid @ ''/restore'')) []
          (Json (JObject [(''destination'', of_option (\<lambda>p. JString (as_str p)) destination),
                          (''expected_revision'', of_revision (mo_expected_revision options))]))) s)"

definition remote_purge ::
  "wire \<Rightarrow> 's transport \<Rightarrow> remote_executor \<Rightarrow> request_context \<Rightarrow> uuid \<Rightarrow> 's \<Rightarrow> (command_output fs_result \<times> 's) option" where
  "remote_purge W T R ctx tid s =
     returned (\<lambda>_. OutUnit) (send_checked W T R
       (build_request DELETE (remote_url R (cx_workspace_id ctx) (''/trash/'' @ tid)) [] no_body) s)"

definition remote_set_attribute ::
  "wire \<Rightarrow> 's transport \<Rightarrow> remote_executor \<Rightarrow> request_context \<Rightarrow> virtual_path \<Rightarrow> string \<Rightarrow> byte list \<Rightarrow> mutation_options \<Rightarrow> 's \<Rightarrow> (command_output fs_result \<times> 's) option" where
  "remote_set_attribute W T R ctx path key val options s =
     returned OutNode (send_json W T R as_node
       (build_request PATCH (remote_url R (cx_workspace_id ctx) (''/fs'' @ as_str path)) []
          (Json (JObject [(''op'', JString ''set_attribute''), (''key'', JString key), (''value_base64'', JString (w_encode W val)),
                          (''expected_revision'', of_revision (mo_expected_revision options))]))) s)"

definition remote_remove_attribute ::
  "wire \<Rightarrow> 's transport \<Rightarrow> remote_executor \<Rightarrow> request_context \<Rightarrow> virtual_path \<Rightarrow> string \<Rightarrow> mutation_options \<Rightarrow> 's \<Rightarrow> (command_output fs_result \<times> 's) option" where
  "remote_remove_attribute W T R ctx path key options s =
     returned OutNode (send_json W T R as_node
       (build_request PATCH (remote_url R (cx_workspace_id ctx) (''/fs'' @ as_str path)) []
          (Json (JObject [(''op'', JString ''remove_attribute''), (''key'', JString key),
                          (''expected_revision'', of_revision (mo_expected_revision options))]))) s)"

definition remote_glob ::
  "wire \<Rightarrow> 's transport \<Rightarrow> remote_executor \<Rightarrow> request_context \<Rightarrow> string \<Rightarrow> page_request \<Rightarrow> 's \<Rightarrow> (command_output fs_result \<times> 's) option" where
  "remote_glob W T R ctx pattern page s =
     returned OutNodes (send_json W T R as_nodes
       (build_request GET (remote_url R (cx_workspace_id ctx) ''/search/glob'') ((''pattern'', pattern) # page_query page) no_body) s)"

definition remote_find ::
  "wire \<Rightarrow> 's transport \<Rightarrow> remote_executor \<Rightarrow> request_context \<Rightarrow> find_query \<Rightarrow> page_request \<Rightarrow> 's \<Rightarrow> (command_output fs_result \<times> 's) option" where
  "remote_find W T R ctx query page s =
     returned OutNodes (send_json W T R as_nodes
       (build_request POST (remote_url R (cx_workspace_id ctx) ''/search/find'') []
          (Json (JObject [(''query'', find_query_json query), (''page'', page_body page)]))) s)"

definition remote_search_content ::
  "wire \<Rightarrow> 's transport \<Rightarrow> remote_executor \<Rightarrow> request_context \<Rightarrow> content_query \<Rightarrow> page_request \<Rightarrow> 's \<Rightarrow> (command_output fs_result \<times> 's) option" where
  "remote_search_content W T R ctx query page s =
     returned_with
       (\<lambda>found. andthen (collect_results (map (decode_match W) (pg_items found))) (\<lambda>items.
          Inr (OutSearchMatches \<lparr>pg_items = items, pg_next_cursor = pg_next_cursor found\<rparr>)))
       (send_json W T R as_matches
          (build_request POST (remote_url R (cx_workspace_id ctx) ''/search/content'') []
             (Json (JObject [(''root'', of_path (cq_root query)), (''needle_base64'', JString (w_encode W (cq_needle query))),
                             (''page'', page_body page)]))) s)"

definition remote_changes ::
  "wire \<Rightarrow> 's transport \<Rightarrow> remote_executor \<Rightarrow> request_context \<Rightarrow> string option \<Rightarrow> page_request \<Rightarrow> 's \<Rightarrow> (command_output fs_result \<times> 's) option" where
  "remote_changes W T R ctx after_cursor page s =
     returned OutChanges (send_json W T R as_changes
       (build_request GET (remote_url R (cx_workspace_id ctx) ''/changes'')
          (page_query page @ (case after_cursor of Some c \<Rightarrow> [(''after'', c)] | None \<Rightarrow> [])) no_body) s)"

definition remote_batch ::
  "wire \<Rightarrow> 's transport \<Rightarrow> remote_executor \<Rightarrow> request_context \<Rightarrow> batch_operation list \<Rightarrow> 's \<Rightarrow> (command_output fs_result \<times> 's) option" where
  "remote_batch W T R ctx operations s =
     returned OutBatch (send_json W T R as_results
       (build_request POST (remote_url R (cx_workspace_id ctx) ''/batch'') []
          (Json (JObject [(''operations'', JArray (map operation_json operations))]))) s)"

fun remote_execute ::
  "wire \<Rightarrow> 's transport \<Rightarrow> remote_executor \<Rightarrow> request_context \<Rightarrow> command \<Rightarrow> 's \<Rightarrow> (command_output fs_result \<times> 's) option" where
  "remote_execute W T R ctx CmdWorkspaceUsage s = remote_workspace_usage W T R ctx s"
| "remote_execute W T R ctx (CmdStat path options) s = returned OutNode (remote_stat W T R ctx path (so_follow_symlinks options) s)"
| "remote_execute W T R ctx (CmdExists path options) s = remote_exists W T R ctx path options s"
| "remote_execute W T R ctx (CmdReadDir path page) s = remote_read_dir W T R ctx path page s"
| "remote_execute W T R ctx (CmdTree path options page) s = remote_tree W T R ctx path options page s"
| "remote_execute W T R ctx (CmdMkdir path options) s = remote_mkdir W T R ctx path options s"
| "remote_execute W T R ctx (CmdRead path options) s = remote_read W T R ctx path options s"
| "remote_execute W T R ctx (CmdWrite path bytes options) s = remote_write W T R ctx path bytes options s"
| "remote_execute W T R ctx (CmdWriteAt path offset bytes options) s = remote_write_at W T R ctx path offset bytes options s"
| "remote_execute W T R ctx (CmdAppend path bytes options) s = remote_append W T R ctx path bytes options s"
| "remote_execute W T R ctx (CmdTruncate path len options) s = remote_truncate W T R ctx path len options s"
| "remote_execute W T R ctx (CmdTouch path options) s = remote_touch W T R ctx path options s"
| "remote_execute W T R ctx (CmdCopy from_path to_path options) s = remote_copy W T R ctx from_path to_path options s"
| "remote_execute W T R ctx (CmdMove from_path to_path options) s = remote_move W T R ctx from_path to_path options s"
| "remote_execute W T R ctx (CmdRemove path options) s = remote_remove W T R ctx path options s"
| "remote_execute W T R ctx (CmdSymlink target link options) s = remote_symlink W T R ctx target link options s"
| "remote_execute W T R ctx (CmdReadLink path) s = remote_read_link W T R ctx path s"
| "remote_execute W T R ctx (CmdTrash path options) s = remote_trash W T R ctx path options s"
| "remote_execute W T R ctx (CmdListTrash page) s = remote_list_trash W T R ctx page s"
| "remote_execute W T R ctx (CmdRestore tid destination options) s = remote_restore W T R ctx tid destination options s"
| "remote_execute W T R ctx (CmdPurge tid) s = remote_purge W T R ctx tid s"
| "remote_execute W T R ctx (CmdSetAttribute path key val options) s = remote_set_attribute W T R ctx path key val options s"
| "remote_execute W T R ctx (CmdRemoveAttribute path key options) s = remote_remove_attribute W T R ctx path key options s"
| "remote_execute W T R ctx (CmdGlob pattern page) s = remote_glob W T R ctx pattern page s"
| "remote_execute W T R ctx (CmdFind query page) s = remote_find W T R ctx query page s"
| "remote_execute W T R ctx (CmdSearchContent query page) s = remote_search_content W T R ctx query page s"
| "remote_execute W T R ctx (CmdChanges after_cursor page) s = remote_changes W T R ctx after_cursor page s"
| "remote_execute W T R ctx (CmdBatch operations) s = remote_batch W T R ctx operations s"

lemmas remote_defs =
  remote_workspace_usage_def remote_exists_def remote_read_dir_def remote_tree_def
  remote_mkdir_def remote_write_def remote_write_at_def remote_append_def
  remote_truncate_def remote_touch_def remote_copy_def remote_move_def
  remote_remove_def remote_symlink_def remote_read_link_def remote_trash_def
  remote_list_trash_def remote_restore_def remote_purge_def remote_set_attribute_def
  remote_remove_attribute_def remote_glob_def remote_find_def remote_search_content_def
  remote_changes_def remote_batch_def

end
