(* ===== verification/Server_Facts.thy ===== *)
theory Server_Facts
  imports Server
begin

text \<open>
  Which credential a request needs. A request is authorized when its header authenticates an
  actor of the workspace its URL names, or, for the creation of a workspace, an actor who may
  administer workspaces.
\<close>

fun route_workspace :: "route \<Rightarrow> string option" where
  "route_workspace (AtWorkspace w) = Some w"
| "route_workspace (AtUsage w) = Some w"
| "route_workspace (AtReset w) = Some w"
| "route_workspace (AtFs w _) = Some w"
| "route_workspace (AtDirectories w _) = Some w"
| "route_workspace (AtContent w _) = Some w"
| "route_workspace (AtTrash w) = Some w"
| "route_workspace (AtTrashEntry w _) = Some w"
| "route_workspace (AtRestore w _) = Some w"
| "route_workspace (AtGlob w) = Some w"
| "route_workspace (AtFind w) = Some w"
| "route_workspace (AtSearchContent w) = Some w"
| "route_workspace (AtChanges w) = Some w"
| "route_workspace (AtBatch w) = Some w"
| "route_workspace _ = None"

definition authorized :: "wire \<Rightarrow> 's app_state \<Rightarrow> http_request \<Rightarrow> bool" where
  "authorized W A rq \<longleftrightarrow>
     (case (as_auth A (rq_authorization rq), w_match W (rq_url rq)) of
        (Inr a, Some r) \<Rightarrow>
          (case route_workspace r of
             Some raw \<Rightarrow> w_uuid W raw = Some (aa_workspace_id a) \<and>
               (case r of AtWorkspace _ \<Rightarrow> CapWorkspaceAdmin \<in> set (aa_capabilities a)
                | AtReset _ \<Rightarrow> CapWorkspaceAdmin \<in> set (aa_capabilities a)
                | _ \<Rightarrow> True)
           | None \<Rightarrow> r = Workspaces \<and> CapWorkspaceAdmin \<in> set (aa_capabilities a))
      | _ \<Rightarrow> False)"

text \<open>An answer that does not look at the store and leaves it alone.\<close>

definition blind :: "('s \<Rightarrow> 's reply) \<Rightarrow> bool" where
  "blind f \<longleftrightarrow> (\<exists>r. \<forall>s. f s = Some (r, s))"

lemma blind_refuse: "blind (\<lambda>s. refuse e s)" "blind (\<lambda>s. reject n s)" "blind (\<lambda>s. Some (r, s))"
  by (auto simp: blind_def refuse_def reject_def)

lemma blind_tried: "(\<And>x. r = Inr x \<Longrightarrow> blind (\<lambda>s. k s x)) \<Longrightarrow> blind (\<lambda>s. tried r s (k s))"
  by (cases r) (simp_all add: tried_def blind_refuse)

lemma blind_methods:
  "blind f \<Longrightarrow> blind (\<lambda>s. getting rq s (f s))"
  "blind f \<Longrightarrow> blind (\<lambda>s. with_method m rq s (f s))"
  by (cases "rq_method rq \<in> set [GET, HEAD]"; simp add: getting_def blind_refuse)
    (cases "rq_method rq = m"; simp add: with_method_def blind_refuse)

lemma blind_with_ctx:
  assumes "\<And>a. as_auth A (rq_authorization rq) = Inr a \<Longrightarrow> w_uuid W w \<noteq> Some (aa_workspace_id a)"
  shows "blind (\<lambda>s. with_ctx W A rq w s (k s))"
  using assms unfolding with_ctx_def
  by (intro blind_tried) (auto simp: from_request_parts_def ok_or_def split: if_splits option.splits)

lemma blind_admin:
  assumes "\<not> authorized W A rq"
  shows "w_match W (rq_url rq) = Some Workspaces \<Longrightarrow> blind (handle_create_workspace A rq)"
    and "w_match W (rq_url rq) = Some (AtWorkspace w) \<Longrightarrow> blind (handle_delete_workspace W A rq w)"
    and "w_match W (rq_url rq) = Some (AtReset w) \<Longrightarrow> blind (handle_reset_workspace W A rq w)"
proof -
  let ?a = "as_auth A (rq_authorization rq)"
  show "blind (handle_create_workspace A rq)" if "w_match W (rq_url rq) = Some Workspaces"
    using assms that by (cases ?a) (simp_all add: authorized_def handle_create_workspace_def [abs_def] tried_def blind_refuse)
  show "blind (handle_delete_workspace W A rq w)" if "w_match W (rq_url rq) = Some (AtWorkspace w)"
    using assms that
    by (cases ?a; cases "w_uuid W w") (auto simp: authorized_def handle_delete_workspace_def [abs_def] tried_def blind_refuse)
  show "blind (handle_reset_workspace W A rq w)" if "w_match W (rq_url rq) = Some (AtReset w)"
    using assms that
    by (cases ?a; cases "w_uuid W w"; cases "w_uuid W w = Some (aa_workspace_id (projr ?a))")
      (auto simp: authorized_def handle_reset_workspace_def [abs_def] tried_def blind_refuse)
qed

lemma blind_scoped:
  assumes "\<not> authorized W A rq" "w_match W (rq_url rq) = Some r" "route_workspace r = Some w"
    and "r \<noteq> AtWorkspace w" "r \<noteq> AtReset w"
  shows "blind (\<lambda>s. with_ctx W A rq w s (k s))"
  using assms by (intro blind_with_ctx) (cases r; simp add: authorized_def)

lemma route_reply_blind:
  assumes "\<not> authorized W A rq" "w_match W (rq_url rq) \<noteq> Some Readyz"
  shows "blind (route_reply W A rq)"
proof (cases "w_match W (rq_url rq)")
  case None
  then show ?thesis by (simp add: route_reply_def [abs_def] blind_refuse)
next
  case (Some r)
  note scoped = blind_scoped [OF assms(1) Some]
  have nodes: "r = AtFs w raw \<Longrightarrow> blind (nodes_router W A rq w raw)" for w raw
    using scoped [of w] by (cases "rq_method rq") (simp_all add: nodes_router_def [abs_def] Let_def)
  have content: "r = AtContent w raw \<Longrightarrow> blind (content_router W A rq w raw)" for w raw
    using scoped [of w] by (cases "rq_method rq") (simp_all add: content_router_def [abs_def] Let_def blind_refuse)
  show ?thesis
    using Some assms scoped nodes content
    by (cases r) (auto simp: route_reply_def [abs_def] Let_def healthz_def me_def
        intro!: blind_methods blind_admin blind_refuse blind_tried)
qed

theorem unauthorized_blind:
  assumes "\<not> authorized W A rq" "w_match W (rq_url rq) \<noteq> Some Readyz"
  shows "\<exists>response. \<forall>s. app W A rq s = Some (response, s)"
  using route_reply_blind [OF assms] by (auto simp: blind_def app_def)

end
