(* ===== verification/Remote_Facts.thy ===== *)
theory Remote_Facts
  imports Remote Sessions
begin

text \<open>
  The client of \<open>remote.rs\<close> against the server: a command executed by requests does and returns
  what the command does in the same process. What the two programs rely on in the crates they
  share is stated first.
\<close>

subsection \<open>What is relied on\<close>

text \<open>
  An identifier in a URL is made of characters that stay as they are. In a path they may be any but
  a few: what is not kept as it is, a space or a letter outside of ASCII, is escaped by the URL
  parser of the client and unescaped by the router of the server. The exceptions are those the URL
  parser drops or gives a meaning of their own, and that \<open>remote.rs\<close> does not escape: control
  characters, a question mark, a number sign, a percent sign, a backslash, and a space at the end.
  (The strings are the UTF-8 bytes of the source's.)
\<close>

definition plain_char :: "char \<Rightarrow> bool" where
  "plain_char c \<longleftrightarrow>
     (let n = of_char c
      in 48 \<le> n \<and> n \<le> (57 :: nat) \<or> 65 \<le> n \<and> n \<le> 90 \<or> 97 \<le> n \<and> n \<le> 122) \<or> c \<in> set ''-._~''"

definition plain_id :: "string \<Rightarrow> bool" where
  "plain_id i \<longleftrightarrow> i \<noteq> '''' \<and> list_all plain_char i"

definition url_char :: "char \<Rightarrow> bool" where
  "url_char c \<longleftrightarrow> 32 \<le> (of_char c :: nat) \<and> c \<notin> set [CHR 0x3F, CHR 0x23, CHR 0x25, CHR 0x5C]"

definition plain_path :: "virtual_path \<Rightarrow> bool" where
  "plain_path p \<longleftrightarrow> canonical p \<and> list_all url_char (as_str p) \<and> last (as_str p) \<noteq> CHR 0x20"

text \<open>
  The router finds the pattern a URL below a workspace was built for; a wildcard takes the rest
  of the path, unescaped, and does not match an empty one.
\<close>

definition routes_ok :: "wire \<Rightarrow> remote_executor \<Rightarrow> uuid \<Rightarrow> bool" where
  "routes_ok W R w \<longleftrightarrow>
     w_match W (remote_url R w ''/usage'') = Some (AtUsage w) \<and>
     w_match W (remote_url R w ''/trash'') = Some (AtTrash w) \<and>
     w_match W (remote_url R w ''/search/glob'') = Some (AtGlob w) \<and>
     w_match W (remote_url R w ''/search/find'') = Some (AtFind w) \<and>
     w_match W (remote_url R w ''/search/content'') = Some (AtSearchContent w) \<and>
     w_match W (remote_url R w ''/changes'') = Some (AtChanges w) \<and>
     w_match W (remote_url R w ''/batch'') = Some (AtBatch w) \<and>
     (\<forall>i. plain_id i \<longrightarrow>
        w_match W (remote_url R w (''/trash/'' @ i)) = Some (AtTrashEntry w i) \<and>
        w_match W (remote_url R w (''/trash/'' @ i @ ''/restore'')) = Some (AtRestore w i)) \<and>
     (\<forall>p. plain_path p \<longrightarrow>
        w_match W (remote_url R w (''/fs'' @ as_str p @ ''/link-target'')) = Some (AtFs w (tl (as_str p) @ ''/link-target'')) \<and>
        w_match W (remote_url R w (''/directories'' @ as_str p @ ''/children'')) = Some (AtDirectories w (tl (as_str p) @ ''/children'')) \<and>
        w_match W (remote_url R w (''/directories'' @ as_str p @ ''/tree'')) = Some (AtDirectories w (tl (as_str p) @ ''/tree'')) \<and>
        (p \<noteq> vp_root \<longrightarrow>
           w_match W (remote_url R w (''/fs'' @ as_str p)) = Some (AtFs w (tl (as_str p))) \<and>
           w_match W (remote_url R w (''/content'' @ as_str p)) = Some (AtContent w (tl (as_str p)))))"

definition base64_ok :: "wire \<Rightarrow> bool" where
  "base64_ok W \<longleftrightarrow> (\<forall>bytes. w_decode W (w_encode W bytes) = Inr bytes)"

text \<open>The token of the client is that of an actor of the workspace.\<close>

definition signed_in :: "wire \<Rightarrow> 's app_state \<Rightarrow> remote_executor \<Rightarrow> request_context \<Rightarrow> bool" where
  "signed_in W A R ctx \<longleftrightarrow>
     (\<exists>a. as_auth A (Some (''Bearer '' @ re_token R)) = Inr a \<and> ctx = actor_context a) \<and>
     w_uuid W (cx_workspace_id ctx) = Some (cx_workspace_id ctx)"

text \<open>A transport that hands each request to the server.\<close>

definition through :: "wire \<Rightarrow> 's app_state \<Rightarrow> 's transport" where
  "through W A rq s = map_option (\<lambda>(response, t). (Inr response, t)) (app W A rq s)"

text \<open>The body of the first request of a command.\<close>

definition sent_body :: "wire \<Rightarrow> remote_executor \<Rightarrow> request_context \<Rightarrow> command \<Rightarrow> request_body" where
  "sent_body W R ctx cmd =
     (case remote_execute W (\<lambda>rq _. Some (Inl '''', rq_body rq)) R ctx cmd no_body of
        Some (_, body) \<Rightarrow> body
      | None \<Rightarrow> no_body)"

subsection \<open>Exchanges with the server\<close>

lemma error_comes_back:
  "\<not> success (error_response e)"
  "error_from_response W (error_response (Domain err)) = err"
proof -
  show "\<not> success (error_response e)"
    by (cases e) (auto simp: error_response_def domain_status_error, simp_all add: success_def respond_def)
  show "error_from_response W (error_response (Domain err)) = err"
    by (cases err) (simp add: error_from_response_def error_response_def respond_def code_round_trip)
qed

text \<open>What the client makes of an answer of the server.\<close>

definition understood :: "wire \<Rightarrow> http_response api_result \<Rightarrow> http_response fs_result" where
  "understood W r =
     (case r of
        Inl e \<Rightarrow> Inl (error_from_response W (error_response e))
      | Inr response \<Rightarrow> if success response then Inr response else Inl (error_from_response W response))"

definition heard :: "wire \<Rightarrow> (response_body \<Rightarrow> 'a option) \<Rightarrow> 's reply \<Rightarrow> ('a fs_result \<times> 's) option" where
  "heard W f reply =
     map_option
       (\<lambda>(r, t). (res_bind (understood W r) (\<lambda>response.
          ok_or (map_reqwest_err (w_decode_error W (rs_payload response))) (f (rs_payload response))), t)) reply"

definition heard_status :: "wire \<Rightarrow> 's reply \<Rightarrow> (http_response fs_result \<times> 's) option" where
  "heard_status W reply = map_option (\<lambda>(r, t). (understood W r, t)) reply"

lemma send_checked_through:
  "send_checked W (through W A) R rq s = heard_status W (route_reply W A (bearer_auth R rq) s)"
  using error_comes_back
  by (auto simp: send_checked_def send_def through_def app_def understood_def map_err_def option.map_comp comp_def heard_status_def
      split: prod.splits sum.splits intro!: option.map_cong0)

lemma send_json_through:
  "send_json W (through W A) R f rq s = heard W f (route_reply W A (bearer_auth R rq) s)"
  by (simp add: send_json_def send_checked_through heard_status_def heard_def option.map_comp comp_def case_prod_unfold)

lemma understood_simps [simp]:
  "understood W (Inl (Domain e)) = Inl e"
  "understood W (Inr (respond 200 body)) = Inr (respond 200 body)"
  using error_comes_back by (simp_all add: understood_def, simp add: success_def respond_def)

lemma heard_ok:
  assumes "\<And>x. f (g x) = Some (h x)"
  shows "heard W f (ok_json g r) = Some (map_sum id h (fst r), snd r)"
    "heard W f (ok_scan g q s) = map_option (\<lambda>x. (map_sum id h x, s)) q"
proof -
  show *: "heard W f (ok_json g r) = Some (map_sum id h (fst r), snd r)" for r
    using assms by (cases "fst r") (simp_all add: heard_def ok_json_def replied_def, simp add: respond_def ok_or_def)
  show "heard W f (ok_scan g q s) = map_option (\<lambda>x. (map_sum id h x, s)) q"
    by (cases q) (simp_all add: ok_scan_def *, simp add: heard_def)
qed

lemmas heard_simps [simp] =
  heard_ok [where f = as_node and g = NodePayload and h = id, simplified]
  heard_ok [where f = as_nodes and g = NodesPayload and h = id, simplified]
  heard_ok [where f = as_tree and g = TreePayload and h = id, simplified]
  heard_ok [where f = as_usage and g = UsagePayload and h = id, simplified]
  heard_ok [where f = as_trash and g = TrashPayload and h = id, simplified]
  heard_ok [where f = as_trash_list and g = TrashListPayload and h = id, simplified]
  heard_ok [where f = as_changes and g = ChangesPayload and h = id, simplified]
  heard_ok [where f = as_results and g = BatchPayload and h = id, simplified]
  heard_ok [where f = as_target and g = "\<lambda>t. TargetPayload (target_str t) (lt_is_absolute t)" and h = target_str, simplified]

subsection \<open>What the server reads is what was sent\<close>

lemma params_simps [simp]:
  "params_of [] = Map.empty"
  "params_of ((k, v) # xs) = (\<lambda>i. case params_of xs i of None \<Rightarrow> if i = k then Some v else None | Some u \<Rightarrow> Some u)"
  "params_of (xs @ ys) = (\<lambda>i. case params_of ys i of None \<Rightarrow> params_of xs i | Some u \<Rightarrow> Some u)"
  by (auto simp: params_of_def fun_eq_iff map_add_def split: option.splits)

definition rev_ok :: "revision option \<Rightarrow> bool" where
  "rev_ok r \<longleftrightarrow> r \<noteq> Some (Revision 0)"

lemma revision_read_back [simp]:
  "rev_ok r \<Longrightarrow> revision_from (map_option rev_get r) = Inr r"
  by (cases r; cases "the r") (auto simp: revision_from_def rev_ok_def rev_new_def)

lemma revision_params:
  "params_of (revision_query r) k = (if k = ''expected_revision'' then map_option (\<lambda>x. show_u64 (rev_get x)) r else None)"
  by (cases r) (simp_all add: revision_query_def)

lemma page_params:
  "params_of (page_query page) k =
     (if k = ''limit'' then Some (show_nat (pr_limit page)) else if k = ''cursor'' then pr_cursor page else None)"
  by (cases "pr_cursor page") (simp_all add: page_query_def)

lemma query_revision_read_back:
  "rev_ok r \<Longrightarrow> params ''expected_revision'' = map_option (\<lambda>x. show_u64 (rev_get x)) r \<Longrightarrow> query_revision params = Inr r"
  by (cases r; cases "the r") (auto simp: query_revision_def rev_ok_def rev_new_def ok_or_def)

lemma query_page_read_back:
  "pr_limit page < 2 ^ 32 \<Longrightarrow> params ''limit'' = Some (show_nat (pr_limit page)) \<Longrightarrow> params ''cursor'' = pr_cursor page
    \<Longrightarrow> query_page params = Inr page"
  by (simp add: query_page_def query_u32_def ok_or_def parse_u32_show)

lemma query_bool_read_back: "params key = Some (bool_text b) \<Longrightarrow> query_bool params key d = Inr b"
  by (simp add: query_bool_def ok_or_def)

lemma page_body_read_back [simp]:
  "pr_limit page < 2 ^ 32 \<Longrightarrow> page_request_dto_of (page_body page) = Some page"
  by (simp add: page_request_dto_of_def page_body_def field_opt_def parse_u32_show)

lemma canonical_starts: "canonical p \<Longrightarrow> as_str p = slash # tl (as_str p)"
  unfolding canonical_def path_of_def by (metis list.sel(3) render_nonempty render_segments_def virtual_path.sel)

lemma route_path_read_back: "canonical p \<Longrightarrow> route_path (tl (as_str p)) = Inr p"
  using canonical_starts [of p] vp_parse_as_str [of p] by (simp add: route_path_def map_err_def)

lemma route_path_again: "canonical p \<Longrightarrow> route_path (as_str p) = Inr p"
proof -
  assume p: "canonical p"
  obtain cs where cs: "as_str p = slash # cs" using canonical_starts [OF p] by blast
  have "nul \<notin> set (as_str p)" using vp_parse_as_str [OF p] by (auto simp: vp_parse_def split: if_splits)
  with cs have "vp_parse (slash # as_str p) = vp_parse (as_str p)"
    by (simp add: vp_parse_def normalize_def norm_step_def)
  with vp_parse_as_str [OF p] show ?thesis by (simp add: route_path_def map_err_def)
qed

lemma strip_suffix_append [simp]: "strip_suffix pat (s @ pat) = Some s"
  by (simp add: strip_suffix_def suffix_def)

lemma directories_not_children: "strip_suffix ''/children'' (s @ ''/tree'') = None"
  by (simp add: strip_suffix_def suffix_def)

lemma signed_in_ctx:
  "signed_in W A R ctx \<Longrightarrow> from_request_parts W A (bearer_auth R rq) (cx_workspace_id ctx) = Inr ctx"
  by (auto simp: signed_in_def from_request_parts_def bearer_auth_def ok_or_def actor_context_def)

subsection \<open>The commands\<close>

text \<open>A path the route of nodes and of content takes; a final \<open>link-target\<close> below a directory names the route of links.\<close>

definition addressable :: "virtual_path \<Rightarrow> bool" where
  "addressable p \<longleftrightarrow> plain_path p \<and> p \<noteq> vp_root"

definition stat_addressable :: "virtual_path \<Rightarrow> bool" where
  "stat_addressable p \<longleftrightarrow> addressable p \<and> strip_suffix ''/link-target'' (tl (as_str p)) = None"

definition known_id :: "wire \<Rightarrow> uuid \<Rightarrow> bool" where
  "known_id W i \<longleftrightarrow> plain_id i \<and> w_uuid W i = Some i"

definition page_ok :: "page_request \<Rightarrow> bool" where
  "page_ok page \<longleftrightarrow> pr_limit page < 2 ^ 32"

text \<open>
  What the requests of \<open>remote.rs\<close> can carry as it is: every command but \<open>Read\<close>, which takes two
  requests, with paths and identifiers the routes take and values the types of the source have.
  \<open>WriteAt\<close> and \<open>Append\<close> are sent without their \<open>create\<close> option, which the server takes to be set.
\<close>

fun sendable :: "wire \<Rightarrow> command \<Rightarrow> bool" where
  "sendable W CmdWorkspaceUsage = True"
| "sendable W (CmdStat path _) = stat_addressable path"
| "sendable W (CmdExists path _) = stat_addressable path"
| "sendable W (CmdReadDir path page) = (plain_path path \<and> page_ok page)"
| "sendable W (CmdTree path options page) = (plain_path path \<and> page_ok page \<and> pred_option (\<lambda>d. d < 2 ^ 32) (to_max_depth options))"
| "sendable W (CmdMkdir path options) = (addressable path \<and> rev_ok (co_expected_revision options))"
| "sendable W (CmdRead path options) = False"
| "sendable W (CmdWrite path _ options) = (addressable path \<and> rev_ok (wo_expected_revision options))"
| "sendable W (CmdWriteAt path _ _ options) = (addressable path \<and> rev_ok (wo_expected_revision options) \<and> wo_create options)"
| "sendable W (CmdAppend path _ options) = (addressable path \<and> rev_ok (wo_expected_revision options) \<and> wo_create options)"
| "sendable W (CmdTruncate path _ options) = (addressable path \<and> rev_ok (mo_expected_revision options))"
| "sendable W (CmdTouch path options) = (addressable path \<and> rev_ok (tco_expected_revision options))"
| "sendable W (CmdCopy from_path to_path options) = (addressable from_path \<and> canonical to_path \<and> rev_ok (cpo_expected_revision options))"
| "sendable W (CmdMove from_path to_path options) = (addressable from_path \<and> canonical to_path \<and> rev_ok (mvo_expected_revision options))"
| "sendable W (CmdRemove path options) = (addressable path \<and> rev_ok (rmo_expected_revision options))"
| "sendable W (CmdSymlink target link options) = (valid_target target \<and> addressable link \<and> rev_ok (co_expected_revision options))"
| "sendable W (CmdReadLink path) = plain_path path"
| "sendable W (CmdTrash path options) = (addressable path \<and> rev_ok (mo_expected_revision options))"
| "sendable W (CmdListTrash page) = page_ok page"
| "sendable W (CmdRestore tid dest options) = (known_id W tid \<and> pred_option canonical dest \<and> rev_ok (mo_expected_revision options))"
| "sendable W (CmdPurge tid) = known_id W tid"
| "sendable W (CmdSetAttribute path _ _ options) = (addressable path \<and> rev_ok (mo_expected_revision options))"
| "sendable W (CmdRemoveAttribute path _ options) = (addressable path \<and> rev_ok (mo_expected_revision options))"
| "sendable W (CmdGlob _ page) = page_ok page"
| "sendable W (CmdFind query page) = (canonical (fq_root query) \<and> small_query query \<and> page_ok page)"
| "sendable W (CmdSearchContent query page) = (canonical (cq_root query) \<and> page_ok page)"
| "sendable W (CmdChanges _ page) = page_ok page"
| "sendable W (CmdBatch operations) = (list_all legal_op operations \<and> list_all (known_op W) operations)"

definition body_fits :: "wire \<Rightarrow> command \<Rightarrow> request_body \<Rightarrow> bool" where
  "body_fits W cmd body \<longleftrightarrow>
     w_size W body \<le> w_body_limit W \<and> (\<forall>path len options. cmd = CmdTruncate path len options \<longrightarrow> w_size W body \<le> MAX_TRUNCATE_BODY_BYTES)"

lemma canonical_addressable [simp]: "addressable p \<Longrightarrow> canonical p" "plain_path p \<Longrightarrow> canonical p"
  by (simp_all add: addressable_def plain_path_def)

lemma matches:
  assumes "routes_ok W R w"
  shows "w_match W (remote_url R w ''/usage'') = Some (AtUsage w)"
    "w_match W (remote_url R w ''/trash'') = Some (AtTrash w)"
    "w_match W (remote_url R w ''/search/glob'') = Some (AtGlob w)"
    "w_match W (remote_url R w ''/search/find'') = Some (AtFind w)"
    "w_match W (remote_url R w ''/search/content'') = Some (AtSearchContent w)"
    "w_match W (remote_url R w ''/changes'') = Some (AtChanges w)"
    "w_match W (remote_url R w ''/batch'') = Some (AtBatch w)"
    "known_id W i \<Longrightarrow> w_match W (remote_url R w (''/trash/'' @ i)) = Some (AtTrashEntry w i)"
    "known_id W i \<Longrightarrow> w_match W (remote_url R w (''/trash/'' @ i @ ''/restore'')) = Some (AtRestore w i)"
    "plain_path p \<Longrightarrow> w_match W (remote_url R w (''/fs'' @ as_str p @ ''/link-target'')) = Some (AtFs w (tl (as_str p) @ ''/link-target''))"
    "plain_path p \<Longrightarrow> w_match W (remote_url R w (''/directories'' @ as_str p @ ''/children'')) = Some (AtDirectories w (tl (as_str p) @ ''/children''))"
    "plain_path p \<Longrightarrow> w_match W (remote_url R w (''/directories'' @ as_str p @ ''/tree'')) = Some (AtDirectories w (tl (as_str p) @ ''/tree''))"
    "addressable p \<Longrightarrow> w_match W (remote_url R w (''/fs'' @ as_str p)) = Some (AtFs w (tl (as_str p)))"
    "addressable p \<Longrightarrow> w_match W (remote_url R w (''/content'' @ as_str p)) = Some (AtContent w (tl (as_str p)))"
  using assms unfolding routes_ok_def addressable_def known_id_def by blast+

locale served_file_system =
  fixes F :: "'s file_system"
  assumes exists_is_stat: "\<And>ctx path options s. fs_op_exists F ctx path options s =
      (case fs_op_stat F ctx path options s of
         Inr _ \<Rightarrow> Inr True
       | Inl err \<Rightarrow> if err_code err = NotFound then Inr False else Inl err)"
    and read_link_valid: "\<And>ctx path s t. fs_op_read_link F ctx path s = Inr t \<Longrightarrow> valid_target t"

lemma request_simps [simp]:
  "rq_method (bearer_auth R (build_request m u q b)) = m"
  "rq_url (bearer_auth R (build_request m u q b)) = u"
  "rq_query (bearer_auth R (build_request m u q b)) = q"
  "rq_body (bearer_auth R (build_request m u q b)) = b"
  "rq_range (bearer_auth R (build_request m u q b)) = None"
  by (simp_all add: bearer_auth_def build_request_def)

lemma recorded:
  "send_json W (\<lambda>rq _. Some (Inl m, rq_body rq)) R f rq s = Some (Inl (map_reqwest_err m), rq_body rq)"
  "send_checked W (\<lambda>rq _. Some (Inl m, rq_body rq)) R rq s = Some (Inl (map_reqwest_err m), rq_body rq)"
  by (simp_all add: send_json_def send_checked_def send_def map_err_def bearer_auth_def)

lemma body_of_request [simp]: "rq_body (build_request m u q b) = b"
  by (simp add: build_request_def)

lemmas sent_defs = remote_defs sent_body_def recorded returned_def returned_with_def

lemma from_slice_json [simp]: "from_slice W f (Json j) = ok_or (w_shape_error W (Json j)) (f j)"
  by (simp add: from_slice_def)

lemma tried_simps [simp]: "tried (Inr x) s k = k x" "tried (Inl e) s k = refuse e s"
  by (simp_all add: tried_def)

lemma ok_or_Some [simp]: "ok_or e (Some x) = Inr x"
  by (simp add: ok_or_def)

lemma malformed_Inr [simp]: "malformed (Inr x) = Inr x" "map_err f (Inr x) = Inr x"
  by (simp_all add: malformed_def map_err_def)

lemma buffered_fits: "w_size W (rq_body rq) \<le> w_body_limit W \<Longrightarrow> buffered W rq s k = k (rq_body rq)"
  by (simp add: buffered_def)

lemma with_ctx_in: "signed_in W A R ctx \<Longrightarrow> with_ctx W A (bearer_auth R rq) (cx_workspace_id ctx) s k = k ctx"
  by (simp add: with_ctx_def signed_in_ctx)

lemma optional_body_json [simp]: "optional_body W d f (Json j) = malformed (from_slice W f (Json j))"
  by (simp add: optional_body_def)

lemmas matches_flat = matches [unfolded append_Cons append_Nil]

lemmas server_defs = send_json_through send_checked_through route_reply_def nodes_router_def content_router_def
  getting_def with_method_def with_ctx_in buffered_fits route_path_read_back route_path_again

lemma options_eta [simp]:
  "\<lparr>so_follow_symlinks = so_follow_symlinks a\<rparr> = a"
  "\<lparr>to_max_depth = to_max_depth t, to_follow_symlinks = to_follow_symlinks t\<rparr> = t"
  "\<lparr>co_parents = co_parents b, co_exist_ok = co_exist_ok b, co_expected_revision = co_expected_revision b\<rparr> = b"
  "\<lparr>wo_create = wo_create w, wo_expected_revision = wo_expected_revision w\<rparr> = w"
  "\<lparr>mo_expected_revision = mo_expected_revision c\<rparr> = c"
  "\<lparr>tco_create = tco_create d, tco_expected_revision = tco_expected_revision d\<rparr> = d"
  "\<lparr>cpo_recursive = cpo_recursive e, cpo_overwrite = cpo_overwrite e, cpo_expected_revision = cpo_expected_revision e\<rparr> = e"
  "\<lparr>mvo_overwrite = mvo_overwrite f, mvo_expected_revision = mvo_expected_revision f\<rparr> = f"
  "\<lparr>rmo_recursive = rmo_recursive g, rmo_expected_revision = rmo_expected_revision g\<rparr> = g"
  "\<lparr>cq_root = cq_root q, cq_needle = cq_needle q\<rparr> = q"
  by simp_all

lemma write_options_created: "wo_create w \<Longrightarrow> write_options_default\<lparr>wo_expected_revision := wo_expected_revision w\<rparr> = w"
  by (simp add: write_options_default_def)

lemma map_sum_ids [simp]: "map_sum id id = id"
  by (simp add: sum.map_id0)

text \<open>The pieces every request goes through, and what the two ways of running a command do with the answer.\<close>

definition remote_agrees :: "wire \<Rightarrow> 's app_state \<Rightarrow> remote_executor \<Rightarrow> request_context \<Rightarrow> command \<Rightarrow> 's \<Rightarrow> bool" where
  "remote_agrees W A R ctx cmd s \<longleftrightarrow>
     (routes_ok W R (cx_workspace_id ctx) \<longrightarrow> signed_in W A R ctx \<longrightarrow> base64_ok W \<longrightarrow>
      sendable W cmd \<longrightarrow> body_fits W cmd (sent_body W R ctx cmd) \<longrightarrow>
      remote_execute W (through W A) R ctx cmd s = execute (as_fs A) ctx cmd s)"

lemmas agree_defs = remote_agrees_def server_defs matches_flat sent_defs body_fits_def field_defs base64_ok_def

lemma body_commands_agree:
  "remote_agrees W A R ctx (CmdMkdir path co) s"
  "remote_agrees W A R ctx (CmdSymlink target path co) s"
  "remote_agrees W A R ctx (CmdTouch path tc) s"
  "remote_agrees W A R ctx (CmdSetAttribute path key val mo) s"
  "remote_agrees W A R ctx (CmdRemoveAttribute path key mo) s"
  "remote_agrees W A R ctx (CmdTrash path mo) s"
  "remote_agrees W A R ctx (CmdCopy path to_path cpo) s"
  "remote_agrees W A R ctx (CmdMove path to_path mvo) s"
  by (simp_all add: agree_defs put_node_def mkdir_body_of_def symlink_body_of_def node_action_def action_body_of_def
      patch_node_def patch_body_of_def valid_target_def changed_def case_prod_unfold)

lemma query_commands_agree:
  "remote_agrees W A R ctx CmdWorkspaceUsage s"
  "remote_agrees W A R ctx (CmdReadDir path page) s"
  "remote_agrees W A R ctx (CmdListTrash page) s"
  "remote_agrees W A R ctx (CmdChanges after_cursor page) s"
  by (simp_all add: agree_defs handle_usage_def directories_dispatch_def handle_read_dir_def handle_list_trash_def
      handle_changes_def query_page_read_back [where page = page] page_params page_ok_def answer_def case_prod_unfold split: option.split)

lemma scan_commands_agree:
  "remote_agrees W A R ctx (CmdGlob pattern page) s"
  "remote_agrees W A R ctx (CmdFind query page) s"
  "remote_agrees W A R ctx (CmdBatch operations) s"
  by (simp_all add: agree_defs directories_dispatch_def directories_not_children handle_tree_def
      handle_glob_def handle_find_def find_request_of_def find_query_read_back handle_batch_def batch_request_of_def operations_read_back
      query_page_read_back [where page = page] page_params page_ok_def answer_scan_def changed_def
      option.map_comp comp_def case_prod_unfold split: option.split)

lemma revision_commands_agree:
  "remote_agrees W A R ctx (CmdWrite path bytes wo) s"
  "remote_agrees W A R ctx (CmdWriteAt path offset bytes wo) s"
  "remote_agrees W A R ctx (CmdAppend path bytes wo) s"
  "remote_agrees W A R ctx (CmdTruncate path len mo) s"
  by (simp_all add: agree_defs handle_write_def handle_write_at_def content_action_def truncate_body_of_def
      query_revision_read_back [where r = "wo_expected_revision wo"] query_bool_read_back revision_params write_options_created body_write_source_def
      source_from_bytes_def changed_def case_prod_unfold split: option.split)

lemma tree_agrees: "remote_agrees W A R ctx (CmdTree path tro page) s"
  by (cases tro; cases "to_max_depth tro")
    (simp_all add: agree_defs directories_dispatch_def directories_not_children handle_tree_def
      query_page_read_back [where page = page] query_bool_read_back page_params page_ok_def answer_scan_def
      parse_u32_show option.map_comp comp_def case_prod_unfold)

lemma heard_unit [simp]:
  "heard_status W (ok_json (\<lambda>_. NoPayload) r) = Some (map_sum id (\<lambda>_. respond 200 NoPayload) (fst r), snd r)"
  by (cases "fst r") (simp_all add: heard_status_def ok_json_def replied_def)

lemma res_bind_const [simp]: "res_bind (map_sum id f r) (\<lambda>_. Inr c) = res_bind r (\<lambda>_. Inr c)"
  by (cases r) simp_all

lemma unit_commands_agree:
  "remote_agrees W A R ctx (CmdRemove path ro) s"
  "remote_agrees W A R ctx (CmdPurge tid) s"
  by (simp_all add: agree_defs handle_remove_def handle_purge_def parse_trash_id_def known_id_def
      query_revision_read_back [where r = "rmo_expected_revision ro"] query_bool_read_back revision_params
      changed_def case_prod_unfold split: option.split)

lemma stat_agrees: "remote_agrees W A R ctx (CmdStat path so) s"
  by (simp add: agree_defs remote_stat_def stat_addressable_def get_dispatch_def handle_stat_def query_bool_read_back
      answer_def)

lemma restore_agrees: "remote_agrees W A R ctx (CmdRestore tid dest mo) s"
  by (cases dest)
    (simp_all add: agree_defs handle_restore_def restore_body_of_def parse_trash_id_def known_id_def of_option_def
      transposed_def vp_parse_as_str changed_def case_prod_unfold)

lemma collect_decoded:
  "base64_ok W \<Longrightarrow> collect_results (map (decode_match W \<circ> search_match_dto_from W) xs) = Inr xs"
  by (induction xs) (simp_all add: base64_ok_def decode_match_def search_match_dto_from_def)

lemma search_content_agrees: "remote_agrees W A R ctx (CmdSearchContent query page) s"
proof -
  let ?f = "\<lambda>found. andthen (collect_results (map (decode_match W) (pg_items found))) (\<lambda>items.
          Inr (OutSearchMatches \<lparr>pg_items = items, pg_next_cursor = pg_next_cursor found\<rparr>))"
  let ?h = "\<lambda>p. \<lparr>pg_items = map (search_match_dto_from W) (pg_items p), pg_next_cursor = pg_next_cursor p\<rparr>"
  have h: "heard W as_matches (ok_scan (\<lambda>p. MatchesPayload (?h p)) q s) = map_option (\<lambda>x. (map_sum id ?h x, s)) q" for q
    by (rule heard_ok) simp
  have f: "base64_ok W \<Longrightarrow> res_bind (map_sum id ?h x) ?f = res_bind x (\<lambda>y. Inr (OutSearchMatches y))" for x
    by (cases x) (simp_all add: collect_decoded)
  show ?thesis
    using f by (auto simp: agree_defs handle_search_content_def search_content_request_of_def page_ok_def h answer_scan_def
        option.map_comp comp_def intro!: option.map_cong0)
qed

context served_file_system
begin

lemma exists_agrees:
  assumes "as_fs A = F"
  shows "remote_agrees W A R ctx (CmdExists path so) s"
  by (cases "fs_op_stat F ctx path so s")
    (simp_all add: assms agree_defs remote_stat_def stat_addressable_def get_dispatch_def handle_stat_def query_bool_read_back
      answer_def exists_is_stat)

lemma read_link_agrees:
  assumes "as_fs A = F"
  shows "remote_agrees W A R ctx (CmdReadLink path) s"
  using assms read_link_valid [of ctx path s]
  by (cases "fs_op_read_link F ctx path s")
    (auto simp: agree_defs get_dispatch_def handle_read_link_def answer_def valid_target_def)

theorem agrees:
  assumes "as_fs A = F"
  shows "remote_agrees W A R ctx cmd s"
proof (cases cmd)
  case (CmdRead path options)
  then show ?thesis by (simp add: remote_agrees_def)
qed (simp_all add: assms exists_agrees read_link_agrees body_commands_agree query_commands_agree scan_commands_agree
    tree_agrees revision_commands_agree unit_commands_agree stat_agrees restore_agrees search_content_agrees)

end

text \<open>What is sent for a command: the option the requests leave out is lost.\<close>

fun as_sent :: "command \<Rightarrow> command" where
  "as_sent (CmdWriteAt path offset bytes options) = CmdWriteAt path offset bytes (options\<lparr>wo_create := True\<rparr>)"
| "as_sent (CmdAppend path bytes options) = CmdAppend path bytes (options\<lparr>wo_create := True\<rparr>)"
| "as_sent cmd = cmd"

lemma sent_the_same: "remote_execute W T R ctx (as_sent cmd) s = remote_execute W T R ctx cmd s"
  by (cases cmd) (simp_all add: remote_write_at_def remote_append_def)

lemma sent_body_the_same: "sent_body W R ctx (as_sent cmd) = sent_body W R ctx cmd"
  by (simp add: sent_body_def sent_the_same)

lemma as_sent_id: "sendable W cmd \<Longrightarrow> as_sent cmd = cmd"
  by (cases cmd) simp_all

text \<open>The file system of the SQLite crate is served this way.\<close>

lemma sqlite_read_link_valid: "fs_read_link ctx path s = Inr t \<Longrightarrow> valid_target t"
  by (auto simp: fs_read_link_def guard_query_def read_link_def require_capability_def
      split: if_splits resolve_outcome.splits option.splits dest: target_valid)

interpretation sqlite_served: served_file_system "sqlite_file_system E C" for E C
  by unfold_locales
    (auto simp: sqlite_file_system_def fs_exists_def fs_stat_def guard_query_def exists_op_def require_capability_def
      permission_denied_def for_subject_def split: sum.split dest: sqlite_read_link_valid)

end
