(* ===== verification/Remote_Read.thy ===== *)
theory Remote_Read
  imports Remote_Facts
begin

text \<open>
  Reading a file through the server: a \<open>stat\<close> for the length and the revision, then the bytes with
  the range as a header, which the server resolves against the length and answers with the
  range it served.
\<close>

subsection \<open>Ranges on the wire\<close>

lemma show_nat_digits: "c \<in> set (show_nat n) \<Longrightarrow> \<exists>d < 10. c = char_of (48 + d :: nat)"
proof (induction n rule: show_nat.induct)
  case (1 n)
  show ?case
  proof (cases "n < 10")
    case True
    with 1(2) show ?thesis by (subst (asm) show_nat.simps) auto
  next
    case False
    with 1(2) have "c \<in> set (show_nat (n div 10)) \<or> c = char_of (48 + n mod 10)"
      by (subst (asm) show_nat.simps) auto
    with 1(1) [OF False] show ?thesis by (metis mod_less_divisor zero_less_numeral)
  qed
qed

lemma digit_not_sign:
  assumes "d < (10 :: nat)" "of_char c < (48 :: nat)"
  shows "char_of (48 + d) \<noteq> c"
proof
  assume "char_of (48 + d) = c"
  then have "of_char c = (48 + d :: nat)" using assms(1) by (auto simp flip: \<open>char_of (48 + d) = c\<close>)
  with assms(2) show False by simp
qed

lemma one_le_end: "a < b \<Longrightarrow> 1 \<le> (b :: u64)"
  by (simp add: word_le_nat_alt word_less_nat_alt)

lemma show_u64_no_sign: "of_char c < (48 :: nat) \<Longrightarrow> c \<notin> set (show_u64 n)"
  unfolding show_u64_def using show_nat_digits digit_not_sign by metis

lemma show_u64_nonempty: "show_u64 n \<noteq> ''''"
  using show_nat_starts [of "unat n"] by (auto simp: show_u64_def)

lemma strip_prefix_append [simp]: "strip_prefix pat (pat @ s) = Some s"
  by (simp add: strip_prefix_def)

lemma content_range_read_back:
  assumes "br_start r < br_end r"
  shows "parse_content_range_bounds (content_range_header r n) = Some (br_start r, br_end r)"
proof -
  have "saturating_sub (br_end r) 1 + 1 = br_end r" using one_le_end [OF assms] by (simp add: saturating_sub_def)
  moreover have "split_once slash (show_u64 (br_start r) @ CHR ''-'' # show_u64 m @ slash # show_u64 n) =
      Some (show_u64 (br_start r) @ CHR ''-'' # show_u64 m, show_u64 n)" for m
    using split_once_app [of slash "show_u64 (br_start r) @ CHR ''-'' # show_u64 m" "show_u64 n"]
    by (simp add: show_u64_no_sign)
  ultimately show ?thesis
    by (simp only: parse_content_range_bounds_def content_range_header_def append_assoc strip_prefix_append bind.simps)
      (simp add: split_once_app show_u64_no_sign)
qed

lemma range_header_resolved:
  assumes "br_start r < br_end r" "br_start r < len"
  shows "resolve_range (range_header r) len = Inr (br_new (br_start r) (min (br_end r) len))"
proof -
  have z: "br_end r \<noteq> 0" using assms(1) by auto
  have 1: "saturating_sub (br_end r) 1 = br_end r - 1" using one_le_end [OF assms(1)] by (simp add: saturating_sub_def)
  have 2: "\<not> br_end r - 1 < br_start r" 
    using assms(1) unat_minus_one [OF z] by (simp add: word_less_nat_alt)
  have 3: "saturating_add (br_end r - 1) 1 = br_end r"
    using z unsigned_less [of "br_end r", where 'a = nat] by (simp add: saturating_add_def unat_minus_one unat_gt_0)
  show ?thesis
    using assms 1 2 3
    by (simp only: resolve_range_def range_header_def strip_prefix_append)
      (simp add: ok_or_def show_u64_no_sign split_once_app show_u64_nonempty)
qed

subsection \<open>A read\<close>

locale served_content = served_file_system F for F :: "'s file_system" +
  fixes good :: "'s \<Rightarrow> bool"
  assumes stat_of_read: "\<And>ctx path options s file. good s \<Longrightarrow> fs_op_read F ctx path options s = Inr file
      \<Longrightarrow> \<exists>node. fs_op_stat F ctx path stat_options_default s = Inr node \<and>
            nd_logical_size node = fr_logical_length file \<and> nd_revision node = fr_revision file"
    and read_clipped: "\<And>ctx path options s file r. fs_op_read F ctx path options s = Inr file \<Longrightarrow> ro_range options = Some r
      \<Longrightarrow> br_start r < br_end r \<Longrightarrow> br_start r < fr_logical_length file
      \<Longrightarrow> fr_range file = br_new (br_start r) (min (br_end r) (fr_logical_length file)) \<and>
          fs_op_read F ctx path \<lparr>ro_range = Some (fr_range file), ro_follow_symlinks = True\<rparr> s = Inr file"
    and read_whole: "\<And>ctx path options s file. good s \<Longrightarrow> fs_op_read F ctx path options s = Inr file \<Longrightarrow> ro_range options = None
      \<Longrightarrow> fr_range file = br_new 0 (of_nat (length (concat (fr_stream file))))"

definition asked_within :: "byte_range option \<Rightarrow> u64 \<Rightarrow> bool" where
  "asked_within asked len \<longleftrightarrow> (case asked of None \<Rightarrow> True | Some r \<Rightarrow> br_start r < br_end r \<and> br_start r < len)"

lemma drained_file:
  "drained file = Inr (OutContent (fr_logical_length file) (fr_revision file) (fr_range file) (concat (fr_stream file)))"
  by (simp add: drained_def drain_def collect_results_Inr)

lemma send_through:
  "send (through W A) R rq s =
     map_option (\<lambda>(r, t). (Inr (case r of Inl e \<Rightarrow> error_response e | Inr response \<Rightarrow> response), t)) (route_reply W A (bearer_auth R rq) s)"
  by (auto simp: send_def through_def app_def map_err_def option.map_comp comp_def split: prod.splits intro!: option.map_cong0)

lemma ranged_request [simp]:
  "rq_method (bearer_auth R (build_request m u q b\<lparr>rq_range := x\<rparr>)) = m"
  "rq_url (bearer_auth R (build_request m u q b\<lparr>rq_range := x\<rparr>)) = u"
  "rq_query (bearer_auth R (build_request m u q b\<lparr>rq_range := x\<rparr>)) = q"
  "rq_range (bearer_auth R (build_request m u q b\<lparr>rq_range := x\<rparr>)) = x"
  "rq_body (bearer_auth R (build_request m u q b\<lparr>rq_range := x\<rparr>)) = b"
  by (simp_all add: bearer_auth_def build_request_def)

context served_content
begin

lemma stat_exchange:
  assumes "as_fs A = F" "routes_ok W R (cx_workspace_id ctx)" "signed_in W A R ctx" "stat_addressable path"
  shows "remote_stat W (through W A) R ctx path True s = Some (fs_op_stat F ctx path stat_options_default s, s)"
  using assms
  by (simp add: agree_defs remote_stat_def stat_addressable_def get_dispatch_def handle_stat_def query_bool_read_back
      stat_options_default_def)

lemma content_exchange:
  assumes "as_fs A = F" "routes_ok W R (cx_workspace_id ctx)" "signed_in W A R ctx" "addressable path"
    and "good s" "ro_follow_symlinks options" "fs_op_read F ctx path options s = Inr file"
    and "asked_within (ro_range options) (fr_logical_length file)"
  shows "send (through W A) R
      ((build_request GET (remote_url R (cx_workspace_id ctx) (''/content'' @ as_str path)) [] no_body)
         \<lparr>rq_range := map_option range_header (ro_range options)\<rparr>) s
    = Some (Inr (content_response (ro_range options \<noteq> None) file), s)"
proof (cases "ro_range options")
  case None
  then have "read_options_default\<lparr>ro_range := None\<rparr> = options" using assms(6) by (simp add: read_options_default_def)
  with assms None show ?thesis
    by (simp add: send_through server_defs matches_flat handle_read_def replied_def)
next
  case (Some r)
  note r = Some assms(8) [unfolded asked_within_def Some, simplified]
  obtain node where node: "fs_op_stat F ctx path stat_options_default s = Inr node" "nd_logical_size node = fr_logical_length file"
    using stat_of_read [OF assms(5,7)] by blast
  have resolved: "resolve_range (range_header r) (fr_logical_length file) = Inr (fr_range file)"
    using range_header_resolved [of r] read_clipped [OF assms(7) Some] r by simp
  have "fs_op_read F ctx path (read_options_default\<lparr>ro_range := Some (fr_range file)\<rparr>) s = Inr file"
    using conjunct2 [OF read_clipped [OF assms(7) Some conjunct1 [OF r(2)] conjunct2 [OF r(2)]]]
    by (simp add: read_options_default_def)
  with assms r node resolved show ?thesis
    by (simp add: send_through server_defs matches_flat handle_read_def replied_def)
qed

theorem reads_agree:
  assumes "as_fs A = F" "routes_ok W R (cx_workspace_id ctx)" "signed_in W A R ctx" "stat_addressable path"
    and "good s" "ro_follow_symlinks options" "fs_op_read F ctx path options s = Inr file"
    and "asked_within (ro_range options) (fr_logical_length file)"
  shows "remote_execute W (through W A) R ctx (CmdRead path options) s = execute (as_fs A) ctx (CmdRead path options) s"
proof -
  have a: "addressable path" using assms(4) by (simp add: stat_addressable_def)
  obtain node where node: "fs_op_stat F ctx path stat_options_default s = Inr node"
      "nd_logical_size node = fr_logical_length file" "nd_revision node = fr_revision file"
    using stat_of_read [OF assms(5,7)] by blast
  have "remote_content W node path (content_response (ro_range options \<noteq> None) file) = drained file"
  proof (cases "ro_range options")
    case None
    with read_whole [OF assms(5,7)] node show ?thesis
      by (simp add: remote_content_def content_response_def success_def drained_file)
  next
    case (Some r)
    with assms(8) have "br_start (fr_range file) < br_end (fr_range file)"
      using read_clipped [OF assms(7) Some] by (simp add: asked_within_def br_new_def)
    from content_range_read_back [OF this] Some node show ?thesis
      by (simp add: remote_content_def content_response_def success_def drained_file br_new_def)
  qed
  with node stat_exchange [OF assms(1-4)] content_exchange [OF assms(1-3) a assms(5-8)] assms(1,6,7)
  show ?thesis by (simp add: remote_read_def returned_with_def answer_def)
qed

end

subsection \<open>The SQLite file system\<close>

definition in_order :: "ext \<Rightarrow> db \<Rightarrow> bool" where
  "in_order E s \<longleftrightarrow> ext_ok E \<and> wf E s \<and> sizes_fit s \<and> revisions_fit s"

lemma read_op_node:
  assumes "read_op w path options s = Inr file"
  shows "\<exists>n rv. resolve s w path = Some n \<and> n_kind n = FILE_KIND \<and> rev_new (as_u64 (n_revision n)) = Some rv \<and>
    fr_logical_length file = as_u64 (n_size n) \<and> fr_revision file = rv"
  using assms by (auto simp: read_op_def Let_def split: option.splits if_splits sum.splits)

lemma sqlite_read: "fs_read ctx path options s = Inr file \<longleftrightarrow>
    has_capability ctx CapRead \<and> read_op (cx_workspace_id ctx) path options s = Inr file"
  by (auto simp: fs_read_def guard_query_def require_capability_def)

lemma sqlite_stat_of_read:
  assumes "in_order E s" "read_op w path options s = Inr file"
  shows "\<exists>node. stat_op E w path True s = Inr node \<and>
    nd_logical_size node = fr_logical_length file \<and> nd_revision node = fr_revision file"
proof -
  obtain n rv where n: "resolve s w path = Some n" "n_kind n = FILE_KIND" "rev_new (as_u64 (n_revision n)) = Some rv"
    "fr_logical_length file = as_u64 (n_size n)" "fr_revision file = rv"
    using read_op_node [OF assms(2)] by blast
  then obtain r where r: "r \<in> set (nodes s)" "n = map_row r"
    using lookup_visible [of s w "vp_segments path" n] by (auto simp: resolve_lookup visible_def)
  have "into_node E n = Inr (node_of n)" using assms(1) into_node_ok [of E s r] r by (simp add: in_order_def)
  moreover have "resolve_following s w path True = RFound n"
    using n(1,2) by (intro resolve_following_plain) (simp_all add: resolve_lookup FILE_KIND_def SYMLINK_KIND_def)
  ultimately show ?thesis using n(3-5)
    by (auto simp: stat_op_def node_of_def rev_new_def split: if_splits)
qed

lemma sqlite_read_clipped:
  assumes "read_op w path options s = Inr file" "ro_range options = Some r" "br_start r < br_end r"
    "br_start r < fr_logical_length file"
  shows "fr_range file = br_new (br_start r) (min (br_end r) (fr_logical_length file)) \<and>
    read_op w path \<lparr>ro_range = Some (fr_range file), ro_follow_symlinks = True\<rparr> s = Inr file"
  using assms by (auto simp: read_op_def Let_def br_new_def not_less split: option.splits if_splits sum.splits)

lemma sqlite_read_whole:
  assumes "in_order E s" "read_op w path options s = Inr file" "ro_range options = None"
  shows "fr_range file = br_new 0 (of_nat (length (concat (fr_stream file))))"
proof -
  obtain n where n: "lookup_segs s w (vp_segments path) = Some n" "n_kind n = FILE_KIND"
    using read_op_node [OF assms(2)] by (auto simp: resolve_lookup)
  then obtain bs where "file_at s w (vp_segments path) bs" using assms(1) file_content [of E s] by (metis in_order_def)
  with read_op_range [of E s w path bs options] assms
  have "unat (fr_logical_length file) = length (concat (fr_stream file))" by (auto simp: in_order_def)
  then have "(of_nat (unat (fr_logical_length file)) :: u64) = of_nat (length (concat (fr_stream file)))" by (rule arg_cong)
  then have "of_nat (length (concat (fr_stream file))) = fr_logical_length file" by simp
  moreover have "fr_range file = br_new 0 (fr_logical_length file)"
    using assms(2,3) by (auto simp: read_op_def Let_def br_new_def split: option.splits if_splits sum.splits)
  ultimately show ?thesis by simp
qed

interpretation sqlite_content: served_content "sqlite_file_system E C" "in_order E" for E C
proof unfold_locales
  fix ctx path options s fr
  assume "in_order E s" "fs_op_read (sqlite_file_system E C) ctx path options s = Inr fr"
  then show "\<exists>node. fs_op_stat (sqlite_file_system E C) ctx path stat_options_default s = Inr node \<and>
      nd_logical_size node = fr_logical_length fr \<and> nd_revision node = fr_revision fr"
    using sqlite_stat_of_read [of E s "cx_workspace_id ctx" path options fr]
    by (simp add: sqlite_file_system_def sqlite_read fs_stat_def guard_query_def require_capability_def stat_options_default_def)
qed (simp_all add: sqlite_file_system_def sqlite_read, (metis sqlite_read_clipped sqlite_read_whole)+)

end
