(* ===== verification/Example.thy ===== *)
theory Example
  imports Requests Workspace "HOL-Library.Code_Target_Nat"
begin

text \<open>
  A concrete instance of what the crate takes from outside, and small stores built with the
  modelled operations: the inputs at which the properties are evaluated.
\<close>

subsection \<open>The outside\<close>

definition ext_demo :: ext where
  "ext_demo =
     \<lparr>now_v7 = (\<lambda>k. replicate (Suc k) CHR ''u''), uuid_parse = Inr, clock_ms = int,
      actor_to_json = (\<lambda>_. Some ''{}''), actor_of_json = (\<lambda>_. Some []), base64_url = (\<lambda>_. [])\<rparr>"

lemma ext_ok_demo: "ext_ok ext_demo"
proof -
  have "i = j" if "replicate (Suc i) CHR ''u'' = replicate (Suc j) CHR ''u''" for i j
    using that by (metis length_replicate nat.inject)
  then show ?thesis by (simp add: ext_ok_def ext_demo_def inj_def)
qed

subsection \<open>An empty workspace\<close>

definition ws_demo :: uuid where "ws_demo = ''u''"

definition db_ws :: db where
  "db_ws = snd (create_workspace ext_demo workspace_options_default empty_db)"

lemma wf_db_ws: "wf ext_demo db_ws" and ws_demo_in: "ws_demo \<in> w_id ` set (workspaces db_ws)"
proof -
  obtain k t now where "create_workspace ext_demo workspace_options_default empty_db = (Inr k, t)"
    "wf ext_demo t" "wk_id k = fresh_id ext_demo empty_db"
    "w_id ` set (workspaces t) = insert (wk_id k) (w_id ` set (workspaces empty_db))"
    by (rule create_workspace_wf [OF ext_ok_demo wf_empty])
  then show "wf ext_demo db_ws" "ws_demo \<in> w_id ` set (workspaces db_ws)"
    by (simp_all add: db_ws_def ws_demo_def fresh_id_def ext_demo_def empty_db_def)
qed

subsection \<open>A directory, a file, a link, and a directory in the trash\<close>

text \<open>The state after a call whose transaction commits.\<close>

lemma snd_finish_call: "tx s = Some (res, t) \<Longrightarrow> snd (finish_call f (conn_call tx s)) = t"
  by (simp add: finish_call_Some)

abbreviation p_a :: virtual_path where "p_a \<equiv> VirtualPath ''/a''"
abbreviation p_f :: virtual_path where "p_f \<equiv> VirtualPath ''/f''"
abbreviation p_l :: virtual_path where "p_l \<equiv> VirtualPath ''/l''"

lemma canonical_demo: "canonical p_a" "canonical p_f" "canonical p_l"
  by code_simp+

definition db_dir :: db where
  "db_dir = snd (mkdir ext_demo ws_demo p_a create_options_default ''{}'' db_ws)"

definition db_file :: db where
  "db_file = snd (write_op ext_demo ws_demo p_f [Inr [1, 2], Inr [3]] write_options_default ''{}'' db_dir)"

definition db_link :: db where
  "db_link = snd (symlink ext_demo ws_demo (LinkTarget ''a'') p_l create_options_default ''{}'' db_file)"

definition db_trash :: db where
  "db_trash = snd (trash ext_demo ws_demo p_a mutation_options_default ''{}'' db_dir)"

lemma wf_db_dir: "wf ext_demo db_dir"
proof -
  obtain res t where t: "mkdir_tx ext_demo ws_demo [''a''] create_options_default ''{}'' db_ws = Some (res, t)" "wf ext_demo t"
    using mkdir_tx_ok [OF ext_ok_demo wf_db_ws ws_demo_in, of "[''a'']" create_options_default "''{}''"]
    by (auto simp: valid_seg_def)
  have "vp_segments p_a = [''a'']" "vp_name p_a \<noteq> None" by code_simp+
  with t show ?thesis by (auto simp: db_dir_def mkdir_def finish_call_Some)
qed

lemma ws_dir: "ws_demo \<in> w_id ` set (workspaces db_dir)" by code_simp

lemma wf_db_file: "wf ext_demo db_file"
  using write_op_ok [OF ext_ok_demo wf_db_dir ws_dir canonical_demo(2), where aj = "''{}''" and source = "[Inr [1, 2], Inr [3]]" and options = write_options_default]
  by (simp only: commits_def db_file_def)

lemma ws_file: "ws_demo \<in> w_id ` set (workspaces db_file)" by code_simp

lemma fits_db_file: "sizes_fit db_file" "revisions_fit db_file" by code_simp+

lemma file_db_file: "file_at db_file ws_demo [''f''] [1, 2, 3]"
proof -
  have "vp_segments p_f = [''f'']" "lookup_segs db_dir ws_demo [''f''] = None" "quota db_dir ws_demo \<ge> 3"
    "accepts db_dir ws_demo [''f''] True None" by code_simp+
  with write_op_ok [OF ext_ok_demo wf_db_dir ws_dir canonical_demo(2), where aj = "''{}''" and source = "[Inr [1, 2], Inr [3]]" and options = write_options_default]
  show ?thesis by (auto simp: commits_def db_file_def write_options_default_def fits_def written_def)
qed

text \<open>The copying loop, as an equation the evaluator unfolds.\<close>

declare copy_loop.simps [code]

lemma valid_target_demo: "valid_target (LinkTarget ''a'')" by code_simp

lemma wf_db_link: "wf ext_demo db_link"
proof -
  have n: "vp_name p_l \<noteq> None" by code_simp
  then show ?thesis
    using symlink_tx_ok [OF ext_ok_demo wf_db_file canonical_demo(3) n valid_target_demo, of ws_demo create_options_default "''{}''"]
    by (auto simp: db_link_def symlink_def finish_call_Some)
qed

lemma wf_db_trash: "wf ext_demo db_trash"
  using trash_tx_ok [OF ext_ok_demo wf_db_dir canonical_demo(1), of ws_demo mutation_options_default "''{}''"]
  by (auto simp: db_trash_def trash_def finish_call_Some)

text \<open>The file and the name of the link are apart.\<close>

lemma apart_demo: "apart db_file ws_demo p_f p_l"
  unfolding apart_def
proof (intro allI impI)
  fix d dp p pp pq nm
  assume a: "resolve_following db_file ws_demo p_f False = RFound d" "lookup_segs db_file ws_demo dp = Some d"
    "vp_parent p_l = Some pq" "resolve_following db_file ws_demo pq True = RFound p"
    "lookup_segs db_file ws_demo pp = Some p" "vp_name p_l = Some nm"
  have pl: "vp_parent p_l = Some (VirtualPath ''/'')" "vp_name p_l = Some ''l''" by code_simp+
  have "map_option RFound (lookup_segs db_file ws_demo [''f'']) = Some (resolve_following db_file ws_demo p_f False)"
    "map_option RFound (lookup_segs db_file ws_demo []) = Some (resolve_following db_file ws_demo (VirtualPath ''/'') True)"
    by code_simp+
  with a pl have "lookup_segs db_file ws_demo [''f''] = Some d" "lookup_segs db_file ws_demo [] = Some p" by auto
  with a(2,5) have "dp = [''f'']" "pp = []"
    using lookup_unique [OF wfD(2) [OF wf_db_file]] by blast+
  with pl(2) a(6) show "\<not> prefix dp pp \<and> \<not> prefix (pp @ [nm]) dp" by simp
qed

text \<open>The record of the directory in the trash.\<close>

definition tid_demo :: uuid where "tid_demo = t_id (hd (trash_rows db_trash))"

lemma fetch_trash_demo: "fetch_trash_row db_trash ws_demo tid_demo = Some (''uuu'', ''uu'', ''a'')"
  by code_simp

lemma no_cycle_demo: "no_cycle (nodes db_trash) ''uuu''"
proof -
  have "map (\<lambda>r. (n_id r, n_parent_id r)) (nodes db_trash) = [(''uu'', None), (''uuu'', Some ''uu'')]" by code_simp
  then have "\<forall>r \<in> set (nodes db_trash). \<forall>p. n_parent_id r = Some p \<longrightarrow> length p < length (n_id r)"
    by (auto simp: map_eq_Cons_conv)
  then have "acyclic_rows (nodes db_trash)" unfolding acyclic_rows_def by (intro exI [of _ length]) blast
  then show ?thesis by (rule acyclic_no_cycle)
qed

subsection \<open>A store some requests lead to\<close>

lemma stores_demo: "stores ext_demo db_dir"
proof -
  let ?mk = "RequestMkdir (cx_trusted ws_demo) p_a create_options_default"
  have "db_ws = after ext_demo (RequestCreateWorkspace workspace_options_default) empty_db"
    by (simp add: db_ws_def after_simps)
  moreover have "sizes_fit empty_db" by (simp add: sizes_fit_def empty_db_def)
  ultimately have "stores ext_demo db_ws"
    using stores.request [OF stores.empty, of "RequestCreateWorkspace workspace_options_default" ext_demo] by simp
  moreover have "sizes_fit db_ws" "legal ?mk" by code_simp+
  moreover have "db_dir = after ext_demo ?mk db_ws"
    by (simp add: db_dir_def after_simps fs_mkdir_def guard_op_def require_capability_def has_capability_def
        cx_trusted_def actor_json_def ext_demo_def)
  ultimately show ?thesis using stores.request by metis
qed

subsection \<open>Cursor encodings\<close>

text \<open>
  The cursors are JSON in the code; any encoding that decodes to what was encoded will do. This
  one marks every character and ends every field with a semicolon.
\<close>

fun pack1 :: "string \<Rightarrow> string" where
  "pack1 [] = '';''"
| "pack1 (c # x) = CHR ''c'' # c # pack1 x"

fun unpack1 :: "string \<Rightarrow> (string \<times> string) option" where
  "unpack1 (d # c # x) = (if d = CHR '';'' then Some ([], c # x)
     else map_option (\<lambda>(a, r). (c # a, r)) (unpack1 x))"
| "unpack1 [d] = (if d = CHR '';'' then Some ([], []) else None)"
| "unpack1 [] = None"

fun unpack :: "nat \<Rightarrow> string \<Rightarrow> string list option" where
  "unpack 0 x = Some []"
| "unpack (Suc n) x = (case unpack1 x of None \<Rightarrow> None | Some (a, r) \<Rightarrow> map_option (Cons a) (unpack n r))"

definition pack :: "string list \<Rightarrow> string" where
  "pack xs = concat (map pack1 xs)"

lemma unpack1_pack1: "unpack1 (pack1 a @ r) = Some (a, r)"
proof (induction a)
  case Nil
  then show ?case by (cases r) simp_all
qed simp

lemma unpack_pack: "unpack (length xs) (pack xs) = Some xs"
  by (induction xs) (simp_all add: pack_def unpack1_pack1)

definition int_str :: "int \<Rightarrow> string" where
  "int_str i = (if i < 0 then CHR ''-'' # replicate (nat (- i)) CHR ''1'' else replicate (nat i) CHR ''1'')"

definition str_int :: "string \<Rightarrow> int" where
  "str_int x = (if x \<noteq> [] \<and> hd x = CHR ''-'' then - int (length (tl x)) else int (length x))"

lemma str_int_str: "str_int (int_str i) = i"
  by (cases "nat i") (auto simp: str_int_def int_str_def)

definition dir_codec_demo :: "dir_cursor codec" where
  "dir_codec_demo = \<lparr>enc = (\<lambda>p. pack [int_str (int (dc_v p)), dc_workspace_id p, dc_parent_id p, dc_last_name p, dc_last_id p]),
     dec = (\<lambda>x. case unpack 5 x of
       Some [v, w, p, n, i] \<Rightarrow> Some \<lparr>dc_v = nat (str_int v), dc_workspace_id = w, dc_parent_id = p, dc_last_name = n, dc_last_id = i\<rparr>
     | _ \<Rightarrow> None)\<rparr>"

lemma dir_codec_ok: "codec_ok dir_codec_demo"
proof -
  have "unpack 5 (pack [a, b, c, d, e]) = Some [a, b, c, d, e]" for a b c d e
    using unpack_pack [of "[a, b, c, d, e]"] by (simp add: eval_nat_numeral)
  then show ?thesis by (simp add: codec_ok_def dir_codec_demo_def str_int_str)
qed

definition tree_codec_demo :: "tree_cursor codec" where
  "tree_codec_demo = \<lparr>enc = (\<lambda>p. pack [int_str (int (tc_v p)), tc_workspace_id p, tc_root_id p, int_str (tc_last_depth p),
       tc_last_name p, tc_last_id p]),
     dec = (\<lambda>x. case unpack 6 x of
       Some [v, w, r, d, n, i] \<Rightarrow> Some \<lparr>tc_v = nat (str_int v), tc_workspace_id = w, tc_root_id = r,
         tc_last_depth = str_int d, tc_last_name = n, tc_last_id = i\<rparr>
     | _ \<Rightarrow> None)\<rparr>"

lemma tree_codec_ok: "codec_ok tree_codec_demo"
proof -
  have "unpack 6 (pack [a, b, c, d, e, f]) = Some [a, b, c, d, e, f]" for a b c d e f
    using unpack_pack [of "[a, b, c, d, e, f]"] by (simp add: eval_nat_numeral)
  then show ?thesis by (simp add: codec_ok_def tree_codec_demo_def str_int_str)
qed

end
