(* ===== verification/Line_Example.thy ===== *)
theory Line_Example
  imports Example Lines
begin

text \<open>
  The rest of the outside for the command line: the other cursor encodings, and a parser
  environment whose files do not exist.
\<close>

definition trash_codec_demo :: "trash_cursor codec" where
  "trash_codec_demo = \<lparr>enc = (\<lambda>p. pack [int_str (int (tsc_v p)), tsc_workspace_id p, tsc_last_id p]),
     dec = (\<lambda>x. case unpack 3 x of
       Some [v, w, i] \<Rightarrow> Some \<lparr>tsc_v = nat (str_int v), tsc_workspace_id = w, tsc_last_id = i\<rparr>
     | _ \<Rightarrow> None)\<rparr>"

lemma unpack3: "unpack 3 (pack [a, b, c]) = Some [a, b, c]"
  using unpack_pack [of "[a, b, c]"] by (simp add: eval_nat_numeral)

lemma trash_codec_ok: "codec_ok trash_codec_demo"
  by (simp add: codec_ok_def trash_codec_demo_def str_int_str unpack3)

definition change_codec_demo :: "change_cursor codec" where
  "change_codec_demo = \<lparr>enc = (\<lambda>p. pack [int_str (int (cc_v p)), cc_workspace_id p, int_str (cc_last_sequence p)]),
     dec = (\<lambda>x. case unpack 3 x of
       Some [v, w, q] \<Rightarrow> Some \<lparr>cc_v = nat (str_int v), cc_workspace_id = w, cc_last_sequence = str_int q\<rparr>
     | _ \<Rightarrow> None)\<rparr>"

lemma change_codec_ok: "codec_ok change_codec_demo"
  by (simp add: codec_ok_def change_codec_demo_def str_int_str unpack3)

definition search_codec_demo :: "search_cursor codec" where
  "search_codec_demo = \<lparr>enc = (\<lambda>p. pack [int_str (int (sc_v p)), sc_workspace_id p, sc_root p, int_str (sc_last_depth p),
       sc_last_name p, sc_last_id p]),
     dec = (\<lambda>x. case unpack 6 x of
       Some [v, w, r, d, n, i] \<Rightarrow> Some \<lparr>sc_v = nat (str_int v), sc_workspace_id = w, sc_root = r,
         sc_last_depth = str_int d, sc_last_name = n, sc_last_id = i\<rparr>
     | _ \<Rightarrow> None)\<rparr>"

definition codecs_demo :: codecs where
  "codecs_demo = \<lparr>cd_dir = dir_codec_demo, cd_tree = tree_codec_demo, cd_trash = trash_codec_demo,
     cd_change = change_codec_demo, cd_search = search_codec_demo\<rparr>"

definition env_demo :: parse_env where
  "env_demo = \<lparr>key_order = (\<lambda>ks. ks), id_parse = Some, read_file = (\<lambda>_. Inl ''no such file''),
     batch_of_json = (\<lambda>_. Inl ''no JSON'')\<rparr>"

lemma env_ok_demo: "env_ok env_demo"
  by (simp add: env_ok_def env_demo_def)

definition fs_demo :: "db file_system" where
  "fs_demo = sqlite_file_system ext_demo codecs_demo"

text \<open>A short session: a directory, a file in it, a refused line, and the end.\<close>

definition session_demo :: "string option list" where
  "session_demo = map Some [''mkdir /a'', '' write /a/f --text=x'', '''', ''rm /a | ls'', ''exit'', ''mkdir /b'']"

end
