(* ===== verification/Cli_Example.thy ===== *)
theory Cli_Example
  imports Line_Example Doctor_Facts
begin

text \<open>A host without faults, and a machine on which the program never ran.\<close>

definition host_demo :: host where
  "host_demo =
     \<lparr>env_var = (\<lambda>v. if v = ''FSLITE_CONFIG_DIR'' then Some ''/c'' else if v = ''FSLITE_DATA_DIR'' then Some ''/d'' else None),
      data_local_dir = None, io_error = (\<lambda>_. None), canonicalize = Inr, debug_str = (\<lambda>s. s),
      lock_present = False, readonly = (\<lambda>_. Some False), integrity_rows = (\<lambda>_. Inr [''ok''])\<rparr>"

lemma writable_host_demo: "writable_host host_demo"
  by (simp add: writable_host_def host_demo_def)

definition machine_demo :: machine where
  "machine_demo = \<lparr>registry_json = Absent, context_json = Absent, disk = (\<lambda>_. None)\<rparr>"

text \<open>The machine after the first run.\<close>

definition machine_run :: machine where
  "machine_run = snd (ensure_default host_demo ext_demo (\<lambda>_. machine_demo) machine_demo)"

lemma first_run_demo: "ensure_default host_demo ext_demo (\<lambda>_. machine_demo) machine_demo = (Inr True, machine_run)"
proof -
  have "fst (ensure_default host_demo ext_demo (\<lambda>_. machine_demo) machine_demo) = Inr True" by code_simp
  then show ?thesis by (metis machine_run_def prod.collapse)
qed

definition cli_demo :: cli where
  "cli_demo = \<lparr>cli_db = None, cli_memory = False, cli_server = None, cli_token = None, cli_filesystem = None,
     cli_workspace = None, cli_create_workspace = False, cli_repl = False, cli_json = False,
     cli_action = Some (Verb [''ls'', ''/''])\<rparr>"

end
