(* ===== verification/Wire_Example.thy ===== *)
theory Wire_Example
  imports Remote_Read Server_Facts Line_Example
begin

text \<open>
  A server for one workspace of the example store, with a router for the URLs of the client, a
  token and a client: the instances the properties of the HTTP layer are applied to.
\<close>

definition below_demo :: "string \<Rightarrow> string \<Rightarrow> route option" where
  "below_demo w rest =
     (if rest = ''/usage'' then Some (AtUsage w)
      else if rest = ''/trash'' then Some (AtTrash w)
      else if rest = ''/search/glob'' then Some (AtGlob w)
      else if rest = ''/search/find'' then Some (AtFind w)
      else if rest = ''/search/content'' then Some (AtSearchContent w)
      else if rest = ''/changes'' then Some (AtChanges w)
      else if rest = ''/batch'' then Some (AtBatch w)
      else (case strip_prefix ''/trash/'' rest of
          Some raw \<Rightarrow>
            (case strip_suffix ''/restore'' raw of Some i \<Rightarrow> Some (AtRestore w i) | None \<Rightarrow> Some (AtTrashEntry w raw))
        | None \<Rightarrow>
      (case strip_prefix ''/fs/'' rest of
          Some raw \<Rightarrow> if raw = '''' then None else Some (AtFs w raw)
        | None \<Rightarrow>
      (case strip_prefix ''/directories/'' rest of
          Some raw \<Rightarrow> if raw = '''' then None else Some (AtDirectories w raw)
        | None \<Rightarrow>
      (case strip_prefix ''/content/'' rest of
          Some raw \<Rightarrow> if raw = '''' then None else Some (AtContent w raw)
        | None \<Rightarrow> None)))))"

definition base_demo :: string where
  "base_demo = ''http://s''"

definition wire_demo :: wire where
  "wire_demo =
     \<lparr>w_match = (\<lambda>address. case strip_prefix (base_demo @ ''/v1/workspaces/'' @ ws_demo) address of
                  Some rest \<Rightarrow> below_demo ws_demo rest | None \<Rightarrow> None),
      w_uuid = Some,
      w_encode = map (\<lambda>b. char_of (unat b)),
      w_decode = (\<lambda>s. Inr (map (\<lambda>c. of_nat (of_char c)) s)),
      w_json = (\<lambda>_. Inl ''expected value''),
      w_shape_error = (\<lambda>_. ''invalid type''),
      w_size = (\<lambda>body. case body of Bytes bytes \<Rightarrow> length bytes | Json _ \<Rightarrow> 100),
      w_body_limit = 2097152,
      w_text = (\<lambda>_. []),
      w_decode_error = (\<lambda>_. ''error decoding response body''),
      w_status_text = show_nat\<rparr>"

definition tokens_demo :: "string \<rightharpoonup> authenticated_actor" where
  "tokens_demo =
     [''secret'' \<mapsto>
        \<lparr>aa_workspace_id = ws_demo,
         aa_capabilities = [CapRead, CapWrite, CapDelete, CapTrashRestore, CapWorkspaceAdmin], aa_actor_metadata = []\<rparr>,
      ''other'' \<mapsto> \<lparr>aa_workspace_id = ''elsewhere'', aa_capabilities = [CapRead], aa_actor_metadata = []\<rparr>]"

definition state_demo :: "db app_state" where
  "state_demo =
     \<lparr>as_fs = sqlite_file_system ext_demo codecs_demo, as_auth = bearer_authenticate tokens_demo,
      as_admin = sqlite_workspace_admin ext_demo, as_health_workspace = ws_demo\<rparr>"

definition remote_demo :: remote_executor where
  "remote_demo = \<lparr>re_base_url = base_demo, re_token = ''secret''\<rparr>"

lemma strip_prefix_Cons [simp]:
  "strip_prefix (c # cs) (c # xs) = strip_prefix cs xs"
  "c \<noteq> d \<Longrightarrow> strip_prefix (c # cs) (d # xs) = None"
  "strip_prefix [] xs = Some xs"
  "strip_prefix (c # cs) [] = None"
  by (simp_all add: strip_prefix_def)

lemma base64_demo: "base64_ok wire_demo"
proof -
  have "of_nat (of_char (char_of (unat (b :: byte)))) = b" for b
  proof -
    have "unat b < 256" using unsigned_less [of b, where 'a = nat] by simp
    then show ?thesis by simp
  qed
  then show ?thesis by (simp add: base64_ok_def wire_demo_def comp_def)
qed

lemma signed_in_demo: "signed_in wire_demo state_demo remote_demo (cx_trusted ws_demo)"
  by (simp add: signed_in_def state_demo_def remote_demo_def wire_demo_def bearer_authenticate_def tokens_demo_def
      ok_or_def actor_context_def cx_trusted_def)

lemma below_demo_match: "w_match wire_demo (remote_url remote_demo ws_demo rest) = below_demo ws_demo rest"
proof -
  have "remote_url remote_demo ws_demo rest = (base_demo @ ''/v1/workspaces/'' @ ws_demo) @ rest"
    by (simp add: remote_url_def remote_demo_def)
  then show ?thesis by (simp only: wire_demo_def wire.simps strip_prefix_append option.case)
qed

lemma plain_id_no_restore: "plain_id i \<Longrightarrow> strip_suffix ''/restore'' i = None"
proof -
  assume "plain_id i"
  then have "slash \<notin> set i" by (auto simp: plain_id_def list_all_iff plain_char_def)
  then show ?thesis by (auto simp: strip_suffix_def suffix_def)
qed

lemma routes_demo: "routes_ok wire_demo remote_demo ws_demo"
proof -
  have paths: "\<exists>cs. as_str p = slash # cs \<and> (p \<noteq> vp_root \<longrightarrow> cs \<noteq> '''')" if "plain_path p" for p
    using canonical_starts [of p] that by (cases p) (auto simp: plain_path_def vp_root_def)
  show ?thesis
    unfolding routes_ok_def below_demo_match
    using paths by (fastforce simp: below_demo_def plain_id_no_restore)
qed

end
