(* ===== verification/Findings.thy ===== *)
theory Findings
  imports Remote_Read Example Search Quoting
begin

text \<open>
  Places where the code does something else than its comments, its documentation or its own
  interface say, each with the smallest input that shows it.
\<close>

text \<open>\<open>wildcard_match\<close> takes a star of the text for the star of the pattern.\<close>

lemma star_misses_a_star:
  "wildcard_match ''*'' ''ab''" "\<not> wildcard_match ''*'' ''*b''"
  by code_simp+

text \<open>A quoted word that starts with two dashes is still a flag.\<close>

lemma quotes_do_not_make_a_word:
  "tokenize (CHR 0x27 # ''--x'' @ [CHR 0x27]) = Inr [Flag ''x'' None]"
  by code_simp

text \<open>The header of an empty range at the start of a file asks for its first byte.\<close>

lemma empty_range_asks_for_a_byte:
  "range_header (br_new 0 0) = ''bytes=0-0''" "resolve_range ''bytes=0-0'' 5 = Inr (br_new 0 1)"
  by code_simp+

text \<open>Zero is read as a revision from the options of a batch.\<close>

lemma batch_reads_revision_zero:
  "mutation_options_of (JObject [(''expected_revision'', JNumber ''0'')]) = Some \<lparr>mo_expected_revision = Some (Revision 0)\<rparr>"
  "rev_new 0 = None"
  by code_simp+

text \<open>Reading pays no attention to \<open>follow_symlinks\<close>, nor the creation of a link to \<open>parents\<close>.\<close>

lemma read_ignores_follow_symlinks:
  "read_op w path (options\<lparr>ro_follow_symlinks := b\<rparr>) s = read_op w path options s"
  by (simp add: read_op_def Let_def cong: option.case_cong if_cong)

lemma symlink_ignores_parents:
  "symlink_tx E w link target (options\<lparr>co_parents := b\<rparr>) aj s = symlink_tx E w link target options aj s"
  by (simp add: symlink_tx_def Let_def cong: option.case_cong if_cong resolve_outcome.case_cong)

text \<open>A tree of depth zero lists the children of its root.\<close>

lemma depth_zero_lists_children:
  "case tree_op ext_demo tree_codec_demo ws_demo vp_root \<lparr>to_max_depth = Some 0, to_follow_symlinks = False\<rparr>
       page_request_default db_dir of
     Some (Inr p) \<Rightarrow> map te_path (pg_items p) = [p_a] | _ \<Rightarrow> False"
  by code_simp

text \<open>A move of a directory through a link to itself makes it its own parent.\<close>

lemma move_through_a_link_makes_a_cycle:
  "case fst (move_path ext_demo ws_demo p_a (VirtualPath ''/l/x'') move_options_default ''{}'' db_link) of
     Inr n \<Rightarrow> nd_parent_id n = Some (nd_id n) | Inl _ \<Rightarrow> False"
  by code_simp

text \<open>The target of a link that goes through another link is not broken but not found.\<close>

lemma broken_behind_a_link_is_not_found:
  "resolve_following (snd (symlink ext_demo ws_demo (LinkTarget ''gone'') (VirtualPath ''/m'') create_options_default ''{}'' db_link))
     ws_demo (VirtualPath ''/m'') True = RBrokenLink"
  "resolve_following (snd (symlink ext_demo ws_demo (LinkTarget ''l/gone'') (VirtualPath ''/m'') create_options_default ''{}'' db_link))
     ws_demo (VirtualPath ''/m'') True = RNotFound"
  by code_simp+

end
