(* ===== verification/Spec2Isabelle.thy ===== *)
theory Spec2Isabelle
  imports Prelude Core_Error Core_Path Core_Model Db Resolve Change Namespace Store Workspace
    Paging Effects Directory Frames Chunks Staging Updates Content Files File_Ops Mutate Purge Subtrees Trash Tree_Ops Node_Ops Copying Copy_Loop Tame Batch Batches Search
    Api Requests Lexer Quoting Command Parser Help Grammar File_System Local Render Sessions Access Lines Opening Host Cli Cli_Main Doctor Program Cli_Facts
    Doctor_Facts Wire Wire_Json Server Remote Server_Facts Remote_Facts Remote_Read Example Line_Example Cli_Example Wire_Example Findings
begin

text \<open>
  fslite is a virtual file system in an SQLite database, with a command line and an HTTP server. This
  development models its Rust crates (the paths below are under \<open>src/crates/\<close>) and proves what makes them
  correct. The properties C1 to C40 are in this theory; each follows from lemmas of the theories it
  imports, and each with a hypothesis is applied to a concrete store in the lemma after it.

  The program and the theories.
  \<^item> \<open>fslite-core\<close>, the interface. \<open>error.rs\<close>: Core_Error. \<open>path.rs\<close> (normal forms of paths and link
    targets): Core_Path. \<open>model.rs\<close>, \<open>options.rs\<close> and the data of \<open>fs.rs\<close>: Core_Model. The trait \<open>FileSystem\<close>
    is the record of operations of File_System.
  \<^item> \<open>fslite-sqlite\<close>, the store. The tables of \<open>migrations/0001_initial.sql\<close> with their keys, references and
    cascades, and the SQL statements the crate issues: Db; opening and migrating a file (\<open>db.rs\<close>): Opening. Rows to
    nodes, lookups and the two path resolutions (\<open>resolve.rs\<close>): Resolve. \<open>change.rs\<close>: Change; \<open>workspace.rs\<close>:
    Workspace; \<open>directory.rs\<close>: Directory; \<open>content.rs\<close>: Chunks (generations, the chunk writer) and Content;
    \<open>mutate.rs\<close>: Mutate and Batch; \<open>trash.rs\<close>: Trash; \<open>search.rs\<close>: Search; the entry points of \<open>lib.rs\<close> with
    their capability checks: Api; \<open>backend.rs\<close>: File_System.
  \<^item> \<open>fslite-command\<close>, the commands. \<open>lexer.rs\<close>: Lexer; \<open>parser.rs\<close>: Parser; \<open>help.rs\<close>: Help; \<open>command.rs\<close>
    and \<open>output.rs\<close>: Command; \<open>local.rs\<close> and \<open>executor.rs\<close>: Local; \<open>render.rs\<close>: Render; \<open>remote.rs\<close>: Remote.
  \<^item> \<open>fslite-cli\<close>, the program. Words to lines (\<open>quote_word\<close>, \<open>quote_line\<close>): Quoting; \<open>paths.rs\<close>,
    \<open>persistence.rs\<close>, \<open>registry.rs\<close>, \<open>context.rs\<close>: Host; \<open>cli.rs\<close> and the resolution of target and workspace
    of \<open>main.rs\<close>: Cli; \<open>bootstrap.rs\<close>, \<open>status.rs\<close>: Cli_Main; \<open>doctor.rs\<close>: Doctor; \<open>main\<close>: Program;
    \<open>run_line\<close> and \<open>run_repl\<close>: Sessions.
  \<^item> \<open>fslite-server\<close>, the HTTP adapter. \<open>error.rs\<close>, \<open>range.rs\<close>, \<open>dto.rs\<close>: Wire; the request bodies of the
    routes and the options they carry: Wire_Json; \<open>auth.rs\<close>, \<open>admin.rs\<close>, \<open>routes/\<close> and \<open>lib.rs\<close>: Server.

  State and effects. A database is the record \<open>db\<close> of lists of rows, one per table, threaded through the
  operations. A transaction yields an option: \<^const>\<open>None\<close> is an error of SQLite or a panic, which rolls the
  transaction back and surfaces as an internal error (\<open>conn_call\<close>, \<open>finish_call\<close>), or a computation that does
  not end. A result of the crate is a sum with \<open>fs_error\<close>. The machine of the command line is the record
  \<open>machine\<close> of the two state files and the files of the disk; \<open>host\<close> holds what the operating system answers.
  Strings are UTF-8 bytes, identifiers the text of their UUID, \<open>u64\<close> is a word; the integers of SQL are
  integers, with \<open>sizes_fit\<close> and \<open>revisions_fit\<close> where the 64 bit conversion is used. New identifiers and the
  clock (\<open>ext\<close>), cursor encodings (\<open>codec\<close>, with decoding after encoding as \<open>codec_ok\<close>), JSON and UUID
  parsing, the order of a hash map (\<open>parse_env\<close>), URL matching, base64 and the sizes of bodies (\<open>wire\<close>, with
  \<open>routes_ok\<close> and \<open>base64_ok\<close>) and the transport of the remote executor are parameters.

  What the lemmas show.
  \<^item> Store: \<open>wf\<close>, the invariant of the whole store (constraints, one root per workspace, log, contents, trash,
    identifiers), and that each statement keeps it; Namespace and Updates: how paths follow parent links, as the
    locale \<open>name_space\<close>; Effects, Subtrees, Purge, Tame: what inserts, updates and deletions of subtrees do to the
    paths and what they leave alone; Frames: the same row by row, for every table (the second halves of C3, C9, C10, C12,
    C13, C17 to C19 and C23).
  \<^item> Staging, Files, File_Ops: files as byte strings; a write commits its bytes or leaves no trace (C3 to C8).
  \<^item> Node_Ops, Tree_Ops, Copying, Copy_Loop: links, attributes, remove, trash, restore, purge, move and copy,
    each by the paths it adds, removes or carries (C9 to C16 and C23). A move is described in full: the code compares
    path texts only, so a destination above the source or inside it, reached through a link, succeeds too (C13).
  \<^item> Paging: pages by keyset, as a locale interpreted on \<open>read_dir\<close> and \<open>tree\<close> (C21 and C22).
  \<^item> Batches: a batch is its operations in order or nothing, by the locale \<open>kept\<close> (C24); Requests: every store a
    sequence of requests leads to is well formed (C25); Access: which capabilities a command needs, that without them it is an error and does nothing, and that
    no other makes a difference (C26); Sessions: the invariant for lines typed at the prompt, over any file system that
    keeps one (locale \<open>keeping_file_system\<close>, interpreted on the SQLite one; C31).
  \<^item> Grammar, Lines: what the parser accepts is what the help lists; words survive quoting (C27 to C30, C32).
  \<^item> Render: no stored text forges a row of the terminal (C33). Cli_Facts, Doctor_Facts: the two state files stay
    consistent, the first run is final, the doctor's exit code is what it claims (C34 to C37).
  \<^item> Server_Facts: no data without a credential. Remote_Facts and Remote_Read: a command over HTTP is the command in
    process as far as it survives the URL, for a file system with the laws of the locales \<open>served_file_system\<close> and \<open>served_content\<close>, which
    interpretations discharge for the SQLite file system (C38 to C40).
  \<^item> Example, Line_Example, Cli_Example and Wire_Example hold the concrete inputs; Findings the places where the code
    does something else than its documentation says, each by evaluation.

  Loops and bounds. The loop of \<open>resolve_following\<close> is a function with a measure from the hop limit 40 and the
  pending segments. The recursive queries (descendants, subtree levels) run with fuel one more than the number of
  node rows (a tree listing with a depth limit, two more than the limit), which is enough on a tree; on a parent cycle they yield \<^const>\<open>None\<close>, as SQLite does not return. The
  loop of \<open>copy_subtree\<close> has no bound in the source: it is a partial function, and C23 proves that it ends where the
  destination is not inside the source.

  Not modelled. SQLite itself: the file format, pragmas, locking and the interleaving of writers; an operation of
  several calls runs without another writer between them. The splitting of arguments (\<open>clap\<close>), terminal input and
  output, and the messages \<open>create\<close>, \<open>delete\<close> and \<open>use\<close> print. JSON text, of which the values are modelled. The
  HTTP stack: connections, headers without data, tracing, and bodies in several pieces. The start of the server
  binary (\<open>main.rs\<close>, \<open>server_config.rs\<close>, \<open>server_bootstrap.rs\<close>, \<open>credential_store.rs\<close>): reading of settings and
  token files, random tokens, file permissions. \<open>fslite-conformance\<close> is a test suite, \<open>examples/\<close> and \<open>showcase/\<close>
  are clients.
\<close>

section \<open>Paths\<close>

text \<open>C1. A path the parser accepts is in normal form: its segments are the input split at the
  slashes with the empty and dot segments dropped and dot-dot removing the segment before it,
  none of them is empty, a dot or a dot-dot, and the text of the path parses to the path itself.\<close>

theorem path_parse_normal:
  assumes "vp_parse input = Inr p"
  shows "vp_segments p = foldl norm_step [] (split_on slash input) \<and>
    list_all valid_seg (vp_segments p) \<and> vp_parse (as_str p) = Inr p"
  using vp_parse_segments [OF assms] vp_parse_as_str by (simp add: canonical_def)

theorem path_parse_normal_witness:
  "vp_parse ''//a/./b/../c/'' = Inr (VirtualPath ''/a/c'') \<and>
   vp_segments (VirtualPath ''/a/c'') = [''a'', ''c''] \<and>
   vp_parse ''/a/c'' = Inr (VirtualPath ''/a/c'')"
proof -
  have p: "vp_parse ''//a/./b/../c/'' = Inr (VirtualPath ''/a/c'')" by code_simp
  moreover have "foldl norm_step [] (split_on slash ''//a/./b/../c/'') = [''a'', ''c'']" by code_simp
  ultimately show ?thesis using path_parse_normal [OF p] by simp
qed

text \<open>C2. Joining a relative path is parsing the path's text, a slash and the relative path; the
  name and the parent of a path undo a join with one segment.\<close>

theorem path_join_is_parse:
  assumes "vp_parse input = Inr p" "\<not> prefix ''/'' rel" "nul \<notin> set rel"
  shows "vp_join p rel = vp_parse (as_str p @ slash # rel) \<and>
    (valid_seg rel \<longrightarrow> (\<exists>q. vp_join p rel = Inr q \<and> vp_name q = Some rel \<and> vp_parent q = Some p))"
proof -
  have p: "canonical p" using vp_parse_segments(1) [OF assms(1)] .
  then obtain segs where segs: "p = path_of segs" "list_all valid_seg segs" "vp_segments p = segs"
    by (rule canonicalE)
  show ?thesis
    using vp_join_eq_parse [OF p assms(2,3)] vp_join_seg [OF p, of rel] segs
    by (auto simp: vp_name_snoc vp_parent_snoc)
qed

theorem path_join_is_parse_witness:
  "vp_join (VirtualPath ''/a'') ''b'' = vp_parse ''/a/b''"
proof -
  have p: "vp_parse ''/a'' = Inr (VirtualPath ''/a'')" by code_simp
  show ?thesis using path_join_is_parse [OF p, of "''b''"] by (simp add: prefix_def)
qed

section \<open>Directories\<close>

text \<open>C3. The mkdir transaction on a well-formed store ends and leaves a well-formed store. When it
  creates the directory, the path was free, every missing ancestor and the path itself are now
  directories, and every other path, of this workspace and of the others, resolves as before to
  the same contents. In the tables exactly one node row was added for each missing directory, and
  one entry of the feed, created, with its path; the workspace's counter went up by as many, and
  every other row of every table is as it was. Every other outcome leaves the store as it was, and
  says why: the directory is there, the parent is not and was not to be made, the revision of the
  directory is another one, or something on the path is no directory.\<close>

theorem mkdir_total_and_framed:
  assumes "ext_ok E" "wf E s" "w \<in> w_id ` set (workspaces s)" "canonical path" "path \<noteq> vp_root"
  shows "\<exists>res t. mkdir E w path opts aj s = (mkdir_result E path res, t) \<and> wf E t \<and>
    mkdir_post s t w opts (vp_segments path) res \<and> mkdir_effect s t w (vp_segments path) aj res"
proof -
  obtain segs where segs: "path = path_of segs" "list_all valid_seg segs" "vp_segments path = segs"
    using assms(4) by (rule canonicalE)
  have ne: "segs \<noteq> []" using assms(5) segs(1) vp_root_path_of by auto
  then have name: "vp_name path = Some (last segs)"
    using vp_name_snoc [of "butlast segs" "last segs"] segs by simp
  obtain res t where run: "mkdir_tx E w segs opts aj s = Some (res, t)" "wf E t" "mkdir_post s t w opts segs res"
    using mkdir_tx_ok [OF assms(1-3) ne segs(2), of opts aj] by blast
  then have "mkdir E w path opts aj s = (mkdir_result E path res, t)"
    by (simp add: mkdir_def name segs(3) finish_call_Some)
  with run mkdir_tx_effect [OF assms(1,2) run(2) ne segs(2) run(3,1)] segs(3) show ?thesis by auto
qed

theorem mkdir_total_and_framed_witness:
  "\<exists>res t. mkdir ext_demo ws_demo (VirtualPath ''/a'') create_options_default ''{}'' db_ws
      = (mkdir_result ext_demo (VirtualPath ''/a'') res, t) \<and> wf ext_demo t"
proof -
  have "canonical (VirtualPath ''/a'')" by code_simp
  then show ?thesis
    using mkdir_total_and_framed [OF ext_ok_demo wf_db_ws ws_demo_in, of "VirtualPath ''/a''"
        create_options_default "''{}''"]
    by (auto simp: vp_root_def)
qed

section \<open>File contents\<close>

text \<open>C4. A whole-file write that fits in the workspace's file quota and meets its conditions (parent
  directory there, nothing else at the path, revision as expected) leaves exactly the bytes of the
  source at the path, bumps the revision by one or starts at one, logs one change, and changes no
  other path; in every other case, source errors included, it reports an error and leaves every
  table as it was. The store stays well formed.\<close>

theorem write_commits_or_leaves_no_trace:
  assumes "ext_ok E" "wf E s" "w \<in> w_id ` set (workspaces s)" "canonical path"
  shows "commits E s w path aj
    (case collect_results source of
       Inl e \<Rightarrow> None
     | Inr cs \<Rightarrow>
         if fits (quota s w) [] (concat cs) \<and>
           accepts s w (vp_segments path) (wo_create options) (wo_expected_revision options)
         then Some (concat cs) else None)
    (write_op E w path source options aj s)"
  by (rule write_op_ok [OF assms])

theorem write_commits_or_leaves_no_trace_witness:
  "commits ext_demo db_dir ws_demo p_f ''{}'' (Some [7, 8])
     (write_op ext_demo ws_demo p_f [Inr [7], Inr [8]] write_options_default ''{}'' db_dir)"
proof -
  have "vp_segments p_f = [''f'']" "fits (quota db_dir ws_demo) [] [7, 8]"
    "accepts db_dir ws_demo [''f''] True None" by code_simp+
  with write_commits_or_leaves_no_trace [OF ext_ok_demo wf_db_dir ws_dir canonical_demo(2),
      where aj = "''{}''" and source = "[Inr [7], Inr [8]]" and options = write_options_default]
  show ?thesis by (simp add: write_options_default_def)
qed

text \<open>C5. Reading a file that holds some bytes gives exactly the requested range of them, cut at the
  end of the file; a range that starts past the end is an invalid range, and no range means the
  whole file.\<close>

theorem read_gives_the_range:
  assumes "wf E s" "sizes_fit s" "revisions_fit s" "file_at s w (vp_segments path) bs"
  shows "case ro_range options of
      None \<Rightarrow> \<exists>fr. read_op w path options s = Inr fr \<and> concat (fr_stream fr) = bs \<and>
        unat (fr_logical_length fr) = length bs
    | Some rg \<Rightarrow>
        if unat (br_start rg) > length bs then read_op w path options s = Inl (invalid_range (as_str path))
        else \<exists>fr. read_op w path options s = Inr fr \<and> unat (fr_logical_length fr) = length bs \<and>
          concat (fr_stream fr)
            = take (min (unat (br_end rg)) (length bs) - unat (br_start rg)) (drop (unat (br_start rg)) bs)"
  by (rule read_op_range [OF assms])

theorem read_gives_the_range_witness:
  "\<exists>fr. read_op ws_demo p_f \<lparr>ro_range = Some (br_new 1 9), ro_follow_symlinks = True\<rparr> db_file = Inr fr \<and>
     concat (fr_stream fr) = [2, 3]"
proof -
  have "vp_segments p_f = [''f'']" by code_simp
  then show ?thesis
    using read_gives_the_range [OF wf_db_file fits_db_file, of ws_demo p_f "[1, 2, 3]"
        "\<lparr>ro_range = Some (br_new 1 9), ro_follow_symlinks = True\<rparr>"] file_db_file
    by (auto simp: br_new_def)
qed

text \<open>C6. What is written is what is read: after a write that succeeded, a read of the whole file
  gives the bytes of the source back, in whatever pieces either side is cut.\<close>

theorem write_read_roundtrip:
  assumes "ext_ok E" "wf E s" "w \<in> w_id ` set (workspaces s)" "canonical path"
    and "write_op E w path source options aj s = (Inr n, t)" "collect_results source = Inr cs"
    and "sizes_fit t" "revisions_fit t" "ro_range ropts = None"
  shows "\<exists>fr. read_op w path ropts t = Inr fr \<and> concat (fr_stream fr) = concat cs"
proof -
  have "commits E s w path aj (if fits (quota s w) [] (concat cs) \<and>
      accepts s w (vp_segments path) (wo_create options) (wo_expected_revision options)
      then Some (concat cs) else None) (Inr n, t)"
    using write_op_ok [OF assms(1-4), where aj = aj and source = source and options = options] assms(5,6)
    by (simp split: if_splits)
  then have "wf E t" "file_at t w (vp_segments path) (concat cs)"
    by (auto simp: commits_def written_def split: if_splits)
  from read_op_range [OF this(1) assms(7,8) this(2), of ropts] assms(9) show ?thesis by auto
qed

theorem write_read_roundtrip_witness:
  "\<exists>n fr. fst (write_op ext_demo ws_demo p_f [Inr [1, 2], Inr [3]] write_options_default ''{}'' db_dir) = Inr n \<and>
     read_op ws_demo p_f read_options_default db_file = Inr fr \<and>
     concat (fr_stream fr) = [1, 2, 3]"
proof -
  have "\<not> isl (fst (write_op ext_demo ws_demo p_f [Inr [1, 2], Inr [3]] write_options_default ''{}'' db_dir))"
    by code_simp
  then obtain n where n: "write_op ext_demo ws_demo p_f [Inr [1, 2], Inr [3]] write_options_default ''{}'' db_dir
      = (Inr n, db_file)"
    by (metis db_file_def prod.collapse sum.collapse(2))
  then show ?thesis
    using write_read_roundtrip [OF ext_ok_demo wf_db_dir ws_dir canonical_demo(2) n _ fits_db_file,
        of "[[1, 2], [3]]" read_options_default] by (simp add: read_options_default_def)
qed

text \<open>C7. A write at an offset keeps the bytes before it, fills the gap past the old end with zeros,
  puts the new bytes and keeps the old bytes after them; it either does exactly that or reports an
  error and leaves every table as it was, and a write that meets its conditions fails only when a
  source piece failed or the quota is less than the result.\<close>

theorem write_at_splices:
  assumes "ext_ok E" "wf E s" "sizes_fit s" "w \<in> w_id ` set (workspaces s)" "canonical path"
    and "\<And>m. lookup_segs s w (vp_segments path) = Some m \<Longrightarrow> n_kind m = FILE_KIND \<Longrightarrow>
      file_at s w (vp_segments path) old"
    and "lookup_segs s w (vp_segments path) = None \<Longrightarrow> old = []"
  shows "spliced E s w path aj old offset source True
    (accepts s w (vp_segments path) (wo_create options) (wo_expected_revision options))
    (write_at E w path offset source options aj s)"
  using write_at_impl_ok [OF assms, where aj = aj and offset = offset and source = "Some source" and keep = True
      and create = "wo_create options" and expected = "wo_expected_revision options"]
  by (simp add: write_at_def)

theorem write_at_splices_witness:
  "spliced ext_demo db_file ws_demo p_f ''{}'' [1, 2, 3] 5 [Inr [9]] True True
     (write_at ext_demo ws_demo p_f 5 [Inr [9]] write_options_default ''{}'' db_file) \<and>
   splice [1, 2, 3] 5 [9] True = [1, 2, 3, 0, 0, 9]"
proof -
  have "vp_segments p_f = [''f'']" "lookup_segs db_file ws_demo [''f''] \<noteq> None"
    "accepts db_file ws_demo [''f''] True None" "splice [1, 2, 3] 5 [9] True = [1, 2, 3, 0, 0, 9]" by code_simp+
  then show ?thesis
    using write_at_splices [OF ext_ok_demo wf_db_file fits_db_file(1) ws_file canonical_demo(2), of "[1, 2, 3]"
        "''{}''" 5 "[Inr [9]]" write_options_default] file_db_file
    by (auto simp: write_options_default_def)
qed



section \<open>Changing the tree\<close>

text \<open>C9. Permanent removal ends and keeps the store well formed. When it succeeds, the path, resolved
  without following a final link, was a node other than the root whose revision was as expected
  and, if it was a directory, recursion was asked for or it had no active child; the node and all
  that was below it is gone, every other path and file is as it was, and one change is logged. Row by
  row: the nodes of the subtree are gone with their attributes, trash records, generations and
  chunks, and every other row of these tables is there as it was. In every other case the store is
  untouched.\<close>

theorem remove_cuts_the_subtree:
  assumes "wf E s" "canonical path"
  shows "\<exists>res t. remove_op E w path options aj s = (remove_result res path, t) \<and> wf E t \<and>
    (if res = RemoveRemoved then removed s t w path options aj \<and> removed_rows s t w path else t = s)"
proof -
  obtain res t where "remove_tx E w path options aj s = Some (res, t)" "wf E t"
    "if res = RemoveRemoved then removed s t w path options aj else t = s"
    using remove_tx_ok [OF assms, where w = w and options = options and aj = aj] by blast
  then show ?thesis
    by (intro exI [of _ res] exI [of _ t])
      (auto simp: remove_op_def finish_call_Some intro: remove_tx_rows [OF assms] split: if_splits)
qed

theorem remove_cuts_the_subtree_witness:
  "\<exists>t. remove_op ext_demo ws_demo p_f remove_options_default ''{}'' db_file = (Inr (), t) \<and>
     removed db_file t ws_demo p_f remove_options_default ''{}'' \<and> removed_rows db_file t ws_demo p_f"
proof -
  have "fst (remove_op ext_demo ws_demo p_f remove_options_default ''{}'' db_file) = Inr ()" by code_simp
  moreover obtain res t where "remove_op ext_demo ws_demo p_f remove_options_default ''{}'' db_file = (remove_result res p_f, t)" "if res = RemoveRemoved then removed db_file t ws_demo p_f remove_options_default ''{}'' \<and> removed_rows db_file t ws_demo p_f else t = db_file"
    using remove_cuts_the_subtree [OF wf_db_file canonical_demo(2), of ws_demo remove_options_default "''{}''"] by blast
  ultimately show ?thesis by (cases res) (auto simp: remove_result_def)
qed

text \<open>C10. Moving to the trash hides the node and everything below it from every path, keeps its row,
  its contents and its place on record under a new trash id, and touches nothing else: the node's row
  is marked, one trash record and one entry of the feed are added, the workspace counts that entry,
  and every other row of every table, attributes included, is as it was. Otherwise the store is
  untouched.\<close>

theorem trash_hides_the_subtree:
  assumes "ext_ok E" "wf E s" "canonical path"
  shows "\<exists>res t. trash E w path options aj s = (trash_result E res path (actor_or_default E aj), t) \<and> wf E t \<and>
    (case res of
       TrashTrashed tid d now \<Rightarrow> trashed s t w path options aj tid d now \<and>
         attributes t = attributes s \<and> counted s t w 1
     | _ \<Rightarrow> t = s)"
proof -
  obtain res t where "trash_tx E w path options aj s = Some (res, t)" "wf E t"
    "case res of TrashTrashed tid d now \<Rightarrow> trashed s t w path options aj tid d now | _ \<Rightarrow> t = s"
    using trash_tx_ok [OF assms, where w = w and options = options and aj = aj] by blast
  then show ?thesis
    by (intro exI [of _ res] exI [of _ t])
      (cases res; simp add: trash_def finish_call_Some trash_tx_rows del: One_nat_def)
qed

theorem trash_hides_the_subtree_witness:
  "\<exists>tid d now. trashed db_dir db_trash ws_demo p_a mutation_options_default ''{}'' tid d now"
proof -
  have "\<not> isl (fst (trash ext_demo ws_demo p_a mutation_options_default ''{}'' db_dir))" by code_simp
  moreover obtain res t where "trash ext_demo ws_demo p_a mutation_options_default ''{}'' db_dir = (trash_result ext_demo res p_a (actor_or_default ext_demo ''{}''), t)" "case res of TrashTrashed tid d now \<Rightarrow> trashed db_dir t ws_demo p_a mutation_options_default ''{}'' tid d now \<and> attributes t = attributes db_dir \<and> counted db_dir t ws_demo 1 | _ \<Rightarrow> t = db_dir"
    using trash_hides_the_subtree [OF ext_ok_demo wf_db_dir canonical_demo(1), of ws_demo mutation_options_default "''{}''"] by blast
  ultimately show ?thesis by (cases res) (auto simp: trash_result_def db_trash_def)
qed

text \<open>C11. Restoring puts the trashed node and its subtree back under the directory asked for, or the
  original one, at a free name, with a new revision, and takes its record out of the trash; no
  other path changes. Every other outcome leaves the store untouched.\<close>

theorem restore_revives_the_subtree:
  assumes "wf E s" "pred_option canonical dest"
  shows "\<exists>res t. restore E w tid dest options aj s = (restore_result E res tid, t) \<and> wf E t \<and>
    (case res of RestoreRestored n \<Rightarrow> restored s t w tid dest options aj n | _ \<Rightarrow> t = s)"
proof -
  have "canonical d" if "dest = Some d" for d using assms(2) that by simp
  then obtain res t where "restore_tx E w tid dest options aj s = Some (res, t)" "wf E t"
    "case res of RestoreRestored n \<Rightarrow> restored s t w tid dest options aj n | _ \<Rightarrow> t = s"
    using restore_tx_ok [OF assms(1), where dest = dest and w = w and tid = tid and options = options and aj = aj]
    by blast
  then show ?thesis by (intro exI [of _ res] exI [of _ t]) (simp add: restore_def finish_call_Some)
qed

theorem restore_revives_the_subtree_witness:
  "\<exists>n t. restored db_trash t ws_demo tid_demo None mutation_options_default ''{}'' n \<and>
     t = snd (restore ext_demo ws_demo tid_demo None mutation_options_default ''{}'' db_trash)"
proof -
  have "\<not> isl (fst (restore ext_demo ws_demo tid_demo None mutation_options_default ''{}'' db_trash))"
    by code_simp
  moreover obtain res t where "restore ext_demo ws_demo tid_demo None mutation_options_default ''{}'' db_trash = (restore_result ext_demo res tid_demo, t)" "case res of RestoreRestored n \<Rightarrow> restored db_trash t ws_demo tid_demo None mutation_options_default ''{}'' n | _ \<Rightarrow> t = db_trash"
    using restore_revives_the_subtree [OF wf_db_trash, of None ws_demo tid_demo mutation_options_default "''{}''"] by (auto simp: option.pred_inject)
  ultimately show ?thesis by (cases res) (auto simp: restore_result_def)
qed

text \<open>C12. Purging a trash record whose node is not on a parent cycle ends, deletes exactly the rows of the
  node and of all that is below it, with their attributes, trash records, generations and chunks,
  disturbs no path and no file, and logs one change; every other row of every table is as it was,
  but for the counter of the workspace. An unknown record is reported and nothing changes.\<close>

theorem purge_deletes_the_subtree:
  assumes "wf E s" "\<forall>i op nm. fetch_trash_row s w tid = Some (i, op, nm) \<longrightarrow> no_cycle (nodes s) i"
  shows "\<exists>res t. purge E w tid aj s = (purge_result res tid, t) \<and> wf E t \<and>
    (case res of PurgePurged \<Rightarrow> purged_entry s t w tid aj \<and> purged_rows_only s t w tid
     | PurgeNotFound \<Rightarrow> t = s \<and> fetch_trash_row s w tid = None)"
proof -
  have "no_cycle (nodes s) i" if "fetch_trash_row s w tid = Some (i, op, nm)" for i op nm
    using assms(2) that by blast
  then obtain res t where "purge_tx E w tid aj s = Some (res, t)" "wf E t"
    "case res of PurgePurged \<Rightarrow> purged_entry s t w tid aj | PurgeNotFound \<Rightarrow> t = s \<and> fetch_trash_row s w tid = None"
    using purge_tx_ok [OF assms(1), where w = w and tid = tid and aj = aj] by blast
  then show ?thesis
    by (intro exI [of _ res] exI [of _ t])
      (cases res; simp add: purge_def finish_call_Some purge_tx_rows [OF assms(1)])
qed

theorem purge_deletes_the_subtree_witness:
  "\<exists>t. purge ext_demo ws_demo tid_demo ''{}'' db_trash = (Inr (), t) \<and> purged_entry db_trash t ws_demo tid_demo ''{}''"
proof -
  have "\<forall>i op nm. fetch_trash_row db_trash ws_demo tid_demo = Some (i, op, nm) \<longrightarrow> no_cycle (nodes db_trash) i"
    using no_cycle_demo unfolding fetch_trash_demo by blast
  from purge_deletes_the_subtree [OF wf_db_trash this, of "''{}''"] obtain res t where
    "purge ext_demo ws_demo tid_demo ''{}'' db_trash = (purge_result res tid_demo, t)"
    "case res of PurgePurged \<Rightarrow> purged_entry db_trash t ws_demo tid_demo ''{}'' \<and> purged_rows_only db_trash t ws_demo tid_demo
       | PurgeNotFound \<Rightarrow> t = db_trash \<and> fetch_trash_row db_trash ws_demo tid_demo = None" by blast
  with fetch_trash_demo show ?thesis by (cases res) (auto simp: purge_result_def)
qed

text \<open>C13. A move ends and keeps the store well formed; every outcome but success leaves the store
  untouched. When it succeeds the source was a node other than the root, the destination's parent a
  directory, and an occupied destination was allowed to be overwritten. What was at the destination
  is then deleted, the source's row gets the new parent, name, revision and time, one change is
  logged, and no other row of any table changes. If neither place lies inside the other in the tree,
  the subtree, contents included, is now at the destination, the source and an overwritten node are
  gone from the paths, and no other path changes. The check of the code compares the two path
  texts only, so two other cases succeed too: if the destination is the source reached by another
  path, or a place above it, the source is deleted with what was overwritten; if the destination
  lies inside the source, reached through a link, the subtree is on no path any more. No other
  path changes in either case.\<close>

theorem move_carries_the_subtree:
  assumes "wf E s" "canonical from_path" "canonical to_path"
  shows "\<exists>res t. move_path E w from_path to_path options aj s = (move_result E res from_path to_path, t) \<and>
    wf E t \<and>
    (case res of
       MoveMoved n \<Rightarrow> move_done s t w from_path to_path options aj n \<and> move_effect s t w from_path to_path n
     | _ \<Rightarrow> t = s)"
proof -
  obtain res t where "move_tx E w from_path to_path options aj s = Some (res, t)" "wf E t"
    "case res of MoveMoved n \<Rightarrow> move_done s t w from_path to_path options aj n | _ \<Rightarrow> t = s"
    using move_tx_ok [OF assms, where w = w and options = options and aj = aj] by blast
  then show ?thesis
    by (intro exI [of _ res] exI [of _ t])
      (cases res; simp add: move_path_def finish_call_Some move_tx_effect [OF assms])
qed

theorem move_carries_the_subtree_witness:
  "\<exists>n t. move_path ext_demo ws_demo p_f p_l move_options_default ''{}'' db_file = (into_node ext_demo n, t) \<and>
     move_done db_file t ws_demo p_f p_l move_options_default ''{}'' n \<and> move_effect db_file t ws_demo p_f p_l n"
proof -
  have "\<not> isl (fst (move_path ext_demo ws_demo p_f p_l move_options_default ''{}'' db_file))" by code_simp
  moreover obtain res t where "move_path ext_demo ws_demo p_f p_l move_options_default ''{}'' db_file = (move_result ext_demo res p_f p_l, t)" "case res of MoveMoved n \<Rightarrow> move_done db_file t ws_demo p_f p_l move_options_default ''{}'' n \<and> move_effect db_file t ws_demo p_f p_l n | _ \<Rightarrow> t = db_file"
    using move_carries_the_subtree [OF wf_db_file canonical_demo(2,3), of ws_demo move_options_default "''{}''"] by blast
  ultimately show ?thesis by (cases res) (auto simp: move_result_def)
qed

text \<open>C14. Creating a symbolic link adds one node, which holds the target text unchanged and is at the
  link's name in the directory its parent path resolves to; no other path changes. An existing
  link is returned only when that is allowed, and every outcome but creation changes nothing.\<close>

theorem symlink_adds_one_link:
  assumes "ext_ok E" "wf E s" "canonical link" "vp_name link \<noteq> None" "valid_target target"
  shows "\<exists>res t. symlink E w target link options aj s = (symlink_result E res link, t) \<and> wf E t \<and>
    (case res of
       SymlinkCreated n \<Rightarrow> linked s t w link target aj n
     | SymlinkExisting n \<Rightarrow> t = s \<and> n_kind n = SYMLINK_KIND \<and> co_exist_ok options \<and>
         (\<exists>xs. lookup_segs s w xs = Some n)
     | _ \<Rightarrow> t = s)"
  using symlink_tx_ok [OF assms, where w = w and options = options and aj = aj] assms(4) by (auto simp: symlink_def finish_call_Some)

theorem symlink_adds_one_link_witness:
  "\<exists>n. linked db_file db_link ws_demo p_l (LinkTarget ''a'') ''{}'' n"
proof -
  have nm: "vp_name p_l \<noteq> None" by code_simp
  have "nodes db_link \<noteq> nodes db_file" "\<not> isl (fst (symlink ext_demo ws_demo (LinkTarget ''a'') p_l create_options_default ''{}'' db_file))"
    by code_simp+
  moreover obtain res t where "symlink ext_demo ws_demo (LinkTarget ''a'') p_l create_options_default ''{}'' db_file = (symlink_result ext_demo res p_l, t)" "case res of SymlinkCreated n \<Rightarrow> linked db_file t ws_demo p_l (LinkTarget ''a'') ''{}'' n | SymlinkExisting n \<Rightarrow> t = db_file \<and> n_kind n = SYMLINK_KIND \<and> co_exist_ok create_options_default \<and> (\<exists>xs. lookup_segs db_file ws_demo xs = Some n) | _ \<Rightarrow> t = db_file"
    using symlink_adds_one_link [OF ext_ok_demo wf_db_file canonical_demo(3) nm valid_target_demo, of ws_demo create_options_default "''{}''"] by blast
  ultimately show ?thesis by (cases res) (auto simp: symlink_result_def db_link_def)
qed

text \<open>C15. Setting an attribute stores the value under the key for the node the path names, no other
  attribute changes, the node gets a new revision and keeps its place and contents; the key and
  value bounds hold of whatever is stored, and the bounds on a whole node stay true. Every refused
  call changes nothing.\<close>

theorem set_attribute_updates_one_key:
  assumes "wf E s" "canonical path"
  shows "\<exists>res t. set_attribute E w path key val options aj s = (attribute_result E res path, t) \<and> wf E t \<and>
    (case res of AttrUpdated n attrs \<Rightarrow>
       attribute_set s t w path key val options aj n \<and> attrs = build_attributes_map E t (n_id n)
     | _ \<Rightarrow> t = s)"
  using set_attribute_tx_ok [OF assms, where w = w and key = key and val = val and options = options and aj = aj]
  by (auto simp: set_attribute_def finish_call_Some)

theorem set_attribute_updates_one_key_witness:
  "\<exists>n t. attribute_set db_file t ws_demo p_f ''k'' [9] mutation_options_default ''{}'' n"
proof -
  have "\<not> isl (fst (set_attribute ext_demo ws_demo p_f ''k'' [9] mutation_options_default ''{}'' db_file))" by code_simp
  moreover obtain res t where "set_attribute ext_demo ws_demo p_f ''k'' [9] mutation_options_default ''{}'' db_file = (attribute_result ext_demo res p_f, t)" "case res of AttrUpdated n attrs \<Rightarrow> attribute_set db_file t ws_demo p_f ''k'' [9] mutation_options_default ''{}'' n \<and> attrs = build_attributes_map ext_demo t (n_id n) | _ \<Rightarrow> t = db_file"
    using set_attribute_updates_one_key [OF wf_db_file canonical_demo(2), of ws_demo "''k''" "[9]" mutation_options_default "''{}''"] by blast
  ultimately show ?thesis by (cases res) (auto simp: attribute_result_def)
qed

text \<open>C16. Removing an attribute takes exactly that key away from the node; if the node had it, the
  node gets a new revision and one change is logged, and if not, the store does not change.\<close>

theorem remove_attribute_drops_one_key:
  assumes "wf E s" "canonical path"
  shows "\<exists>res t. remove_attribute E w path key options aj s = (attribute_result E res path, t) \<and> wf E t \<and>
    (case res of AttrUpdated n attrs \<Rightarrow>
       attribute_removed s t w path key options aj n \<and> attrs = build_attributes_map E t (n_id n)
     | _ \<Rightarrow> t = s)"
  using remove_attribute_tx_ok [OF assms, where w = w and key = key and options = options and aj = aj]
  by (auto simp: remove_attribute_def finish_call_Some)

theorem remove_attribute_drops_one_key_witness:
  "\<exists>n t. attribute_removed db_file t ws_demo p_f ''k'' mutation_options_default ''{}'' n"
proof -
  have "\<not> isl (fst (remove_attribute ext_demo ws_demo p_f ''k'' mutation_options_default ''{}'' db_file))" by code_simp
  moreover obtain res t where "remove_attribute ext_demo ws_demo p_f ''k'' mutation_options_default ''{}'' db_file = (attribute_result ext_demo res p_f, t)" "case res of AttrUpdated n attrs \<Rightarrow> attribute_removed db_file t ws_demo p_f ''k'' mutation_options_default ''{}'' n \<and> attrs = build_attributes_map ext_demo t (n_id n) | _ \<Rightarrow> t = db_file"
    using remove_attribute_drops_one_key [OF wf_db_file canonical_demo(2), of ws_demo "''k''" mutation_options_default "''{}''"] by blast
  ultimately show ?thesis by (cases res) (auto simp: attribute_result_def)
qed

section \<open>Workspaces\<close>

text \<open>C17. Creating a workspace always succeeds: it gets a new id, the limits asked for and a root
  directory of its own. One workspace row and one node row are added, and every row that was there,
  of every table, is as it was.\<close>

theorem create_workspace_adds_one:
  assumes "ext_ok E" "wf E s"
  shows "\<exists>k t now. create_workspace E opts s = (Inr k, t) \<and> wf E t \<and>
    wk_id k \<notin> w_id ` set (workspaces s) \<and>
    workspaces t = workspaces s @ [\<lparr>w_id = wk_id k, w_created_at_ms = now, w_updated_at_ms = now,
      w_change_seq = 0, w_max_bytes = as_i64 (wso_max_bytes opts), w_max_nodes = as_i64 (wso_max_nodes opts),
      w_max_file_bytes = as_i64 (wso_max_file_bytes opts)\<rparr>] \<and>
    nodes t = nodes s @ [root_row (now_v7 E (Suc (ids_used s))) (wk_id k) now] \<and>
    generations t = generations s \<and> chunks t = chunks s \<and> attributes t = attributes s \<and>
    trash_rows t = trash_rows s \<and> changes t = changes s"
proof -
  obtain k t where "create_workspace E opts s = (Inr k, t)" "wf E t" "wk_id k \<notin> w_id ` set (workspaces s)"
    by (rule create_workspace_wf [OF assms])
  with create_workspace_rows [of E opts s k t] show ?thesis by blast
qed

theorem create_workspace_adds_one_witness:
  "\<exists>k t. create_workspace ext_demo workspace_options_default db_file = (Inr k, t) \<and>
     wk_id k \<notin> w_id ` set (workspaces db_file) \<and> length (nodes t) = 4"
proof -
  have "length (nodes db_file) = 3" by code_simp
  with create_workspace_adds_one [OF ext_ok_demo wf_db_file, of workspace_options_default]
  show ?thesis by (metis Suc_eq_plus1 add_2_eq_Suc' length_append_singleton numeral_3_eq_3 numeral_eq_Suc pred_numeral_simps(2) semiring_norm(26) semiring_norm(27))
qed

text \<open>C18. Deleting a workspace removes exactly its rows from every table: its nodes with their
  attributes, its generations with their chunks, its trash records, its changes and its own row. The
  rows of the other workspaces stay as they were, and the store stays well formed.\<close>

theorem delete_workspace_removes_its_rows:
  assumes "wf E s"
  shows "\<exists>t. delete_workspace w s = (Inr (), t) \<and> wf E t \<and>
    nodes t = filter (\<lambda>r. n_workspace_id r \<noteq> w) (nodes s) \<and>
    workspaces t = filter (\<lambda>r. w_id r \<noteq> w) (workspaces s) \<and>
    workspace_cleared s t w"
proof -
  obtain t where "delete_workspace w s = (Inr (), t)" "wf E t"
    "nodes t = filter (\<lambda>r. n_workspace_id r \<noteq> w) (nodes s)"
    "workspaces t = filter (\<lambda>r. w_id r \<noteq> w) (workspaces s)"
    by (rule delete_workspace_wf [OF assms, of w])
  with delete_workspace_rows_cleared [OF assms, of w t] show ?thesis by blast
qed

theorem delete_workspace_removes_its_rows_witness:
  "\<exists>t. delete_workspace ws_demo db_file = (Inr (), t) \<and> nodes t = []"
proof -
  have "filter (\<lambda>r. n_workspace_id r \<noteq> ws_demo) (nodes db_file) = []" by code_simp
  with delete_workspace_removes_its_rows [OF wf_db_file, of ws_demo] show ?thesis by auto
qed

text \<open>C19. Resetting a workspace leaves it with nothing but a new root directory and an empty change
  log: its other rows are gone from every table, its own row has its counter at zero and a new time,
  and the rows of the other workspaces are in every table as they were.\<close>

theorem reset_workspace_leaves_a_root:
  assumes "ext_ok E" "wf E s" "w \<in> w_id ` set (workspaces s)"
  shows "\<exists>t now. reset_workspace E w s = (Inr (), t) \<and> wf E t \<and>
    nodes t = filter (\<lambda>r. n_workspace_id r \<noteq> w) (nodes s) @ [root_row (fresh_id E s) w now] \<and>
    workspaces t = map (\<lambda>r. if w_id r = w then r\<lparr>w_change_seq := 0, w_updated_at_ms := now\<rparr> else r) (workspaces s) \<and>
    workspace_cleared s t w"
proof -
  obtain t where t: "reset_workspace E w s = (Inr (), t)" "wf E t"
    by (rule reset_workspace_wf [OF assms])
  with reset_workspace_rows [OF assms(2) t(1)] show ?thesis by blast
qed

theorem reset_workspace_leaves_a_root_witness:
  "\<exists>t. reset_workspace ext_demo ws_demo db_file = (Inr (), t) \<and> length (nodes t) = 1 \<and> changes t = []"
proof -
  have "filter (\<lambda>r. n_workspace_id r \<noteq> ws_demo) (nodes db_file) = []"
    "filter (\<lambda>c. ch_workspace_id c \<noteq> ws_demo) (changes db_file) = []" by code_simp+
  with reset_workspace_leaves_a_root [OF ext_ok_demo wf_db_file ws_file] show ?thesis by (auto simp: workspace_cleared_def)
qed

section \<open>Resolution and listings\<close>

text \<open>C20. Resolution through links ends, and what it finds is a node of the workspace's tree, not a
  link when the final link is to be followed; where the plain walk meets no link to follow, it
  finds the node of the plain walk.\<close>

theorem resolution_is_sound:
  assumes "wf E s"
  shows "(\<forall>n. resolve_following s w p f = RFound n \<longrightarrow>
      (\<exists>xs. lookup_segs s w xs = Some n) \<and> (f \<longrightarrow> n_kind n \<noteq> SYMLINK_KIND)) \<and>
    (\<forall>n. lookup_segs s w (vp_segments p) = Some n \<and> (f \<longrightarrow> n_kind n \<noteq> SYMLINK_KIND) \<longrightarrow>
      resolve_following s w p f = RFound n)"
  using resolve_following_reachable [OF wfD(2) [OF assms]] resolve_following_plain
    resolve_following_target
  by (auto simp: reachable_def)

theorem resolution_is_sound_witness:
  "\<exists>d n. resolve_following db_link ws_demo p_l True = RFound d \<and> n_kind d = DIRECTORY_KIND \<and>
     resolve_following db_link ws_demo p_l False = RFound n \<and> n_kind n = SYMLINK_KIND \<and>
     (\<exists>xs. lookup_segs db_link ws_demo xs = Some d)"
proof -
  have "(case resolve_following db_link ws_demo p_l True of RFound d \<Rightarrow> n_kind d = DIRECTORY_KIND | _ \<Rightarrow> False)"
    "(case resolve_following db_link ws_demo p_l False of RFound n \<Rightarrow> n_kind n = SYMLINK_KIND | _ \<Rightarrow> False)"
    by code_simp+
  then obtain d n where "resolve_following db_link ws_demo p_l True = RFound d" "n_kind d = DIRECTORY_KIND"
    "resolve_following db_link ws_demo p_l False = RFound n" "n_kind n = SYMLINK_KIND"
    by (fastforce split: resolve_outcome.splits)
  with resolution_is_sound [OF wf_db_link, of ws_demo p_l True] show ?thesis by metis
qed

text \<open>C21. A client that follows the cursors of \<open>read_dir\<close> on an unchanging store gets every active
  child of the directory once, ordered by name, whatever the page size, and gets to the end within
  one request per child and one more.\<close>

theorem read_dir_pages_are_complete:
  assumes "ext_ok E" "wf E s" "revisions_fit s" "codec_ok C" "0 < n"
    and "resolve s w path = Some d" "n_kind d = DIRECTORY_KIND"
  shows "\<exists>rows. set rows = {r. visible s w r \<and> n_parent_id r = Some (n_id d)} \<and>
    sorted_wrt (\<lambda>r q. n_name r < n_name q) rows \<and>
    follow_cursors (Suc (length rows)) (\<lambda>c. read_dir E C w path \<lparr>pr_cursor = c, pr_limit = n\<rparr> s) None
      = Some (Inr (map (\<lambda>r. node_of (map_row r)) rows))"
proof -
  let ?x = "(E, C, w, path, s)"
  have r: "dir_ready ?x" using assms by (auto simp: dir_ready_def)
  note set = set_dir_rows [OF assms(6), of E C]
  have "sorted_wrt (\<lambda>r q. n_name r < n_name q) (dir_rows ?x)"
  proof (rule sorted_wrt_mono_rel [OF _ dir.ordered [OF r]])
    fix r q assume rq: "r \<in> set (dir_rows ?x)" "q \<in> set (dir_rows ?x)" "(n_name r, n_id r) < (n_name q, n_id q)"
    then have "visible s w r" "visible s w q" "n_parent_id r = Some (n_id d)" "n_parent_id q = Some (n_id d)"
      unfolding set by auto
    then have "n_name r = n_name q \<Longrightarrow> r = q"
      using siblings_unique [OF tree_okD(2) [OF wfD(2) [OF assms(2)]]] by blast
    with rq(3) show "n_name r < n_name q" by (cases "n_name r = n_name q") (auto simp: order.order_iff_strict)
  qed
  moreover have "dir_serve ?x n = (\<lambda>c. read_dir E C w path \<lparr>pr_cursor = c, pr_limit = n\<rparr> s)"
    by (simp add: dir_serve_def fun_eq_iff)
  ultimately show ?thesis using set dir.follow_all [OF r assms(5)] by auto
qed

theorem read_dir_pages_are_complete_witness:
  "\<exists>rows. set rows = {r. visible db_file ws_demo r \<and> n_parent_id r = Some ''uu''} \<and>
     follow_cursors (Suc (length rows))
       (\<lambda>c. read_dir ext_demo dir_codec_demo ws_demo vp_root \<lparr>pr_cursor = c, pr_limit = 1\<rparr> db_file) None
       = Some (Inr (map (\<lambda>r. node_of (map_row r)) rows))"
proof -
  have "(case resolve db_file ws_demo vp_root of Some d \<Rightarrow> n_kind d = DIRECTORY_KIND \<and> n_id d = ''uu'' | None \<Rightarrow> False)"
    by code_simp
  then obtain d where d: "resolve db_file ws_demo vp_root = Some d" "n_kind d = DIRECTORY_KIND" "n_id d = ''uu''"
    by (auto split: option.splits)
  from read_dir_pages_are_complete [OF ext_ok_demo wf_db_file fits_db_file(2) dir_codec_ok _ d(1,2), of 1]
  show ?thesis by (auto simp: d(3))
qed



text \<open>C23. A copy between places of the tree that do not lie inside each other ends, whatever the
  shape of the tree, and keeps the store well formed. When it succeeds every node of the source's
  subtree, with its kind, contents, link target and attributes, is found under the destination at
  the same relative path, nothing else is found there, and no other path changes. Row by row: what
  was at the destination is deleted, then rows of new nodes, generations, chunks and attributes are
  added, one change is logged, and every other row of every table, those of the source included, is
  as it was. Every other outcome leaves the store untouched.\<close>

theorem copy_is_deep:
  assumes "ext_ok E" "wf E s" "sizes_fit s" "canonical from_path" "canonical to_path" "apart s w from_path to_path"
  shows "\<exists>res t. copy_op E w from_path to_path options aj s = (copy_result E res from_path to_path, t) \<and>
    wf E t \<and>
    (case res of
       CopyCreated n \<Rightarrow> copy_done s t w from_path to_path options aj n \<and> copy_effect s t w to_path
     | _ \<Rightarrow> t = s)"
proof -
  obtain res t where "copy_tx E w from_path to_path options aj s = Some (res, t)" "wf E t"
    "case res of CopyCreated n \<Rightarrow> copy_done s t w from_path to_path options aj n | _ \<Rightarrow> t = s"
    using copy_tx_ok [OF assms, where options = options and aj = aj] by blast
  then show ?thesis
    by (intro exI [of _ res] exI [of _ t])
      (cases res; simp add: copy_op_def finish_call_Some copy_tx_effect [OF assms(2,5)])
qed

theorem copy_is_deep_witness:
  "\<exists>n t. copy_op ext_demo ws_demo p_f p_l copy_options_default ''{}'' db_file = (into_node ext_demo n, t) \<and>
     copy_done db_file t ws_demo p_f p_l copy_options_default ''{}'' n \<and> copy_effect db_file t ws_demo p_l"
proof -
  have "\<not> isl (fst (copy_op ext_demo ws_demo p_f p_l copy_options_default ''{}'' db_file))" by code_simp
  moreover obtain res t where "copy_op ext_demo ws_demo p_f p_l copy_options_default ''{}'' db_file = (copy_result ext_demo res p_f p_l, t)" "case res of CopyCreated n \<Rightarrow> copy_done db_file t ws_demo p_f p_l copy_options_default ''{}'' n \<and> copy_effect db_file t ws_demo p_l | _ \<Rightarrow> t = db_file"
    using copy_is_deep [OF ext_ok_demo wf_db_file fits_db_file(1) canonical_demo(2,3) apart_demo, of copy_options_default "''{}''"] by blast
  ultimately show ?thesis by (cases res) (auto simp: copy_result_def)
qed

section \<open>Batches and the life of a store\<close>

text \<open>C24. A batch is atomic. If it completes, its results and its store are those of running its
  operations one after the other, each from the store the one before left, with every capability
  checked; conversely a batch whose operations all run that way completes. If it fails the store
  is untouched, all operations before the reported index would have run, and the one at the index
  was refused for lack of its capability, failed with the reported error, or hit a database error.\<close>

theorem batch_is_atomic:
  "batch_done E ctx aj xs s (fst (batch E ctx xs aj s)) (snd (batch E ctx xs aj s)) \<and>
   (batch E ctx xs aj s = (Inr rs, t) \<longleftrightarrow>
     runs (batch_step E (cx_workspace_id ctx) (cx_capabilities ctx) aj) xs rs s t)"
proof
  show ok: "batch_done E ctx aj xs s (fst (batch E ctx xs aj s)) (snd (batch E ctx xs aj s))" by (rule batch_ok)
  show "batch E ctx xs aj s = (Inr rs, t) \<longleftrightarrow>
     runs (batch_step E (cx_workspace_id ctx) (cx_capabilities ctx) aj) xs rs s t"
    using ok batch_completes by (auto simp: batch_done_def Let_def)
qed

text \<open>C25. Every store that any sequence of requests can lead to from the empty database is well
  formed: the declared constraints hold, each workspace has one root, the parent of every other row is a
  directory of the same workspace and siblings have distinct names (rows no path reaches may hang in
  a cycle, as after a move into the source through a link), the change log is numbered without gaps, every file has one complete generation
  of its own whose chunks have exactly the file's size, and every trashed row has exactly one
  trash record. No request, allowed, refused or failing, breaks this.\<close>

theorem every_store_is_well_formed:
  assumes "ext_ok E" "stores E s"
  shows "wf E s"
  using assms by (rule stores_wf)

theorem every_store_is_well_formed_witness: "wf ext_demo db_dir \<and> length (nodes db_dir) = 2"
proof
  show "wf ext_demo db_dir" by (rule every_store_is_well_formed [OF ext_ok_demo stores_demo])
  show "length (nodes db_dir) = 2" by code_simp
qed

text \<open>C26. What a command may do is decided by the capabilities of its context alone, for every command
  there is: each operation that reads, lists or searches needs the read capability, each that changes
  the one for its kind of change, and a batch those of all its operations. Without them the command
  is answered by an error and changes nothing; a command other than a batch tells nothing of the
  store either, since its error is permission denied for the subject that was named, whatever the
  store holds. With them, no other capability of the context makes a difference: the answer and the
  store after it are the same under every set of capabilities that has the needed ones. And so a
  session at the prompt whose context lacks the three capabilities to change leaves the store as
  it was, whatever lines are typed.\<close>

theorem no_capability_no_effect:
  "(\<not> capabilities_for ctx cmd \<subseteq> set (cx_capabilities ctx) \<longrightarrow>
      (\<exists>e. execute (sqlite_file_system E C) ctx cmd s = Some (Inl e, s) \<and>
        (\<forall>c subject. needs ctx cmd = Some (c, subject) \<longrightarrow> e = permission_denied subject))) \<and>
   (\<forall>ctx'. same_actor ctx ctx' \<and> capabilities_for ctx cmd \<subseteq> set (cx_capabilities ctx) \<inter> set (cx_capabilities ctx') \<longrightarrow>
      execute (sqlite_file_system E C) ctx' cmd s = execute (sqlite_file_system E C) ctx cmd s) \<and>
   (read_only ctx \<longrightarrow>
      (\<forall>H lines out t. run_repl H (execute (sqlite_file_system E C)) ctx lines s = Some (out, t) \<longrightarrow> t = s))"
proof (intro conjI impI)
  assume "\<not> capabilities_for ctx cmd \<subseteq> set (cx_capabilities ctx)"
  then show "\<exists>e. execute (sqlite_file_system E C) ctx cmd s = Some (Inl e, s) \<and>
      (\<forall>c subject. needs ctx cmd = Some (c, subject) \<longrightarrow> e = permission_denied subject)" by (rule denied)
next
  show "\<forall>ctx'. same_actor ctx ctx' \<and> capabilities_for ctx cmd \<subseteq> set (cx_capabilities ctx) \<inter> set (cx_capabilities ctx') \<longrightarrow>
      execute (sqlite_file_system E C) ctx' cmd s = execute (sqlite_file_system E C) ctx cmd s"
    by (intro allI impI, elim conjE) (rule granted)
next
  assume "read_only ctx"
  then show "\<forall>H lines out t. run_repl H (execute (sqlite_file_system E C)) ctx lines s = Some (out, t) \<longrightarrow> t = s"
    by (intro allI impI) (rule read_only_session)
qed

theorem no_capability_no_effect_witness:
  "execute fs_demo \<lparr>cx_workspace_id = ws_demo, cx_actor_metadata = [], cx_capabilities = [CapWrite, CapDelete]\<rparr>
     (CmdExists p_f \<lparr>so_follow_symlinks = True\<rparr>) db_file = Some (Inl (permission_denied ''/f''), db_file) \<and>
   execute fs_demo \<lparr>cx_workspace_id = ws_demo, cx_actor_metadata = [], cx_capabilities = [CapDelete]\<rparr>
     (CmdRemove p_f remove_options_default) db_file =
   execute fs_demo \<lparr>cx_workspace_id = ws_demo, cx_actor_metadata = [], cx_capabilities = [CapRead, CapDelete]\<rparr>
     (CmdRemove p_f remove_options_default) db_file \<and>
   (\<exists>out. run_repl env_demo (execute fs_demo)
     \<lparr>cx_workspace_id = ws_demo, cx_actor_metadata = [], cx_capabilities = [CapRead]\<rparr>
     [Some ''mkdir /a'', Some ''cat /f'', Some ''rm /f''] db_file = Some (out, db_file) \<and> length out = 3)"
proof (intro conjI)
  let ?ctx = "\<lambda>caps. \<lparr>cx_workspace_id = ws_demo, cx_actor_metadata = [], cx_capabilities = caps\<rparr>"
  note effect = no_capability_no_effect [where E = ext_demo and C = codecs_demo, folded fs_demo_def]
  show "execute fs_demo (?ctx [CapWrite, CapDelete]) (CmdExists p_f \<lparr>so_follow_symlinks = True\<rparr>) db_file =
      Some (Inl (permission_denied ''/f''), db_file)"
    using effect [of "?ctx [CapWrite, CapDelete]" "CmdExists p_f \<lparr>so_follow_symlinks = True\<rparr>" db_file] by simp
  show "execute fs_demo (?ctx [CapDelete]) (CmdRemove p_f remove_options_default) db_file =
      execute fs_demo (?ctx [CapRead, CapDelete]) (CmdRemove p_f remove_options_default) db_file"
  proof -
    have "same_actor (?ctx [CapRead, CapDelete]) (?ctx [CapDelete]) \<and>
        capabilities_for (?ctx [CapRead, CapDelete]) (CmdRemove p_f remove_options_default)
          \<subseteq> set (cx_capabilities (?ctx [CapRead, CapDelete])) \<inter> set (cx_capabilities (?ctx [CapDelete]))"
      by (simp add: same_actor_def)
    with conjunct1 [OF conjunct2 [OF effect [of "?ctx [CapRead, CapDelete]" "CmdRemove p_f remove_options_default" db_file]]]
    show ?thesis by blast
  qed
  have "map_option (\<lambda>(out, _). length out)
      (run_repl env_demo (execute fs_demo) (?ctx [CapRead]) [Some ''mkdir /a'', Some ''cat /f'', Some ''rm /f''] db_file) = Some 3"
    by code_simp
  then obtain out t where r: "run_repl env_demo (execute fs_demo) (?ctx [CapRead])
      [Some ''mkdir /a'', Some ''cat /f'', Some ''rm /f''] db_file = Some (out, t)" "length out = 3" by auto
  have "read_only (?ctx [CapRead])" by (simp add: read_only_def)
  with r effect [of "?ctx [CapRead]" "CmdWorkspaceUsage" db_file]
  show "\<exists>out. run_repl env_demo (execute fs_demo) (?ctx [CapRead])
      [Some ''mkdir /a'', Some ''cat /f'', Some ''rm /f''] db_file = Some (out, db_file) \<and> length out = 3" by blast
qed

section \<open>Command lines\<close>

text \<open>C27. The words given on the command line of the process, quoted and joined, are read back by the
  tokenizer as exactly those words, flags told from plain words; the one exception is a word with
  a dollar sign before a parenthesis, which is refused however it is quoted.\<close>

theorem command_words_round_trip:
  assumes "list_all utf8_ok words" "length (quote_line words) \<le> MAX_LINE_LEN"
    and "\<not> list_ex (\<lambda>w. CHR 0x00 \<in> set w) words"
  shows "tokenize (quote_line words) =
    (if list_ex (contains [CHR 0x24, CHR 0x28]) words then Inl (UnsupportedMetacharacter [CHR 0x24])
     else Inr (map classify words))"
  using words_round_trip [OF assms] dollar_word_refused [OF assms(2,3)] by simp

theorem command_words_round_trip_witness:
  "tokenize (quote_line [''write'', ''it's|a file'', ''--text=a b'']) =
     Inr [Word ''write'', Word ''it's|a file'', Flag ''text'' (Some ''a b'')]"
  by (subst command_words_round_trip; code_simp)

text \<open>C28. What the tokenizer accepts has no metacharacter outside of quotes and ends outside of
  quotes, and the tokens together are the text of the line, with the quotes, the escapes and the
  spaces between words resolved: no character of a word is lost or made up.\<close>

theorem no_metacharacter_outside_quotes:
  assumes "tokenize line = Inr tokens"
  shows "\<not> list_ex is_meta (exposed Bare (utf8_chars line)) \<and>
    mode_after Bare (utf8_chars line) = Bare \<and>
    concat (map token_text tokens) = text_of Bare (utf8_chars line)"
  using tokenize_loop_reads [of "utf8_chars line" tokens] assms
  by (auto simp: tokenize_def reads_def split: if_splits)

theorem no_metacharacter_outside_quotes_witness:
  "tokenize ''cat \"a;b\"  c'' = Inr [Word ''cat'', Word ''a;b'', Word ''c''] \<and>
   text_of Bare (utf8_chars ''cat \"a;b\"  c'') = ''cata;bc''"
proof
  show t: "tokenize ''cat \"a;b\"  c'' = Inr [Word ''cat'', Word ''a;b'', Word ''c'']" by code_simp
  show "text_of Bare (utf8_chars ''cat \"a;b\"  c'') = ''cata;bc''"
    using no_metacharacter_outside_quotes [OF t] by simp
qed

text \<open>C29. A line the parser accepts starts with a verb of the help table, has only flags the table lists
  for the verb and no more arguments than the verb takes; its paths and link targets are in normal form.\<close>

theorem parse_accepts_what_help_lists:
  assumes "env_ok H" "parse H line = Inr cmd"
  shows "accepted line \<and> legal_command cmd"
  using parse_accepted [OF assms] parse_legal [OF assms] ..

theorem parse_accepts_what_help_lists_witness:
  "parse env_demo ''mkdir a/../b --parents'' =
     Inr (CmdMkdir (VirtualPath ''/b'') (create_options_default\<lparr>co_parents := True\<rparr>)) \<and>
   accepted ''mkdir a/../b --parents''"
proof
  show p: "parse env_demo ''mkdir a/../b --parents'' =
     Inr (CmdMkdir (VirtualPath ''/b'') (create_options_default\<lparr>co_parents := True\<rparr>))" by code_simp
  show "accepted ''mkdir a/../b --parents''" using parse_accepts_what_help_lists [OF env_ok_demo p] ..
qed

text \<open>C30. A line the tokenizer accepts is refused with the reason: an unknown verb, a flag the help table
  does not list, or too many arguments.\<close>

theorem parse_refuses_the_rest:
  assumes "env_ok H" "tokenize line = Inr (Word verb # rest)"
  shows
    "(verb \<notin> set (map vh_name VERB_HELP) \<longrightarrow> parse H line = Inl (UnknownVerb verb)) \<and>
     (verb \<in> set (map vh_name VERB_HELP) \<longrightarrow> (\<exists>name val. Flag name val \<in> set rest \<and> name \<notin> set (flags_of verb)) \<longrightarrow>
        (\<exists>name val. Flag name val \<in> set rest \<and> name \<notin> set (flags_of verb) \<and> parse H line = Inl (UnknownFlag verb name))) \<and>
     (verb \<in> set (map vh_name VERB_HELP) \<longrightarrow> (\<forall>name val. Flag name val \<in> set rest \<longrightarrow> name \<in> set (flags_of verb)) \<longrightarrow>
        arity_of verb < length (concat (map word_list rest)) \<longrightarrow>
        parse H line = Inl (TooManyArguments verb (arity_of verb) (length (concat (map word_list rest)))))"
  using parse_refuses [OF assms] by blast

theorem parse_refuses_the_rest_witness:
  "parse env_demo ''rm /a --force'' = Inl (UnknownFlag ''rm'' ''force'')"
proof -
  have "tokenize ''rm /a --force'' = Inr (Word ''rm'' # [Word ''/a'', Flag ''force'' None])" by code_simp
  moreover have "''rm'' \<in> set (map vh_name VERB_HELP)" "''force'' \<notin> set (flags_of ''rm'')" by code_simp+
  ultimately show ?thesis using parse_refuses_the_rest [OF env_ok_demo] by fastforce
qed

text \<open>C31. A session of command lines on a well-formed store leaves a well-formed store, whatever the
  lines say: refused lines, failing commands and commands that change the store alike.\<close>

theorem session_keeps_the_store:
  assumes "ext_ok E" "env_ok H" "wf E s"
    and "list_all sizes_fit (repl_states H (execute (sqlite_file_system E C)) ctx lines s)"
    and "run_repl H (execute (sqlite_file_system E C)) ctx lines s = Some (out, t)"
  shows "wf E t"
  using sqlite.run_repl_keeps [OF assms(2) _ assms(4,5)] assms(1,3) by blast

theorem session_keeps_the_store_witness:
  "\<exists>out t. run_repl env_demo (execute fs_demo) (cx_trusted ws_demo) session_demo db_ws = Some (out, t) \<and>
     length out = 3 \<and> length (nodes t) = 3 \<and> wf ext_demo t"
proof -
  have "map_option (\<lambda>(out, t). (length out, length (nodes t)))
      (run_repl env_demo (execute fs_demo) (cx_trusted ws_demo) session_demo db_ws) = Some (3, 3)" by code_simp
  then obtain out t where r: "run_repl env_demo (execute fs_demo) (cx_trusted ws_demo) session_demo db_ws = Some (out, t)"
    "length out = 3" "length (nodes t) = 3" by auto
  have "list_all sizes_fit (repl_states env_demo (execute fs_demo) (cx_trusted ws_demo) session_demo db_ws)" by code_simp
  from session_keeps_the_store [OF ext_ok_demo env_ok_demo wf_db_ws this [unfolded fs_demo_def] r(1) [unfolded fs_demo_def]] r
  show ?thesis by blast
qed

text \<open>C32. From the command line to the tables and back: after a write command that succeeds, the cat
  command for the same path shows exactly the text that was given.\<close>

theorem write_line_then_cat_line:
  assumes "ext_ok E" "env_ok H" "wf E s" "cx_workspace_id ctx \<in> w_id ` set (workspaces s)"
    and "CapRead \<in> set (cx_capabilities ctx)"
    and "tokenize wline = Inr (map classify [''write'', p, ''--text='' @ text])"
    and "tokenize cline = Inr (map classify [''cat'', p])"
    and "take 2 p \<noteq> ''--''" "parse_path verb name p = Inr path"
    and "run_line H (execute (sqlite_file_system E C)) ctx wline s = Some ((shown, 0), t)"
    and "sizes_fit t" "revisions_fit t"
  shows "\<exists>len rev rg. run_line H (execute (sqlite_file_system E C)) ctx cline t
    = Some ((Shown (OutContent len rev rg (as_bytes text)), 0), t) \<and> unat len = length text"
proof -
  have "parse H wline = Inr (CmdWrite path (as_bytes text) write_options_default)"
    by (rule parse_write_line [OF assms(2) _ assms(9)])
      (use assms(6,8) in \<open>simp add: classify_plain classify_text [simplified]\<close>)
  moreover have "parse H cline = Inr (CmdRead path read_options_default)"
    by (rule parse_cat_line [OF assms(2) _ assms(9)]) (use assms(7,8) in \<open>simp add: classify_plain\<close>)
  ultimately show ?thesis
    using write_line_stores [OF assms(1,3,4) parse_path_canonical [OF assms(9)] _ assms(10)]
      cat_line_shows [OF _ assms(11,12) _ assms(5)]
    by (fastforce simp: read_options_default_def as_bytes_def)
qed

theorem write_line_then_cat_line_witness:
  "\<exists>len rev rg t. run_line env_demo (execute fs_demo) (cx_trusted ws_demo) (quote_line [''cat'', ''f x'']) t
    = Some ((Shown (OutContent len rev rg (as_bytes ''a;b'')), 0), t)"
proof -
  let ?wline = "quote_line [''write'', ''f x'', ''--text=a;b'']"
  have "map_option (\<lambda>((out, code), t). (code, sizes_fit t, revisions_fit t))
      (run_line env_demo (execute fs_demo) (cx_trusted ws_demo) ?wline db_ws) = Some (0, True, True)" by code_simp
  then obtain out t where r: "run_line env_demo (execute fs_demo) (cx_trusted ws_demo) ?wline db_ws = Some ((out, 0), t)"
    and fit: "sizes_fit t" "revisions_fit t" by auto
  have "cx_workspace_id (cx_trusted ws_demo) \<in> w_id ` set (workspaces db_ws)"
    "CapRead \<in> set (cx_capabilities (cx_trusted ws_demo))"
    "tokenize ?wline = Inr (map classify [''write'', ''f x'', ''--text='' @ ''a;b''])"
    "tokenize (quote_line [''cat'', ''f x'']) = Inr (map classify [''cat'', ''f x''])"
    "take 2 ''f x'' \<noteq> ''--''" "parse_path ''write'' ''path'' ''f x'' = Inr (VirtualPath ''/f x'')" by code_simp+
  from write_line_then_cat_line [OF ext_ok_demo env_ok_demo wf_db_ws this r [unfolded fs_demo_def] fit]
  show ?thesis unfolding fs_demo_def by blast
qed

section \<open>What is shown\<close>

text \<open>C33. Whatever names, paths, link targets and file contents are stored, the text of a result has
  exactly one row for each item (one for an empty page, three for the usage), and no row has a
  control character, a bidirectional override or a Unicode line break: nothing stored forges a row
  or reaches the terminal as a control sequence. Only the content of a file is shown as it is.\<close>

theorem stored_text_forges_no_row:
  assumes "presentable out" "row_count out = Some n"
  shows "length (split_on newline (render_human out)) = n \<and>
    list_all (\<lambda>row. list_all harmless (utf8_chars row)) (split_on newline (render_human out))"
  using render_rows [OF assms] by (auto simp: shows_rows_def clean_def list_all_iff)

theorem stored_text_forges_no_row_witness:
  "\<exists>out. presentable out \<and> length (split_on newline (render_human out)) = 2"
proof -
  let ?n = "\<lambda>name. \<lparr>nd_workspace_id = ''w'', nd_id = ''i'', nd_parent_id = None, nd_name = name, nd_kind = File,
    nd_logical_size = 3, nd_created_at_ms = 0, nd_modified_at_ms = 0, nd_accessed_at_ms = 0,
    nd_revision = rev_initial, nd_attributes = []\<rparr>"
  let ?out = "OutNodes \<lparr>pg_items = [?n (''a'' @ [newline] @ ''file''), ?n [CHR 0x1B]], pg_next_cursor = None\<rparr>"
  have "presentable ?out" "row_count ?out = Some 2" by (simp_all add: utf8_ok_def utf8_cont_def)
  with stored_text_forges_no_row [OF this] show ?thesis by blast
qed

section \<open>The command line's state\<close>

text \<open>C34. Where the workspace of an invocation comes from. An id given on the command line is used as it
  is, whichever file system is opened; nothing vouches for it before the file system itself. Any
  other workspace is a name, and it is looked up in the registry under the very file system whose
  database is opened, never under another one: with an explicit file system the name is the explicit
  one and never the saved one, with the saved file system it is the one on the command line or
  else the one saved beside that file system; and with a database path, an in-memory database or a
  server, which have no registered name, no name is accepted at all.\<close>

theorem workspace_and_target_agree:
  assumes "resolve_target H c m = Inr (tgt, src)" "resolve_workspace H E c src m = Inr i"
  shows "(\<forall>w j. cli_workspace c = Some w \<and> uuid_parse E w = Inr j \<longrightarrow> i = j) \<and>
    ((\<forall>w. cli_workspace c = Some w \<longrightarrow> isl (uuid_parse E w)) \<longrightarrow>
       same_source H c m tgt i \<and> \<not> unregistered_target c)"
  using workspace_from_id [OF assms(2)] workspace_from_source [OF assms] by blast

theorem workspace_and_target_agree_witness:
  "resolve_target host_demo cli_demo machine_run = Inr (Local ''/d/fslite.db'', FromContext ''default'') \<and>
   same_source host_demo cli_demo machine_run (Local ''/d/fslite.db'') ''u''"
proof
  show t: "resolve_target host_demo cli_demo machine_run = Inr (Local ''/d/fslite.db'', FromContext ''default'')" by code_simp
  have "resolve_workspace host_demo ext_demo cli_demo (FromContext ''default'') machine_run = Inr ''u''" by code_simp
  with workspace_and_target_agree [OF t] show "same_source host_demo cli_demo machine_run (Local ''/d/fslite.db'') ''u''"
    by (simp add: cli_demo_def)
qed

text \<open>C35. However the commands create, delete, use and bootstrap follow each other, failing or not,
  and whatever happens to the databases, the two state files agree: every registered workspace
  belongs to a registered file system and the active context, if there is one, points at a
  registered workspace. (Writing the state files themselves does not fail.)\<close>

theorem cli_state_stays_consistent:
  assumes "writable_host H" "cli_reachable H E m"
  shows "consistent m"
  using assms by (rule reachable_consistent)

theorem cli_state_stays_consistent_witness:
  "consistent (snd (delete_filesystem host_demo ''default'' True (Inr '''') machine_run)) \<and>
   fst (delete_filesystem host_demo ''default'' True (Inr '''') machine_run) = Inr ()"
proof
  have "cli_reachable host_demo ext_demo machine_demo" by (rule fresh) (simp_all add: machine_demo_def)
  from first_run [OF this this] have "cli_reachable host_demo ext_demo machine_run" by (simp add: machine_run_def)
  then show "consistent (snd (delete_filesystem host_demo ''default'' True (Inr '''') machine_run))"
    by (intro cli_state_stays_consistent [OF writable_host_demo] delete)
  show "fst (delete_filesystem host_demo ''default'' True (Inr '''') machine_run) = Inr ()" by code_simp
qed

text \<open>C36. A first run that creates the default file system leaves a context that is valid, so that the
  next run finds it and creates nothing, whatever other processes did before the lock was granted.\<close>

theorem first_run_is_final:
  assumes "writable_host H" "ensure_default H E others m = (Inr True, m')"
  shows "active_context_is_valid H m' = (Inr True, m') \<and> (\<forall>others'. ensure_default H E others' m' = (Inr False, m'))"
  using first_run_settles [OF assms] by blast

theorem first_run_is_final_witness:
  "ensure_default host_demo ext_demo (\<lambda>m. m) machine_run = (Inr False, machine_run)"
  using first_run_is_final [OF writable_host_demo first_run_demo] by blast

text \<open>C37. The doctor's exit code is zero exactly when the state files load, agree with each other, and
  every registered file system has a database that exists, opens, passes the integrity check, is
  writable and holds every workspace registered for it; the checks leave the state files and every
  database with a schema as they were.\<close>

theorem doctor_tells_the_truth:
  "exit_code (fst (doctor_run H m)) = (if healthy H m then 0 else 1) \<and> kept m (snd (doctor_run H m))"
  using doctor_exit by (metis prod.collapse)

text \<open>C38. A command sent to the server over HTTP, errors included, does and returns what the command that
  was sent does in the process of the store. This holds for every command but \<open>Read\<close> (C39), with a
  token for the workspace, a body within the server's limits, and paths and identifiers
  that survive the URL, which \<open>remote.rs\<close> does not escape: not the root where the routes of nodes and
  of content are used, no control character, question mark, number sign, percent sign or backslash in
  a path, no space at its end, and for stat and exists no last name \<open>link-target\<close>, which names
  another route; page limits and depths are 32-bit and revisions not zero, as the source's types
  have them. The command that was sent is the given one, except that the
  \<open>create\<close> option of \<open>WriteAt\<close> and \<open>Append\<close> is not sent: they always create.\<close>

theorem remote_is_local:
  assumes "routes_ok W R (cx_workspace_id ctx)" "signed_in W A R ctx" "base64_ok W"
    and "as_fs A = sqlite_file_system E C"
    and "sendable W (as_sent cmd)" "body_fits W (as_sent cmd) (sent_body W R ctx cmd)"
  shows "remote_execute W (through W A) R ctx cmd s = execute (sqlite_file_system E C) ctx (as_sent cmd) s \<and>
    (sendable W cmd \<longrightarrow> as_sent cmd = cmd)"
  using sqlite_served.agrees [OF assms(4), of W R ctx "as_sent cmd" s] assms as_sent_id [of W cmd]
  unfolding remote_agrees_def by (simp add: sent_the_same sent_body_the_same)

theorem remote_is_local_witness:
  "\<exists>n t. remote_execute wire_demo (through wire_demo state_demo) remote_demo (cx_trusted ws_demo)
     (CmdMkdir p_a create_options_default) db_ws = Some (Inr (OutNode n), t)"
proof -
  let ?cmd = "CmdMkdir p_a create_options_default"
  have "\<exists>n. fst (fs_mkdir ext_demo (cx_trusted ws_demo) p_a create_options_default db_ws) = Inr n"
  proof -
    have "case fst (fs_mkdir ext_demo (cx_trusted ws_demo) p_a create_options_default db_ws) of Inr _ \<Rightarrow> True | Inl _ \<Rightarrow> False"
      by code_simp
    then show ?thesis by (auto split: sum.splits)
  qed
  then have local: "\<exists>n t. execute (sqlite_file_system ext_demo codecs_demo) (cx_trusted ws_demo) ?cmd db_ws = Some (Inr (OutNode n), t)"
    by (auto simp: sqlite_file_system_def changed_def)
  have "sendable wire_demo (as_sent ?cmd)" by code_simp
  moreover have "body_fits wire_demo (as_sent ?cmd) (sent_body wire_demo remote_demo (cx_trusted ws_demo) ?cmd)"
    by (simp add: body_fits_def sent_defs wire_demo_def)
  moreover have "cx_workspace_id (cx_trusted ws_demo) = ws_demo" by (simp add: cx_trusted_def)
  moreover have "as_fs state_demo = sqlite_file_system ext_demo codecs_demo" by (simp add: state_demo_def)
  ultimately show ?thesis
    using remote_is_local [of wire_demo remote_demo "cx_trusted ws_demo" state_demo ext_demo codecs_demo ?cmd db_ws]
      routes_demo signed_in_demo base64_demo local by simp
qed

text \<open>C39. A read over HTTP, under the restrictions of C38 on the path (it survives the URL, is not the
  root and its last name is not \<open>link-target\<close>): when it follows links, as the client requires, and asks
  for the whole file or for a range that is not empty and starts inside it, then what the same
  read in the process of the store returns comes back: bytes, range, length and revision. Without the
  restriction on the path it can be another file: \<open>/a?b\<close> is sent as a request for \<open>/a\<close>.\<close>

theorem remote_read_is_local:
  assumes "routes_ok W R (cx_workspace_id ctx)" "signed_in W A R ctx"
    and "as_fs A = sqlite_file_system E C" "in_order E s" "stat_addressable path"
    and "ro_follow_symlinks options" "fs_read ctx path options s = Inr fr"
    and "asked_within (ro_range options) (fr_logical_length fr)"
  shows "remote_execute W (through W A) R ctx (CmdRead path options) s =
     Some (Inr (OutContent (fr_logical_length fr) (fr_revision fr) (fr_range fr) (concat (fr_stream fr))), s)"
  using sqlite_content.reads_agree [OF assms(3,1,2,5,4,6) _ assms(8)] assms(3,7)
  by (simp add: sqlite_file_system_def answer_def drained_file)

theorem remote_read_is_local_witness:
  "\<exists>revision. remote_execute wire_demo (through wire_demo state_demo) remote_demo (cx_trusted ws_demo)
       (CmdRead p_f \<lparr>ro_range = Some (br_new 1 9), ro_follow_symlinks = True\<rparr>) db_file =
     Some (Inr (OutContent 3 revision (br_new 1 3) [2, 3]), db_file)"
proof -
  let ?p = "\<lparr>ro_range = Some (br_new 1 9), ro_follow_symlinks = True\<rparr>"
  have "case fs_read (cx_trusted ws_demo) p_f ?p db_file of
      Inr fr \<Rightarrow> fr_logical_length fr = 3 \<and> fr_range fr = br_new 1 3 \<and> concat (fr_stream fr) = [2, 3] | Inl _ \<Rightarrow> False" by code_simp
  then obtain fr where fr: "fs_read (cx_trusted ws_demo) p_f ?p db_file = Inr fr" "fr_logical_length fr = 3"
    "fr_range fr = br_new 1 3" "concat (fr_stream fr) = [2, 3]" by (auto split: sum.splits)
  have "in_order ext_demo db_file" using ext_ok_demo wf_db_file fits_db_file by (simp add: in_order_def)
  moreover have "stat_addressable p_f" by code_simp
  moreover have "cx_workspace_id (cx_trusted ws_demo) = ws_demo" by (simp add: cx_trusted_def)
  moreover have "as_fs state_demo = sqlite_file_system ext_demo codecs_demo" by (simp add: state_demo_def)
  ultimately show ?thesis
    using remote_read_is_local [of wire_demo remote_demo "cx_trusted ws_demo" state_demo ext_demo codecs_demo db_file p_f ?p fr]
      routes_demo signed_in_demo fr by (auto simp: asked_within_def br_new_def)
qed

text \<open>C40. A request without a credential for the workspace its URL names, or without one that may
  administer workspaces where that is asked for, changes nothing, and the answer is the same
  whatever the store holds; only the readiness probe looks at the store without a credential.\<close>

theorem unauthorized_sees_nothing:
  assumes "\<not> authorized W A rq" "w_match W (rq_url rq) \<noteq> Some Readyz"
  shows "\<exists>response. \<forall>s. app W A rq s = Some (response, s)"
  by (rule unauthorized_blind [OF assms])

theorem unauthorized_sees_nothing_witness:
  "\<exists>response. \<forall>s. app wire_demo state_demo
     ((build_request DELETE (remote_url remote_demo ws_demo ''/fs/f'') [] no_body)\<lparr>rq_authorization := Some ''Bearer other''\<rparr>) s
     = Some (response, s)"
proof (rule unauthorized_sees_nothing)
  let ?rq = "(build_request DELETE (remote_url remote_demo ws_demo ''/fs/f'') [] no_body)\<lparr>rq_authorization := Some ''Bearer other''\<rparr>"
  have m: "w_match wire_demo (rq_url ?rq) = Some (AtFs ws_demo ''f'')"
    using below_demo_match [of "''/fs/f''"] by (simp add: build_request_def below_demo_def)
  then show "w_match wire_demo (rq_url ?rq) \<noteq> Some Readyz" by simp
  have "as_auth state_demo (rq_authorization ?rq) = Inr \<lparr>aa_workspace_id = ''elsewhere'', aa_capabilities = [CapRead], aa_actor_metadata = []\<rparr>"
    by (simp add: state_demo_def bearer_authenticate_def tokens_demo_def ok_or_def build_request_def)
  with m show "\<not> authorized wire_demo state_demo ?rq" by (simp add: authorized_def wire_demo_def ws_demo_def)
qed

end
